(* ===== verification/Prelude.thy ===== *)
theory Prelude
  imports Main "HOL-Library.Sublist" "HOL-Library.Char_ord" "HOL-Library.List_Lexorder"
begin

text \<open>
  Shared vocabulary of the development: bytes and text, the exceptions of the scripts as values,
  result combinators for code that can raise, loops over lists that can raise, decimal numerals
  and the string predicates of Python that the scripts use.

  A Python \<open>bytes\<close> value and a Python \<open>str\<close> value are both a \<open>char list\<close>: a \<open>char\<close> of HOL is
  an octet, and a \<open>str\<close> is represented by its UTF-8 encoding (lone surrogates encoded the same
  way). Equality, concatenation, prefix and suffix tests and the code point order of Python agree
  with equality, concatenation, prefix, suffix and lexicographic octet order of the encodings.
\<close>

section \<open>Types\<close>

type_synonym bytes = "char list"

text \<open>
  One constructor per exception class the scripts raise, catch or let escape; \<open>UsageError\<close> is the
  exit of \<open>argparse\<close>'s \<open>parser.error\<close>. The last two belong to the model of \<open>json.loads\<close>.
\<close>

datatype err =
    ValueError string
  | DraftNotReady string
  | JSONDecodeError
  | UnicodeDecodeError
  | OSError string
  | TypeError
  | AttributeError
  | KeyError
  | AssertionError
  | RetirementError string
  | GitHubApiUnavailable string
  | UsageError string
  | TarError string
  | UnsupportedEncoding
  | OutOfFuel

type_synonym 'a res = "err + 'a"

section \<open>Results\<close>

named_theorems res_iff \<open>when a computation that can raise returns a value\<close>

definition bindE :: "'e + 'a \<Rightarrow> ('a \<Rightarrow> 'e + 'b) \<Rightarrow> 'e + 'b" where
  "bindE m f = (case m of Inl e \<Rightarrow> Inl e | Inr x \<Rightarrow> f x)"

lemma bindE_Inl [simp]: "bindE (Inl e) f = Inl e"
  by (simp add: bindE_def)

lemma bindE_Inr [simp]: "bindE (Inr x) f = f x"
  by (simp add: bindE_def)

lemma bindE_eq_Inr [res_iff]: "bindE m f = Inr y \<longleftrightarrow> (\<exists>x. m = Inr x \<and> f x = Inr y)"
  by (cases m) auto

lemma bindE_cong [fundef_cong]:
  "m = m' \<Longrightarrow> (\<And>x. m' = Inr x \<Longrightarrow> f x = f' x) \<Longrightarrow> bindE m f = bindE m' f'"
  by (cases m') auto

lemma raise_if_eq_Inr [res_iff]: "(if c then Inl e else k) = Inr y \<longleftrightarrow> \<not> c \<and> k = Inr y"
  by auto

lemma raise_unless_eq_Inr [res_iff]: "(if c then k else Inl e) = Inr y \<longleftrightarrow> c \<and> k = Inr y"
  by auto

lemma bindE_split: "P (bindE m f) \<longleftrightarrow> (\<forall>e. m = Inl e \<longrightarrow> P (Inl e)) \<and> (\<forall>x. m = Inr x \<longrightarrow> P (f x))"
  by (cases m) auto

lemma ex_unit: "(\<exists>x :: unit. P x) \<longleftrightarrow> P ()"
  by auto

text \<open>The code that asks for exactly one element.\<close>

lemma case_single_eq_Inr [res_iff]:
  "(case xs of [x] \<Rightarrow> f x | _ \<Rightarrow> Inl e) = Inr y \<longleftrightarrow> (\<exists>x. xs = [x] \<and> f x = Inr y)"
  by (cases xs; cases "tl xs") auto

section \<open>Loops that can raise\<close>

text \<open>\<open>foldE f s xs\<close> is \<open>for x in xs: s = f(s, x)\<close>, stopped by the first exception.\<close>

fun foldE :: "('s \<Rightarrow> 'a \<Rightarrow> 'e + 's) \<Rightarrow> 's \<Rightarrow> 'a list \<Rightarrow> 'e + 's" where
  "foldE f s [] = Inr s"
| "foldE f s (x # xs) = bindE (f s x) (\<lambda>t. foldE f t xs)"

fun mapE :: "('a \<Rightarrow> 'e + 'b) \<Rightarrow> 'a list \<Rightarrow> 'e + 'b list" where
  "mapE f [] = Inr []"
| "mapE f (x # xs) = bindE (f x) (\<lambda>y. bindE (mapE f xs) (\<lambda>ys. Inr (y # ys)))"

lemma foldE_append: "foldE f s (xs @ ys) = bindE (foldE f s xs) (\<lambda>t. foldE f t ys)"
  by (induction xs arbitrary: s) (auto simp: bindE_def split: sum.split)

lemma foldE_invariant:
  assumes "foldE f s xs = Inr s'" and "P s"
    and "\<And>s x t. x \<in> set xs \<Longrightarrow> P s \<Longrightarrow> f s x = Inr t \<Longrightarrow> P t"
  shows "P s'"
  using assms
proof (induction xs arbitrary: s)
  case Nil
  then show ?case by simp
next
  case (Cons x xs)
  then obtain t where "f s x = Inr t" "foldE f t xs = Inr s'"
    by (auto simp: res_iff)
  with Cons show ?case by (metis list.set_intros)
qed

lemma foldE_cong:
  "(\<And>s x. x \<in> set xs \<Longrightarrow> f s x = g s x) \<Longrightarrow> foldE f s xs = foldE g s xs"
  by (induction xs arbitrary: s) (auto intro: bindE_cong)

lemma mapE_eq_Inr: "mapE f xs = Inr ys \<longleftrightarrow> list_all2 (\<lambda>x y. f x = Inr y) xs ys"
proof (induction xs arbitrary: ys)
  case Nil
  show ?case by (cases ys) auto
next
  case (Cons x xs)
  show ?case by (cases ys) (auto simp: res_iff Cons)
qed

lemma mapE_Inr_length: "mapE f xs = Inr ys \<Longrightarrow> length ys = length xs"
  by (auto simp: mapE_eq_Inr dest: list_all2_lengthD)

lemma mapE_Inr_map: "(\<And>x. x \<in> set xs \<Longrightarrow> f x = Inr (g x)) \<Longrightarrow> mapE f xs = Inr (map g xs)"
  by (induction xs) auto

section \<open>Which exceptions are raised\<close>

definition raises :: "('e \<Rightarrow> bool) \<Rightarrow> 'e + 'a \<Rightarrow> bool" where
  "raises P m \<longleftrightarrow> (\<forall>e. m = Inl e \<longrightarrow> P e)"

named_theorems raises_intro \<open>which exceptions a computation can raise\<close>

lemma raises_Inl [raises_intro]: "P e \<Longrightarrow> raises P (Inl e)"
  by (simp add: raises_def)

lemma raises_Inr [raises_intro]: "raises P (Inr x)"
  by (simp add: raises_def)

lemma raises_bindE [raises_intro]:
  "raises P m \<Longrightarrow> (\<And>x. m = Inr x \<Longrightarrow> raises P (f x)) \<Longrightarrow> raises P (bindE m f)"
  by (cases m) (auto simp: raises_def)

lemma raises_if [raises_intro]:
  "(c \<Longrightarrow> raises P m) \<Longrightarrow> (\<not> c \<Longrightarrow> raises P k) \<Longrightarrow> raises P (if c then m else k)"
  by simp

lemma raises_Let [raises_intro]: "raises P (f x) \<Longrightarrow> raises P (let y = x in f y)"
  by simp

lemma raises_case_option [raises_intro]:
  "(v = None \<Longrightarrow> raises P m) \<Longrightarrow> (\<And>x. v = Some x \<Longrightarrow> raises P (f x)) \<Longrightarrow>
   raises P (case v of None \<Rightarrow> m | Some x \<Rightarrow> f x)"
  by (cases v) simp_all

lemma raises_case_prod [raises_intro]:
  "(\<And>x y. p = (x, y) \<Longrightarrow> raises P (f x y)) \<Longrightarrow> raises P (case p of (x, y) \<Rightarrow> f x y)"
  by (cases p) simp

lemma raises_foldE [raises_intro]:
  "(\<And>s x. x \<in> set xs \<Longrightarrow> raises P (f s x)) \<Longrightarrow> raises P (foldE f s xs)"
  by (induction xs arbitrary: s) (auto intro!: raises_intro)

lemma raises_mapE [raises_intro]:
  "(\<And>x. x \<in> set xs \<Longrightarrow> raises P (f x)) \<Longrightarrow> raises P (mapE f xs)"
  by (induction xs) (auto intro!: raises_intro)

lemma raises_or: "raises P m \<Longrightarrow> raises (\<lambda>e. P e \<or> Q e) m"
  by (simp add: raises_def)

section \<open>Octets\<close>

abbreviation byte_val :: "char \<Rightarrow> nat" where
  "byte_val \<equiv> of_char"

lemma byte_val_less [simp]: "byte_val c < 256"
  by (cases c) (simp add: of_char_def horner_sum_simps)

lemma nul_byte_val [simp]: "byte_val (CHR 0x00) = 0"
  by simp

lemma byte_val_0_iff: "byte_val c = 0 \<longleftrightarrow> c = CHR 0x00"
proof -
  have "byte_val c = byte_val (CHR 0x00) \<longleftrightarrow> c = CHR 0x00"
    by (rule of_char_eq_iff)
  then show ?thesis by (simp only: nul_byte_val)
qed

section \<open>Decimal numerals\<close>

definition digit_char :: "nat \<Rightarrow> char" where
  "digit_char d = char_of (48 + d)"

definition digit_val :: "char \<Rightarrow> nat" where
  "digit_val c = byte_val c - 48"

definition is_digit :: "char \<Rightarrow> bool" where
  "is_digit c \<longleftrightarrow> 48 \<le> byte_val c \<and> byte_val c \<le> 57"

text \<open>\<open>str(n)\<close> of a natural number.\<close>

fun dec_nat :: "nat \<Rightarrow> string" where
  "dec_nat n = (if n < 10 then [digit_char n] else dec_nat (n div 10) @ [digit_char (n mod 10)])"

declare dec_nat.simps [simp del]

definition dec_int :: "int \<Rightarrow> string" where
  "dec_int i = (if i < 0 then CHR ''-'' # dec_nat (nat (- i)) else dec_nat (nat i))"

text \<open>\<open>int(s)\<close> of a string of ASCII digits.\<close>

definition nat_of_digits :: "string \<Rightarrow> nat" where
  "nat_of_digits s = foldl (\<lambda>a c. 10 * a + digit_val c) 0 s"

lemma digit_char_val [simp]: "d < 10 \<Longrightarrow> digit_val (digit_char d) = d"
  by (simp add: digit_val_def digit_char_def of_char_of)

lemma digit_char_is_digit [simp]: "d < 10 \<Longrightarrow> is_digit (digit_char d)"
  by (simp add: is_digit_def digit_char_def of_char_of)

lemma digit_val_less: "is_digit c \<Longrightarrow> digit_val c < 10"
  by (auto simp: is_digit_def digit_val_def)

lemma digit_char_of_val: "is_digit c \<Longrightarrow> digit_char (digit_val c) = c"
  by (simp add: is_digit_def digit_val_def digit_char_def)

lemma dec_nat_digits: "list_all is_digit (dec_nat n)"
proof (induction n rule: dec_nat.induct)
  case (1 n)
  then show ?case by (subst dec_nat.simps) simp
qed

lemma dec_nat_nonempty [simp]: "dec_nat n \<noteq> []"
  by (subst dec_nat.simps) simp

lemma dec_nat_set_digits: "c \<in> set (dec_nat n) \<Longrightarrow> is_digit c"
  using dec_nat_digits [of n] by (simp add: list_all_iff)

lemma nat_of_digits_snoc [simp]: "nat_of_digits (s @ [c]) = 10 * nat_of_digits s + digit_val c"
  by (simp add: nat_of_digits_def)

lemma nat_of_digits_Nil [simp]: "nat_of_digits [] = 0"
  by (simp add: nat_of_digits_def)

lemma nat_of_digits_dec_nat [simp]: "nat_of_digits (dec_nat n) = n"
proof (induction n rule: dec_nat.induct)
  case (1 n)
  show ?case
  proof (cases "n < 10")
    case True
    then show ?thesis
      using nat_of_digits_snoc [of "[]" "digit_char n"] by (subst dec_nat.simps) simp
  next
    case False
    with 1 show ?thesis by (subst dec_nat.simps) simp
  qed
qed

lemma dec_nat_inject [simp]: "dec_nat m = dec_nat n \<longleftrightarrow> m = n"
  by (metis nat_of_digits_dec_nat)

lemma dec_nat_hd_nonzero: "0 < n \<Longrightarrow> hd (dec_nat n) \<noteq> CHR ''0''"
proof (induction n rule: dec_nat.induct)
  case (1 n)
  show ?case
  proof (cases "n < 10")
    case True
    have "hd (dec_nat n) = digit_char n" using True by (subst dec_nat.simps) simp
    moreover have "digit_char n \<noteq> CHR ''0''"
    proof
      assume "digit_char n = CHR ''0''"
      then have "digit_val (digit_char n) = 0" by (simp add: digit_val_def)
      with True 1(2) show False by simp
    qed
    ultimately show ?thesis by simp
  next
    case False
    with 1 have "hd (dec_nat (n div 10)) \<noteq> CHR ''0''" by simp
    with False show ?thesis by (subst dec_nat.simps) simp
  qed
qed

lemma dec_nat_0 [simp]: "dec_nat 0 = ''0''"
proof -
  have "dec_nat 0 = [digit_char 0]" by (subst dec_nat.simps) simp
  moreover have "digit_char 0 = char_of (of_char (CHR ''0'') :: nat)" by (simp add: digit_char_def)
  ultimately show ?thesis by (simp only: char_of_char)
qed

section \<open>Text predicates\<close>

definition startswith :: "string \<Rightarrow> string \<Rightarrow> bool" where
  "startswith s p \<longleftrightarrow> take (length p) s = p"

definition endswith :: "string \<Rightarrow> string \<Rightarrow> bool" where
  "endswith s p \<longleftrightarrow> length p \<le> length s \<and> drop (length s - length p) s = p"

lemma startswith_iff: "startswith s p \<longleftrightarrow> (\<exists>t. s = p @ t)"
  by (metis append_eq_conv_conj startswith_def)

lemma startswith_append [simp]: "startswith (p @ t) p"
  by (auto simp: startswith_iff)

lemma endswith_iff: "endswith s p \<longleftrightarrow> (\<exists>t. s = t @ p)"
proof
  assume "endswith s p"
  then have "s = take (length s - length p) s @ p"
    by (metis append_take_drop_id endswith_def)
  then show "\<exists>t. s = t @ p" by blast
next
  assume "\<exists>t. s = t @ p"
  then show "endswith s p" by (auto simp: endswith_def)
qed

text \<open>
  \<open>any(character.isspace() for character in s)\<close>: the ASCII white space, the information
  separators, and the UTF-8 encodings of U+0085, U+00A0, U+1680, U+2000 to U+200A, U+2028,
  U+2029, U+202F, U+205F and U+3000.
\<close>

definition ascii_space :: "char \<Rightarrow> bool" where
  "ascii_space c \<longleftrightarrow> (9 \<le> byte_val c \<and> byte_val c \<le> 13) \<or> (28 \<le> byte_val c \<and> byte_val c \<le> 32)"

definition space2 :: "char \<Rightarrow> char \<Rightarrow> bool" where
  "space2 a b \<longleftrightarrow> byte_val a = 0xC2 \<and> (byte_val b = 0x85 \<or> byte_val b = 0xA0)"

definition space3 :: "char \<Rightarrow> char \<Rightarrow> char \<Rightarrow> bool" where
  "space3 a b c \<longleftrightarrow>
     (byte_val a = 0xE1 \<and> byte_val b = 0x9A \<and> byte_val c = 0x80)
   \<or> (byte_val a = 0xE2 \<and> byte_val b = 0x80 \<and>
        ((0x80 \<le> byte_val c \<and> byte_val c \<le> 0x8A) \<or> byte_val c = 0xA8 \<or> byte_val c = 0xA9
         \<or> byte_val c = 0xAF))
   \<or> (byte_val a = 0xE2 \<and> byte_val b = 0x81 \<and> byte_val c = 0x9F)
   \<or> (byte_val a = 0xE3 \<and> byte_val b = 0x80 \<and> byte_val c = 0x80)"

fun has_space :: "string \<Rightarrow> bool" where
  "has_space [] = False"
| "has_space [a] = ascii_space a"
| "has_space [a, b] = (ascii_space a \<or> space2 a b \<or> has_space [b])"
| "has_space (a # b # c # s) =
     (ascii_space a \<or> space2 a b \<or> space3 a b c \<or> has_space (b # c # s))"

lemma has_space_ascii:
  "(\<And>c. c \<in> set s \<Longrightarrow> 32 < byte_val c \<and> byte_val c < 128) \<Longrightarrow> \<not> has_space s"
proof (induction s rule: has_space.induct)
  case (2 a)
  then have "32 < byte_val a" by simp
  then show ?case by (simp add: ascii_space_def)
next
  case (3 a b)
  then have "32 < byte_val a" "byte_val a < 128" "32 < byte_val b" by auto
  then show ?case by (simp add: ascii_space_def space2_def)
next
  case (4 a b c s)
  then have "32 < byte_val a" "byte_val a < 128" by auto
  moreover have "\<not> has_space (b # c # s)" using 4 by simp
  ultimately show ?case by (simp add: ascii_space_def space2_def space3_def)
qed simp

section \<open>Strict UTF-8\<close>

definition cont_byte :: "char \<Rightarrow> bool" where
  "cont_byte c \<longleftrightarrow> 0x80 \<le> byte_val c \<and> byte_val c \<le> 0xBF"

text \<open>
  \<open>b.decode("utf-8", "strict")\<close> succeeds. With \<open>surr\<close>, encoded surrogates are let through
  (the error handler \<open>surrogatepass\<close>).
\<close>

fun utf8_ok :: "bool \<Rightarrow> bytes \<Rightarrow> bool" where
  "utf8_ok surr [] = True"
| "utf8_ok surr (a # s) =
     (if byte_val a < 0x80 then utf8_ok surr s
      else if 0xC2 \<le> byte_val a \<and> byte_val a \<le> 0xDF then
        (case s of b # s' \<Rightarrow> cont_byte b \<and> utf8_ok surr s' | _ \<Rightarrow> False)
      else if 0xE0 \<le> byte_val a \<and> byte_val a \<le> 0xEF then
        (case s of b # c # s' \<Rightarrow>
           cont_byte b \<and> cont_byte c
           \<and> (byte_val a = 0xE0 \<longrightarrow> 0xA0 \<le> byte_val b)
           \<and> (byte_val a = 0xED \<and> \<not> surr \<longrightarrow> byte_val b \<le> 0x9F)
           \<and> utf8_ok surr s'
         | _ \<Rightarrow> False)
      else if 0xF0 \<le> byte_val a \<and> byte_val a \<le> 0xF4 then
        (case s of b # c # d # s' \<Rightarrow>
           cont_byte b \<and> cont_byte c \<and> cont_byte d
           \<and> (byte_val a = 0xF0 \<longrightarrow> 0x90 \<le> byte_val b)
           \<and> (byte_val a = 0xF4 \<longrightarrow> byte_val b \<le> 0x8F)
           \<and> utf8_ok surr s'
         | _ \<Rightarrow> False)
      else False)"

lemma utf8_ok_ascii: "(\<And>c. c \<in> set s \<Longrightarrow> byte_val c < 128) \<Longrightarrow> utf8_ok surr s"
  by (induction s) auto

end
