(* ===== verification/Py_Regex.thy ===== *)
theory Py_Regex
  imports Prelude
begin

text \<open>
  Python's \<open>re.fullmatch\<close> for the patterns of the scripts: regular expressions over octets as a
  datatype, an executable matcher by derivatives, its correctness against the language of an
  expression, and the patterns that several scripts share.
\<close>

section \<open>Expressions and their languages\<close>

datatype rx =
    Zero
  | Eps
  | Cls "(char \<times> char) list"
  | Seq rx rx
  | Alt rx rx
  | Star rx

definition in_cls :: "(char \<times> char) list \<Rightarrow> char \<Rightarrow> bool" where
  "in_cls rs c \<longleftrightarrow> list_ex (\<lambda>(lo, hi). byte_val lo \<le> byte_val c \<and> byte_val c \<le> byte_val hi) rs"

inductive in_lang :: "rx \<Rightarrow> string \<Rightarrow> bool" where
  eps: "in_lang Eps []"
| cls: "in_cls rs c \<Longrightarrow> in_lang (Cls rs) [c]"
| seq: "in_lang r s \<Longrightarrow> in_lang q t \<Longrightarrow> in_lang (Seq r q) (s @ t)"
| alt1: "in_lang r s \<Longrightarrow> in_lang (Alt r q) s"
| alt2: "in_lang q s \<Longrightarrow> in_lang (Alt r q) s"
| star0: "in_lang (Star r) []"
| star1: "in_lang r s \<Longrightarrow> in_lang (Star r) t \<Longrightarrow> in_lang (Star r) (s @ t)"

inductive_simps in_lang_Zero [simp]: "in_lang Zero s"
inductive_simps in_lang_Eps [simp]: "in_lang Eps s"
inductive_simps in_lang_Cls [simp]: "in_lang (Cls rs) s"
inductive_simps in_lang_Seq: "in_lang (Seq r q) s"
inductive_simps in_lang_Alt [simp]: "in_lang (Alt r q) s"
inductive_cases in_lang_StarE: "in_lang (Star r) s"

section \<open>The matcher\<close>

fun nullable :: "rx \<Rightarrow> bool" where
  "nullable Zero = False"
| "nullable Eps = True"
| "nullable (Cls rs) = False"
| "nullable (Seq r q) = (nullable r \<and> nullable q)"
| "nullable (Alt r q) = (nullable r \<or> nullable q)"
| "nullable (Star r) = True"

fun mk_seq :: "rx \<Rightarrow> rx \<Rightarrow> rx" where
  "mk_seq Zero q = Zero"
| "mk_seq Eps q = q"
| "mk_seq r q = Seq r q"

fun mk_alt :: "rx \<Rightarrow> rx \<Rightarrow> rx" where
  "mk_alt Zero q = q"
| "mk_alt r Zero = r"
| "mk_alt r q = Alt r q"

fun deriv :: "char \<Rightarrow> rx \<Rightarrow> rx" where
  "deriv c Zero = Zero"
| "deriv c Eps = Zero"
| "deriv c (Cls rs) = (if in_cls rs c then Eps else Zero)"
| "deriv c (Seq r q) =
     (if nullable r then mk_alt (mk_seq (deriv c r) q) (deriv c q) else mk_seq (deriv c r) q)"
| "deriv c (Alt r q) = mk_alt (deriv c r) (deriv c q)"
| "deriv c (Star r) = mk_seq (deriv c r) (Star r)"

fun fullmatch :: "rx \<Rightarrow> string \<Rightarrow> bool" where
  "fullmatch r [] = nullable r"
| "fullmatch r (c # s) = fullmatch (deriv c r) s"

section \<open>Correctness of the matcher\<close>

lemma nullable_iff: "nullable r \<longleftrightarrow> in_lang r []"
proof (induction r)
  case (Seq r q)
  then show ?case by (auto simp: in_lang_Seq)
next
  case (Star r)
  then show ?case by (auto intro: in_lang.star0)
qed simp_all

lemma in_lang_mk_seq [simp]: "in_lang (mk_seq r q) s \<longleftrightarrow> in_lang (Seq r q) s"
  by (cases r) (auto simp: in_lang_Seq)

lemma in_lang_mk_alt [simp]: "in_lang (mk_alt r q) s \<longleftrightarrow> in_lang (Alt r q) s"
  by (cases "(r, q)" rule: mk_alt.cases) auto

lemma star_cons_iff: "in_lang (Star r) (c # s) \<longleftrightarrow>
    (\<exists>t u. s = t @ u \<and> in_lang r (c # t) \<and> in_lang (Star r) u)"
proof
  have "in_lang q w \<Longrightarrow> q = Star r \<Longrightarrow> w = c # s \<Longrightarrow>
      \<exists>t u. s = t @ u \<and> in_lang r (c # t) \<and> in_lang (Star r) u" for q w
  proof (induction arbitrary: s rule: in_lang.induct)
    case (star1 r' a b)
    show ?case
    proof (cases a)
      case Nil
      with star1 show ?thesis by simp
    next
      case (Cons d a')
      with star1 show ?thesis by auto
    qed
  qed simp_all
  then show "in_lang (Star r) (c # s) \<Longrightarrow>
      \<exists>t u. s = t @ u \<and> in_lang r (c # t) \<and> in_lang (Star r) u" by blast
next
  assume "\<exists>t u. s = t @ u \<and> in_lang r (c # t) \<and> in_lang (Star r) u"
  then show "in_lang (Star r) (c # s)"
    by (metis append_Cons in_lang.star1)
qed

lemma deriv_iff: "in_lang (deriv c r) s \<longleftrightarrow> in_lang r (c # s)"
proof (induction r arbitrary: s)
  case (Seq r q)
  have "in_lang (Seq r q) (c # s) \<longleftrightarrow>
     (in_lang r [] \<and> in_lang q (c # s)) \<or> (\<exists>t u. s = t @ u \<and> in_lang r (c # t) \<and> in_lang q u)"
    by (auto simp: in_lang_Seq Cons_eq_append_conv)
  then show ?case
    by (auto simp: Seq nullable_iff in_lang_Seq)
next
  case (Star r)
  show ?case
    by (auto simp: star_cons_iff in_lang_Seq Star)
qed auto

theorem fullmatch_iff: "fullmatch r s \<longleftrightarrow> in_lang r s"
  by (induction s arbitrary: r) (auto simp: nullable_iff deriv_iff)

section \<open>Derived forms\<close>

lemma in_lang_Seq_Cls [simp]:
  "in_lang (Seq (Cls rs) q) s \<longleftrightarrow> (\<exists>c t. s = c # t \<and> in_cls rs c \<and> in_lang q t)"
  unfolding in_lang_Seq in_lang_Cls by (metis append_Cons append_Nil)

fun lit :: "string \<Rightarrow> rx" where
  "lit [] = Eps"
| "lit (c # s) = Seq (Cls [(c, c)]) (lit s)"

fun rep :: "nat \<Rightarrow> rx \<Rightarrow> rx" where
  "rep 0 r = Eps"
| "rep (Suc n) r = Seq r (rep n r)"

fun upto_rep :: "nat \<Rightarrow> rx \<Rightarrow> rx" where
  "upto_rep 0 r = Eps"
| "upto_rep (Suc n) r = Alt Eps (Seq r (upto_rep n r))"

definition plus :: "rx \<Rightarrow> rx" where
  "plus r = Seq r (Star r)"

definition opt :: "rx \<Rightarrow> rx" where
  "opt r = Alt Eps r"

lemma in_cls_single [simp]: "in_cls [(c, c)] d \<longleftrightarrow> d = c"
  by (auto simp: in_cls_def dest!: le_antisym)

lemma in_lang_lit [simp]: "in_lang (lit s) t \<longleftrightarrow> t = s"
  by (induction s arbitrary: t) (auto simp: in_lang_Seq)

lemma in_lang_rep_Cls [simp]:
  "in_lang (rep n (Cls rs)) s \<longleftrightarrow> length s = n \<and> list_all (in_cls rs) s"
proof (induction n arbitrary: s)
  case 0
  show ?case by auto
next
  case (Suc n)
  show ?case by (cases s) (auto simp: Suc)
qed

lemma in_lang_upto_Cls [simp]:
  "in_lang (upto_rep n (Cls rs)) s \<longleftrightarrow> length s \<le> n \<and> list_all (in_cls rs) s"
proof (induction n arbitrary: s)
  case 0
  show ?case by auto
next
  case (Suc n)
  show ?case by (cases s) (auto simp: Suc)
qed

lemma in_lang_Star_Cls [simp]: "in_lang (Star (Cls rs)) s \<longleftrightarrow> list_all (in_cls rs) s"
proof (induction s)
  case Nil
  show ?case by (simp add: in_lang.star0)
next
  case (Cons c s)
  then show ?case by (auto simp: star_cons_iff)
qed

lemma in_lang_plus_Cls [simp]:
  "in_lang (plus (Cls rs)) s \<longleftrightarrow> s \<noteq> [] \<and> list_all (in_cls rs) s"
  by (cases s) (auto simp: plus_def)

lemma in_lang_opt [simp]: "in_lang (opt r) s \<longleftrightarrow> s = [] \<or> in_lang r s"
  by (auto simp: opt_def)

lemma in_lang_Seq_lit [simp]: "in_lang (Seq (lit p) r) s \<longleftrightarrow> (\<exists>t. s = p @ t \<and> in_lang r t)"
  by (auto simp: in_lang_Seq)

section \<open>The shared patterns\<close>

definition digit_cls :: "(char \<times> char) list" where
  "digit_cls = [(CHR ''0'', CHR ''9'')]"

definition nonzero_cls :: "(char \<times> char) list" where
  "nonzero_cls = [(CHR ''1'', CHR ''9'')]"

definition hex_cls :: "(char \<times> char) list" where
  "hex_cls = [(CHR ''0'', CHR ''9''), (CHR ''a'', CHR ''f'')]"

abbreviation digits :: rx where
  "digits \<equiv> plus (Cls digit_cls)"

text \<open>\<open>[0-9a-f]{40}\<close>, \<open>[0-9a-f]{64}\<close> and \<open>sha256:[0-9a-f]{64}\<close>\<close>

definition COMMIT_RX :: rx where
  "COMMIT_RX = rep 40 (Cls hex_cls)"

definition DIGEST_RX :: rx where
  "DIGEST_RX = rep 64 (Cls hex_cls)"

definition PREFIXED_DIGEST_RX :: rx where
  "PREFIXED_DIGEST_RX = Seq (lit ''sha256:'') DIGEST_RX"

text \<open>\<open>v[0-9]+\.[0-9]+\.[0-9]+\<close>\<close>

definition VERSION_RX :: rx where
  "VERSION_RX = Seq (lit ''v'') (Seq digits (Seq (lit ''.'') (Seq digits (Seq (lit ''.'') digits))))"

text \<open>\<open>[0-9]+\.[0-9]+(?:\.[0-9]+)?\<close>\<close>

definition GO_VERSION_RX :: rx where
  "GO_VERSION_RX = Seq digits (Seq (lit ''.'') (Seq digits (opt (Seq (lit ''.'') digits))))"

text \<open>\<open>[1-9][0-9]*\<close>, a numeral without a leading zero, and \<open>(?:[2-9]|[1-9][0-9]+)\<close>\<close>

definition NUMERAL_RX :: rx where
  "NUMERAL_RX = Seq (Cls nonzero_cls) (Star (Cls digit_cls))"

definition WRAPPER_RX :: rx where
  "WRAPPER_RX = Alt (Cls [(CHR ''2'', CHR ''9'')]) (Seq (Cls nonzero_cls) digits)"

definition is_hex :: "char \<Rightarrow> bool" where
  "is_hex c \<longleftrightarrow> in_cls hex_cls c"

lemma in_cls_digit [simp]: "in_cls digit_cls c \<longleftrightarrow> is_digit c"
  by (simp add: in_cls_def digit_cls_def is_digit_def)

lemma in_cls_digit_abs [simp]: "in_cls digit_cls = is_digit"
  by (rule ext) simp

lemma in_cls_nonzero: "in_cls nonzero_cls c \<longleftrightarrow> is_digit c \<and> c \<noteq> CHR ''0''"
proof -
  have "byte_val c = byte_val (CHR ''0'') \<longleftrightarrow> c = CHR ''0''"
    by (rule of_char_eq_iff)
  then have "byte_val c \<noteq> 48 \<longleftrightarrow> c \<noteq> CHR ''0''" by simp
  then show ?thesis by (auto simp: in_cls_def nonzero_cls_def is_digit_def)
qed

lemma fullmatch_COMMIT: "fullmatch COMMIT_RX s \<longleftrightarrow> length s = 40 \<and> list_all is_hex s"
  by (simp add: fullmatch_iff COMMIT_RX_def is_hex_def [abs_def])

lemma fullmatch_DIGEST: "fullmatch DIGEST_RX s \<longleftrightarrow> length s = 64 \<and> list_all is_hex s"
  by (simp add: fullmatch_iff DIGEST_RX_def is_hex_def [abs_def])

lemma fullmatch_PREFIXED_DIGEST:
  "fullmatch PREFIXED_DIGEST_RX s \<longleftrightarrow> (\<exists>d. s = ''sha256:'' @ d \<and> fullmatch DIGEST_RX d)"
  by (simp only: fullmatch_iff PREFIXED_DIGEST_RX_def in_lang_Seq_lit)

lemma NUMERAL_dec_nat: "0 < n \<Longrightarrow> in_lang NUMERAL_RX (dec_nat n)"
proof -
  assume "0 < n"
  obtain c s where s: "dec_nat n = c # s"
    using dec_nat_nonempty by (meson list.exhaust)
  with dec_nat_hd_nonzero [OF \<open>0 < n\<close>] have "c \<noteq> CHR ''0''" by simp
  moreover have "is_digit c" "list_all is_digit s"
    using dec_nat_digits [of n] by (auto simp: s)
  ultimately show ?thesis
    by (simp add: NUMERAL_RX_def in_cls_nonzero s)
qed

lemma in_lang_Seq_digits:
  "in_lang (Seq digits q) s \<longleftrightarrow> (\<exists>a t. s = a @ t \<and> a \<noteq> [] \<and> list_all is_digit a \<and> in_lang q t)"
  by (simp only: in_lang_Seq in_lang_plus_Cls in_cls_digit_abs conj_assoc)

lemma in_lang_VERSION:
  "in_lang VERSION_RX s \<longleftrightarrow> (\<exists>a b c. s = ''v'' @ a @ ''.'' @ b @ ''.'' @ c
     \<and> a \<noteq> [] \<and> list_all is_digit a \<and> b \<noteq> [] \<and> list_all is_digit b
     \<and> c \<noteq> [] \<and> list_all is_digit c)"
  unfolding VERSION_RX_def in_lang_Seq_lit in_lang_Seq_digits in_lang_plus_Cls in_cls_digit_abs
  by (rule iffI; elim exE conjE; hypsubst; intro exI conjI; (rule refl | assumption))

section \<open>Numerals\<close>

lemma dec_nat_snoc: "0 < n \<Longrightarrow> d < 10 \<Longrightarrow> dec_nat (10 * n + d) = dec_nat n @ [digit_char d]"
  by (subst dec_nat.simps) simp

lemma dec_nat_nat_of_digits:
  "list_all is_digit s \<Longrightarrow> s \<noteq> [] \<Longrightarrow> hd s \<noteq> CHR ''0'' \<Longrightarrow>
   0 < nat_of_digits s \<and> dec_nat (nat_of_digits s) = s"
proof (induction s rule: rev_induct)
  case (snoc c s)
  have c: "is_digit c" using snoc.prems by simp
  show ?case
  proof (cases "s = []")
    case True
    with snoc.prems have "digit_val c \<noteq> 0"
      by (metis append_Nil c digit_char_of_val digit_char_val dec_nat_0 dec_nat.simps list.sel(1)
          less_numeral_extra(3) zero_less_numeral list.inject)
    moreover have "nat_of_digits [c] = digit_val c" using nat_of_digits_snoc [of "[]" c] by simp
    ultimately show ?thesis
      using True digit_val_less [OF c] digit_char_of_val [OF c] by (simp add: dec_nat.simps)
  next
    case False
    with snoc have "0 < nat_of_digits s" "dec_nat (nat_of_digits s) = s" by auto
    then show ?thesis
      using digit_val_less [OF c] digit_char_of_val [OF c] by (simp add: dec_nat_snoc)
  qed
qed simp

lemma NUMERAL_iff: "in_lang NUMERAL_RX s \<longleftrightarrow> (\<exists>n > 0. s = dec_nat n)"
proof
  assume "in_lang NUMERAL_RX s"
  then obtain c t where "s = c # t" "is_digit c" "c \<noteq> CHR ''0''" "list_all is_digit t"
    unfolding NUMERAL_RX_def
    by (cases s) (simp_all only: in_lang_Seq_Cls in_lang_Star_Cls in_cls_digit_abs in_cls_nonzero list.simps list.distinct, auto)
  with dec_nat_nat_of_digits [of s] show "\<exists>n > 0. s = dec_nat n" by (intro exI [of _ "nat_of_digits s"]) simp
qed (auto intro: NUMERAL_dec_nat)

lemma WRAPPER_iff: "in_lang WRAPPER_RX s \<longleftrightarrow> (\<exists>n \<ge> 2. s = dec_nat n)"
proof -
  have "char_of (of_char (CHR ''1'') :: nat) = CHR ''1''" by (rule char_of_char)
  then have one: "dec_nat 1 = ''1''" by (subst dec_nat.simps) (simp add: digit_char_def)
  have c: "in_cls [(CHR ''2'', CHR ''9'')] c \<longleftrightarrow> in_cls nonzero_cls c \<and> c \<noteq> CHR ''1''" for c
  proof -
    have "byte_val c = byte_val (CHR ''1'') \<longleftrightarrow> c = CHR ''1''" by (rule of_char_eq_iff)
    then have "byte_val c \<noteq> 49 \<longleftrightarrow> c \<noteq> CHR ''1''" by simp
    then show ?thesis by (auto simp: in_cls_def nonzero_cls_def)
  qed
  have "in_lang WRAPPER_RX s \<longleftrightarrow> in_lang NUMERAL_RX s \<and> s \<noteq> ''1''"
    by (cases s; cases "tl s") (auto simp: WRAPPER_RX_def NUMERAL_RX_def c)
  also have "\<dots> \<longleftrightarrow> (\<exists>n > 0. s = dec_nat n \<and> s \<noteq> dec_nat 1)"
    unfolding NUMERAL_iff one by blast
  also have "\<dots> \<longleftrightarrow> (\<exists>n \<ge> 2. s = dec_nat n)"
    by (metis One_nat_def Suc_leI dec_nat_inject le_antisym less_le_trans not_less_eq_eq numeral_2_eq_2 zero_less_Suc)
  finally show ?thesis .
qed

end
