(* ===== verification/Py_Json.thy ===== *)
theory Py_Json
  imports Prelude
begin

text \<open>
  The part of Python's \<open>json\<close> module and of its value model that the scripts use: parsed values,
  \<open>==\<close> on them, truthiness, \<open>len\<close>, \<open>set\<close>, dictionary access, \<open>json.loads\<close> on bytes and
  \<open>json.dumps\<close>. The parser runs on fuel that is proved sufficient for every input.
\<close>

section \<open>Values\<close>

text \<open>A finite double is a sign, a mantissa and a binary exponent: \<open>(-1)^s * m * 2^e\<close>.\<close>

datatype pyfloat = FNan | FInf bool | FFin bool nat int

datatype json =
    JNull
  | JBool bool
  | JInt int
  | JFloat pyfloat
  | JStr string
  | JArr "json list"
  | JObj "(string \<times> json) list"

section \<open>Equality\<close>

definition signed :: "bool \<Rightarrow> nat \<Rightarrow> int" where
  "signed s m = (if s then - int m else int m)"

fun float_eq_int :: "pyfloat \<Rightarrow> int \<Rightarrow> bool" where
  "float_eq_int FNan i = False"
| "float_eq_int (FInf s) i = False"
| "float_eq_int (FFin s m e) i =
     (if 0 \<le> e then signed s m * 2 ^ nat e = i else signed s m = i * 2 ^ nat (- e))"

fun float_eq :: "pyfloat \<Rightarrow> pyfloat \<Rightarrow> bool" where
  "float_eq (FInf s) (FInf t) = (s = t)"
| "float_eq (FFin s m e) (FFin t n d) =
     (signed s m * 2 ^ nat (e - min e d) = signed t n * 2 ^ nat (d - min e d))"
| "float_eq _ _ = False"

text \<open>\<open>True\<close> and \<open>False\<close> are the integers 1 and 0.\<close>

fun as_number :: "json \<Rightarrow> (int + pyfloat) option" where
  "as_number (JBool b) = Some (Inl (if b then 1 else 0))"
| "as_number (JInt i) = Some (Inl i)"
| "as_number (JFloat f) = Some (Inr f)"
| "as_number _ = None"

definition num_eq :: "json \<Rightarrow> json \<Rightarrow> bool" where
  "num_eq a b = (case (as_number a, as_number b) of
       (Some (Inl i), Some (Inl j)) \<Rightarrow> i = j
     | (Some (Inl i), Some (Inr f)) \<Rightarrow> float_eq_int f i
     | (Some (Inr f), Some (Inl i)) \<Rightarrow> float_eq_int f i
     | (Some (Inr f), Some (Inr g)) \<Rightarrow> float_eq f g
     | _ \<Rightarrow> False)"

text \<open>\<open>a == b\<close>; two dictionaries are compared without regard to the order of their keys.\<close>

fun py_eq :: "json \<Rightarrow> json \<Rightarrow> bool"
  and py_eq_list :: "json list \<Rightarrow> json list \<Rightarrow> bool"
  and py_eq_members :: "(string \<times> json) list \<Rightarrow> (string \<times> json) list \<Rightarrow> bool" where
  "py_eq JNull b = (b = JNull)"
| "py_eq (JBool p) b = num_eq (JBool p) b"
| "py_eq (JInt i) b = num_eq (JInt i) b"
| "py_eq (JFloat f) b = num_eq (JFloat f) b"
| "py_eq (JStr s) b = (b = JStr s)"
| "py_eq (JArr xs) b = (case b of JArr ys \<Rightarrow> py_eq_list xs ys | _ \<Rightarrow> False)"
| "py_eq (JObj xs) b =
     (case b of JObj ys \<Rightarrow> length xs = length ys \<and> py_eq_members xs ys | _ \<Rightarrow> False)"
| "py_eq_list [] ys = (ys = [])"
| "py_eq_list (x # xs) ys = (case ys of [] \<Rightarrow> False | y # ys' \<Rightarrow> py_eq x y \<and> py_eq_list xs ys')"
| "py_eq_members [] ys = True"
| "py_eq_members ((k, v) # xs) ys =
     (case map_of ys k of None \<Rightarrow> False | Some w \<Rightarrow> py_eq v w \<and> py_eq_members xs ys)"

lemma py_eq_Str [simp]: "py_eq v (JStr s) \<longleftrightarrow> v = JStr s"
  by (cases v) (auto simp: num_eq_def split: option.splits sum.splits)

lemma py_eq_Int_Int [simp]: "py_eq (JInt i) (JInt j) \<longleftrightarrow> i = j"
  by (simp add: num_eq_def)

lemma float_eq_int_unique: "float_eq_int f i \<Longrightarrow> float_eq_int f j \<Longrightarrow> i = j"
  by (cases f) (auto split: if_split_asm)

lemma py_eq_Int_unique: "py_eq v (JInt i) \<Longrightarrow> py_eq v (JInt j) \<Longrightarrow> i = j"
  by (cases v) (auto simp: num_eq_def dest: float_eq_int_unique)

section \<open>Dictionaries, sequences, truth\<close>

text \<open>\<open>d.get(k)\<close> of a dictionary: the missing key and the value \<open>null\<close> are both \<open>None\<close>.\<close>

definition dget :: "(string \<times> json) list \<Rightarrow> string \<Rightarrow> json" where
  "dget d k = (case map_of d k of None \<Rightarrow> JNull | Some v \<Rightarrow> v)"

definition dget_default :: "(string \<times> json) list \<Rightarrow> string \<Rightarrow> json \<Rightarrow> json" where
  "dget_default d k v0 = (case map_of d k of None \<Rightarrow> v0 | Some v \<Rightarrow> v)"

text \<open>\<open>v.get\<close> of an arbitrary value: only dictionaries have the method.\<close>

fun attr_items :: "json \<Rightarrow> (string \<times> json) list res" where
  "attr_items (JObj d) = Inr d"
| "attr_items _ = Inl AttributeError"

definition same_elems :: "'a list \<Rightarrow> 'a list \<Rightarrow> bool" where
  "same_elems xs ys \<longleftrightarrow> list_all (\<lambda>x. List.member ys x) xs \<and> list_all (\<lambda>y. List.member xs y) ys"

lemma same_elems_iff: "same_elems xs ys \<longleftrightarrow> set xs = set ys"
  by (auto simp: same_elems_def list_all_iff)

text \<open>\<open>set(d) == {...}\<close> of a dictionary \<open>d\<close>\<close>

definition keys_are :: "(string \<times> json) list \<Rightarrow> string list \<Rightarrow> bool" where
  "keys_are d ks \<longleftrightarrow> same_elems (map fst d) ks"

fun truthy :: "json \<Rightarrow> bool" where
  "truthy JNull = False"
| "truthy (JBool b) = b"
| "truthy (JInt i) = (i \<noteq> 0)"
| "truthy (JFloat f) = (\<not> float_eq_int f 0)"
| "truthy (JStr s) = (s \<noteq> [])"
| "truthy (JArr xs) = (xs \<noteq> [])"
| "truthy (JObj d) = (d \<noteq> [])"

text \<open>The characters of a string: each UTF-8 sequence is one.\<close>

fun utf8_chars :: "string \<Rightarrow> string list" where
  "utf8_chars [] = []"
| "utf8_chars (c # s) =
     (case utf8_chars s of
        [] \<Rightarrow> [[c]]
      | u # us \<Rightarrow> (case u of [] \<Rightarrow> [c] # us
                  | d # _ \<Rightarrow> if cont_byte d then (c # u) # us else [c] # u # us))"

fun py_iter :: "json \<Rightarrow> json list res" where
  "py_iter (JArr xs) = Inr xs"
| "py_iter (JStr s) = Inr (map JStr (utf8_chars s))"
| "py_iter (JObj d) = Inr (map (JStr \<circ> fst) d)"
| "py_iter _ = Inl TypeError"

fun py_len :: "json \<Rightarrow> int res" where
  "py_len (JArr xs) = Inr (int (length xs))"
| "py_len (JStr s) = Inr (int (length (utf8_chars s)))"
| "py_len (JObj d) = Inr (int (length d))"
| "py_len _ = Inl TypeError"

fun hashable :: "json \<Rightarrow> bool" where
  "hashable (JArr xs) = False"
| "hashable (JObj d) = False"
| "hashable _ = True"

text \<open>\<open>set(v) == names\<close> for a set of strings\<close>

definition set_equals :: "json \<Rightarrow> string list \<Rightarrow> bool res" where
  "set_equals v names = bindE (py_iter v) (\<lambda>xs.
     if \<not> list_all hashable xs then Inl TypeError
     else Inr (same_elems xs (map JStr names)))"

definition is_int :: "json \<Rightarrow> bool" where
  "is_int v = (case v of JInt i \<Rightarrow> True | _ \<Rightarrow> False)"

definition the_int :: "json \<Rightarrow> int" where
  "the_int v = (case v of JInt i \<Rightarrow> i | _ \<Rightarrow> 0)"

text \<open>\<open>type(v) is int and v > 0\<close>\<close>

definition positive_int :: "json \<Rightarrow> bool" where
  "positive_int v = (case v of JInt i \<Rightarrow> 0 < i | _ \<Rightarrow> False)"

lemma positive_int_iff: "positive_int v \<longleftrightarrow> (\<exists>i. v = JInt i \<and> 0 < i)"
  by (auto simp: positive_int_def split: json.splits)

lemma is_int_iff: "is_int v \<longleftrightarrow> (\<exists>i. v = JInt i)"
  by (auto simp: is_int_def split: json.splits)

section \<open>Exceptions of a case distinction\<close>

lemma raises_case_json [raises_intro]:
  assumes "v = JNull \<Longrightarrow> raises P f1" "\<And>b. v = JBool b \<Longrightarrow> raises P (f2 b)"
    "\<And>i. v = JInt i \<Longrightarrow> raises P (f3 i)" "\<And>x. v = JFloat x \<Longrightarrow> raises P (f4 x)"
    "\<And>s. v = JStr s \<Longrightarrow> raises P (f5 s)" "\<And>xs. v = JArr xs \<Longrightarrow> raises P (f6 xs)"
    "\<And>d. v = JObj d \<Longrightarrow> raises P (f7 d)"
  shows "raises P (case v of JNull \<Rightarrow> f1 | JBool b \<Rightarrow> f2 b | JInt i \<Rightarrow> f3 i | JFloat x \<Rightarrow> f4 x
    | JStr s \<Rightarrow> f5 s | JArr xs \<Rightarrow> f6 xs | JObj d \<Rightarrow> f7 d)"
  using assms by (cases v) simp_all

section \<open>Decimal to double and back\<close>

fun bitlen :: "nat \<Rightarrow> nat" where
  "bitlen n = (if n = 0 then 0 else Suc (bitlen (n div 2)))"

declare bitlen.simps [simp del]

definition scaled_ratio :: "nat \<Rightarrow> nat \<Rightarrow> int \<Rightarrow> nat \<times> nat" where
  "scaled_ratio num den e =
     (if 0 \<le> e then (num, den * 2 ^ nat e) else (num * 2 ^ nat (- e), den))"

definition round_half_even :: "nat \<Rightarrow> nat \<Rightarrow> nat" where
  "round_half_even a b =
     (let q = a div b; r = a mod b
      in if b < 2 * r \<or> (2 * r = b \<and> odd q) then Suc q else q)"

text \<open>The double nearest to \<open>num / den\<close>: mantissa below \<open>2^53\<close>, exponent at least -1074.\<close>

definition round_double :: "bool \<Rightarrow> nat \<Rightarrow> nat \<Rightarrow> pyfloat" where
  "round_double s num den =
     (if num = 0 then FFin s 0 0
      else
        let e0 = int (bitlen num) - int (bitlen den) - 53;
            q0 = (case scaled_ratio num den e0 of (a, b) \<Rightarrow> a div b);
            e1 = (if 2 ^ 53 \<le> q0 then e0 + 1 else e0);
            e = max e1 (- 1074);
            m = (case scaled_ratio num den e of (a, b) \<Rightarrow> round_half_even a b)
        in if 2 ^ 1024 \<le> m * 2 ^ nat e \<and> 0 \<le> e then FInf s
           else FFin s m e)"

definition float_of_decimal :: "bool \<Rightarrow> nat \<Rightarrow> int \<Rightarrow> pyfloat" where
  "float_of_decimal s mant e10 =
     (if 0 \<le> e10 then round_double s (mant * 10 ^ nat e10) 1
      else round_double s mant (10 ^ nat (- e10)))"

text \<open>
  \<open>repr\<close> of a double: the shortest decimal that rounds to it (the nearer one where two have
  the same length), with an exponent when the decimal point is far from the digits.
\<close>

definition frac_of :: "nat \<Rightarrow> int \<Rightarrow> nat \<times> nat" where
  "frac_of m e = (if 0 \<le> e then (m * 2 ^ nat e, 1) else (m, 2 ^ nat (- e)))"

definition dec_exponent :: "nat \<Rightarrow> nat \<Rightarrow> int" where
  "dec_exponent num den =
     (if den \<le> num then int (length (dec_nat (num div den)))
      else 1 - int (length (dec_nat ((den - 1) div num))))"

definition repr_candidate :: "nat \<Rightarrow> int \<Rightarrow> nat \<Rightarrow> nat option" where
  "repr_candidate m e n =
     (case frac_of m e of (num, den) \<Rightarrow>
       let k = dec_exponent num den - int n;
           (a, b) = (if 0 \<le> k then (num, den * 10 ^ nat k) else (num * 10 ^ nat (- k), den));
           lo = a div b; r = a mod b;
           ok = (\<lambda>d. float_eq (float_of_decimal False d k) (FFin False m e))
       in if ok lo \<and> (2 * r \<le> b \<or> \<not> ok (Suc lo)) then Some lo
          else if ok (Suc lo) then Some (Suc lo)
          else None)"

fun strip_zeros :: "string \<Rightarrow> string" where
  "strip_zeros s = rev (dropWhile (\<lambda>c. c = CHR ''0'') (rev s))"

definition repr_digits :: "nat \<Rightarrow> int \<Rightarrow> string \<times> int" where
  "repr_digits m e =
     (case frac_of m e of (num, den) \<Rightarrow>
       let n = hd (filter (\<lambda>n. repr_candidate m e n \<noteq> None) [1..<18] @ [17]);
           d = (case repr_candidate m e n of None \<Rightarrow> 0 | Some d \<Rightarrow> d);
           ds = dec_nat d
       in (strip_zeros ds, dec_exponent num den - int n + int (length ds)))"

definition repr_layout :: "string \<Rightarrow> int \<Rightarrow> string" where
  "repr_layout ds p =
     (if - 4 < p \<and> p \<le> 16 then
        (if p \<le> 0 then ''0.'' @ replicate (nat (- p)) (CHR ''0'') @ ds
         else if int (length ds) \<le> p then
           ds @ replicate (nat p - length ds) (CHR ''0'') @ ''.0''
         else take (nat p) ds @ ''.'' @ drop (nat p) ds)
      else
        take 1 ds @ (if length ds = 1 then [] else ''.'' @ drop 1 ds) @ ''e'' @
        (if p - 1 < 0 then ''-'' else ''+'') @
        (if \<bar>p - 1\<bar> < 10 then ''0'' else []) @ dec_nat (nat \<bar>p - 1\<bar>))"

fun float_repr :: "pyfloat \<Rightarrow> string" where
  "float_repr FNan = ''NaN''"
| "float_repr (FInf s) = (if s then ''-Infinity'' else ''Infinity'')"
| "float_repr (FFin s m e) =
     (if s then ''-'' else []) @
     (if m = 0 then ''0.0'' else (case repr_digits m e of (ds, p) \<Rightarrow> repr_layout ds p))"

section \<open>\<open>json.dumps\<close>\<close>

abbreviation quote :: char where "quote \<equiv> CHR 0x22"
abbreviation backslash :: char where "backslash \<equiv> CHR 0x5C"

definition hex_digit :: "nat \<Rightarrow> char" where
  "hex_digit d = (if d < 10 then char_of (48 + d) else char_of (87 + d))"

definition hex4 :: "nat \<Rightarrow> string" where
  "hex4 n = [hex_digit (n div 4096 mod 16), hex_digit (n div 256 mod 16),
             hex_digit (n div 16 mod 16), hex_digit (n mod 16)]"

definition u_escape :: "nat \<Rightarrow> string" where
  "u_escape n =
     (if n < 0x10000 then backslash # CHR ''u'' # hex4 n
      else (backslash # CHR ''u'' # hex4 (0xD800 + (n - 0x10000) div 1024))
         @ (backslash # CHR ''u'' # hex4 (0xDC00 + (n - 0x10000) mod 1024)))"

text \<open>An octet below 128; the flag is \<open>ensure_ascii\<close>, which also escapes DEL.\<close>

definition esc_char :: "bool \<Rightarrow> char \<Rightarrow> string" where
  "esc_char asc c =
     (if c = quote then [backslash, quote]
      else if c = backslash then [backslash, backslash]
      else if c = CHR 0x0A then [backslash, CHR ''n'']
      else if c = CHR 0x0D then [backslash, CHR ''r'']
      else if c = CHR 0x09 then [backslash, CHR ''t'']
      else if c = CHR 0x08 then [backslash, CHR ''b'']
      else if c = CHR 0x0C then [backslash, CHR ''f'']
      else if byte_val c < 32 \<or> (asc \<and> byte_val c = 127) then u_escape (byte_val c)
      else [c])"

fun esc_string :: "bool \<Rightarrow> string \<Rightarrow> string" where
  "esc_string asc [] = []"
| "esc_string asc (a # s) =
     (if byte_val a < 0x80 then esc_char asc a @ esc_string asc s
      else if \<not> asc then a # esc_string asc s
      else (case s of
          [] \<Rightarrow> []
        | b # s1 \<Rightarrow>
            if byte_val a < 0xE0 then
              u_escape ((byte_val a - 0xC0) * 64 + (byte_val b - 0x80)) @ esc_string asc s1
            else (case s1 of
                [] \<Rightarrow> []
              | c # s2 \<Rightarrow>
                  if byte_val a < 0xF0 then
                    u_escape (((byte_val a - 0xE0) * 64 + (byte_val b - 0x80)) * 64
                              + (byte_val c - 0x80)) @ esc_string asc s2
                  else (case s2 of
                      [] \<Rightarrow> []
                    | d # s3 \<Rightarrow>
                        u_escape ((((byte_val a - 0xF0) * 64 + (byte_val b - 0x80)) * 64
                              + (byte_val c - 0x80)) * 64 + (byte_val d - 0x80))
                        @ esc_string asc s3))))"

text \<open>
  The arguments of \<open>dumps\<close>: \<open>indent\<close> (where \<open>None\<close> goes with the separators \<open>,\<close> and \<open>:\<close> that
  the compact callers pass), \<open>sort_keys\<close> and \<open>ensure_ascii\<close>.
\<close>

record dump_opts =
  opt_indent :: "nat option"
  opt_sort :: bool
  opt_ascii :: bool

definition newline_at :: "dump_opts \<Rightarrow> nat \<Rightarrow> string" where
  "newline_at cfg l =
     (case opt_indent cfg of None \<Rightarrow> [] | Some k \<Rightarrow> CHR 0x0A # replicate (k * l) (CHR '' ''))"

definition key_sep :: "dump_opts \<Rightarrow> string" where
  "key_sep cfg = (case opt_indent cfg of None \<Rightarrow> '':'' | Some k \<Rightarrow> '': '')"

definition dump_string :: "dump_opts \<Rightarrow> string \<Rightarrow> string" where
  "dump_string cfg s = quote # esc_string (opt_ascii cfg) s @ [quote]"

fun render :: "dump_opts \<Rightarrow> nat \<Rightarrow> json \<Rightarrow> string"
  and render_items :: "dump_opts \<Rightarrow> nat \<Rightarrow> json list \<Rightarrow> string"
  and render_members :: "dump_opts \<Rightarrow> nat \<Rightarrow> (string \<times> json) list \<Rightarrow> string" where
  "render cfg l JNull = ''null''"
| "render cfg l (JBool b) = (if b then ''true'' else ''false'')"
| "render cfg l (JInt i) = dec_int i"
| "render cfg l (JFloat f) = float_repr f"
| "render cfg l (JStr s) = dump_string cfg s"
| "render cfg l (JArr xs) =
     (if xs = [] then ''[]'' else ''['' @ newline_at cfg (Suc l) @ render_items cfg l xs)"
| "render cfg l (JObj d) =
     (if d = [] then ''{}'' else ''{'' @ newline_at cfg (Suc l) @ render_members cfg l d)"
| "render_items cfg l [] = newline_at cfg l @ '']''"
| "render_items cfg l (x # xs) =
     render cfg (Suc l) x
     @ (if xs = [] then [] else '','' @ newline_at cfg (Suc l)) @ render_items cfg l xs"
| "render_members cfg l [] = newline_at cfg l @ ''}''"
| "render_members cfg l ((k, v) # d) =
     dump_string cfg k @ key_sep cfg @ render cfg (Suc l) v
     @ (if d = [] then [] else '','' @ newline_at cfg (Suc l)) @ render_members cfg l d"

fun sort_obj :: "json \<Rightarrow> json"
  and sort_items :: "json list \<Rightarrow> json list"
  and sort_members :: "(string \<times> json) list \<Rightarrow> (string \<times> json) list" where
  "sort_obj (JArr xs) = JArr (sort_items xs)"
| "sort_obj (JObj d) = JObj (sort_key fst (sort_members d))"
| "sort_obj JNull = JNull"
| "sort_obj (JBool b) = JBool b"
| "sort_obj (JInt i) = JInt i"
| "sort_obj (JFloat f) = JFloat f"
| "sort_obj (JStr s) = JStr s"
| "sort_items [] = []"
| "sort_items (x # xs) = sort_obj x # sort_items xs"
| "sort_members [] = []"
| "sort_members ((k, v) # d) = (k, sort_obj v) # sort_members d"

definition dumps :: "dump_opts \<Rightarrow> json \<Rightarrow> string" where
  "dumps cfg v = render cfg 0 (if opt_sort cfg then sort_obj v else v)"

text \<open>\<open>json.dumps(v, sort_keys=True, separators=(",", ":"), ensure_ascii=True)\<close>\<close>

definition compact_opts :: dump_opts where
  "compact_opts = \<lparr>opt_indent = None, opt_sort = True, opt_ascii = True\<rparr>"

section \<open>\<open>json.loads\<close>\<close>

definition is_ws :: "char \<Rightarrow> bool" where
  "is_ws c \<longleftrightarrow> c = CHR '' '' \<or> c = CHR 0x09 \<or> c = CHR 0x0A \<or> c = CHR 0x0D"

definition skip_ws :: "string \<Rightarrow> string" where
  "skip_ws s = dropWhile is_ws s"

datatype str_token = Raw char | Uni nat

definition hex_val :: "char \<Rightarrow> nat option" where
  "hex_val c =
     (let n = byte_val c in
      if 48 \<le> n \<and> n \<le> 57 then Some (n - 48)
      else if 97 \<le> n \<and> n \<le> 102 then Some (n - 87)
      else if 65 \<le> n \<and> n \<le> 70 then Some (n - 55)
      else None)"

definition hex4_val :: "char \<Rightarrow> char \<Rightarrow> char \<Rightarrow> char \<Rightarrow> nat option" where
  "hex4_val a b c d =
     (case (hex_val a, hex_val b, hex_val c, hex_val d) of
        (Some i, Some j, Some k, Some l) \<Rightarrow> Some (((i * 16 + j) * 16 + k) * 16 + l)
      | _ \<Rightarrow> None)"

definition simple_escape :: "char \<Rightarrow> char option" where
  "simple_escape c =
     (if c = quote \<or> c = backslash \<or> c = CHR ''/'' then Some c
      else if c = CHR ''b'' then Some (CHR 0x08)
      else if c = CHR ''f'' then Some (CHR 0x0C)
      else if c = CHR ''n'' then Some (CHR 0x0A)
      else if c = CHR ''r'' then Some (CHR 0x0D)
      else if c = CHR ''t'' then Some (CHR 0x09)
      else None)"

text \<open>The token an escape stands for, from behind its backslash.\<close>

definition scan_escape :: "string \<Rightarrow> (str_token \<times> string) option" where
  "scan_escape s =
     (case s of
        [] \<Rightarrow> None
      | e # t \<Rightarrow>
          if e = CHR ''u'' then
            (case t of
               h1 # h2 # h3 # h4 # r \<Rightarrow> map_option (\<lambda>n. (Uni n, r)) (hex4_val h1 h2 h3 h4)
             | _ \<Rightarrow> None)
          else map_option (\<lambda>c. (Raw c, t)) (simple_escape e))"

lemma scan_escape_length: "scan_escape s = Some (k, r) \<Longrightarrow> length r < length s"
  unfolding scan_escape_def by (cases s) (auto split: if_split_asm list.split_asm)

text \<open>The tokens of a string literal, from behind its opening quote.\<close>

function scan_string :: "string \<Rightarrow> (str_token list \<times> string) option" where
  "scan_string [] = None"
| "scan_string (c # s) =
     (if c = quote then Some ([], s)
      else if byte_val c < 32 then None
      else if c \<noteq> backslash then map_option (apfst ((#) (Raw c))) (scan_string s)
      else (case scan_escape s of
          None \<Rightarrow> None
        | Some (k, r) \<Rightarrow> map_option (apfst ((#) k)) (scan_string r)))"
  by pat_completeness auto
termination
  by (relation "measure length") (auto dest: scan_escape_length)

definition utf8_encode :: "nat \<Rightarrow> string" where
  "utf8_encode n =
     (if n < 0x80 then [char_of n]
      else if n < 0x800 then [char_of (0xC0 + n div 64), char_of (0x80 + n mod 64)]
      else if n < 0x10000 then
        [char_of (0xE0 + n div 4096), char_of (0x80 + n div 64 mod 64), char_of (0x80 + n mod 64)]
      else [char_of (0xF0 + n div 262144), char_of (0x80 + n div 4096 mod 64),
            char_of (0x80 + n div 64 mod 64), char_of (0x80 + n mod 64)])"

text \<open>A high surrogate escape joins a low one that follows it; a lone one stays as it is.\<close>

fun join_tokens :: "str_token list \<Rightarrow> string" where
  "join_tokens [] = []"
| "join_tokens (Raw c # ts) = c # join_tokens ts"
| "join_tokens (Uni n # Uni m # ts) =
     (if 0xD800 \<le> n \<and> n \<le> 0xDBFF \<and> 0xDC00 \<le> m \<and> m \<le> 0xDFFF then
        utf8_encode (0x10000 + (n - 0xD800) * 1024 + (m - 0xDC00)) @ join_tokens ts
      else utf8_encode n @ join_tokens (Uni m # ts))"
| "join_tokens (Uni n # ts) = utf8_encode n @ join_tokens ts"

text \<open>\<open>dict(pairs)\<close>: the last value of a repeated key, at the place of its first one.\<close>

fun dict_set :: "string \<Rightarrow> json \<Rightarrow> (string \<times> json) list \<Rightarrow> (string \<times> json) list" where
  "dict_set k v [] = [(k, v)]"
| "dict_set k v ((k', v') # d) = (if k = k' then (k, v) # d else (k', v') # dict_set k v d)"

definition dict_of :: "(string \<times> json) list \<Rightarrow> (string \<times> json) list" where
  "dict_of ps = foldl (\<lambda>d (k, v). dict_set k v d) [] ps"

definition span_digits :: "string \<Rightarrow> string \<times> string" where
  "span_digits s = (takeWhile is_digit s, dropWhile is_digit s)"

text \<open>The integer part of a number: \<open>0\<close>, or digits without a leading zero.\<close>

definition int_part :: "string \<Rightarrow> (string \<times> string) option" where
  "int_part s =
     (case s of [] \<Rightarrow> None
      | c # t \<Rightarrow> if c = CHR ''0'' then Some (''0'', t)
                 else if is_digit c then Some (span_digits s) else None)"

definition frac_part :: "string \<Rightarrow> string \<times> string" where
  "frac_part s =
     (case s of
        c # d # t \<Rightarrow> if c = CHR ''.'' \<and> is_digit d then span_digits (d # t) else ([], s)
      | _ \<Rightarrow> ([], s))"

definition exp_part :: "string \<Rightarrow> int option \<times> string" where
  "exp_part s =
     (case s of
        c # d # t \<Rightarrow>
          if c = CHR ''e'' \<or> c = CHR ''E'' then
            (let neg = (d = CHR ''-''); u = (if d = CHR ''-'' \<or> d = CHR ''+'' then t else d # t);
                 (ds, r) = span_digits u
             in if ds = [] then (None, s)
                else (Some (if neg then - int (nat_of_digits ds) else int (nat_of_digits ds)), r))
          else (None, s)
      | _ \<Rightarrow> (None, s))"

definition parse_number :: "string \<Rightarrow> (json \<times> string) res" where
  "parse_number s =
     (let neg = (take 1 s = ''-''); s1 = (if neg then drop 1 s else s)
      in if startswith s ''-Infinity'' then Inr (JFloat (FInf True), drop 9 s)
         else case int_part s1 of
           None \<Rightarrow> Inl JSONDecodeError
         | Some (ip, s2) \<Rightarrow>
             (case frac_part s2 of (fp, s3) \<Rightarrow>
              case exp_part s3 of (ex, s4) \<Rightarrow>
                if fp = [] \<and> ex = None then
                  Inr (JInt (signed neg (nat_of_digits ip)), s4)
                else
                  Inr (JFloat (float_of_decimal neg (nat_of_digits (ip @ fp))
                         ((case ex of None \<Rightarrow> 0 | Some x \<Rightarrow> x) - int (length fp))), s4)))"

text \<open>The next character that is not white space.\<close>

definition next_char :: "string \<Rightarrow> (char \<times> string) res" where
  "next_char s = (case skip_ws s of [] \<Rightarrow> Inl JSONDecodeError | c # t \<Rightarrow> Inr (c, t))"

definition parse_string :: "string \<Rightarrow> (string \<times> string) res" where
  "parse_string s =
     (case s of
        [] \<Rightarrow> Inl JSONDecodeError
      | c # t \<Rightarrow>
          if c \<noteq> quote then Inl JSONDecodeError
          else (case scan_string t of
              None \<Rightarrow> Inl JSONDecodeError
            | Some (ts, r) \<Rightarrow> Inr (join_tokens ts, r)))"

definition parse_scalar :: "string \<Rightarrow> (json \<times> string) res" where
  "parse_scalar s =
     (if take 1 s = [quote] then bindE (parse_string s) (\<lambda>(t, r). Inr (JStr t, r))
      else if startswith s ''null'' then Inr (JNull, drop 4 s)
      else if startswith s ''true'' then Inr (JBool True, drop 4 s)
      else if startswith s ''false'' then Inr (JBool False, drop 5 s)
      else if startswith s ''NaN'' then Inr (JFloat FNan, drop 3 s)
      else if startswith s ''Infinity'' then Inr (JFloat (FInf False), drop 8 s)
      else parse_number s)"

text \<open>A key, the colon behind it and the white space before the value.\<close>

definition parse_key :: "string \<Rightarrow> (string \<times> string) res" where
  "parse_key s =
     bindE (parse_string s) (\<lambda>(k, r).
     bindE (next_char r) (\<lambda>(c, r1).
       if c = CHR '':'' then Inr (k, skip_ws r1) else Inl JSONDecodeError))"

fun parse_value :: "nat \<Rightarrow> string \<Rightarrow> (json \<times> string) res"
  and parse_items :: "nat \<Rightarrow> string \<Rightarrow> (json list \<times> string) res"
  and parse_members :: "nat \<Rightarrow> string \<Rightarrow> ((string \<times> json) list \<times> string) res" where
  "parse_value 0 s = Inl OutOfFuel"
| "parse_value (Suc n) s =
     (if take 1 s = ''{'' then
        bindE (next_char (drop 1 s)) (\<lambda>(d, r).
          if d = CHR ''}'' then Inr (JObj [], r)
          else bindE (parse_members n (d # r)) (\<lambda>(ms, r'). Inr (JObj (dict_of ms), r')))
      else if take 1 s = ''['' then
        bindE (next_char (drop 1 s)) (\<lambda>(d, r).
          if d = CHR '']'' then Inr (JArr [], r)
          else bindE (parse_items n (d # r)) (\<lambda>(xs, r'). Inr (JArr xs, r')))
      else parse_scalar s)"
| "parse_items 0 s = Inl OutOfFuel"
| "parse_items (Suc n) s =
     bindE (parse_value n s) (\<lambda>(v, r).
     bindE (next_char r) (\<lambda>(d, t).
       if d = CHR '']'' then Inr ([v], t)
       else if d = CHR '','' then
         bindE (parse_items n (skip_ws t)) (\<lambda>(vs, r'). Inr (v # vs, r'))
       else Inl JSONDecodeError))"
| "parse_members 0 s = Inl OutOfFuel"
| "parse_members (Suc n) s =
     bindE (parse_key s) (\<lambda>(k, r1).
     bindE (parse_value n r1) (\<lambda>(v, r2).
     bindE (next_char r2) (\<lambda>(d, r3).
       if d = CHR ''}'' then Inr ([(k, v)], r3)
       else if d = CHR '','' then
         bindE (parse_members n (skip_ws r3)) (\<lambda>(ms, r4). Inr ((k, v) # ms, r4))
       else Inl JSONDecodeError)))"

text \<open>
  The encoding \<open>json.detect_encoding\<close> finds is UTF-8 unless a byte order mark or a NUL among the
  first octets says UTF-16 or UTF-32; those two are outside the model.
\<close>

definition sniff_wide :: "bytes \<Rightarrow> bool" where
  "sniff_wide b \<longleftrightarrow>
     take 2 b = [CHR 0xFE, CHR 0xFF] \<or> take 2 b = [CHR 0xFF, CHR 0xFE]
   \<or> take 4 b = [CHR 0x00, CHR 0x00, CHR 0xFE, CHR 0xFF]
   \<or> (4 \<le> length b \<and> (b ! 0 = CHR 0x00 \<or> b ! 1 = CHR 0x00))
   \<or> (length b = 2 \<and> (b ! 0 = CHR 0x00 \<or> b ! 1 = CHR 0x00))"

definition strip_bom :: "bytes \<Rightarrow> bytes" where
  "strip_bom b = (if take 3 b = [CHR 0xEF, CHR 0xBB, CHR 0xBF] then drop 3 b else b)"

definition json_loads :: "bytes \<Rightarrow> json res" where
  "json_loads raw =
     (if sniff_wide raw then Inl UnsupportedEncoding
      else let t = strip_bom raw in
        if \<not> utf8_ok True t then Inl UnicodeDecodeError
        else bindE (parse_value (2 * length t + 2) (skip_ws t)) (\<lambda>(v, r).
          if skip_ws r = [] then Inr v else Inl JSONDecodeError))"

end
