(* ===== verification/Py_Json_Props.thy ===== *)
theory Py_Json_Props
  imports Py_Json "HOL-Library.Multiset"
begin

text \<open>
  What the development uses of the JSON model: the parser never runs out of fuel, reading what
  \<open>dumps\<close> wrote gives the value back (with its keys sorted when \<open>sort_keys\<close> was set), and sorting
  the keys does not change a value under \<open>==\<close>.
\<close>

section \<open>Fuel\<close>

named_theorems shrinks \<open>a parser leaves less input than it got\<close>

lemma skip_ws_length: "length (skip_ws s) \<le> length s"
  by (simp add: skip_ws_def length_dropWhile_le)

lemma next_char_length [shrinks]: "next_char s = Inr (c, t) \<Longrightarrow> length t < length s"
  using skip_ws_length [of s] by (auto simp: next_char_def split: list.splits)

lemma scan_string_length [shrinks]: "scan_string s = Some (ts, r) \<Longrightarrow> length r < length s"
proof (induction s arbitrary: ts r rule: scan_string.induct)
  case (2 c s)
  show ?case
  proof (cases "c = quote \<or> byte_val c < 32 \<or> c \<noteq> backslash")
    case True
    with 2 show ?thesis by (auto simp del: byte_val_less split: if_split_asm)
  next
    case False
    then obtain k u us where k: "scan_escape s = Some (k, u)" and "scan_string u = Some (us, r)"
      using "2.prems" by (auto split: option.split_asm if_split_asm)
    then have "length r < length u" using False "2.IH"(2) by simp
    with scan_escape_length [OF k] show ?thesis by simp
  qed
qed simp

lemma parse_string_length [shrinks]: "parse_string s = Inr (t, r) \<Longrightarrow> length r < length s"
  by (cases s) (auto simp: parse_string_def res_iff split: option.split_asm if_split_asm dest!: scan_string_length)

lemma span_digits_length: "span_digits s = (d, r) \<Longrightarrow> length r \<le> length s"
  by (auto simp: span_digits_def length_dropWhile_le)

lemma int_part_length: "int_part s = Some (d, r) \<Longrightarrow> length r < length s"
  using length_dropWhile_le [of is_digit "tl s"]
  by (cases s) (auto simp: int_part_def span_digits_def split: if_split_asm)

lemma frac_part_length: "frac_part s = (d, r) \<Longrightarrow> length r \<le> length s"
  using span_digits_length [of "tl s"]
  by (auto simp: frac_part_def le_SucI split: list.split_asm if_split_asm)

lemma exp_part_length: "exp_part s = (x, r) \<Longrightarrow> length r \<le> length s"
  using length_dropWhile_le [of is_digit "tl (tl s)"] length_dropWhile_le [of is_digit "tl s"]
  by (auto simp: exp_part_def span_digits_def Let_def split: list.split_asm if_split_asm)

lemma startswith_length: "startswith s p \<Longrightarrow> length p \<le> length s"
  by (auto simp: startswith_iff)

lemma startswith_drop_length:
  "startswith s p \<Longrightarrow> p \<noteq> [] \<Longrightarrow> n = length p \<Longrightarrow> length s - n < length s"
  using startswith_length [of s p] by (cases p; cases s) auto

lemma parse_number_length [shrinks]:
  assumes "parse_number s = Inr (v, r)"
  shows "length r < length s"
proof (cases "startswith s ''-Infinity''")
  case True
  with assms show ?thesis
    using startswith_drop_length [OF True, of 9] by (auto simp: parse_number_def)
next
  case False
  define s1 where "s1 = (if take 1 s = ''-'' then drop 1 s else s)"
  from False assms obtain d s2 where i: "int_part s1 = Some (d, s2)" and "length r \<le> length s2"
    using frac_part_length exp_part_length
    by (fastforce simp: parse_number_def Let_def s1_def split: option.split_asm prod.split_asm if_split_asm)
  moreover have "length s1 \<le> length s" by (simp add: s1_def)
  ultimately show ?thesis using int_part_length [OF i] by simp
qed

lemma parse_scalar_length [shrinks]: "parse_scalar s = Inr (v, r) \<Longrightarrow> length r < length s"
  by (auto simp: parse_scalar_def res_iff startswith_drop_length dest: shrinks split: if_split_asm)

lemma parse_key_length [shrinks]: "parse_key s = Inr (k, r) \<Longrightarrow> length r < length s"
  by (auto simp: parse_key_def res_iff dest!: parse_string_length next_char_length
      intro!: le_less_trans [OF skip_ws_length])

lemma parse_shrinks_all:
  "(\<forall>s v r. parse_value n s = Inr (v, r) \<longrightarrow> length r < length s)
   \<and> (\<forall>s vs r. parse_items n s = Inr (vs, r) \<longrightarrow> length r < length s)
   \<and> (\<forall>s ms r. parse_members n s = Inr (ms, r) \<longrightarrow> length r < length s)"
proof (induction n)
  case (Suc n)
  then have v: "\<And>s v r. parse_value n s = Inr (v, r) \<Longrightarrow> length r < length s"
    and i: "\<And>s v r. parse_items n s = Inr (v, r) \<Longrightarrow> length r < length s"
    and m: "\<And>s v r. parse_members n s = Inr (v, r) \<Longrightarrow> length r < length s"
    by blast+
  have skip: "length (skip_ws t) \<le> length t" for t by (rule skip_ws_length)
  have drop: "length (drop 1 s) \<le> length s" for s :: string by simp
  have "length r < length s" if "parse_value (Suc n) s = Inr (x, r)" for s x r
    using that drop [of s]
    by (fastforce simp: res_iff split: if_split_asm dest: next_char_length parse_scalar_length i m)
  moreover have "length r < length s" if p: "parse_items (Suc n) s = Inr (x, r)" for s x r
  proof -
    have "length r < length t" if "parse_items n (skip_ws t) = Inr (y, r)" for t y
      using i [OF that] skip [of t] by simp
    then show ?thesis
      using p by (fastforce simp: res_iff dest!: v next_char_length split: if_split_asm)
  qed
  moreover have "length r < length s" if p: "parse_members (Suc n) s = Inr (x, r)" for s x r
  proof -
    have "length r < length t" if "parse_members n (skip_ws t) = Inr (y, r)" for t y
      using m [OF that] skip [of t] by simp
    then show ?thesis
      using p by (fastforce simp: res_iff dest!: parse_key_length v next_char_length split: if_split_asm)
  qed
  ultimately show ?case by blast
qed simp

lemmas parse_value_length [shrinks] = parse_shrinks_all [THEN conjunct1, rule_format]
lemmas parse_items_length [shrinks] = parse_shrinks_all [THEN conjunct2, THEN conjunct1, rule_format]
lemmas parse_members_length [shrinks] = parse_shrinks_all [THEN conjunct2, THEN conjunct2, rule_format]

lemma scan_fuel [simp]:
  "next_char s \<noteq> Inl OutOfFuel" "parse_string s \<noteq> Inl OutOfFuel" "parse_number s \<noteq> Inl OutOfFuel"
  by (auto simp: next_char_def parse_string_def parse_number_def Let_def
      split: list.split option.split prod.split)

lemma bindE_Inl_iff:
  "bindE m f = Inl e \<longleftrightarrow> m = Inl e \<or> (\<exists>x. m = Inr x \<and> f x = Inl e)"
  by (cases m) auto

lemma parse_scalar_fuel [simp]: "parse_scalar s \<noteq> Inl OutOfFuel"
  by (auto simp: parse_scalar_def bindE_Inl_iff)

lemma parse_key_fuel [simp]: "parse_key s \<noteq> Inl OutOfFuel"
  by (auto simp: parse_key_def bindE_Inl_iff split: if_split_asm)

lemma parse_fuel_all:
  "(\<forall>s. 2 * length s + 1 \<le> n \<longrightarrow> parse_value n s \<noteq> Inl OutOfFuel)
   \<and> (\<forall>s. 2 * length s + 2 \<le> n \<longrightarrow> parse_items n s \<noteq> Inl OutOfFuel)
   \<and> (\<forall>s. 2 * length s + 2 \<le> n \<longrightarrow> parse_members n s \<noteq> Inl OutOfFuel)"
proof (induction n)
  case (Suc n)
  then have v: "\<And>s. 2 * length s + 1 \<le> n \<Longrightarrow> parse_value n s \<noteq> Inl OutOfFuel"
    and i: "\<And>s. 2 * length s + 2 \<le> n \<Longrightarrow> parse_items n s \<noteq> Inl OutOfFuel"
    and m: "\<And>s. 2 * length s + 2 \<le> n \<Longrightarrow> parse_members n s \<noteq> Inl OutOfFuel"
    by blast+
  have "parse_value (Suc n) s \<noteq> Inl OutOfFuel" if n: "2 * length s + 1 \<le> Suc n" for s
  proof -
    have "length (d # r) < length s" if "next_char (drop 1 s) = Inr (d, r)" for d r
      using next_char_length [OF that] by simp
    then have "2 * length (d # r) + 2 \<le> n" if "next_char (drop 1 s) = Inr (d, r)" for d r
      using that n by fastforce
    then show ?thesis using i m by (auto simp: bindE_Inl_iff split: if_split_asm)
  qed
  moreover have "parse_items (Suc n) s \<noteq> Inl OutOfFuel" if n: "2 * length s + 2 \<le> Suc n" for s
  proof -
    have "2 * length (skip_ws t) + 2 \<le> n"
      if "parse_value n s = Inr (x, u)" "next_char u = Inr (d, t)" for x u d t
      using parse_value_length [OF that(1)] next_char_length [OF that(2)] skip_ws_length [of t] n
      by simp
    then show ?thesis using v [of s] i n by (auto simp: bindE_Inl_iff split: if_split_asm)
  qed
  moreover have "parse_members (Suc n) s \<noteq> Inl OutOfFuel" if n: "2 * length s + 2 \<le> Suc n" for s
  proof -
    have "2 * length w + 1 \<le> n" if "parse_key s = Inr (k, w)" for k w
      using parse_key_length [OF that] n by simp
    moreover have "2 * length (skip_ws t) + 2 \<le> n"
      if "parse_key s = Inr (k, w)" "parse_value n w = Inr (x, u)" "next_char u = Inr (d, t)"
      for k w x u d t
      using parse_key_length [OF that(1)] parse_value_length [OF that(2)]
        next_char_length [OF that(3)] skip_ws_length [of t] n
      by simp
    ultimately show ?thesis using v m by (auto simp: bindE_Inl_iff split: if_split_asm)
  qed
  ultimately show ?case by blast
qed simp

theorem json_loads_total: "json_loads raw \<noteq> Inl OutOfFuel"
proof -
  let ?t = "strip_bom raw"
  have "2 * length (skip_ws ?t) + 1 \<le> 2 * length ?t + 2"
    using skip_ws_length [of ?t] by simp
  then have "parse_value (2 * length ?t + 2) (skip_ws ?t) \<noteq> Inl OutOfFuel"
    using parse_fuel_all by blast
  then show ?thesis
    by (auto simp: json_loads_def Let_def bindE_Inl_iff split: if_split_asm)
qed

section \<open>The exceptions of \<open>loads\<close>\<close>

lemma parse_string_error: "parse_string s = Inl e \<Longrightarrow> e = JSONDecodeError"
  by (auto simp: parse_string_def split: list.split_asm option.split_asm if_split_asm)

lemma parse_scalar_error: "parse_scalar s = Inl e \<Longrightarrow> e = JSONDecodeError"
  by (auto simp: parse_scalar_def parse_number_def bindE_Inl_iff Let_def dest: parse_string_error
      split: if_split_asm option.split_asm prod.split_asm)

lemma next_char_error: "next_char s = Inl e \<Longrightarrow> e = JSONDecodeError"
  by (auto simp: next_char_def split: list.split_asm)

lemma parse_key_error: "parse_key s = Inl e \<Longrightarrow> e = JSONDecodeError"
  by (auto simp: parse_key_def bindE_Inl_iff dest: parse_string_error next_char_error split: if_split_asm)

lemma parse_errors_all:
  "(\<forall>s e. parse_value n s = Inl e \<longrightarrow> e \<in> {JSONDecodeError, OutOfFuel})
   \<and> (\<forall>s e. parse_items n s = Inl e \<longrightarrow> e \<in> {JSONDecodeError, OutOfFuel})
   \<and> (\<forall>s e. parse_members n s = Inl e \<longrightarrow> e \<in> {JSONDecodeError, OutOfFuel})"
proof (induction n)
  case (Suc n)
  then have v: "\<And>s e. parse_value n s = Inl e \<Longrightarrow> e \<in> {JSONDecodeError, OutOfFuel}"
    and i: "\<And>s e. parse_items n s = Inl e \<Longrightarrow> e \<in> {JSONDecodeError, OutOfFuel}"
    and m: "\<And>s e. parse_members n s = Inl e \<Longrightarrow> e \<in> {JSONDecodeError, OutOfFuel}"
    by blast+
  have "e \<in> {JSONDecodeError, OutOfFuel}" if "parse_value (Suc n) s = Inl e" for s e
    using that i m by (auto simp: bindE_Inl_iff dest: next_char_error parse_scalar_error split: if_split_asm)
  moreover have "e \<in> {JSONDecodeError, OutOfFuel}" if "parse_items (Suc n) s = Inl e" for s e
    using that v i by (auto simp: bindE_Inl_iff dest: next_char_error split: if_split_asm)
  moreover have "e \<in> {JSONDecodeError, OutOfFuel}" if "parse_members (Suc n) s = Inl e" for s e
    using that v m by (auto simp: bindE_Inl_iff dest: next_char_error parse_key_error split: if_split_asm)
  ultimately show ?case by blast
qed simp

lemma json_loads_error:
  assumes "json_loads raw = Inl e"
  shows "e = JSONDecodeError \<or> e = UnicodeDecodeError \<or> e = UnsupportedEncoding"
proof -
  have "e \<noteq> OutOfFuel" using assms json_loads_total [of raw] by auto
  with assms show ?thesis
    using parse_errors_all [THEN conjunct1, rule_format, of _ _ e]
    by (auto simp: json_loads_def Let_def bindE_Inl_iff simp del: parse_value.simps split: if_split_asm)
qed

section \<open>\<open>loads\<close> after \<open>dumps\<close>\<close>

text \<open>
  Values without floats, with ASCII strings and distinct keys: everything the scripts write.
\<close>

definition ascii :: "string \<Rightarrow> bool" where
  "ascii s \<longleftrightarrow> list_all (\<lambda>c. byte_val c < 128) s"

fun plain :: "json \<Rightarrow> bool"
  and plain_items :: "json list \<Rightarrow> bool"
  and plain_members :: "(string \<times> json) list \<Rightarrow> bool" where
  "plain JNull = True"
| "plain (JBool b) = True"
| "plain (JInt i) = True"
| "plain (JFloat f) = False"
| "plain (JStr s) = ascii s"
| "plain (JArr xs) = plain_items xs"
| "plain (JObj d) = (distinct (map fst d) \<and> plain_members d)"
| "plain_items [] = True"
| "plain_items (x # xs) = (plain x \<and> plain_items xs)"
| "plain_members [] = True"
| "plain_members ((k, v) # d) = (ascii k \<and> plain v \<and> plain_members d)"

definition u_escaped :: "bool \<Rightarrow> char \<Rightarrow> bool" where
  "u_escaped asc c \<longleftrightarrow> c \<notin> {CHR 0x0A, CHR 0x0D, CHR 0x09, CHR 0x08, CHR 0x0C}
     \<and> (byte_val c < 32 \<or> (asc \<and> byte_val c = 127))"

definition tok_of :: "bool \<Rightarrow> char \<Rightarrow> str_token" where
  "tok_of asc c = (if u_escaped asc c then Uni (byte_val c) else Raw c)"

lemma hex_val_digit: "d < 16 \<Longrightarrow> hex_val (hex_digit d) = Some d"
  by (auto simp: hex_val_def hex_digit_def of_char_of)

lemma hex4_value:
  assumes "n < (65536::nat)"
  shows "((n div 4096 mod 16 * 16 + n div 256 mod 16) * 16 + n div 16 mod 16) * 16 + n mod 16 = n"
proof -
  have "n div 256 = n div 16 div 16" "n div 4096 = n div 16 div 16 div 16"
    by (simp_all add: div_mult2_eq [symmetric])
  moreover have "n div 16 div 16 div 16 mod 16 = n div 16 div 16 div 16"
    using assms by (simp add: div_mult2_eq [symmetric])
  ultimately show ?thesis by (simp only: div_mult_mod_eq)
qed

lemma hex4_val_hex4:
  "n < 65536 \<Longrightarrow> hex4 n = [a, b, c, d] \<Longrightarrow> hex4_val a b c d = Some n"
  using hex4_value [of n] by (auto simp: hex4_def hex4_val_def hex_val_digit)

lemma scan_u_escape:
  "n < 128 \<Longrightarrow> scan_string (u_escape n @ r) = map_option (apfst ((#) (Uni n))) (scan_string r)"
  using hex4_val_hex4 [of n] by (simp add: u_escape_def hex4_def scan_escape_def)

lemma esc_char_cases:
  obtains (u) "u_escaped asc c" "esc_char asc c = u_escape (byte_val c)"
  | (short) e where "\<not> u_escaped asc c" "esc_char asc c = [backslash, e]" "simple_escape e = Some c"
      "e \<noteq> CHR ''u''"
  | (same) "\<not> u_escaped asc c" "esc_char asc c = [c]" "c \<noteq> quote" "c \<noteq> backslash" "\<not> byte_val c < 32"
proof (cases "c \<in> {quote, backslash, CHR 0x0A, CHR 0x0D, CHR 0x09, CHR 0x08, CHR 0x0C}")
  case True
  then show thesis
    using short by (elim insertE; simp add: esc_char_def u_escaped_def simple_escape_def)
next
  case False
  then have "u_escaped asc c \<longleftrightarrow> byte_val c < 32 \<or> (asc \<and> byte_val c = 127)"
    and "esc_char asc c = (if byte_val c < 32 \<or> (asc \<and> byte_val c = 127) then u_escape (byte_val c) else [c])"
    by (auto simp: esc_char_def u_escaped_def)
  with False show thesis
    using u same by (cases "byte_val c < 32 \<or> (asc \<and> byte_val c = 127)") auto
qed

lemma scan_esc_char:
  assumes "byte_val c < 128"
  shows "scan_string (esc_char asc c @ r) = map_option (apfst ((#) (tok_of asc c))) (scan_string r)"
proof (cases rule: esc_char_cases [of asc c])
  case u
  with assms show ?thesis by (simp only: scan_u_escape tok_of_def if_True)
next
  case (short e)
  then show ?thesis by (simp add: tok_of_def scan_escape_def)
next
  case same
  then show ?thesis by (simp add: tok_of_def)
qed

lemma scan_esc_string:
  "ascii s \<Longrightarrow> scan_string (esc_string asc s @ quote # r) = Some (map (tok_of asc) s, r)"
  by (induction s) (auto simp: ascii_def scan_esc_char)

lemma join_tok_of: "ascii s \<Longrightarrow> join_tokens (map (tok_of asc) s) = s"
proof (induction s)
  case (Cons c s)
  then have c: "byte_val c < 128" and s: "join_tokens (map (tok_of asc) s) = s"
    by (auto simp: ascii_def)
  from c have e: "utf8_encode (byte_val c) = [c]" by (simp add: utf8_encode_def)
  show ?case
  proof (cases "u_escaped asc c")
    case False
    then show ?thesis using s by (simp add: tok_of_def [of asc c])
  next
    case True
    from c have c': "byte_val c < 55296" by simp
    show ?thesis
    proof (cases "map (tok_of asc) s")
      case Nil
      then show ?thesis using s e True by (simp add: tok_of_def [of asc c])
    next
      case (Cons k ts)
      then show ?thesis using s e True c' by (cases k) (simp_all add: tok_of_def [of asc c])
    qed
  qed
qed simp

lemma parse_dump_string:
  "ascii s \<Longrightarrow> parse_string (dump_string cfg s @ r) = Inr (s, r)"
  by (simp add: parse_string_def dump_string_def scan_esc_string join_tok_of)

text \<open>What may follow a number without being read as part of it.\<close>

definition num_end :: "string \<Rightarrow> bool" where
  "num_end r \<longleftrightarrow> (case r of [] \<Rightarrow> True
     | c # _ \<Rightarrow> \<not> is_digit c \<and> c \<noteq> CHR ''.'' \<and> c \<noteq> CHR ''e'' \<and> c \<noteq> CHR ''E'')"

lemma span_digits_append:
  "list_all is_digit d \<Longrightarrow> num_end r \<Longrightarrow> span_digits (d @ r) = (d, r)"
  by (cases r) (auto simp: span_digits_def num_end_def list_all_iff takeWhile_append dropWhile_append)

lemma int_part_dec_nat: "num_end r \<Longrightarrow> int_part (dec_nat n @ r) = Some (dec_nat n, r)"
proof (cases "n = 0")
  case False
  assume r: "num_end r"
  obtain c t where ct: "dec_nat n = c # t" by (meson dec_nat_nonempty list.exhaust)
  with False dec_nat_hd_nonzero [of n] have "c \<noteq> CHR ''0''" by simp
  moreover have "is_digit c" using dec_nat_set_digits [of c n] by (simp add: ct)
  ultimately show ?thesis
    using span_digits_append [OF dec_nat_digits r, of n] by (simp add: ct int_part_def)
qed (simp add: int_part_def)

lemma num_end_parts: "num_end r \<Longrightarrow> frac_part r = ([], r)" "num_end r \<Longrightarrow> exp_part r = (None, r)"
  by (auto simp: num_end_def frac_part_def exp_part_def split: list.splits)

lemma is_digit_chars [simp]:
  "\<not> is_digit (CHR ''-'')" "\<not> is_digit (CHR ''I'')" "\<not> is_digit quote" "\<not> is_digit (CHR ''{'')"
  "\<not> is_digit (CHR ''['')" "\<not> is_digit (CHR ''n'')" "\<not> is_digit (CHR ''t'')" "\<not> is_digit (CHR ''f'')"
  "\<not> is_digit (CHR ''N'')" "\<not> is_digit (CHR '' '')" "\<not> is_digit (CHR 0x09)" "\<not> is_digit (CHR 0x0A)"
  "\<not> is_digit (CHR 0x0D)" "\<not> is_digit (CHR '']'')" "\<not> is_digit (CHR ''}'')" "\<not> is_digit (CHR '','')"
  by (simp_all add: is_digit_def)

lemma dec_nat_Cons: obtains c t where "dec_nat n = c # t" and "is_digit c"
  by (metis dec_nat_nonempty dec_nat_set_digits list.exhaust list.set_intros(1))

lemma parse_number_dec_int:
  assumes "num_end r"
  shows "parse_number (dec_int i @ r) = Inr (JInt i, r)"
proof -
  obtain c t where ct: "dec_nat (nat \<bar>i\<bar>) = c # t" and c: "is_digit c" by (rule dec_nat_Cons)
  then have "c \<noteq> CHR ''-''" "c \<noteq> CHR ''I''" by auto
  moreover have "int_part (c # t @ r) = Some (c # t, r)"
    using int_part_dec_nat [OF assms, of "nat \<bar>i\<bar>"] by (simp add: ct)
  moreover have "nat_of_digits (c # t) = nat \<bar>i\<bar>" by (simp flip: ct)
  moreover have "dec_int i = (if i < 0 then CHR ''-'' # c # t else c # t)"
    using ct by (auto simp: dec_int_def)
  ultimately show ?thesis
    by (auto simp: parse_number_def startswith_def num_end_parts [OF assms] signed_def)
qed

lemma parse_scalar_dec_int:
  assumes "num_end r"
  shows "parse_scalar (dec_int i @ r) = Inr (JInt i, r)"
proof -
  obtain c t where "dec_nat (nat \<bar>i\<bar>) = c # t" and c: "is_digit c" by (rule dec_nat_Cons)
  then have "dec_int i @ r = (if i < 0 then CHR ''-'' # c # t else c # t) @ r"
    by (auto simp: dec_int_def)
  then obtain d u where "dec_int i @ r = d # u" "is_digit d \<or> d = CHR ''-''"
    using c by (auto split: if_splits)
  then have "d \<notin> {quote, CHR ''n'', CHR ''t'', CHR ''f'', CHR ''N'', CHR ''I''}"
    by auto
  then have "parse_scalar (d # u) = parse_number (d # u)"
    by (simp add: parse_scalar_def startswith_def)
  with \<open>dec_int i @ r = d # u\<close> show ?thesis by (metis parse_number_dec_int assms)
qed

text \<open>What follows a value: nothing, or something that ends a number and is not lost as white space.\<close>

lemma num_end_simps [simp]:
  "num_end []" "num_end (newline_at cfg l @ CHR '']'' # r)" "num_end (newline_at cfg l @ CHR ''}'' # r)"
  "num_end (CHR '','' # r)"
  by (auto simp: num_end_def newline_at_def is_digit_def split: option.split)

lemma skip_ws_newline [simp]: "skip_ws (newline_at cfg l @ s) = skip_ws s"
proof -
  have "dropWhile is_ws (replicate k (CHR '' '') @ s) = dropWhile is_ws s" for k
    by (induction k) (auto simp: is_ws_def)
  then show ?thesis by (auto simp: newline_at_def skip_ws_def is_ws_def split: option.split)
qed

lemma skip_ws_Cons [simp]: "\<not> is_ws c \<Longrightarrow> skip_ws (c # s) = c # s"
  by (simp add: skip_ws_def)

lemma next_char_newline [simp]: "next_char (newline_at cfg l @ s) = next_char s"
  by (simp add: next_char_def)

lemma next_char_Cons [simp]: "\<not> is_ws c \<Longrightarrow> next_char (c # s) = Inr (c, s)"
  by (simp add: next_char_def)

lemma is_ws_chars [simp]:
  "\<not> is_ws (CHR '']'')" "\<not> is_ws (CHR ''}'')" "\<not> is_ws (CHR '','')" "\<not> is_ws quote" "\<not> is_ws (CHR '':'')"
  "\<not> is_ws (CHR ''['')" "\<not> is_ws (CHR ''{'')" "\<not> is_ws (CHR ''n'')" "\<not> is_ws (CHR ''t'')"
  "\<not> is_ws (CHR ''f'')" "\<not> is_ws (CHR ''-'')"
  by (simp_all add: is_ws_def)

lemma is_ws_digit: "is_digit c \<Longrightarrow> \<not> is_ws c"
  by (auto simp: is_ws_def)

lemma dec_int_head: obtains c t where "dec_int i = c # t" and "is_digit c \<or> c = CHR ''-''"
proof -
  obtain c t where "dec_nat (nat \<bar>i\<bar>) = c # t" and "is_digit c" by (rule dec_nat_Cons)
  with that [of "CHR ''-''" "c # t"] that [of c t] show thesis
    by (cases "i < 0") (auto simp: dec_int_def)
qed

lemma render_head:
  assumes "plain v"
  obtains c t where "render cfg l v = c # t" and "\<not> is_ws c" and "c \<noteq> CHR '']''" and "c \<noteq> CHR ''}''"
    and "(\<exists>xs. v = JArr xs) \<or> c \<noteq> CHR ''[''" and "(\<exists>d. v = JObj d) \<or> c \<noteq> CHR ''{''"
proof (cases v)
  case (JInt i)
  obtain c t where "dec_int i = c # t" and c: "is_digit c \<or> c = CHR ''-''" by (rule dec_int_head)
  moreover from c have "\<not> is_ws c" "c \<notin> {CHR '']'', CHR ''}'', CHR ''['', CHR ''{''}"
    by (auto simp: is_ws_digit)
  ultimately show thesis using that [of c t] JInt by simp
next
  case (JBool b)
  with that show thesis by (cases b) auto
next
  case (JArr xs)
  with that show thesis by (cases "xs = []") auto
next
  case (JObj d)
  with that show thesis by (cases "d = []") auto
qed (use assms that in \<open>auto simp: dump_string_def\<close>)

lemma skip_ws_render [simp]: "plain v \<Longrightarrow> skip_ws (render cfg l v @ r) = render cfg l v @ r"
  by (rule render_head [of v cfg l]) auto

lemma dict_set_new: "k \<notin> fst ` set d \<Longrightarrow> dict_set k v d = d @ [(k, v)]"
  by (induction d) auto

lemma foldl_dict_set:
  "distinct (map fst (d @ ps)) \<Longrightarrow> foldl (\<lambda>d (k, v). dict_set k v d) d ps = d @ ps"
proof (induction ps arbitrary: d)
  case (Cons p ps)
  then show ?case by (cases p) (auto simp: dict_set_new image_iff)
qed simp

lemma dict_of_distinct: "distinct (map fst ps) \<Longrightarrow> dict_of ps = ps"
  using foldl_dict_set [of "[]" ps] by (simp add: dict_of_def)

lemma parse_key_dump:
  assumes "ascii k" and "plain v"
  shows "parse_key (dump_string cfg k @ key_sep cfg @ render cfg l v @ r) = Inr (k, render cfg l v @ r)"
proof -
  have "next_char (key_sep cfg @ s) = Inr (CHR '':'', if opt_indent cfg = None then s else CHR '' '' # s)" for s
    by (auto simp: key_sep_def split: option.split)
  moreover have "skip_ws (CHR '' '' # render cfg l v @ r) = render cfg l v @ r"
    using skip_ws_render [OF assms(2)] by (simp add: skip_ws_def is_ws_def)
  ultimately show ?thesis
    using assms by (simp add: parse_key_def parse_dump_string)
qed

lemma parse_scalar_render:
  assumes "plain v" and "num_end r" and "\<And>xs. v \<noteq> JArr xs" and "\<And>d. v \<noteq> JObj d"
  shows "parse_scalar (render cfg l v @ r) = Inr (v, r)"
proof (cases v)
  case (JStr s)
  with assms show ?thesis
    using parse_dump_string [of s cfg r] by (simp add: parse_scalar_def dump_string_def)
qed (use assms in \<open>auto simp: parse_scalar_dec_int, auto simp: parse_scalar_def startswith_def\<close>)

lemma take_render:
  assumes "plain v" and "\<And>xs. v \<noteq> JArr xs" and "\<And>d. v \<noteq> JObj d"
  shows "take 1 (render cfg l v @ r) \<noteq> ''{''" "take 1 (render cfg l v @ r) \<noteq> ''[''"
proof -
  obtain c t where "render cfg l v = c # t" "c \<noteq> CHR ''{''" "c \<noteq> CHR ''[''"
    using assms render_head [of v cfg l] by metis
  then show "take 1 (render cfg l v @ r) \<noteq> ''{''" "take 1 (render cfg l v @ r) \<noteq> ''[''" by simp_all
qed

text \<open>
  Reading what \<open>dumps\<close> wrote gives the value back, with as much fuel as \<open>loads\<close> starts with.
\<close>

lemma parse_render_all:
  "(\<forall>v l r. plain v \<and> num_end r \<and> 2 * length (render cfg l v) + 1 \<le> n \<longrightarrow>
      parse_value n (render cfg l v @ r) = Inr (v, r))
   \<and> (\<forall>xs l r. xs \<noteq> [] \<and> plain_items xs \<and> 2 * length (render_items cfg l xs) + 2 \<le> n \<longrightarrow>
      parse_items n (render_items cfg l xs @ r) = Inr (xs, r))
   \<and> (\<forall>d l r. d \<noteq> [] \<and> plain_members d \<and> 2 * length (render_members cfg l d) + 2 \<le> n \<longrightarrow>
      parse_members n (render_members cfg l d @ r) = Inr (d, r))"
proof (induction n)
  case (Suc n)
  then have V: "\<And>v l r. plain v \<Longrightarrow> num_end r \<Longrightarrow> 2 * length (render cfg l v) + 1 \<le> n \<Longrightarrow>
      parse_value n (render cfg l v @ r) = Inr (v, r)"
    and I: "\<And>xs l r. xs \<noteq> [] \<Longrightarrow> plain_items xs \<Longrightarrow> 2 * length (render_items cfg l xs) + 2 \<le> n \<Longrightarrow>
      parse_items n (render_items cfg l xs @ r) = Inr (xs, r)"
    and M: "\<And>d l r. d \<noteq> [] \<Longrightarrow> plain_members d \<Longrightarrow> 2 * length (render_members cfg l d) + 2 \<le> n \<Longrightarrow>
      parse_members n (render_members cfg l d @ r) = Inr (d, r)"
    by blast+
  have head_items: "\<exists>c t. render_items cfg l xs = c # t \<and> \<not> is_ws c \<and> c \<noteq> CHR '']''"
    if "xs \<noteq> []" "plain_items xs" for xs l
    using that by (cases xs) (auto intro: render_head [of "hd xs" cfg "Suc l"])
  have head_members: "\<exists>c t. render_members cfg l d = c # t \<and> \<not> is_ws c \<and> c \<noteq> CHR ''}''"
    if "d \<noteq> []" for d l
    using that by (cases d) (auto simp: dump_string_def)
  have "parse_value (Suc n) (render cfg l v @ r) = Inr (v, r)"
    if v: "plain v" "num_end r" "2 * length (render cfg l v) + 1 \<le> Suc n" for v l r
  proof (cases v)
    case (JArr xs)
    show ?thesis
    proof (cases "xs = []")
      case False
      then obtain c t where ct: "render_items cfg l xs = c # t" "\<not> is_ws c" "c \<noteq> CHR '']''"
        using head_items [of xs l] v JArr by auto
      have "parse_items n (render_items cfg l xs @ r) = Inr (xs, r)"
        using I [of xs l r] v JArr False by simp
      then show ?thesis using JArr False ct by simp
    qed (simp add: JArr)
  next
    case (JObj d)
    show ?thesis
    proof (cases "d = []")
      case False
      then obtain c t where ct: "render_members cfg l d = c # t" "\<not> is_ws c" "c \<noteq> CHR ''}''"
        using head_members by blast
      have "parse_members n (render_members cfg l d @ r) = Inr (d, r)"
        using M [of d l r] v JObj False by simp
      moreover have "dict_of d = d" using v JObj by (simp add: dict_of_distinct)
      ultimately show ?thesis using JObj False ct by simp
    qed (simp add: JObj)
  qed (use v take_render [of v cfg l r] parse_scalar_render [of v r cfg l] in simp_all)
  moreover have "parse_items (Suc n) (render_items cfg l xs @ r) = Inr (xs, r)"
    if xs: "xs \<noteq> []" "plain_items xs" "2 * length (render_items cfg l xs) + 2 \<le> Suc n" for xs l r
  proof -
    obtain x ys where x: "xs = x # ys" using xs(1) by (cases xs) auto
    show ?thesis
    proof (cases "ys = []")
      case True
      then show ?thesis
        using V [of x "newline_at cfg l @ CHR '']'' # r" "Suc l"] xs by (simp add: x)
    next
      case False
      then obtain c t where ct: "render_items cfg l ys = c # t" "\<not> is_ws c"
        using head_items [of ys l] xs by (auto simp: x)
      have "parse_items n (render_items cfg l ys @ r) = Inr (ys, r)"
        using I [of ys l r] False xs by (simp add: x)
      then show ?thesis
        using V [of x "CHR '','' # newline_at cfg (Suc l) @ render_items cfg l ys @ r" "Suc l"] xs False ct
        by (simp add: x)
    qed
  qed
  moreover have "parse_members (Suc n) (render_members cfg l d @ r) = Inr (d, r)"
    if d: "d \<noteq> []" "plain_members d" "2 * length (render_members cfg l d) + 2 \<le> Suc n" for d l r
  proof -
    obtain k v e where x: "d = (k, v) # e" using d(1) by (cases d) auto
    show ?thesis
    proof (cases "e = []")
      case True
      then show ?thesis
        using V [of v "newline_at cfg l @ CHR ''}'' # r" "Suc l"] d
          parse_key_dump [of k v cfg "Suc l" "newline_at cfg l @ CHR ''}'' # r"] by (simp add: x)
    next
      case False
      let ?r = "CHR '','' # newline_at cfg (Suc l) @ render_members cfg l e @ r"
      obtain c t where ct: "render_members cfg l e = c # t" "\<not> is_ws c"
        using head_members [OF False] by blast
      have "parse_members n (render_members cfg l e @ r) = Inr (e, r)"
        using M [of e l r] False d by (simp add: x)
      then show ?thesis
        using V [of v ?r "Suc l"] parse_key_dump [of k v cfg "Suc l" ?r] d False ct by (simp add: x)
    qed
  qed
  ultimately show ?case by blast
qed simp

lemmas parse_value_render = parse_render_all [THEN conjunct1, rule_format, OF conjI, OF _ conjI]

text \<open>The octets \<open>dumps\<close> writes: printable ASCII, DEL and newline, so that \<open>loads\<close> reads UTF-8.\<close>

definition text_octet :: "char \<Rightarrow> bool" where
  "text_octet c \<longleftrightarrow> 10 \<le> byte_val c \<and> byte_val c < 128"

lemma text_octet_digit: "is_digit c \<Longrightarrow> text_octet c"
  by (simp add: is_digit_def text_octet_def)

lemma text_octet_hex4: "list_all text_octet (hex4 n)"
proof -
  have "text_octet (hex_digit d)" if "d < 16" for d
    using that by (auto simp: hex_digit_def text_octet_def of_char_of)
  then show ?thesis by (simp add: hex4_def)
qed

lemma text_octet_esc: "byte_val c < 128 \<Longrightarrow> list_all text_octet (esc_char asc c)"
proof (cases rule: esc_char_cases [of asc c])
  case u
  then show "byte_val c < 128 \<Longrightarrow> list_all text_octet (esc_char asc c)"
    using text_octet_hex4 [of "byte_val c"] by (simp add: u_escape_def text_octet_def)
next
  case (short e)
  have "e = quote \<or> e = backslash \<or> e \<in> {CHR ''/'', CHR ''b'', CHR ''f'', CHR ''n'', CHR ''r'', CHR ''t''}"
    using short(3) by (auto simp: simple_escape_def split: if_split_asm)
  with short(2) show ?thesis by (auto simp: text_octet_def)
next
  case same
  then show "byte_val c < 128 \<Longrightarrow> list_all text_octet (esc_char asc c)"
    by (simp add: text_octet_def)
qed

lemma text_octet_dump_string: "ascii s \<Longrightarrow> list_all text_octet (dump_string cfg s)"
proof -
  have "ascii s \<Longrightarrow> list_all text_octet (esc_string (opt_ascii cfg) s)"
    by (induction s) (auto simp: ascii_def text_octet_esc)
  then show "ascii s \<Longrightarrow> list_all text_octet (dump_string cfg s)"
    by (simp add: dump_string_def) (simp add: text_octet_def)
qed

lemma text_octet_dec_nat: "list_all text_octet (dec_nat n)"
  using dec_nat_set_digits by (auto simp: list_all_iff text_octet_digit)

lemma text_octet_layout:
  "list_all text_octet (newline_at cfg l)" "list_all text_octet (key_sep cfg)"
  by (auto simp: newline_at_def key_sep_def text_octet_def list_all_iff split: option.split)

lemma text_octet_render_all:
  "plain v \<Longrightarrow> list_all text_octet (render cfg l v)"
  "plain_items xs \<Longrightarrow> list_all text_octet (render_items cfg l xs)"
  "plain_members d \<Longrightarrow> list_all text_octet (render_members cfg l d)"
proof (induction cfg l v and cfg l xs and cfg l d rule: render_render_items_render_members.induct)
  case (3 cfg l i)
  have "text_octet (CHR ''-'')" by (simp add: text_octet_def)
  then show ?case by (simp add: dec_int_def text_octet_dec_nat)
qed (auto simp: text_octet_layout text_octet_dump_string, auto simp: text_octet_def)

lemma plain_members_iff: "plain_members d \<longleftrightarrow> (\<forall>(k, v) \<in> set d. ascii k \<and> plain v)"
  by (induction d) auto

lemma distinct_keys_sort: "distinct (map fst (sort_key f d)) \<longleftrightarrow> distinct (map fst d)"
proof -
  have "mset (map fst (sort_key f d)) = mset (map fst d)" by simp
  then show ?thesis by (rule mset_eq_imp_distinct_iff)
qed

lemma map_of_sort_key:
  assumes "distinct (map fst d)"
  shows "map_of (sort_key f d) = map_of d"
proof
  fix k
  have "map_of (sort_key f d) k = Some v \<longleftrightarrow> map_of d k = Some v" for v
    using assms by (simp add: map_of_eq_Some_iff distinct_keys_sort)
  then show "map_of (sort_key f d) k = map_of d k" by (metis not_None_eq)
qed

lemma keys_sort_members [simp]: "map fst (sort_members d) = map fst d"
  by (induction d) auto

lemma plain_sort_all:
  "plain v \<Longrightarrow> plain (sort_obj v)"
  "plain_items xs \<Longrightarrow> plain_items (sort_items xs)"
  "plain_members d \<Longrightarrow> plain_members (sort_members d)"
proof (induction v and xs and d rule: sort_obj_sort_items_sort_members.induct)
  case (2 d)
  then show ?case by (simp add: plain_members_iff distinct_keys_sort)
qed simp_all

theorem json_loads_dumps:
  assumes "plain v" and "list_all is_ws w"
  shows "json_loads (dumps cfg v @ w) = Inr (if opt_sort cfg then sort_obj v else v)"
proof -
  define u where "u = (if opt_sort cfg then sort_obj v else v)"
  have u: "plain u" using assms(1) by (simp add: u_def plain_sort_all)
  let ?t = "dumps cfg v @ w"
  have t: "?t = render cfg 0 u @ w" by (simp add: dumps_def u_def)
  have ws: "9 \<le> byte_val c \<and> byte_val c < 128" if "is_ws c" for c
    using that by (auto simp: is_ws_def)
  have octets: "9 \<le> byte_val c \<and> byte_val c < 128" if "c \<in> set ?t" for c
    using that text_octet_render_all(1) [OF u, of cfg 0] assms(2) ws
    by (fastforce simp: t list_all_iff text_octet_def)
  have hi: "x \<noteq> CHR 0xFE \<and> x \<noteq> CHR 0xFF \<and> x \<noteq> CHR 0xEF \<and> x \<noteq> CHR 0x00" if "x \<in> set ?t" for x
    using octets [OF that] by auto
  obtain c s where cs: "?t = c # s" using render_head [OF u, of cfg 0] t by (metis append_Cons)
  have nth: "?t ! i \<noteq> CHR 0x00" if "i < length ?t" for i
    using hi [OF nth_mem [OF that]] by simp
  have "\<not> sniff_wide ?t"
    using hi [of c] nth [of 1] by (cases s) (auto simp: sniff_wide_def cs)
  moreover have "strip_bom ?t = ?t" using hi [of c] by (auto simp: strip_bom_def cs)
  moreover have "utf8_ok True ?t" using octets by (intro utf8_ok_ascii) blast
  moreover have "num_end w" using assms(2) by (cases w) (auto simp: num_end_def is_ws_def)
  then have "parse_value (2 * length ?t + 2) (render cfg 0 u @ w) = Inr (u, w)"
    using u by (intro parse_value_render) (simp_all add: t)
  moreover have "skip_ws w = []" using assms(2) by (auto simp: skip_ws_def list_all_iff)
  ultimately show ?thesis
    using u by (simp add: json_loads_def Let_def t flip: u_def)
qed

section \<open>Sorting the keys does not change a value\<close>

lemma py_eq_members_iff:
  "py_eq_members xs ys \<longleftrightarrow> (\<forall>(k, v) \<in> set xs. \<exists>w. map_of ys k = Some w \<and> py_eq v w)"
  by (induction xs) (auto split: option.split option.split_asm)

lemma map_of_sort_members:
  "map_of (sort_members d) k = map_option sort_obj (map_of d k)"
  by (induction d) auto

lemma py_eq_sort_all:
  "plain v \<Longrightarrow> py_eq (sort_obj v) v"
  "plain_items xs \<Longrightarrow> py_eq_list (sort_items xs) xs"
  "plain_members d \<Longrightarrow> \<forall>(k, v) \<in> set d. py_eq (sort_obj v) v"
proof (induction v and xs and d rule: plain_plain_items_plain_members.induct)
  case (7 d)
  have d: "distinct (map fst d)" "plain_members d" using 7 by auto
  have members: "set (sort_members e) = (\<lambda>(k, v). (k, sort_obj v)) ` set e" for e
    by (induction e) auto
  have "length (sort_members e) = length e" for e by (induction e) auto
  then show ?case using d 7 by (auto simp: py_eq_members_iff members)
qed (auto simp: num_eq_def)

lemma py_eq_refl_all:
  "plain v \<Longrightarrow> py_eq v v"
  "plain_items xs \<Longrightarrow> py_eq_list xs xs"
  "plain_members d \<Longrightarrow> \<forall>(k, v) \<in> set d. py_eq v v"
proof (induction v and xs and d rule: plain_plain_items_plain_members.induct)
  case (7 d)
  then show ?case by (auto simp: py_eq_members_iff)
qed (auto simp: num_eq_def)

section \<open>Reading sorted objects\<close>

lemma sort_items_map: "sort_items xs = map sort_obj xs"
  by (induction xs) auto

lemma dget_sorted:
  "distinct (map fst d) \<Longrightarrow> dget (sort_key fst (sort_members d)) k = sort_obj (dget d k)"
  by (simp add: dget_def map_of_sort_key map_of_sort_members split: option.split)

lemma plain_items_iff: "plain_items xs \<longleftrightarrow> list_all plain xs"
  by (induction xs) auto

end
