(* ===== verification/Release_Draft.thy ===== *)
theory Release_Draft
  imports Py_Regex Py_Json_Props "HOL-Library.Product_Lexorder"
begin

text \<open>
  \<open>scripts/release_draft_state.py\<close>: the selection of the one GitHub draft for an exact tag, the
  readiness of its assets, the wrapper revision a new run reserves, the downgrade guard, the check
  of a Git tag reference, and the command line that dispatches to them. A release is the
  dictionary \<open>json.loads\<close> gives; the GitHub responses are arguments.
\<close>

section \<open>Matching releases\<close>

type_synonym dict = "(string \<times> json) list"

definition ASSET_NAME_RX :: rx where
  "ASSET_NAME_RX =
     Seq (Cls [(CHR ''A'', CHR ''Z''), (CHR ''a'', CHR ''z''), (CHR ''0'', CHR ''9'')])
         (upto_rep 254 (Cls [(CHR ''A'', CHR ''Z''), (CHR ''a'', CHR ''z''), (CHR ''0'', CHR ''9''),
            (CHR ''.'', CHR ''.''), (CHR ''_'', CHR ''_''), (CHR ''+'', CHR ''+''), (CHR ''-'', CHR ''-'')]))"

definition valid_tag :: "string \<Rightarrow> bool" where
  "valid_tag tag \<longleftrightarrow> tag \<noteq> [] \<and> \<not> has_space tag"

definition match_step :: "string \<Rightarrow> dict list \<times> dict list \<Rightarrow> dict \<Rightarrow> (dict list \<times> dict list) res" where
  "match_step tag acc release =
     (case acc of (drafts, published) \<Rightarrow>
       if \<not> py_eq (dget release ''tag_name'') (JStr tag) then Inr (drafts, published)
       else if dget release ''draft'' = JBool True then
         (if dget release ''prerelease'' \<noteq> JBool False
          then Inl (ValueError ''matching draft must not be a prerelease'')
          else Inr (drafts @ [release], published))
       else if dget release ''draft'' = JBool False then Inr (drafts, published @ [release])
       else Inl (ValueError ''matching release has an invalid draft state''))"

definition exact_matches :: "dict list \<Rightarrow> string \<Rightarrow> (dict list \<times> dict list) res" where
  "exact_matches releases tag =
     (if \<not> valid_tag tag then Inl (ValueError ''release tag is invalid'')
      else foldE (match_step tag) ([], []) releases)"

definition require_commit :: "string \<Rightarrow> unit res" where
  "require_commit value =
     (if \<not> fullmatch COMMIT_RX value then Inl (ValueError ''wrapper commit is invalid'') else Inr ())"

section \<open>The plan for a draft\<close>

record plan =
  create :: bool
  draft_id :: "int option"
  asset_ids :: "int list"

text \<open>\<open>asset.get("id") if isinstance(asset, dict) else None\<close>\<close>

definition asset_id_value :: "json \<Rightarrow> json" where
  "asset_id_value asset = (case asset of JObj d \<Rightarrow> dget d ''id'' | _ \<Rightarrow> JNull)"

definition asset_id :: "string \<Rightarrow> json \<Rightarrow> int res" where
  "asset_id message asset =
     (if \<not> positive_int (asset_id_value asset) then Inl (ValueError message)
      else Inr (the_int (asset_id_value asset)))"

definition prepare_plan :: "dict list \<Rightarrow> string \<Rightarrow> string \<Rightarrow> plan res" where
  "prepare_plan releases tag expected_commit =
     bindE (require_commit expected_commit) (\<lambda>_.
     bindE (exact_matches releases tag) (\<lambda>(drafts, published).
       if published \<noteq> [] then Inl (ValueError ''the exact release tag is already public'')
       else if 1 < length drafts then Inl (ValueError ''the exact release tag has multiple drafts'')
       else if drafts = [] then Inr \<lparr>create = True, draft_id = None, asset_ids = []\<rparr>
       else
         let draft = hd drafts in
         if \<not> py_eq (dget draft ''target_commitish'') (JStr expected_commit)
         then Inl (ValueError ''matching draft targets a different wrapper commit'')
         else if \<not> positive_int (dget draft ''id'')
         then Inl (ValueError ''matching draft id is invalid'')
         else case dget draft ''assets'' of
           JArr assets \<Rightarrow>
             bindE (mapE (asset_id ''matching draft contains an invalid asset id'') assets) (\<lambda>ids.
               if \<not> distinct ids
               then Inl (ValueError ''matching draft contains duplicate asset ids'')
               else Inr \<lparr>create = False, draft_id = Some (the_int (dget draft ''id'')),
                         asset_ids = sort ids\<rparr>)
         | _ \<Rightarrow> Inl (ValueError ''matching draft assets are invalid'')))"

definition verified_draft :: "dict list \<Rightarrow> string \<Rightarrow> string \<Rightarrow> dict res" where
  "verified_draft releases tag expected_commit =
     bindE (prepare_plan releases tag expected_commit) (\<lambda>plan.
       if create plan then Inl (ValueError ''verified draft is missing'')
       else bindE (exact_matches releases tag) (\<lambda>(drafts, _). Inr (hd drafts)))"

section \<open>Readiness of the assets\<close>

definition expected_name_step :: "string list \<Rightarrow> string \<Rightarrow> string list res" where
  "expected_name_step names value =
     (if \<not> fullmatch ASSET_NAME_RX value then Inl (ValueError ''expected asset name is invalid'')
      else if List.member names value then Inl (ValueError ''expected asset names are duplicated'')
      else Inr (value # names))"

definition expected_asset_names :: "string list \<Rightarrow> string list res" where
  "expected_asset_names values =
     (if values = [] then Inl (ValueError ''at least one expected asset is required'')
      else foldE expected_name_step [] values)"

definition ready_name_step :: "string list \<Rightarrow> json \<Rightarrow> string list res" where
  "ready_name_step names asset =
     bindE (attr_items asset) (\<lambda>a.
       case dget a ''name'' of
         JStr name \<Rightarrow>
           if \<not> fullmatch ASSET_NAME_RX name
           then Inl (ValueError ''matching draft contains an invalid asset name'')
           else if List.member names name
           then Inl (ValueError ''matching draft contains duplicate asset names'')
           else Inr (name # names)
       | _ \<Rightarrow> Inl (ValueError ''matching draft contains an invalid asset name''))"

definition str_value :: "json \<Rightarrow> string" where
  "str_value v = (case v of JStr s \<Rightarrow> s | _ \<Rightarrow> [])"

definition is_digest_value :: "json \<Rightarrow> bool" where
  "is_digest_value v = (case v of JStr s \<Rightarrow> fullmatch PREFIXED_DIGEST_RX s | _ \<Rightarrow> False)"

definition ready_metadata_step :: "unit \<Rightarrow> json \<Rightarrow> unit res" where
  "ready_metadata_step u asset =
     bindE (attr_items asset) (\<lambda>a.
       if \<not> positive_int (dget a ''size'') \<or> \<not> is_digest_value (dget a ''digest'')
       then Inl (DraftNotReady
              (''verified draft asset metadata is not ready: '' @ str_value (dget a ''name'')))
       else Inr ())"

definition assets_of :: "dict \<Rightarrow> json list" where
  "assets_of draft = (case dget draft ''assets'' of JArr xs \<Rightarrow> xs | _ \<Rightarrow> [])"

definition verified_ready_draft ::
    "dict list \<Rightarrow> string \<Rightarrow> string \<Rightarrow> string list \<Rightarrow> dict res" where
  "verified_ready_draft releases tag expected_commit expected_assets =
     bindE (expected_asset_names expected_assets) (\<lambda>expected_names.
     bindE (require_commit expected_commit) (\<lambda>_.
     bindE (exact_matches releases tag) (\<lambda>(drafts, published).
       if drafts = [] \<and> published = []
       then Inl (DraftNotReady ''verified draft is not visible yet'')
       else
         bindE (verified_draft releases tag expected_commit) (\<lambda>draft.
         bindE (foldE ready_name_step [] (assets_of draft)) (\<lambda>names.
           if \<not> list_all (List.member expected_names) names
           then Inl (ValueError ''matching draft contains an unexpected asset'')
           else if \<not> same_elems names expected_names
           then Inl (DraftNotReady ''verified draft asset set is not ready'')
           else bindE (foldE ready_metadata_step () (assets_of draft)) (\<lambda>_. Inr draft))))))"

section \<open>Wrapper revisions\<close>

definition max_revision :: int where
  "max_revision = 2147483647"

definition revision_rx :: "string \<Rightarrow> rx" where
  "revision_rx pfx = Seq (lit pfx) NUMERAL_RX"

definition revision_of :: "string \<Rightarrow> string \<Rightarrow> int" where
  "revision_of pfx tag = int (nat_of_digits (drop (length pfx) tag))"

text \<open>The checks on a draft that reserves a revision.\<close>

definition check_reserving_draft :: "string \<Rightarrow> dict \<Rightarrow> unit res" where
  "check_reserving_draft tag release =
     (if dget release ''prerelease'' \<noteq> JBool False
      then Inl (ValueError (''matching draft must not be a prerelease: '' @ tag))
      else if \<not> positive_int (dget release ''id'')
      then Inl (ValueError (''matching draft is malformed: '' @ tag))
      else case dget release ''assets'' of
        JArr assets \<Rightarrow>
          bindE (mapE (asset_id (''matching draft contains an invalid asset id: '' @ tag)) assets)
            (\<lambda>ids. if \<not> distinct ids
              then Inl (ValueError (''matching draft contains duplicate asset ids: '' @ tag))
              else Inr ())
      | _ \<Rightarrow> Inl (ValueError (''matching draft is malformed: '' @ tag)))"

definition revision_step :: "string \<Rightarrow> int \<times> string list \<Rightarrow> dict \<Rightarrow> (int \<times> string list) res" where
  "revision_step pfx acc release =
     (case acc of (maximum, seen_tags) \<Rightarrow>
      case dget release ''tag_name'' of
        JStr tag \<Rightarrow>
          if \<not> startswith tag pfx then Inr (maximum, seen_tags)
          else if \<not> fullmatch (revision_rx pfx) tag
          then Inl (ValueError (''matching wrapper tag is malformed: '' @ tag))
          else if dget release ''draft'' \<noteq> JBool True \<and> dget release ''draft'' \<noteq> JBool False
          then Inl (ValueError (''matching wrapper release has invalid draft state: '' @ tag))
          else if List.member seen_tags tag
          then Inl (ValueError (''matching wrapper release is duplicated: '' @ tag))
          else bindE (if dget release ''draft'' = JBool True
                      then check_reserving_draft tag release else Inr ()) (\<lambda>_.
            Inr (max maximum (revision_of pfx tag), tag # seen_tags))
      | _ \<Rightarrow> Inr (maximum, seen_tags))"

definition next_wrapper_revision :: "dict list \<Rightarrow> string \<Rightarrow> int \<Rightarrow> int res" where
  "next_wrapper_revision releases pfx run_offset =
     (if pfx = [] \<or> has_space pfx then Inl (ValueError ''release prefix is invalid'')
      else if run_offset < 1 \<or> max_revision < run_offset
      then Inl (ValueError ''wrapper run offset is invalid'')
      else bindE (foldE (revision_step pfx) (1, []) releases) (\<lambda>(maximum, _).
        if max_revision < maximum + run_offset
        then Inl (ValueError ''next wrapper revision exceeds the supported range'')
        else Inr (maximum + run_offset)))"

section \<open>The downgrade guard\<close>

type_synonym version = "nat \<times> nat \<times> nat"

definition FAMILY_PREFIXES :: "(string \<times> string) list" where
  "FAMILY_PREFIXES = [(''sing_box'', ''sb''), (''xray'', ''xray'')]"

text \<open>The groups of \<open>v([0-9]+)\.([0-9]+)\.([0-9]+)\<close> at the start of a matching text, and the rest.\<close>

definition version_groups :: "string \<Rightarrow> version \<times> string" where
  "version_groups s =
     (case span_digits (drop 1 s) of (a, s1) \<Rightarrow>
      case span_digits (drop 1 s1) of (b, s2) \<Rightarrow>
      case span_digits (drop 1 s2) of (c, s3) \<Rightarrow>
        ((nat_of_digits a, nat_of_digits b, nat_of_digits c), s3))"

definition release_rx :: "string \<Rightarrow> rx" where
  "release_rx pfx =
     Seq (lit pfx) (Seq (lit ''-'') (Seq VERSION_RX (opt (Seq (lit ''-w'') NUMERAL_RX))))"

definition release_groups :: "string \<Rightarrow> string \<Rightarrow> version \<times> nat" where
  "release_groups pfx tag =
     (case version_groups (drop (length pfx + 1) tag) of (v, rest) \<Rightarrow>
        (v, if rest = [] then 0 else nat_of_digits (drop 2 rest)))"

type_synonym candidate = "(version \<times> nat) \<times> string"

definition downgrade_step ::
    "string \<Rightarrow> string \<Rightarrow> candidate option \<Rightarrow> dict \<Rightarrow> candidate option res" where
  "downgrade_step family pfx highest release =
     (if dget release ''draft'' \<noteq> JBool False then Inr highest
      else case dget release ''tag_name'' of
        JStr tag \<Rightarrow>
          if \<not> startswith tag (pfx @ ''-v'') then Inr highest
          else if \<not> fullmatch (release_rx pfx) tag
          then Inl (ValueError (''published '' @ family @ '' tag is malformed: '' @ tag))
          else
            let candidate = (release_groups pfx tag, tag) in
            (case highest of
               None \<Rightarrow> Inr (Some candidate)
             | Some h \<Rightarrow> if fst h < fst candidate then Inr (Some candidate) else Inr highest)
      | _ \<Rightarrow> Inr highest)"

definition ensure_not_downgrade :: "dict list \<Rightarrow> string \<Rightarrow> string \<Rightarrow> unit res" where
  "ensure_not_downgrade releases family upstream_tag =
     (case map_of FAMILY_PREFIXES family of
        None \<Rightarrow> Inl (ValueError ''core family is invalid'')
      | Some pfx \<Rightarrow>
          if \<not> fullmatch VERSION_RX upstream_tag then Inl (ValueError ''upstream tag is invalid'')
          else
            let target_version = fst (version_groups upstream_tag) in
            bindE (foldE (downgrade_step family pfx) None releases) (\<lambda>highest.
              case highest of
                None \<Rightarrow> Inr ()
              | Some h \<Rightarrow>
                  if target_version < fst (fst h)
                  then Inl (ValueError (''upstream downgrade is forbidden: '' @ upstream_tag @ '' < '' @ snd h))
                  else Inr ()))"

section \<open>Git tag references\<close>

fun flatten_references :: "json list \<Rightarrow> json list" where
  "flatten_references [] = []"
| "flatten_references (JArr xs # items) = xs @ flatten_references items"
| "flatten_references (item # items) = item # flatten_references items"

definition is_dict :: "json \<Rightarrow> bool" where
  "is_dict v = (case v of JObj d \<Rightarrow> True | _ \<Rightarrow> False)"

definition refers_to :: "string \<Rightarrow> json \<Rightarrow> bool" where
  "refers_to exact_name reference =
     (case reference of JObj d \<Rightarrow> py_eq (dget d ''ref'') (JStr exact_name) | _ \<Rightarrow> False)"

definition points_to_commit :: "string \<Rightarrow> json \<Rightarrow> bool" where
  "points_to_commit expected_commit reference =
     (case reference of
        JObj d \<Rightarrow> (case dget d ''object'' of
            JObj target \<Rightarrow> py_eq (dget target ''type'') (JStr ''commit'')
                         \<and> py_eq (dget target ''sha'') (JStr expected_commit)
          | _ \<Rightarrow> False)
      | _ \<Rightarrow> False)"

definition verify_tag_references :: "json \<Rightarrow> string \<Rightarrow> string \<Rightarrow> bool \<Rightarrow> unit res" where
  "verify_tag_references value tag expected_commit allow_missing =
     (if \<not> valid_tag tag then Inl (ValueError ''release tag is invalid'')
      else bindE (require_commit expected_commit) (\<lambda>_.
        case value of
          JArr items \<Rightarrow>
            let references = flatten_references items in
            if \<not> list_all is_dict references
            then Inl (ValueError ''tag reference response contains a malformed entry'')
            else
              let exact = filter (refers_to (''refs/tags/'' @ tag)) references in
              if exact = [] then
                (if allow_missing then Inr ()
                 else Inl (ValueError ''exact release tag reference is missing''))
              else if length exact \<noteq> 1
              then Inl (ValueError ''exact release tag reference is ambiguous'')
              else if \<not> points_to_commit expected_commit (hd exact)
              then Inl (ValueError ''release tag does not point to the wrapper commit'')
              else Inr ()
        | _ \<Rightarrow> Inl (ValueError ''tag reference response must be an array'')))"

section \<open>The command line\<close>

definition MAX_RELEASES_BYTES :: nat where
  "MAX_RELEASES_BYTES = 64 * 1024 * 1024"

definition MAX_REFERENCES_BYTES :: nat where
  "MAX_REFERENCES_BYTES = 16 * 1024 * 1024"

text \<open>A file argument is what opening and reading it gives: its octets, or \<open>None\<close> for an \<open>OSError\<close>.\<close>

type_synonym file_input = "bytes option"

definition load_json_bounded :: "file_input \<Rightarrow> nat \<Rightarrow> string \<Rightarrow> json res" where
  "load_json_bounded file maximum label =
     (case file of
        None \<Rightarrow> Inl (OSError label)
      | Some content \<Rightarrow>
          let raw = take (maximum + 1) content in
          if maximum < length raw then Inl (ValueError (label @ '' exceeds the safety limit''))
          else json_loads raw)"

fun the_dict :: "json \<Rightarrow> dict" where
  "the_dict (JObj d) = d"
| "the_dict _ = []"

definition load_releases :: "file_input \<Rightarrow> dict list res" where
  "load_releases file =
     bindE (load_json_bounded file MAX_RELEASES_BYTES ''release list'') (\<lambda>value.
       case value of
         JArr items \<Rightarrow>
           if \<not> list_all is_dict items
           then Inl (ValueError ''release list must be an array of objects'')
           else Inr (map the_dict items)
       | _ \<Rightarrow> Inl (ValueError ''release list must be an array of objects''))"

record cli_args =
  arg_mode :: string
  arg_releases :: "file_input option"
  arg_references :: "file_input option"
  arg_tag :: "string option"
  arg_prefix :: "string option"
  arg_run_offset :: "int option"
  arg_commit :: "string option"
  arg_family :: "string option"
  arg_upstream_tag :: "string option"
  arg_allow_missing :: bool
  arg_expected_asset :: "string list"

definition plan_json :: "plan \<Rightarrow> json" where
  "plan_json p = JObj
     [(''create'', JBool (create p)),
      (''draftId'', case draft_id p of None \<Rightarrow> JNull | Some i \<Rightarrow> JInt i),
      (''assetIds'', JArr (map JInt (asset_ids p)))]"

definition run_verify_tag :: "cli_args \<Rightarrow> string res" where
  "run_verify_tag a =
     (case (arg_references a, arg_tag a, arg_commit a) of
        (Some file, Some tag, Some commit) \<Rightarrow>
          if arg_releases a \<noteq> None \<or> arg_prefix a \<noteq> None \<or> arg_run_offset a \<noteq> None
             \<or> arg_family a \<noteq> None \<or> arg_upstream_tag a \<noteq> None \<or> arg_expected_asset a \<noteq> []
          then Inl (UsageError ''verify-tag requires --references, --tag and --commit'')
          else
            bindE (load_json_bounded file MAX_REFERENCES_BYTES ''tag reference response'') (\<lambda>value.
            bindE (verify_tag_references value tag commit (arg_allow_missing a)) (\<lambda>_.
              Inr ''release tag reference verified''))
      | _ \<Rightarrow> Inl (UsageError ''verify-tag requires --references, --tag and --commit''))"

definition run_guard_upstream :: "cli_args \<Rightarrow> dict list \<Rightarrow> string res" where
  "run_guard_upstream a releases =
     (case (arg_family a, arg_upstream_tag a) of
        (Some family, Some upstream_tag) \<Rightarrow>
          if arg_prefix a \<noteq> None \<or> arg_run_offset a \<noteq> None \<or> arg_tag a \<noteq> None
             \<or> arg_commit a \<noteq> None \<or> arg_expected_asset a \<noteq> []
          then Inl (UsageError ''guard-upstream requires --family and --upstream-tag only'')
          else bindE (ensure_not_downgrade releases family upstream_tag) (\<lambda>_.
            Inr ''upstream version does not downgrade a published core'')
      | _ \<Rightarrow> Inl (UsageError ''guard-upstream requires --family and --upstream-tag only''))"

definition run_next_revision :: "cli_args \<Rightarrow> dict list \<Rightarrow> string res" where
  "run_next_revision a releases =
     (case arg_prefix a of
        None \<Rightarrow> Inl (UsageError ''next-revision requires --prefix and does not accept --tag'')
      | Some pfx \<Rightarrow>
          if arg_tag a \<noteq> None \<or> arg_commit a \<noteq> None \<or> arg_expected_asset a \<noteq> []
          then Inl (UsageError ''next-revision requires --prefix and does not accept --tag'')
          else
            let run_offset = (case arg_run_offset a of None \<Rightarrow> 1 | Some n \<Rightarrow> n) in
            bindE (next_wrapper_revision releases pfx run_offset) (\<lambda>r. Inr (dec_int r)))"

definition run_draft_mode :: "cli_args \<Rightarrow> dict list \<Rightarrow> string res" where
  "run_draft_mode a releases =
     (case (arg_tag a, arg_commit a) of
        (Some tag, Some commit) \<Rightarrow>
          if arg_prefix a \<noteq> None \<or> arg_run_offset a \<noteq> None
          then Inl (UsageError (arg_mode a @ '' requires --tag and --commit and does not accept --prefix''))
          else bindE
            (if arg_mode a = ''prepare'' then
               (if arg_expected_asset a \<noteq> []
                then Inl (UsageError ''prepare does not accept --expected-asset'')
                else bindE (prepare_plan releases tag commit) (\<lambda>p. Inr (plan_json p)))
             else if arg_mode a = ''verify'' then
               (if arg_expected_asset a \<noteq> []
                then Inl (UsageError ''verify does not accept --expected-asset'')
                else bindE (verified_draft releases tag commit) (\<lambda>d. Inr (JObj d)))
             else bindE (verified_ready_draft releases tag commit (arg_expected_asset a))
                    (\<lambda>d. Inr (JObj d)))
            (\<lambda>value. Inr (dumps compact_opts value))
      | _ \<Rightarrow> Inl (UsageError (arg_mode a @ '' requires --tag and --commit and does not accept --prefix'')))"

definition draft_main :: "cli_args \<Rightarrow> string res" where
  "draft_main a =
     (if \<not> List.member [''guard-upstream'', ''next-revision'', ''prepare'', ''verify'', ''verify-ready'',
                       ''verify-tag''] (arg_mode a)
      then Inl (UsageError ''invalid choice'')
      else if \<not> (case arg_family a of None \<Rightarrow> True | Some f \<Rightarrow> map_of FAMILY_PREFIXES f \<noteq> None)
      then Inl (UsageError ''invalid choice'')
      else if arg_mode a = ''verify-tag'' then run_verify_tag a
      else case arg_releases a of
        None \<Rightarrow> Inl (UsageError (arg_mode a @ '' requires --releases''))
      | Some file \<Rightarrow>
          if arg_references a \<noteq> None then Inl (UsageError (arg_mode a @ '' requires --releases''))
          else if arg_allow_missing a
          then Inl (UsageError ''--allow-missing is only valid with verify-tag'')
          else bindE (load_releases file) (\<lambda>releases.
            if arg_mode a = ''guard-upstream'' then run_guard_upstream a releases
            else if arg_family a \<noteq> None \<or> arg_upstream_tag a \<noteq> None
            then Inl (UsageError (arg_mode a @ '' does not accept --family or --upstream-tag''))
            else if arg_mode a = ''next-revision'' then run_next_revision a releases
            else run_draft_mode a releases))"

text \<open>The exit status: 75 asks the caller to retry, 2 is a usage error, 1 any other exception.\<close>

definition DRAFT_NOT_READY_EXIT :: int where
  "DRAFT_NOT_READY_EXIT = 75"

definition draft_exit :: "cli_args \<Rightarrow> int" where
  "draft_exit a =
     (case draft_main a of
        Inr _ \<Rightarrow> 0
      | Inl (DraftNotReady _) \<Rightarrow> DRAFT_NOT_READY_EXIT
      | Inl (UsageError _) \<Rightarrow> 2
      | Inl _ \<Rightarrow> 1)"

end
