(* ===== verification/Release_Draft_Props.thy ===== *)
theory Release_Draft_Props
  imports Release_Draft
begin

text \<open>
  When the operations on the release list accept: the one draft of a tag, the plan made of it, and
  the readiness of its assets, each as an equivalence with the conditions the code checks.
\<close>

section \<open>Selecting the draft\<close>

definition tagged :: "string \<Rightarrow> dict \<Rightarrow> bool" where
  "tagged tag r \<longleftrightarrow> dget r ''tag_name'' = JStr tag"

definition open_draft :: "dict \<Rightarrow> bool" where
  "open_draft r \<longleftrightarrow> dget r ''draft'' = JBool True \<and> dget r ''prerelease'' = JBool False"

definition is_public :: "dict \<Rightarrow> bool" where
  "is_public r \<longleftrightarrow> dget r ''draft'' = JBool False"

lemma match_step_eq_Inr:
  "match_step tag (ds, ps) r = Inr q \<longleftrightarrow>
     (if tagged tag r
      then (open_draft r \<and> q = (ds @ [r], ps)) \<or> (is_public r \<and> q = (ds, ps @ [r]))
      else q = (ds, ps))"
  by (auto simp: match_step_def tagged_def open_draft_def is_public_def split: if_split_asm)

lemma draft_not_public: "open_draft r \<Longrightarrow> \<not> is_public r"
  by (simp add: open_draft_def is_public_def)

lemma foldE_match_step:
  "foldE (match_step tag) (ds, ps) rs = Inr (ds', ps') \<longleftrightarrow>
     ds' = ds @ filter open_draft (filter (tagged tag) rs)
     \<and> ps' = ps @ filter is_public (filter (tagged tag) rs)
     \<and> (\<forall>r \<in> set rs. tagged tag r \<longrightarrow> open_draft r \<or> is_public r)"
proof (induction rs arbitrary: ds ps)
  case (Cons r rs)
  consider "\<not> tagged tag r" | "tagged tag r" "open_draft r" | "tagged tag r" "is_public r"
    | "tagged tag r" "\<not> open_draft r" "\<not> is_public r" by blast
  then show ?case
    by cases (auto simp: bindE_eq_Inr match_step_eq_Inr Cons dest: draft_not_public)
qed auto

lemma exact_matches_eq_Inr:
  "exact_matches rs tag = Inr (ds, ps) \<longleftrightarrow> valid_tag tag
     \<and> ds = filter open_draft (filter (tagged tag) rs)
     \<and> ps = filter is_public (filter (tagged tag) rs)
     \<and> (\<forall>r \<in> set rs. tagged tag r \<longrightarrow> open_draft r \<or> is_public r)"
  by (simp add: exact_matches_def foldE_match_step)

lemma exact_matches_classify:
  assumes "valid_tag tag" "list_all (\<lambda>r. open_draft r \<or> is_public r) (filter (tagged tag) rs)"
  shows "exact_matches rs tag =
    Inr (filter open_draft (filter (tagged tag) rs), filter is_public (filter (tagged tag) rs))"
  using assms unfolding exact_matches_eq_Inr by (auto simp: list_all_iff)

lemma require_commit_eq_Inr [res_iff]: "require_commit c = Inr u \<longleftrightarrow> fullmatch COMMIT_RX c"
  by (simp add: require_commit_def)

lemma asset_id_eq_Inr [res_iff]: "asset_id m a = Inr i \<longleftrightarrow> asset_id_value a = JInt i \<and> 0 < i"
  by (auto simp: asset_id_def positive_int_iff the_int_def)

lemma mapE_asset_id:
  "mapE (asset_id m) assets = Inr ids \<longleftrightarrow>
     map asset_id_value assets = map JInt ids \<and> (\<forall>i \<in> set ids. 0 < i)"
proof (induction assets arbitrary: ids)
  case (Cons a assets)
  show ?case by (cases ids) (auto simp: res_iff Cons)
qed auto

lemma no_match_filter:
  "filter open_draft xs = [] \<Longrightarrow> filter is_public xs = [] \<Longrightarrow>
   \<forall>r \<in> set xs. open_draft r \<or> is_public r \<Longrightarrow> xs = []"
  by (cases xs) (auto split: if_split_asm)

lemma drafts_are_all:
  "filter is_public xs = [] \<Longrightarrow> \<forall>r \<in> set xs. open_draft r \<or> is_public r \<Longrightarrow>
   filter open_draft xs = xs"
  by (auto simp: filter_empty_conv filter_id_conv)

text \<open>The draft of a run: an unpublished, regular release on the run's own commit.\<close>

definition draft_for :: "string \<Rightarrow> dict \<Rightarrow> bool" where
  "draft_for commit d \<longleftrightarrow> open_draft d \<and> dget d ''target_commitish'' = JStr commit"

text \<open>What \<open>prepare_plan\<close> checks of the only release with the tag.\<close>

definition plan_of :: "string \<Rightarrow> dict \<Rightarrow> plan \<Rightarrow> bool" where
  "plan_of commit d p \<longleftrightarrow>
     (\<exists>i assets ids. draft_for commit d \<and> dget d ''id'' = JInt i \<and> 0 < i
        \<and> dget d ''assets'' = JArr assets \<and> map asset_id_value assets = map JInt ids
        \<and> (\<forall>i \<in> set ids. 0 < i) \<and> distinct ids
        \<and> p = \<lparr>create = False, draft_id = Some i, asset_ids = sort ids\<rparr>)"

lemma exact_matches_drafts:
  assumes "exact_matches rs tag = Inr (ds, [])"
  shows "valid_tag tag \<and> filter (tagged tag) rs = ds \<and> list_all open_draft ds"
proof -
  let ?xs = "filter (tagged tag) rs"
  from assms have e: "valid_tag tag" "ds = filter open_draft ?xs" "[] = filter is_public ?xs"
      "\<forall>r \<in> set rs. tagged tag r \<longrightarrow> open_draft r \<or> is_public r"
    unfolding exact_matches_eq_Inr by blast+
  from e(4) have "\<forall>r \<in> set ?xs. open_draft r \<or> is_public r" by simp
  then have "filter open_draft ?xs = ?xs" by (rule drafts_are_all [OF e(3) [symmetric]])
  then have "ds = ?xs" "list_all open_draft ?xs"
    using e(2) by (simp, metis filter_id_conv list_all_iff)
  with e(1) show ?thesis by simp
qed

lemma exact_single:
  "exact_matches rs tag = Inr ([d], []) \<longleftrightarrow>
     valid_tag tag \<and> filter (tagged tag) rs = [d] \<and> open_draft d"
proof
  assume "exact_matches rs tag = Inr ([d], [])"
  from exact_matches_drafts [OF this]
  show "valid_tag tag \<and> filter (tagged tag) rs = [d] \<and> open_draft d" by simp
next
  assume r: "valid_tag tag \<and> filter (tagged tag) rs = [d] \<and> open_draft d"
  then have "exact_matches rs tag = Inr (filter open_draft [d], filter is_public [d])"
    using exact_matches_classify [of tag rs] by simp
  with r show "exact_matches rs tag = Inr ([d], [])" by (simp add: draft_not_public)
qed

lemma exact_none:
  "exact_matches rs tag = Inr ([], []) \<longleftrightarrow> valid_tag tag \<and> filter (tagged tag) rs = []"
proof
  assume "exact_matches rs tag = Inr ([], [])"
  from exact_matches_drafts [OF this]
  show "valid_tag tag \<and> filter (tagged tag) rs = []" by simp
next
  assume "valid_tag tag \<and> filter (tagged tag) rs = []"
  then show "exact_matches rs tag = Inr ([], [])"
    using exact_matches_classify [of tag rs] by simp
qed

lemma prepare_plan_cases:
  "prepare_plan rs tag commit = Inr p \<longleftrightarrow> fullmatch COMMIT_RX commit \<and>
     (exact_matches rs tag = Inr ([], []) \<and> p = \<lparr>create = True, draft_id = None, asset_ids = []\<rparr>
      \<or> (\<exists>d. exact_matches rs tag = Inr ([d], []) \<and> plan_of commit d p))"
  (is "?l \<longleftrightarrow> ?r")
proof (cases "fullmatch COMMIT_RX commit \<and> (\<exists>ds. exact_matches rs tag = Inr (ds, []))")
  case False
  then show ?thesis by (auto simp: prepare_plan_def bindE_eq_Inr require_commit_eq_Inr split: if_split_asm)
next
  case True
  then obtain ds where m: "exact_matches rs tag = Inr (ds, [])" and c: "require_commit commit = Inr ()"
    by (auto simp: require_commit_def)
  have o: "\<And>d. ds = [d] \<Longrightarrow> open_draft d" using exact_matches_drafts [OF m] by simp
  consider "ds = []" | d where "ds = [d]" | "1 < length ds" by (cases ds; cases "tl ds") auto
  then show ?thesis
  proof cases
    case 2
    then show ?thesis
      using True m c o
      by (auto simp: prepare_plan_def plan_of_def draft_for_def res_iff mapE_asset_id positive_int_iff
          the_int_def split: json.split_asm)
  qed (use True m c in \<open>auto simp: prepare_plan_def res_iff\<close>)
qed

lemma plan_of_open: "plan_of commit d p \<Longrightarrow> open_draft d"
  by (auto simp: plan_of_def draft_for_def)

lemma prepare_plan_eq_Inr:
  "prepare_plan rs tag commit = Inr p \<longleftrightarrow>
     fullmatch COMMIT_RX commit \<and> valid_tag tag \<and>
     (filter (tagged tag) rs = [] \<and> p = \<lparr>create = True, draft_id = None, asset_ids = []\<rparr>
      \<or> (\<exists>d. filter (tagged tag) rs = [d] \<and> plan_of commit d p))"
  by (auto simp: prepare_plan_cases exact_single exact_none dest: plan_of_open)

lemma verified_draft_eq_Inr:
  "verified_draft rs tag commit = Inr d \<longleftrightarrow>
     fullmatch COMMIT_RX commit \<and> valid_tag tag \<and> filter (tagged tag) rs = [d]
     \<and> (\<exists>p. plan_of commit d p)"
  (is "?l \<longleftrightarrow> ?r")
proof
  assume ?l
  then obtain p q where p: "prepare_plan rs tag commit = Inr p" "\<not> create p"
    and q: "exact_matches rs tag = Inr q" "d = hd (fst q)"
    by (auto simp: verified_draft_def res_iff split: prod.split_asm)
  then obtain d' where "exact_matches rs tag = Inr ([d'], [])" "plan_of commit d' p"
    by (auto simp: prepare_plan_cases)
  with p q show ?r by (auto simp: prepare_plan_cases exact_single)
next
  assume r: ?r
  then obtain p where p: "plan_of commit d p" by blast
  with r have e: "exact_matches rs tag = Inr ([d], [])" by (auto simp: exact_single dest: plan_of_open)
  with r p have "prepare_plan rs tag commit = Inr p" by (auto simp: prepare_plan_cases)
  moreover have "\<not> create p" using p by (auto simp: plan_of_def)
  ultimately show ?l using e by (simp add: verified_draft_def)
qed

section \<open>Readiness\<close>

definition asset_name :: "json \<Rightarrow> string" where
  "asset_name a = (case a of JObj d \<Rightarrow> str_value (dget d ''name'') | _ \<Rightarrow> [])"

lemma expected_names_Inr:
  "foldE expected_name_step ns vs = Inr ns' \<longleftrightarrow>
     ns' = rev vs @ ns \<and> list_all (fullmatch ASSET_NAME_RX) vs \<and> distinct vs \<and> set vs \<inter> set ns = {}"
  by (induction vs arbitrary: ns) (auto simp: expected_name_step_def res_iff)

lemma ready_name_step_Inr [res_iff]:
  "ready_name_step ns a = Inr ns' \<longleftrightarrow>
     (\<exists>d name. a = JObj d \<and> dget d ''name'' = JStr name \<and> fullmatch ASSET_NAME_RX name
        \<and> name \<notin> set ns \<and> ns' = name # ns)"
  by (cases a) (auto simp: ready_name_step_def split: json.split if_split_asm)

definition named_asset :: "json \<Rightarrow> bool" where
  "named_asset a \<longleftrightarrow> (\<exists>d name. a = JObj d \<and> dget d ''name'' = JStr name \<and> fullmatch ASSET_NAME_RX name)"

lemma ready_names_Inr:
  "foldE ready_name_step ns as = Inr ns' \<longleftrightarrow>
     ns' = rev (map asset_name as) @ ns \<and> list_all named_asset as
     \<and> distinct (map asset_name as) \<and> set (map asset_name as) \<inter> set ns = {}"
  by (induction as arbitrary: ns)
     (auto simp: res_iff named_asset_def asset_name_def str_value_def)

text \<open>What GitHub reports of an uploaded asset: a positive size and a SHA-256 digest.\<close>

definition uploaded :: "json \<Rightarrow> bool" where
  "uploaded a \<longleftrightarrow> (\<exists>d s. a = JObj d \<and> positive_int (dget d ''size'') \<and> dget d ''digest'' = JStr s
                     \<and> fullmatch PREFIXED_DIGEST_RX s)"

lemma ready_metadata_step_Inr: "ready_metadata_step u a = Inr v \<longleftrightarrow> uploaded a"
  by (cases a) (auto simp: ready_metadata_step_def res_iff uploaded_def is_digest_value_def
        split: json.split_asm)

lemma ready_metadata_Inr: "foldE ready_metadata_step u as = Inr v \<longleftrightarrow> list_all uploaded as"
  by (induction as) (auto simp: bindE_eq_Inr ready_metadata_step_Inr)

lemma verified_ready_draft_eq_Inr:
  "verified_ready_draft rs tag commit expected = Inr d \<longleftrightarrow>
     verified_draft rs tag commit = Inr d
     \<and> expected \<noteq> [] \<and> list_all (fullmatch ASSET_NAME_RX) expected \<and> distinct expected
     \<and> list_all named_asset (assets_of d) \<and> distinct (map asset_name (assets_of d))
     \<and> set (map asset_name (assets_of d)) = set expected
     \<and> list_all uploaded (assets_of d)"
  (is "?l \<longleftrightarrow> ?r")
proof
  assume l: ?l
  then show ?r
    by (auto simp: verified_ready_draft_def res_iff expected_asset_names_def expected_names_Inr
        ready_names_Inr ready_metadata_Inr same_elems_iff split: prod.split_asm if_split_asm)
next
  assume r: ?r
  then have "exact_matches rs tag = Inr ([d], [])" "require_commit commit = Inr ()"
    by (auto simp: verified_draft_eq_Inr exact_single require_commit_def dest: plan_of_open)
  moreover from r have "expected_asset_names expected = Inr (rev expected)"
    by (simp add: expected_asset_names_def expected_names_Inr)
  moreover from r have "foldE ready_name_step [] (assets_of d) = Inr (rev (map asset_name (assets_of d)))"
    by (simp add: ready_names_Inr)
  moreover from r have "foldE ready_metadata_step () (assets_of d) = Inr ()"
    by (simp add: ready_metadata_Inr)
  ultimately show ?l
    using r by (simp add: verified_ready_draft_def same_elems_iff list_all_iff)
qed

end
