(* ===== verification/Release_Version_Props.thy ===== *)
theory Release_Version_Props
  imports Release_Draft
begin

text \<open>
  The wrapper revision a run reserves, the downgrade guard and the check of the Git tag reference:
  the tags each reads, the bounds of what it returns, and when it accepts.
\<close>

section \<open>Wrapper revisions\<close>

text \<open>The tag of a release, where it is a text that starts with the prefix.\<close>

definition family_tag :: "string \<Rightarrow> dict \<Rightarrow> string option" where
  "family_tag pfx r =
     (case dget r ''tag_name'' of JStr t \<Rightarrow> if startswith t pfx then Some t else None | _ \<Rightarrow> None)"

lemma revision_tag: "fullmatch (revision_rx pfx) t \<longleftrightarrow> (\<exists>n > 0. t = pfx @ dec_nat n)"
  by (auto simp: fullmatch_iff revision_rx_def NUMERAL_iff)

lemma revision_of_dec [simp]: "revision_of pfx (pfx @ dec_nat n) = int n"
  by (simp add: revision_of_def)

lemma revision_step_Inr:
  "revision_step pfx (m, seen) r = Inr q \<longleftrightarrow>
     (case family_tag pfx r of
        None \<Rightarrow> q = (m, seen)
      | Some t \<Rightarrow> fullmatch (revision_rx pfx) t
          \<and> (dget r ''draft'' = JBool False
             \<or> dget r ''draft'' = JBool True \<and> check_reserving_draft t r = Inr ())
          \<and> t \<notin> set seen \<and> q = (max m (revision_of pfx t), t # seen))"
  by (auto simp: revision_step_def family_tag_def bindE_eq_Inr raise_if_eq_Inr
      split: json.split if_split_asm)

text \<open>The tag of a release is well formed and its revision is at most \<open>m\<close>.\<close>

definition revision_bound :: "string \<Rightarrow> int \<Rightarrow> string \<Rightarrow> bool" where
  "revision_bound pfx m t \<longleftrightarrow> (\<exists>n > 0. t = pfx @ dec_nat n \<and> int n \<le> m)"

lemma foldE_revision_step:
  assumes "foldE (revision_step pfx) (m, seen) rs = Inr (m', seen')"
  shows "m \<le> m' \<and> (\<forall>r \<in> set rs. \<forall>t. family_tag pfx r = Some t \<longrightarrow> revision_bound pfx m' t)
    \<and> (m' = m \<or> (\<exists>r \<in> set rs. \<exists>n. family_tag pfx r = Some (pfx @ dec_nat n) \<and> m' = int n))"
  using assms
proof (induction rs arbitrary: m seen)
  case (Cons r rs)
  then obtain q where "revision_step pfx (m, seen) r = Inr q" "foldE (revision_step pfx) q rs = Inr (m', seen')"
    by (auto simp: bindE_eq_Inr)
  then obtain m1 s1 where st: "revision_step pfx (m, seen) r = Inr (m1, s1)"
    and rest: "foldE (revision_step pfx) (m1, s1) rs = Inr (m', seen')"
    by (cases q) auto
  note IH = Cons.IH [OF rest]
  show ?case
  proof (cases "family_tag pfx r")
    case None
    with st have "m1 = m" by (auto simp: revision_step_Inr)
    with IH None show ?thesis by auto
  next
    case (Some t)
    with st obtain n where n: "0 < n" "t = pfx @ dec_nat n" and m1: "m1 = max m (int n)"
      by (auto simp: revision_step_Inr revision_tag)
    have "int n \<le> m'" using IH m1 by simp
    then have "revision_bound pfx m' t" using n by (auto simp: revision_bound_def)
    moreover have "m' = m \<or> m' = int n \<or>
        (\<exists>r \<in> set rs. \<exists>n. family_tag pfx r = Some (pfx @ dec_nat n) \<and> m' = int n)"
      using IH m1 by (auto simp: max_def split: if_split_asm)
    moreover have "m \<le> m'" using IH m1 by simp
    ultimately show ?thesis
      using IH Some n by auto
  qed
qed simp

lemma next_wrapper_revision_Inr:
  assumes "next_wrapper_revision rs pfx off = Inr n"
  shows "1 \<le> off \<and> off < n \<and> n \<le> max_revision
    \<and> (\<forall>r \<in> set rs. \<forall>t. family_tag pfx r = Some t \<longrightarrow> revision_bound pfx (n - off) t)
    \<and> (n = off + 1 \<or> (\<exists>r \<in> set rs. family_tag pfx r = Some (pfx @ dec_int (n - off))))"
proof -
  from assms obtain m seen where f: "foldE (revision_step pfx) (1, []) rs = Inr (m, seen)"
    and n: "n = m + off" "n \<le> max_revision" "1 \<le> off"
    by (auto simp: next_wrapper_revision_def bindE_eq_Inr split: if_split_asm prod.split_asm)
  from foldE_revision_step [OF f] n show ?thesis by (auto simp: dec_int_def)
qed

lemma revision_bound_fresh:
  "revision_bound pfx m t \<Longrightarrow> m < k \<Longrightarrow> t \<noteq> pfx @ dec_int k"
  by (auto simp: revision_bound_def dec_int_def)

lemma revision_bound_dec: "0 < k \<Longrightarrow> revision_bound pfx m (pfx @ dec_int k) \<longleftrightarrow> k \<le> m"
  by (auto simp: revision_bound_def dec_int_def intro: exI [of _ "nat k"])

lemma next_revision_less:
  assumes "next_wrapper_revision rs pfx off = Inr n" "next_wrapper_revision rs' pfx off' = Inr n'"
    and "set rs \<subseteq> set rs'" "off < off'"
  shows "n < n'"
  using next_wrapper_revision_Inr [OF assms(1)] next_wrapper_revision_Inr [OF assms(2)] assms(3,4)
  by (smt (verit) revision_bound_dec subsetD)

section \<open>The downgrade guard\<close>

definition published_tag :: "string \<Rightarrow> dict \<Rightarrow> string option" where
  "published_tag pfx r =
     (if dget r ''draft'' \<noteq> JBool False then None
      else case dget r ''tag_name'' of
        JStr t \<Rightarrow> if startswith t (pfx @ ''-v'') then Some t else None | _ \<Rightarrow> None)"

lemma downgrade_step_Inr:
  "downgrade_step family pfx h r = Inr h' \<longleftrightarrow>
     (case published_tag pfx r of
        None \<Rightarrow> h' = h
      | Some t \<Rightarrow> fullmatch (release_rx pfx) t
          \<and> h' = (case h of None \<Rightarrow> Some (release_groups pfx t, t)
                 | Some c \<Rightarrow> if fst c < release_groups pfx t then Some (release_groups pfx t, t) else h))"
  by (auto simp: downgrade_step_def published_tag_def Let_def split: json.split if_split_asm option.split)

definition at_most :: "candidate option \<Rightarrow> version \<times> nat \<Rightarrow> bool" where
  "at_most h g \<longleftrightarrow> (\<exists>c. h = Some c \<and> g \<le> fst c)"

lemma lex_fst_mono: "x \<le> y \<Longrightarrow> fst x \<le> fst y" for x y :: "'a::order \<times> 'b::order"
  by (auto simp: less_eq_prod_def)

lemma at_most_trans: "at_most h g \<Longrightarrow> g' \<le> g \<Longrightarrow> at_most h g'"
  unfolding at_most_def by (elim exE conjE, intro exI conjI, assumption, erule (1) order_trans)

lemma foldE_downgrade_step:
  assumes "foldE (downgrade_step family pfx) h rs = Inr h'"
  shows "(\<forall>c. h = Some c \<longrightarrow> at_most h' (fst c))
    \<and> (\<forall>r \<in> set rs. \<forall>t. published_tag pfx r = Some t \<longrightarrow>
         fullmatch (release_rx pfx) t \<and> at_most h' (release_groups pfx t))
    \<and> (h' = h \<or> (\<exists>r \<in> set rs. \<exists>t. published_tag pfx r = Some t \<and> h' = Some (release_groups pfx t, t)))"
  using assms
proof (induction rs arbitrary: h)
  case Nil
  then show ?case by (auto simp: at_most_def)
next
  case (Cons r rs)
  then obtain h1 where st: "downgrade_step family pfx h r = Inr h1"
    and rest: "foldE (downgrade_step family pfx) h1 rs = Inr h'"
    by (auto simp: bindE_eq_Inr)
  note IH = Cons.IH [OF rest]
  show ?case
  proof (cases "published_tag pfx r")
    case None
    with st have "h1 = h" by (auto simp: downgrade_step_Inr)
    with IH None show ?thesis by auto
  next
    case (Some t)
    let ?g = "release_groups pfx t"
    from st Some have t: "fullmatch (release_rx pfx) t"
      and h1: "h1 = (case h of None \<Rightarrow> Some (?g, t) | Some c \<Rightarrow> if fst c < ?g then Some (?g, t) else h)"
      by (auto simp: downgrade_step_Inr)
    then obtain c1 where c1: "h1 = Some c1" "?g \<le> fst c1" "\<And>c. h = Some c \<Longrightarrow> fst c \<le> fst c1"
      by (cases h) (auto split: if_split_asm)
    then have "at_most h' (fst c1)" using IH by blast
    then have "at_most h' ?g" "\<And>c. h = Some c \<Longrightarrow> at_most h' (fst c)"
      using c1 at_most_trans by blast+
    moreover have "h1 = h \<or> h1 = Some (?g, t)" using h1 by (auto split: option.split)
    ultimately show ?thesis using IH Some t by auto
  qed
qed

lemma foldE_downgrade_total:
  "(\<And>r t. r \<in> set rs \<Longrightarrow> published_tag pfx r = Some t \<Longrightarrow> fullmatch (release_rx pfx) t) \<Longrightarrow>
   \<exists>h'. foldE (downgrade_step family pfx) h rs = Inr h'"
proof (induction rs arbitrary: h)
  case (Cons r rs)
  have "\<exists>h1. downgrade_step family pfx h r = Inr h1"
    using Cons.prems [of r] by (cases "published_tag pfx r") (auto simp: downgrade_step_Inr)
  then obtain h1 where "downgrade_step family pfx h r = Inr h1" ..
  moreover have "\<exists>h'. foldE (downgrade_step family pfx) h1 rs = Inr h'"
    using Cons.prems by (intro Cons.IH) auto
  ultimately show ?case by simp
qed simp

lemma ensure_not_downgrade_eq_Inr:
  "ensure_not_downgrade rs family upstream = Inr () \<longleftrightarrow>
     (\<exists>pfx. map_of FAMILY_PREFIXES family = Some pfx \<and> fullmatch VERSION_RX upstream
       \<and> (\<forall>r \<in> set rs. \<forall>t. published_tag pfx r = Some t \<longrightarrow> fullmatch (release_rx pfx) t
            \<and> fst (release_groups pfx t) \<le> fst (version_groups upstream)))"
  (is "?l \<longleftrightarrow> ?r")
proof
  assume l: ?l
  then obtain pfx where pfx: "map_of FAMILY_PREFIXES family = Some pfx"
    by (cases "map_of FAMILY_PREFIXES family") (simp_all add: ensure_not_downgrade_def)
  with l have p: "fullmatch VERSION_RX upstream" by (simp add: ensure_not_downgrade_def raise_if_eq_Inr)
  from l pfx p obtain h where f: "foldE (downgrade_step family pfx) None rs = Inr h"
    by (auto simp: ensure_not_downgrade_def bindE_eq_Inr)
  with l pfx p have h: "\<forall>c. h = Some c \<longrightarrow> \<not> fst (version_groups upstream) < fst (fst c)"
    by (cases h) (simp_all add: ensure_not_downgrade_def Let_def raise_if_eq_Inr del: split_paired_All)
  have "fst (release_groups pfx t) \<le> fst (version_groups upstream)" if "at_most h (release_groups pfx t)" for t
  proof -
    from that obtain c where "h = Some c" "release_groups pfx t \<le> fst c" by (auto simp: at_most_def)
    then have "fst (release_groups pfx t) \<le> fst (fst c)" by (blast intro: lex_fst_mono)
    moreover from h \<open>h = Some c\<close> have "fst (fst c) \<le> fst (version_groups upstream)"
      by (simp add: not_less)
    ultimately show ?thesis by (rule order_trans)
  qed
  with pfx p foldE_downgrade_step [OF f] show ?r by blast
next
  assume ?r
  then obtain pfx where p: "map_of FAMILY_PREFIXES family = Some pfx" "fullmatch VERSION_RX upstream"
    and a: "\<And>r t. r \<in> set rs \<Longrightarrow> published_tag pfx r = Some t \<Longrightarrow> fullmatch (release_rx pfx) t"
    and b: "\<And>r t. r \<in> set rs \<Longrightarrow> published_tag pfx r = Some t \<Longrightarrow>
         fst (release_groups pfx t) \<le> fst (version_groups upstream)"
    by blast
  from a foldE_downgrade_total obtain h where f: "foldE (downgrade_step family pfx) None rs = Inr h" by meson
  from foldE_downgrade_step [OF f] b have "\<And>c. h = Some c \<Longrightarrow> \<not> fst (version_groups upstream) < fst (fst c)"
    by (fastforce simp: not_less)
  with p f show ?l by (cases h) (auto simp: ensure_not_downgrade_def)
qed

text \<open>The groups of a version are its three numbers.\<close>

lemma version_groups_dec:
  assumes "rest = [] \<or> \<not> is_digit (hd rest)"
  shows "version_groups (''v'' @ dec_nat a @ ''.'' @ dec_nat b @ ''.'' @ dec_nat c @ rest) = ((a, b, c), rest)"
proof -
  have sp: "span_digits (dec_nat n @ r) = (dec_nat n, r)" if "r = [] \<or> \<not> is_digit (hd r)" for n r
    using that dec_nat_digits [of n]
    by (cases r) (auto simp: span_digits_def list_all_iff takeWhile_append dropWhile_append)
  have dot: "\<not> is_digit (CHR ''.'')" by (simp add: is_digit_def)
  show ?thesis using assms by (simp add: version_groups_def sp dot)
qed

lemma VERSION_dec: "fullmatch VERSION_RX (''v'' @ dec_nat a @ ''.'' @ dec_nat b @ ''.'' @ dec_nat c)"
  unfolding fullmatch_iff in_lang_VERSION by (metis dec_nat_digits dec_nat_nonempty)

section \<open>Tag references\<close>

lemma verify_tag_references_eq_Inr:
  "verify_tag_references v tag commit allow = Inr () \<longleftrightarrow>
     valid_tag tag \<and> fullmatch COMMIT_RX commit
     \<and> (\<exists>items. v = JArr items \<and> list_all is_dict (flatten_references items)
         \<and> (filter (refers_to (''refs/tags/'' @ tag)) (flatten_references items) = [] \<and> allow
            \<or> (\<exists>r. filter (refers_to (''refs/tags/'' @ tag)) (flatten_references items) = [r]
                  \<and> points_to_commit commit r)))"
proof (cases v)
  case (JArr items)
  let ?xs = "filter (refers_to (''refs/tags/'' @ tag)) (flatten_references items)"
  consider "?xs = []" | r where "?xs = [r]" | a b c where "?xs = a # b # c" by (metis list.exhaust)
  then show ?thesis
    by cases (simp_all add: verify_tag_references_def bindE_eq_Inr require_commit_def JArr Let_def split: if_split)
qed (simp_all add: verify_tag_references_def bindE_eq_Inr)

end
