(* ===== verification/Release_Retry.thy ===== *)
theory Release_Retry
  imports Release_Draft_Props
begin

text \<open>
  Which exceptions the release commands raise. \<open>DraftNotReady\<close>, the exception behind exit status
  75, comes from \<open>verify-ready\<close> alone and from states of the draft that a later poll can find
  changed; every other exception is \<open>final\<close>.
\<close>

section \<open>Final exceptions\<close>

definition final :: "err \<Rightarrow> bool" where
  "final e = (case e of DraftNotReady _ \<Rightarrow> False | _ \<Rightarrow> True)"

lemma final_simps [simp]:
  "\<not> final (DraftNotReady m)" "final (ValueError m)" "final JSONDecodeError"
  "final UnicodeDecodeError" "final (OSError m)" "final AttributeError"
  "final (UsageError m)" "final UnsupportedEncoding"
  by (simp_all add: final_def)

lemma match_step_final [raises_intro]: "raises final (match_step tag q r)"
  unfolding match_step_def by (intro raises_intro; simp)

lemma exact_matches_final [raises_intro]: "raises final (exact_matches rs tag)"
  unfolding exact_matches_def by (intro raises_intro; simp)

lemma require_commit_final [raises_intro]: "raises final (require_commit c)"
  unfolding require_commit_def by (intro raises_intro; simp)

lemma asset_id_final [raises_intro]: "raises final (asset_id m a)"
  unfolding asset_id_def by (intro raises_intro; simp)

lemma prepare_plan_final [raises_intro]: "raises final (prepare_plan rs tag c)"
  unfolding prepare_plan_def by (intro raises_intro; simp)

lemma verified_draft_final [raises_intro]: "raises final (verified_draft rs tag c)"
  unfolding verified_draft_def by (intro raises_intro; simp)

lemma downgrade_step_final [raises_intro]: "raises final (downgrade_step f p h r)"
  unfolding downgrade_step_def by (intro raises_intro; simp)

lemma ensure_not_downgrade_final [raises_intro]: "raises final (ensure_not_downgrade rs f u)"
  unfolding ensure_not_downgrade_def by (intro raises_intro; simp)

lemma check_reserving_draft_final [raises_intro]: "raises final (check_reserving_draft t r)"
  unfolding check_reserving_draft_def by (intro raises_intro; simp)

lemma revision_step_final [raises_intro]: "raises final (revision_step p q r)"
  unfolding revision_step_def by (intro raises_intro; simp)

lemma next_wrapper_revision_final [raises_intro]: "raises final (next_wrapper_revision rs p k)"
  unfolding next_wrapper_revision_def by (intro raises_intro; simp)

lemma verify_tag_references_final [raises_intro]: "raises final (verify_tag_references v t c a)"
  unfolding verify_tag_references_def by (intro raises_intro; simp)

lemma expected_name_step_final [raises_intro]: "raises final (expected_name_step ns v)"
  unfolding expected_name_step_def by (intro raises_intro; simp)

lemma expected_asset_names_final [raises_intro]: "raises final (expected_asset_names vs)"
  unfolding expected_asset_names_def by (intro raises_intro; simp)

lemma attr_items_final [raises_intro]: "raises final (attr_items v)"
  by (cases v) (auto simp: raises_def)

lemma ready_name_step_final [raises_intro]: "raises final (ready_name_step ns a)"
  unfolding ready_name_step_def by (intro raises_intro; simp)

lemma json_loads_final [raises_intro]: "raises final (json_loads raw)"
  using json_loads_error [of raw] by (auto simp: raises_def)

lemma load_json_bounded_final [raises_intro]: "raises final (load_json_bounded file n l)"
  unfolding load_json_bounded_def by (intro raises_intro; simp)

lemma load_releases_final [raises_intro]: "raises final (load_releases file)"
  unfolding load_releases_def by (intro raises_intro; simp)

text \<open>The states of the draft that the next poll can find changed.\<close>

definition not_ready :: "dict list \<Rightarrow> string \<Rightarrow> string \<Rightarrow> string list \<Rightarrow> bool" where
  "not_ready rs tag commit expected \<longleftrightarrow> filter (tagged tag) rs = []
    \<or> (\<exists>d. verified_draft rs tag commit = Inr d
          \<and> set (map asset_name (assets_of d)) \<subseteq> set expected
          \<and> (set (map asset_name (assets_of d)) \<noteq> set expected \<or> \<not> list_all uploaded (assets_of d)))"

lemma expected_asset_names_Inr:
  "expected_asset_names vs = Inr names \<Longrightarrow> set names = set vs"
  by (auto simp: expected_asset_names_def expected_names_Inr raise_if_eq_Inr)

lemma not_ready_assets:
  assumes "expected_asset_names expected = Inr names" "verified_draft rs tag commit = Inr d"
    "foldE ready_name_step [] (assets_of d) = Inr ns" "list_all (List.member names) ns"
    "\<not> same_elems ns names \<or> foldE ready_metadata_step () (assets_of d) \<noteq> Inr ()"
  shows "not_ready rs tag commit expected"
proof -
  have "set ns = set (map asset_name (assets_of d))" using assms(3) by (simp add: ready_names_Inr)
  moreover have "list_all uploaded (assets_of d) \<Longrightarrow> same_elems ns names \<Longrightarrow> False"
    using assms(5) by (simp add: ready_metadata_Inr)
  ultimately show ?thesis
    using assms(2,4) expected_asset_names_Inr [OF assms(1)]
    by (auto simp: not_ready_def list_all_iff same_elems_iff)
qed

lemma not_ready_none: "filter (tagged tag) rs = [] \<Longrightarrow> not_ready rs tag commit expected"
  by (simp add: not_ready_def)

lemma verified_ready_draft_raises:
  "raises (\<lambda>e. final e \<or> not_ready rs tag commit expected) (verified_ready_draft rs tag commit expected)"
proof -
  have meta: "raises (\<lambda>e. final e \<or> not_ready rs tag commit expected)
      (foldE ready_metadata_step () (assets_of d))"
    if "expected_asset_names expected = Inr names" "verified_draft rs tag commit = Inr d"
      "foldE ready_name_step [] (assets_of d) = Inr ns" "\<not> \<not> list_all (List.member names) ns" for names d ns
    using not_ready_assets [OF that(1-3)] that(4) by (auto simp: raises_def)
  have names: "raises (\<lambda>e. final e \<or> not_ready rs tag commit expected)
      (foldE ready_name_step [] (assets_of d))" for d
    by (rule raises_or) (intro raises_intro)
  show ?thesis
    unfolding verified_ready_draft_def
    by (intro raises_bindE raises_case_prod raises_if names raises_Inr;
        (rule raises_or, rule raises_intro; simp; fail)?; (erule (3) meta)?; rule raises_Inl;
        simp add: exact_none not_ready_none not_ready_assets)
qed

section \<open>The exit status\<close>

lemma run_verify_tag_final [raises_intro]: "raises final (run_verify_tag a)"
  unfolding run_verify_tag_def by (intro raises_intro; simp)

lemma run_guard_upstream_final [raises_intro]: "raises final (run_guard_upstream a rs)"
  unfolding run_guard_upstream_def by (intro raises_intro; simp)

lemma run_next_revision_final [raises_intro]: "raises final (run_next_revision a rs)"
  unfolding run_next_revision_def Let_def by (intro raises_intro; simp)

text \<open>The one call that may ask for a retry, and the state of the draft in which it does.\<close>

definition asks_retry :: "cli_args \<Rightarrow> dict list \<Rightarrow> bool" where
  "asks_retry a rs \<longleftrightarrow> arg_mode a = ''verify-ready'' \<and> (\<exists>tag commit. arg_tag a = Some tag
     \<and> arg_commit a = Some commit \<and> not_ready rs tag commit (arg_expected_asset a))"

lemma run_draft_mode_raises:
  assumes "arg_mode a = ''prepare'' \<or> arg_mode a = ''verify'' \<or> arg_mode a = ''verify-ready''"
  shows "raises (\<lambda>e. final e \<or> asks_retry a rs) (run_draft_mode a rs)"
proof (cases "arg_tag a = None \<or> arg_commit a = None")
  case True
  then show ?thesis by (auto simp: run_draft_mode_def raises_def split: option.split)
next
  case False
  then obtain tag commit where tc: "arg_tag a = Some tag" "arg_commit a = Some commit" by auto
  have ready: "raises (\<lambda>e. final e \<or> asks_retry a rs)
      (verified_ready_draft rs tag commit (arg_expected_asset a))"
    if "arg_mode a \<noteq> ''prepare''" "arg_mode a \<noteq> ''verify''"
    using verified_ready_draft_raises [of rs tag commit "arg_expected_asset a"] that assms tc
    unfolding raises_def asks_retry_def by blast
  have other: "raises (\<lambda>e. final e \<or> asks_retry a rs) (prepare_plan rs tag commit)"
      "raises (\<lambda>e. final e \<or> asks_retry a rs) (verified_draft rs tag commit)"
    by (rule raises_or, rule raises_intro)+
  show ?thesis
    unfolding run_draft_mode_def tc prod.case option.case
    by (intro raises_bindE raises_if raises_Inr other ready raises_Inl) simp_all
qed

lemma draft_main_raises:
  "raises (\<lambda>e. final e \<or> (\<exists>file rs. arg_releases a = Some file \<and> load_releases file = Inr rs \<and> asks_retry a rs))
     (draft_main a)"
  (is "raises ?P _")
proof -
  have v: "raises ?P (run_verify_tag a)" and g: "raises ?P (run_guard_upstream a rs)"
    and n: "raises ?P (run_next_revision a rs)" and l: "raises ?P (load_releases src)" for rs src
    by (rule raises_or, rule raises_intro)+
  have d: "raises ?P (run_draft_mode a rs)"
    if "arg_mode a = ''prepare'' \<or> arg_mode a = ''verify'' \<or> arg_mode a = ''verify-ready''"
      "arg_releases a = Some src" "load_releases src = Inr rs" for src rs
    using run_draft_mode_raises [OF that(1), of rs] that(2,3) unfolding raises_def by blast
  show ?thesis
    unfolding draft_main_def
    by (intro raises_bindE raises_if raises_case_option v g n l d raises_Inl) auto
qed

lemma draft_exit_retry:
  "draft_exit a = DRAFT_NOT_READY_EXIT \<Longrightarrow>
     \<exists>file rs. arg_releases a = Some file \<and> load_releases file = Inr rs \<and> asks_retry a rs"
  using draft_main_raises [of a]
  by (auto simp: draft_exit_def raises_def final_def DRAFT_NOT_READY_EXIT_def split: sum.split_asm err.split_asm)

end
