(* ===== verification/Release_Properties.thy ===== *)
theory Release_Properties
  imports Release_Draft_Props Release_Version_Props Release_Retry
begin

text \<open>
  What \<open>scripts/release_draft_state.py\<close> guarantees: the properties of the draft selection, of the
  wrapper revisions, of the downgrade guard, of the tag check and of the exit status.
\<close>

section \<open>Selection and readiness of the draft\<close>

text \<open>C2. \<open>prepare_plan\<close> returns a plan exactly when the commit and the tag are well
  formed and either no release has the tag (the plan is to create one), or one release only has it,
  an unpublished draft on that commit whose identifiers are positive and whose asset identifiers
  are distinct (the plan names them, sorted). In all other cases it raises.\<close>

theorem prepare_plan_exact:
  "prepare_plan releases tag commit = Inr p \<longleftrightarrow>
     fullmatch COMMIT_RX commit \<and> valid_tag tag \<and>
     (filter (tagged tag) releases = [] \<and> p = \<lparr>create = True, draft_id = None, asset_ids = []\<rparr>
      \<or> (\<exists>d. filter (tagged tag) releases = [d] \<and> plan_of commit d p))"
  by (rule prepare_plan_eq_Inr)

text \<open>C15. \<open>verified_ready_draft\<close> accepts a draft exactly when it is the verified draft of
  the tag and the commit, the expected names are valid and distinct, the draft's assets have exactly
  these names, each once, and each asset has a positive size and a SHA-256 digest.\<close>

theorem ready_draft_exact:
  "verified_ready_draft releases tag commit expected = Inr d \<longleftrightarrow>
     verified_draft releases tag commit = Inr d
     \<and> expected \<noteq> [] \<and> list_all (fullmatch ASSET_NAME_RX) expected \<and> distinct expected
     \<and> list_all named_asset (assets_of d) \<and> distinct (map asset_name (assets_of d))
     \<and> set (map asset_name (assets_of d)) = set expected
     \<and> list_all uploaded (assets_of d)"
  by (rule verified_ready_draft_eq_Inr)

text \<open>C27. The exit status 75, which asks the workflow to poll again, is given by \<open>verify-ready\<close>
  only, and only when the release list was read and the draft is not visible, or is the verified
  draft and lacks expected assets or their upload metadata. Malformed input never asks for a retry.\<close>

theorem retry_exit_only_when_not_ready:
  assumes "draft_exit a = DRAFT_NOT_READY_EXIT"
  shows "\<exists>f releases. arg_releases a = Some f \<and> load_releases f = Inr releases \<and> asks_retry a releases"
  using assms by (rule draft_exit_retry)

definition retry_example :: cli_args where
  "retry_example = \<lparr>arg_mode = ''verify-ready'', arg_releases = Some (Some ''[]''), arg_references = None,
     arg_tag = Some ''sb-v1.2.3'', arg_prefix = None, arg_run_offset = None,
     arg_commit = Some (replicate 40 (CHR ''a'')), arg_family = None, arg_upstream_tag = None,
     arg_allow_missing = False, arg_expected_asset = [''a.apk'']\<rparr>"

section \<open>Wrapper revisions\<close>

text \<open>C12. The revision a run reserves is above the run offset, within the supported range, and
  not used by any release: every release whose tag starts with the prefix has a well-formed tag with
  a revision at least the offset below it. It is the least such number: one above the offset, or the
  offset above a revision in use.\<close>

theorem next_revision_fresh:
  assumes "next_wrapper_revision releases pfx off = Inr n"
  shows "1 \<le> off \<and> off < n \<and> n \<le> max_revision
    \<and> (\<forall>r \<in> set releases. dget r ''tag_name'' \<noteq> JStr (pfx @ dec_int n))
    \<and> (\<forall>r \<in> set releases. \<forall>t. family_tag pfx r = Some t \<longrightarrow> revision_bound pfx (n - off) t)
    \<and> (n = off + 1 \<or> (\<exists>r \<in> set releases. family_tag pfx r = Some (pfx @ dec_int (n - off))))"
proof -
  note sound = next_wrapper_revision_Inr [OF assms]
  have "dget r ''tag_name'' \<noteq> JStr (pfx @ dec_int n)" if "r \<in> set releases" for r
  proof
    assume t: "dget r ''tag_name'' = JStr (pfx @ dec_int n)"
    then have "family_tag pfx r = Some (pfx @ dec_int n)" by (simp add: family_tag_def)
    with sound that have "revision_bound pfx (n - off) (pfx @ dec_int n)" by blast
    with sound revision_bound_fresh [of pfx "n - off" "pfx @ dec_int n" n] show False by simp
  qed
  with sound show ?thesis by blast
qed

text \<open>C25. Two runs with increasing run offsets never reserve the same revision: when the later
  one sees at least the releases the earlier one saw, its revision is greater.\<close>

theorem later_runs_reserve_more:
  assumes "next_wrapper_revision releases pfx off = Inr n"
    and "next_wrapper_revision releases' pfx off' = Inr n'"
    and "set releases \<subseteq> set releases'" "off < off'"
  shows "n < n'"
  using assms by (rule next_revision_less)

section \<open>Downgrades and tag references\<close>

text \<open>A release does not stand above the version: it is not a published release of the family, or its tag is
  well formed and its version numbers are at most the given ones.\<close>

definition not_above :: "string \<Rightarrow> version \<Rightarrow> dict \<Rightarrow> bool" where
  "not_above pfx v r =
     (case published_tag pfx r of
        None \<Rightarrow> True
      | Some t \<Rightarrow> fullmatch (release_rx pfx) t \<and> fst (release_groups pfx t) \<le> v)"

text \<open>C26. The downgrade guard accepts an upstream tag exactly when the family is known, the tag is
  a version, and every published release of the family has a well-formed tag whose version, compared
  numerically, is not above it.\<close>

theorem downgrade_guard_exact:
  "ensure_not_downgrade releases family upstream = Inr () \<longleftrightarrow>
     (\<exists>pfx. map_of FAMILY_PREFIXES family = Some pfx \<and> fullmatch VERSION_RX upstream
       \<and> list_all (not_above pfx (fst (version_groups upstream))) releases)"
  unfolding ensure_not_downgrade_eq_Inr list_all_iff not_above_def
  by (fastforce split: option.split option.split_asm)

text \<open>The tag check accepts a response exactly when the tag and the commit are well formed,
  every entry is an object, and either exactly one entry names the tag and it is the commit itself,
  or none does and a missing reference is allowed.\<close>

theorem tag_reference_exact:
  "verify_tag_references v tag commit allow = Inr () \<longleftrightarrow>
     valid_tag tag \<and> fullmatch COMMIT_RX commit
     \<and> (\<exists>items. v = JArr items \<and> list_all is_dict (flatten_references items)
         \<and> (filter (refers_to (''refs/tags/'' @ tag)) (flatten_references items) = [] \<and> allow
            \<or> (\<exists>r. filter (refers_to (''refs/tags/'' @ tag)) (flatten_references items) = [r]
                  \<and> points_to_commit commit r)))"
  by (rule verify_tag_references_eq_Inr)

section \<open>Instances\<close>

text \<open>A run without releases, polling for its draft, is asked to retry.\<close>

lemma retry_example_exit: "draft_exit retry_example = DRAFT_NOT_READY_EXIT"
proof -
  have "fullmatch COMMIT_RX (replicate 40 (CHR ''a''))"
    by (simp add: fullmatch_COMMIT list_all_iff is_hex_def in_cls_def hex_cls_def)
  moreover have "json_loads ''[]'' = Inr (JArr [])" by code_simp
  moreover have "expected_asset_names [''a.apk''] = Inr [''a.apk'']" by code_simp
  moreover have "valid_tag ''sb-v1.2.3''" by code_simp
  ultimately show ?thesis
    by (simp add: draft_exit_def draft_main_def retry_example_def load_releases_def load_json_bounded_def
        run_draft_mode_def verified_ready_draft_def exact_matches_def require_commit_def
        MAX_RELEASES_BYTES_def)
qed

lemma retry_witness:
  "\<exists>f releases. arg_releases retry_example = Some f \<and> load_releases f = Inr releases
     \<and> asks_retry retry_example releases"
  by (rule retry_exit_only_when_not_ready [OF retry_example_exit])

definition released :: "string \<Rightarrow> dict" where
  "released tag = [(''tag_name'', JStr tag), (''draft'', JBool False)]"

lemma revision_example:
  "next_wrapper_revision [released ''sb-v1.2.3-w4''] ''sb-v1.2.3-w'' 2 = Inr 6"
  by code_simp

lemma revision_example_later:
  "next_wrapper_revision [released ''sb-v1.2.3-w4'', released ''sb-v1.2.3-w6''] ''sb-v1.2.3-w'' 3 = Inr 9"
  by code_simp

lemma next_revision_fresh_witness:
  "(2::int) < 6 \<and> 6 \<le> max_revision
    \<and> dget (released ''sb-v1.2.3-w4'') ''tag_name'' \<noteq> JStr (''sb-v1.2.3-w'' @ dec_int 6)"
proof -
  note f = next_revision_fresh [OF revision_example]
  from f have "\<forall>r \<in> set [released ''sb-v1.2.3-w4''].
      dget r ''tag_name'' \<noteq> JStr (''sb-v1.2.3-w'' @ dec_int 6)" by blast
  with f show ?thesis by simp
qed

lemma later_runs_witness: "(6::int) < 9"
  by (rule later_runs_reserve_more [OF revision_example revision_example_later]) simp_all

end
