(* ===== verification/Sha256.thy ===== *)
theory Sha256
  imports Py_Regex "HOL-Library.Word"
begin

unbundle bit_operations_syntax

text \<open>
  \<open>hashlib.sha256(b).hexdigest()\<close> after FIPS 180-4, on 32-bit words, and the contract the scripts
  rely on: a digest is 64 lower-case hexadecimal digits. The contract is a locale; the development
  never evaluates the hash and proves its consequences for any function with that contract.
\<close>

section \<open>The hash function\<close>

type_synonym u32 = "32 word"

definition round_constants :: "u32 list" where
  "round_constants =
    [1116352408, 1899447441, 3049323471, 3921009573, 961987163, 1508970993, 2453635748, 2870763221,
     3624381080, 310598401, 607225278, 1426881987, 1925078388, 2162078206, 2614888103, 3248222580,
     3835390401, 4022224774, 264347078, 604807628, 770255983, 1249150122, 1555081692, 1996064986,
     2554220882, 2821834349, 2952996808, 3210313671, 3336571891, 3584528711, 113926993, 338241895,
     666307205, 773529912, 1294757372, 1396182291, 1695183700, 1986661051, 2177026350, 2456956037,
     2730485921, 2820302411, 3259730800, 3345764771, 3516065817, 3600352804, 4094571909, 275423344,
     430227734, 506948616, 659060556, 883997877, 958139571, 1322822218, 1537002063, 1747873779,
     1955562222, 2024104815, 2227730452, 2361852424, 2428436474, 2756734187, 3204031479, 3329325298]"

definition initial_state :: "u32 list" where
  "initial_state = [1779033703, 3144134277, 1013904242, 2773480762,
                    1359893119, 2600822924, 528734635, 1541459225]"

definition big_sigma0 :: "u32 \<Rightarrow> u32" where
  "big_sigma0 x = word_rotr 2 x XOR word_rotr 13 x XOR word_rotr 22 x"

definition big_sigma1 :: "u32 \<Rightarrow> u32" where
  "big_sigma1 x = word_rotr 6 x XOR word_rotr 11 x XOR word_rotr 25 x"

definition small_sigma0 :: "u32 \<Rightarrow> u32" where
  "small_sigma0 x = word_rotr 7 x XOR word_rotr 18 x XOR drop_bit 3 x"

definition small_sigma1 :: "u32 \<Rightarrow> u32" where
  "small_sigma1 x = word_rotr 17 x XOR word_rotr 19 x XOR drop_bit 10 x"

text \<open>The message schedule, newest word first.\<close>

fun expand_schedule :: "nat \<Rightarrow> u32 list \<Rightarrow> u32 list" where
  "expand_schedule 0 ws = ws"
| "expand_schedule (Suc n) ws =
     expand_schedule n
       ((small_sigma1 (ws ! 1) + ws ! 6 + small_sigma0 (ws ! 14) + ws ! 15) # ws)"

fun sha_round :: "u32 \<Rightarrow> u32 list \<Rightarrow> u32 list" where
  "sha_round kw [a, b, c, d, e, f, g, h] =
     (let t1 = h + big_sigma1 e + ((e AND f) XOR (NOT e AND g)) + kw;
          t2 = big_sigma0 a + ((a AND b) XOR (a AND c) XOR (b AND c))
      in [t1 + t2, a, b, c, d + t1, e, f, g])"
| "sha_round kw s = s"

definition compress_block :: "u32 list \<Rightarrow> u32 list \<Rightarrow> u32 list" where
  "compress_block s block =
     (let ws = rev (expand_schedule 48 (rev block))
      in map2 (+) s (fold sha_round (map2 (+) round_constants ws) s))"

definition be_bytes :: "nat \<Rightarrow> nat \<Rightarrow> bytes" where
  "be_bytes k n = map (\<lambda>i. char_of (n div 256 ^ (k - 1 - i))) [0..<k]"

definition sha_pad :: "bytes \<Rightarrow> bytes" where
  "sha_pad b = b @ [CHR 0x80] @ replicate ((119 - length b mod 64) mod 64) (CHR 0x00)
                 @ be_bytes 8 (8 * length b)"

definition be_word :: "bytes \<Rightarrow> u32" where
  "be_word b = of_nat (foldl (\<lambda>a c. 256 * a + byte_val c) 0 b)"

function block_words :: "bytes \<Rightarrow> u32 list" where
  "block_words b = (if b = [] then [] else be_word (take 4 b) # block_words (drop 4 b))"
  by pat_completeness auto
termination by (relation "measure length") (auto simp: neq_Nil_conv)

function sha_blocks :: "bytes \<Rightarrow> u32 list \<Rightarrow> u32 list" where
  "sha_blocks b s =
     (if b = [] then s else sha_blocks (drop 64 b) (compress_block s (block_words (take 64 b))))"
  by pat_completeness auto
termination by (relation "measure (length \<circ> fst)") (auto simp: neq_Nil_conv)

declare block_words.simps [simp del] sha_blocks.simps [simp del]

definition hex_of_nibble :: "nat \<Rightarrow> char" where
  "hex_of_nibble d = (if d < 10 then char_of (48 + d) else char_of (87 + d))"

definition hex_word :: "u32 \<Rightarrow> string" where
  "hex_word w = map (\<lambda>i. hex_of_nibble (unat w div 16 ^ (7 - i) mod 16)) [0..<8]"

definition sha256_hex :: "bytes \<Rightarrow> string" where
  "sha256_hex b = concat (map hex_word (sha_blocks (sha_pad b) initial_state))"

section \<open>The digest contract\<close>

locale content_digest =
  fixes digest :: "bytes \<Rightarrow> string"
  assumes digest_format: "fullmatch DIGEST_RX (digest b)"
begin

lemma digest_length: "length (digest b) = 64"
  using digest_format [of b] by (simp add: fullmatch_DIGEST)

lemma digest_hex: "c \<in> set (digest b) \<Longrightarrow> is_hex c"
  using digest_format [of b] by (simp add: fullmatch_DIGEST list_all_iff)

lemma prefixed_format: "fullmatch PREFIXED_DIGEST_RX (''sha256:'' @ digest b)"
  using digest_format [of b] by (simp only: fullmatch_PREFIXED_DIGEST) blast

lemma digest_nonempty: "digest b \<noteq> []"
  using digest_length [of b] by auto

end

lemma hex_word_is_hex: "list_all is_hex (hex_word w)"
proof -
  have "is_hex (hex_of_nibble d)" if "d < 16" for d
    using that by (auto simp: is_hex_def in_cls_def hex_cls_def hex_of_nibble_def of_char_of)
  then show ?thesis by (simp add: hex_word_def list_all_iff)
qed

lemma sha_round_length: "length (sha_round kw s) = length s"
  by (cases "(kw, s)" rule: sha_round.cases) (simp_all add: Let_def)

lemma expand_schedule_length: "length (expand_schedule n ws) = n + length ws"
  by (induction n arbitrary: ws) simp_all

lemma fold_sha_round_length: "length (fold sha_round ks s) = length s"
  by (induction ks arbitrary: s) (simp_all add: sha_round_length)

lemma compress_block_length: "length (compress_block s block) = length s"
  by (simp add: compress_block_def Let_def fold_sha_round_length)

lemma sha_blocks_length: "length (sha_blocks b s) = length s"
proof (induction b s rule: sha_blocks.induct)
  case (1 b s)
  then show ?case by (subst sha_blocks.simps) (simp add: compress_block_length)
qed

lemma sha256_hex_format: "fullmatch DIGEST_RX (sha256_hex b)"
proof -
  have "length (sha_blocks (sha_pad b) initial_state) = 8"
    by (simp add: sha_blocks_length initial_state_def)
  moreover have "length (concat (map hex_word ws)) = 8 * length ws" for ws
    by (induction ws) (simp_all add: hex_word_def)
  moreover have "list_all is_hex (concat (map hex_word ws))" for ws
    by (induction ws) (simp_all add: hex_word_is_hex)
  ultimately show ?thesis by (simp add: fullmatch_DIGEST sha256_hex_def)
qed

interpretation sha: content_digest sha256_hex
  by unfold_locales (rule sha256_hex_format)

end
