(* ===== verification/Remote_Release.thy ===== *)
theory Remote_Release
  imports Release_Draft Sha256
begin

text \<open>
  \<open>scripts/verify_remote_release.py\<close>: the check of a published (or about to be published) GitHub
  release against its manifest, the digests GitHub reports and the pins of the build.
\<close>

section \<open>The contract\<close>

text \<open>\<open>ABIS\<close>: ELF class, ELF machine number and its name.\<close>

definition ABIS :: "(string \<times> nat \<times> nat \<times> string) list" where
  "ABIS = [(''arm64-v8a'', 64, 183, ''EM_AARCH64'')]"

definition EXPORTS :: "string list" where
  "EXPORTS = [''StartCore'', ''StopCore'']"

definition TOP_LEVEL :: "string list" where
  "TOP_LEVEL = [''schema'', ''coreApi'', ''configContract'', ''family'', ''releaseTag'', ''upstream'',
     ''wrapper'', ''minAndroidApi'', ''requiredExports'', ''assets'']"

definition SB_TAGS :: "string list" where
  "SB_TAGS = [''badlinkname'', ''tfogo_checklinkname0'', ''with_quic'', ''with_utls'']"

definition NDK_VERSION :: string where
  "NDK_VERSION = ''27.2.12479018''"

definition MAX_MANIFEST_BYTES :: nat where
  "MAX_MANIFEST_BYTES = 1024 * 1024"

definition read_bounded :: "file_input \<Rightarrow> nat \<Rightarrow> string \<Rightarrow> bytes res" where
  "read_bounded file maximum label =
     (case file of
        None \<Rightarrow> Inl (OSError label)
      | Some content \<Rightarrow>
          let value = take (maximum + 1) content in
          if maximum < length value
          then Inl (ValueError (label @ '' exceeds '' @ dec_nat maximum @ '' bytes''))
          else Inr value)"

definition exact_keys :: "json \<Rightarrow> string list \<Rightarrow> string \<Rightarrow> dict res" where
  "exact_keys value expected label =
     (case value of
        JObj d \<Rightarrow> if keys_are d expected then Inr d
                 else Inl (ValueError (label @ '' fields do not match the contract''))
      | _ \<Rightarrow> Inl (ValueError (label @ '' fields do not match the contract'')))"

section \<open>The assets of a release\<close>

type_synonym asset_table = "(string \<times> dict) list"

definition asset_step :: "asset_table \<Rightarrow> json \<Rightarrow> asset_table res" where
  "asset_step result value =
     (case value of
        JObj a \<Rightarrow>
          (case dget a ''name'' of
             JStr name \<Rightarrow>
               if name = [] \<or> map_of result name \<noteq> None
               then Inl (ValueError ''release asset names are missing or duplicated'')
               else if \<not> positive_int (dget a ''id'')
               then Inl (ValueError (''release asset id is invalid: '' @ name))
               else if \<not> positive_int (dget a ''size'')
               then Inl (ValueError (''release asset size is invalid: '' @ name))
               else if \<not> is_digest_value (dget a ''digest'')
               then Inl (ValueError (''release asset digest is invalid: '' @ name))
               else Inr (result @ [(name, a)])
           | _ \<Rightarrow> Inl (ValueError ''release asset names are missing or duplicated''))
      | _ \<Rightarrow> Inl (ValueError ''release asset is malformed''))"

definition asset_map :: "dict \<Rightarrow> asset_table res" where
  "asset_map release =
     (case dget release ''assets'' of
        JArr values \<Rightarrow> foldE asset_step [] values
      | _ \<Rightarrow> Inl (ValueError ''release assets are missing''))"

section \<open>The parts of the check\<close>

text \<open>\<open>v or []\<close>\<close>

definition or_empty :: "json \<Rightarrow> json" where
  "or_empty v = (if truthy v then v else JArr [])"

text \<open>\<open>set(v or []) == EXPORTS and len(v or []) == len(EXPORTS)\<close>\<close>

definition exports_exactly :: "json \<Rightarrow> bool res" where
  "exports_exactly v =
     bindE (set_equals (or_empty v) EXPORTS) (\<lambda>same.
       if \<not> same then Inr False
       else bindE (py_len (or_empty v)) (\<lambda>n. Inr (n = int (length EXPORTS))))"

definition core_contract :: "dict \<Rightarrow> string \<Rightarrow> unit res" where
  "core_contract manifest family =
     (if \<not> py_eq (dget manifest ''schema'') (JInt 3)
         \<or> \<not> py_eq (dget manifest ''coreApi'') (JInt 2)
         \<or> \<not> py_eq (dget manifest ''configContract'') (JInt 1)
         \<or> \<not> py_eq (dget manifest ''family'') (JStr family)
         \<or> \<not> py_eq (dget manifest ''minAndroidApi'') (JInt 29)
      then Inl (ValueError ''manifest core contract is invalid'')
      else bindE (exports_exactly (dget manifest ''requiredExports'')) (\<lambda>exact.
        if \<not> exact then Inl (ValueError ''manifest core contract is invalid'') else Inr ()))"

definition manifest_upstream_tag :: "dict \<Rightarrow> string res" where
  "manifest_upstream_tag manifest =
     (case dget manifest ''upstream'' of
        JObj upstream \<Rightarrow>
          (case dget upstream ''tag'' of
             JStr tag \<Rightarrow> if fullmatch VERSION_RX tag then Inr tag
                        else Inl (ValueError ''manifest upstream tag is invalid'')
           | _ \<Rightarrow> Inl (ValueError ''manifest upstream tag is invalid''))
      | _ \<Rightarrow> Inl (ValueError ''manifest upstream tag is invalid''))"

definition family_prefix :: "string \<Rightarrow> string" where
  "family_prefix family = (if family = ''xray'' then ''xray'' else ''sb'')"

definition release_tag_rx :: "string \<Rightarrow> string \<Rightarrow> rx" where
  "release_tag_rx pfx upstream_tag = Seq (lit (pfx @ ''-'' @ upstream_tag @ ''-w'')) WRAPPER_RX"

definition check_release_tag :: "dict \<Rightarrow> dict \<Rightarrow> string \<Rightarrow> string \<Rightarrow> unit res" where
  "check_release_tag release manifest family upstream_tag =
     (case dget release ''tag_name'' of
        JStr release_tag \<Rightarrow>
          if \<not> fullmatch (release_tag_rx (family_prefix family) upstream_tag) release_tag
             \<or> \<not> py_eq (dget manifest ''releaseTag'') (JStr release_tag)
          then Inl (ValueError ''release tag does not match the manifest'')
          else Inr ()
      | _ \<Rightarrow> Inl (ValueError ''release tag does not match the manifest''))"

text \<open>\<open>re.fullmatch(rx, d.get(k, ""))\<close>: only a text can be matched.\<close>

definition match_default :: "rx \<Rightarrow> dict \<Rightarrow> string \<Rightarrow> bool res" where
  "match_default r d k =
     (case dget_default d k (JStr []) of JStr s \<Rightarrow> Inr (fullmatch r s) | _ \<Rightarrow> Inl TypeError)"

text \<open>The two shapes of \<open>upstream\<close> and \<open>wrapper\<close>, one per family.\<close>

definition check_xray_pins :: "json \<Rightarrow> json \<Rightarrow> (dict \<times> dict) res" where
  "check_xray_pins upstream wrapper =
     bindE (exact_keys upstream [''repository'', ''tag'', ''commit''] ''upstream'') (\<lambda>u.
     bindE (exact_keys wrapper [''repository'', ''commit''] ''wrapper'') (\<lambda>w.
       if \<not> py_eq (dget u ''repository'') (JStr ''XTLS/libXray'')
       then Inl (ValueError ''unexpected Xray upstream repository'')
       else Inr (u, w)))"

definition check_singbox_pins :: "json \<Rightarrow> json \<Rightarrow> (dict \<times> dict) res" where
  "check_singbox_pins upstream wrapper =
     bindE (exact_keys upstream [''repository'', ''tag'', ''commit'', ''goVersion''] ''upstream'') (\<lambda>u.
     bindE (exact_keys wrapper
        [''repository'', ''commit'', ''ndkVersion'', ''buildTags'', ''sourceBundle''] ''wrapper'') (\<lambda>w.
       if \<not> py_eq (dget u ''repository'') (JStr ''SagerNet/sing-box'')
       then Inl (ValueError ''sing-box build contract is invalid'')
       else bindE (match_default GO_VERSION_RX u ''goVersion'') (\<lambda>go_ok.
         if \<not> go_ok
            \<or> \<not> py_eq (dget w ''ndkVersion'') (JStr NDK_VERSION)
            \<or> \<not> py_eq (dget w ''buildTags'') (JArr (map JStr SB_TAGS))
         then Inl (ValueError ''sing-box build contract is invalid'')
         else Inr (u, w))))"

definition check_commit_pins :: "dict \<Rightarrow> dict \<Rightarrow> string \<Rightarrow> string \<Rightarrow> unit res" where
  "check_commit_pins upstream wrapper upstream_commit wrapper_commit =
     (if \<not> py_eq (dget upstream ''commit'') (JStr upstream_commit)
         \<or> \<not> py_eq (dget wrapper ''repository'') (JStr ''kvuco/exitFy-cores'')
         \<or> \<not> py_eq (dget wrapper ''commit'') (JStr wrapper_commit)
      then Inl (ValueError ''manifest commit pins are stale'') else Inr ())"

definition check_manifest_asset :: "asset_table \<Rightarrow> bytes \<Rightarrow> unit res" where
  "check_manifest_asset remote_assets manifest_bytes =
     (case map_of remote_assets ''manifest.json'' of
        None \<Rightarrow> Inl (ValueError ''remote manifest size/digest mismatch'')
      | Some a \<Rightarrow>
          if \<not> py_eq (dget a ''size'') (JInt (int (length manifest_bytes)))
             \<or> \<not> py_eq (dget a ''digest'') (JStr (''sha256:'' @ sha256_hex manifest_bytes))
          then Inl (ValueError ''remote manifest size/digest mismatch'')
          else Inr ())"

definition core_asset_name :: "string \<Rightarrow> string \<Rightarrow> string" where
  "core_asset_name family abi =
     (if family = ''xray'' then ''libxray-'' @ abi @ ''.so'' else ''libexitfy-sb-'' @ abi @ ''.so'')"

definition size_within :: "nat \<Rightarrow> nat \<Rightarrow> json \<Rightarrow> bool" where
  "size_within lo hi v = (case v of JInt n \<Rightarrow> int lo \<le> n \<and> n \<le> int hi | _ \<Rightarrow> False)"

definition MIB :: nat where "MIB = 1024 * 1024"

definition is_plain_digest :: "json \<Rightarrow> bool" where
  "is_plain_digest v = (case v of JStr s \<Rightarrow> fullmatch DIGEST_RX s | _ \<Rightarrow> False)"

definition check_core_asset ::
    "asset_table \<Rightarrow> dict \<Rightarrow> string \<Rightarrow> string \<times> nat \<times> nat \<times> string \<Rightarrow> string res" where
  "check_core_asset remote_assets entries family layout =
     (case layout of (abi, elf_class, machine, machine_name) \<Rightarrow>
       let name = core_asset_name family abi;
           mismatch = Inl (ValueError (''remote core asset contract mismatch for '' @ abi))
       in bindE (exact_keys (dget entries abi)
            [''name'', ''size'', ''sha256'', ''elfClass'', ''elfMachine'', ''elfMachineName'', ''exports'']
            (''manifest asset '' @ abi)) (\<lambda>entry.
          case map_of remote_assets name of
            None \<Rightarrow> mismatch
          | Some remote \<Rightarrow>
              if \<not> py_eq (dget entry ''name'') (JStr name)
                 \<or> \<not> size_within MIB (64 * MIB) (dget entry ''size'')
                 \<or> \<not> is_plain_digest (dget entry ''sha256'')
                 \<or> \<not> py_eq (dget remote ''size'') (dget entry ''size'')
                 \<or> \<not> py_eq (dget remote ''digest'') (JStr (''sha256:'' @ str_value (dget entry ''sha256'')))
                 \<or> \<not> py_eq (dget entry ''elfClass'') (JInt (int elf_class))
                 \<or> \<not> py_eq (dget entry ''elfMachine'') (JInt (int machine))
                 \<or> \<not> py_eq (dget entry ''elfMachineName'') (JStr machine_name)
              then mismatch
              else bindE (exports_exactly (dget entry ''exports'')) (\<lambda>exact.
                if \<not> exact then mismatch else Inr name)))"

definition source_bundle_name :: "string \<Rightarrow> string" where
  "source_bundle_name upstream_tag = ''exitfy-sb-'' @ upstream_tag @ ''-source.tar.gz''"

definition check_source_bundle :: "asset_table \<Rightarrow> dict \<Rightarrow> string \<Rightarrow> string res" where
  "check_source_bundle remote_assets wrapper upstream_tag =
     (let source_name = source_bundle_name upstream_tag;
          mismatch = Inl (ValueError ''remote source bundle contract mismatch'')
      in bindE (exact_keys (dget wrapper ''sourceBundle'') [''name'', ''size'', ''sha256''] ''source bundle'')
        (\<lambda>src.
          if \<not> py_eq (dget src ''name'') (JStr source_name) then mismatch
          else case map_of remote_assets source_name of
            None \<Rightarrow> mismatch
          | Some remote \<Rightarrow>
              if \<not> size_within 1 (512 * MIB) (dget src ''size'') then mismatch
              else bindE (match_default DIGEST_RX src ''sha256'') (\<lambda>digest_ok.
                if \<not> digest_ok
                   \<or> \<not> py_eq (dget remote ''size'') (dget src ''size'')
                   \<or> \<not> py_eq (dget remote ''digest'') (JStr (''sha256:'' @ str_value (dget src ''sha256'')))
                then mismatch
                else Inr source_name)))"

section \<open>The check of a release\<close>

definition check_release_state :: "dict \<Rightarrow> bool \<Rightarrow> unit res" where
  "check_release_state release allow_draft =
     (if (dget release ''draft'' \<noteq> JBool False \<and> \<not> (allow_draft \<and> dget release ''draft'' = JBool True))
         \<or> dget release ''prerelease'' \<noteq> JBool False
      then Inl (ValueError ''release is not stable'') else Inr ())"

definition verify_remote_release ::
    "json \<Rightarrow> json \<Rightarrow> bytes \<Rightarrow> string \<Rightarrow> string \<Rightarrow> string \<Rightarrow> bool \<Rightarrow> unit res" where
  "verify_remote_release release_value manifest_value manifest_bytes family upstream_commit wrapper_commit
       allow_draft =
     (if MAX_MANIFEST_BYTES < length manifest_bytes
      then Inl (ValueError (''manifest exceeds '' @ dec_nat MAX_MANIFEST_BYTES @ '' bytes''))
      else if family \<noteq> ''xray'' \<and> family \<noteq> ''sing_box''
      then Inl (ValueError ''unsupported core family'')
      else
        bindE (attr_items release_value) (\<lambda>release.
        bindE (check_release_state release allow_draft) (\<lambda>_.
        if \<not> fullmatch COMMIT_RX upstream_commit \<or> \<not> fullmatch COMMIT_RX wrapper_commit
        then Inl (ValueError ''expected commits are invalid'')
        else if \<not> py_eq (dget release ''target_commitish'') (JStr wrapper_commit)
        then Inl (ValueError ''release target commit is stale'')
        else
          bindE (exact_keys manifest_value TOP_LEVEL ''manifest'') (\<lambda>manifest.
          bindE (core_contract manifest family) (\<lambda>_.
          bindE (manifest_upstream_tag manifest) (\<lambda>upstream_tag.
          bindE (check_release_tag release manifest family upstream_tag) (\<lambda>_.
          bindE ((if family = ''xray'' then check_xray_pins else check_singbox_pins)
                   (dget manifest ''upstream'') (dget manifest ''wrapper'')) (\<lambda>(upstream, wrapper).
          bindE (check_commit_pins upstream wrapper upstream_commit wrapper_commit) (\<lambda>_.
          bindE (asset_map release) (\<lambda>remote_assets.
          bindE (check_manifest_asset remote_assets manifest_bytes) (\<lambda>_.
          case dget manifest ''assets'' of
            JObj entries \<Rightarrow>
              if \<not> keys_are entries (map fst ABIS)
              then Inl (ValueError ''manifest ABI set is incomplete'')
              else
                bindE (mapE (check_core_asset remote_assets entries family) ABIS) (\<lambda>names.
                bindE (if family = ''sing_box''
                       then bindE (check_source_bundle remote_assets wrapper upstream_tag) (\<lambda>n. Inr [n])
                       else Inr []) (\<lambda>source_names.
                  if \<not> same_elems (map fst remote_assets) (''manifest.json'' # names @ source_names)
                  then Inl (ValueError ''release asset set is incomplete or contains extras'')
                  else Inr ()))
          | _ \<Rightarrow> Inl (ValueError ''manifest ABI set is incomplete''))))))))))))"

section \<open>The command line\<close>

text \<open>
  \<open>json.loads(path.read_text(encoding="utf-8"))\<close>: strict UTF-8, no lone surrogates, and a byte
  order mark is a character the decoder rejects. (The newline translation of text mode can only
  touch white space, since a raw line break inside a string is an error.)
\<close>

definition json_loads_text :: "bytes \<Rightarrow> json res" where
  "json_loads_text raw =
     (if \<not> utf8_ok False raw then Inl UnicodeDecodeError
      else bindE (parse_value (2 * length raw + 2) (skip_ws raw)) (\<lambda>(v, r).
          if skip_ws r = [] then Inr v else Inl JSONDecodeError))"

definition read_json_text :: "file_input \<Rightarrow> json res" where
  "read_json_text file = (case file of None \<Rightarrow> Inl (OSError ''read_text'') | Some raw \<Rightarrow> json_loads_text raw)"

definition remote_main ::
    "string \<Rightarrow> file_input \<Rightarrow> file_input \<Rightarrow> string \<Rightarrow> string \<Rightarrow> bool \<Rightarrow> string res" where
  "remote_main family release_file manifest_file upstream_commit wrapper_commit allow_draft =
     (if family \<noteq> ''xray'' \<and> family \<noteq> ''sing_box'' then Inl (UsageError ''invalid choice'')
      else
        bindE (read_bounded manifest_file MAX_MANIFEST_BYTES ''manifest'') (\<lambda>manifest_bytes.
        bindE (read_json_text release_file) (\<lambda>release.
        bindE (json_loads manifest_bytes) (\<lambda>manifest.
        bindE (verify_remote_release release manifest manifest_bytes family upstream_commit
                 wrapper_commit allow_draft) (\<lambda>_.
          Inr (''remote '' @ family @ '' release contract verified''))))))"

end
