(* ===== verification/Remote_Release_Props.thy ===== *)
theory Remote_Release_Props
  imports Remote_Release Release_Draft_Props
begin

text \<open>
  When the parts of the check of a published release accept, and what an accepted release
  guarantees: its assets are exactly the expected ones, with the sizes and digests of the manifest,
  and the manifest's own digest is the SHA-256 of its bytes.
\<close>

section \<open>The assets of a release\<close>

lemma exact_keys_Inr [res_iff]:
  "exact_keys v ks label = Inr d \<longleftrightarrow> v = JObj d \<and> keys_are d ks"
  by (cases v) (auto simp: exact_keys_def)

definition good_asset :: "json \<Rightarrow> bool" where
  "good_asset v \<longleftrightarrow> (\<exists>a name. v = JObj a \<and> dget a ''name'' = JStr name \<and> name \<noteq> []
     \<and> positive_int (dget a ''id'') \<and> positive_int (dget a ''size'') \<and> is_digest_value (dget a ''digest''))"

definition asset_entry :: "json \<Rightarrow> string \<times> dict" where
  "asset_entry v = (asset_name v, the_dict v)"

lemma asset_step_Inr:
  "asset_step t v = Inr t' \<longleftrightarrow>
     good_asset v \<and> asset_name v \<notin> fst ` set t \<and> t' = t @ [asset_entry v]"
  by (cases v)
     (auto simp: asset_step_def good_asset_def asset_name_def asset_entry_def str_value_def
        map_of_eq_None_iff raise_if_eq_Inr split: json.split)

lemma foldE_asset_step:
  "foldE asset_step t vs = Inr t' \<longleftrightarrow>
     list_all good_asset vs \<and> distinct (map asset_name vs) \<and> set (map asset_name vs) \<inter> fst ` set t = {}
     \<and> t' = t @ map asset_entry vs"
proof (induction vs arbitrary: t)
  case (Cons v vs)
  have "fst (asset_entry v) = asset_name v" by (simp add: asset_entry_def)
  then show ?case by (auto simp: bindE_eq_Inr asset_step_Inr Cons)
qed auto

lemma asset_map_Inr:
  "asset_map release = Inr t \<longleftrightarrow>
     (\<exists>vs. dget release ''assets'' = JArr vs \<and> list_all good_asset vs \<and> distinct (map asset_name vs)
        \<and> t = map asset_entry vs)"
  by (auto simp: asset_map_def foldE_asset_step split: json.split)

lemma asset_map_distinct: "asset_map release = Inr t \<Longrightarrow> distinct (map fst t)"
  by (auto simp: asset_map_Inr asset_entry_def [abs_def] comp_def)

section \<open>The parts of the check\<close>

lemma exports_exactly_Inr: "exports_exactly (JArr (map JStr EXPORTS)) = Inr True"
  by code_simp

lemma core_contract_Inr [res_iff]:
  "core_contract m family = Inr u \<longleftrightarrow>
     py_eq (dget m ''schema'') (JInt 3) \<and> py_eq (dget m ''coreApi'') (JInt 2)
     \<and> py_eq (dget m ''configContract'') (JInt 1) \<and> dget m ''family'' = JStr family
     \<and> py_eq (dget m ''minAndroidApi'') (JInt 29) \<and> exports_exactly (dget m ''requiredExports'') = Inr True"
  by (auto simp: core_contract_def bindE_eq_Inr raise_if_eq_Inr)

lemma manifest_upstream_tag_Inr [res_iff]:
  "manifest_upstream_tag m = Inr tag \<longleftrightarrow>
     (\<exists>u. dget m ''upstream'' = JObj u \<and> dget u ''tag'' = JStr tag \<and> fullmatch VERSION_RX tag)"
  by (auto simp: manifest_upstream_tag_def split: json.split)

lemma check_release_tag_Inr [res_iff]:
  "check_release_tag r m family tag = Inr u \<longleftrightarrow>
     (\<exists>t. dget r ''tag_name'' = JStr t \<and> fullmatch (release_tag_rx (family_prefix family) tag) t
        \<and> dget m ''releaseTag'' = JStr t)"
  by (auto simp: check_release_tag_def split: json.split)

lemma check_release_state_Inr [res_iff]:
  "check_release_state r allow = Inr u \<longleftrightarrow>
     (dget r ''draft'' = JBool False \<or> allow \<and> dget r ''draft'' = JBool True)
     \<and> dget r ''prerelease'' = JBool False"
  by (auto simp: check_release_state_def)

lemma match_default_Inr [res_iff]:
  "match_default r d k = Inr b \<longleftrightarrow> (\<exists>s. dget_default d k (JStr []) = JStr s \<and> b = fullmatch r s)"
  by (auto simp: match_default_def split: json.split)

lemma check_xray_pins_Inr [res_iff]:
  "check_xray_pins u w = Inr p \<longleftrightarrow>
     (\<exists>ud wd. u = JObj ud \<and> w = JObj wd \<and> p = (ud, wd)
        \<and> keys_are ud [''repository'', ''tag'', ''commit''] \<and> keys_are wd [''repository'', ''commit'']
        \<and> dget ud ''repository'' = JStr ''XTLS/libXray'')"
  by (auto simp: check_xray_pins_def bindE_eq_Inr exact_keys_Inr raise_if_eq_Inr)

lemma check_singbox_pins_Inr [res_iff]:
  "check_singbox_pins u w = Inr p \<longleftrightarrow>
     (\<exists>ud wd go. u = JObj ud \<and> w = JObj wd \<and> p = (ud, wd)
        \<and> keys_are ud [''repository'', ''tag'', ''commit'', ''goVersion'']
        \<and> keys_are wd [''repository'', ''commit'', ''ndkVersion'', ''buildTags'', ''sourceBundle'']
        \<and> dget ud ''repository'' = JStr ''SagerNet/sing-box''
        \<and> dget_default ud ''goVersion'' (JStr []) = JStr go \<and> fullmatch GO_VERSION_RX go
        \<and> dget wd ''ndkVersion'' = JStr NDK_VERSION
        \<and> py_eq (dget wd ''buildTags'') (JArr (map JStr SB_TAGS)))"
  by (auto simp: check_singbox_pins_def bindE_eq_Inr exact_keys_Inr raise_if_eq_Inr match_default_Inr)

lemma check_commit_pins_Inr [res_iff]:
  "check_commit_pins u w uc wc = Inr x \<longleftrightarrow>
     dget u ''commit'' = JStr uc \<and> dget w ''repository'' = JStr ''kvuco/exitFy-cores''
     \<and> dget w ''commit'' = JStr wc"
  by (auto simp: check_commit_pins_def)

text \<open>A remote asset carries a size and the SHA-256 digest of a text of hexadecimal digits.\<close>

definition remote_as :: "asset_table \<Rightarrow> string \<Rightarrow> json \<Rightarrow> string \<Rightarrow> bool" where
  "remote_as t name sz hex \<longleftrightarrow>
     (\<exists>a. map_of t name = Some a \<and> py_eq (dget a ''size'') sz
        \<and> dget a ''digest'' = JStr (''sha256:'' @ hex))"

lemma check_manifest_asset_Inr [res_iff]:
  "check_manifest_asset t b = Inr u \<longleftrightarrow>
     remote_as t ''manifest.json'' (JInt (int (length b))) (sha256_hex b)"
  by (auto simp: check_manifest_asset_def remote_as_def split: option.split)

lemma check_core_asset_Inr [res_iff]:
  "check_core_asset t entries family (abi, cls, machine, mname) = Inr name \<longleftrightarrow>
     name = core_asset_name family abi \<and>
     (\<exists>e hex. dget entries abi = JObj e
        \<and> keys_are e [''name'', ''size'', ''sha256'', ''elfClass'', ''elfMachine'', ''elfMachineName'', ''exports'']
        \<and> dget e ''name'' = JStr name \<and> size_within MIB (64 * MIB) (dget e ''size'')
        \<and> dget e ''sha256'' = JStr hex \<and> fullmatch DIGEST_RX hex
        \<and> remote_as t name (dget e ''size'') hex
        \<and> py_eq (dget e ''elfClass'') (JInt (int cls)) \<and> py_eq (dget e ''elfMachine'') (JInt (int machine))
        \<and> dget e ''elfMachineName'' = JStr mname \<and> exports_exactly (dget e ''exports'') = Inr True)"
proof -
  have d: "is_plain_digest v \<longleftrightarrow> (\<exists>hex. v = JStr hex \<and> fullmatch DIGEST_RX hex)" for v
    by (auto simp: is_plain_digest_def split: json.split)
  show ?thesis
    unfolding check_core_asset_def remote_as_def Let_def prod.case
    by (cases "map_of t (core_asset_name family abi)")
       (auto simp: bindE_eq_Inr exact_keys_Inr d str_value_def raise_if_eq_Inr)
qed

lemma check_source_bundle_Inr [res_iff]:
  "check_source_bundle t w tag = Inr name \<longleftrightarrow>
     name = source_bundle_name tag \<and>
     (\<exists>s hex. dget w ''sourceBundle'' = JObj s \<and> keys_are s [''name'', ''size'', ''sha256'']
        \<and> dget s ''name'' = JStr name \<and> size_within 1 (512 * MIB) (dget s ''size'')
        \<and> dget_default s ''sha256'' (JStr []) = JStr hex \<and> fullmatch DIGEST_RX hex
        \<and> remote_as t name (dget s ''size'') (str_value (dget s ''sha256'')))"
  unfolding check_source_bundle_def remote_as_def Let_def
  by (cases "map_of t (source_bundle_name tag)")
     (auto simp: bindE_eq_Inr exact_keys_Inr match_default_Inr raise_if_eq_Inr)

section \<open>An accepted release\<close>

lemma release_tag_rx_iff:
  "fullmatch (release_tag_rx pfx tag) t \<longleftrightarrow> (\<exists>n \<ge> 2. t = pfx @ ''-'' @ tag @ ''-w'' @ dec_nat n)"
  by (auto simp: fullmatch_iff release_tag_rx_def WRAPPER_iff)

text \<open>The names a release of the family and the upstream tag consists of.\<close>

definition release_asset_names :: "string \<Rightarrow> string \<Rightarrow> string list" where
  "release_asset_names family tag =
     ''manifest.json'' # map (core_asset_name family \<circ> fst) ABIS
     @ (if family = ''sing_box'' then [source_bundle_name tag] else [])"

text \<open>The core asset of an ABI: within the size limits, with the digest and size of the manifest.\<close>

definition core_bound :: "asset_table \<Rightarrow> dict \<Rightarrow> string \<Rightarrow> string \<Rightarrow> bool" where
  "core_bound t entries family abi \<longleftrightarrow>
     (\<exists>e n hex. dget entries abi = JObj e \<and> dget e ''name'' = JStr (core_asset_name family abi)
        \<and> dget e ''size'' = JInt n \<and> int MIB \<le> n \<and> n \<le> int (64 * MIB)
        \<and> dget e ''sha256'' = JStr hex \<and> fullmatch DIGEST_RX hex
        \<and> remote_as t (core_asset_name family abi) (JInt n) hex)"

lemma check_core_asset_bound:
  assumes "check_core_asset t entries family (abi, cls, machine, mname) = Inr name"
  shows "name = core_asset_name family abi \<and> core_bound t entries family abi"
proof -
  from assms obtain e hex where e: "name = core_asset_name family abi" "dget entries abi = JObj e"
      "dget e ''name'' = JStr name" "size_within MIB (64 * MIB) (dget e ''size'')"
      "dget e ''sha256'' = JStr hex" "fullmatch DIGEST_RX hex" "remote_as t name (dget e ''size'') hex"
    by (auto simp: check_core_asset_Inr)
  moreover from e(4) obtain n where "dget e ''size'' = JInt n" "int MIB \<le> n" "n \<le> int (64 * MIB)"
    by (auto simp: size_within_def split: json.split_asm)
  ultimately show ?thesis unfolding core_bound_def by metis
qed

lemma attr_items_Inr [res_iff]: "attr_items v = Inr d \<longleftrightarrow> v = JObj d"
  by (cases v) auto

lemma case_obj_Inr:
  "(case v of JObj d \<Rightarrow> f d | _ \<Rightarrow> Inl e) = Inr y \<longleftrightarrow> (\<exists>d. v = JObj d \<and> f d = Inr y)"
  by (cases v) auto

lemma verify_remote_release_iff:
  "verify_remote_release rv mv b family uc wc allow = Inr () \<longleftrightarrow>
    length b \<le> MAX_MANIFEST_BYTES \<and> (family = ''xray'' \<or> family = ''sing_box'')
    \<and> (\<exists>release. rv = JObj release
    \<and> check_release_state release allow = Inr () \<and> fullmatch COMMIT_RX uc \<and> fullmatch COMMIT_RX wc
    \<and> dget release ''target_commitish'' = JStr wc
    \<and> (\<exists>m. mv = JObj m \<and> keys_are m TOP_LEVEL \<and> core_contract m family = Inr ()
    \<and> (\<exists>tag. manifest_upstream_tag m = Inr tag \<and> check_release_tag release m family tag = Inr ()
    \<and> (\<exists>p. (if family = ''xray'' then check_xray_pins else check_singbox_pins)
         (dget m ''upstream'') (dget m ''wrapper'') = Inr p \<and> check_commit_pins (fst p) (snd p) uc wc = Inr ()
    \<and> (\<exists>t. asset_map release = Inr t \<and> check_manifest_asset t b = Inr ()
    \<and> (\<exists>entries. dget m ''assets'' = JObj entries \<and> keys_are entries (map fst ABIS)
    \<and> (\<exists>names. mapE (check_core_asset t entries family) ABIS = Inr names
    \<and> (\<exists>srcs. (if family = ''sing_box'' then bindE (check_source_bundle t (snd p) tag) (\<lambda>n. Inr [n])
                 else Inr []) = Inr srcs
    \<and> same_elems (map fst t) (''manifest.json'' # names @ srcs)))))))))"
  unfolding verify_remote_release_def raise_if_eq_Inr bindE_eq_Inr attr_items_Inr exact_keys_Inr
    case_obj_Inr prod.case_eq_if ex_unit
  by (simp only: not_less not_not de_Morgan_conj de_Morgan_disj py_eq_Str conj_assoc simp_thms)

section \<open>An accepted release\<close>

lemma manifest_asset_accepted:
  assumes "verify_remote_release rv mv b family uc wc allow = Inr ()"
  shows "\<exists>release t. rv = JObj release \<and> asset_map release = Inr t
    \<and> remote_as t ''manifest.json'' (JInt (int (length b))) (sha256_hex b)"
  using assms unfolding verify_remote_release_iff check_manifest_asset_Inr by blast


text \<open>A release binds its manifest: two manifest files that are accepted for the same
  release have the same length and the same SHA-256 digest.\<close>

theorem manifest_bound_to_release:
  assumes "verify_remote_release rv mv b family uc wc allow = Inr ()"
    and "verify_remote_release rv mv' b' family' uc' wc' allow' = Inr ()"
  shows "length b = length b' \<and> sha256_hex b = sha256_hex b'"
  using manifest_asset_accepted [OF assms(1)] manifest_asset_accepted [OF assms(2)]
  by (auto simp: remote_as_def dest: py_eq_Int_unique)

end
