(* ===== verification/Elf_Reader.thy ===== *)
theory Elf_Reader
  imports Py_Regex Sha256
begin

text \<open>
  The bounded reader of \<open>scripts/verify_artifacts.py\<close>: \<open>_Reader.read\<close> on top of \<open>os.pread\<close>,
  \<open>struct.unpack\<close>, the digest of a descriptor, and the translation of virtual addresses to file
  offsets. What the kernel answers to a \<open>pread\<close> is a parameter; its contract is the locale
  \<open>pread_contract\<close>. Integers are Python's, so they are \<open>int\<close>.
\<close>

section \<open>The reader\<close>

text \<open>
  A descriptor is the answer to \<open>os.pread(fd, n, offset)\<close>: a chunk, or \<open>None\<close> for an \<open>OSError\<close>.
\<close>

type_synonym descriptor = "nat \<Rightarrow> nat \<Rightarrow> bytes option"

record elf_reader =
  rd_descriptor :: descriptor
  rd_size :: int

definition READ_CHUNK :: nat where
  "READ_CHUNK = 64 * 1024"

function read_loop :: "descriptor \<Rightarrow> string \<Rightarrow> nat \<Rightarrow> nat \<Rightarrow> bytes res" where
  "read_loop pread label remaining current =
     (if remaining = 0 then Inr []
      else case pread (min remaining READ_CHUNK) current of
        None \<Rightarrow> Inl (ValueError (''cannot read '' @ label))
      | Some chunk \<Rightarrow>
          if chunk = [] then Inl (ValueError (''truncated '' @ label))
          else bindE (read_loop pread label (remaining - length chunk) (current + length chunk))
                 (\<lambda>rest. Inr (chunk @ rest)))"
  by pat_completeness auto
termination
  by (relation "measure (\<lambda>(pread, label, remaining, current). remaining)") auto

declare read_loop.simps [simp del]

definition read_at :: "elf_reader \<Rightarrow> int \<Rightarrow> int \<Rightarrow> string \<Rightarrow> bytes res" where
  "read_at r offset sz label =
     (if offset < 0 \<or> sz < 0 \<or> rd_size r < offset \<or> rd_size r - offset < sz
      then Inl (ValueError (label @ '' escapes ELF''))
      else read_loop (rd_descriptor r) label (nat sz) (nat offset))"

text \<open>
  The formats \<open>B\<close>, \<open>H\<close>, \<open>I\<close>, \<open>Q\<close>, \<open>i\<close>, \<open>q\<close> and \<open>16s\<close> of \<open>struct\<close> with \<open><\<close>: little-endian, without
  padding. The value of a \<open>16s\<close> field is never used and reads as its little-endian number.
\<close>

datatype field = U8 | U16 | U32 | U64 | S32 | S64 | Raw16

fun field_size :: "field \<Rightarrow> nat" where
  "field_size U8 = 1"
| "field_size U16 = 2"
| "field_size U32 = 4"
| "field_size U64 = 8"
| "field_size S32 = 4"
| "field_size S64 = 8"
| "field_size Raw16 = 16"

fun little_endian :: "bytes \<Rightarrow> int" where
  "little_endian [] = 0"
| "little_endian (b # bs) = int (byte_val b) + 256 * little_endian bs"

definition twos_complement :: "nat \<Rightarrow> int \<Rightarrow> int" where
  "twos_complement bits v = (if 2 ^ (bits - 1) \<le> v then v - 2 ^ bits else v)"

fun field_value :: "field \<Rightarrow> bytes \<Rightarrow> int" where
  "field_value S32 b = twos_complement 32 (little_endian b)"
| "field_value S64 b = twos_complement 64 (little_endian b)"
| "field_value _ b = little_endian b"

definition calcsize :: "field list \<Rightarrow> nat" where
  "calcsize fmt = sum_list (map field_size fmt)"

fun unpack_bytes :: "field list \<Rightarrow> bytes \<Rightarrow> int list" where
  "unpack_bytes [] b = []"
| "unpack_bytes (f # fmt) b =
     field_value f (take (field_size f) b) # unpack_bytes fmt (drop (field_size f) b)"

definition unpack :: "elf_reader \<Rightarrow> field list \<Rightarrow> int \<Rightarrow> string \<Rightarrow> int list res" where
  "unpack r fmt offset label =
     bindE (read_at r offset (int (calcsize fmt)) label) (\<lambda>b. Inr (unpack_bytes fmt b))"

definition unpack1 :: "elf_reader \<Rightarrow> field \<Rightarrow> int \<Rightarrow> string \<Rightarrow> int res" where
  "unpack1 r f offset label = bindE (unpack r [f] offset label) (\<lambda>vs. Inr (vs ! 0))"

section \<open>The contract of the kernel\<close>

text \<open>
  A descriptor of a file with fixed contents: a chunk is a part of the contents that starts at the
  offset, has at most the requested length, and is empty only at the end of the file.
\<close>

locale pread_contract =
  fixes pread :: descriptor and content :: bytes
  assumes pread_some: "\<exists>k. pread n off = Some (take k (drop off content)) \<and> k \<le> n \<and> (0 < n \<longrightarrow> 0 < k)"
begin

lemma pread_progress:
  assumes "0 < n" "off < length content"
  obtains chunk where "pread n off = Some chunk" "chunk \<noteq> []" "length chunk \<le> n"
    "chunk = take (length chunk) (drop off content)"
proof -
  from pread_some [of n off] assms(1) obtain k where
    "pread n off = Some (take k (drop off content))" "k \<le> n" "0 < k" by auto
  with assms(2) show thesis by (intro that [of "take k (drop off content)"]) (auto simp: min_def)
qed

lemma read_loop_exact:
  "current + remaining \<le> length content \<Longrightarrow>
   read_loop pread label remaining current = Inr (take remaining (drop current content))"
proof (induction remaining arbitrary: current rule: less_induct)
  case (less remaining)
  show ?case
  proof (cases "remaining = 0")
    case True
    then show ?thesis by (simp add: read_loop.simps)
  next
    case False
    obtain chunk where c: "pread (min remaining READ_CHUNK) current = Some chunk" "chunk \<noteq> []"
        "length chunk \<le> min remaining READ_CHUNK" "chunk = take (length chunk) (drop current content)"
      using pread_progress [of "min remaining READ_CHUNK" current] False less.prems
      by (auto simp: READ_CHUNK_def)
    let ?m = "length chunk"
    have "read_loop pread label (remaining - ?m) (current + ?m)
        = Inr (take (remaining - ?m) (drop (current + ?m) content))"
      using c less.prems False by (intro less.IH) auto
    then have "read_loop pread label remaining current
        = Inr (chunk @ take (remaining - ?m) (drop (current + ?m) content))"
      using c(1,2) False by (subst read_loop.simps) simp
    also have "chunk @ take (remaining - ?m) (drop (current + ?m) content)
        = take (?m + (remaining - ?m)) (drop current content)"
      using c(4) by (metis add.commute drop_drop take_add)
    finally show ?thesis using c(3) by simp
  qed
qed

lemma read_at_exact:
  assumes "rd_descriptor r = pread" "rd_size r = int (length content)"
  shows "read_at r offset sz label =
    (if 0 \<le> offset \<and> 0 \<le> sz \<and> offset + sz \<le> int (length content)
     then Inr (take (nat sz) (drop (nat offset) content))
     else Inl (ValueError (label @ '' escapes ELF'')))"
  using read_loop_exact [of "nat offset" "nat sz" label] assms
  by (auto simp: read_at_def not_less)

end

text \<open>A file read in one piece, and one read in pieces of at most \<open>Suc m\<close> octets.\<close>

definition whole_file :: "bytes \<Rightarrow> descriptor" where
  "whole_file content n off = Some (take n (drop off content))"

definition short_reads :: "nat \<Rightarrow> bytes \<Rightarrow> descriptor" where
  "short_reads m content n off = Some (take (min n (Suc m)) (drop off content))"

interpretation whole: pread_contract "whole_file content" content for content
  by unfold_locales (auto simp: whole_file_def)

interpretation short: pread_contract "short_reads m content" content for m content
  by unfold_locales (auto simp: short_reads_def)

definition file_reader :: "bytes \<Rightarrow> elf_reader" where
  "file_reader content = \<lparr>rd_descriptor = whole_file content, rd_size = int (length content)\<rparr>"

lemma read_file:
  "read_at (file_reader content) offset sz label =
    (if 0 \<le> offset \<and> 0 \<le> sz \<and> offset + sz \<le> int (length content)
     then Inr (take (nat sz) (drop (nat offset) content))
     else Inl (ValueError (label @ '' escapes ELF'')))"
  by (rule whole.read_at_exact) (simp_all add: file_reader_def)

text \<open>Two readers that answer every read alike.\<close>

definition same_reads :: "elf_reader \<Rightarrow> elf_reader \<Rightarrow> bool" where
  "same_reads r q \<longleftrightarrow> rd_size r = rd_size q
     \<and> (\<forall>offset sz label. read_at r offset sz label = read_at q offset sz label)"

context pread_contract
begin

lemma same_reads_file:
  "same_reads \<lparr>rd_descriptor = pread, rd_size = int (length content)\<rparr> (file_reader content)"
  by (simp add: same_reads_def read_file read_at_exact) (simp add: file_reader_def)

end

lemma read_loop_nonempty: "0 < n \<Longrightarrow> read_loop pread label n off = Inr b \<Longrightarrow> b \<noteq> []"
  by (subst (asm) read_loop.simps) (auto simp: bindE_eq_Inr split: option.split_asm if_split_asm)

lemma read_at_nonempty: "0 < sz \<Longrightarrow> read_at r offset sz label = Inr b \<Longrightarrow> b \<noteq> []"
  using read_loop_nonempty [of "nat sz" "rd_descriptor r" label "nat offset" b]
  by (auto simp: read_at_def split: if_split_asm)

section \<open>The digest of a descriptor\<close>

text \<open>The concatenation of the chunks fed to \<open>hashlib.sha256().update\<close>.\<close>

function digest_input :: "elf_reader \<Rightarrow> int \<Rightarrow> bytes res" where
  "digest_input r offset =
     (if offset < rd_size r then
        (case read_at r offset (min (int READ_CHUNK) (rd_size r - offset)) ''ELF digest'' of
           Inl e \<Rightarrow> Inl e
         | Inr chunk \<Rightarrow> bindE (digest_input r (offset + int (length chunk))) (\<lambda>rest. Inr (chunk @ rest)))
      else Inr [])"
  by pat_completeness auto
termination
proof (relation "measure (\<lambda>(r, offset). nat (rd_size r - offset))", goal_cases)
  case (2 r offset chunk)
  then have "chunk \<noteq> []"
    using read_at_nonempty [of "min (int READ_CHUNK) (rd_size r - offset)" r offset "''ELF digest''" chunk]
    by (auto simp: READ_CHUNK_def)
  with 2 show ?case by simp
qed simp

declare digest_input.simps [simp del]

definition digest_descriptor :: "elf_reader \<Rightarrow> string res" where
  "digest_descriptor r = bindE (digest_input r 0) (\<lambda>b. Inr (sha256_hex b))"

section \<open>Addresses\<close>

record load_segment =
  seg_offset :: int
  seg_address :: int
  seg_file_size :: int
  seg_memory_size :: int
  seg_flags :: int
  seg_alignment :: int

definition checked_end :: "int \<Rightarrow> int \<Rightarrow> int \<Rightarrow> string \<Rightarrow> int res" where
  "checked_end start sz limit label =
     (if start < 0 \<or> sz < 0 \<or> limit < start \<or> limit - start < sz
      then Inl (ValueError (label @ '' range is invalid'')) else Inr (start + sz))"

definition backs :: "load_segment \<Rightarrow> int \<Rightarrow> int \<Rightarrow> bool" where
  "backs segment address sz \<longleftrightarrow>
     seg_address segment \<le> address
     \<and> address - seg_address segment \<le> seg_file_size segment
     \<and> sz \<le> seg_file_size segment - (address - seg_address segment)"

definition mapped_offset :: "load_segment list \<Rightarrow> int \<Rightarrow> int \<Rightarrow> string \<Rightarrow> int res" where
  "mapped_offset segments address sz label =
     (if address < 0 \<or> sz < 0 then Inl (ValueError (label @ '' address is invalid''))
      else case remdups (map (\<lambda>s. seg_offset s + address - seg_address s)
                             (filter (\<lambda>s. backs s address sz) segments)) of
        [candidate] \<Rightarrow> Inr candidate
      | _ \<Rightarrow> Inl (ValueError (label @ '' is not uniquely file-backed by PT_LOAD'')))"

definition mapped_available :: "load_segment list \<Rightarrow> int \<Rightarrow> string \<Rightarrow> int res" where
  "mapped_available segments address label =
     (case remdups (map (\<lambda>s. seg_file_size s - (address - seg_address s))
             (filter (\<lambda>s. seg_address s \<le> address \<and> address < seg_address s + seg_file_size s) segments)) of
        [available] \<Rightarrow> Inr available
      | _ \<Rightarrow> Inl (ValueError (label @ '' is not uniquely file-backed by PT_LOAD'')))"

section \<open>Names\<close>

definition MAX_SYMBOL_NAME_BYTES :: int where
  "MAX_SYMBOL_NAME_BYTES = 4096"

function c_string_loop :: "elf_reader \<Rightarrow> int \<Rightarrow> int \<Rightarrow> bytes \<Rightarrow> bytes res" where
  "c_string_loop r cursor remaining value =
     (if remaining \<le> 0 then Inl (ValueError ''dynamic symbol name is unterminated or oversized'')
      else case read_at r cursor (min 256 remaining) ''dynamic symbol name'' of
        Inl e \<Rightarrow> Inl e
      | Inr chunk \<Rightarrow>
          if List.member chunk (CHR 0x00) then Inr (value @ takeWhile (\<lambda>c. c \<noteq> CHR 0x00) chunk)
          else c_string_loop r (cursor + int (length chunk)) (remaining - int (length chunk)) (value @ chunk))"
  by pat_completeness auto
termination
proof (relation "measure (\<lambda>(r, cursor, remaining, value). nat remaining)", goal_cases)
  case (2 r cursor remaining acc chunk)
  then have "chunk \<noteq> []"
    using read_at_nonempty [of "min 256 remaining" r cursor "''dynamic symbol name''" chunk] by auto
  with 2 show ?case by simp
qed simp

declare c_string_loop.simps [simp del]

definition read_c_string :: "elf_reader \<Rightarrow> int \<Rightarrow> int \<Rightarrow> int \<Rightarrow> string res" where
  "read_c_string r base_offset table_size name_offset =
     (if name_offset < 0 \<or> table_size \<le> name_offset
      then Inl (ValueError ''dynamic symbol name escapes DT_STRTAB'')
      else bindE (c_string_loop r (base_offset + name_offset)
                    (min (table_size - name_offset) (MAX_SYMBOL_NAME_BYTES + 1)) []) (\<lambda>value.
        if \<not> utf8_ok False value
        then Inl (ValueError ''dynamic symbol name is not valid UTF-8'')
        else Inr value))"

end
