(* ===== verification/Elf_Hash.thy ===== *)
theory Elf_Hash
  imports Elf_Reader
begin

unbundle bit_operations_syntax

text \<open>
  The loader's hash tables in \<open>scripts/verify_artifacts.py\<close>: reading \<open>DT_HASH\<close> and \<open>DT_GNU_HASH\<close>
  (whose size is derived from its chains, walked with a memo table), the two hash functions, and
  the lookups a dynamic loader would make.
\<close>

definition MAX_DYNAMIC_SYMBOLS :: int where
  "MAX_DYNAMIC_SYMBOLS = 100000"

definition MAX_HASH_BUCKETS :: int where
  "MAX_HASH_BUCKETS = 100000"

text \<open>\<open>for index in range(n)\<close> collecting a value per index.\<close>

definition for_range :: "int \<Rightarrow> (int \<Rightarrow> 'a res) \<Rightarrow> 'a list res" where
  "for_range n f = mapE (\<lambda>k. f (int k)) [0..<nat n]"

section \<open>\<open>DT_HASH\<close>\<close>

record sysv_table =
  sv_buckets :: "int list"
  sv_chains :: "int list"

definition sv_symbol_count :: "sysv_table \<Rightarrow> int" where
  "sv_symbol_count t = int (length (sv_chains t))"

definition sysv_entry :: "elf_reader \<Rightarrow> int \<Rightarrow> int \<Rightarrow> int \<Rightarrow> int res" where
  "sysv_entry r offset n_chains index =
     bindE (unpack1 r U32 (offset + 8 + index * 4) ''DT_HASH entry'') (\<lambda>v.
       if n_chains \<le> v \<and> v \<noteq> 0
       then Inl (ValueError ''DT_HASH entry escapes the dynamic symbol table'') else Inr v)"

definition sysv_hash_symbol_count :: "elf_reader \<Rightarrow> load_segment list \<Rightarrow> int \<Rightarrow> sysv_table res" where
  "sysv_hash_symbol_count r segments address =
     bindE (mapped_offset segments address 8 ''DT_HASH header'') (\<lambda>offset0.
     bindE (unpack r [U32, U32] offset0 ''DT_HASH header'') (\<lambda>vs.
       let buckets = vs ! 0; n_chains = vs ! 1 in
       if buckets = 0 \<or> MAX_HASH_BUCKETS < buckets \<or> n_chains = 0 \<or> MAX_DYNAMIC_SYMBOLS < n_chains
       then Inl (ValueError ''DT_HASH cardinality is invalid'')
       else
         bindE (mapped_offset segments address (8 + 4 * (buckets + n_chains)) ''DT_HASH table'') (\<lambda>offset.
         bindE (for_range (buckets + n_chains) (sysv_entry r offset n_chains)) (\<lambda>entries.
           Inr \<lparr>sv_buckets = take (nat buckets) entries, sv_chains = drop (nat buckets) entries\<rparr>))))"

section \<open>\<open>DT_GNU_HASH\<close>\<close>

record gnu_table =
  gn_symbol_count :: int
  gn_symbol_offset :: int
  gn_bloom_shift :: int
  gn_word_bits :: int
  gn_bloom :: "int list"
  gn_buckets :: "int list"
  gn_chains :: "int list"

text \<open>The word of the chain that belongs to a symbol.\<close>

definition chain_word :: "elf_reader \<Rightarrow> load_segment list \<Rightarrow> int \<Rightarrow> int \<Rightarrow> int res" where
  "chain_word r segments chain_address relative =
     bindE (mapped_offset segments (chain_address + relative * 4) 4 ''DT_GNU_HASH chain'') (\<lambda>offset.
       unpack1 r U32 offset ''DT_GNU_HASH chain'')"

text \<open>
  The walk of \<open>terminal(start)\<close> with the memo table \<open>terminals\<close>; the path of the indices visited
  and the terminal index are returned, \<open>word\<close> reads the chain.
\<close>

function terminal_walk ::
    "(int \<Rightarrow> int res) \<Rightarrow> int \<Rightarrow> int \<Rightarrow> (int \<times> int) list \<Rightarrow> int list \<Rightarrow> int \<Rightarrow> (int list \<times> int) res" where
  "terminal_walk word symbol_offset maximum_chains terminals path index =
     (case map_of terminals index of
        Some result \<Rightarrow> Inr (path, result)
      | None \<Rightarrow>
          let relative = index - symbol_offset in
          if relative < 0 \<or> maximum_chains \<le> relative
          then Inl (ValueError ''DT_GNU_HASH chain escapes PT_LOAD'')
          else (case word relative of
              Inl e \<Rightarrow> Inl e
            | Inr v \<Rightarrow>
                if v AND 1 \<noteq> 0 then Inr (path @ [index], index)
                else if MAX_DYNAMIC_SYMBOLS < index + 1
                then Inl (ValueError ''DT_GNU_HASH chain exceeds symbol limit'')
                else terminal_walk word symbol_offset maximum_chains terminals (path @ [index]) (index + 1)))"
  by pat_completeness auto
termination
  by (relation "measure (\<lambda>(word, so, mc, ts, path, index). nat (MAX_DYNAMIC_SYMBOLS + 1 - index))") auto

declare terminal_walk.simps [simp del]

text \<open>\<open>terminal(start)\<close>: the result, and the memo table extended by the path.\<close>

definition terminal ::
    "(int \<Rightarrow> int res) \<Rightarrow> int \<Rightarrow> int \<Rightarrow> (int \<times> int) list \<Rightarrow> int \<Rightarrow> ((int \<times> int) list \<times> int) res" where
  "terminal word symbol_offset maximum_chains terminals start =
     bindE (terminal_walk word symbol_offset maximum_chains terminals [] start) (\<lambda>(path, result).
       Inr (map (\<lambda>visited. (visited, result)) path @ terminals, result))"

definition bucket_step ::
    "(int \<Rightarrow> int res) \<Rightarrow> int \<Rightarrow> int \<Rightarrow> (int \<times> int) list \<times> int \<Rightarrow> int \<Rightarrow> ((int \<times> int) list \<times> int) res" where
  "bucket_step word symbol_offset maximum_chains state v =
     (case state of (terminals, maximum_terminal) \<Rightarrow>
       if v = 0 then Inr state
       else if v < symbol_offset \<or> MAX_DYNAMIC_SYMBOLS < v
       then Inl (ValueError ''DT_GNU_HASH bucket is invalid'')
       else bindE (terminal word symbol_offset maximum_chains terminals v) (\<lambda>(terminals', t).
         Inr (terminals', max maximum_terminal t)))"

text \<open>The loop over the buckets reads each bucket and walks its chain.\<close>

definition bucket_loop_step ::
    "elf_reader \<Rightarrow> int \<Rightarrow> (int \<Rightarrow> int res) \<Rightarrow> int \<Rightarrow> int
      \<Rightarrow> int list \<times> (int \<times> int) list \<times> int \<Rightarrow> nat \<Rightarrow> (int list \<times> (int \<times> int) list \<times> int) res" where
  "bucket_loop_step r bucket_offset word symbol_offset maximum_chains acc k =
     (case acc of (values, state) \<Rightarrow>
       bindE (unpack1 r U32 (bucket_offset + int k * 4) ''DT_GNU_HASH bucket'') (\<lambda>v.
       bindE (bucket_step word symbol_offset maximum_chains state v) (\<lambda>state'.
         Inr (values @ [v], state'))))"

definition gnu_hash_symbol_count ::
    "elf_reader \<Rightarrow> load_segment list \<Rightarrow> int \<Rightarrow> int \<Rightarrow> gnu_table res" where
  "gnu_hash_symbol_count r segments address elf_class =
     bindE (mapped_offset segments address 16 ''DT_GNU_HASH header'') (\<lambda>offset.
     bindE (unpack r [U32, U32, U32, U32] offset ''DT_GNU_HASH header'') (\<lambda>vs.
       let buckets = vs ! 0; symbol_offset = vs ! 1; bloom_size = vs ! 2; bloom_shift = vs ! 3 in
       if buckets = 0 \<or> MAX_HASH_BUCKETS < buckets \<or> bloom_size = 0
          \<or> bloom_size AND (bloom_size - 1) \<noteq> 0 \<or> MAX_DYNAMIC_SYMBOLS < symbol_offset \<or> 32 \<le> bloom_shift
       then Inl (ValueError ''DT_GNU_HASH header is invalid'')
       else
         let word_size = (if elf_class = 2 then 8 else 4 :: int);
             bloom_field = (if elf_class = 2 then U64 else U32);
             bucket_address = address + 16 + bloom_size * word_size;
             bucket_size = buckets * 4;
             chain_address = bucket_address + bucket_size;
             word = chain_word r segments chain_address
         in bindE (mapped_offset segments (address + 16) (bloom_size * word_size) ''DT_GNU_HASH bloom'')
              (\<lambda>bloom_offset.
            bindE (for_range bloom_size (\<lambda>index.
                unpack1 r bloom_field (bloom_offset + index * word_size) ''DT_GNU_HASH bloom'')) (\<lambda>bloom.
            bindE (mapped_offset segments bucket_address bucket_size ''DT_GNU_HASH buckets'') (\<lambda>bucket_offset.
            bindE (mapped_available segments chain_address ''DT_GNU_HASH chains'') (\<lambda>available.
              let maximum_chains = min (available div 4) MAX_DYNAMIC_SYMBOLS in
              bindE (foldE (bucket_loop_step r bucket_offset word symbol_offset maximum_chains)
                       ([], [], symbol_offset - 1) [0..<nat buckets])
                (\<lambda>(bucket_values, terminals, maximum_terminal).
                  let count = max symbol_offset (maximum_terminal + 1) in
                  if count \<le> 0 \<or> MAX_DYNAMIC_SYMBOLS < count
                  then Inl (ValueError ''DT_GNU_HASH cardinality is invalid'')
                  else bindE (for_range (count - symbol_offset) word) (\<lambda>chain_values.
                    Inr \<lparr>gn_symbol_count = count, gn_symbol_offset = symbol_offset,
                         gn_bloom_shift = bloom_shift, gn_word_bits = word_size * 8, gn_bloom = bloom,
                         gn_buckets = bucket_values, gn_chains = chain_values\<rparr>))))))))"

section \<open>The hash functions\<close>

definition sysv_hash_step :: "int \<Rightarrow> char \<Rightarrow> int" where
  "sysv_hash_step h c =
     (let v = (push_bit 4 h + int (byte_val c)) AND 0xFFFFFFFF;
          high = v AND 0xF0000000
      in if high \<noteq> 0 then (v XOR drop_bit 24 high) AND NOT high else v)"

definition sysv_hash :: "bytes \<Rightarrow> int" where
  "sysv_hash name = foldl sysv_hash_step 0 name AND 0xFFFFFFFF"

definition gnu_hash_step :: "int \<Rightarrow> char \<Rightarrow> int" where
  "gnu_hash_step h c = (h * 33 + int (byte_val c)) AND 0xFFFFFFFF"

definition gnu_hash :: "bytes \<Rightarrow> int" where
  "gnu_hash name = foldl gnu_hash_step 5381 name"

section \<open>Lookups\<close>

function sysv_chase :: "sysv_table \<Rightarrow> int \<Rightarrow> int list \<Rightarrow> int \<Rightarrow> bool res" where
  "sysv_chase t target visited index =
     (if index = 0 then Inr False
      else if index < 0 \<or> sv_symbol_count t \<le> index \<or> List.member visited index
      then Inl (ValueError ''DT_HASH lookup chain is invalid'')
      else if index = target then Inr True
      else sysv_chase t target (index # visited) (sv_chains t ! nat index))"
  by pat_completeness auto
termination
proof (relation "measure (\<lambda>(t, target, visited, index). card ({0..<sv_symbol_count t} - set visited))", goal_cases)
  case 1
  show ?case by (rule wf_measure)
next
  case (2 t target visited index)
  let ?free = "{0..<sv_symbol_count t} - set visited"
  have "0 \<le> index" "index < sv_symbol_count t" "index \<notin> set visited" using 2(2) by auto
  then have "index \<in> ?free" by simp
  then have "card (?free - {index}) < card ?free" by (intro card_Diff1_less) simp_all
  moreover have "{0..<sv_symbol_count t} - set (index # visited) = ?free - {index}" by auto
  ultimately show ?case unfolding in_measure prod.case by (simp only:)
qed

declare sysv_chase.simps [simp del]

definition sysv_hash_reaches :: "sysv_table \<Rightarrow> string \<Rightarrow> int \<Rightarrow> bool res" where
  "sysv_hash_reaches t name target =
     sysv_chase t target [] (sv_buckets t ! nat (sysv_hash name mod int (length (sv_buckets t))))"

function gnu_chase :: "gnu_table \<Rightarrow> int \<Rightarrow> int \<Rightarrow> int \<Rightarrow> bool res" where
  "gnu_chase t name_hash target index =
     (if gn_symbol_count t \<le> index
      then Inl (ValueError ''DT_GNU_HASH lookup chain escapes dynamic symbols'')
      else
        let chain_hash = gn_chains t ! nat (index - gn_symbol_offset t) in
        if (chain_hash OR 1) = (name_hash OR 1) \<and> index = target then Inr True
        else if chain_hash AND 1 \<noteq> 0 then Inr False
        else gnu_chase t name_hash target (index + 1))"
  by pat_completeness auto
termination
  by (relation "measure (\<lambda>(t, h, target, index). nat (gn_symbol_count t - index))") auto

declare gnu_chase.simps [simp del]

definition bloom_passes :: "gnu_table \<Rightarrow> int \<Rightarrow> bool" where
  "bloom_passes t name_hash =
     (let word = gn_bloom t ! nat (name_hash div gn_word_bits t mod int (length (gn_bloom t)));
          mask = push_bit (nat (name_hash mod gn_word_bits t)) 1
                 OR push_bit (nat (drop_bit (nat (gn_bloom_shift t)) name_hash mod gn_word_bits t)) 1
      in word AND mask = mask)"

definition gnu_hash_reaches :: "gnu_table \<Rightarrow> string \<Rightarrow> int \<Rightarrow> bool res" where
  "gnu_hash_reaches t name target =
     (if target < gn_symbol_offset t then Inr False
      else
        let name_hash = gnu_hash name in
        if \<not> bloom_passes t name_hash then Inr False
        else
          let index = gn_buckets t ! nat (name_hash mod int (length (gn_buckets t))) in
          if index < gn_symbol_offset t then Inr False
          else gnu_chase t name_hash target index)"

end
