(* ===== verification/Elf_Inspect.thy ===== *)
theory Elf_Inspect
  imports Elf_Hash Py_Json
begin

unbundle bit_operations_syntax

text \<open>
  \<open>_inspect_reader\<close> of \<open>scripts/verify_artifacts.py\<close> in its stages: identification, header, program
  table, dynamic table, hash tables, section table, symbols and the required exports.
\<close>

definition REQUIRED_EXPORTS :: "string list" where
  "REQUIRED_EXPORTS = [''StartCore'', ''StopCore'']"

text \<open>\<open>ABI_LAYOUT\<close>: ELF class, machine and machine name per ABI.\<close>

definition ABI_LAYOUT :: "(string \<times> int \<times> int \<times> string) list" where
  "ABI_LAYOUT = [(''arm64-v8a'', 2, 183, ''EM_AARCH64'')]"

abbreviation MAX_PROGRAM_HEADERS :: int where "MAX_PROGRAM_HEADERS \<equiv> 1024"
abbreviation MAX_DYNAMIC_ENTRIES :: int where "MAX_DYNAMIC_ENTRIES \<equiv> 65536"
abbreviation ET_DYN :: int where "ET_DYN \<equiv> 3"
abbreviation PT_LOAD :: int where "PT_LOAD \<equiv> 1"
abbreviation PT_DYNAMIC :: int where "PT_DYNAMIC \<equiv> 2"
abbreviation PF_X :: int where "PF_X \<equiv> 1"
abbreviation DT_NULL :: int where "DT_NULL \<equiv> 0"
abbreviation DT_HASH :: int where "DT_HASH \<equiv> 4"
abbreviation DT_STRTAB :: int where "DT_STRTAB \<equiv> 5"
abbreviation DT_SYMTAB :: int where "DT_SYMTAB \<equiv> 6"
abbreviation DT_STRSZ :: int where "DT_STRSZ \<equiv> 10"
abbreviation DT_SYMENT :: int where "DT_SYMENT \<equiv> 11"
abbreviation DT_GNU_HASH :: int where "DT_GNU_HASH \<equiv> 0x6FFFFEF5"
abbreviation SHT_NULL :: int where "SHT_NULL \<equiv> 0"
abbreviation SHT_STRTAB :: int where "SHT_STRTAB \<equiv> 3"
abbreviation SHT_NOBITS :: int where "SHT_NOBITS \<equiv> 8"
abbreviation SHT_DYNSYM :: int where "SHT_DYNSYM \<equiv> 11"
abbreviation SHF_ALLOC :: int where "SHF_ALLOC \<equiv> 2"
abbreviation SHN_UNDEF :: int where "SHN_UNDEF \<equiv> 0"
abbreviation SHN_LORESERVE :: int where "SHN_LORESERVE \<equiv> 0xFF00"
abbreviation STB_LOCAL :: int where "STB_LOCAL \<equiv> 0"
abbreviation STB_GLOBAL :: int where "STB_GLOBAL \<equiv> 1"
abbreviation STT_FUNC :: int where "STT_FUNC \<equiv> 2"
abbreviation STV_DEFAULT :: int where "STV_DEFAULT \<equiv> 0"
abbreviation STV_PROTECTED :: int where "STV_PROTECTED \<equiv> 3"

abbreviation invalid :: "string \<Rightarrow> 'a res" where "invalid m \<equiv> Inl (ValueError m)"

record elf_info =
  ei_class :: int
  ei_machine :: int
  ei_machine_name :: string
  ei_exports :: "string list"
  ei_load_alignments :: "int list"
  ei_size :: int
  ei_sha256 :: string

section \<open>Identification and header\<close>

definition byte_at :: "bytes \<Rightarrow> nat \<Rightarrow> int" where
  "byte_at b i = int (byte_val (b ! i))"

definition elf_ident :: "elf_reader \<Rightarrow> int res" where
  "elf_ident r =
     bindE (read_at r 0 16 ''ELF identification'') (\<lambda>ident.
       let elf_class = byte_at ident 4 in
       if take 4 ident \<noteq> CHR 0x7F # ''ELF'' then invalid ''not an ELF file''
       else if elf_class \<noteq> 1 \<and> elf_class \<noteq> 2
       then invalid (''unsupported ELF class '' @ dec_int elf_class)
       else if byte_at ident 5 \<noteq> 1 \<or> byte_at ident 6 \<noteq> 1
               \<or> (byte_at ident 7 \<noteq> 0 \<and> byte_at ident 7 \<noteq> 3) \<or> byte_at ident 8 \<noteq> 0
       then invalid ''ELF identification is not Android-compatible''
       else if list_ex (\<lambda>c. byte_val c \<noteq> 0) (drop 9 ident)
       then invalid ''ELF identification padding is nonzero''
       else Inr elf_class)"

definition header_fmt :: "int \<Rightarrow> field list" where
  "header_fmt cls =
     (if cls = 2 then [Raw16, U16, U16, U32, U64, U64, U64, U32, U16, U16, U16, U16, U16, U16]
      else [Raw16, U16, U16, U32, U32, U32, U32, U32, U16, U16, U16, U16, U16, U16])"

definition program_fmt :: "int \<Rightarrow> field list" where
  "program_fmt cls =
     (if cls = 2 then [U32, U32, U64, U64, U64, U64, U64, U64]
      else [U32, U32, U32, U32, U32, U32, U32, U32])"

definition dynamic_fmt :: "int \<Rightarrow> field list" where
  "dynamic_fmt cls = (if cls = 2 then [S64, U64] else [S32, U32])"

definition symbol_fmt :: "int \<Rightarrow> field list" where
  "symbol_fmt cls =
     (if cls = 2 then [U32, U8, U8, U16, U64, U64] else [U32, U32, U32, U8, U8, U16])"

definition section_fmt :: "int \<Rightarrow> field list" where
  "section_fmt cls =
     (if cls = 2 then [U32, U32, U64, U64, U64, U64, U32, U32, U64, U64]
      else [U32, U32, U32, U32, U32, U32, U32, U32, U32, U32])"

record elf_header =
  eh_machine :: int
  eh_program_offset :: int
  eh_section_offset :: int
  eh_program_size :: int
  eh_program_count :: int
  eh_section_size :: int
  eh_section_count :: int
  eh_section_name_index :: int

definition elf_header :: "elf_reader \<Rightarrow> int \<Rightarrow> elf_header res" where
  "elf_header r cls =
     bindE (unpack r (header_fmt cls) 0 ''ELF header'') (\<lambda>vs.
       if vs ! 1 \<noteq> ET_DYN then invalid ''ELF must use ET_DYN''
       else if vs ! 3 \<noteq> 1 \<or> vs ! 8 \<noteq> int (calcsize (header_fmt cls))
       then invalid ''invalid ELF header version or size''
       else if vs ! 9 \<noteq> int (calcsize (program_fmt cls)) \<or> vs ! 10 = 0 \<or> MAX_PROGRAM_HEADERS < vs ! 10
       then invalid ''invalid ELF program table''
       else bindE (checked_end (vs ! 5) (vs ! 9 * vs ! 10) (rd_size r) ''program table'') (\<lambda>_.
         Inr \<lparr>eh_machine = vs ! 2, eh_program_offset = vs ! 5, eh_section_offset = vs ! 6,
              eh_program_size = vs ! 9, eh_program_count = vs ! 10, eh_section_size = vs ! 11,
              eh_section_count = vs ! 12, eh_section_name_index = vs ! 13\<rparr>))"

section \<open>Program table\<close>

text \<open>Type, flags, offset, address, file size, memory size and alignment of a program header.\<close>

definition program_fields :: "int \<Rightarrow> int list \<Rightarrow> int \<times> load_segment" where
  "program_fields cls vs =
     (if cls = 2
      then (vs ! 0, \<lparr>seg_offset = vs ! 2, seg_address = vs ! 3, seg_file_size = vs ! 5,
                     seg_memory_size = vs ! 6, seg_flags = vs ! 1, seg_alignment = vs ! 7\<rparr>)
      else (vs ! 0, \<lparr>seg_offset = vs ! 1, seg_address = vs ! 2, seg_file_size = vs ! 4,
                     seg_memory_size = vs ! 5, seg_flags = vs ! 6, seg_alignment = vs ! 7\<rparr>))"

type_synonym programs = "load_segment list \<times> (int \<times> int \<times> int) list"

definition program_step :: "elf_reader \<Rightarrow> int \<Rightarrow> elf_header \<Rightarrow> programs \<Rightarrow> nat \<Rightarrow> programs res" where
  "program_step r cls h acc index =
     (case acc of (loads, dynamics) \<Rightarrow>
       bindE (unpack r (program_fmt cls) (eh_program_offset h + int index * eh_program_size h)
                ''program header'') (\<lambda>vs.
         case program_fields cls vs of (p_type, seg) \<Rightarrow>
           if seg_memory_size seg < seg_file_size seg
           then invalid ''program segment file size exceeds memory size''
           else bindE (checked_end (seg_offset seg) (seg_file_size seg) (rd_size r) ''program segment'') (\<lambda>_.
             if p_type = PT_LOAD then
               (if seg_alignment seg \<le> 0 \<or> seg_alignment seg AND (seg_alignment seg - 1) \<noteq> 0
                then invalid ''invalid PT_LOAD alignment''
                else if seg_offset seg mod seg_alignment seg \<noteq> seg_address seg mod seg_alignment seg
                then invalid ''incongruent PT_LOAD segment''
                else Inr (loads @ [seg], dynamics))
             else if p_type = PT_DYNAMIC
             then Inr (loads, dynamics @ [(seg_offset seg, seg_address seg, seg_file_size seg)])
             else Inr (loads, dynamics))))"

definition elf_programs :: "elf_reader \<Rightarrow> int \<Rightarrow> elf_header \<Rightarrow> (load_segment list \<times> int \<times> int \<times> int) res" where
  "elf_programs r cls h =
     bindE (foldE (program_step r cls h) ([], []) [0..<nat (eh_program_count h)]) (\<lambda>(loads, dynamics).
       if loads = [] then invalid ''ELF has no PT_LOAD segments''
       else if length dynamics \<noteq> 1 then invalid ''ELF must contain exactly one PT_DYNAMIC segment''
       else Inr (loads, hd dynamics))"

section \<open>Dynamic table\<close>

text \<open>The entries before \<open>DT_NULL\<close> in order; the dictionary of the code groups them by tag.\<close>

type_synonym dyn_state = "bool \<times> (int \<times> int) list"

definition dynamic_step :: "elf_reader \<Rightarrow> int \<Rightarrow> int \<Rightarrow> dyn_state \<Rightarrow> nat \<Rightarrow> dyn_state res" where
  "dynamic_step r cls dynamic_offset acc index =
     (case acc of (null_seen, entries) \<Rightarrow>
       bindE (unpack r (dynamic_fmt cls) (dynamic_offset + int index * int (calcsize (dynamic_fmt cls)))
                ''PT_DYNAMIC entry'') (\<lambda>vs.
         if null_seen then
           (if vs ! 0 \<noteq> DT_NULL \<or> vs ! 1 \<noteq> 0
            then invalid ''nonzero PT_DYNAMIC entry follows DT_NULL'' else Inr acc)
         else if vs ! 0 = DT_NULL then Inr (True, entries)
         else Inr (False, entries @ [(vs ! 0, vs ! 1)])))"

definition tag_values :: "(int \<times> int) list \<Rightarrow> int \<Rightarrow> int list" where
  "tag_values entries tag = map snd (filter (\<lambda>e. fst e = tag) entries)"

definition critical_tags :: "int list" where
  "critical_tags = [DT_SYMTAB, DT_STRTAB, DT_STRSZ, DT_SYMENT, DT_HASH, DT_GNU_HASH]"

definition required_tags :: "int list" where
  "required_tags = [DT_SYMTAB, DT_STRTAB, DT_STRSZ, DT_SYMENT]"

definition elf_dynamic ::
    "elf_reader \<Rightarrow> int \<Rightarrow> load_segment list \<Rightarrow> int \<Rightarrow> int \<Rightarrow> int \<Rightarrow> (int \<times> int) list res" where
  "elf_dynamic r cls loads dynamic_offset dynamic_address dynamic_size =
     (let native = int (calcsize (dynamic_fmt cls)) in
      if dynamic_size < native \<or> dynamic_size mod native \<noteq> 0 \<or> MAX_DYNAMIC_ENTRIES < dynamic_size div native
      then invalid ''PT_DYNAMIC has an invalid size''
      else bindE (mapped_offset loads dynamic_address dynamic_size ''PT_DYNAMIC'') (\<lambda>mapped.
        if mapped \<noteq> dynamic_offset then invalid ''PT_DYNAMIC file and virtual mappings disagree''
        else bindE (foldE (dynamic_step r cls dynamic_offset) (False, []) [0..<nat (dynamic_size div native)])
          (\<lambda>(null_seen, entries).
            if \<not> null_seen then invalid ''PT_DYNAMIC is not terminated''
            else if list_ex (\<lambda>tag. 1 < length (tag_values entries tag)) critical_tags
            then invalid ''duplicate critical dynamic tag''
            else if list_ex (\<lambda>tag. length (tag_values entries tag) \<noteq> 1) required_tags
            then invalid ''required dynamic tag is missing''
            else if tag_values entries DT_HASH = [] \<and> tag_values entries DT_GNU_HASH = []
            then invalid ''ELF has no loader hash table''
            else Inr entries)))"

section \<open>String and symbol table locations\<close>

record elf_tables =
  tb_string_address :: int
  tb_string_offset :: int
  tb_string_size :: int
  tb_symbol_address :: int
  tb_symbol_offset :: int
  tb_symbol_count :: int
  tb_sysv :: "sysv_table option"
  tb_gnu :: "gnu_table option"

definition optional_table :: "int list \<Rightarrow> (int \<Rightarrow> 'a res) \<Rightarrow> 'a option res" where
  "optional_table addresses read_table =
     (case addresses of [] \<Rightarrow> Inr None
      | address # _ \<Rightarrow> bindE (read_table address) (\<lambda>t. Inr (Some t)))"

definition hash_counts :: "sysv_table option \<Rightarrow> gnu_table option \<Rightarrow> int list" where
  "hash_counts sysv gnu =
     (case sysv of None \<Rightarrow> [] | Some t \<Rightarrow> [sv_symbol_count t])
     @ (case gnu of None \<Rightarrow> [] | Some t \<Rightarrow> [gn_symbol_count t])"

definition elf_tables :: "elf_reader \<Rightarrow> int \<Rightarrow> load_segment list \<Rightarrow> (int \<times> int) list \<Rightarrow> elf_tables res" where
  "elf_tables r cls loads entries =
     (let symbol_address = hd (tag_values entries DT_SYMTAB);
          string_address = hd (tag_values entries DT_STRTAB);
          string_size = hd (tag_values entries DT_STRSZ)
      in if hd (tag_values entries DT_SYMENT) \<noteq> int (calcsize (symbol_fmt cls))
      then invalid ''DT_SYMENT does not match the ELF class''
      else if string_size \<le> 0 then invalid ''DT_STRSZ is invalid''
      else bindE (mapped_offset loads string_address string_size ''DT_STRTAB'') (\<lambda>string_offset.
        bindE (read_at r string_offset 1 ''DT_STRTAB'') (\<lambda>first.
          if first \<noteq> [CHR 0x00] then invalid ''DT_STRTAB does not start with NUL''
          else
            bindE (optional_table (tag_values entries DT_HASH) (sysv_hash_symbol_count r loads)) (\<lambda>sysv.
            bindE (optional_table (tag_values entries DT_GNU_HASH)
                     (\<lambda>address. gnu_hash_symbol_count r loads address cls)) (\<lambda>gnu.
              case remdups (hash_counts sysv gnu) of
                [symbol_count] \<Rightarrow>
                  if symbol_count \<le> 0 \<or> MAX_DYNAMIC_SYMBOLS < symbol_count
                  then invalid ''dynamic symbol cardinality is invalid''
                  else bindE (mapped_offset loads symbol_address
                                (symbol_count * int (calcsize (symbol_fmt cls))) ''DT_SYMTAB'') (\<lambda>symbol_offset.
                    Inr \<lparr>tb_string_address = string_address, tb_string_offset = string_offset,
                         tb_string_size = string_size, tb_symbol_address = symbol_address,
                         tb_symbol_offset = symbol_offset, tb_symbol_count = symbol_count,
                         tb_sysv = sysv, tb_gnu = gnu\<rparr>)
              | _ \<Rightarrow> invalid ''loader hash tables disagree on symbol cardinality'')))))"

section \<open>Sections\<close>

record elf_section =
  sc_type :: int
  sc_flags :: int
  sc_address :: int
  sc_offset :: int
  sc_size :: int
  sc_link :: int
  sc_entry_size :: int

definition parse_section :: "elf_reader \<Rightarrow> int \<Rightarrow> int \<Rightarrow> int \<Rightarrow> int \<Rightarrow> elf_section res" where
  "parse_section r cls section_offset section_size index =
     bindE (unpack r (section_fmt cls) (section_offset + index * section_size) ''section header'') (\<lambda>vs.
       let s = \<lparr>sc_type = vs ! 1, sc_flags = vs ! 2, sc_address = vs ! 3, sc_offset = vs ! 4,
                sc_size = vs ! 5, sc_link = vs ! 6, sc_entry_size = vs ! 9\<rparr>
       in bindE (if sc_type s \<noteq> SHT_NOBITS
                 then checked_end (sc_offset s) (sc_size s) (rd_size r) ''section'' else Inr 0) (\<lambda>_. Inr s))"

definition parse_sections :: "elf_reader \<Rightarrow> int \<Rightarrow> elf_header \<Rightarrow> elf_section list res" where
  "parse_sections r cls h =
     (let native = int (calcsize (section_fmt cls)) in
      if eh_section_offset h = 0 then
        (if eh_section_count h \<noteq> 0 \<or> eh_section_name_index h \<noteq> 0
            \<or> (eh_section_size h \<noteq> 0 \<and> eh_section_size h \<noteq> native)
         then invalid ''sectionless ELF header is inconsistent'' else Inr [])
      else if eh_section_count h = 0 \<or> eh_section_size h \<noteq> native then invalid ''invalid ELF section table''
      else bindE (checked_end (eh_section_offset h) (eh_section_size h * eh_section_count h) (rd_size r)
                    ''section table'') (\<lambda>_.
        if eh_section_name_index h \<noteq> 0 \<and> eh_section_count h \<le> eh_section_name_index h
        then invalid ''invalid section-name table index''
        else bindE (for_range (eh_section_count h)
                      (parse_section r cls (eh_section_offset h) (eh_section_size h))) (\<lambda>sections.
          if sc_type (hd sections) \<noteq> SHT_NULL then invalid ''ELF section zero is not SHT_NULL''
          else Inr sections)))"

definition cross_check_dynamic_sections ::
    "elf_section list \<Rightarrow> load_segment list \<Rightarrow> int \<Rightarrow> elf_tables \<Rightarrow> unit res" where
  "cross_check_dynamic_sections sections segments symbol_size t =
     (case filter (\<lambda>s. sc_type s = SHT_DYNSYM) sections of
        [] \<Rightarrow> Inr ()
      | [symbols] \<Rightarrow>
          if sc_flags symbols AND SHF_ALLOC = 0
             \<or> sc_address symbols \<noteq> tb_symbol_address t
             \<or> sc_offset symbols \<noteq> tb_symbol_offset t
             \<or> sc_size symbols \<noteq> tb_symbol_count t * symbol_size
             \<or> sc_entry_size symbols \<noteq> symbol_size
             \<or> int (length sections) \<le> sc_link symbols
          then invalid ''SHT_DYNSYM does not match PT_DYNAMIC''
          else
            let strings = sections ! nat (sc_link symbols) in
            if sc_type strings \<noteq> SHT_STRTAB
               \<or> sc_flags strings AND SHF_ALLOC = 0
               \<or> sc_address strings \<noteq> tb_string_address t
               \<or> sc_offset strings \<noteq> tb_string_offset t
               \<or> sc_size strings \<noteq> tb_string_size t
            then invalid ''SHT_DYNSYM string table does not match PT_DYNAMIC''
            else
              bindE (mapped_offset segments (sc_address symbols) (sc_size symbols) ''SHT_DYNSYM'') (\<lambda>m.
              if m \<noteq> sc_offset symbols then invalid ''SHT_DYNSYM is not loader-mapped consistently''
              else bindE (mapped_offset segments (sc_address strings) (sc_size strings) ''SHT_STRTAB'') (\<lambda>n.
                if n \<noteq> sc_offset strings then invalid ''SHT_STRTAB is not loader-mapped consistently''
                else Inr ()))
      | _ \<Rightarrow> invalid ''ELF must not contain multiple SHT_DYNSYM sections'')"

section \<open>Symbols\<close>

record elf_symbol =
  sy_index :: int
  sy_binding :: int
  sy_type :: int
  sy_visibility :: int
  sy_section :: int
  sy_value :: int

text \<open>Name offset, info, other, section index and value of a symbol, as its class orders them.\<close>

definition symbol_fields :: "int \<Rightarrow> int list \<Rightarrow> int \<times> int \<times> int \<times> int \<times> int" where
  "symbol_fields cls vs =
     (if cls = 2 then (vs ! 0, vs ! 1, vs ! 2, vs ! 3, vs ! 4)
      else (vs ! 0, vs ! 3, vs ! 4, vs ! 5, vs ! 1))"

text \<open>
  The state of the loop: the occurrences of the required names, in the order of the table, and the
  names of the externally visible symbols.
\<close>

type_synonym symbol_state = "(string \<times> elf_symbol) list \<times> string list"

definition read_symbol :: "elf_reader \<Rightarrow> int \<Rightarrow> elf_tables \<Rightarrow> nat \<Rightarrow> int list res" where
  "read_symbol r cls t index =
     unpack r (symbol_fmt cls) (tb_symbol_offset t + int index * int (calcsize (symbol_fmt cls))) ''dynamic symbol''"

text \<open>The name and the fields of a symbol other than the null entry.\<close>

definition symbol_at :: "elf_reader \<Rightarrow> int \<Rightarrow> elf_tables \<Rightarrow> nat \<Rightarrow> (string \<times> elf_symbol) res" where
  "symbol_at r cls t index =
     bindE (read_symbol r cls t index) (\<lambda>vs.
       case symbol_fields cls vs of (name_offset, info, other, section_index, v) \<Rightarrow>
         if other AND NOT 3 \<noteq> 0 then invalid ''dynamic symbol st_other contains reserved bits''
         else bindE (read_c_string r (tb_string_offset t) (tb_string_size t) name_offset) (\<lambda>name.
           Inr (name, \<lparr>sy_index = int index, sy_binding = drop_bit 4 info, sy_type = info AND 15,
                       sy_visibility = other AND 3, sy_section = section_index, sy_value = v\<rparr>)))"

definition externally_visible :: "elf_symbol \<Rightarrow> bool" where
  "externally_visible s \<longleftrightarrow>
     sy_binding s \<noteq> STB_LOCAL
     \<and> (sy_visibility s = STV_DEFAULT \<or> sy_visibility s = STV_PROTECTED)
     \<and> sy_section s \<noteq> SHN_UNDEF"

definition symbol_step :: "elf_reader \<Rightarrow> int \<Rightarrow> elf_tables \<Rightarrow> symbol_state \<Rightarrow> nat \<Rightarrow> symbol_state res" where
  "symbol_step r cls t acc index =
     (case acc of (required, exports) \<Rightarrow>
       if index = 0 then
         bindE (read_symbol r cls t 0) (\<lambda>vs.
           if list_ex (\<lambda>v. v \<noteq> 0) vs then invalid ''dynamic symbol table has no null entry'' else Inr acc)
       else
         bindE (symbol_at r cls t index) (\<lambda>(name, symbol).
           let required' = (if List.member REQUIRED_EXPORTS name
                            then required @ [(name, symbol)] else required)
           in if externally_visible symbol
              then (if \<not> List.member REQUIRED_EXPORTS name
                    then invalid (''unexpected externally visible symbol: '' @ name)
                    else Inr (required', List.insert name exports))
              else Inr (required', exports)))"

definition elf_symbols :: "elf_reader \<Rightarrow> int \<Rightarrow> elf_tables \<Rightarrow> symbol_state res" where
  "elf_symbols r cls t = foldE (symbol_step r cls t) ([], []) [0..<nat (tb_symbol_count t)]"

definition executable_at :: "load_segment list \<Rightarrow> int \<Rightarrow> bool" where
  "executable_at loads v \<longleftrightarrow>
     list_ex (\<lambda>s. seg_flags s AND PF_X \<noteq> 0 \<and> seg_address s \<le> v \<and> v < seg_address s + seg_file_size s) loads"

text \<open>\<open>if table is not None and not reaches(table, name, index): raise\<close>\<close>

definition require_reachable ::
    "('t \<Rightarrow> string \<Rightarrow> int \<Rightarrow> bool res) \<Rightarrow> 't option \<Rightarrow> string \<Rightarrow> int \<Rightarrow> string \<Rightarrow> unit res" where
  "require_reachable reaches table name index label =
     (case table of
        None \<Rightarrow> Inr ()
      | Some t \<Rightarrow> bindE (reaches t name index) (\<lambda>found.
          if \<not> found then invalid (name @ '': dynamic symbol is not reachable through '' @ label)
          else Inr ()))"

definition check_required :: "load_segment list \<Rightarrow> elf_tables \<Rightarrow> (string \<times> elf_symbol) list \<Rightarrow> unit \<Rightarrow> string \<Rightarrow> unit res" where
  "check_required loads t required u name =
     (case map snd (filter (\<lambda>e. fst e = name) required) of
        [s] \<Rightarrow>
          if sy_binding s \<noteq> STB_GLOBAL then invalid (name @ '': dynamic symbol must use STB_GLOBAL'')
          else if sy_visibility s \<noteq> STV_DEFAULT
          then invalid (name @ '': dynamic symbol must use raw STV_DEFAULT'')
          else if sy_type s \<noteq> STT_FUNC then invalid (name @ '': dynamic symbol must use STT_FUNC'')
          else if sy_section s = SHN_UNDEF \<or> SHN_LORESERVE \<le> sy_section s
          then invalid (name @ '': dynamic symbol is not regularly defined'')
          else if \<not> executable_at loads (sy_value s)
          then invalid (name @ '': dynamic function is not in file-backed executable PT_LOAD'')
          else bindE (require_reachable sysv_hash_reaches (tb_sysv t) name (sy_index s) ''DT_HASH'') (\<lambda>_.
               require_reachable gnu_hash_reaches (tb_gnu t) name (sy_index s) ''DT_GNU_HASH'')
      | _ \<Rightarrow> invalid (name @ '': expected exactly one dynamic symbol''))"

section \<open>The inspection\<close>

definition machine_name_of :: "int \<Rightarrow> string" where
  "machine_name_of machine =
     (case filter (\<lambda>(_, _, expected, _). expected = machine) ABI_LAYOUT of
        [] \<Rightarrow> ''EM_'' @ dec_int machine
      | (_, _, _, name) # _ \<Rightarrow> name)"

definition inspect_reader :: "elf_reader \<Rightarrow> string \<Rightarrow> elf_info res" where
  "inspect_reader r digest =
     bindE (elf_ident r) (\<lambda>cls.
     bindE (elf_header r cls) (\<lambda>h.
     bindE (elf_programs r cls h) (\<lambda>(loads, dynamic_offset, dynamic_address, dynamic_size).
     bindE (elf_dynamic r cls loads dynamic_offset dynamic_address dynamic_size) (\<lambda>entries.
     bindE (elf_tables r cls loads entries) (\<lambda>t.
     bindE (parse_sections r cls h) (\<lambda>sections.
     bindE (cross_check_dynamic_sections sections loads (int (calcsize (symbol_fmt cls))) t) (\<lambda>_.
     bindE (elf_symbols r cls t) (\<lambda>(required, exports).
     bindE (foldE (check_required loads t required) () REQUIRED_EXPORTS) (\<lambda>_.
       if \<not> same_elems exports REQUIRED_EXPORTS
       then invalid ''required dynamic export set is incomplete''
       else Inr \<lparr>ei_class = cls, ei_machine = eh_machine h, ei_machine_name = machine_name_of (eh_machine h),
                 ei_exports = exports, ei_load_alignments = map seg_alignment loads,
                 ei_size = rd_size r, ei_sha256 = digest\<rparr>)))))))))"

text \<open>The inspection of a file with fixed contents: digest first, then the structure.\<close>

definition inspect_bytes :: "bytes \<Rightarrow> elf_info res" where
  "inspect_bytes content =
     bindE (digest_descriptor (file_reader content)) (\<lambda>digest. inspect_reader (file_reader content) digest)"

end
