(* ===== verification/Elf_Hash_Props.thy ===== *)
theory Elf_Hash_Props
  imports Elf_Hash
begin

text \<open>
  Properties of the hash tables: the memo table of the chain walk computes the terminals of the
  chains, the hash functions are those of 32-bit words, and a symbol a lookup reaches is a symbol
  of the table (the contract \<open>symbol_lookup\<close>, which both kinds of table meet).
\<close>

unbundle bit_operations_syntax

section \<open>The walk of a hash chain\<close>

text \<open>The terminal of a chain, without the memo table.\<close>

function chain_end :: "(int \<Rightarrow> int res) \<Rightarrow> int \<Rightarrow> int \<Rightarrow> int \<Rightarrow> int res" where
  "chain_end word symbol_offset maximum_chains index =
     (if index - symbol_offset < 0 \<or> maximum_chains \<le> index - symbol_offset
      then Inl (ValueError ''DT_GNU_HASH chain escapes PT_LOAD'')
      else bindE (word (index - symbol_offset)) (\<lambda>v.
        if v AND 1 \<noteq> 0 then Inr index
        else if MAX_DYNAMIC_SYMBOLS < index + 1
        then Inl (ValueError ''DT_GNU_HASH chain exceeds symbol limit'')
        else chain_end word symbol_offset maximum_chains (index + 1)))"
  by pat_completeness auto
termination
  by (relation "measure (\<lambda>(word, so, mc, index). nat (MAX_DYNAMIC_SYMBOLS + 1 - index))") auto

declare chain_end.simps [simp del]

text \<open>Every entry of the memo table is the terminal of its chain.\<close>

definition memo_ok :: "(int \<Rightarrow> int res) \<Rightarrow> int \<Rightarrow> int \<Rightarrow> (int \<times> int) list \<Rightarrow> bool" where
  "memo_ok word so mc ts \<longleftrightarrow> (\<forall>i t. map_of ts i = Some t \<longrightarrow> chain_end word so mc i = Inr t)"

lemma terminal_walk_Inr:
  assumes "memo_ok word so mc ts" "terminal_walk word so mc ts path index = Inr (path', t)"
  shows "chain_end word so mc index = Inr t
    \<and> (\<exists>new. path' = path @ new \<and> (\<forall>i \<in> set new. chain_end word so mc i = Inr t))"
  using assms
proof (induction word so mc ts path index rule: terminal_walk.induct)
  case (1 word so mc ts path index)
  show ?case
  proof (cases "map_of ts index")
    case (Some u)
    then show ?thesis using 1(2,3) by (auto simp: terminal_walk.simps memo_ok_def)
  next
    case None
    with 1(3) obtain v where v: "\<not> index - so < 0" "\<not> mc \<le> index - so" "word (index - so) = Inr v"
      by (subst (asm) terminal_walk.simps) (auto simp: Let_def split: if_split_asm sum.split_asm)
    show ?thesis
    proof (cases "v AND 1 \<noteq> 0")
      case True
      with 1(3) None v have "path' = path @ [index]" "t = index"
        by (subst (asm) terminal_walk.simps; simp)+
      moreover have "chain_end word so mc index = Inr index"
        using v True by (subst chain_end.simps) simp
      ultimately show ?thesis by auto
    next
      case False
      with 1(3) None v have m: "\<not> MAX_DYNAMIC_SYMBOLS < index + 1"
        and w: "terminal_walk word so mc ts (path @ [index]) (index + 1) = Inr (path', t)"
        by (subst (asm) terminal_walk.simps; simp split: if_split_asm)+
      have IH: "chain_end word so mc (index + 1) = Inr t \<and>
          (\<exists>new. path' = (path @ [index]) @ new \<and> (\<forall>i \<in> set new. chain_end word so mc i = Inr t))"
        using 1(1) [OF None refl _ v(3) False m 1(2) w] v(1,2) by blast
      then have "chain_end word so mc index = Inr t"
        using v False m by (subst chain_end.simps) simp
      with IH show ?thesis by auto
    qed
  qed
qed

lemma terminal_walk_Inl:
  assumes "memo_ok word so mc ts" "terminal_walk word so mc ts path index = Inl e"
  shows "chain_end word so mc index = Inl e"
  using assms
proof (induction word so mc ts path index rule: terminal_walk.induct)
  case (1 word so mc ts path index)
  then have None: "map_of ts index = None"
    by (cases "map_of ts index") (auto simp: terminal_walk.simps)
  show ?case
  proof (cases "index - so < 0 \<or> mc \<le> index - so")
    case True
    then show ?thesis using 1(3) None by (subst (asm) terminal_walk.simps, subst chain_end.simps) simp
  next
    case False
    show ?thesis
    proof (cases "word (index - so)")
      case (Inl e')
      then show ?thesis using 1(3) None False
        by (subst (asm) terminal_walk.simps, subst chain_end.simps) simp
    next
      case (Inr v)
      show ?thesis
      proof (cases "v AND 1 \<noteq> 0 \<or> MAX_DYNAMIC_SYMBOLS < index + 1")
        case True
        then show ?thesis using 1(3) None False Inr
          by (subst (asm) terminal_walk.simps, subst chain_end.simps) (auto split: if_split_asm)
      next
        case v: False
        then have "terminal_walk word so mc ts (path @ [index]) (index + 1) = Inl e"
          using 1(3) None False Inr by (subst (asm) terminal_walk.simps) (simp split: if_split_asm)
        then have "chain_end word so mc (index + 1) = Inl e"
          using 1(1) [OF None refl _ Inr _ _ 1(2)] False v by blast
        then show ?thesis using False Inr v by (subst chain_end.simps) simp
      qed
    qed
  qed
qed

lemma terminal_correct:
  assumes "memo_ok word so mc ts"
  shows "(case terminal word so mc ts i of
       Inl e \<Rightarrow> chain_end word so mc i = Inl e
     | Inr (ts', t) \<Rightarrow> chain_end word so mc i = Inr t \<and> memo_ok word so mc ts')"
proof (cases "terminal_walk word so mc ts [] i")
  case (Inl e)
  then show ?thesis using terminal_walk_Inl [OF assms] by (simp add: terminal_def)
next
  case (Inr q)
  obtain path t where q: "q = (path, t)" by (cases q)
  with terminal_walk_Inr [OF assms Inr [unfolded q]]
  have c: "chain_end word so mc i = Inr t" and p: "\<forall>i \<in> set path. chain_end word so mc i = Inr t"
    by auto
  have "memo_ok word so mc (map (\<lambda>visited. (visited, t)) path @ ts)"
    unfolding memo_ok_def
  proof (intro allI impI)
    fix j u assume "map_of (map (\<lambda>visited. (visited, t)) path @ ts) j = Some u"
    then have "(j \<in> set path \<and> u = t) \<or> map_of ts j = Some u"
      by (auto simp: map_add_Some_iff dest: map_of_SomeD)
    with p assms show "chain_end word so mc j = Inr u" by (auto simp: memo_ok_def)
  qed
  with c Inr q show ?thesis by (simp add: terminal_def)
qed

text \<open>The loop over the buckets without the memo table.\<close>

definition bucket_step_plain :: "(int \<Rightarrow> int res) \<Rightarrow> int \<Rightarrow> int \<Rightarrow> int \<Rightarrow> int \<Rightarrow> int res" where
  "bucket_step_plain word so mc m v =
     (if v = 0 then Inr m
      else if v < so \<or> MAX_DYNAMIC_SYMBOLS < v then Inl (ValueError ''DT_GNU_HASH bucket is invalid'')
      else bindE (chain_end word so mc v) (\<lambda>t. Inr (max m t)))"

lemma bucket_fold_plain:
  assumes "memo_ok word so mc ts"
  shows "bindE (foldE (bucket_step word so mc) (ts, m) vs) (\<lambda>(ts', m'). Inr m')
    = foldE (bucket_step_plain word so mc) m vs"
  using assms
proof (induction vs arbitrary: ts m)
  case (Cons v vs)
  show ?case
  proof (cases "v = 0 \<or> v < so \<or> MAX_DYNAMIC_SYMBOLS < v")
    case True
    then show ?thesis using Cons by (auto simp: bucket_step_def bucket_step_plain_def)
  next
    case False
    show ?thesis
    proof (cases "terminal word so mc ts v")
      case (Inl e)
      then show ?thesis using terminal_correct [OF Cons.prems, of v] False
        by (simp add: bucket_step_def bucket_step_plain_def)
    next
      case (Inr q)
      then obtain ts' t where q: "terminal word so mc ts v = Inr (ts', t)" by (cases q) auto
      with terminal_correct [OF Cons.prems, of v] have "chain_end word so mc v = Inr t" "memo_ok word so mc ts'"
        by auto
      with q False Cons.IH [of ts' "max m t"] show ?thesis
        by (simp add: bucket_step_def bucket_step_plain_def)
    qed
  qed
qed simp

lemma chain_end_Inr:
  "chain_end word so mc i = Inr t \<Longrightarrow>
     so \<le> i \<and> i \<le> t \<and> t < so + mc \<and> t \<le> max i MAX_DYNAMIC_SYMBOLS
     \<and> (\<exists>v. word (t - so) = Inr v \<and> v AND 1 \<noteq> 0)
     \<and> (\<forall>j. i \<le> j \<and> j < t \<longrightarrow> (\<exists>v. word (j - so) = Inr v \<and> v AND 1 = 0))"
proof (induction word so mc i rule: chain_end.induct)
  case (1 word so mc i)
  then obtain v where v: "so \<le> i" "i < so + mc" "word (i - so) = Inr v"
    by (subst (asm) (2) chain_end.simps) (auto simp: bindE_eq_Inr split: if_split_asm)
  show ?case
  proof (cases "v AND 1 \<noteq> 0")
    case True
    with 1(2) v have "t = i" by (subst (asm) chain_end.simps) simp
    with v True show ?thesis by auto
  next
    case False
    with 1(2) v have m: "\<not> MAX_DYNAMIC_SYMBOLS < i + 1" and e: "chain_end word so mc (i + 1) = Inr t"
      by (subst (asm) chain_end.simps; simp split: if_split_asm)+
    have "\<not> (i - so < 0 \<or> mc \<le> i - so)" using v by simp
    note IH = 1(1) [OF this v(3) False m e]
    have "\<exists>v. word (j - so) = Inr v \<and> v AND 1 = 0" if "i \<le> j" "j < t" for j
      using IH that v(3) False by (cases "j = i") auto
    with IH m v show ?thesis by auto
  qed
qed

section \<open>The hash functions on 32-bit words\<close>

lemma byte_val_mod32: "byte_val c mod 4294967296 = byte_val c"
  by (rule mod_less) (rule less_trans [OF byte_val_less], simp)

lemma uint_take_bit: "take_bit 32 (uint w) = uint w" for w :: "32 word"
  using uint_bounded [of w] by (simp add: take_bit_int_eq_self)

lemma and_mask32: "x AND 0xFFFFFFFF = take_bit 32 x" for x :: int
proof -
  have "mask 32 = (0xFFFFFFFF :: int)" by (simp add: mask_eq_exp_minus_1)
  then show ?thesis by (simp add: take_bit_eq_mask)
qed

definition gnu_hash_word :: "bytes \<Rightarrow> 32 word" where
  "gnu_hash_word name = foldl (\<lambda>h c. h * 33 + of_nat (byte_val c)) 5381 name"

lemma gnu_fold_word:
  "foldl gnu_hash_step (uint (w :: 32 word)) name
    = uint (foldl (\<lambda>h c. h * 33 + of_nat (byte_val c)) w name)"
proof (induction name arbitrary: w)
  case (Cons c name)
  have "gnu_hash_step (uint w) c = uint (w * 33 + of_nat (byte_val c))"
    by (simp add: gnu_hash_step_def and_mask32 uint_word_ariths take_bit_eq_mod mod_simps
        unsigned_of_nat byte_val_mod32)
  then show ?case using Cons.IH by simp
qed simp

lemma gnu_hash_uint: "gnu_hash name = uint (gnu_hash_word name)"
  using gnu_fold_word [of 5381 name] by (simp add: gnu_hash_def gnu_hash_word_def)

definition sysv_mix :: "32 word \<Rightarrow> 32 word" where
  "sysv_mix v = (v XOR drop_bit 24 (v AND 0xF0000000)) AND NOT (v AND 0xF0000000)"

definition sysv_hash_word :: "bytes \<Rightarrow> 32 word" where
  "sysv_hash_word name = foldl (\<lambda>h c. sysv_mix (push_bit 4 h + of_nat (byte_val c))) 0 name"

lemma mix_if:
  "(if high \<noteq> 0 then (v XOR drop_bit 24 high) AND NOT high else v) = (v XOR drop_bit 24 high) AND NOT high"
  for v high :: int
  by simp

lemma sysv_hash_step_plain:
  "sysv_hash_step h c =
     (let v = take_bit 32 (push_bit 4 h + int (byte_val c)); high = v AND 0xF0000000
      in (v XOR drop_bit 24 high) AND NOT high)"
  unfolding sysv_hash_step_def and_mask32 Let_def by (rule mix_if)

lemma sysv_mix_word:
  "(uint v XOR drop_bit 24 (uint v AND 0xF0000000)) AND NOT (uint v AND 0xF0000000)
    = uint ((v XOR drop_bit 24 (v AND 0xF0000000)) AND NOT (v AND 0xF0000000))" for v :: "32 word"
proof (rule bit_eqI)
  fix n
  show "bit ((uint v XOR drop_bit 24 (uint v AND 0xF0000000)) AND NOT (uint v AND 0xF0000000)) n
    = bit (uint ((v XOR drop_bit 24 (v AND 0xF0000000)) AND NOT (v AND 0xF0000000))) n"
    by (cases "n < 32") (auto simp: bit_simps dest: bit_imp_le_length)
qed

lemma sysv_step_word:
  "sysv_hash_step (uint (w :: 32 word)) c = uint (sysv_mix (push_bit 4 w + of_nat (byte_val c)))"
proof -
  have "take_bit 32 (push_bit 4 (uint w) + int (byte_val c)) = uint (push_bit 4 w + of_nat (byte_val c))"
    by (simp add: uint_word_ariths take_bit_eq_mod mod_simps unsigned_of_nat push_bit_eq_mult
        byte_val_mod32)
  then show ?thesis by (simp only: sysv_hash_step_plain Let_def sysv_mix_word sysv_mix_def)
qed

lemma sysv_hash_uint: "sysv_hash name = uint (sysv_hash_word name)"
proof -
  have "foldl sysv_hash_step (uint w) name
      = uint (foldl (\<lambda>h c. sysv_mix (push_bit 4 h + of_nat (byte_val c))) w name)" for w :: "32 word"
    by (induction name arbitrary: w) (simp_all add: sysv_step_word)
  from this [of 0] show ?thesis
    by (simp add: sysv_hash_def sysv_hash_word_def and_mask32 uint_take_bit)
qed

lemma sysv_mix_top: "28 \<le> n \<Longrightarrow> \<not> bit (sysv_mix v) n"
proof (cases "n < 32")
  case True
  moreover assume "28 \<le> n"
  ultimately consider "n = 28" | "n = 29" | "n = 30" | "n = 31" by linarith
  then show ?thesis unfolding sysv_mix_def by cases (auto simp: bit_simps dest: bit_imp_le_length)
qed (auto dest: bit_imp_le_length)

lemma sysv_hash_bound: "sysv_hash name < 2 ^ 28"
proof -
  have "\<not> bit (sysv_hash_word name) n" if "28 \<le> n" for n
    by (cases name rule: rev_cases) (simp_all add: sysv_hash_word_def sysv_mix_top [OF that])
  then have "take_bit 28 (uint (sysv_hash_word name)) = uint (sysv_hash_word name)"
    by (intro bit_eqI) (auto simp: bit_simps, meson not_less)
  then show ?thesis
    by (metis sysv_hash_uint take_bit_int_less_exp)
qed

section \<open>Lookups\<close>

text \<open>What the inspection relies on in a lookup: a symbol it reaches is in the table, and it fails
  with a \<open>ValueError\<close> only.\<close>

locale symbol_lookup =
  fixes reaches :: "'t \<Rightarrow> string \<Rightarrow> int \<Rightarrow> bool res"
    and symbol_count :: "'t \<Rightarrow> int"
  assumes reached_in_table: "reaches t name i = Inr True \<Longrightarrow> i < symbol_count t"
    and lookup_error: "reaches t name i = Inl e \<Longrightarrow> \<exists>m. e = ValueError m"

lemma sysv_chase_True:
  "sysv_chase t target visited i = Inr True \<Longrightarrow>
     target \<noteq> 0 \<and> 0 \<le> target \<and> target < sv_symbol_count t
     \<and> (\<exists>k. ((\<lambda>j. sv_chains t ! nat j) ^^ k) i = target)"
proof (induction t target visited i rule: sysv_chase.induct)
  case (1 t target visited i)
  then have i: "i \<noteq> 0" "\<not> (i < 0 \<or> sv_symbol_count t \<le> i \<or> List.member visited i)"
    by (subst (asm) (2) sysv_chase.simps; simp split: if_split_asm)+
  show ?case
  proof (cases "i = target")
    case True
    then show ?thesis using i by (auto intro: exI [of _ 0])
  next
    case False
    then have "sysv_chase t target (i # visited) (sv_chains t ! nat i) = Inr True"
      using 1(2) i by (subst (asm) sysv_chase.simps) simp
    with 1(1) [OF i False] obtain k where "((\<lambda>j. sv_chains t ! nat j) ^^ k) (sv_chains t ! nat i) = target"
      and "target \<noteq> 0 \<and> 0 \<le> target \<and> target < sv_symbol_count t" by auto
    then show ?thesis by (auto simp: funpow_Suc_right simp del: funpow.simps intro: exI [of _ "Suc k"])
  qed
qed

lemma sysv_chase_error: "raises (\<lambda>e. \<exists>m. e = ValueError m) (sysv_chase t target visited i)"
  by (induction t target visited i rule: sysv_chase.induct)
     (subst sysv_chase.simps, auto intro!: raises_intro)

lemma gnu_chase_True:
  "gnu_chase t h target i = Inr True \<Longrightarrow>
     i \<le> target \<and> target < gn_symbol_count t
     \<and> (gn_chains t ! nat (target - gn_symbol_offset t)) OR 1 = h OR 1
     \<and> (\<forall>j. i \<le> j \<and> j < target \<longrightarrow> gn_chains t ! nat (j - gn_symbol_offset t) AND 1 = 0)"
proof (induction t h target i rule: gnu_chase.induct)
  case (1 t h target i)
  let ?w = "gn_chains t ! nat (i - gn_symbol_offset t)"
  have i: "i < gn_symbol_count t"
    using 1(2) by (subst (asm) gnu_chase.simps) (simp split: if_split_asm)
  show ?case
  proof (cases "?w OR 1 = h OR 1 \<and> i = target")
    case True
    then show ?thesis using i by auto
  next
    case False
    then have a: "?w AND 1 = 0" and g: "gnu_chase t h target (i + 1) = Inr True"
      using 1(2) i by (subst (asm) gnu_chase.simps; simp add: Let_def split: if_split_asm)+
    have "i + 1 \<le> target \<and> target < gn_symbol_count t
       \<and> (gn_chains t ! nat (target - gn_symbol_offset t)) OR 1 = h OR 1
       \<and> (\<forall>j. i + 1 \<le> j \<and> j < target \<longrightarrow> gn_chains t ! nat (j - gn_symbol_offset t) AND 1 = 0)"
      using 1(1) [OF _ refl False] i a g by simp
    with a show ?thesis by (metis add1_zle_eq less_le order_le_less_trans zle_add1_eq_le zless_add1_eq)
  qed
qed

lemma gnu_chase_error: "raises (\<lambda>e. \<exists>m. e = ValueError m) (gnu_chase t h target i)"
  by (induction t h target i rule: gnu_chase.induct)
     (subst gnu_chase.simps, auto simp: Let_def intro!: raises_intro)

interpretation sysv: symbol_lookup sysv_hash_reaches sv_symbol_count
proof (unfold_locales, goal_cases)
  case (1 t name i)
  then show ?case unfolding sysv_hash_reaches_def using sysv_chase_True by blast
next
  case (2 t name i e)
  then show ?case using sysv_chase_error unfolding sysv_hash_reaches_def raises_def by blast
qed

interpretation gnu: symbol_lookup gnu_hash_reaches gn_symbol_count
proof (unfold_locales, goal_cases)
  case (1 t name i)
  then show ?case
    by (auto simp: gnu_hash_reaches_def Let_def dest!: gnu_chase_True split: if_split_asm)
next
  case (2 t name i e)
  then show ?case
    using gnu_chase_error [unfolded raises_def] by (auto simp: gnu_hash_reaches_def Let_def split: if_split_asm)
qed

end
