(* ===== verification/Elf_Inspect_Props.thy ===== *)
theory Elf_Inspect_Props
  imports Elf_Inspect Elf_Hash_Props
begin

text \<open>
  What a successful inspection guarantees of the file: loadable segments inside the file at
  power-of-two alignments, the symbols of the whole dynamic table, and the required exports as the
  only externally visible symbols. The result does not depend on how the kernel splits the reads.
\<close>

unbundle bit_operations_syntax

section \<open>Addresses\<close>

lemma remdups_single: "remdups xs = [x] \<longleftrightarrow> set xs = {x}"
proof
  assume "remdups xs = [x]"
  then show "set xs = {x}" by (metis list.set(1) list.simps(15) set_remdups)
next
  assume "set xs = {x}"
  then have "set (remdups xs) = {x}" "distinct (remdups xs)" by simp_all
  then show "remdups xs = [x]"
    by (metis distinct_card card_1_singletonE length_0_conv length_Suc_conv One_nat_def card.empty
        card.insert empty_iff finite.emptyI list.set_intros(1) singletonD)
qed

text \<open>The file offset of a range of addresses: some segment backs the range, and all that do agree.\<close>

lemma mapped_offset_Inr:
  "mapped_offset segs a n label = Inr f \<longleftrightarrow>
     0 \<le> a \<and> 0 \<le> n \<and> (\<exists>s \<in> set segs. backs s a n)
     \<and> (\<forall>s \<in> set segs. backs s a n \<longrightarrow> f = seg_offset s + a - seg_address s)"
proof -
  let ?c = "map (\<lambda>s. seg_offset s + a - seg_address s) (filter (\<lambda>s. backs s a n) segs)"
  have "mapped_offset segs a n label = Inr f \<longleftrightarrow> 0 \<le> a \<and> 0 \<le> n \<and> remdups ?c = [f]"
    unfolding mapped_offset_def by (cases "remdups ?c"; cases "tl (remdups ?c)") auto
  then show ?thesis unfolding remdups_single by auto
qed

section \<open>Symbols\<close>

lemma symbol_fold:
  assumes "foldE (symbol_step r cls t) (req, exps) is = Inr (req', exps')" "0 \<notin> set is"
  shows "\<exists>syms. mapE (symbol_at r cls t) is = Inr syms
    \<and> req' = req @ filter (\<lambda>s. fst s \<in> set REQUIRED_EXPORTS) syms
    \<and> set exps' = set exps \<union> fst ` {s \<in> set syms. externally_visible (snd s)}
    \<and> (\<forall>s \<in> set syms. externally_visible (snd s) \<longrightarrow> fst s \<in> set REQUIRED_EXPORTS)"
  using assms
proof (induction "is" arbitrary: req exps)
  case (Cons i "is")
  from Cons.prems obtain q where st: "symbol_step r cls t (req, exps) i = Inr q"
    and rest: "foldE (symbol_step r cls t) q is = Inr (req', exps')" and i: "i \<noteq> 0"
    by (auto simp: bindE_eq_Inr)
  obtain req1 exps1 where q: "q = (req1, exps1)" by (cases q)
  from st i obtain name s where s: "symbol_at r cls t i = Inr (name, s)"
    by (auto simp: symbol_step_def bindE_eq_Inr)
  have q1: "req1 = req @ filter (\<lambda>s. fst s \<in> set REQUIRED_EXPORTS) [(name, s)]
      \<and> set exps1 = set exps \<union> (if externally_visible s then {name} else {})
      \<and> (externally_visible s \<longrightarrow> name \<in> set REQUIRED_EXPORTS)"
    using st i s q by (auto simp: symbol_step_def Let_def split: if_split_asm)
  from Cons.IH [OF rest [unfolded q]] Cons.prems(2) obtain syms where
    IH: "mapE (symbol_at r cls t) is = Inr syms"
      "req' = req1 @ filter (\<lambda>s. fst s \<in> set REQUIRED_EXPORTS) syms"
      "set exps' = set exps1 \<union> fst ` {s \<in> set syms. externally_visible (snd s)}"
      "\<forall>s \<in> set syms. externally_visible (snd s) \<longrightarrow> fst s \<in> set REQUIRED_EXPORTS"
    by auto
  have "mapE (symbol_at r cls t) (i # is) = Inr ((name, s) # syms)" using s IH(1) by simp
  moreover have "req' = req @ filter (\<lambda>s. fst s \<in> set REQUIRED_EXPORTS) ((name, s) # syms)"
    using q1 IH(2) by simp
  moreover have "set exps' = set exps \<union> fst ` {x \<in> set ((name, s) # syms). externally_visible (snd x)}"
  proof -
    have "fst ` {x \<in> set ((name, s) # syms). externally_visible (snd x)}
        = (if externally_visible s then {name} else {}) \<union> fst ` {x \<in> set syms. externally_visible (snd x)}"
      by force
    then show ?thesis using q1 IH(3) by auto
  qed
  ultimately show ?case using q1 IH(4) by (intro exI [of _ "(name, s) # syms"]) auto
qed auto

lemma elf_symbols_Inr:
  assumes "elf_symbols r cls t = Inr (req, exps)" "0 < tb_symbol_count t"
  obtains syms where "mapE (symbol_at r cls t) [1..<nat (tb_symbol_count t)] = Inr syms"
    "req = filter (\<lambda>s. fst s \<in> set REQUIRED_EXPORTS) syms"
    "set exps = fst ` {s \<in> set syms. externally_visible (snd s)}"
proof -
  have "[0..<nat (tb_symbol_count t)] = 0 # [1..<nat (tb_symbol_count t)]"
    using assms(2) by (simp add: upt_conv_Cons)
  with assms(1) obtain q where st: "symbol_step r cls t ([], []) 0 = Inr q"
    and f: "foldE (symbol_step r cls t) q [1..<nat (tb_symbol_count t)] = Inr (req, exps)"
    by (auto simp: elf_symbols_def bindE_eq_Inr)
  from st have "q = ([], [])" by (auto simp: symbol_step_def bindE_eq_Inr split: if_split_asm)
  from symbol_fold [OF f [unfolded this]] show thesis by (auto intro: that)
qed

context symbol_lookup
begin

lemma require_reachable_Inr:
  "require_reachable reaches table name i label = Inr () \<Longrightarrow>
     table = None \<or> (\<exists>t. table = Some t \<and> reaches t name i = Inr True \<and> i < symbol_count t)"
  by (auto simp: require_reachable_def bindE_eq_Inr dest: reached_in_table split: option.split_asm if_split_asm)

end

section \<open>Segments\<close>

lemma power_of_two:
  fixes a :: int
  assumes "0 < a" "a AND (a - 1) = 0"
  shows "\<exists>k. a = 2 ^ k"
proof -
  have "0 < n \<Longrightarrow> int n AND (int n - 1) = 0 \<Longrightarrow> \<exists>k. int n = 2 ^ k" for n :: nat
  proof (induction n rule: less_induct)
    case (less n)
    show ?case
    proof (cases "odd n")
      case True
      then obtain m where m: "n = 2 * m + 1" by (auto elim: oddE)
      have "int n AND (int n - 1) = 2 * int m"
        unfolding m by (subst and_rec) simp
      with less.prems(2) have "n = 1" using m by simp
      then show ?thesis by (auto intro: exI [of _ 0])
    next
      case False
      then obtain m where m: "n = 2 * m" by (auto elim: evenE)
      have "(2 * int m - 1) div 2 = int m - 1" by simp
      moreover have "int n AND (int n - 1) = of_bool (odd (2 * int m) \<and> odd (2 * int m - 1))
          + 2 * ((2 * int m) div 2 AND ((2 * int m - 1) div 2))"
        unfolding m by (subst and_rec) simp
      ultimately have "int m AND (int m - 1) = 0" using less.prems(2) by simp
      with less.IH [of m] less.prems(1) m obtain k where "int m = 2 ^ k" by auto
      then show ?thesis using m by (auto intro: exI [of _ "Suc k"])
    qed
  qed
  from this [of "nat a"] assms show ?thesis by simp
qed

text \<open>A loadable segment as the loader needs it: inside the file, and mappable at its alignment.\<close>

definition segment_ok :: "int \<Rightarrow> load_segment \<Rightarrow> bool" where
  "segment_ok n s \<longleftrightarrow>
     0 \<le> seg_offset s \<and> 0 \<le> seg_file_size s \<and> seg_offset s + seg_file_size s \<le> n
     \<and> seg_file_size s \<le> seg_memory_size s \<and> (\<exists>k. seg_alignment s = 2 ^ k)
     \<and> seg_offset s mod seg_alignment s = seg_address s mod seg_alignment s"

lemma program_step_ok:
  assumes "program_step r cls h (loads, dyns) i = Inr (loads', dyns')"
    "list_all (segment_ok (rd_size r)) loads"
  shows "list_all (segment_ok (rd_size r)) loads'"
proof -
  from assms(1) obtain vs where "unpack r (program_fmt cls) (eh_program_offset h + int i * eh_program_size h)
      ''program header'' = Inr vs"
    by (auto simp: program_step_def bindE_eq_Inr)
  moreover obtain p_type seg where "program_fields cls vs = (p_type, seg)" by fastforce
  ultimately show ?thesis
    using assms power_of_two [of "seg_alignment seg"]
    by (auto simp: program_step_def checked_end_def segment_ok_def bindE_eq_Inr split: if_split_asm)
qed

lemma elf_programs_ok:
  assumes "elf_programs r cls h = Inr (loads, d)"
  shows "loads \<noteq> [] \<and> list_all (segment_ok (rd_size r)) loads"
proof -
  from assms obtain dyns where f: "foldE (program_step r cls h) ([], []) [0..<nat (eh_program_count h)] = Inr (loads, dyns)"
    and "loads \<noteq> []"
    by (auto simp: elf_programs_def bindE_eq_Inr split: if_split_asm)
  have "list_all (segment_ok (rd_size r)) (fst (loads, dyns))"
    by (rule foldE_invariant [OF f, where P = "\<lambda>q. list_all (segment_ok (rd_size r)) (fst q)"])
       (auto dest: program_step_ok)
  with \<open>loads \<noteq> []\<close> show ?thesis by simp
qed

section \<open>The inspection\<close>

text \<open>
  A required name is exported as the loader resolves it: exactly one dynamic symbol has the name,
  it is a regular global function with default visibility inside an executable segment of the
  file, and every hash table of the file leads to it.
\<close>

definition exported_function ::
    "load_segment list \<Rightarrow> elf_tables \<Rightarrow> (string \<times> elf_symbol) list \<Rightarrow> string \<Rightarrow> bool" where
  "exported_function loads t syms name \<longleftrightarrow>
     (\<exists>s. filter (\<lambda>x. fst x = name) syms = [(name, s)]
        \<and> sy_binding s = STB_GLOBAL \<and> sy_visibility s = STV_DEFAULT \<and> sy_type s = STT_FUNC
        \<and> sy_section s \<noteq> SHN_UNDEF \<and> sy_section s < SHN_LORESERVE \<and> executable_at loads (sy_value s)
        \<and> (\<forall>tab. tb_sysv t = Some tab \<longrightarrow> sysv_hash_reaches tab name (sy_index s) = Inr True)
        \<and> (\<forall>tab. tb_gnu t = Some tab \<longrightarrow> gnu_hash_reaches tab name (sy_index s) = Inr True))"

lemma check_required_Inr:
  assumes "check_required loads t req u name = Inr v" "req = filter (\<lambda>s. fst s \<in> set REQUIRED_EXPORTS) syms"
    "name \<in> set REQUIRED_EXPORTS"
  shows "exported_function loads t syms name"
proof -
  have f: "filter (\<lambda>e. fst e = name) req = filter (\<lambda>e. fst e = name) syms"
    using assms(2,3) by (auto intro: filter_cong)
  let ?m = "map snd (filter (\<lambda>e. fst e = name) syms)"
  obtain s where s: "?m = [s]"
    using assms(1) unfolding check_required_def f by (cases ?m; cases "tl ?m") auto
  then obtain a where a: "filter (\<lambda>e. fst e = name) syms = [a]" "snd a = s" by auto
  then have "a \<in> set (filter (\<lambda>e. fst e = name) syms)" by simp
  then have "fst a = name" by simp
  with a have e: "filter (\<lambda>e. fst e = name) syms = [(name, s)]" by (cases a) simp
  have v: "v = ()" by simp
  show ?thesis
    using assms(1) sysv.require_reachable_Inr [of "tb_sysv t" name "sy_index s" "''DT_HASH''"]
      gnu.require_reachable_Inr [of "tb_gnu t" name "sy_index s" "''DT_GNU_HASH''"]
    unfolding exported_function_def e check_required_def f s v
    by (auto simp: bindE_eq_Inr raise_if_eq_Inr)
qed

lemma inspect_reader_Inr:
  assumes "inspect_reader r digest = Inr info"
  shows "\<exists>loads t syms. loads \<noteq> [] \<and> list_all (segment_ok (rd_size r)) loads
    \<and> mapE (symbol_at r (ei_class info) t) [1..<nat (tb_symbol_count t)] = Inr syms
    \<and> list_all (exported_function loads t syms) REQUIRED_EXPORTS
    \<and> set (ei_exports info) = fst ` {s \<in> set syms. externally_visible (snd s)}
    \<and> set (ei_exports info) = set REQUIRED_EXPORTS
    \<and> ei_load_alignments info = map seg_alignment loads
    \<and> ei_size info = rd_size r \<and> ei_sha256 info = digest"
proof -
  obtain cls h p entries t q where
    p: "elf_programs r cls h = Inr p" and t: "elf_tables r cls (fst p) entries = Inr t"
    and sy: "elf_symbols r cls t = Inr q"
    and rq: "foldE (check_required (fst p) t (fst q)) () REQUIRED_EXPORTS = Inr ()"
    and ex: "same_elems (snd q) REQUIRED_EXPORTS"
    and info: "\<lparr>ei_class = cls, ei_machine = eh_machine h, ei_machine_name = machine_name_of (eh_machine h),
                 ei_exports = snd q, ei_load_alignments = map seg_alignment (fst p),
                 ei_size = rd_size r, ei_sha256 = digest\<rparr> = info"
    using assms unfolding inspect_reader_def bindE_eq_Inr prod.case_eq_if
    by (simp only: raise_if_eq_Inr ex_unit not_not sum.inject, elim exE conjE) (rule that)
  have "0 < tb_symbol_count t"
    using t by (auto simp: elf_tables_def Let_def bindE_eq_Inr raise_if_eq_Inr case_single_eq_Inr)
  moreover have "elf_symbols r cls t = Inr (fst q, snd q)" using sy by simp
  ultimately obtain syms where syms: "mapE (symbol_at r cls t) [1..<nat (tb_symbol_count t)] = Inr syms"
      "fst q = filter (\<lambda>s. fst s \<in> set REQUIRED_EXPORTS) syms"
      "set (snd q) = fst ` {s \<in> set syms. externally_visible (snd s)}"
    using elf_symbols_Inr by blast
  have "list_all (exported_function (fst p) t syms) REQUIRED_EXPORTS"
    using rq check_required_Inr [OF _ syms(2), of "fst p" t "()"]
    by (auto simp: REQUIRED_EXPORTS_def bindE_eq_Inr)
  moreover have "fst p \<noteq> [] \<and> list_all (segment_ok (rd_size r)) (fst p)"
    using elf_programs_ok [of r cls h "fst p" "snd p"] p by simp
  ultimately show ?thesis
    using syms ex unfolding info [symmetric]
    by (intro exI [of _ "fst p"] exI [of _ t] exI [of _ syms]) (simp add: same_elems_iff)
qed

section \<open>Independence of the kernel\<close>

lemma same_reads_inspect:
  assumes "same_reads r q"
  shows "inspect_reader r digest = inspect_reader q digest"
proof -
  have rd: "read_at r = read_at q" and sz: "rd_size r = rd_size q"
    using assms by (auto simp: same_reads_def intro!: ext)
  have un: "unpack r = unpack q" by (intro ext) (simp add: unpack_def rd)
  have u1: "unpack1 r = unpack1 q" by (intro ext) (simp add: unpack1_def un)
  have "s = r \<Longrightarrow> c_string_loop s cursor n acc = c_string_loop q cursor n acc" for s cursor n acc
    by (induction s cursor n acc rule: c_string_loop.induct)
       (subst (1 2) c_string_loop.simps, auto simp: rd split: sum.split)
  then have cs: "read_c_string r = read_c_string q" by (intro ext) (simp add: read_c_string_def)
  have "sysv_entry r = sysv_entry q" "chain_word r = chain_word q" "bucket_loop_step r = bucket_loop_step q"
    by (unfold sysv_entry_def chain_word_def bucket_loop_step_def un u1) (rule refl)+
  note entry = this
  have hash: "sysv_hash_symbol_count r = sysv_hash_symbol_count q"
      "gnu_hash_symbol_count r = gnu_hash_symbol_count q"
    by (unfold sysv_hash_symbol_count_def gnu_hash_symbol_count_def un u1 entry) (rule refl)+
  have "symbol_at r = symbol_at q" "read_symbol r = read_symbol q"
    by (unfold symbol_at_def read_symbol_def un cs) (rule refl)+
  note at = this
  have "symbol_step r = symbol_step q" by (unfold symbol_step_def at) (rule refl)+
  then have sy: "elf_symbols r = elf_symbols q" by (intro ext) (simp add: elf_symbols_def)
  have "program_step r = program_step q" "dynamic_step r = dynamic_step q" "parse_section r = parse_section q"
    by (unfold program_step_def dynamic_step_def parse_section_def un sz) (rule refl)+
  note steps = this
  have stages: "elf_ident r = elf_ident q" "elf_header r = elf_header q" "elf_programs r = elf_programs q"
      "elf_dynamic r = elf_dynamic q" "elf_tables r = elf_tables q" "parse_sections r = parse_sections q"
    by (unfold elf_ident_def elf_header_def elf_programs_def elf_dynamic_def elf_tables_def
        parse_sections_def rd un sz hash steps) (rule refl)+
  show ?thesis unfolding inspect_reader_def sz sy stages by (rule refl)
qed

lemma same_reads_digest:
  assumes "same_reads r q"
  shows "digest_descriptor r = digest_descriptor q"
proof -
  have rd: "read_at r = read_at q" and sz: "rd_size r = rd_size q"
    using assms by (auto simp: same_reads_def intro!: ext)
  have "s = r \<Longrightarrow> digest_input s off = digest_input q off" for s off
    by (induction s off rule: digest_input.induct)
       (subst (1 2) digest_input.simps, auto simp: rd sz split: sum.split)
  then show ?thesis by (simp add: digest_descriptor_def)
qed

text \<open>The digest of a file with fixed contents is the SHA-256 of the contents.\<close>

lemma digest_input_file:
  "0 \<le> off \<Longrightarrow> digest_input (file_reader content) off = Inr (drop (nat off) content)"
proof (induction "nat (int (length content) - off)" arbitrary: off rule: less_induct)
  case less
  show ?case
  proof (cases "off < int (length content)")
    case False
    then show ?thesis using less.prems by (subst digest_input.simps) (simp add: file_reader_def)
  next
    case True
    let ?n = "min (int READ_CHUNK) (int (length content) - off)"
    let ?c = "take (nat ?n) (drop (nat off) content)"
    have n: "0 < ?n" using True by (simp add: READ_CHUNK_def)
    have r: "read_at (file_reader content) off ?n ''ELF digest'' = Inr ?c"
      using less.prems True by (auto simp: read_file)
    have l: "int (length ?c) = ?n" using less.prems True n by auto
    have "digest_input (file_reader content) (off + ?n) = Inr (drop (nat (off + ?n)) content)"
      using n True less.prems by (intro less.hyps) auto
    moreover have "?c @ drop (nat (off + ?n)) content = drop (nat off) content"
    proof -
      have "drop (nat (off + ?n)) content = drop (nat ?n) (drop (nat off) content)"
        using less.prems n by (simp add: nat_add_distrib add.commute)
      then show ?thesis by (simp only: append_take_drop_id)
    qed
    ultimately show ?thesis
      using True r l by (subst digest_input.simps) (simp add: file_reader_def)
  qed
qed

lemma digest_descriptor_file [simp]:
  "digest_descriptor (file_reader content) = Inr (sha256_hex content)"
  by (simp add: digest_descriptor_def digest_input_file)

section \<open>Properties\<close>

text \<open>\<open>_Reader.read\<close> returns exactly the requested octets of the file, or a \<open>ValueError\<close> when the
  range is not inside the size it was given, for every kernel that keeps the contract of \<open>pread\<close>,
  however short its answers are.\<close>

theorem read_exact:
  assumes "pread_contract pread content"
  shows "read_at \<lparr>rd_descriptor = pread, rd_size = int (length content)\<rparr> offset sz label =
    (if 0 \<le> offset \<and> 0 \<le> sz \<and> offset + sz \<le> int (length content)
     then Inr (take (nat sz) (drop (nat offset) content))
     else Inl (ValueError (label @ '' escapes ELF'')))"
  by (rule pread_contract.read_at_exact [OF assms]) simp_all

text \<open>C29. The digest and the inspection of a file are functions of its contents: they do not depend
  on the chunks in which the kernel answers, and the digest is the SHA-256 of all octets.\<close>

theorem inspection_of_contents:
  assumes "pread_contract pread content"
  shows "(let r = \<lparr>rd_descriptor = pread, rd_size = int (length content)\<rparr>
          in bindE (digest_descriptor r) (\<lambda>digest. inspect_reader r digest))
    = inspect_reader (file_reader content) (sha256_hex content)"
proof -
  have "same_reads \<lparr>rd_descriptor = pread, rd_size = int (length content)\<rparr> (file_reader content)"
    using assms by (rule pread_contract.same_reads_file)
  from same_reads_digest [OF this] same_reads_inspect [OF this] show ?thesis by simp
qed

text \<open>\<open>_mapped_offset\<close> returns a file offset exactly when some loadable segment holds the whole
  range of addresses in its file part and all segments that do agree on the offset.\<close>

theorem mapped_offset_exact:
  "mapped_offset segments address n label = Inr f \<longleftrightarrow>
     0 \<le> address \<and> 0 \<le> n
     \<and> {seg_offset s + address - seg_address s | s. s \<in> set segments \<and> backs s address n} = {f}"
  unfolding mapped_offset_Inr by auto

text \<open>C30. The memo table of the GNU hash walk is an optimisation only: for every table of correct
  entries, the loop over the buckets gives the largest terminal, or the same error, as the loop that
  walks every chain from its start.\<close>

theorem memoised_chain_walk:
  assumes "memo_ok word symbol_offset maximum_chains terminals"
  shows "bindE (foldE (bucket_step word symbol_offset maximum_chains) (terminals, m) buckets) (\<lambda>(ts, m'). Inr m')
    = foldE (bucket_step_plain word symbol_offset maximum_chains) m buckets"
  using assms by (rule bucket_fold_plain)

text \<open>C33. The two hash functions, computed in Python on unbounded integers with masks, are the
  functions of the ABI on 32-bit words, and the SysV hash never exceeds 28 bits.\<close>

theorem hashes_are_32_bit:
  "gnu_hash name = uint (gnu_hash_word name) \<and> sysv_hash name = uint (sysv_hash_word name)
   \<and> 0 \<le> sysv_hash name \<and> sysv_hash name < 2 ^ 28"
  using sysv_hash_bound [of name] by (simp add: gnu_hash_uint sysv_hash_uint)


end
