(* ===== verification/Elf_Example.thy ===== *)
theory Elf_Example
  imports Elf_Inspect_Props
begin

text \<open>
  A small shared library: one loadable segment with 16 KiB alignment, a dynamic table with both
  kinds of hash table, and the two required functions. It is the instance at which the
  properties of the inspection are applied.
\<close>

definition example_elf :: bytes where
  "example_elf =
    [CHR 0x7F, CHR 0x45, CHR 0x4C, CHR 0x46, CHR 0x02, CHR 0x01, CHR 0x01, CHR 0x00, CHR 0x00, CHR 0x00, CHR 0x00, CHR 0x00, CHR 0x00, CHR 0x00, CHR 0x00, CHR 0x00,
     CHR 0x03, CHR 0x00, CHR 0xB7, CHR 0x00, CHR 0x01, CHR 0x00, CHR 0x00, CHR 0x00, CHR 0x00, CHR 0x00, CHR 0x00, CHR 0x00, CHR 0x00, CHR 0x00, CHR 0x00, CHR 0x00,
     CHR 0x40, CHR 0x00, CHR 0x00, CHR 0x00, CHR 0x00, CHR 0x00, CHR 0x00, CHR 0x00, CHR 0x00, CHR 0x00, CHR 0x00, CHR 0x00, CHR 0x00, CHR 0x00, CHR 0x00, CHR 0x00,
     CHR 0x00, CHR 0x00, CHR 0x00, CHR 0x00, CHR 0x40, CHR 0x00, CHR 0x38, CHR 0x00, CHR 0x02, CHR 0x00, CHR 0x00, CHR 0x00, CHR 0x00, CHR 0x00, CHR 0x00, CHR 0x00,
     CHR 0x01, CHR 0x00, CHR 0x00, CHR 0x00, CHR 0x05, CHR 0x00, CHR 0x00, CHR 0x00, CHR 0x00, CHR 0x00, CHR 0x00, CHR 0x00, CHR 0x00, CHR 0x00, CHR 0x00, CHR 0x00,
     CHR 0x00, CHR 0x00, CHR 0x00, CHR 0x00, CHR 0x00, CHR 0x00, CHR 0x00, CHR 0x00, CHR 0x00, CHR 0x00, CHR 0x00, CHR 0x00, CHR 0x00, CHR 0x00, CHR 0x00, CHR 0x00,
     CHR 0xB8, CHR 0x01, CHR 0x00, CHR 0x00, CHR 0x00, CHR 0x00, CHR 0x00, CHR 0x00, CHR 0xB8, CHR 0x01, CHR 0x00, CHR 0x00, CHR 0x00, CHR 0x00, CHR 0x00, CHR 0x00,
     CHR 0x00, CHR 0x40, CHR 0x00, CHR 0x00, CHR 0x00, CHR 0x00, CHR 0x00, CHR 0x00, CHR 0x02, CHR 0x00, CHR 0x00, CHR 0x00, CHR 0x06, CHR 0x00, CHR 0x00, CHR 0x00,
     CHR 0xB0, CHR 0x00, CHR 0x00, CHR 0x00, CHR 0x00, CHR 0x00, CHR 0x00, CHR 0x00, CHR 0xB0, CHR 0x00, CHR 0x00, CHR 0x00, CHR 0x00, CHR 0x00, CHR 0x00, CHR 0x00,
     CHR 0xB0, CHR 0x00, CHR 0x00, CHR 0x00, CHR 0x00, CHR 0x00, CHR 0x00, CHR 0x00, CHR 0x70, CHR 0x00, CHR 0x00, CHR 0x00, CHR 0x00, CHR 0x00, CHR 0x00, CHR 0x00,
     CHR 0x70, CHR 0x00, CHR 0x00, CHR 0x00, CHR 0x00, CHR 0x00, CHR 0x00, CHR 0x00, CHR 0x08, CHR 0x00, CHR 0x00, CHR 0x00, CHR 0x00, CHR 0x00, CHR 0x00, CHR 0x00,
     CHR 0x04, CHR 0x00, CHR 0x00, CHR 0x00, CHR 0x00, CHR 0x00, CHR 0x00, CHR 0x00, CHR 0x68, CHR 0x01, CHR 0x00, CHR 0x00, CHR 0x00, CHR 0x00, CHR 0x00, CHR 0x00,
     CHR 0xF5, CHR 0xFE, CHR 0xFF, CHR 0x6F, CHR 0x00, CHR 0x00, CHR 0x00, CHR 0x00, CHR 0x80, CHR 0x01, CHR 0x00, CHR 0x00, CHR 0x00, CHR 0x00, CHR 0x00, CHR 0x00,
     CHR 0x05, CHR 0x00, CHR 0x00, CHR 0x00, CHR 0x00, CHR 0x00, CHR 0x00, CHR 0x00, CHR 0xA4, CHR 0x01, CHR 0x00, CHR 0x00, CHR 0x00, CHR 0x00, CHR 0x00, CHR 0x00,
     CHR 0x06, CHR 0x00, CHR 0x00, CHR 0x00, CHR 0x00, CHR 0x00, CHR 0x00, CHR 0x00, CHR 0x20, CHR 0x01, CHR 0x00, CHR 0x00, CHR 0x00, CHR 0x00, CHR 0x00, CHR 0x00,
     CHR 0x0A, CHR 0x00, CHR 0x00, CHR 0x00, CHR 0x00, CHR 0x00, CHR 0x00, CHR 0x00, CHR 0x14, CHR 0x00, CHR 0x00, CHR 0x00, CHR 0x00, CHR 0x00, CHR 0x00, CHR 0x00,
     CHR 0x0B, CHR 0x00, CHR 0x00, CHR 0x00, CHR 0x00, CHR 0x00, CHR 0x00, CHR 0x00, CHR 0x18, CHR 0x00, CHR 0x00, CHR 0x00, CHR 0x00, CHR 0x00, CHR 0x00, CHR 0x00,
     CHR 0x00, CHR 0x00, CHR 0x00, CHR 0x00, CHR 0x00, CHR 0x00, CHR 0x00, CHR 0x00, CHR 0x00, CHR 0x00, CHR 0x00, CHR 0x00, CHR 0x00, CHR 0x00, CHR 0x00, CHR 0x00,
     CHR 0x00, CHR 0x00, CHR 0x00, CHR 0x00, CHR 0x00, CHR 0x00, CHR 0x00, CHR 0x00, CHR 0x00, CHR 0x00, CHR 0x00, CHR 0x00, CHR 0x00, CHR 0x00, CHR 0x00, CHR 0x00,
     CHR 0x00, CHR 0x00, CHR 0x00, CHR 0x00, CHR 0x00, CHR 0x00, CHR 0x00, CHR 0x00, CHR 0x01, CHR 0x00, CHR 0x00, CHR 0x00, CHR 0x12, CHR 0x00, CHR 0x05, CHR 0x00,
     CHR 0x10, CHR 0x00, CHR 0x00, CHR 0x00, CHR 0x00, CHR 0x00, CHR 0x00, CHR 0x00, CHR 0x04, CHR 0x00, CHR 0x00, CHR 0x00, CHR 0x00, CHR 0x00, CHR 0x00, CHR 0x00,
     CHR 0x0B, CHR 0x00, CHR 0x00, CHR 0x00, CHR 0x12, CHR 0x00, CHR 0x05, CHR 0x00, CHR 0x20, CHR 0x00, CHR 0x00, CHR 0x00, CHR 0x00, CHR 0x00, CHR 0x00, CHR 0x00,
     CHR 0x04, CHR 0x00, CHR 0x00, CHR 0x00, CHR 0x00, CHR 0x00, CHR 0x00, CHR 0x00, CHR 0x01, CHR 0x00, CHR 0x00, CHR 0x00, CHR 0x03, CHR 0x00, CHR 0x00, CHR 0x00,
     CHR 0x01, CHR 0x00, CHR 0x00, CHR 0x00, CHR 0x00, CHR 0x00, CHR 0x00, CHR 0x00, CHR 0x02, CHR 0x00, CHR 0x00, CHR 0x00, CHR 0x00, CHR 0x00, CHR 0x00, CHR 0x00,
     CHR 0x01, CHR 0x00, CHR 0x00, CHR 0x00, CHR 0x01, CHR 0x00, CHR 0x00, CHR 0x00, CHR 0x01, CHR 0x00, CHR 0x00, CHR 0x00, CHR 0x05, CHR 0x00, CHR 0x00, CHR 0x00,
     CHR 0x00, CHR 0x04, CHR 0x10, CHR 0x10, CHR 0x00, CHR 0x00, CHR 0x00, CHR 0x40, CHR 0x01, CHR 0x00, CHR 0x00, CHR 0x00, CHR 0xDC, CHR 0x7F, CHR 0x60, CHR 0x01,
     CHR 0x55, CHR 0xD1, CHR 0x6C, CHR 0x01, CHR 0x00, CHR 0x53, CHR 0x74, CHR 0x61, CHR 0x72, CHR 0x74, CHR 0x43, CHR 0x6F, CHR 0x72, CHR 0x65, CHR 0x00, CHR 0x53,
     CHR 0x74, CHR 0x6F, CHR 0x70, CHR 0x43, CHR 0x6F, CHR 0x72, CHR 0x65, CHR 0x00]"

abbreviation R :: elf_reader where "R \<equiv> file_reader example_elf"

lemma example_length [simp]: "length example_elf = 440"
  by (simp add: example_elf_def)

section \<open>The parts of the file\<close>

lemma part_0_16: "take 16 example_elf =
    [CHR 0x7F, CHR 0x45, CHR 0x4C, CHR 0x46, CHR 0x02, CHR 0x01, CHR 0x01, CHR 0x00, CHR 0x00, CHR 0x00, CHR 0x00, CHR 0x00, CHR 0x00, CHR 0x00, CHR 0x00, CHR 0x00]"
  by (simp add: example_elf_def)

lemma part_0_64: "take 64 example_elf =
    [CHR 0x7F, CHR 0x45, CHR 0x4C, CHR 0x46, CHR 0x02, CHR 0x01, CHR 0x01, CHR 0x00, CHR 0x00, CHR 0x00, CHR 0x00, CHR 0x00, CHR 0x00, CHR 0x00, CHR 0x00, CHR 0x00, 
     CHR 0x03, CHR 0x00, CHR 0xB7, CHR 0x00, CHR 0x01, CHR 0x00, CHR 0x00, CHR 0x00, CHR 0x00, CHR 0x00, CHR 0x00, CHR 0x00, CHR 0x00, CHR 0x00, CHR 0x00, CHR 0x00, 
     CHR 0x40, CHR 0x00, CHR 0x00, CHR 0x00, CHR 0x00, CHR 0x00, CHR 0x00, CHR 0x00, CHR 0x00, CHR 0x00, CHR 0x00, CHR 0x00, CHR 0x00, CHR 0x00, CHR 0x00, CHR 0x00, 
     CHR 0x00, CHR 0x00, CHR 0x00, CHR 0x00, CHR 0x40, CHR 0x00, CHR 0x38, CHR 0x00, CHR 0x02, CHR 0x00, CHR 0x00, CHR 0x00, CHR 0x00, CHR 0x00, CHR 0x00, CHR 0x00]"
  by (simp add: example_elf_def)

lemma part_64_56: "take 56 (drop 64 example_elf) =
    [CHR 0x01, CHR 0x00, CHR 0x00, CHR 0x00, CHR 0x05, CHR 0x00, CHR 0x00, CHR 0x00, CHR 0x00, CHR 0x00, CHR 0x00, CHR 0x00, CHR 0x00, CHR 0x00, CHR 0x00, CHR 0x00, 
     CHR 0x00, CHR 0x00, CHR 0x00, CHR 0x00, CHR 0x00, CHR 0x00, CHR 0x00, CHR 0x00, CHR 0x00, CHR 0x00, CHR 0x00, CHR 0x00, CHR 0x00, CHR 0x00, CHR 0x00, CHR 0x00, 
     CHR 0xB8, CHR 0x01, CHR 0x00, CHR 0x00, CHR 0x00, CHR 0x00, CHR 0x00, CHR 0x00, CHR 0xB8, CHR 0x01, CHR 0x00, CHR 0x00, CHR 0x00, CHR 0x00, CHR 0x00, CHR 0x00, 
     CHR 0x00, CHR 0x40, CHR 0x00, CHR 0x00, CHR 0x00, CHR 0x00, CHR 0x00, CHR 0x00]"
  by (simp add: example_elf_def)

lemma part_120_56: "take 56 (drop 120 example_elf) =
    [CHR 0x02, CHR 0x00, CHR 0x00, CHR 0x00, CHR 0x06, CHR 0x00, CHR 0x00, CHR 0x00, CHR 0xB0, CHR 0x00, CHR 0x00, CHR 0x00, CHR 0x00, CHR 0x00, CHR 0x00, CHR 0x00, 
     CHR 0xB0, CHR 0x00, CHR 0x00, CHR 0x00, CHR 0x00, CHR 0x00, CHR 0x00, CHR 0x00, CHR 0xB0, CHR 0x00, CHR 0x00, CHR 0x00, CHR 0x00, CHR 0x00, CHR 0x00, CHR 0x00, 
     CHR 0x70, CHR 0x00, CHR 0x00, CHR 0x00, CHR 0x00, CHR 0x00, CHR 0x00, CHR 0x00, CHR 0x70, CHR 0x00, CHR 0x00, CHR 0x00, CHR 0x00, CHR 0x00, CHR 0x00, CHR 0x00, 
     CHR 0x08, CHR 0x00, CHR 0x00, CHR 0x00, CHR 0x00, CHR 0x00, CHR 0x00, CHR 0x00]"
  by (simp add: example_elf_def)

lemma part_176_16: "take 16 (drop 176 example_elf) =
    [CHR 0x04, CHR 0x00, CHR 0x00, CHR 0x00, CHR 0x00, CHR 0x00, CHR 0x00, CHR 0x00, CHR 0x68, CHR 0x01, CHR 0x00, CHR 0x00, CHR 0x00, CHR 0x00, CHR 0x00, CHR 0x00]"
  by (simp add: example_elf_def)

lemma part_192_16: "take 16 (drop 192 example_elf) =
    [CHR 0xF5, CHR 0xFE, CHR 0xFF, CHR 0x6F, CHR 0x00, CHR 0x00, CHR 0x00, CHR 0x00, CHR 0x80, CHR 0x01, CHR 0x00, CHR 0x00, CHR 0x00, CHR 0x00, CHR 0x00, CHR 0x00]"
  by (simp add: example_elf_def)

lemma part_208_16: "take 16 (drop 208 example_elf) =
    [CHR 0x05, CHR 0x00, CHR 0x00, CHR 0x00, CHR 0x00, CHR 0x00, CHR 0x00, CHR 0x00, CHR 0xA4, CHR 0x01, CHR 0x00, CHR 0x00, CHR 0x00, CHR 0x00, CHR 0x00, CHR 0x00]"
  by (simp add: example_elf_def)

lemma part_224_16: "take 16 (drop 224 example_elf) =
    [CHR 0x06, CHR 0x00, CHR 0x00, CHR 0x00, CHR 0x00, CHR 0x00, CHR 0x00, CHR 0x00, CHR 0x20, CHR 0x01, CHR 0x00, CHR 0x00, CHR 0x00, CHR 0x00, CHR 0x00, CHR 0x00]"
  by (simp add: example_elf_def)

lemma part_240_16: "take 16 (drop 240 example_elf) =
    [CHR 0x0A, CHR 0x00, CHR 0x00, CHR 0x00, CHR 0x00, CHR 0x00, CHR 0x00, CHR 0x00, CHR 0x14, CHR 0x00, CHR 0x00, CHR 0x00, CHR 0x00, CHR 0x00, CHR 0x00, CHR 0x00]"
  by (simp add: example_elf_def)

lemma part_256_16: "take 16 (drop 256 example_elf) =
    [CHR 0x0B, CHR 0x00, CHR 0x00, CHR 0x00, CHR 0x00, CHR 0x00, CHR 0x00, CHR 0x00, CHR 0x18, CHR 0x00, CHR 0x00, CHR 0x00, CHR 0x00, CHR 0x00, CHR 0x00, CHR 0x00]"
  by (simp add: example_elf_def)

lemma part_272_16: "take 16 (drop 272 example_elf) =
    [CHR 0x00, CHR 0x00, CHR 0x00, CHR 0x00, CHR 0x00, CHR 0x00, CHR 0x00, CHR 0x00, CHR 0x00, CHR 0x00, CHR 0x00, CHR 0x00, CHR 0x00, CHR 0x00, CHR 0x00, CHR 0x00]"
  by (simp add: example_elf_def)

lemma part_420_1: "take 1 (drop 420 example_elf) =
    [CHR 0x00]"
  by (simp add: example_elf_def)

lemma part_360_8: "take 8 (drop 360 example_elf) =
    [CHR 0x01, CHR 0x00, CHR 0x00, CHR 0x00, CHR 0x03, CHR 0x00, CHR 0x00, CHR 0x00]"
  by (simp add: example_elf_def)

lemma part_368_4: "take 4 (drop 368 example_elf) =
    [CHR 0x01, CHR 0x00, CHR 0x00, CHR 0x00]"
  by (simp add: example_elf_def)

lemma part_372_4: "take 4 (drop 372 example_elf) =
    [CHR 0x00, CHR 0x00, CHR 0x00, CHR 0x00]"
  by (simp add: example_elf_def)

lemma part_376_4: "take 4 (drop 376 example_elf) =
    [CHR 0x02, CHR 0x00, CHR 0x00, CHR 0x00]"
  by (simp add: example_elf_def)

lemma part_380_4: "take 4 (drop 380 example_elf) =
    [CHR 0x00, CHR 0x00, CHR 0x00, CHR 0x00]"
  by (simp add: example_elf_def)

lemma part_384_16: "take 16 (drop 384 example_elf) =
    [CHR 0x01, CHR 0x00, CHR 0x00, CHR 0x00, CHR 0x01, CHR 0x00, CHR 0x00, CHR 0x00, CHR 0x01, CHR 0x00, CHR 0x00, CHR 0x00, CHR 0x05, CHR 0x00, CHR 0x00, CHR 0x00]"
  by (simp add: example_elf_def)

lemma part_400_8: "take 8 (drop 400 example_elf) =
    [CHR 0x00, CHR 0x04, CHR 0x10, CHR 0x10, CHR 0x00, CHR 0x00, CHR 0x00, CHR 0x40]"
  by (simp add: example_elf_def)

lemma part_408_4: "take 4 (drop 408 example_elf) =
    [CHR 0x01, CHR 0x00, CHR 0x00, CHR 0x00]"
  by (simp add: example_elf_def)

lemma part_412_4: "take 4 (drop 412 example_elf) =
    [CHR 0xDC, CHR 0x7F, CHR 0x60, CHR 0x01]"
  by (simp add: example_elf_def)

lemma part_416_4: "take 4 (drop 416 example_elf) =
    [CHR 0x55, CHR 0xD1, CHR 0x6C, CHR 0x01]"
  by (simp add: example_elf_def)

lemma part_288_24: "take 24 (drop 288 example_elf) =
    [CHR 0x00, CHR 0x00, CHR 0x00, CHR 0x00, CHR 0x00, CHR 0x00, CHR 0x00, CHR 0x00, CHR 0x00, CHR 0x00, CHR 0x00, CHR 0x00, CHR 0x00, CHR 0x00, CHR 0x00, CHR 0x00, 
     CHR 0x00, CHR 0x00, CHR 0x00, CHR 0x00, CHR 0x00, CHR 0x00, CHR 0x00, CHR 0x00]"
  by (simp add: example_elf_def)

lemma part_312_24: "take 24 (drop 312 example_elf) =
    [CHR 0x01, CHR 0x00, CHR 0x00, CHR 0x00, CHR 0x12, CHR 0x00, CHR 0x05, CHR 0x00, CHR 0x10, CHR 0x00, CHR 0x00, CHR 0x00, CHR 0x00, CHR 0x00, CHR 0x00, CHR 0x00, 
     CHR 0x04, CHR 0x00, CHR 0x00, CHR 0x00, CHR 0x00, CHR 0x00, CHR 0x00, CHR 0x00]"
  by (simp add: example_elf_def)

lemma part_336_24: "take 24 (drop 336 example_elf) =
    [CHR 0x0B, CHR 0x00, CHR 0x00, CHR 0x00, CHR 0x12, CHR 0x00, CHR 0x05, CHR 0x00, CHR 0x20, CHR 0x00, CHR 0x00, CHR 0x00, CHR 0x00, CHR 0x00, CHR 0x00, CHR 0x00, 
     CHR 0x04, CHR 0x00, CHR 0x00, CHR 0x00, CHR 0x00, CHR 0x00, CHR 0x00, CHR 0x00]"
  by (simp add: example_elf_def)

lemma part_421_19: "take 19 (drop 421 example_elf) =
    [CHR 0x53, CHR 0x74, CHR 0x61, CHR 0x72, CHR 0x74, CHR 0x43, CHR 0x6F, CHR 0x72, CHR 0x65, CHR 0x00, CHR 0x53, CHR 0x74, CHR 0x6F, CHR 0x70, CHR 0x43, CHR 0x6F, 
     CHR 0x72, CHR 0x65, CHR 0x00]"
  by (simp add: example_elf_def)

lemma part_431_9: "take 9 (drop 431 example_elf) =
    [CHR 0x53, CHR 0x74, CHR 0x6F, CHR 0x70, CHR 0x43, CHR 0x6F, CHR 0x72, CHR 0x65, CHR 0x00]"
  by (simp add: example_elf_def)

lemmas parts = part_0_16 part_0_64 part_64_56 part_120_56 part_176_16 part_192_16 part_208_16 part_224_16 part_240_16 part_256_16 part_272_16 part_420_1 part_360_8 part_368_4 part_372_4 part_376_4 part_380_4 part_384_16 part_400_8 part_408_4 part_412_4 part_416_4 part_288_24 part_312_24 part_336_24 part_421_19 part_431_9


lemma file_size [simp]: "rd_size R = 440"
  by (simp add: file_reader_def)

section \<open>The stages of the inspection\<close>

lemma ex_ident: "elf_ident R = Inr 2"
  by (simp add: elf_ident_def read_file parts) (simp add: byte_at_def)

definition ex_header :: elf_header where
  "ex_header = \<lparr>eh_machine = 183, eh_program_offset = 64, eh_section_offset = 0, eh_program_size = 56,
     eh_program_count = 2, eh_section_size = 0, eh_section_count = 0, eh_section_name_index = 0\<rparr>"

lemma ex_elf_header: "elf_header R 2 = Inr ex_header"
  unfolding elf_header_def header_fmt_def unpack_def calcsize_def
  by (simp add: read_file parts program_fmt_def checked_end_def ex_header_def)

definition ex_segment :: load_segment where
  "ex_segment = \<lparr>seg_offset = 0, seg_address = 0, seg_file_size = 440, seg_memory_size = 440,
     seg_flags = 5, seg_alignment = 16384\<rparr>"

lemma ex_programs: "elf_programs R 2 ex_header = Inr ([ex_segment], 176, 176, 112)"
  by (simp add: elf_programs_def program_step_def program_fields_def unpack_def calcsize_def program_fmt_def
      checked_end_def ex_header_def read_file parts upt_rec ex_segment_def)

lemma ex_mapped [simp]:
  "mapped_offset [ex_segment] a n label =
     (if a < 0 \<or> n < 0 then Inl (ValueError (label @ '' address is invalid''))
      else if a + n \<le> 440 then Inr a
      else Inl (ValueError (label @ '' is not uniquely file-backed by PT_LOAD'')))"
  by (simp add: mapped_offset_def backs_def ex_segment_def)

definition ex_entries :: "(int \<times> int) list" where
  "ex_entries = [(4, 360), (0x6FFFFEF5, 384), (5, 420), (6, 288), (10, 20), (11, 24)]"

lemma ex_dynamic: "elf_dynamic R 2 [ex_segment] 176 176 112 = Inr ex_entries"
  by (simp add: elf_dynamic_def dynamic_step_def unpack_def calcsize_def dynamic_fmt_def twos_complement_def
      read_file parts upt_rec ex_entries_def tag_values_def critical_tags_def required_tags_def)

definition ex_sysv :: sysv_table where
  "ex_sysv = \<lparr>sv_buckets = [1], sv_chains = [0, 2, 0]\<rparr>"

lemma ex_sysv_table: "sysv_hash_symbol_count R [ex_segment] 360 = Inr ex_sysv"
  by (simp add: sysv_hash_symbol_count_def sysv_entry_def unpack_def unpack1_def calcsize_def read_file parts
      for_range_def upt_rec MAX_HASH_BUCKETS_def MAX_DYNAMIC_SYMBOLS_def ex_sysv_def)

definition ex_gnu :: gnu_table where
  "ex_gnu = \<lparr>gn_symbol_count = 3, gn_symbol_offset = 1, gn_bloom_shift = 5, gn_word_bits = 64,
     gn_bloom = [4611686018696872960], gn_buckets = [1], gn_chains = [23101404, 23908693]\<rparr>"

lemma ex_available: "mapped_available [ex_segment] 412 label = Inr 28"
  by (simp add: mapped_available_def ex_segment_def)

lemma ex_gnu_table: "gnu_hash_symbol_count R [ex_segment] 384 2 = Inr ex_gnu"
  by (simp add: gnu_hash_symbol_count_def bucket_loop_step_def bucket_step_def terminal_def
      terminal_walk.simps chain_word_def ex_available
      unpack_def unpack1_def calcsize_def read_file parts
      for_range_def upt_rec MAX_HASH_BUCKETS_def MAX_DYNAMIC_SYMBOLS_def ex_gnu_def Let_def)

definition ex_tables :: elf_tables where
  "ex_tables = \<lparr>tb_string_address = 420, tb_string_offset = 420, tb_string_size = 20,
     tb_symbol_address = 288, tb_symbol_offset = 288, tb_symbol_count = 3,
     tb_sysv = Some ex_sysv, tb_gnu = Some ex_gnu\<rparr>"

lemma ex_elf_tables: "elf_tables R 2 [ex_segment] ex_entries = Inr ex_tables"
proof -
  have "sv_symbol_count ex_sysv = 3" "gn_symbol_count ex_gnu = 3"
    by (simp_all add: sv_symbol_count_def ex_sysv_def ex_gnu_def)
  then show ?thesis
    by (simp add: elf_tables_def ex_entries_def tag_values_def optional_table_def ex_sysv_table ex_gnu_table
        hash_counts_def calcsize_def symbol_fmt_def read_file part_420_1 [simplified] MAX_DYNAMIC_SYMBOLS_def
        ex_tables_def)
qed

lemma ex_sections: "parse_sections R 2 ex_header = Inr []"
  by (simp add: parse_sections_def ex_header_def)

definition ex_start :: elf_symbol where
  "ex_start = \<lparr>sy_index = 1, sy_binding = 1, sy_type = 2, sy_visibility = 0, sy_section = 5, sy_value = 16\<rparr>"

definition ex_stop :: elf_symbol where
  "ex_stop = \<lparr>sy_index = 2, sy_binding = 1, sy_type = 2, sy_visibility = 0, sy_section = 5, sy_value = 32\<rparr>"

lemma ex_name_start: "read_c_string R 420 20 1 = Inr ''StartCore''"
  by (simp add: read_c_string_def c_string_loop.simps read_file parts MAX_SYMBOL_NAME_BYTES_def)

lemma ex_name_stop: "read_c_string R 420 20 11 = Inr ''StopCore''"
  by (simp add: read_c_string_def c_string_loop.simps read_file parts MAX_SYMBOL_NAME_BYTES_def)

lemma ex_symbol_start: "symbol_at R 2 ex_tables 1 = Inr (''StartCore'', ex_start)"
  by (simp add: symbol_at_def read_symbol_def symbol_fields_def unpack_def calcsize_def symbol_fmt_def
      read_file parts ex_tables_def ex_name_start ex_start_def)

lemma ex_symbol_stop: "symbol_at R 2 ex_tables 2 = Inr (''StopCore'', ex_stop)"
  by (simp add: symbol_at_def read_symbol_def symbol_fields_def unpack_def calcsize_def symbol_fmt_def
      read_file parts ex_tables_def ex_name_stop ex_stop_def)

lemma ex_null_symbol: "read_symbol R 2 ex_tables 0 = Inr [0, 0, 0, 0, 0, 0]"
  by (simp add: read_symbol_def unpack_def calcsize_def symbol_fmt_def read_file parts ex_tables_def)

lemma ex_symbols:
  "elf_symbols R 2 ex_tables
    = Inr ([(''StartCore'', ex_start), (''StopCore'', ex_stop)], [''StopCore'', ''StartCore''])"
proof -
  have "[0..<nat (tb_symbol_count ex_tables)] = [0, 1, 2]" by (simp add: ex_tables_def upt_rec)
  moreover have "externally_visible ex_start" "externally_visible ex_stop"
    by (simp_all add: externally_visible_def ex_start_def ex_stop_def)
  ultimately show ?thesis
    by (simp add: elf_symbols_def symbol_step_def ex_null_symbol ex_symbol_start [simplified] ex_symbol_stop
        REQUIRED_EXPORTS_def)
qed

lemma ex_reach_sysv:
  "sysv_hash_reaches ex_sysv ''StartCore'' 1 = Inr True" "sysv_hash_reaches ex_sysv ''StopCore'' 2 = Inr True"
  by (simp_all add: sysv_hash_reaches_def sysv_chase.simps ex_sysv_def sv_symbol_count_def)

lemma ex_gnu_hash: "gnu_hash ''StartCore'' = 23101404" "gnu_hash ''StopCore'' = 23908692"
  by (simp_all add: gnu_hash_def gnu_hash_step_def)

lemma ex_reach_gnu:
  "gnu_hash_reaches ex_gnu ''StartCore'' 1 = Inr True" "gnu_hash_reaches ex_gnu ''StopCore'' 2 = Inr True"
  by (simp_all add: gnu_hash_reaches_def ex_gnu_hash bloom_passes_def ex_gnu_def gnu_chase.simps Let_def)

lemma ex_required:
  "foldE (check_required [ex_segment] ex_tables [(''StartCore'', ex_start), (''StopCore'', ex_stop)]) ()
     REQUIRED_EXPORTS = Inr ()"
proof -
  have "executable_at [ex_segment] 16" "executable_at [ex_segment] 32"
    by (simp_all add: executable_at_def ex_segment_def)
  then show ?thesis
    by (simp add: REQUIRED_EXPORTS_def check_required_def require_reachable_def ex_tables_def ex_start_def ex_stop_def
        ex_reach_sysv ex_reach_gnu)
qed

section \<open>The inspection of the example\<close>

definition ex_info :: "string \<Rightarrow> elf_info" where
  "ex_info digest = \<lparr>ei_class = 2, ei_machine = 183, ei_machine_name = ''EM_AARCH64'',
     ei_exports = [''StopCore'', ''StartCore''], ei_load_alignments = [16384], ei_size = 440,
     ei_sha256 = digest\<rparr>"

lemma ex_inspect: "inspect_reader R digest = Inr (ex_info digest)"
proof -
  have "same_elems [''StopCore'', ''StartCore''] REQUIRED_EXPORTS"
    by (simp add: same_elems_def REQUIRED_EXPORTS_def)
  then show ?thesis
    by (simp add: inspect_reader_def ex_ident ex_elf_header ex_programs ex_dynamic ex_elf_tables ex_sections
        cross_check_dynamic_sections_def ex_symbols ex_required ex_info_def)
       (simp add: ex_header_def machine_name_of_def ABI_LAYOUT_def ex_segment_def)
qed

section \<open>Instances of the properties\<close>

lemma read_exact_witness:
  "read_at \<lparr>rd_descriptor = short_reads 6 example_elf, rd_size = 440\<rparr> 16 4 ''word''
    = Inr [CHR 0x03, CHR 0x00, CHR 0xB7, CHR 0x00]"
  using read_exact [OF short.pread_contract_axioms [of 6 example_elf], of 16 4 "''word''"]
  by (simp add: example_elf_def)

lemma inspection_witness:
  "(let r = \<lparr>rd_descriptor = short_reads 6 example_elf, rd_size = 440\<rparr>
    in bindE (digest_descriptor r) (\<lambda>digest. inspect_reader r digest))
   = Inr (ex_info (sha256_hex example_elf))"
  using inspection_of_contents [OF short.pread_contract_axioms [of 6 example_elf]] ex_inspect by simp

lemma memoised_chain_witness:
  "bindE (foldE (bucket_step (\<lambda>k. Inr k) 1 4) ([], 0) [2, 3]) (\<lambda>(ts, m'). Inr m')
    = foldE (bucket_step_plain (\<lambda>k. Inr k) 1 4) 0 [2, 3]"
  by (rule memoised_chain_walk) (simp add: memo_ok_def)


end
