(* ===== verification/Os_Model.thy ===== *)
theory Os_Model
  imports Py_Regex Sha256
begin

text \<open>
  The operating system below the scripts that handle files: inodes, directories, descriptors, the
  system calls \<open>os\<close> exposes, and an environment that may act before every call. A script is a
  function of the world (\<open>io\<close>); every system call takes one event of the schedule, in which the
  environment may change the file system in any way, make the call fail, or shorten a transfer.
  When the schedule is used up, the environment is quiet.
\<close>

section \<open>Paths\<close>

text \<open>A path is the list of its parts; \<open>posix_parts\<close> is \<open>PurePosixPath(s).parts\<close> of a relative path.\<close>

type_synonym path = "string list"

fun split_on :: "char \<Rightarrow> string \<Rightarrow> string list" where
  "split_on d [] = [[]]"
| "split_on d (c # s) =
     (if c = d then [] # split_on d s
      else case split_on d s of [] \<Rightarrow> [[c]] | p # ps \<Rightarrow> (c # p) # ps)"

lemma split_on_single: "d \<notin> set s \<Longrightarrow> split_on d s = [s]"
  by (induction s) auto

definition posix_parts :: "string \<Rightarrow> string list" where
  "posix_parts s = filter (\<lambda>p. p \<noteq> [] \<and> p \<noteq> ''.'') (split_on (CHR ''/'') s)"

fun join_with :: "string \<Rightarrow> string list \<Rightarrow> string" where
  "join_with sep [] = []"
| "join_with sep [p] = p"
| "join_with sep (p # ps) = p @ sep @ join_with sep ps"

definition as_posix :: "string \<Rightarrow> string" where
  "as_posix s = (if posix_parts s = [] then ''.'' else join_with ''/'' (posix_parts s))"

definition is_absolute :: "string \<Rightarrow> bool" where
  "is_absolute s \<longleftrightarrow> startswith s ''/''"

definition path_name :: "path \<Rightarrow> string" where
  "path_name p = (if p = [] then [] else last p)"

section \<open>Files\<close>

datatype content = File bytes | Folder "(string \<times> nat) list" | Special

record inode =
  n_dev :: nat
  n_content :: content
  n_perm :: nat
  n_nlink :: nat
  n_mtime :: nat
  n_ctime :: nat

datatype file_type = Regular | Directory | Other_type

record stat_result =
  st_dev :: nat
  st_ino :: nat
  st_type :: file_type
  st_perm :: nat
  st_nlink :: nat
  st_size :: nat
  st_mtime :: nat
  st_ctime :: nat

fun content_type :: "content \<Rightarrow> file_type" where
  "content_type (File b) = Regular"
| "content_type (Folder es) = Directory"
| "content_type Special = Other_type"

fun content_size :: "content \<Rightarrow> nat" where
  "content_size (File b) = length b"
| "content_size (Folder es) = length es"
| "content_size Special = 0"

definition stat_of :: "nat \<Rightarrow> inode \<Rightarrow> stat_result" where
  "stat_of ino n = \<lparr>st_dev = n_dev n, st_ino = ino, st_type = content_type (n_content n),
     st_perm = n_perm n, st_nlink = n_nlink n, st_size = content_size (n_content n),
     st_mtime = n_mtime n, st_ctime = n_ctime n\<rparr>"

text \<open>
  The file system: inodes, what a path leads to (links followed), the canonical path of what it leads
  to, the clock and the next free inode number.
\<close>

record fs =
  fs_inode :: "nat \<Rightarrow> inode option"
  fs_path :: "path \<Rightarrow> nat option"
  fs_canonical :: "path \<Rightarrow> path"
  fs_clock :: nat
  fs_next :: nat

section \<open>Worlds and scripts\<close>

record event =
  ev_change :: "fs \<Rightarrow> fs"
  ev_fault :: bool
  ev_limit :: "nat option"

record world =
  w_fs :: fs
  w_fds :: "(nat \<times> nat) list"
  w_pos :: "nat \<Rightarrow> nat"
  w_schedule :: "event list"

type_synonym 'a io = "world \<Rightarrow> 'a res \<times> world"

definition returnI :: "'a \<Rightarrow> 'a io" where
  "returnI x w = (Inr x, w)"

definition raiseI :: "err \<Rightarrow> 'a io" where
  "raiseI e w = (Inl e, w)"

definition liftI :: "'a res \<Rightarrow> 'a io" where
  "liftI r w = (r, w)"

definition bindI :: "'a io \<Rightarrow> ('a \<Rightarrow> 'b io) \<Rightarrow> 'b io" where
  "bindI m f w = (case m w of (Inl e, w') \<Rightarrow> (Inl e, w') | (Inr x, w') \<Rightarrow> f x w')"

text \<open>\<open>try: m finally: c\<close>: an exception of \<open>c\<close> replaces the outcome of \<open>m\<close>.\<close>

definition finallyI :: "'a io \<Rightarrow> unit io \<Rightarrow> 'a io" where
  "finallyI m c w =
     (case m w of (r, w') \<Rightarrow> (case c w' of (Inl e, w'') \<Rightarrow> (Inl e, w'') | (Inr _, w'') \<Rightarrow> (r, w'')))"

text \<open>\<open>try: m except BaseException: c; raise\<close>\<close>

definition on_errorI :: "'a io \<Rightarrow> unit io \<Rightarrow> 'a io" where
  "on_errorI m c w =
     (case m w of
        (Inr x, w') \<Rightarrow> (Inr x, w')
      | (Inl e, w') \<Rightarrow> (case c w' of (Inl e', w'') \<Rightarrow> (Inl e', w'') | (Inr _, w'') \<Rightarrow> (Inl e, w'')))"

definition is_os_error :: "err \<Rightarrow> bool" where
  "is_os_error e = (case e of OSError _ \<Rightarrow> True | _ \<Rightarrow> False)"

text \<open>\<open>try: m except OSError as error: raise e from error\<close>\<close>

definition os_errorI :: "'a io \<Rightarrow> err \<Rightarrow> 'a io" where
  "os_errorI m e w =
     (case m w of
        (Inl e', w') \<Rightarrow> (Inl (if is_os_error e' then e else e'), w')
      | (Inr x, w') \<Rightarrow> (Inr x, w'))"

text \<open>\<open>try: m except OSError: pass\<close>\<close>

definition ignore_os_errorI :: "unit io \<Rightarrow> unit io" where
  "ignore_os_errorI m w =
     (case m w of
        (Inl e, w') \<Rightarrow> (if is_os_error e then (Inr (), w') else (Inl e, w'))
      | (Inr x, w') \<Rightarrow> (Inr x, w'))"

fun mapI :: "('a \<Rightarrow> 'b io) \<Rightarrow> 'a list \<Rightarrow> 'b list io" where
  "mapI f [] = returnI []"
| "mapI f (x # xs) = bindI (f x) (\<lambda>y. bindI (mapI f xs) (\<lambda>ys. returnI (y # ys)))"

section \<open>System calls\<close>

text \<open>A system call: the environment acts, the call may fail, otherwise it takes effect.\<close>

definition syscall :: "(nat option \<Rightarrow> world \<Rightarrow> 'a res \<times> world) \<Rightarrow> 'a io" where
  "syscall act w =
     (case w_schedule w of
        [] \<Rightarrow> act None w
      | ev # evs \<Rightarrow>
          let w' = w\<lparr>w_fs := ev_change ev (w_fs w), w_schedule := evs\<rparr> in
          if ev_fault ev then (Inl (OSError ''fault''), w') else act (ev_limit ev) w')"

definition fail :: "string \<Rightarrow> world \<Rightarrow> 'a res \<times> world" where
  "fail m w = (Inl (OSError m), w)"

definition inode_of :: "world \<Rightarrow> nat \<Rightarrow> (nat \<times> inode) option" where
  "inode_of w fd =
     (case map_of (w_fds w) fd of None \<Rightarrow> None
      | Some ino \<Rightarrow> (case fs_inode (w_fs w) ino of None \<Rightarrow> None | Some n \<Rightarrow> Some (ino, n)))"

definition entries_of :: "world \<Rightarrow> nat \<Rightarrow> (string \<times> nat) list option" where
  "entries_of w fd =
     (case inode_of w fd of None \<Rightarrow> None
      | Some (ino, n) \<Rightarrow> (case n_content n of Folder es \<Rightarrow> Some es | _ \<Rightarrow> None))"

definition lookup_at :: "world \<Rightarrow> nat \<Rightarrow> string \<Rightarrow> (nat \<times> inode) option" where
  "lookup_at w fd name =
     (case entries_of w fd of None \<Rightarrow> None
      | Some es \<Rightarrow> (case map_of es name of None \<Rightarrow> None
          | Some ino \<Rightarrow> (case fs_inode (w_fs w) ino of None \<Rightarrow> None | Some n \<Rightarrow> Some (ino, n))))"

definition lookup_path :: "world \<Rightarrow> path \<Rightarrow> (nat \<times> inode) option" where
  "lookup_path w p =
     (case fs_path (w_fs w) p of None \<Rightarrow> None
      | Some ino \<Rightarrow> (case fs_inode (w_fs w) ino of None \<Rightarrow> None | Some n \<Rightarrow> Some (ino, n)))"

text \<open>A descriptor number that is not in use.\<close>

definition fresh_fd :: "world \<Rightarrow> nat" where
  "fresh_fd w = foldl max 2 (map fst (w_fds w)) + 1"

definition new_fd :: "nat \<Rightarrow> world \<Rightarrow> nat res \<times> world" where
  "new_fd ino w =
     (let fd = fresh_fd w in
      (Inr fd, w\<lparr>w_fds := (fd, ino) # w_fds w, w_pos := (w_pos w)(fd := 0)\<rparr>))"

definition os_lstat :: "path \<Rightarrow> stat_result io" where
  "os_lstat p = syscall (\<lambda>_ w. case lookup_path w p of
       None \<Rightarrow> fail ''lstat'' w | Some (ino, n) \<Rightarrow> (Inr (stat_of ino n), w))"

definition os_stat_at :: "string \<Rightarrow> nat \<Rightarrow> stat_result io" where
  "os_stat_at name fd = syscall (\<lambda>_ w. case lookup_at w fd name of
       None \<Rightarrow> fail ''stat'' w | Some (ino, n) \<Rightarrow> (Inr (stat_of ino n), w))"

definition os_fstat :: "nat \<Rightarrow> stat_result io" where
  "os_fstat fd = syscall (\<lambda>_ w. case inode_of w fd of
       None \<Rightarrow> fail ''fstat'' w | Some (ino, n) \<Rightarrow> (Inr (stat_of ino n), w))"

text \<open>\<open>O_RDONLY | O_DIRECTORY | O_NOFOLLOW\<close> on a path and on a name in a directory.\<close>

definition os_open_dir :: "path \<Rightarrow> nat io" where
  "os_open_dir p = syscall (\<lambda>_ w. case lookup_path w p of
       Some (ino, n) \<Rightarrow> if content_type (n_content n) = Directory then new_fd ino w else fail ''open'' w
     | None \<Rightarrow> fail ''open'' w)"

definition os_open_dir_at :: "string \<Rightarrow> nat \<Rightarrow> nat io" where
  "os_open_dir_at name fd = syscall (\<lambda>_ w. case lookup_at w fd name of
       Some (ino, n) \<Rightarrow> if content_type (n_content n) = Directory then new_fd ino w else fail ''open'' w
     | None \<Rightarrow> fail ''open'' w)"

text \<open>\<open>O_RDONLY | O_NOFOLLOW | O_NONBLOCK\<close> on a name in a directory, and \<open>open(path, "rb")\<close>.\<close>

definition os_open_read_at :: "string \<Rightarrow> nat \<Rightarrow> nat io" where
  "os_open_read_at name fd = syscall (\<lambda>_ w. case lookup_at w fd name of
       Some (ino, n) \<Rightarrow> if n_content n = Special then fail ''open'' w else new_fd ino w
     | None \<Rightarrow> fail ''open'' w)"

definition os_open_read :: "path \<Rightarrow> nat io" where
  "os_open_read p = syscall (\<lambda>_ w. case lookup_path w p of
       Some (ino, n) \<Rightarrow> if content_type (n_content n) = Regular then new_fd ino w else fail ''open'' w
     | None \<Rightarrow> fail ''open'' w)"

text \<open>A close that reports an error has released the descriptor; a descriptor that is not open is refused.\<close>

definition os_close :: "nat \<Rightarrow> unit io" where
  "os_close fd w =
     syscall (\<lambda>_ w'. if map_of (w_fds w) fd = None then fail ''close'' w' else (Inr (), w'))
       (w\<lparr>w_fds := filter (\<lambda>p. fst p \<noteq> fd) (w_fds w)\<rparr>)"

definition transferred :: "nat option \<Rightarrow> nat \<Rightarrow> nat" where
  "transferred limit n = (case limit of None \<Rightarrow> n | Some m \<Rightarrow> min n (Suc m))"

definition os_read :: "nat \<Rightarrow> nat \<Rightarrow> bytes io" where
  "os_read fd n = syscall (\<lambda>limit w. case inode_of w fd of
       Some (ino, nd) \<Rightarrow> (case n_content nd of
           File b \<Rightarrow>
             let chunk = take (transferred limit n) (drop (w_pos w fd) b) in
             (Inr chunk, w\<lparr>w_pos := (w_pos w)(fd := w_pos w fd + length chunk)\<rparr>)
         | _ \<Rightarrow> fail ''read'' w)
     | None \<Rightarrow> fail ''read'' w)"

definition os_listdir :: "nat \<Rightarrow> string list io" where
  "os_listdir fd = syscall (\<lambda>_ w. case entries_of w fd of
       None \<Rightarrow> fail ''listdir'' w | Some es \<Rightarrow> (Inr (map fst es), w))"

definition set_inode :: "nat \<Rightarrow> inode \<Rightarrow> world \<Rightarrow> world" where
  "set_inode ino n w = w\<lparr>w_fs := (w_fs w)\<lparr>fs_inode := (fs_inode (w_fs w))(ino \<mapsto> n),
                                        fs_clock := Suc (fs_clock (w_fs w))\<rparr>\<rparr>"

text \<open>A write at the position of the descriptor, which the scripts only do on files they created.\<close>

definition os_write :: "nat \<Rightarrow> bytes \<Rightarrow> nat io" where
  "os_write fd data = syscall (\<lambda>limit w. case inode_of w fd of
       Some (ino, nd) \<Rightarrow> (case n_content nd of
           File b \<Rightarrow>
             let n = (case limit of None \<Rightarrow> length data | Some m \<Rightarrow> min (length data) m);
                 pos = w_pos w fd;
                 b' = take pos b @ replicate (pos - length b) (CHR 0x00) @ take n data @ drop (pos + n) b
             in (Inr n, set_inode ino (nd\<lparr>n_content := File b', n_mtime := fs_clock (w_fs w),
                                          n_ctime := fs_clock (w_fs w)\<rparr>)
                          (w\<lparr>w_pos := (w_pos w)(fd := pos + n)\<rparr>))
         | _ \<Rightarrow> fail ''write'' w)
     | None \<Rightarrow> fail ''write'' w)"

text \<open>A new inode entered under a name of the directory of a descriptor.\<close>

definition create_entry :: "string \<Rightarrow> nat \<Rightarrow> content \<Rightarrow> nat \<Rightarrow> world \<Rightarrow> (nat \<times> world) option" where
  "create_entry name perm content fd w =
     (case inode_of w fd of
        Some (dino, dn) \<Rightarrow> (case n_content dn of
            Folder es \<Rightarrow>
              (case map_of es name of
                 Some _ \<Rightarrow> None
               | None \<Rightarrow>
                   let ino = fs_next (w_fs w); t = fs_clock (w_fs w);
                       n = \<lparr>n_dev = n_dev dn, n_content = content, n_perm = perm, n_nlink = 1,
                            n_mtime = t, n_ctime = t\<rparr>;
                       w1 = set_inode dino (dn\<lparr>n_content := Folder ((name, ino) # es), n_mtime := t, n_ctime := t\<rparr>) w;
                       w2 = set_inode ino n w1
                   in Some (ino, w2\<lparr>w_fs := (w_fs w2)\<lparr>fs_next := Suc ino\<rparr>\<rparr>))
          | _ \<Rightarrow> None)
      | None \<Rightarrow> None)"

text \<open>\<open>O_WRONLY | O_CREAT | O_EXCL | O_NOFOLLOW\<close>, \<open>mkdir\<close>, \<open>unlink\<close>, \<open>fsync\<close>.\<close>

definition os_create_at :: "string \<Rightarrow> nat \<Rightarrow> nat \<Rightarrow> nat io" where
  "os_create_at name perm fd = syscall (\<lambda>_ w. case create_entry name perm (File []) fd w of
       None \<Rightarrow> fail ''open'' w | Some (ino, w') \<Rightarrow> new_fd ino w')"

definition os_mkdir_at :: "string \<Rightarrow> nat \<Rightarrow> nat \<Rightarrow> unit io" where
  "os_mkdir_at name perm fd = syscall (\<lambda>_ w. case create_entry name perm (Folder []) fd w of
       None \<Rightarrow> fail ''mkdir'' w | Some (ino, w') \<Rightarrow> (Inr (), w'))"

definition os_unlink_at :: "string \<Rightarrow> nat \<Rightarrow> unit io" where
  "os_unlink_at name fd = syscall (\<lambda>_ w. case lookup_at w fd name of
       None \<Rightarrow> fail ''unlink'' w
     | Some (ino, n) \<Rightarrow> (case inode_of w fd of
           None \<Rightarrow> fail ''unlink'' w
         | Some (dino, dn) \<Rightarrow> (case n_content dn of
               Folder es \<Rightarrow>
                 if content_type (n_content n) = Directory then fail ''unlink'' w
                 else
                   let t = fs_clock (w_fs w) in
                   (Inr (), set_inode dino (dn\<lparr>n_content := Folder (filter (\<lambda>e. fst e \<noteq> name) es), n_mtime := t, n_ctime := t\<rparr>)
                      (set_inode ino (n\<lparr>n_nlink := n_nlink n - 1, n_ctime := t\<rparr>) w))
             | _ \<Rightarrow> fail ''unlink'' w)))"

definition os_fsync :: "nat \<Rightarrow> unit io" where
  "os_fsync fd = syscall (\<lambda>_ w. case inode_of w fd of None \<Rightarrow> fail ''fsync'' w | Some _ \<Rightarrow> (Inr (), w))"

end
