(* ===== verification/Os_Rules.thy ===== *)
theory Os_Rules
  imports Os_Model
begin

text \<open>
  Rules about scripts: when a script returns a value (\<open>io_iff\<close>), which scripts give every
  descriptor back (\<open>balanced\<close>) or open exactly one (\<open>opens\<close>), under every schedule of the
  environment; and what an environment that keeps time (every change of an inode gets a new
  change time) can do to a script (\<open>progress\<close>), with the lemma that two equal identities enclose a
  period in which an inode did not change.
\<close>

section \<open>When a script returns a value\<close>

named_theorems io_iff \<open>when a composed script returns a value\<close>
named_theorems os_iff \<open>when a system call returns a value\<close>

lemma returnI_iff [io_iff]: "returnI x w = (Inr y, w') \<longleftrightarrow> y = x \<and> w' = w"
  by (auto simp: returnI_def)

lemma raiseI_iff [io_iff]: "raiseI e w = (Inr y, w') \<longleftrightarrow> False"
  by (simp add: raiseI_def)

lemma liftI_iff [io_iff]: "liftI r w = (Inr y, w') \<longleftrightarrow> r = Inr y \<and> w' = w"
  by (auto simp: liftI_def)

lemma bindI_iff [io_iff]:
  "bindI m f w = (Inr y, w') \<longleftrightarrow> (\<exists>x w1. m w = (Inr x, w1) \<and> f x w1 = (Inr y, w'))"
  by (auto simp: bindI_def split: prod.splits sum.splits)

lemma finallyI_iff [io_iff]:
  "finallyI m c w = (Inr y, w') \<longleftrightarrow> (\<exists>w1. m w = (Inr y, w1) \<and> c w1 = (Inr (), w'))"
  by (auto simp: finallyI_def split: prod.splits sum.splits)

lemma on_errorI_iff [io_iff]: "on_errorI m c w = (Inr y, w') \<longleftrightarrow> m w = (Inr y, w')"
  by (auto simp: on_errorI_def split: prod.splits sum.splits)

lemma os_errorI_iff [io_iff]: "os_errorI m e w = (Inr y, w') \<longleftrightarrow> m w = (Inr y, w')"
  by (auto simp: os_errorI_def split: prod.splits sum.splits)

lemma if_raiseI_iff [io_iff]:
  "(if c then raiseI e else k) w = (Inr y, w') \<longleftrightarrow> \<not> c \<and> k w = (Inr y, w')"
  by (simp add: raiseI_def)

lemma case_prod_io_iff: "(case p of (a, b) \<Rightarrow> f a b) w = f (fst p) (snd p) w"
  by (simp add: case_prod_beta)

lemma syscall_quiet [simp]: "w_schedule w = [] \<Longrightarrow> syscall act w = act None w"
  by (simp add: syscall_def)

text \<open>One step of the environment before a system call that does not fail.\<close>

definition env_step :: "world \<Rightarrow> nat option \<Rightarrow> world \<Rightarrow> bool" where
  "env_step w limit w' \<longleftrightarrow>
     (w_schedule w = [] \<and> limit = None \<and> w' = w) \<or>
     (\<exists>ev evs. w_schedule w = ev # evs \<and> \<not> ev_fault ev \<and> limit = ev_limit ev \<and>
        w' = w\<lparr>w_fs := ev_change ev (w_fs w), w_schedule := evs\<rparr>)"

lemma syscall_iff:
  "syscall act w = (Inr y, w') \<longleftrightarrow> (\<exists>limit w1. env_step w limit w1 \<and> act limit w1 = (Inr y, w'))"
  unfolding syscall_def env_step_def by (cases "w_schedule w") (auto simp: Let_def)

lemma env_step_fds [simp]: "env_step w limit w' \<Longrightarrow> w_fds w' = w_fds w"
  by (auto simp: env_step_def)

lemma env_step_pos [simp]: "env_step w limit w' \<Longrightarrow> w_pos w' = w_pos w"
  by (auto simp: env_step_def)

lemma inode_of_eq:
  "inode_of w fd = Some (ino, n) \<longleftrightarrow> map_of (w_fds w) fd = Some ino \<and> fs_inode (w_fs w) ino = Some n"
  by (auto simp: inode_of_def split: option.splits)

lemma lookup_at_pos [simp]: "lookup_at (w\<lparr>w_pos := p\<rparr>) d name = lookup_at w d name"
  by (simp add: lookup_at_def entries_of_def inode_of_def cong: option.case_cong)

lemma found_iff:
  "(case z of None \<Rightarrow> fail e w | Some p \<Rightarrow> (case p of (a, b) \<Rightarrow> f a b)) = (Inr y, w') \<longleftrightarrow>
     (\<exists>a b. z = Some (a, b) \<and> f a b = (Inr y, w'))"
  "(case z of None \<Rightarrow> fail e w | Some p \<Rightarrow> f (fst p) (snd p)) = (Inr y, w') \<longleftrightarrow>
     (\<exists>a b. z = Some (a, b) \<and> f a b = (Inr y, w'))"
  by (cases z; auto simp: fail_def)+

lemma if_fail_iff:
  "(if c then fail e w else k) = (Inr y, w') \<longleftrightarrow> \<not> c \<and> k = (Inr y, w')"
  "(if c then k else fail e w) = (Inr y, w') \<longleftrightarrow> c \<and> k = (Inr y, w')"
  by (auto simp: fail_def)

lemma os_fstat_iff [os_iff]:
  "os_fstat fd w = (Inr s, w') \<longleftrightarrow>
     (\<exists>limit ino n. env_step w limit w' \<and> map_of (w_fds w') fd = Some ino \<and>
        fs_inode (w_fs w') ino = Some n \<and> s = stat_of ino n)"
  unfolding os_fstat_def syscall_iff found_iff inode_of_eq by auto

lemma os_stat_at_iff [os_iff]:
  "os_stat_at name fd w = (Inr s, w') \<longleftrightarrow>
     (\<exists>limit ino n. env_step w limit w' \<and> lookup_at w' fd name = Some (ino, n) \<and> s = stat_of ino n)"
  unfolding os_stat_at_def syscall_iff found_iff by auto

lemma os_open_read_at_iff [os_iff]:
  "os_open_read_at name fd w = (Inr d, w') \<longleftrightarrow>
     (\<exists>limit w1 ino n. env_step w limit w1 \<and> lookup_at w1 fd name = Some (ino, n) \<and>
        n_content n \<noteq> Special \<and> d = fresh_fd w1 \<and>
        w' = w1\<lparr>w_fds := (d, ino) # w_fds w1, w_pos := (w_pos w1)(d := 0)\<rparr>)"
  unfolding os_open_read_at_def syscall_iff found_iff if_fail_iff new_fd_def Let_def by auto

definition without_fd :: "nat \<Rightarrow> world \<Rightarrow> world" where
  "without_fd fd w = w\<lparr>w_fds := filter (\<lambda>p. fst p \<noteq> fd) (w_fds w)\<rparr>"

lemma os_close_iff [os_iff]:
  "os_close fd w = (Inr u, w') \<longleftrightarrow>
     map_of (w_fds w) fd \<noteq> None \<and> (\<exists>limit. env_step (without_fd fd w) limit w')"
  unfolding os_close_def syscall_iff without_fd_def by (auto simp: fail_def)

lemma os_read_iff [os_iff]:
  "os_read fd n w = (Inr chunk, w') \<longleftrightarrow>
     (\<exists>limit w1 ino nd b. env_step w limit w1 \<and> map_of (w_fds w1) fd = Some ino \<and>
        fs_inode (w_fs w1) ino = Some nd \<and> n_content nd = File b \<and>
        chunk = take (transferred limit n) (drop (w_pos w1 fd) b) \<and>
        w' = w1\<lparr>w_pos := (w_pos w1)(fd := w_pos w1 fd + length chunk)\<rparr>)"
proof -
  have regular: "(case c of File b \<Rightarrow> f b | _ \<Rightarrow> fail e v) = (Inr y, v') \<longleftrightarrow>
      (\<exists>b. c = File b \<and> f b = (Inr y, v'))" for c f e v and y :: bytes and v'
    by (cases c) (auto simp: fail_def)
  show ?thesis unfolding os_read_def syscall_iff found_iff inode_of_eq regular Let_def prod.inject sum.inject
    by blast
qed

section \<open>Descriptors\<close>

definition balanced :: "'a io \<Rightarrow> bool" where
  "balanced m \<longleftrightarrow> (\<forall>w. w_fds (snd (m w)) = w_fds w)"

text \<open>A script that raises with the descriptors it found, or returns with one more.\<close>

definition opens :: "('a \<Rightarrow> nat) \<Rightarrow> 'a io \<Rightarrow> bool" where
  "opens fd m \<longleftrightarrow> (\<forall>w. case m w of
      (Inl e, w') \<Rightarrow> w_fds w' = w_fds w
    | (Inr x, w') \<Rightarrow> fd x \<notin> fst ` set (w_fds w) \<and> (\<exists>ino. w_fds w' = (fd x, ino) # w_fds w))"

lemma balancedD: "balanced m \<Longrightarrow> m w = (r, w') \<Longrightarrow> w_fds w' = w_fds w"
  unfolding balanced_def by (metis snd_conv)

lemma opens_errorD: "opens fd m \<Longrightarrow> m w = (Inl e, w') \<Longrightarrow> w_fds w' = w_fds w"
  unfolding opens_def by (drule spec [of _ w]) simp

lemma opensD:
  "opens fd m \<Longrightarrow> m w = (Inr x, w') \<Longrightarrow>
     fd x \<notin> fst ` set (w_fds w) \<and> (\<exists>ino. w_fds w' = (fd x, ino) # w_fds w)"
  unfolding opens_def by (drule spec [of _ w]) simp

lemma opensI:
  assumes "\<And>w e w'. m w = (Inl e, w') \<Longrightarrow> w_fds w' = w_fds w"
    and "\<And>w x w'. m w = (Inr x, w') \<Longrightarrow>
       fd x \<notin> fst ` set (w_fds w) \<and> (\<exists>ino. w_fds w' = (fd x, ino) # w_fds w)"
  shows "opens fd m"
  unfolding opens_def using assms by (simp split: prod.split sum.split)

lemma bindI_Inl_iff:
  "bindI m f w = (Inl e, w') \<longleftrightarrow>
     m w = (Inl e, w') \<or> (\<exists>x w1. m w = (Inr x, w1) \<and> f x w1 = (Inl e, w'))"
  by (auto simp: bindI_def split: prod.splits sum.splits)

named_theorems balanced_intro \<open>which scripts give every descriptor back\<close>

lemma balanced_returnI [balanced_intro]: "balanced (returnI x)"
  by (simp add: balanced_def returnI_def)

lemma balanced_raiseI [balanced_intro]: "balanced (raiseI e)"
  by (simp add: balanced_def raiseI_def)

lemma balanced_liftI [balanced_intro]: "balanced (liftI r)"
  by (simp add: balanced_def liftI_def)

lemma balanced_bindI [balanced_intro]: "balanced m \<Longrightarrow> (\<And>x. balanced (f x)) \<Longrightarrow> balanced (bindI m f)"
  unfolding balanced_def bindI_def by (auto split: prod.splits sum.splits) (metis snd_conv)+

lemma balanced_if [balanced_intro]: "balanced a \<Longrightarrow> balanced b \<Longrightarrow> balanced (if c then a else b)"
  by simp

lemma balanced_Let [balanced_intro]: "balanced (f x) \<Longrightarrow> balanced (let y = x in f y)"
  by simp

lemma balanced_case_prod [balanced_intro]:
  "(\<And>a b. balanced (f a b)) \<Longrightarrow> balanced (case p of (a, b) \<Rightarrow> f a b)"
  by (cases p) simp

lemma balanced_case_option [balanced_intro]:
  "balanced a \<Longrightarrow> (\<And>x. balanced (f x)) \<Longrightarrow> balanced (case z of None \<Rightarrow> a | Some x \<Rightarrow> f x)"
  by (cases z) simp_all

lemma balanced_finallyI [balanced_intro]: "balanced m \<Longrightarrow> balanced c \<Longrightarrow> balanced (finallyI m c)"
  unfolding balanced_def finallyI_def by (auto split: prod.splits sum.splits) (metis snd_conv)+

lemma balanced_os_errorI [balanced_intro]: "balanced m \<Longrightarrow> balanced (os_errorI m e)"
  unfolding balanced_def os_errorI_def by (auto split: prod.splits sum.splits) (metis snd_conv)+

lemma balanced_ignore [balanced_intro]: "balanced m \<Longrightarrow> balanced (ignore_os_errorI m)"
  unfolding balanced_def ignore_os_errorI_def by (auto split: prod.splits sum.splits) (metis snd_conv)+

lemma balanced_on_errorI [balanced_intro]: "balanced m \<Longrightarrow> balanced c \<Longrightarrow> balanced (on_errorI m c)"
  unfolding balanced_def on_errorI_def by (auto split: prod.splits sum.splits) (metis snd_conv)+

lemma balanced_mapI [balanced_intro]: "(\<And>x. balanced (f x)) \<Longrightarrow> balanced (mapI f xs)"
  by (induction xs) (auto intro!: balanced_intro)

text \<open>A system call that keeps the descriptors of the world it finds is balanced.\<close>

lemma balanced_syscall:
  assumes "\<And>limit w. w_fds (snd (act limit w)) = w_fds w"
  shows "balanced (syscall act)"
  unfolding balanced_def syscall_def by (auto simp: assms Let_def split: list.splits)

lemma fds_set_inode [simp]: "w_fds (set_inode ino n w) = w_fds w"
  by (simp add: set_inode_def)

lemma fds_create_entry: "create_entry name perm c fd w = Some (ino, w') \<Longrightarrow> w_fds w' = w_fds w"
  by (auto simp: create_entry_def Let_def split: option.splits prod.splits content.splits)

lemmas syscall_defs = os_lstat_def os_stat_at_def os_fstat_def os_listdir_def os_read_def os_write_def
  os_fsync_def os_unlink_at_def os_mkdir_at_def

lemma balanced_syscalls [balanced_intro]:
  "balanced (os_lstat p)" "balanced (os_stat_at name fd)" "balanced (os_fstat fd)"
  "balanced (os_listdir fd)" "balanced (os_read fd n)" "balanced (os_write fd data)"
  "balanced (os_fsync fd)" "balanced (os_unlink_at name fd)" "balanced (os_mkdir_at name perm fd)"
  unfolding syscall_defs
  by (rule balanced_syscall,
      auto simp: fail_def Let_def dest: fds_create_entry split: option.splits prod.splits content.splits)+

lemma fresh_fd_greater: "x \<in> fst ` set (w_fds w) \<Longrightarrow> x < fresh_fd w"
proof -
  have le: "x \<le> foldl max m xs" if "x \<in> set xs \<or> x \<le> m" for m and xs :: "nat list"
    using that by (induction xs arbitrary: m) (auto simp: le_max_iff_disj)
  assume "x \<in> fst ` set (w_fds w)"
  hence "x \<in> set (map fst (w_fds w))" by simp
  thus ?thesis using le [of "map fst (w_fds w)" 2] by (simp add: fresh_fd_def less_Suc_eq_le)
qed

lemma fresh_fd_new: "fresh_fd w \<notin> fst ` set (w_fds w)"
  using fresh_fd_greater by blast

lemma fresh_fd_unused [simp]: "(fresh_fd w, ino) \<notin> set (w_fds w)"
  using fresh_fd_new [of w] by force

text \<open>A system call that opens: it keeps the descriptors and fails, or adds the fresh one.\<close>

lemma opens_syscall:
  assumes "\<And>limit w. case act limit w of
      (Inl e, w') \<Rightarrow> w_fds w' = w_fds w
    | (Inr fd, w') \<Rightarrow> fd = fresh_fd w \<and> (\<exists>ino. w_fds w' = (fd, ino) # w_fds w)"
  shows "opens (\<lambda>fd. fd) (syscall act)"
  unfolding opens_def
proof
  fix w
  have ok: "case act limit w of (Inl e, w') \<Rightarrow> w_fds w' = w_fds w
    | (Inr fd, w') \<Rightarrow> fd \<notin> fst ` set (w_fds w) \<and> (\<exists>ino. w_fds w' = (fd, ino) # w_fds w)" for limit w
    using assms [of w limit] fresh_fd_new [of w] by (auto split: prod.splits sum.splits)
  show "case syscall act w of (Inl e, w') \<Rightarrow> w_fds w' = w_fds w
    | (Inr x, w') \<Rightarrow> x \<notin> fst ` set (w_fds w) \<and> (\<exists>ino. w_fds w' = (x, ino) # w_fds w)"
  proof (cases "w_schedule w")
    case Nil
    thus ?thesis using ok [where limit = None and w = w] by (simp add: syscall_def)
  next
    case (Cons ev evs)
    thus ?thesis
      using ok [where limit = "ev_limit ev" and w = "w\<lparr>w_fs := ev_change ev (w_fs w), w_schedule := evs\<rparr>"]
      by (auto simp: syscall_def Let_def split: prod.splits sum.splits)
  qed
qed

lemma opens_syscalls:
  "opens (\<lambda>fd. fd) (os_open_dir p)" "opens (\<lambda>fd. fd) (os_open_dir_at name fd0)"
  "opens (\<lambda>fd. fd) (os_open_read p)" "opens (\<lambda>fd. fd) (os_open_read_at name fd0)"
  "opens (\<lambda>fd. fd) (os_create_at name perm fd0)"
  unfolding os_open_dir_def os_open_dir_at_def os_open_read_def os_open_read_at_def os_create_at_def
proof (rule opens_syscall; auto simp: fail_def new_fd_def Let_def split: option.splits prod.splits)+
  fix ino w w'
  assume e: "create_entry name perm (File []) fd0 w = Some (ino, w')"
  hence "w_fds w' = w_fds w" by (rule fds_create_entry)
  thus "fresh_fd w' = fresh_fd w" "w_fds w' = w_fds w" by (simp_all add: fresh_fd_def)
qed

lemma opens_os_errorI:
  assumes "opens fd m" shows "opens fd (os_errorI m e)"
proof (rule opensI)
  fix w e' w' assume "os_errorI m e w = (Inl e', w')"
  then obtain e'' where "m w = (Inl e'', w')" by (auto simp: os_errorI_def split: prod.splits sum.splits)
  thus "w_fds w' = w_fds w" by (rule opens_errorD [OF assms])
qed (simp add: os_errorI_iff opensD [OF assms])

lemma opens_bindI:
  assumes m: "balanced m" and f: "\<And>x. opens fd (f x)"
  shows "opens fd (bindI m f)"
proof (rule opensI)
  fix w e w' assume "bindI m f w = (Inl e, w')"
  thus "w_fds w' = w_fds w"
    unfolding bindI_Inl_iff using balancedD [OF m] opens_errorD [OF f] by metis
next
  fix w x w' assume "bindI m f w = (Inr x, w')"
  thus "fd x \<notin> fst ` set (w_fds w) \<and> (\<exists>ino. w_fds w' = (fd x, ino) # w_fds w)"
    unfolding bindI_iff using balancedD [OF m] opensD [OF f] by metis
qed

lemma opens_returning:
  assumes m: "opens fd m" and same: "\<And>x. g (h x) = fd x"
  shows "opens g (bindI m (\<lambda>x. returnI (h x)))"
proof (rule opensI)
  fix w e w' assume "bindI m (\<lambda>x. returnI (h x)) w = (Inl e, w')"
  thus "w_fds w' = w_fds w"
    unfolding bindI_Inl_iff returnI_def using opens_errorD [OF m] by auto
next
  fix w x w' assume "bindI m (\<lambda>x. returnI (h x)) w = (Inr x, w')"
  then obtain y where "m w = (Inr y, w')" "x = h y" by (auto simp: io_iff)
  thus "g x \<notin> fst ` set (w_fds w) \<and> (\<exists>ino. w_fds w' = (g x, ino) # w_fds w)"
    using opensD [OF m, of w y w'] same by simp
qed

lemma close_opened:
  "fd \<notin> fst ` set fds \<Longrightarrow> w_fds w = (fd, ino) # fds \<Longrightarrow> w_fds (snd (os_close fd w)) = fds"
proof -
  assume new: "fd \<notin> fst ` set fds" and fds: "w_fds w = (fd, ino) # fds"
  have "filter (\<lambda>p. fst p \<noteq> fd) fds = fds" using new by (auto simp: filter_id_conv)
  thus ?thesis using fds
    by (simp add: os_close_def syscall_def fail_def Let_def split: list.splits)
qed

text \<open>The two ways the scripts release a descriptor: always, or when the rest of the opening fails.\<close>

lemma balanced_bracket:
  assumes opened: "opens fd m" and body: "\<And>x. balanced (body x)"
  shows "balanced (bindI m (\<lambda>x. finallyI (body x) (os_close (fd x))))"
  unfolding balanced_def
proof
  fix w
  obtain r w1 where m: "m w = (r, w1)" by (cases "m w")
  show "w_fds (snd (bindI m (\<lambda>x. finallyI (body x) (os_close (fd x))) w)) = w_fds w"
  proof (cases r)
    case (Inl e)
    thus ?thesis using opens_errorD [OF opened] m by (simp add: bindI_def)
  next
    case (Inr x)
    obtain r2 w2 where b: "body x w1 = (r2, w2)" by (cases "body x w1")
    have "w_fds (snd (os_close (fd x) w2)) = w_fds w"
      using opensD [OF opened m [unfolded Inr]] balancedD [OF body b] by (auto intro: close_opened)
    thus ?thesis using m Inr b
      by (auto simp: bindI_def finallyI_def split: prod.splits sum.splits)
  qed
qed

lemma opens_guarded:
  assumes opened: "opens fd m" and body: "\<And>x. balanced (body x)"
    and same: "\<And>x y w w'. body x w = (Inr y, w') \<Longrightarrow> g y = fd x"
  shows "opens g (bindI m (\<lambda>x. on_errorI (body x) (os_close (fd x))))"
proof (rule opensI)
  fix w e w' assume "bindI m (\<lambda>x. on_errorI (body x) (os_close (fd x))) w = (Inl e, w')"
  then consider "m w = (Inl e, w')"
    | x w1 where "m w = (Inr x, w1)" "on_errorI (body x) (os_close (fd x)) w1 = (Inl e, w')"
    unfolding bindI_Inl_iff by blast
  thus "w_fds w' = w_fds w"
  proof cases
    case 1
    thus ?thesis by (rule opens_errorD [OF opened])
  next
    case 2
    from 2(2) obtain e2 w2 where b: "body x w1 = (Inl e2, w2)" and c: "w' = snd (os_close (fd x) w2)"
      by (auto simp: on_errorI_def split: prod.splits sum.splits)
    show ?thesis
      using opensD [OF opened 2(1)] balancedD [OF body b] unfolding c by (auto intro: close_opened)
  qed
next
  fix w y w' assume "bindI m (\<lambda>x. on_errorI (body x) (os_close (fd x))) w = (Inr y, w')"
  then obtain x w1 where m: "m w = (Inr x, w1)" and b: "body x w1 = (Inr y, w')"
    unfolding io_iff by blast
  show "g y \<notin> fst ` set (w_fds w) \<and> (\<exists>ino. w_fds w' = (g y, ino) # w_fds w)"
    using opensD [OF opened m] balancedD [OF body b] same [OF b] by simp
qed

lemma balanced_bracket_pair:
  assumes opened: "opens fst m" and body: "\<And>a b. balanced (body a b)"
  shows "balanced (bindI m (\<lambda>(a, b). finallyI (body a b) (os_close a)))"
  using balanced_bracket [OF opened, of "\<lambda>p. body (fst p) (snd p)"] body
  by (simp add: case_prod_unfold)

section \<open>An environment that keeps time\<close>

text \<open>
  \<open>evolves s t\<close>: the clock does not run backwards, and an inode of \<open>t\<close> is an inode of \<open>s\<close> or has a change
  time not before the clock of \<open>s\<close>. \<open>stamped s\<close>: every change time lies before the clock.
\<close>

definition evolves :: "fs \<Rightarrow> fs \<Rightarrow> bool" where
  "evolves s t \<longleftrightarrow> fs_clock s \<le> fs_clock t \<and>
     (\<forall>ino n. fs_inode t ino = Some n \<longrightarrow> fs_inode s ino = Some n \<or> fs_clock s \<le> n_ctime n)"

definition stamped :: "fs \<Rightarrow> bool" where
  "stamped s \<longleftrightarrow> (\<forall>ino n. fs_inode s ino = Some n \<longrightarrow> n_ctime n < fs_clock s)"

definition keeps_time :: "event \<Rightarrow> bool" where
  "keeps_time ev \<longleftrightarrow>
     (\<forall>s. stamped s \<longrightarrow> evolves s (ev_change ev s) \<and> stamped (ev_change ev s))"

definition timely :: "world \<Rightarrow> bool" where
  "timely w \<longleftrightarrow> stamped (w_fs w) \<and> list_all keeps_time (w_schedule w)"

lemma evolves_refl [simp]: "evolves s s"
  by (simp add: evolves_def)

lemma evolves_trans: "evolves s t \<Longrightarrow> evolves t u \<Longrightarrow> evolves s u"
  unfolding evolves_def by (metis le_trans)

text \<open>Two moments at which an inode has the same change time enclose no change of it.\<close>

lemma unchanged_between:
  assumes "stamped s" and "evolves s t" and "evolves t u"
    and "fs_inode s ino = Some n" and "fs_inode u ino = Some m" and "n_ctime m = n_ctime n"
  shows "m = n" and "fs_inode t ino = Some n"
proof -
  have early: "n_ctime n < fs_clock s" using assms(1,4) by (simp add: stamped_def)
  have "evolves s u" using assms(2,3) by (rule evolves_trans)
  thus m: "m = n" using assms(4-6) early unfolding evolves_def by (metis leD option.inject)
  show "fs_inode t ino = Some n"
    using assms(2,3,5,6) early unfolding evolves_def m by (metis leD le_trans less_le_trans)
qed

definition progress :: "'a io \<Rightarrow> bool" where
  "progress m \<longleftrightarrow> (\<forall>w. timely w \<longrightarrow> timely (snd (m w)) \<and> evolves (w_fs w) (w_fs (snd (m w))))"

lemma progressD:
  "progress m \<Longrightarrow> timely w \<Longrightarrow> m w = (r, w') \<Longrightarrow> timely w' \<and> evolves (w_fs w) (w_fs w')"
  unfolding progress_def by (drule spec [of _ w]) simp

lemma progressI:
  "(\<And>w r w'. timely w \<Longrightarrow> m w = (r, w') \<Longrightarrow> timely w' \<and> evolves (w_fs w) (w_fs w')) \<Longrightarrow> progress m"
  unfolding progress_def by (metis prod.collapse)

named_theorems progress_intro \<open>which scripts keep time\<close>

lemma progress_returnI [progress_intro]: "progress (returnI x)"
  by (simp add: progress_def returnI_def)

lemma progress_raiseI [progress_intro]: "progress (raiseI e)"
  by (simp add: progress_def raiseI_def)

lemma progress_liftI [progress_intro]: "progress (liftI r)"
  by (simp add: progress_def liftI_def)

lemma progress_bindI [progress_intro]:
  assumes m: "progress m" and f: "\<And>x. progress (f x)"
  shows "progress (bindI m f)"
proof (rule progressI)
  fix w r w' assume w: "timely w" and r: "bindI m f w = (r, w')"
  obtain r1 w1 where m1: "m w = (r1, w1)" by (cases "m w")
  note p = progressD [OF m w m1]
  show "timely w' \<and> evolves (w_fs w) (w_fs w')"
  proof (cases r1)
    case (Inl e)
    thus ?thesis using r m1 p by (simp add: bindI_def)
  next
    case (Inr x)
    hence "f x w1 = (r, w')" using r m1 by (simp add: bindI_def)
    thus ?thesis using p progressD [OF f] evolves_trans by blast
  qed
qed

lemma progress_if [progress_intro]: "progress a \<Longrightarrow> progress b \<Longrightarrow> progress (if c then a else b)"
  by simp

lemma progress_Let [progress_intro]: "progress (f x) \<Longrightarrow> progress (let y = x in f y)"
  by simp

lemma progress_case_prod [progress_intro]:
  "(\<And>a b. progress (f a b)) \<Longrightarrow> progress (case p of (a, b) \<Rightarrow> f a b)"
  by (cases p) simp

text \<open>A handler runs after the script: the two worlds it connects are those of a sequence.\<close>

lemma progress_after:
  assumes m: "progress m" and c: "progress c"
    and w: "timely w" and r1: "m w = (r1, w1)" and r2: "c w1 = (r2, w2)"
  shows "timely w2 \<and> evolves (w_fs w) (w_fs w2)"
  using progressD [OF m w r1] progressD [OF c _ r2] evolves_trans by blast

lemma progress_finallyI [progress_intro]:
  assumes m: "progress m" and c: "progress c" shows "progress (finallyI m c)"
proof (rule progressI)
  fix w r w' assume w: "timely w" and r: "finallyI m c w = (r, w')"
  obtain r1 w1 r2 w2 where 1: "m w = (r1, w1)" and 2: "c w1 = (r2, w2)" by (metis prod.exhaust)
  have "w' = w2" using r 1 2 by (auto simp: finallyI_def split: sum.splits)
  thus "timely w' \<and> evolves (w_fs w) (w_fs w')" using progress_after [OF m c w 1 2] by simp
qed

lemma progress_on_errorI [progress_intro]:
  assumes m: "progress m" and c: "progress c" shows "progress (on_errorI m c)"
proof (rule progressI)
  fix w r w' assume w: "timely w" and r: "on_errorI m c w = (r, w')"
  obtain r1 w1 r2 w2 where 1: "m w = (r1, w1)" and 2: "c w1 = (r2, w2)" by (metis prod.exhaust)
  have "w' = w2 \<or> w' = w1" using r 1 2 by (auto simp: on_errorI_def split: sum.splits)
  thus "timely w' \<and> evolves (w_fs w) (w_fs w')"
    using progress_after [OF m c w 1 2] progressD [OF m w 1] by auto
qed

lemma progress_same_world:
  assumes m: "progress m" and same: "\<And>w. snd (k w) = snd (m w)" shows "progress k"
  using m unfolding progress_def same by simp

lemma progress_os_errorI [progress_intro]: "progress m \<Longrightarrow> progress (os_errorI m e)"
  by (erule progress_same_world) (simp add: os_errorI_def split: prod.split sum.split)

lemma progress_ignore [progress_intro]: "progress m \<Longrightarrow> progress (ignore_os_errorI m)"
  by (erule progress_same_world) (simp add: ignore_os_errorI_def split: prod.split sum.split)

lemma progress_mapI [progress_intro]: "(\<And>x. progress (f x)) \<Longrightarrow> progress (mapI f xs)"
  by (induction xs) (auto intro!: progress_intro)

text \<open>System calls: the environment keeps time by assumption, the effect has to.\<close>

lemma timely_step:
  assumes w: "timely w" and s: "w_schedule w = ev # evs"
  shows "timely (w\<lparr>w_fs := ev_change ev (w_fs w), w_schedule := evs\<rparr>)"
    and "evolves (w_fs w) (ev_change ev (w_fs w))"
  using w unfolding timely_def s by (auto simp: keeps_time_def)

lemma progress_syscall:
  assumes act: "\<And>limit w r w'. timely w \<Longrightarrow> act limit w = (r, w') \<Longrightarrow> timely w' \<and> evolves (w_fs w) (w_fs w')"
  shows "progress (syscall act)"
proof (rule progressI)
  fix w r w' assume w: "timely w" and r: "syscall act w = (r, w')"
  show "timely w' \<and> evolves (w_fs w) (w_fs w')"
  proof (cases "w_schedule w")
    case Nil
    thus ?thesis using act [OF w] r by (simp add: syscall_def)
  next
    case (Cons ev evs)
    let ?w1 = "w\<lparr>w_fs := ev_change ev (w_fs w), w_schedule := evs\<rparr>"
    note step = timely_step [OF w Cons]
    show ?thesis
    proof (cases "ev_fault ev")
      case True
      thus ?thesis using r step by (auto simp: syscall_def Cons Let_def)
    next
      case False
      hence a: "act (ev_limit ev) ?w1 = (r, w')" using r by (simp add: syscall_def Cons Let_def)
      show ?thesis using act [OF step(1) a] evolves_trans [OF step(2)] by auto
    qed
  qed
qed

lemma env_step_progress:
  "env_step w limit w' \<Longrightarrow> timely w \<Longrightarrow> timely w' \<and> evolves (w_fs w) (w_fs w')"
  unfolding env_step_def using timely_step by fastforce

lemma timely_fds [simp]:
  "timely (w\<lparr>w_fds := f\<rparr>) = timely w" "timely (w\<lparr>w_pos := p\<rparr>) = timely w"
  "timely (without_fd fd w) = timely w" "w_fs (without_fd fd w) = w_fs w"
  by (simp_all add: timely_def without_fd_def)

text \<open>Inodes stored with a change time taken since the world \<open>s\<close>.\<close>

lemma timely_set_inode:
  assumes "timely w" and "evolves s (w_fs w)" and "fs_clock s \<le> n_ctime n" and "n_ctime n \<le> fs_clock (w_fs w)"
  shows "timely (set_inode ino n w) \<and> evolves s (w_fs (set_inode ino n w))"
  using assms unfolding timely_def stamped_def evolves_def set_inode_def
  by (auto simp: less_SucI le_SucI)

lemma timely_next [simp]:
  "timely (w\<lparr>w_fs := (w_fs w)\<lparr>fs_next := i\<rparr>\<rparr>) = timely w"
  "evolves s ((w_fs w)\<lparr>fs_next := i\<rparr>) = evolves s (w_fs w)"
  by (simp_all add: timely_def stamped_def evolves_def)

lemma progress_create_entry:
  assumes w: "timely w" and c: "create_entry name perm cont fd w = Some (ino, w')"
  shows "timely w' \<and> evolves (w_fs w) (w_fs w')"
proof -
  let ?t = "fs_clock (w_fs w)"
  from c obtain dino dn n m where
    w': "w' = (let v = set_inode ino m (set_inode dino n w) in v\<lparr>w_fs := (w_fs v)\<lparr>fs_next := Suc ino\<rparr>\<rparr>)"
    and n: "n_ctime n = ?t" and m: "n_ctime m = ?t"
    unfolding create_entry_def Let_def by (auto split: option.splits prod.splits content.splits)
  have 1: "timely (set_inode dino n w) \<and> evolves (w_fs w) (w_fs (set_inode dino n w))"
    using w n by (intro timely_set_inode) auto
  have "timely (set_inode ino m (set_inode dino n w)) \<and>
      evolves (w_fs w) (w_fs (set_inode ino m (set_inode dino n w)))"
    using 1 m by (intro timely_set_inode) (auto simp: set_inode_def)
  thus ?thesis unfolding w' Let_def by simp
qed

lemma progress_write: "progress (os_write fd data)"
  unfolding os_write_def
proof (rule progress_syscall)
  fix limit w r w'
  assume w: "timely w" and "(case inode_of w fd of
       Some (ino, nd) \<Rightarrow> (case n_content nd of
           File b \<Rightarrow>
             let n = (case limit of None \<Rightarrow> length data | Some m \<Rightarrow> min (length data) m);
                 pos = w_pos w fd;
                 b' = take pos b @ replicate (pos - length b) (CHR 0x00) @ take n data @ drop (pos + n) b
             in (Inr n, set_inode ino (nd\<lparr>n_content := File b', n_mtime := fs_clock (w_fs w),
                                          n_ctime := fs_clock (w_fs w)\<rparr>)
                          (w\<lparr>w_pos := (w_pos w)(fd := pos + n)\<rparr>))
         | _ \<Rightarrow> fail ''write'' w)
     | None \<Rightarrow> fail ''write'' w) = (r, w')"
  then consider "w' = w" | ino n p where "w' = set_inode ino n (w\<lparr>w_pos := p\<rparr>)" "n_ctime n = fs_clock (w_fs w)"
    by (auto simp: fail_def Let_def split: option.splits prod.splits content.splits)
  thus "timely w' \<and> evolves (w_fs w) (w_fs w')"
  proof cases
    case 2
    thus ?thesis using w timely_set_inode [of "w\<lparr>w_pos := p\<rparr>" "w_fs w" n ino] by simp
  qed (use w in simp)
qed

lemma progress_unlink: "progress (os_unlink_at name fd)"
  unfolding os_unlink_at_def
proof (rule progress_syscall)
  fix limit w r w'
  assume w: "timely w" and r: "(case lookup_at w fd name of
       None \<Rightarrow> fail ''unlink'' w
     | Some (ino, n) \<Rightarrow> (case inode_of w fd of
           None \<Rightarrow> fail ''unlink'' w
         | Some (dino, dn) \<Rightarrow> (case n_content dn of
               Folder es \<Rightarrow>
                 if content_type (n_content n) = Directory then fail ''unlink'' w
                 else
                   let t = fs_clock (w_fs w) in
                   (Inr (), set_inode dino (dn\<lparr>n_content := Folder (filter (\<lambda>e. fst e \<noteq> name) es), n_mtime := t, n_ctime := t\<rparr>)
                      (set_inode ino (n\<lparr>n_nlink := n_nlink n - 1, n_ctime := t\<rparr>) w))
             | _ \<Rightarrow> fail ''unlink'' w))) = (r, w')"
  consider "w' = w" | dino n ino m where "w' = set_inode dino n (set_inode ino m w)"
      "n_ctime n = fs_clock (w_fs w)" "n_ctime m = fs_clock (w_fs w)"
    using r by (auto simp: fail_def Let_def split: option.splits prod.splits content.splits if_splits)
  thus "timely w' \<and> evolves (w_fs w) (w_fs w')"
  proof cases
    case 2
    have 1: "timely (set_inode ino m w) \<and> evolves (w_fs w) (w_fs (set_inode ino m w))"
      using w 2(3) by (intro timely_set_inode) auto
    show ?thesis unfolding 2(1) using 1 2(2)
      by (intro timely_set_inode) (auto simp: set_inode_def)
  qed (use w in simp)
qed

text \<open>The calls that change nothing but descriptors and positions.\<close>

lemma progress_quiet_syscall:
  assumes "\<And>limit w. w_fs (snd (act limit w)) = w_fs w \<and> w_schedule (snd (act limit w)) = w_schedule w"
  shows "progress (syscall act)"
proof (rule progress_syscall)
  fix limit w r w' assume "timely w" and "act limit w = (r, w')"
  thus "timely w' \<and> evolves (w_fs w) (w_fs w')"
    using assms [of limit w] by (simp add: timely_def)
qed

lemma progress_syscalls [progress_intro]:
  "progress (os_lstat p)" "progress (os_stat_at name fd)" "progress (os_fstat fd)"
  "progress (os_listdir fd)" "progress (os_read fd n)" "progress (os_fsync fd)"
  "progress (os_open_dir p)" "progress (os_open_dir_at name fd)" "progress (os_open_read_at name fd)"
  "progress (os_open_read p)"
  unfolding syscall_defs os_open_dir_def os_open_dir_at_def os_open_read_at_def os_open_read_def
  by (rule progress_quiet_syscall,
      auto simp: fail_def new_fd_def Let_def split: option.splits prod.splits content.splits)+

lemma progress_close [progress_intro]: "progress (os_close fd)"
proof (rule progressI)
  fix w r w' assume w: "timely w" and r: "os_close fd w = (r, w')"
  have "progress (syscall (\<lambda>_ w'. if map_of (w_fds w) fd = None then fail ''close'' w' else (Inr (), w')))"
    by (rule progress_quiet_syscall) (simp add: fail_def)
  from progressD [OF this, of "without_fd fd w" r w'] w r
  show "timely w' \<and> evolves (w_fs w) (w_fs w')" by (simp add: os_close_def without_fd_def)
qed

lemma progress_creating [progress_intro]: "progress (os_create_at name perm fd)" "progress (os_mkdir_at name perm fd)"
  unfolding os_create_at_def os_mkdir_at_def
  by (rule progress_syscall,
      auto simp: fail_def new_fd_def Let_def dest: progress_create_entry split: option.splits prod.splits)+

lemmas progress_changing [progress_intro] = progress_write progress_unlink

section \<open>Files that did not change\<close>

text \<open>What \<open>fstat\<close> or \<open>stat\<close> reported later determines the inode, when the environment keeps time.\<close>

lemma stat_of_sel [simp]:
  "st_type (stat_of ino n) = content_type (n_content n)" "st_nlink (stat_of ino n) = n_nlink n"
  "st_size (stat_of ino n) = content_size (n_content n)" "st_ino (stat_of ino n) = ino"
  "st_ctime (stat_of ino n) = n_ctime n"
  by (simp_all add: stat_of_def)

lemma content_type_Regular [simp]: "content_type c = Regular \<longleftrightarrow> (\<exists>b. c = File b)"
  by (cases c) simp_all

lemma lookup_at_inode: "lookup_at w fd name = Some (ino, n) \<Longrightarrow> fs_inode (w_fs w) ino = Some n"
  by (auto simp: lookup_at_def split: option.splits)

lemma fstat_later:
  assumes v: "timely v" "fs_inode (w_fs v) ino = Some n"
    and w: "timely w" "evolves (w_fs v) (w_fs w)"
    and run: "os_fstat fd w = (Inr s, w')" and same: "st_ino s = ino" "st_ctime s = n_ctime n"
  shows "timely w'" and "evolves (w_fs v) (w_fs w')" and "evolves (w_fs w) (w_fs w')"
    and "map_of (w_fds w) fd = Some ino" and "w_fds w' = w_fds w"
    and "fs_inode (w_fs w') ino = Some n" and "fs_inode (w_fs w) ino = Some n"
proof -
  obtain limit m where e: "env_step w limit w'" and fd: "map_of (w_fds w') fd = Some ino"
    and m: "fs_inode (w_fs w') ino = Some m" and ct: "n_ctime m = n_ctime n"
    using run same unfolding os_iff by auto
  note p = env_step_progress [OF e w(1)]
  show "timely w'" and step: "evolves (w_fs w) (w_fs w')" using p by simp_all
  show "evolves (w_fs v) (w_fs w')" using evolves_trans [OF w(2) step] .
  show "map_of (w_fds w) fd = Some ino" "w_fds w' = w_fds w" using e fd by simp_all
  have st: "stamped (w_fs v)" using v by (simp add: timely_def)
  show "fs_inode (w_fs w') ino = Some n" using unchanged_between(1) [OF st w(2) step v(2) m ct] m by simp
  show "fs_inode (w_fs w) ino = Some n" by (rule unchanged_between(2) [OF st w(2) step v(2) m ct])
qed

lemma stat_later:
  assumes v: "timely v" "fs_inode (w_fs v) ino = Some n"
    and w: "timely w" "evolves (w_fs v) (w_fs w)"
    and run: "os_stat_at name directory w = (Inr s, w')" and same: "st_ino s = ino" "st_ctime s = n_ctime n"
  shows "timely w'" and "evolves (w_fs v) (w_fs w')" and "lookup_at w' directory name = Some (ino, n)"
proof -
  obtain limit m where e: "env_step w limit w'" and l: "lookup_at w' directory name = Some (ino, m)"
    and ct: "n_ctime m = n_ctime n"
    using run same unfolding os_iff by auto
  note p = env_step_progress [OF e w(1)]
  show "timely w'" using p by simp
  have step: "evolves (w_fs w) (w_fs w')" using p by simp
  show "evolves (w_fs v) (w_fs w')" using evolves_trans [OF w(2) step] .
  have st: "stamped (w_fs v)" using v by (simp add: timely_def)
  show "lookup_at w' directory name = Some (ino, n)"
    using unchanged_between(1) [OF st w(2) step v(2) lookup_at_inode [OF l] ct] l by simp
qed

text \<open>A directory entry that named one and the same regular file, unchanged, at two moments of a call.\<close>

definition held_throughout :: "world \<Rightarrow> world \<Rightarrow> nat \<Rightarrow> string \<Rightarrow> bytes \<Rightarrow> bool" where
  "held_throughout w w' directory name b \<longleftrightarrow>
     (\<exists>v1 v2 ino n. evolves (w_fs w) (w_fs v1) \<and> evolves (w_fs v1) (w_fs v2) \<and> evolves (w_fs v2) (w_fs w')
        \<and> lookup_at v1 directory name = Some (ino, n) \<and> lookup_at v2 directory name = Some (ino, n)
        \<and> n_content n = File b \<and> n_nlink n = 1)"

lemma held_throughout_wider:
  assumes "held_throughout w w' d name b" and "evolves (w_fs v) (w_fs w)" and "evolves (w_fs w') (w_fs v')"
  shows "held_throughout v v' d name b"
proof -
  obtain v1 v2 ino n where "evolves (w_fs w) (w_fs v1)" "evolves (w_fs v1) (w_fs v2)" "evolves (w_fs v2) (w_fs w')"
    "lookup_at v1 d name = Some (ino, n)" "lookup_at v2 d name = Some (ino, n)" "n_content n = File b" "n_nlink n = 1"
    using assms(1) unfolding held_throughout_def by blast
  with evolves_trans [OF assms(2)] evolves_trans [OF _ assms(3)] show ?thesis
    unfolding held_throughout_def by blast
qed

end
