(* ===== verification/Os_Files.thy ===== *)
theory Os_Files
  imports Os_Rules
begin

text \<open>
  Python's file objects over the system calls: reading a whole file, its SHA-256 digest, \<open>stat\<close> and
  \<open>is_file\<close> of a path, and \<open>Path.write_text\<close>. Buffering inside a file object is not modelled: one
  \<open>read\<close> of the loop is one call of the kernel.
\<close>

section \<open>Reading\<close>

definition os_path_stat :: "path \<Rightarrow> stat_result io" where
  "os_path_stat p = syscall (\<lambda>_ w. case lookup_path w p of
       None \<Rightarrow> fail ''stat'' w | Some (ino, n) \<Rightarrow> (Inr (stat_of ino n), w))"

definition path_is_file :: "path \<Rightarrow> bool io" where
  "path_is_file p = syscall (\<lambda>_ w. case lookup_path w p of
       None \<Rightarrow> (Inr False, w) | Some (ino, n) \<Rightarrow> (Inr (content_type (n_content n) = Regular), w))"

text \<open>\<open>Path.resolve(strict=True)\<close>: the path has to exist; the result is the canonical path.\<close>

definition os_resolve :: "path \<Rightarrow> path io" where
  "os_resolve p = syscall (\<lambda>_ w. case lookup_path w p of
       None \<Rightarrow> fail ''resolve'' w | Some _ \<Rightarrow> (Inr (fs_canonical (w_fs w) p), w))"

definition path_is_dir :: "path \<Rightarrow> bool io" where
  "path_is_dir p = syscall (\<lambda>_ w. case lookup_path w p of
       None \<Rightarrow> (Inr False, w) | Some (ino, n) \<Rightarrow> (Inr (content_type (n_content n) = Directory), w))"

text \<open>
  The octets between the position of a descriptor and the end of its file. As long as the schedule
  has events every call uses one up; after that the rest of the file gets shorter.
\<close>

definition remaining :: "world \<Rightarrow> nat \<Rightarrow> nat" where
  "remaining w fd = (case inode_of w fd of None \<Rightarrow> 0 | Some (ino, n) \<Rightarrow> content_size (n_content n) - w_pos w fd)"

text \<open>\<open>for chunk in iter(lambda: source.read(size), b""): ...\<close>, with the chunks it yields.\<close>

function read_rest :: "nat \<Rightarrow> nat \<Rightarrow> bytes io" where
  "read_rest fd sz w =
     (case os_read fd sz w of
        (Inl e, w1) \<Rightarrow> (Inl e, w1)
      | (Inr chunk, w1) \<Rightarrow>
          if chunk = [] then (Inr [], w1)
          else (case read_rest fd sz w1 of
              (Inl e, w2) \<Rightarrow> (Inl e, w2)
            | (Inr rest, w2) \<Rightarrow> (Inr (chunk @ rest), w2)))"
  by pat_completeness auto

lemma read_decreases:
  assumes "os_read fd sz w = (Inr chunk, w1)" and "chunk \<noteq> []"
  shows "length (w_schedule w1) < length (w_schedule w) \<or>
    length (w_schedule w1) = length (w_schedule w) \<and> remaining w1 fd < remaining w fd"
proof -
  obtain limit v ino nd b where
    e: "env_step w limit v" and n: "map_of (w_fds v) fd = Some ino" "fs_inode (w_fs v) ino = Some nd" "n_content nd = File b"
    and c: "chunk = take (transferred limit sz) (drop (w_pos v fd) b)"
    and w1: "w1 = v\<lparr>w_pos := (w_pos v)(fd := w_pos v fd + length chunk)\<rparr>"
    using assms(1) unfolding os_read_iff by blast
  show ?thesis
  proof (cases "w_schedule w")
    case Nil
    hence "v = w" using e by (simp add: env_step_def)
    moreover have "w_pos v fd < length b" "0 < length chunk" using assms(2) c by auto
    moreover have "length b - (w_pos w fd + length chunk) < length b - w_pos w fd"
      if "w_pos w fd < length b" "0 < length chunk" using that by linarith
    ultimately show ?thesis using n w1 by (simp add: remaining_def inode_of_def)
  next
    case (Cons ev evs)
    hence "w_schedule v = evs" using e by (auto simp: env_step_def)
    thus ?thesis using w1 Cons by simp
  qed
qed

termination read_rest
  by (relation "measures [\<lambda>(fd, sz, w). length (w_schedule w), \<lambda>(fd, sz, w). remaining w fd]")
     (auto dest: read_decreases [OF sym])

declare read_rest.simps [simp del]

definition read_file :: "path \<Rightarrow> bytes io" where
  "read_file p = bindI (os_open_read p) (\<lambda>fd. finallyI (read_rest fd (1024 * 1024)) (os_close fd))"

text \<open>\<open>sha256(path)\<close> of the manifest scripts.\<close>

definition file_sha256 :: "path \<Rightarrow> string io" where
  "file_sha256 p = bindI (read_file p) (\<lambda>b. returnI (sha256_hex b))"

section \<open>Writing\<close>

text \<open>\<open>open(path, "w")\<close>: an existing regular file is truncated, a new one is entered in its directory.\<close>

definition os_open_write :: "path \<Rightarrow> nat \<Rightarrow> nat io" where
  "os_open_write p perm = syscall (\<lambda>_ w. case lookup_path w p of
       Some (ino, n) \<Rightarrow>
         (case n_content n of
            File b \<Rightarrow> new_fd ino (set_inode ino (n\<lparr>n_content := File [], n_mtime := fs_clock (w_fs w),
                                                n_ctime := fs_clock (w_fs w)\<rparr>) w)
          | _ \<Rightarrow> fail ''open'' w)
     | None \<Rightarrow> (case lookup_path w (butlast p) of
            None \<Rightarrow> fail ''open'' w
          | Some (dino, dn) \<Rightarrow> (case n_content dn of
                Folder es \<Rightarrow>
                  let ino = fs_next (w_fs w); t = fs_clock (w_fs w);
                      n = \<lparr>n_dev = n_dev dn, n_content = File [], n_perm = perm, n_nlink = 1, n_mtime = t, n_ctime = t\<rparr>;
                      w1 = set_inode dino (dn\<lparr>n_content := Folder ((path_name p, ino) # es), n_mtime := t, n_ctime := t\<rparr>) w;
                      w2 = set_inode ino n w1
                  in new_fd ino (w2\<lparr>w_fs := (w_fs w2)\<lparr>fs_next := Suc ino, fs_path := (fs_path (w_fs w2))(p \<mapsto> ino)\<rparr>\<rparr>)
              | _ \<Rightarrow> fail ''open'' w)))"

text \<open>\<open>while offset < len(view): offset += os.write(fd, view[offset : offset + chunk])\<close>\<close>

function write_loop :: "nat \<Rightarrow> nat \<Rightarrow> string \<Rightarrow> bytes \<Rightarrow> unit io" where
  "write_loop fd chunk message view w =
     (if view = [] then (Inr (), w)
      else case os_write fd (take chunk view) w of
        (Inl e, w') \<Rightarrow> (Inl e, w')
      | (Inr n, w') \<Rightarrow>
          if n = 0 then (Inl (OSError message), w')
          else write_loop fd chunk message (drop n view) w')"
  by pat_completeness auto
termination
  by (relation "measure (\<lambda>(fd, chunk, message, view, w). length view)") auto

declare write_loop.simps [simp del]

text \<open>
  \<open>Path.write_text(s, encoding="utf-8")\<close>: the file is truncated first; a string that is not valid
  UTF-8 (a path with undecodable octets) cannot be encoded.
\<close>

definition write_text :: "path \<Rightarrow> string \<Rightarrow> unit io" where
  "write_text p s = bindI (os_open_write p 420) (\<lambda>fd.
     finallyI (if utf8_ok False s then write_loop fd (length s) ''write'' s
               else raiseI (ValueError ''surrogates not allowed'')) (os_close fd))"

section \<open>Rules\<close>

lemma balanced_path_calls [balanced_intro]:
  "balanced (os_path_stat p)" "balanced (path_is_file p)" "balanced (path_is_dir p)" "balanced (os_resolve p)"
  unfolding os_path_stat_def path_is_file_def path_is_dir_def os_resolve_def
  by (rule balanced_syscall, auto simp: fail_def split: option.splits prod.splits)+

lemma progress_path_calls [progress_intro]:
  "progress (os_path_stat p)" "progress (path_is_file p)" "progress (path_is_dir p)" "progress (os_resolve p)"
  unfolding os_path_stat_def path_is_file_def path_is_dir_def os_resolve_def
  by (rule progress_quiet_syscall, auto simp: fail_def split: option.splits prod.splits)+

lemma balanced_read_rest [balanced_intro]: "balanced (read_rest fd sz)"
  unfolding balanced_def
proof
  fix w show "w_fds (snd (read_rest fd sz w)) = w_fds w"
  proof (induction fd sz w rule: read_rest.induct)
    case (1 fd sz w)
    obtain r w1 where o: "os_read fd sz w = (r, w1)" by (cases "os_read fd sz w")
    have fds: "w_fds w1 = w_fds w" by (rule balancedD [OF balanced_syscalls(5) o])
    show ?case
      using 1 [OF o [symmetric]] fds o
      by (subst read_rest.simps) (auto split: sum.split prod.split)
  qed
qed

lemma balanced_write_loop [balanced_intro]: "balanced (write_loop fd chunk message view)"
  unfolding balanced_def
proof
  fix w show "w_fds (snd (write_loop fd chunk message view w)) = w_fds w"
  proof (induction fd chunk message view w rule: write_loop.induct)
    case (1 fd chunk message view w)
    obtain r w1 where o: "os_write fd (take chunk view) w = (r, w1)" by (cases "os_write fd (take chunk view) w")
    have fds: "w_fds w1 = w_fds w" by (rule balancedD [OF balanced_syscalls(6) o])
    show ?case
      using 1 [OF _ o [symmetric]] fds o
      by (subst write_loop.simps) (auto split: sum.split)
  qed
qed

lemma balanced_read_file [balanced_intro]: "balanced (read_file p)"
  unfolding read_file_def by (rule balanced_bracket [OF opens_syscalls(3)]) (rule balanced_intro)

lemma balanced_file_sha256 [balanced_intro]: "balanced (file_sha256 p)"
  unfolding file_sha256_def by (intro balanced_intro)

lemma opens_open_write: "opens (\<lambda>fd. fd) (os_open_write p perm)"
  unfolding os_open_write_def
  by (rule opens_syscall)
     (auto simp: fail_def new_fd_def Let_def fresh_fd_def set_inode_def split: option.splits prod.splits content.splits)

lemma balanced_write_text [balanced_intro]: "balanced (write_text p s)"
  unfolding write_text_def by (rule balanced_bracket [OF opens_open_write]) (intro balanced_intro)

lemma progress_write_loop [progress_intro]: "progress (write_loop fd chunk message view)"
proof (rule progressI)
  fix w r w'
  assume "timely w" and "write_loop fd chunk message view w = (r, w')"
  thus "timely w' \<and> evolves (w_fs w) (w_fs w')"
  proof (induction fd chunk message view w rule: write_loop.induct)
    case (1 fd chunk message view w)
    show ?case
    proof (cases "view = []")
      case True
      thus ?thesis using 1(2,3) by (simp add: write_loop.simps)
    next
      case False
      obtain r1 w1 where o: "os_write fd (take chunk view) w = (r1, w1)" by (cases "os_write fd (take chunk view) w")
      note p = progressD [OF progress_write 1(2) o]
      consider "w' = w1" | n where "r1 = Inr n" "n \<noteq> 0" "write_loop fd chunk message (drop n view) w1 = (r, w')"
        using 1(3) False o by (subst (asm) write_loop.simps) (auto split: sum.splits if_splits)
      thus ?thesis
      proof cases
        case (2 n)
        from 1(1) [OF False o [symmetric] 2(1,2) conjunct1 [OF p] 2(3)] p
        show ?thesis using evolves_trans by blast
      qed (use p in simp)
    qed
  qed
qed

end
