(* ===== verification/Artifacts.thy ===== *)
theory Artifacts
  imports Os_Files Elf_Inspect_Props
begin

text \<open>
  The file handling of \<open>scripts/verify_artifacts.py\<close> and \<open>scripts/verify_singbox_artifacts.py\<close>: safe
  opening of the directory, the inspection of one artifact with its identity checks, the
  verification of a family of artifacts and the attestation it writes.
\<close>

section \<open>Identities\<close>

definition identity ::
    "stat_result \<Rightarrow> nat \<times> nat \<times> (file_type \<times> nat) \<times> nat \<times> nat \<times> nat \<times> nat" where
  "identity s = (st_dev s, st_ino s, (st_type s, st_perm s), st_nlink s, st_size s, st_mtime s, st_ctime s)"

definition directory_identity :: "stat_result \<Rightarrow> nat \<times> nat \<times> file_type" where
  "directory_identity s = (st_dev s, st_ino s, st_type s)"

type_synonym dir_identity = "nat \<times> nat \<times> file_type"

section \<open>Directories and names\<close>

definition open_directory :: "path \<Rightarrow> string \<Rightarrow> (nat \<times> dir_identity) io" where
  "open_directory p label =
     bindI (os_errorI
              (bindI (os_lstat p) (\<lambda>before. bindI (os_open_dir p) (\<lambda>fd. returnI (before, fd))))
              (ValueError (label @ '' cannot be opened safely''))) (\<lambda>(before, fd).
       on_errorI
         (bindI (os_fstat fd) (\<lambda>opened.
            if st_type before \<noteq> Directory \<or> st_type opened \<noteq> Directory
               \<or> directory_identity before \<noteq> directory_identity opened
            then raiseI (ValueError (label @ '' changed while opening''))
            else returnI (fd, directory_identity opened)))
         (os_close fd))"

definition verify_directory :: "path \<Rightarrow> nat \<Rightarrow> dir_identity \<Rightarrow> unit io" where
  "verify_directory p fd expected =
     bindI (os_errorI
              (bindI (os_lstat p) (\<lambda>named. bindI (os_fstat fd) (\<lambda>opened. returnI (named, opened))))
              (ValueError ''artifact directory changed during verification'')) (\<lambda>(named, opened).
       if directory_identity named \<noteq> expected \<or> directory_identity opened \<noteq> expected
       then raiseI (ValueError ''artifact directory changed during verification'')
       else returnI ())"

definition canonical_name :: "string \<Rightarrow> string res" where
  "canonical_name name =
     (if name = [] \<or> name = ''.'' \<or> name = ''..'' \<or> List.member name (CHR ''/'')
         \<or> List.member name (CHR 0x00) \<or> path_name (posix_parts name) \<noteq> name
      then Inl (ValueError ''artifact name is not canonical'') else Inr name)"

section \<open>One artifact\<close>

definition MAX_SIZE :: nat where
  "MAX_SIZE = 64 * 1024 * 1024"

text \<open>
  A pass over an open file with \<open>pread\<close>. The reads of one pass are taken at one moment: the
  environment acts before a pass and between the two passes, not between the reads of a pass.
\<close>

definition descriptor_reader :: "nat option \<Rightarrow> world \<Rightarrow> nat \<Rightarrow> nat \<Rightarrow> elf_reader" where
  "descriptor_reader limit w fd sz =
     \<lparr>rd_descriptor = (\<lambda>n off. case inode_of w fd of
          Some (ino, nd) \<Rightarrow> (case n_content nd of File b \<Rightarrow> Some (take (transferred limit n) (drop off b)) | _ \<Rightarrow> None)
        | None \<Rightarrow> None),
      rd_size = int sz\<rparr>"

definition with_reader :: "nat \<Rightarrow> nat \<Rightarrow> (elf_reader \<Rightarrow> 'a res) \<Rightarrow> 'a io" where
  "with_reader fd sz f =
     os_errorI (syscall (\<lambda>limit w. (f (descriptor_reader limit w fd sz), w))) (ValueError ''cannot read'')"

definition inspect_at :: "nat \<Rightarrow> string \<Rightarrow> nat \<Rightarrow> elf_info io" where
  "inspect_at directory name minimum_size =
     bindI (liftI (canonical_name name)) (\<lambda>_.
     bindI (os_errorI (os_stat_at name directory) (ValueError (name @ '': artifact cannot be inspected''))) (\<lambda>before.
     if st_type before \<noteq> Regular \<or> st_nlink before \<noteq> 1 \<or> st_size before < minimum_size \<or> MAX_SIZE < st_size before
     then raiseI (ValueError (name @ '': artifact is not a bounded single-link regular file''))
     else
       bindI (os_open_read_at name directory) (\<lambda>fd.
       bindI (finallyI
         (bindI (os_fstat fd) (\<lambda>opened.
            if identity opened \<noteq> identity before
            then raiseI (ValueError (name @ '': artifact changed while opening''))
            else
              bindI (with_reader fd (st_size before) digest_descriptor) (\<lambda>digest.
              bindI (with_reader fd (st_size before) (\<lambda>r. inspect_reader r digest)) (\<lambda>info.
              bindI (os_fstat fd) (\<lambda>after.
                if identity after \<noteq> identity before
                then raiseI (ValueError (name @ '': artifact changed while verifying''))
                else returnI info)))))
         (os_close fd)) (\<lambda>info.
       bindI (os_errorI
                (bindI (os_stat_at name directory) (\<lambda>final.
                 bindI (os_open_read_at name directory) (\<lambda>reopened. returnI (final, reopened))))
                (ValueError (name @ '': artifact changed after verification''))) (\<lambda>(final, reopened).
       bindI (finallyI
         (if identity final \<noteq> identity before
          then raiseI (ValueError (name @ '': artifact changed after verification''))
          else bindI (os_fstat reopened) (\<lambda>again.
            if identity again \<noteq> identity before
            then raiseI (ValueError (name @ '': artifact changed after verification''))
            else returnI ()))
         (os_close reopened)) (\<lambda>_. returnI info))))))"

definition inspect_elf :: "path \<Rightarrow> elf_info io" where
  "inspect_elf p =
     bindI (open_directory (butlast p) ''artifact parent'') (\<lambda>(directory, ident).
       finallyI
         (bindI (inspect_at directory (path_name p) 1) (\<lambda>info.
          bindI (verify_directory (butlast p) directory ident) (\<lambda>_. returnI info)))
         (os_close directory))"

section \<open>The attestation\<close>

definition canonical_json :: "json \<Rightarrow> bytes" where
  "canonical_json v = dumps compact_opts v @ [CHR 0x0A]"

text \<open>
  The two handlers of \<open>_write_attestation\<close>. The \<open>except\<close> block closes the descriptor, forgets it and
  unlinks the file it created; the \<open>finally\<close> block closes the descriptor if it is still remembered
  (so again, when the close of the \<open>except\<close> block raised) and then the directory.
\<close>

definition attestation_failed :: "nat \<Rightarrow> nat \<Rightarrow> string \<Rightarrow> unit io" where
  "attestation_failed fd parent name =
     bindI (on_errorI (os_close fd) (bindI (os_close fd) (\<lambda>_. os_close parent))) (\<lambda>_.
     bindI (ignore_os_errorI (os_unlink_at name parent)) (\<lambda>_.
     os_close parent))"

definition write_attestation :: "path \<Rightarrow> bytes \<Rightarrow> unit io" where
  "write_attestation p payload =
     bindI (open_directory (butlast p) ''attestation parent'') (\<lambda>(parent, ident).
     bindI (liftI (canonical_name (path_name p))) (\<lambda>name.
     bindI (on_errorI (os_create_at name 384 parent) (os_close parent)) (\<lambda>fd.
     bindI
       (on_errorI
         (bindI (write_loop fd READ_CHUNK ''attestation write made no progress'' payload) (\<lambda>_.
          bindI (os_fsync fd) (\<lambda>_.
          bindI (os_fstat fd) (\<lambda>metadata.
            if st_type metadata \<noteq> Regular \<or> st_nlink metadata \<noteq> 1 \<or> st_size metadata \<noteq> length payload
            then raiseI (ValueError ''attestation output is not a stable regular file'')
            else verify_directory (butlast p) parent ident))))
         (attestation_failed fd parent name)) (\<lambda>_.
     bindI (os_close fd) (\<lambda>_. os_close parent)))))"

section \<open>A family of artifacts\<close>

definition MIN_ANDROID_PAGE_ALIGNMENT :: int where
  "MIN_ANDROID_PAGE_ALIGNMENT = 16 * 1024"

definition FAMILY_LAYOUT :: "(string \<times> string \<times> nat) list" where
  "FAMILY_LAYOUT = [(''xray'', ''libxray'', 1), (''sing_box'', ''libexitfy-sb'', 1024 * 1024)]"

definition artifact_name :: "string \<Rightarrow> string \<Rightarrow> string" where
  "artifact_name pfx abi = pfx @ ''-'' @ abi @ ''.so''"

definition artifact_record :: "string \<Rightarrow> elf_info \<Rightarrow> json" where
  "artifact_record name info = JObj
     [(''path'', JStr name), (''size'', JInt (ei_size info)), (''sha256'', JStr (ei_sha256 info)),
      (''elfClass'', JInt (ei_class info)), (''machine'', JInt (ei_machine info)),
      (''exports'', JArr (map JStr (sort (ei_exports info)))),
      (''loadAlignments'', JArr (map JInt (ei_load_alignments info)))]"

definition check_info :: "string \<Rightarrow> int \<Rightarrow> int \<Rightarrow> elf_info \<Rightarrow> json res" where
  "check_info name expected_class expected_machine info =
     (if ei_class info \<noteq> expected_class \<or> ei_machine info \<noteq> expected_machine
      then Inl (ValueError (name @ '': wrong ELF class/machine''))
      else if \<not> same_elems (ei_exports info) REQUIRED_EXPORTS
      then Inl (ValueError (name @ '': dynamic exports must be exactly StartCore, StopCore''))
      else if ei_load_alignments info = [] then Inl (ValueError ''min() arg is an empty sequence'')
      else if list_ex (\<lambda>a. a < MIN_ANDROID_PAGE_ALIGNMENT) (ei_load_alignments info)
      then Inl (ValueError (name @ '': PT_LOAD alignment is below 16384 bytes''))
      else Inr (artifact_record name info))"

definition record_path :: "json \<Rightarrow> string" where
  "record_path r = (case r of JObj ((_, JStr p) # _) \<Rightarrow> p | _ \<Rightarrow> [])"

definition attestation_json :: "string \<Rightarrow> json list \<Rightarrow> json" where
  "attestation_json family records =
     JObj [(''schema'', JInt 1), (''family'', JStr family), (''files'', JArr (sort_key record_path records))]"

text \<open>The checks between opening the directory and closing it.\<close>

definition family_records :: "path \<Rightarrow> string \<Rightarrow> nat \<Rightarrow> nat \<Rightarrow> dir_identity \<Rightarrow> json list io" where
  "family_records directory pfx minimum_size root root_identity =
     bindI (os_listdir root) (\<lambda>names.
       if \<not> same_elems (filter (\<lambda>n. startswith n (pfx @ ''-'') \<and> endswith n ''.so'') names)
                (map (artifact_name pfx \<circ> fst) ABI_LAYOUT)
       then raiseI (ValueError ''unexpected artifacts'')
       else
         bindI (mapI (\<lambda>(abi, expected_class, expected_machine, _).
                  bindI (inspect_at root (artifact_name pfx abi) minimum_size) (\<lambda>info.
                  liftI (check_info (artifact_name pfx abi) expected_class expected_machine info)))
                ABI_LAYOUT) (\<lambda>records.
         bindI (os_listdir root) (\<lambda>names'.
           if \<not> same_elems names' names
           then raiseI (ValueError ''artifact directory entries changed during verification'')
           else bindI (verify_directory directory root root_identity) (\<lambda>_. returnI records))))"

definition verify_family :: "path \<Rightarrow> string \<Rightarrow> path option \<Rightarrow> json io" where
  "verify_family directory family attestation =
     (case map_of FAMILY_LAYOUT family of
        None \<Rightarrow> raiseI (ValueError ''unknown core family'')
      | Some (pfx, minimum_size) \<Rightarrow>
          bindI
            (bindI (open_directory directory ''artifact directory'') (\<lambda>(root, root_identity).
               finallyI (family_records directory pfx minimum_size root root_identity) (os_close root))) (\<lambda>records.
             let result = attestation_json family records in
             bindI (case attestation of None \<Rightarrow> returnI ()
                    | Some p \<Rightarrow> write_attestation p (canonical_json result)) (\<lambda>_.
             returnI result)))"

definition verify_singbox :: "path \<Rightarrow> path option \<Rightarrow> json io" where
  "verify_singbox directory attestation = verify_family directory ''sing_box'' attestation"

definition verify_xray :: "path \<Rightarrow> path option \<Rightarrow> json io" where
  "verify_xray directory attestation = verify_family directory ''xray'' attestation"

text \<open>The command line: \<open>--print-attestation-sha256\<close> prints the digest of the attestation.\<close>

definition artifacts_main :: "path \<Rightarrow> string \<Rightarrow> path option \<Rightarrow> bool \<Rightarrow> string option io" where
  "artifacts_main directory family attestation print_sha256 =
     (if map_of FAMILY_LAYOUT family = None then raiseI (UsageError ''invalid choice'')
      else if print_sha256 \<and> attestation = None
      then raiseI (UsageError ''--print-attestation-sha256 requires --attestation'')
      else bindI (verify_family directory family attestation) (\<lambda>result.
        returnI (if print_sha256 then Some (sha256_hex (canonical_json result)) else None)))"

end
