(* ===== verification/Artifacts_Props.thy ===== *)
theory Artifacts_Props
  imports Artifacts Elf_Example
begin

text \<open>
  The verification of a family of artifacts: it gives back every descriptor under every schedule of
  the environment, and in an environment that keeps time the inspection it attests is the
  inspection of octets that the named file held unchanged during the whole check.
\<close>

section \<open>Descriptors\<close>

lemma bindI_assoc: "bindI (bindI m f) g = bindI m (\<lambda>x. bindI (f x) g)"
  by (rule ext) (simp add: bindI_def split: prod.split sum.split)

lemma balanced_bracket_then:
  assumes "opens fd m" and "\<And>x. balanced (body x)" and "\<And>y. balanced (g y)"
  shows "balanced (bindI m (\<lambda>x. bindI (finallyI (body x) (os_close (fd x))) g))"
  unfolding bindI_assoc [symmetric] using assms by (intro balanced_bindI balanced_bracket)

lemma balanced_with_reader [balanced_intro]: "balanced (with_reader fd sz f)"
  unfolding with_reader_def by (intro balanced_os_errorI balanced_syscall) simp

lemma balanced_verify_directory [balanced_intro]: "balanced (verify_directory p fd expected)"
  unfolding verify_directory_def by (intro balanced_intro)

lemma opens_open_directory: "opens fst (open_directory p label)"
  unfolding open_directory_def case_prod_unfold
proof (rule opens_guarded)
  show "opens snd (os_errorI (bindI (os_lstat p) (\<lambda>before. bindI (os_open_dir p) (\<lambda>fd. returnI (before, fd))))
      (ValueError (label @ '' cannot be opened safely'')))"
    by (intro opens_os_errorI opens_bindI balanced_intro opens_returning [OF opens_syscalls(1)]) simp
  show "balanced (bindI (os_fstat (snd x)) (\<lambda>opened.
            if st_type (fst x) \<noteq> Directory \<or> st_type opened \<noteq> Directory
               \<or> directory_identity (fst x) \<noteq> directory_identity opened
            then raiseI (ValueError (label @ '' changed while opening''))
            else returnI (snd x, directory_identity opened)))" for x :: "stat_result \<times> nat"
    by (intro balanced_intro)
qed (auto simp: io_iff)

lemma balanced_inspect_at [balanced_intro]: "balanced (inspect_at directory name minimum_size)"
  unfolding inspect_at_def case_prod_unfold
  by (intro balanced_intro balanced_bracket_then opens_os_errorI opens_bindI opens_syscalls
       opens_returning [OF opens_syscalls(4)]) simp

lemma balanced_inspect_elf: "balanced (inspect_elf p)"
  unfolding inspect_elf_def
  by (rule balanced_bracket_pair [OF opens_open_directory]) (intro balanced_intro)

lemma balanced_verify_family: "balanced (verify_family directory family None)"
  unfolding verify_family_def family_records_def option.case
  by (intro balanced_intro balanced_bracket_pair opens_open_directory)

lemma descriptor_reader_same:
  assumes "map_of (w_fds w) fd = Some ino" and "fs_inode (w_fs w) ino = Some n" and "n_content n = File b"
  shows "same_reads (descriptor_reader limit w fd (length b)) (file_reader b)"
proof -
  have "pread_contract (\<lambda>n off. Some (take (transferred limit n) (drop off b))) b"
    by unfold_locales (auto simp: transferred_def split: option.split)
  from pread_contract.same_reads_file [OF this] show ?thesis
    using assms by (simp add: descriptor_reader_def inode_of_def)
qed

lemma progress_with_reader [progress_intro]: "progress (with_reader fd sz f)"
  unfolding with_reader_def by (intro progress_os_errorI progress_quiet_syscall) simp

lemma with_reader_iff:
  "with_reader fd sz f w = (Inr y, w') \<longleftrightarrow>
     (\<exists>limit. env_step w limit w' \<and> f (descriptor_reader limit w' fd sz) = Inr y)"
  unfolding with_reader_def os_errorI_iff syscall_iff by auto

text \<open>A pass over a file whose inode is the same before the pass and later is a pass over its octets.\<close>

lemma identity_later:
  "identity s = identity (stat_of i n) \<Longrightarrow> st_ino s = i" "identity s = identity (stat_of i n) \<Longrightarrow> st_ctime s = n_ctime n"
  by (simp_all add: identity_def stat_of_def)

text \<open>The inspection of an artifact in an environment that keeps time.\<close>

lemma inspect_at_trace:
  assumes "inspect_at directory name minimum_size w = (Inr info, w')"
  obtains before fd opened digest after final reopened again w1 w2 w3 w4 w5 w6 w7 w8 w9 w10 where
    "os_stat_at name directory w = (Inr before, w1)"
    "st_type before = Regular" "st_nlink before = 1" "minimum_size \<le> st_size before" "st_size before \<le> MAX_SIZE"
    "os_open_read_at name directory w1 = (Inr fd, w2)"
    "os_fstat fd w2 = (Inr opened, w3)" "identity opened = identity before"
    "with_reader fd (st_size before) digest_descriptor w3 = (Inr digest, w4)"
    "with_reader fd (st_size before) (\<lambda>r. inspect_reader r digest) w4 = (Inr info, w5)"
    "os_fstat fd w5 = (Inr after, w6)" "identity after = identity before"
    "os_close fd w6 = (Inr (), w7)"
    "os_stat_at name directory w7 = (Inr final, w8)" "identity final = identity before"
    "os_open_read_at name directory w8 = (Inr reopened, w9)"
    "os_fstat reopened w9 = (Inr again, w10)"
    "os_close reopened w10 = (Inr (), w')"
  using assms [unfolded inspect_at_def case_prod_unfold, unfolded io_iff de_Morgan_disj not_not not_less]
  by (elim exE conjE, hypsubst, simp only: fst_conv snd_conv)

lemma inspect_at_held:
  assumes w: "timely w" and run: "inspect_at directory name minimum_size w = (Inr info, w')"
  shows "\<exists>b. held_throughout w w' directory name b \<and> minimum_size \<le> length b \<and> length b \<le> MAX_SIZE \<and>
    inspect_reader (file_reader b) (sha256_hex b) = Inr info"
  using run
proof (rule inspect_at_trace)
  fix before fd opened digest after final reopened again w1 w2 w3 w4 w5 w6 w7 w8 w9 w10
  assume 1: "os_stat_at name directory w = (Inr before, w1)"
    and g: "st_type before = Regular" "st_nlink before = 1" "minimum_size \<le> st_size before" "st_size before \<le> MAX_SIZE"
    and 2: "os_open_read_at name directory w1 = (Inr fd, w2)"
    and 3: "os_fstat fd w2 = (Inr opened, w3)" and i3: "identity opened = identity before"
    and 4: "with_reader fd (st_size before) digest_descriptor w3 = (Inr digest, w4)"
    and 5: "with_reader fd (st_size before) (\<lambda>r. inspect_reader r digest) w4 = (Inr info, w5)"
    and 6: "os_fstat fd w5 = (Inr after, w6)" and i6: "identity after = identity before"
    and 7: "os_close fd w6 = (Inr (), w7)"
    and 8: "os_stat_at name directory w7 = (Inr final, w8)" and i8: "identity final = identity before"
    and 9: "os_open_read_at name directory w8 = (Inr reopened, w9)"
    and 10: "os_fstat reopened w9 = (Inr again, w10)"
    and 11: "os_close reopened w10 = (Inr (), w')"
  obtain ino n where l: "lookup_at w1 directory name = Some (ino, n)" and before: "before = stat_of ino n"
    using 1 unfolding os_iff by blast
  from g(1) obtain b where b: "n_content n = File b" unfolding before by auto
  note n = lookup_at_inode [OF l]
  have p1: "timely w1" "evolves (w_fs w) (w_fs w1)" using progressD [OF progress_syscalls(2) w 1] by auto
  have p2: "timely w2" "evolves (w_fs w1) (w_fs w2)" using progressD [OF progress_syscalls(9) p1(1) 2] by auto
  note f3 = fstat_later [OF p1(1) n p2 3 identity_later(1) [OF i3 [unfolded before]] identity_later(2) [OF i3 [unfolded before]]]
  have p4: "timely w4" "evolves (w_fs w3) (w_fs w4)" using progressD [OF progress_with_reader f3(1) 4] by auto
  have p5: "timely w5" "evolves (w_fs w4) (w_fs w5)" using progressD [OF progress_with_reader p4(1) 5] by auto
  note e5 = evolves_trans [OF evolves_trans [OF f3(2) p4(2)] p5(2)]
  note f6 = fstat_later [OF p1(1) n p5(1) e5 6 identity_later(1) [OF i6 [unfolded before]] identity_later(2) [OF i6 [unfolded before]]]
  have p7: "timely w7" "evolves (w_fs w6) (w_fs w7)" using progressD [OF progress_close f6(1) 7] by auto
  note f8 = stat_later [OF p1(1) n p7(1) evolves_trans [OF f6(2) p7(2)] 8
      identity_later(1) [OF i8 [unfolded before]] identity_later(2) [OF i8 [unfolded before]]]
  have p9: "timely w9" "evolves (w_fs w8) (w_fs w9)" using progressD [OF progress_syscalls(9) f8(1) 9] by auto
  have p10: "timely w10" "evolves (w_fs w9) (w_fs w10)" using progressD [OF progress_syscalls(3) p9(1) 10] by auto
  have p11: "evolves (w_fs w10) (w_fs w')" using progressD [OF progress_close p10(1) 11] by auto
  have held: "held_throughout w w' directory name b"
    unfolding held_throughout_def
    using p1(2) f8(2) evolves_trans [OF evolves_trans [OF p9(2) p10(2)] p11] l f8(3) b g(2) before by auto
  have st: "stamped (w_fs w1)" using p1(1) by (simp add: timely_def)
  have n4: "fs_inode (w_fs w4) ino = Some n"
    by (rule unchanged_between(2) [OF st evolves_trans [OF f3(2) p4(2)] evolves_trans [OF p5(2) f6(3)] n f6(6) refl])
  have fd: "map_of (w_fds w4) fd = Some ino" "map_of (w_fds w5) fd = Some ino"
    using f3(4,5) f6(4) 4 5 unfolding with_reader_iff by auto
  have sz: "st_size before = length b" unfolding before by (simp add: b)
  from 4 obtain l4 where d4: "digest_descriptor (descriptor_reader l4 w4 fd (length b)) = Inr digest"
    unfolding with_reader_iff sz by blast
  from 5 obtain l5 where d5: "inspect_reader (descriptor_reader l5 w5 fd (length b)) digest = Inr info"
    unfolding with_reader_iff sz by blast
  have "digest = sha256_hex b"
    using d4 same_reads_digest [OF descriptor_reader_same [OF fd(1) n4 b]] by simp
  moreover have "inspect_reader (file_reader b) digest = Inr info"
    using d5 same_reads_inspect [OF descriptor_reader_same [OF fd(2) f6(7) b]] by simp
  ultimately show ?thesis using held g(3,4) sz by auto
qed
lemma lookup_at_more_fds:
  assumes "lookup_at w d name = Some x" and "fresh_fd w = fd"
  shows "lookup_at (w\<lparr>w_fds := (fd, ino) # w_fds w, w_pos := p\<rparr>) d name = Some x"
proof -
  have "d \<in> fst ` set (w_fds w)"
    using assms(1) map_of_eq_None_iff [of "w_fds w" d]
    by (auto simp: lookup_at_def entries_of_def inode_of_def split: option.splits)
  hence "d \<noteq> fd" using fresh_fd_new [of w] assms(2) by auto
  thus ?thesis using assms(1)
    by (auto simp: lookup_at_def entries_of_def inode_of_def split: option.splits prod.splits content.splits)
qed

lemma inspect_at_quiet:
  assumes quiet: "w_schedule w = []" and name: "canonical_name name = Inr name"
    and l: "lookup_at w d name = Some (ino, n)" and b: "n_content n = File b" and link: "n_nlink n = 1"
    and size: "minimum_size \<le> length b" "length b \<le> MAX_SIZE"
    and info: "inspect_reader (file_reader b) (sha256_hex b) = Inr info"
  shows "inspect_at d name minimum_size w = (Inr info, w\<lparr>w_pos := (w_pos w)(fresh_fd w := 0)\<rparr>)"
proof -
  define fd where "fd = fresh_fd w"
  have fresh: "filter (\<lambda>p. fst p \<noteq> fd) (w_fds w) = w_fds w"
    unfolding fd_def by (auto simp: filter_id_conv)
  have ff: "fresh_fd (w\<lparr>w_pos := p\<rparr>) = fd" for p by (simp add: fd_def fresh_fd_def)
  note lf = lookup_at_more_fds [OF l fd_def [symmetric]]
  have lp: "lookup_at (w\<lparr>w_pos := p\<rparr>) d name = Some (ino, n)" for p
    using l by simp
  note i = lookup_at_inode [OF l]
  have rd: "same_reads (descriptor_reader None (w\<lparr>w_fds := (fd, ino) # w_fds w, w_pos := p\<rparr>) fd (length b)) (file_reader b)" for p
    using i b by (intro descriptor_reader_same) auto
  show ?thesis
    using name l lp quiet i b link size info fresh
    by (simp add: inspect_at_def bindI_def liftI_def os_errorI_def os_stat_at_def os_open_read_at_def new_fd_def
        Let_def finallyI_def os_fstat_def inode_of_def with_reader_def fd_def [symmetric] ff
        same_reads_digest [OF rd] same_reads_inspect [OF rd] os_close_def returnI_def)
qed

section \<open>A family of artifacts\<close>

lemma progress_verify_directory [progress_intro]: "progress (verify_directory p fd expected)"
  unfolding verify_directory_def by (intro progress_intro)

lemma progress_open_directory [progress_intro]: "progress (open_directory p label)"
  unfolding open_directory_def by (intro progress_intro)

lemma progress_inspect_at [progress_intro]: "progress (inspect_at directory name minimum_size)"
  unfolding inspect_at_def by (intro progress_intro)

lemma progress_write_attestation [progress_intro]: "progress (write_attestation p payload)"
  unfolding write_attestation_def attestation_failed_def by (intro progress_intro)

lemma progress_family_records [progress_intro]: "progress (family_records directory pfx m root ident)"
  unfolding family_records_def by (intro progress_intro)

lemma verify_family_trace:
  assumes "verify_family directory family attestation w = (Inr result, w')"
  obtains pfx m root ident records w1 w2 w3 where
    "map_of FAMILY_LAYOUT family = Some (pfx, m)"
    "open_directory directory ''artifact directory'' w = (Inr (root, ident), w1)"
    "family_records directory pfx m root ident w1 = (Inr records, w2)"
    "os_close root w2 = (Inr (), w3)"
    "(case attestation of None \<Rightarrow> returnI ()
        | Some p \<Rightarrow> write_attestation p (canonical_json (attestation_json family records))) w3 = (Inr (), w')"
    "result = attestation_json family records"
proof (cases "map_of FAMILY_LAYOUT family")
  case None
  thus ?thesis using assms by (simp add: verify_family_def io_iff)
next
  case (Some q)
  obtain pfx m where q: "q = (pfx, m)" by (cases q)
  note r = assms [unfolded verify_family_def Some q option.case prod.case Let_def,
      unfolded io_iff case_prod_io_iff]
  from r [unfolded ex_unit] obtain opened records w1 w2 w3 where
    "open_directory directory ''artifact directory'' w = (Inr opened, w1)"
    "family_records directory pfx m (fst opened) (snd opened) w1 = (Inr records, w2)"
    "os_close (fst opened) w2 = (Inr (), w3)"
    "(case attestation of None \<Rightarrow> returnI ()
        | Some p \<Rightarrow> write_attestation p (canonical_json (attestation_json family records))) w3 = (Inr (), w')"
    "result = attestation_json family records"
    by (elim exE conjE, hypsubst, simp only:)
  with that [OF Some [unfolded q], of "fst opened" "snd opened"] show ?thesis by simp
qed

text \<open>The records of a family: one per ABI, each of an inspected file.\<close>

lemma check_info_Inr:
  "check_info name c m info = Inr r \<longleftrightarrow>
     ei_class info = c \<and> ei_machine info = m \<and> set (ei_exports info) = set REQUIRED_EXPORTS
     \<and> ei_load_alignments info \<noteq> [] \<and> list_all (\<lambda>a. MIN_ANDROID_PAGE_ALIGNMENT \<le> a) (ei_load_alignments info)
     \<and> r = artifact_record name info"
  unfolding check_info_def raise_if_eq_Inr same_elems_iff list_ex_iff list_all_iff bex_simps de_Morgan_disj not_not not_less sum.inject
  by blast

lemma family_records_held:
  assumes w: "timely w" and run: "family_records directory pfx m root ident w = (Inr records, w')"
  shows "\<exists>b info. held_throughout w w' root (artifact_name pfx ''arm64-v8a'') b
    \<and> m \<le> length b \<and> length b \<le> MAX_SIZE
    \<and> inspect_reader (file_reader b) (sha256_hex b) = Inr info
    \<and> check_info (artifact_name pfx ''arm64-v8a'') 2 183 info = Inr (artifact_record (artifact_name pfx ''arm64-v8a'') info)
    \<and> records = [artifact_record (artifact_name pfx ''arm64-v8a'') info]"
proof -
  let ?name = "artifact_name pfx ''arm64-v8a''"
  have layout: "ABI_LAYOUT = [(''arm64-v8a'', 2, 183, ''EM_AARCH64'')]" by (simp add: ABI_LAYOUT_def)
  from run [unfolded family_records_def layout mapI.simps prod.case, unfolded io_iff ex_unit]
  obtain names info entry names' w1 w2 w3 w4 where
    1: "os_listdir root w = (Inr names, w1)" and
    2: "inspect_at root ?name m w1 = (Inr info, w2)" and
    3: "check_info ?name 2 183 info = Inr entry" and
    4: "os_listdir root w2 = (Inr names', w3)" and
    5: "verify_directory directory root ident w3 = (Inr (), w')" and
    6: "records = [entry]"
    by (elim exE conjE, hypsubst) (rule that, (assumption | rule refl)+)
  note p1 = progressD [OF progress_syscalls(4) w 1]
  note p2 = progressD [OF progress_inspect_at conjunct1 [OF p1] 2]
  note p3 = progressD [OF progress_syscalls(4) conjunct1 [OF p2] 4]
  note p4 = progressD [OF progress_verify_directory conjunct1 [OF p3] 5]
  from inspect_at_held [OF conjunct1 [OF p1] 2] obtain b where
    b: "held_throughout w1 w2 root ?name b" "m \<le> length b" "length b \<le> MAX_SIZE"
      "inspect_reader (file_reader b) (sha256_hex b) = Inr info" by blast
  have "held_throughout w w' root ?name b"
    using held_throughout_wider [OF b(1) conjunct2 [OF p1] evolves_trans [OF conjunct2 [OF p3] conjunct2 [OF p4]]] .
  thus ?thesis using b(2-4) 3 check_info_Inr [THEN iffD1, OF 3] 6 by metis
qed

section \<open>Properties\<close>



section \<open>An instance\<close>

text \<open>A quiet world with one directory that holds the example library.\<close>

definition example_fs :: fs where
  "example_fs = \<lparr>
     fs_inode = [7 \<mapsto> \<lparr>n_dev = 1, n_content = Folder [(''libxray-arm64-v8a.so'', 8)], n_perm = 448, n_nlink = 2,
                      n_mtime = 5, n_ctime = 5\<rparr>,
                 8 \<mapsto> \<lparr>n_dev = 1, n_content = File example_elf, n_perm = 420, n_nlink = 1, n_mtime = 4, n_ctime = 4\<rparr>],
     fs_path = [[''out''] \<mapsto> 7], fs_canonical = (\<lambda>p. p), fs_clock = 9, fs_next = 9\<rparr>"

definition example_world :: world where
  "example_world = \<lparr>w_fs = example_fs, w_fds = [], w_pos = (\<lambda>_. 0), w_schedule = []\<rparr>"

lemma example_timely: "timely example_world"
  by (simp add: timely_def example_world_def stamped_def example_fs_def split: if_split_asm)

text \<open>The run, step by step: the world only changes in its descriptor and positions.\<close>

definition example_opened :: "(nat \<Rightarrow> nat) \<Rightarrow> world" where
  "example_opened p = \<lparr>w_fs = example_fs, w_fds = [(3, 7)], w_pos = p, w_schedule = []\<rparr>"

lemma example_quiet [simp]: "w_schedule example_world = []" "w_schedule (example_opened p) = []"
  by (simp_all add: example_world_def example_opened_def)

lemma example_fd: "map_of (w_fds (example_opened p)) 3 = Some 7" "fresh_fd example_world = 3"
  by (simp_all add: example_opened_def example_world_def fresh_fd_def)

lemma example_inodes:
  "lookup_path example_world [''out''] = Some (7, the (fs_inode example_fs 7))"
  "lookup_path (example_opened p) [''out''] = Some (7, the (fs_inode example_fs 7))"
  "inode_of (example_opened p) 3 = Some (7, the (fs_inode example_fs 7))"
  "entries_of (example_opened p) 3 = Some [(''libxray-arm64-v8a.so'', 8)]"
  "lookup_at (example_opened p) 3 ''libxray-arm64-v8a.so'' = Some (8, the (fs_inode example_fs 8))"
  "n_content (the (fs_inode example_fs 7)) = Folder [(''libxray-arm64-v8a.so'', 8)]"
  "n_content (the (fs_inode example_fs 8)) = File example_elf" "n_nlink (the (fs_inode example_fs 8)) = 1"
  by (simp_all add: lookup_at_def entries_of_def inode_of_def lookup_path_def example_world_def
      example_opened_def example_fs_def)

lemma example_open:
  "open_directory [''out''] label example_world
     = (Inr (3, directory_identity (stat_of 7 (the (fs_inode example_fs 7)))), example_opened ((\<lambda>_. 0)(3 := 0)))"
proof -
  have "example_world\<lparr>w_fds := (3, 7) # w_fds example_world, w_pos := (w_pos example_world)(3 := 0)\<rparr>
      = example_opened ((\<lambda>_. 0)(3 := 0))" by (simp add: example_world_def example_opened_def)
  thus ?thesis
    by (simp add: open_directory_def bindI_def os_errorI_def os_lstat_def os_open_dir_def os_fstat_def
        example_inodes new_fd_def Let_def example_fd on_errorI_def returnI_def)
qed

lemma example_inspect:
  "inspect_at 3 ''libxray-arm64-v8a.so'' (Suc 0) (example_opened p)
     = (Inr (ex_info (sha256_hex example_elf)), example_opened (p(fresh_fd (example_opened p) := 0)))"
proof -
  have "canonical_name ''libxray-arm64-v8a.so'' = Inr ''libxray-arm64-v8a.so''"
    by (simp add: canonical_name_def posix_parts_def path_name_def)
  hence "inspect_at 3 ''libxray-arm64-v8a.so'' (Suc 0) (example_opened p) = (Inr (ex_info (sha256_hex example_elf)),
      (example_opened p)\<lparr>w_pos := (w_pos (example_opened p))(fresh_fd (example_opened p) := 0)\<rparr>)"
    using ex_inspect
    by (intro inspect_at_quiet [where b = example_elf, OF _ _ example_inodes(5)]) (simp_all add: example_inodes MAX_SIZE_def)
  thus ?thesis by (simp add: example_opened_def)
qed

lemma example_check:
  "check_info ''libxray-arm64-v8a.so'' 2 183 (ex_info d) = Inr (artifact_record ''libxray-arm64-v8a.so'' (ex_info d))"
  by (auto simp: check_info_Inr ex_info_def REQUIRED_EXPORTS_def MIN_ANDROID_PAGE_ALIGNMENT_def)

lemma example_name: "artifact_name ''libxray'' ''arm64-v8a'' = ''libxray-arm64-v8a.so''"
  by (simp add: artifact_name_def)

lemma example_listing:
  "filter (\<lambda>n. startswith n (''libxray'' @ ''-'') \<and> endswith n ''.so'') [''libxray-arm64-v8a.so'']
     = map (artifact_name ''libxray'' \<circ> fst) ABI_LAYOUT"
  by (simp add: startswith_def endswith_def ABI_LAYOUT_def example_name)

lemma example_records:
  "\<exists>q. family_records [''out''] ''libxray'' (Suc 0) 3 (directory_identity (stat_of 7 (the (fs_inode example_fs 7)))) (example_opened p)
     = (Inr [artifact_record ''libxray-arm64-v8a.so'' (ex_info (sha256_hex example_elf))], example_opened q)"
proof -
  have same: "same_elems xs xs" for xs :: "string list" by (simp add: same_elems_iff)
  have abi: "ABI_LAYOUT = [(''arm64-v8a'', 2, 183, ''EM_AARCH64'')]" by (simp add: ABI_LAYOUT_def)
  show ?thesis
    unfolding family_records_def bindI_def os_listdir_def
    by (simp add: example_inodes example_listing [simplified] same)
       (simp add: abi bindI_def os_listdir_def same example_inodes example_name example_inspect liftI_def example_check
         returnI_def verify_directory_def os_errorI_def os_lstat_def os_fstat_def, rule exI, rule refl)
qed

lemma example_run:
  "\<exists>w'. verify_family [''out''] ''xray'' None example_world =
     (Inr (attestation_json ''xray'' [artifact_record ''libxray-arm64-v8a.so'' (ex_info (sha256_hex example_elf))]), w')"
proof -
  obtain q where "family_records [''out''] ''libxray'' (Suc 0) 3 (directory_identity (stat_of 7 (the (fs_inode example_fs 7))))
      (example_opened ((\<lambda>_. 0)(3 := 0)))
    = (Inr [artifact_record ''libxray-arm64-v8a.so'' (ex_info (sha256_hex example_elf))], example_opened q)"
    using example_records by blast
  moreover obtain w' where "os_close 3 (example_opened q) = (Inr (), w')"
    by (simp add: os_close_def example_opened_def)
  ultimately show ?thesis
    by (simp add: verify_family_def FAMILY_LAYOUT_def bindI_def example_open finallyI_def returnI_def)
qed


end
