(* ===== verification/Manifests.thy ===== *)
theory Manifests
  imports Artifacts Remote_Release
begin

text \<open>
  The manifests of the two families: \<open>scripts/generate_manifest.py\<close>, \<open>scripts/verify_manifest.py\<close>
  and their sing-box counterparts. A command line is a record; each script is one \<open>io\<close> computation
  over pure parts (the checks of the arguments, the manifest as a JSON value, the checks of a
  manifest that need no file).
\<close>

section \<open>Arguments\<close>

record manifest_args =
  ma_directory :: path
  ma_upstream_tag :: string
  ma_upstream_commit :: string
  ma_wrapper_commit :: string
  ma_release_tag :: string
  ma_output :: path

record singbox_args = manifest_args +
  ma_go_version :: string
  ma_source_bundle :: path

text \<open>\<open>fullmatch(prefix-tag-w([1-9][0-9]*))\<close>: the release tag, and the wrapper revision it ends in.\<close>

definition manifest_tag_rx :: "string \<Rightarrow> string \<Rightarrow> rx" where
  "manifest_tag_rx pfx upstream_tag = Seq (lit (pfx @ ''-'' @ upstream_tag @ ''-w'')) NUMERAL_RX"

definition wrapper_revision :: "string \<Rightarrow> string \<Rightarrow> string \<Rightarrow> nat" where
  "wrapper_revision pfx upstream_tag release_tag =
     nat_of_digits (drop (length (pfx @ ''-'' @ upstream_tag @ ''-w'')) release_tag)"

definition check_tags :: "string \<Rightarrow> string \<Rightarrow> string \<Rightarrow> unit res" where
  "check_tags pfx upstream_tag release_tag =
     (if \<not> fullmatch VERSION_RX upstream_tag then Inl (ValueError ''invalid upstream tag'')
      else if \<not> fullmatch (manifest_tag_rx pfx upstream_tag) release_tag
              \<or> wrapper_revision pfx upstream_tag release_tag < 2
      then Inl (ValueError ''ABI 2 release tag must use wrapper revision w2 or newer'')
      else Inr ())"

definition check_commits :: "string \<Rightarrow> string \<Rightarrow> unit res" where
  "check_commits upstream_commit wrapper_commit =
     (if \<not> fullmatch COMMIT_RX upstream_commit then Inl (ValueError ''invalid upstream commit'')
      else if \<not> fullmatch COMMIT_RX wrapper_commit then Inl (ValueError ''invalid wrapper commit'')
      else Inr ())"

section \<open>The manifest\<close>

definition core_entry :: "string \<Rightarrow> nat \<Rightarrow> string \<Rightarrow> elf_info \<Rightarrow> json" where
  "core_entry name sz hex info = JObj
     [(''name'', JStr name), (''size'', JInt (int sz)), (''sha256'', JStr hex),
      (''elfClass'', JInt (if ei_class info = 2 then 64 else 32)), (''elfMachine'', JInt (ei_machine info)),
      (''elfMachineName'', JStr (ei_machine_name info)), (''exports'', JArr (map JStr EXPORTS))]"

definition manifest_json :: "string \<Rightarrow> string \<Rightarrow> dict \<Rightarrow> dict \<Rightarrow> dict \<Rightarrow> json" where
  "manifest_json family release_tag upstream wrapper assets = JObj
     [(''schema'', JInt 3), (''coreApi'', JInt 2), (''configContract'', JInt 1), (''family'', JStr family),
      (''releaseTag'', JStr release_tag), (''upstream'', JObj upstream), (''wrapper'', JObj wrapper),
      (''minAndroidApi'', JInt 29), (''requiredExports'', JArr (map JStr EXPORTS)), (''assets'', JObj assets)]"

definition xray_manifest :: "'a manifest_args_scheme \<Rightarrow> dict \<Rightarrow> json" where
  "xray_manifest a assets = manifest_json ''xray'' (ma_release_tag a)
     [(''repository'', JStr ''XTLS/libXray''), (''tag'', JStr (ma_upstream_tag a)),
      (''commit'', JStr (ma_upstream_commit a))]
     [(''repository'', JStr ''kvuco/exitFy-cores''), (''commit'', JStr (ma_wrapper_commit a))] assets"

definition BUILD_TAGS :: "string list" where
  "BUILD_TAGS = [''badlinkname'', ''tfogo_checklinkname0'', ''with_quic'', ''with_utls'']"

definition source_entry :: "string \<Rightarrow> nat \<Rightarrow> string \<Rightarrow> json" where
  "source_entry name sz hex = JObj [(''name'', JStr name), (''size'', JInt (int sz)), (''sha256'', JStr hex)]"

definition singbox_manifest :: "singbox_args \<Rightarrow> json \<Rightarrow> dict \<Rightarrow> json" where
  "singbox_manifest a src assets = manifest_json ''sing_box'' (ma_release_tag a)
     [(''repository'', JStr ''SagerNet/sing-box''), (''tag'', JStr (ma_upstream_tag a)),
      (''commit'', JStr (ma_upstream_commit a)), (''goVersion'', JStr (ma_go_version a))]
     [(''repository'', JStr ''kvuco/exitFy-cores''), (''commit'', JStr (ma_wrapper_commit a)),
      (''ndkVersion'', JStr NDK_VERSION), (''buildTags'', JArr (map JStr BUILD_TAGS)), (''sourceBundle'', src)]
     assets"

text \<open>\<open>json.dumps(manifest, ensure_ascii=False, indent=2) + "\n"\<close>\<close>

definition pretty_opts :: dump_opts where
  "pretty_opts = \<lparr>opt_indent = Some 2, opt_sort = False, opt_ascii = False\<rparr>"

definition manifest_text :: "json \<Rightarrow> string" where
  "manifest_text m = dumps pretty_opts m @ [CHR 0x0A]"

section \<open>Generating\<close>

definition generate_entry :: "path \<Rightarrow> string \<Rightarrow> string \<Rightarrow> (string \<times> json) io" where
  "generate_entry directory pfx abi =
     (let p = directory @ [artifact_name pfx abi] in
      bindI (inspect_elf p) (\<lambda>info.
      bindI (os_path_stat p) (\<lambda>s.
      bindI (file_sha256 p) (\<lambda>hex.
        returnI (abi, core_entry (path_name p) (st_size s) hex info)))))"

definition generate_manifest :: "manifest_args \<Rightarrow> unit io" where
  "generate_manifest a =
     bindI (liftI (check_tags ''xray'' (ma_upstream_tag a) (ma_release_tag a))) (\<lambda>_.
     bindI (liftI (check_commits (ma_upstream_commit a) (ma_wrapper_commit a))) (\<lambda>_.
     bindI (verify_xray (ma_directory a) None) (\<lambda>_.
     bindI (mapI (\<lambda>(abi, _). generate_entry (ma_directory a) ''libxray'' abi) ABI_LAYOUT) (\<lambda>assets.
       write_text (ma_output a) (manifest_text (xray_manifest a assets))))))"

definition SINGBOX_PREFIX :: string where
  "SINGBOX_PREFIX = ''libexitfy-sb''"

definition generate_singbox_manifest :: "singbox_args \<Rightarrow> unit io" where
  "generate_singbox_manifest a =
     bindI (liftI (check_tags ''sb'' (ma_upstream_tag a) (ma_release_tag a))) (\<lambda>_.
     if \<not> fullmatch GO_VERSION_RX (ma_go_version a)
     then raiseI (ValueError ''invalid upstream Go version'')
     else
       bindI (liftI (check_commits (ma_upstream_commit a) (ma_wrapper_commit a))) (\<lambda>_.
       bindI (path_is_file (ma_source_bundle a)) (\<lambda>is_file.
       bindI (if \<not> is_file then returnI False
              else bindI (os_path_stat (ma_source_bundle a)) (\<lambda>s. returnI (0 < st_size s))) (\<lambda>present.
       if \<not> present then raiseI (ValueError ''source bundle is missing'')
       else
         bindI (verify_singbox (ma_directory a) None) (\<lambda>_.
         bindI (mapI (\<lambda>(abi, _). generate_entry (ma_directory a) SINGBOX_PREFIX abi) ABI_LAYOUT) (\<lambda>assets.
         bindI (os_path_stat (ma_source_bundle a)) (\<lambda>s.
         bindI (file_sha256 (ma_source_bundle a)) (\<lambda>hex.
           write_text (ma_output a) (manifest_text
             (singbox_manifest a (source_entry (path_name (ma_source_bundle a)) (st_size s) hex) assets))))))))))"

section \<open>The checks of a manifest that need no file\<close>

text \<open>\<open>d.get(k) or {}\<close>, then \<open>.get\<close> of the result.\<close>

definition or_dict :: "json \<Rightarrow> json" where
  "or_dict v = (if truthy v then v else JObj [])"

text \<open>\<open>re.fullmatch(rx, v)\<close>: only a text can be matched.\<close>

definition match_value :: "rx \<Rightarrow> json \<Rightarrow> bool res" where
  "match_value r v = (case v of JStr s \<Rightarrow> Inr (fullmatch r s) | _ \<Rightarrow> Inl TypeError)"

definition exports_set :: "dict \<Rightarrow> string \<Rightarrow> bool res" where
  "exports_set d k = set_equals (dget_default d k (JArr [])) EXPORTS"

definition manifest_contract :: "json \<Rightarrow> string \<Rightarrow> string \<Rightarrow> dict res" where
  "manifest_contract v family label =
     bindE (set_equals v TOP_LEVEL) (\<lambda>same.
     if \<not> same then Inl (ValueError ''manifest top-level fields do not match schema 3'')
     else bindE (attr_items v) (\<lambda>m.
       if \<not> py_eq (dget m ''schema'') (JInt 3) \<or> \<not> py_eq (dget m ''coreApi'') (JInt 2)
          \<or> \<not> py_eq (dget m ''configContract'') (JInt 1) \<or> \<not> py_eq (dget m ''family'') (JStr family)
          \<or> \<not> py_eq (dget m ''minAndroidApi'') (JInt 29)
       then Inl (ValueError label)
       else bindE (exports_set m ''requiredExports'') (\<lambda>exact.
         if \<not> exact then Inl (ValueError label) else Inr m)))"

text \<open>\<open>or\<close> stops at the first test that fails, so later tests are suspended.\<close>

definition xray_pins :: "dict \<Rightarrow> unit res" where
  "xray_pins m =
     (let bad = Inl (ValueError ''manifest pins are invalid'');
          release_tag = dget_default m ''releaseTag'' (JStr [])
      in bindE (attr_items (or_dict (dget m ''upstream''))) (\<lambda>u.
         bindE (match_value VERSION_RX (dget_default u ''tag'' (JStr []))) (\<lambda>version_ok.
         if \<not> version_ok then bad else
         bindE (match_value (release_tag_rx ''xray'' (str_value (dget_default u ''tag'' (JStr [])))) release_tag) (\<lambda>tag_ok.
         if \<not> tag_ok \<or> \<not> py_eq (dget u ''repository'') (JStr ''XTLS/libXray'') then bad else
         bindE (attr_items (or_dict (dget m ''wrapper''))) (\<lambda>w.
         if \<not> py_eq (dget w ''repository'') (JStr ''kvuco/exitFy-cores'') then bad else
         bindE (match_value COMMIT_RX (dget_default u ''commit'' (JStr []))) (\<lambda>upstream_ok.
         if \<not> upstream_ok then bad else
         bindE (match_value COMMIT_RX (dget_default w ''commit'' (JStr []))) (\<lambda>wrapper_ok.
         if \<not> wrapper_ok then bad else Inr ())))))))"

definition singbox_pins :: "dict \<Rightarrow> dict res" where
  "singbox_pins m =
     (let bad = Inl (ValueError ''SB manifest pins are invalid'');
          release_tag = dget_default m ''releaseTag'' (JStr [])
      in bindE (attr_items (or_dict (dget m ''wrapper''))) (\<lambda>w.
         bindE (attr_items (or_dict (dget m ''upstream''))) (\<lambda>u.
         if \<not> py_eq (dget u ''repository'') (JStr ''SagerNet/sing-box'') then bad else
         bindE (match_value VERSION_RX (dget_default u ''tag'' (JStr []))) (\<lambda>version_ok.
         if \<not> version_ok then bad else
         bindE (match_value (release_tag_rx ''sb'' (str_value (dget_default u ''tag'' (JStr [])))) release_tag) (\<lambda>tag_ok.
         if \<not> tag_ok then bad else
         bindE (match_value COMMIT_RX (dget_default u ''commit'' (JStr []))) (\<lambda>upstream_ok.
         if \<not> upstream_ok then bad else
         bindE (match_value GO_VERSION_RX (dget_default u ''goVersion'' (JStr []))) (\<lambda>go_ok.
         if \<not> go_ok \<or> \<not> py_eq (dget w ''repository'') (JStr ''kvuco/exitFy-cores'') then bad else
         bindE (match_value COMMIT_RX (dget_default w ''commit'' (JStr []))) (\<lambda>wrapper_ok.
         if \<not> wrapper_ok \<or> \<not> py_eq (dget w ''ndkVersion'') (JStr NDK_VERSION)
            \<or> \<not> py_eq (dget w ''buildTags'') (JArr (map JStr BUILD_TAGS))
         then bad else attr_items (or_dict (dget w ''sourceBundle''))))))))))"

section \<open>Verifying\<close>

text \<open>\<open>assets[abi]\<close>\<close>

fun get_item :: "json \<Rightarrow> string \<Rightarrow> json res" where
  "get_item (JObj d) k = (case map_of d k of None \<Rightarrow> Inl KeyError | Some v \<Rightarrow> Inr v)"
| "get_item _ k = Inl TypeError"

definition check_assets :: "dict \<Rightarrow> json res" where
  "check_assets m =
     (let assets = or_dict (dget m ''assets'') in
      bindE (set_equals assets (map fst ABI_LAYOUT)) (\<lambda>same.
        if \<not> same then Inl (ValueError ''manifest ABI set is incomplete'') else Inr assets))"

definition verify_entry :: "path \<Rightarrow> string \<Rightarrow> json \<Rightarrow> string \<times> int \<times> int \<times> string \<Rightarrow> unit io" where
  "verify_entry directory pfx assets layout =
     (case layout of (abi, elf_class, machine, machine_name) \<Rightarrow>
       let p = directory @ [artifact_name pfx abi];
           mismatch = raiseI (ValueError (''manifest asset mismatch for '' @ abi))
       in bindI (liftI (get_item assets abi)) (\<lambda>entry.
          bindI (inspect_elf p) (\<lambda>info.
          bindI (liftI (attr_items entry)) (\<lambda>e.
          if \<not> py_eq (dget e ''name'') (JStr (path_name p)) then mismatch else
          bindI (os_path_stat p) (\<lambda>s.
          if \<not> py_eq (dget e ''size'') (JInt (int (st_size s))) then mismatch else
          bindI (file_sha256 p) (\<lambda>hex.
          if \<not> py_eq (dget e ''sha256'') (JStr hex)
             \<or> \<not> py_eq (dget e ''elfClass'') (JInt (if elf_class = 2 then 64 else 32))
             \<or> \<not> py_eq (dget e ''elfMachine'') (JInt machine)
             \<or> \<not> py_eq (dget e ''elfMachineName'') (JStr machine_name)
          then mismatch else
          bindI (liftI (exports_set e ''exports'')) (\<lambda>exact.
          if \<not> exact \<or> ei_machine info \<noteq> machine then mismatch else returnI ())))))))"

definition verify_manifest :: "path \<Rightarrow> path \<Rightarrow> string io" where
  "verify_manifest manifest directory =
     bindI (verify_xray directory None) (\<lambda>_.
     bindI (read_file manifest) (\<lambda>raw.
     bindI (liftI (json_loads_text raw)) (\<lambda>v.
     bindI (liftI (manifest_contract v ''xray'' ''unsupported manifest contract'')) (\<lambda>m.
     bindI (liftI (xray_pins m)) (\<lambda>_.
     bindI (liftI (check_assets m)) (\<lambda>assets.
     bindI (mapI (verify_entry directory ''libxray'' assets) ABI_LAYOUT) (\<lambda>_.
       returnI (''manifest schema 3 verified: '' @ str_value (dget m ''releaseTag'')))))))))"

definition verify_source_entry :: "path \<Rightarrow> dict \<Rightarrow> unit io" where
  "verify_source_entry source_bundle src =
     (let mismatch = raiseI (ValueError ''source bundle metadata mismatch'') in
      if \<not> py_eq (dget src ''name'') (JStr (path_name source_bundle)) then mismatch else
      bindI (os_path_stat source_bundle) (\<lambda>s.
      if \<not> py_eq (dget src ''size'') (JInt (int (st_size s))) then mismatch else
      bindI (file_sha256 source_bundle) (\<lambda>hex.
      if \<not> py_eq (dget src ''sha256'') (JStr hex) then mismatch else returnI ())))"

definition verify_singbox_manifest :: "path \<Rightarrow> path \<Rightarrow> path \<Rightarrow> string io" where
  "verify_singbox_manifest manifest directory source_bundle =
     bindI (verify_singbox directory None) (\<lambda>_.
     bindI (read_file manifest) (\<lambda>raw.
     bindI (liftI (json_loads_text raw)) (\<lambda>v.
     bindI (liftI (manifest_contract v ''sing_box'' ''unsupported SB manifest contract'')) (\<lambda>m.
     bindI (liftI (singbox_pins m)) (\<lambda>src.
     bindI (verify_source_entry source_bundle src) (\<lambda>_.
     bindI (liftI (check_assets m)) (\<lambda>assets.
     bindI (mapI (verify_entry directory SINGBOX_PREFIX assets) ABI_LAYOUT) (\<lambda>_.
       returnI (''SB manifest schema 3 verified: '' @ str_value (dget m ''releaseTag''))))))))))"

end
