(* ===== verification/Manifests_Props.thy ===== *)
theory Manifests_Props
  imports Manifests Remote_Release_Props Py_Json_Props
begin

text \<open>
  A generated manifest is read back as it was built, passes the checks of the verifying script that
  need no file, and is the manifest of a release the remote check accepts.
\<close>

section \<open>Texts that match a pattern are ASCII\<close>

fun ascii_rx :: "rx \<Rightarrow> bool" where
  "ascii_rx (Cls rs) = list_all (\<lambda>(lo, hi). byte_val hi < 128) rs"
| "ascii_rx (Seq r q) = (ascii_rx r \<and> ascii_rx q)"
| "ascii_rx (Alt r q) = (ascii_rx r \<and> ascii_rx q)"
| "ascii_rx (Star r) = ascii_rx r"
| "ascii_rx _ = True"

lemma ascii_append [simp]: "ascii (s @ t) \<longleftrightarrow> ascii s \<and> ascii t"
  by (simp add: ascii_def)

lemma ascii_lang: "in_lang r s \<Longrightarrow> ascii_rx r \<Longrightarrow> ascii s"
proof (induction r s rule: in_lang.induct)
  case (cls rs c)
  then obtain lo hi where "(lo, hi) \<in> set rs" "byte_val c \<le> byte_val hi" "byte_val hi < 128"
    by (fastforce simp: in_cls_def list_ex_iff list_all_iff)
  thus ?case by (simp add: ascii_def)
qed (simp_all add: ascii_def)

lemma ascii_fullmatch: "fullmatch r s \<Longrightarrow> ascii_rx r \<Longrightarrow> ascii s"
  using ascii_lang by (simp add: fullmatch_iff)

lemma ascii_patterns [simp]:
  "ascii_rx VERSION_RX" "ascii_rx COMMIT_RX" "ascii_rx DIGEST_RX" "ascii_rx GO_VERSION_RX" "ascii_rx NUMERAL_RX"
  by code_simp+

section \<open>Release tags\<close>

lemma wrapper_revision_append:
  "wrapper_revision pfx tag ((pfx @ ''-'' @ tag @ ''-w'') @ s) = nat_of_digits s"
proof -
  have "drop (length p) (p @ s) = s" for p :: string by simp
  thus ?thesis unfolding wrapper_revision_def by (rule arg_cong)
qed

lemma check_tags_iff:
  "check_tags pfx tag rt = Inr () \<longleftrightarrow>
     fullmatch VERSION_RX tag \<and> (\<exists>n \<ge> 2. rt = pfx @ ''-'' @ tag @ ''-w'' @ dec_nat n)"
proof -
  have "fullmatch (manifest_tag_rx pfx tag) rt \<and> \<not> wrapper_revision pfx tag rt < 2 \<longleftrightarrow>
      (\<exists>n \<ge> 2. rt = pfx @ ''-'' @ tag @ ''-w'' @ dec_nat n)"
    unfolding fullmatch_iff manifest_tag_rx_def in_lang_Seq_lit NUMERAL_iff
    using wrapper_revision_append [of pfx tag] by (fastforce simp: not_less)
  thus ?thesis unfolding check_tags_def raise_if_eq_Inr by blast
qed

lemma check_commits_iff:
  "check_commits uc wc = Inr () \<longleftrightarrow> fullmatch COMMIT_RX uc \<and> fullmatch COMMIT_RX wc"
  unfolding check_commits_def raise_if_eq_Inr by blast

section \<open>A manifest is read back\<close>

lemma json_loads_text_dumps:
  assumes "plain v" and "list_all is_ws w"
  shows "json_loads_text (dumps cfg v @ w) = Inr (if opt_sort cfg then sort_obj v else v)"
proof -
  define u where "u = (if opt_sort cfg then sort_obj v else v)"
  have u: "plain u" using assms(1) by (simp add: u_def plain_sort_all)
  let ?t = "dumps cfg v @ w"
  have t: "?t = render cfg 0 u @ w" by (simp add: dumps_def u_def)
  have "byte_val c < 128" if "c \<in> set ?t" for c
    using that text_octet_render_all(1) [OF u, of cfg 0] assms(2)
    by (fastforce simp: t list_all_iff text_octet_def is_ws_def)
  hence "utf8_ok False ?t" by (intro utf8_ok_ascii) blast
  moreover have "num_end w" using assms(2) by (cases w) (auto simp: num_end_def is_ws_def)
  then have "parse_value (2 * length ?t + 2) (render cfg 0 u @ w) = Inr (u, w)"
    using u by (intro parse_value_render) (simp_all add: t)
  moreover have "skip_ws w = []" using assms(2) by (auto simp: skip_ws_def list_all_iff)
  ultimately show ?thesis
    using u by (simp add: json_loads_text_def t flip: u_def)
qed

lemma manifest_text_read:
  assumes "plain m"
  shows "json_loads (manifest_text m) = Inr m" and "json_loads_text (manifest_text m) = Inr m"
  using json_loads_dumps [OF assms, of "[CHR 0x0A]" pretty_opts]
    json_loads_text_dumps [OF assms, of "[CHR 0x0A]" pretty_opts]
  by (simp_all add: manifest_text_def pretty_opts_def is_ws_def)

section \<open>The generated manifest\<close>

definition one_core :: "string \<Rightarrow> nat \<Rightarrow> string \<Rightarrow> dict" where
  "one_core family n hex =
     [(''arm64-v8a'', core_entry (core_asset_name family ''arm64-v8a'') n hex
        \<lparr>ei_class = 2, ei_machine = 183, ei_machine_name = ''EM_AARCH64'', ei_exports = [], ei_load_alignments = [],
         ei_size = int n, ei_sha256 = hex\<rparr>)]"

lemma core_entry_of_info:
  "ei_class info = 2 \<Longrightarrow> ei_machine info = 183 \<Longrightarrow> ei_machine_name info = ''EM_AARCH64'' \<Longrightarrow>
     [(''arm64-v8a'', core_entry (core_asset_name family ''arm64-v8a'') n hex info)] = one_core family n hex"
  by (simp add: one_core_def core_entry_def)

lemma ascii_consts [simp]: "ascii []" "ascii (c # s) \<longleftrightarrow> byte_val c < 128 \<and> ascii s"
  by (simp_all add: ascii_def)

lemma ascii_dec_nat [simp]: "ascii (dec_nat n)"
  using ascii_fullmatch [of NUMERAL_RX "dec_nat n"] NUMERAL_dec_nat [of n] by (cases "n = 0") (auto simp: fullmatch_iff)

lemma plain_one_core:
  "fullmatch DIGEST_RX hex \<Longrightarrow> plain (JObj (one_core family n hex))"
  by (simp add: one_core_def core_entry_def core_asset_name_def EXPORTS_def ascii_fullmatch)

lemma plain_xray_manifest:
  assumes "check_tags ''xray'' (ma_upstream_tag a) (ma_release_tag a) = Inr ()"
    and "check_commits (ma_upstream_commit a) (ma_wrapper_commit a) = Inr ()" and "plain (JObj assets)"
  shows "plain (xray_manifest a assets)"
  using assms unfolding check_tags_iff check_commits_iff
  by (auto simp: xray_manifest_def manifest_json_def EXPORTS_def ascii_fullmatch)


definition members :: "json \<Rightarrow> dict" where
  "members v = (case v of JObj d \<Rightarrow> d | _ \<Rightarrow> [])"

lemma generated_contract:
  "manifest_contract (manifest_json family rt u w assets) family label = Inr (members (manifest_json family rt u w assets))"
proof -
  have e: "set_equals (JArr (map JStr EXPORTS)) EXPORTS = Inr True" by code_simp
  have k: "set_equals (manifest_json family rt u w assets) TOP_LEVEL = Inr True"
    by (simp add: manifest_json_def set_equals_def TOP_LEVEL_def same_elems_def)
  show ?thesis
    unfolding manifest_contract_def k
    by (simp add: manifest_json_def dget_def members_def exports_set_def dget_default_def e num_eq_def)
qed

lemma generated_xray_pins:
  assumes "check_tags ''xray'' (ma_upstream_tag a) (ma_release_tag a) = Inr ()"
    and "check_commits (ma_upstream_commit a) (ma_wrapper_commit a) = Inr ()"
  shows "xray_pins (members (xray_manifest a assets)) = Inr ()"
  using assms unfolding check_tags_iff check_commits_iff
  by (auto simp: xray_pins_def xray_manifest_def manifest_json_def members_def dget_def dget_default_def or_dict_def
      match_value_def str_value_def release_tag_rx_iff)

lemma generated_assets:
  "check_assets (members (manifest_json family rt u w (one_core family' n hex))) = Inr (JObj (one_core family' n hex))"
  by (simp add: check_assets_def manifest_json_def members_def dget_def or_dict_def one_core_def ABI_LAYOUT_def
      set_equals_def same_elems_def)

lemma generated_xray_remote:
  assumes args: "check_tags ''xray'' (ma_upstream_tag a) (ma_release_tag a) = Inr ()"
      "check_commits (ma_upstream_commit a) (ma_wrapper_commit a) = Inr ()"
    and core: "fullmatch DIGEST_RX hex" "MIB \<le> n" "n \<le> 64 * MIB"
    and len: "length b \<le> MAX_MANIFEST_BYTES"
    and release: "check_release_state release allow = Inr ()"
      "dget release ''target_commitish'' = JStr (ma_wrapper_commit a)"
      "dget release ''tag_name'' = JStr (ma_release_tag a)"
    and assets: "asset_map release = Inr t" "set (map fst t) = {''manifest.json'', ''libxray-arm64-v8a.so''}"
      "remote_as t ''manifest.json'' (JInt (int (length b))) (sha256_hex b)"
      "remote_as t ''libxray-arm64-v8a.so'' (JInt (int n)) hex"
  shows "verify_remote_release (JObj release) (xray_manifest a (one_core ''xray'' n hex)) b ''xray''
    (ma_upstream_commit a) (ma_wrapper_commit a) allow = Inr ()"
proof -
  define d where "d = members (xray_manifest a (one_core ''xray'' n hex))"
  have m: "xray_manifest a (one_core ''xray'' n hex) = JObj d"
    by (simp add: d_def members_def xray_manifest_def manifest_json_def)
  have e: "exports_exactly (JArr (map JStr EXPORTS)) = Inr True" by (rule exports_exactly_Inr)
  obtain k where tag: "fullmatch VERSION_RX (ma_upstream_tag a)" "2 \<le> k"
      "ma_release_tag a = ''xray-'' @ ma_upstream_tag a @ ''-w'' @ dec_nat k"
    and commits: "fullmatch COMMIT_RX (ma_upstream_commit a)" "fullmatch COMMIT_RX (ma_wrapper_commit a)"
    using args unfolding check_tags_iff check_commits_iff by auto
  have keys: "keys_are d TOP_LEVEL"
    by (simp add: d_def members_def xray_manifest_def manifest_json_def keys_are_def TOP_LEVEL_def same_elems_def)
  have fields: "dget d ''schema'' = JInt 3" "dget d ''coreApi'' = JInt 2" "dget d ''configContract'' = JInt 1"
    "dget d ''family'' = JStr ''xray''" "dget d ''minAndroidApi'' = JInt 29"
    "dget d ''requiredExports'' = JArr (map JStr EXPORTS)" "dget d ''releaseTag'' = JStr (ma_release_tag a)"
    "dget d ''upstream'' = JObj [(''repository'', JStr ''XTLS/libXray''), (''tag'', JStr (ma_upstream_tag a)),
        (''commit'', JStr (ma_upstream_commit a))]"
    "dget d ''wrapper'' = JObj [(''repository'', JStr ''kvuco/exitFy-cores''), (''commit'', JStr (ma_wrapper_commit a))]"
    "dget d ''assets'' = JObj (one_core ''xray'' n hex)"
    by (simp_all add: d_def members_def xray_manifest_def manifest_json_def dget_def)
  have core_ok: "check_core_asset t (one_core ''xray'' n hex) ''xray'' (''arm64-v8a'', 64, 183, ''EM_AARCH64'')
      = Inr ''libxray-arm64-v8a.so''"
    unfolding check_core_asset_Inr using core assets(4) e
    by (simp add: core_asset_name_def one_core_def core_entry_def dget_def keys_are_def same_elems_def size_within_def MIB_def num_eq_def)
  define u where "u = [(''repository'', JStr ''XTLS/libXray''), (''tag'', JStr (ma_upstream_tag a)),
        (''commit'', JStr (ma_upstream_commit a))]"
  define w where "w = [(''repository'', JStr ''kvuco/exitFy-cores''), (''commit'', JStr (ma_wrapper_commit a))]"
  have pins: "check_xray_pins (JObj u) (JObj w) = Inr (u, w)" "check_commit_pins u w (ma_upstream_commit a) (ma_wrapper_commit a) = Inr ()"
    unfolding check_xray_pins_Inr check_commit_pins_Inr
    by (simp_all add: u_def w_def dget_def keys_are_def same_elems_def)
  have contract: "core_contract d ''xray'' = Inr ()"
    unfolding core_contract_Inr fields e by (simp add: num_eq_def)
  have tag_ok: "manifest_upstream_tag d = Inr (ma_upstream_tag a)"
    unfolding manifest_upstream_tag_Inr fields using tag(1) by (simp add: dget_def)
  have rt: "check_release_tag release d ''xray'' (ma_upstream_tag a) = Inr ()"
    unfolding check_release_tag_Inr fields release_tag_rx_iff using release(3) tag by (auto simp: family_prefix_def)
  have ma: "check_manifest_asset t b = Inr ()" unfolding check_manifest_asset_Inr by (rule assets(3))
  have keys2: "keys_are (one_core ''xray'' n hex) (map fst ABIS)"
    by (simp add: one_core_def ABIS_def keys_are_def same_elems_def)
  have names: "mapE (check_core_asset t (one_core ''xray'' n hex) ''xray'') ABIS = Inr [''libxray-arm64-v8a.so'']"
    using core_ok by (simp add: ABIS_def)
  have same: "same_elems (map fst t) [''manifest.json'', ''libxray-arm64-v8a.so'']"
    using assets(2) by (simp add: same_elems_iff)
  have both: "(if ''xray'' = ''xray'' then check_xray_pins else check_singbox_pins) (dget d ''upstream'') (dget d ''wrapper'')
      = Inr (u, w)" unfolding fields using pins(1) by (simp add: u_def w_def)
  have pins2: "check_commit_pins (fst (u, w)) (snd (u, w)) (ma_upstream_commit a) (ma_wrapper_commit a) = Inr ()"
    using pins(2) by simp
  have srcs: "(if ''xray'' = ''sing_box'' then bindE (check_source_bundle t (snd (u, w)) (ma_upstream_tag a)) (\<lambda>n. Inr [n])
      else Inr []) = Inr []" by simp
  have same2: "same_elems (map fst t) (''manifest.json'' # [''libxray-arm64-v8a.so''] @ [])" using same by simp
  show ?thesis
    unfolding verify_remote_release_iff m
    by (intro conjI exI, rule len, rule disjI1, rule refl, rule refl, rule release(1), rule commits(1), rule commits(2),
        rule release(2), rule refl, rule keys, rule contract, rule tag_ok, rule rt, rule both, rule pins2,
        rule assets(1), rule ma, rule fields, rule keys2, rule names, rule srcs, rule same2)
qed

lemma generated_singbox_pins:
  assumes "check_tags ''sb'' (ma_upstream_tag a) (ma_release_tag a) = Inr ()"
    and "check_commits (ma_upstream_commit a) (ma_wrapper_commit a) = Inr ()"
    and "fullmatch GO_VERSION_RX (ma_go_version a)"
  shows "singbox_pins (members (singbox_manifest a (source_entry name n hex) assets))
    = Inr (members (source_entry name n hex))"
proof -
  have tags: "py_eq (JArr (map JStr BUILD_TAGS)) (JArr (map JStr BUILD_TAGS))"
    by (simp add: BUILD_TAGS_def)
  show ?thesis
    using assms tags unfolding check_tags_iff check_commits_iff
    by (auto simp: singbox_pins_def singbox_manifest_def manifest_json_def members_def dget_def dget_default_def
        or_dict_def match_value_def str_value_def release_tag_rx_iff source_entry_def)
qed

lemma plain_singbox_manifest:
  assumes "check_tags ''sb'' (ma_upstream_tag a) (ma_release_tag a) = Inr ()"
    and "check_commits (ma_upstream_commit a) (ma_wrapper_commit a) = Inr ()"
    and "fullmatch GO_VERSION_RX (ma_go_version a)" and "ascii name" and "fullmatch DIGEST_RX hex"
    and "plain (JObj assets)"
  shows "plain (singbox_manifest a (source_entry name n hex) assets)"
  using assms unfolding check_tags_iff check_commits_iff
  by (auto simp: singbox_manifest_def manifest_json_def EXPORTS_def BUILD_TAGS_def NDK_VERSION_def source_entry_def
      ascii_fullmatch)

section \<open>The length of a rendered value\<close>

definition clean :: "char \<Rightarrow> bool" where
  "clean c \<longleftrightarrow> 32 \<le> byte_val c \<and> byte_val c < 127 \<and> c \<noteq> CHR 0x22 \<and> c \<noteq> CHR 0x5C"

lemma esc_char_clean: "clean c \<Longrightarrow> esc_char asc c = [c]"
  by (auto simp: clean_def esc_char_def)

lemma esc_clean: "list_all clean s \<Longrightarrow> esc_string asc s = s"
  by (induction s) (auto simp: esc_char_clean, auto simp: clean_def)

lemma length_dump_clean: "list_all clean s \<Longrightarrow> length (dump_string cfg s) = length s + 2"
  by (simp add: dump_string_def esc_clean)

lemma clean_replicate: "clean c \<Longrightarrow> list_all clean (replicate n c)"
  by (simp add: list_all_iff)

lemma length_newline: "length (newline_at pretty_opts l) = 2 * l + 1"
  by (simp add: newline_at_def pretty_opts_def)

lemma length_key_sep: "length (key_sep pretty_opts) = 2"
  by (simp add: key_sep_def pretty_opts_def)

lemma pretty_sort: "opt_sort pretty_opts = False"
  by (simp add: pretty_opts_def)

lemma length_dec_nat: "n < 10 ^ k \<Longrightarrow> 0 < k \<Longrightarrow> length (dec_nat n) \<le> k"
proof (induction k arbitrary: n)
  case (Suc k)
  show ?case
  proof (cases "n < 10")
    case True
    thus ?thesis by (subst dec_nat.simps) simp
  next
    case False
    hence "0 < k" "n div 10 < 10 ^ k" using Suc.prems by (cases k; auto)+
    thus ?thesis using Suc.IH [of "n div 10"] False by (subst dec_nat.simps) simp
  qed
qed simp

section \<open>A concrete release\<close>

definition example_args :: manifest_args where
  "example_args = \<lparr>ma_directory = [''out''], ma_upstream_tag = ''v1.2.3'',
     ma_upstream_commit = replicate 40 (CHR ''a''), ma_wrapper_commit = replicate 40 (CHR ''b''),
     ma_release_tag = ''xray-v1.2.3-w2'', ma_output = [''manifest.json'']\<rparr>"

definition example_hex :: string where
  "example_hex = replicate 64 (CHR ''0'')"

definition example_manifest :: json where
  "example_manifest = xray_manifest example_args (one_core ''xray'' 2000000 example_hex)"

definition example_asset :: "string \<Rightarrow> int \<Rightarrow> int \<Rightarrow> string \<Rightarrow> json" where
  "example_asset name i n hex = JObj [(''name'', JStr name), (''id'', JInt i), (''size'', JInt n),
     (''digest'', JStr (''sha256:'' @ hex))]"

definition example_assets :: "json list" where
  "example_assets =
     [example_asset ''manifest.json'' 11 (int (length (manifest_text example_manifest))) (sha256_hex (manifest_text example_manifest)),
      example_asset ''libxray-arm64-v8a.so'' 12 2000000 example_hex]"

definition example_release :: dict where
  "example_release = [(''draft'', JBool False), (''prerelease'', JBool False),
     (''target_commitish'', JStr (ma_wrapper_commit example_args)), (''tag_name'', JStr ''xray-v1.2.3-w2''),
     (''assets'', JArr example_assets)]"

lemma example_args_ok:
  "check_tags ''xray'' (ma_upstream_tag example_args) (ma_release_tag example_args) = Inr ()"
  "check_commits (ma_upstream_commit example_args) (ma_wrapper_commit example_args) = Inr ()"
  "fullmatch DIGEST_RX example_hex"
  by code_simp+

lemma example_text_length:
  "length (manifest_text example_manifest) \<le> MAX_MANIFEST_BYTES" "0 < length (manifest_text example_manifest)"
proof -
  have d: "length (dec_nat n) \<le> 9" if "n < 10 ^ 9" for n using length_dec_nat [OF that] by simp
  show "length (manifest_text example_manifest) \<le> MAX_MANIFEST_BYTES"
    using d [of 3] d [of 2] d [of "Suc 0"] d [of 29] d [of 2000000] d [of 64] d [of 183]
    by (simp add: manifest_text_def dumps_def example_manifest_def xray_manifest_def manifest_json_def
        one_core_def core_entry_def core_asset_name_def example_args_def example_hex_def EXPORTS_def
        length_newline length_dump_clean length_key_sep clean_def MAX_MANIFEST_BYTES_def dec_int_def clean_replicate
        pretty_sort)
qed (simp add: manifest_text_def)

lemma asset_entry_example:
  "asset_entry (example_asset name i n hex) = (name, the_dict (example_asset name i n hex))"
  by (simp add: asset_entry_def asset_name_def example_asset_def dget_def str_value_def)

lemma good_example_asset:
  "name \<noteq> [] \<Longrightarrow> 0 < i \<Longrightarrow> 0 < n \<Longrightarrow> fullmatch DIGEST_RX hex \<Longrightarrow> good_asset (example_asset name i n hex)"
proof -
  assume n: "name \<noteq> []" "0 < i" "0 < n" and hex: "fullmatch DIGEST_RX hex"
  have "fullmatch PREFIXED_DIGEST_RX (''sha256:'' @ hex)"
    using hex unfolding fullmatch_PREFIXED_DIGEST fullmatch_DIGEST by blast
  thus ?thesis using n unfolding good_asset_def example_asset_def is_digest_value_def positive_int_iff
    by (simp add: dget_def del: append.simps)
qed

lemma example_asset_map: "asset_map example_release = Inr (map asset_entry example_assets)"
proof -
  have d: "dget example_release ''assets'' = JArr example_assets"
    by (simp add: example_release_def example_assets_def dget_def)
  have "list_all good_asset example_assets"
    using example_text_length(2) sha256_hex_format example_args_ok(3)
    by (simp add: example_assets_def good_example_asset)
  moreover have "map fst (map asset_entry example_assets) = [''manifest.json'', ''libxray-arm64-v8a.so'']"
    by (simp add: example_assets_def asset_entry_example)
  hence "distinct (map asset_name example_assets)"
    by (simp add: asset_entry_def comp_def)
  ultimately show ?thesis unfolding asset_map_Inr using d by blast
qed

lemma example_remote_as:
  "remote_as (map asset_entry example_assets) ''manifest.json'' (JInt (int (length (manifest_text example_manifest))))
     (sha256_hex (manifest_text example_manifest))"
  "remote_as (map asset_entry example_assets) ''libxray-arm64-v8a.so'' (JInt (int 2000000)) example_hex"
  unfolding remote_as_def example_assets_def
  by (simp_all add: asset_entry_example) (simp_all add: example_asset_def dget_def num_eq_def)

lemma example_accepted:
  "verify_remote_release (JObj example_release) example_manifest (manifest_text example_manifest) ''xray''
     (ma_upstream_commit example_args) (ma_wrapper_commit example_args) False = Inr ()"
  unfolding example_manifest_def
proof (rule generated_xray_remote [OF example_args_ok _ _ _ _ _ _ example_asset_map])
  show "set (map fst (map asset_entry example_assets)) = {''manifest.json'', ''libxray-arm64-v8a.so''}"
    by (simp add: example_assets_def asset_entry_example)
  show "length (manifest_text (xray_manifest example_args (one_core ''xray'' 2000000 example_hex))) \<le> MAX_MANIFEST_BYTES"
    using example_text_length(1) by (simp only: example_manifest_def)
  show "check_release_state example_release False = Inr ()"
    by (simp add: check_release_state_Inr example_release_def dget_def)
  show "dget example_release ''target_commitish'' = JStr (ma_wrapper_commit example_args)"
    "dget example_release ''tag_name'' = JStr (ma_release_tag example_args)"
    by (simp_all add: example_release_def dget_def) (simp add: example_args_def)
  show "MIB \<le> 2000000" "2000000 \<le> 64 * MIB" by (simp_all add: MIB_def)
qed (use example_remote_as in \<open>simp_all only: example_manifest_def\<close>)

section \<open>Instances of the properties of the remote check\<close>


lemma manifest_bound_witness:
  "length (manifest_text example_manifest) = length (manifest_text example_manifest)
    \<and> sha256_hex (manifest_text example_manifest) = sha256_hex (manifest_text example_manifest)"
  by (rule manifest_bound_to_release [OF example_accepted example_accepted])

section \<open>Properties\<close>


text \<open>C28. A release that carries the generated Xray manifest and the core it describes is accepted by the remote
  check, when the core is at least one MiB large: the generator, the reader and the remote check
  agree on the contract.\<close>

theorem generated_manifest_published:
  assumes "check_tags ''xray'' (ma_upstream_tag a) (ma_release_tag a) = Inr ()"
    and "check_commits (ma_upstream_commit a) (ma_wrapper_commit a) = Inr ()"
    and "fullmatch DIGEST_RX hex" and "MIB \<le> n" and "n \<le> 64 * MIB"
    and "b = manifest_text (xray_manifest a (one_core ''xray'' n hex))" and "length b \<le> MAX_MANIFEST_BYTES"
    and "check_release_state release allow = Inr ()"
    and "dget release ''target_commitish'' = JStr (ma_wrapper_commit a)"
    and "dget release ''tag_name'' = JStr (ma_release_tag a)"
    and "asset_map release = Inr t" and "set (map fst t) = {''manifest.json'', ''libxray-arm64-v8a.so''}"
    and "remote_as t ''manifest.json'' (JInt (int (length b))) (sha256_hex b)"
    and "remote_as t ''libxray-arm64-v8a.so'' (JInt (int n)) hex"
  shows "bindE (json_loads b) (\<lambda>m. verify_remote_release (JObj release) m b ''xray''
    (ma_upstream_commit a) (ma_wrapper_commit a) allow) = Inr ()"
  using generated_xray_remote [OF assms(1-5,7-14)]
    manifest_text_read(1) [OF plain_xray_manifest [OF assms(1,2) plain_one_core [OF assms(3)]]]
  by (simp add: assms(6))

text \<open>Instances.\<close>

definition example_singbox_args :: singbox_args where
  "example_singbox_args = \<lparr>ma_directory = [''out''], ma_upstream_tag = ''v1.2.3'',
     ma_upstream_commit = replicate 40 (CHR ''a''), ma_wrapper_commit = replicate 40 (CHR ''b''),
     ma_release_tag = ''sb-v1.2.3-w2'', ma_output = [''manifest.json''], ma_go_version = ''1.24'',
     ma_source_bundle = [''s.tar.gz'']\<rparr>"


lemma generated_published_witness:
  "bindE (json_loads (manifest_text example_manifest)) (\<lambda>m. verify_remote_release (JObj example_release) m
     (manifest_text example_manifest) ''xray'' (ma_upstream_commit example_args) (ma_wrapper_commit example_args) False)
   = Inr ()"
proof (rule generated_manifest_published [where n = 2000000, OF example_args_ok _ _ _ _ _ _ _ example_asset_map])
  show "manifest_text example_manifest = manifest_text (xray_manifest example_args (one_core ''xray'' 2000000 example_hex))"
    by (simp only: example_manifest_def)
  show "set (map fst (map asset_entry example_assets)) = {''manifest.json'', ''libxray-arm64-v8a.so''}"
    by (simp add: example_assets_def asset_entry_example)
  show "check_release_state example_release False = Inr ()"
    by (simp add: check_release_state_Inr example_release_def dget_def)
  show "dget example_release ''target_commitish'' = JStr (ma_wrapper_commit example_args)"
    "dget example_release ''tag_name'' = JStr (ma_release_tag example_args)"
    by (simp_all add: example_release_def dget_def) (simp add: example_args_def)
  show "MIB \<le> 2000000" "2000000 \<le> 64 * MIB" by (simp_all add: MIB_def)
qed (rule example_text_length example_remote_as)+

end
