(* ===== verification/Handoff_Files.thy ===== *)
theory Handoff_Files
  imports Artifacts_Props
begin

text \<open>
  The file operations of \<open>scripts/candidate_handoff.py\<close>: directories opened once and used through
  their descriptor, and the reading, digesting, copying and writing of regular files with identity
  checks before, during and after.
\<close>

section \<open>Names\<close>

text \<open>A \<open>PurePosixPath\<close> of a text: an absolute one has the root as its first part.\<close>

definition pure_parts :: "string \<Rightarrow> string list" where
  "pure_parts s = (if is_absolute s then [''/''] else []) @ posix_parts s"

definition canonical_component :: "string \<Rightarrow> string \<Rightarrow> string res" where
  "canonical_component v label =
     (if v = [] \<or> is_absolute v \<or> length (pure_parts v) \<noteq> 1
         \<or> hd (pure_parts v) = ''.'' \<or> hd (pure_parts v) = ''..''
         \<or> as_posix v \<noteq> v \<or> List.member v (CHR 0x00)
      then Inl (ValueError (label @ '' is not a canonical filename'')) else Inr v)"

section \<open>Directories\<close>

text \<open>
  The descriptor is closed when the comparison fails; when \<open>fstat\<close> itself raises, it is not.
\<close>

definition checked_descriptor :: "nat \<Rightarrow> stat_result \<Rightarrow> string \<Rightarrow> nat io" where
  "checked_descriptor fd before label =
     bindI (os_fstat fd) (\<lambda>opened.
       if st_type opened \<noteq> Directory \<or> identity opened \<noteq> identity before
       then bindI (os_close fd) (\<lambda>_. raiseI (ValueError (label @ '' changed while opening'')))
       else returnI fd)"

definition open_plain_directory :: "path \<Rightarrow> string \<Rightarrow> nat io" where
  "open_plain_directory p label =
     bindI (os_lstat p) (\<lambda>before.
       if st_type before \<noteq> Directory then raiseI (ValueError (label @ '' is not a directory''))
       else bindI (os_open_dir p) (\<lambda>fd. checked_descriptor fd before label))"

definition open_child_directory :: "nat \<Rightarrow> string \<Rightarrow> string \<Rightarrow> nat io" where
  "open_child_directory parent name label =
     bindI (liftI (canonical_component name label)) (\<lambda>_.
     bindI (os_stat_at name parent) (\<lambda>before.
       if st_type before \<noteq> Directory then raiseI (ValueError (label @ '' is not a directory''))
       else bindI (os_open_dir_at name parent) (\<lambda>fd. checked_descriptor fd before label)))"

definition check_name :: "string \<Rightarrow> string \<Rightarrow> string res" where
  "check_name label name =
     (if \<not> utf8_ok False name then Inl (ValueError (label @ '' contains a non-UTF-8 name''))
      else if 255 < length name then Inl (ValueError (label @ '' contains an oversized name''))
      else canonical_component name label)"

definition directory_names :: "nat \<Rightarrow> string \<Rightarrow> string list io" where
  "directory_names fd label =
     bindI (os_listdir fd) (\<lambda>names.
       if \<not> distinct names then raiseI (ValueError (label @ '' contains duplicate names''))
       else liftI (mapE (check_name label) names))"

section \<open>Reading regular files\<close>

definition bounded_regular :: "stat_result \<Rightarrow> nat \<Rightarrow> bool" where
  "bounded_regular s maximum \<longleftrightarrow>
     st_type s = Regular \<and> st_nlink s = 1 \<and> 0 < st_size s \<and> st_size s \<le> maximum"

text \<open>
  \<open>while total <= maximum: chunk = os.read(fd, min(64 * 1024, maximum + 1 - total)); if not chunk: break\<close>
\<close>

function read_up_to :: "nat \<Rightarrow> nat \<Rightarrow> nat \<Rightarrow> bytes io" where
  "read_up_to fd maximum count w =
     (if maximum < count then (Inr [], w)
      else case os_read fd (min (64 * 1024) (maximum + 1 - count)) w of
        (Inl e, w1) \<Rightarrow> (Inl e, w1)
      | (Inr chunk, w1) \<Rightarrow>
          if chunk = [] then (Inr [], w1)
          else (case read_up_to fd maximum (count + length chunk) w1 of
              (Inl e, w2) \<Rightarrow> (Inl e, w2)
            | (Inr rest, w2) \<Rightarrow> (Inr (chunk @ rest), w2)))"
  by pat_completeness auto
termination
  by (relation "measure (\<lambda>(fd, maximum, count, w). maximum + 1 - count)") (auto intro: diff_less_mono2)

declare read_up_to.simps [simp del]

text \<open>The check that the name still leads to the file that was read.\<close>

definition reopen_check :: "nat \<Rightarrow> string \<Rightarrow> stat_result \<Rightarrow> string \<Rightarrow> unit io" where
  "reopen_check directory name before label =
     bindI (os_open_read_at name directory) (\<lambda>fd.
       finallyI
         (bindI (os_fstat fd) (\<lambda>s.
            if identity s \<noteq> identity before
            then raiseI (ValueError (label @ '' changed before final verification'')) else returnI ()))
         (os_close fd))"

text \<open>
  \<open>_read_regular\<close> and \<open>_digest_regular\<close> run the same protocol; the second keeps only the length and
  the digest of what it read.
\<close>

definition read_checked :: "nat \<Rightarrow> string \<Rightarrow> nat \<Rightarrow> string \<Rightarrow> bytes io" where
  "read_checked directory name maximum label =
     bindI (liftI (canonical_component name label)) (\<lambda>_.
     bindI (os_stat_at name directory) (\<lambda>before.
     if \<not> bounded_regular before maximum
     then raiseI (ValueError (label @ '' is not a bounded single-link regular file''))
     else
       bindI (os_open_read_at name directory) (\<lambda>fd.
       bindI (finallyI
         (bindI (os_fstat fd) (\<lambda>opened.
            if identity opened \<noteq> identity before
            then raiseI (ValueError (label @ '' changed while opening''))
            else
              bindI (read_up_to fd maximum 0) (\<lambda>content.
              bindI (os_fstat fd) (\<lambda>after. returnI (content, after)))))
         (os_close fd)) (\<lambda>r.
       bindI (os_stat_at name directory) (\<lambda>final.
         if maximum < length (fst r) \<or> length (fst r) \<noteq> st_size before
            \<or> identity (snd r) \<noteq> identity before \<or> identity final \<noteq> identity before
         then raiseI (ValueError (label @ '' changed while reading''))
         else bindI (reopen_check directory name before label) (\<lambda>_. returnI (fst r)))))))"

definition read_regular :: "nat \<Rightarrow> string \<Rightarrow> nat \<Rightarrow> string \<Rightarrow> (bytes \<times> string) io" where
  "read_regular directory name maximum label =
     bindI (read_checked directory name maximum label) (\<lambda>b. returnI (b, sha256_hex b))"

definition digest_regular :: "nat \<Rightarrow> string \<Rightarrow> nat \<Rightarrow> string \<Rightarrow> (nat \<times> string) io" where
  "digest_regular directory name maximum label =
     bindI (read_checked directory name maximum label) (\<lambda>b. returnI (length b, sha256_hex b))"

definition read_path_regular :: "path \<Rightarrow> nat \<Rightarrow> string \<Rightarrow> (bytes \<times> string) io" where
  "read_path_regular p maximum label =
     bindI (open_plain_directory (butlast p) (label @ '' parent'')) (\<lambda>parent.
       finallyI (read_regular parent (path_name p) maximum label) (os_close parent))"

section \<open>Writing and copying\<close>

definition write_regular :: "nat \<Rightarrow> string \<Rightarrow> bytes \<Rightarrow> unit io" where
  "write_regular directory name v =
     bindI (liftI (canonical_component name ''candidate output'')) (\<lambda>_.
     bindI (os_create_at name 384 directory) (\<lambda>fd.
       finallyI
         (bindI (write_loop fd (64 * 1024) ''short candidate write'' v) (\<lambda>_.
          bindI (os_fsync fd) (\<lambda>_.
          bindI (os_fstat fd) (\<lambda>metadata.
            if st_type metadata \<noteq> Regular \<or> st_nlink metadata \<noteq> 1 \<or> st_size metadata \<noteq> length v
            then raiseI (ValueError ''candidate output is not a stable regular file'') else returnI ()))))
         (os_close fd)))"

text \<open>One chunk is written before the next is read.\<close>

function copy_up_to :: "nat \<Rightarrow> nat \<Rightarrow> nat \<Rightarrow> nat \<Rightarrow> bytes io" where
  "copy_up_to src dst maximum count w =
     (if maximum < count then (Inr [], w)
      else case os_read src (min (64 * 1024) (maximum + 1 - count)) w of
        (Inl e, w1) \<Rightarrow> (Inl e, w1)
      | (Inr chunk, w1) \<Rightarrow>
          if chunk = [] then (Inr [], w1)
          else (case write_loop dst (length chunk) ''short candidate write'' chunk w1 of
              (Inl e, w2) \<Rightarrow> (Inl e, w2)
            | (Inr _, w2) \<Rightarrow>
                (case copy_up_to src dst maximum (count + length chunk) w2 of
                   (Inl e, w3) \<Rightarrow> (Inl e, w3)
                 | (Inr rest, w3) \<Rightarrow> (Inr (chunk @ rest), w3))))"
  by pat_completeness auto
termination
  by (relation "measure (\<lambda>(src, dst, maximum, count, w). maximum + 1 - count)") (auto intro: diff_less_mono2)

declare copy_up_to.simps [simp del]

text \<open>
  The handlers of \<open>_copy_regular\<close>: the \<open>except\<close> block closes and forgets the destination and unlinks
  it; the \<open>finally\<close> block closes the destination again if the first close raised, then the source.
\<close>

definition copy_failed :: "nat \<Rightarrow> nat \<Rightarrow> nat \<Rightarrow> string \<Rightarrow> unit io" where
  "copy_failed src dst destination_directory destination_name =
     bindI (on_errorI (os_close dst) (bindI (os_close dst) (\<lambda>_. os_close src))) (\<lambda>_.
     bindI (ignore_os_errorI (os_unlink_at destination_name destination_directory)) (\<lambda>_.
     os_close src))"

definition copy_regular :: "nat \<Rightarrow> string \<Rightarrow> nat \<Rightarrow> string \<Rightarrow> nat \<Rightarrow> string \<Rightarrow> (nat \<times> string) io" where
  "copy_regular source_directory source_name destination_directory destination_name maximum label =
     bindI (liftI (canonical_component source_name label)) (\<lambda>_.
     bindI (liftI (canonical_component destination_name ''candidate output'')) (\<lambda>_.
     bindI (os_stat_at source_name source_directory) (\<lambda>before.
     if \<not> bounded_regular before maximum
     then raiseI (ValueError (label @ '' is not a bounded single-link regular file''))
     else
       bindI (os_open_read_at source_name source_directory) (\<lambda>src.
       bindI (on_errorI
         (bindI (os_fstat src) (\<lambda>opened.
            if identity opened \<noteq> identity before
            then raiseI (ValueError (label @ '' changed while opening''))
            else os_create_at destination_name 384 destination_directory))
         (os_close src)) (\<lambda>dst.
       bindI (on_errorI
         (bindI (copy_up_to src dst maximum 0) (\<lambda>content.
          bindI (os_fstat src) (\<lambda>source_after.
          bindI (os_fsync dst) (\<lambda>_.
          bindI (os_fstat dst) (\<lambda>destination_after.
            if maximum < length content \<or> length content \<noteq> st_size before
               \<or> identity source_after \<noteq> identity before \<or> st_type destination_after \<noteq> Regular
               \<or> st_nlink destination_after \<noteq> 1 \<or> st_size destination_after \<noteq> length content
            then raiseI (ValueError (label @ '' changed while copying''))
            else returnI content)))))
         (copy_failed src dst destination_directory destination_name)) (\<lambda>content.
       bindI (os_close dst) (\<lambda>_.
       bindI (os_close src) (\<lambda>_.
       bindI (os_stat_at source_name source_directory) (\<lambda>source_final.
       if identity source_final \<noteq> identity before
       then raiseI (ValueError (label @ '' changed after copying''))
       else
         bindI (digest_regular destination_directory destination_name maximum (''copied '' @ label)) (\<lambda>final.
           if fst final \<noteq> length content \<or> snd final \<noteq> sha256_hex content
           then raiseI (ValueError (''copied '' @ label @ '' differs from its source''))
           else returnI (length content, sha256_hex content)))))))))))"

end
