(* ===== verification/Retirement.thy ===== *)
theory Retirement
  imports Handoff_Files Remote_Release
begin

text \<open>
  \<open>scripts/retire_legacy_workflows.py\<close> above its process layer: the plan, the confirmation token, the
  retirement itself, the receipt and the check after the migration. What GitHub answers to a request
  is a parameter, a function of the requests sent before; the client keeps the requests it has sent
  and the file system. Values formatted into messages are left out of the messages.
\<close>

section \<open>Constants\<close>

definition REPOSITORY :: string where "REPOSITORY = ''kvuco/exitFy-cores''"
definition GITHUB_HOST :: string where "GITHUB_HOST = ''github.com''"

definition LEGACY_PATHS :: "string list" where
  "LEGACY_PATHS = [''.github/workflows/release-singbox.yml'', ''.github/workflows/release-xray.yml'']"

definition REPLACEMENT_PATHS :: "string list" where
  "REPLACEMENT_PATHS = [''.github/workflows/publish-singbox-core-v2.yml'', ''.github/workflows/publish-xray-core-v2.yml'']"

definition RECEIPT_SCHEMA :: int where "RECEIPT_SCHEMA = 1"
definition MAX_RECEIPT_BYTES :: nat where "MAX_RECEIPT_BYTES = 16 * 1024"

text \<open>\<open>[A-Za-z0-9._/-]+\<close>\<close>

definition BRANCH_RX :: rx where
  "BRANCH_RX = plus (Cls [(CHR ''A'', CHR ''Z''), (CHR ''a'', CHR ''z''), (CHR ''0'', CHR ''9''), (CHR ''.'', CHR ''.''),
     (CHR ''_'', CHR ''_''), (CHR ''/'', CHR ''/''), (CHR ''-'', CHR ''-'')])"

section \<open>The client\<close>

datatype request =
    Get string bool
  | Repository_identity
  | Mutate string string

type_synonym api = "request list \<Rightarrow> request \<Rightarrow> json res"

record client =
  c_requests :: "request list"
  c_world :: world

type_synonym 'a act = "client \<Rightarrow> 'a res \<times> client"

definition returnA :: "'a \<Rightarrow> 'a act" where "returnA x c = (Inr x, c)"
definition raiseA :: "err \<Rightarrow> 'a act" where "raiseA e c = (Inl e, c)"
definition liftA :: "'a res \<Rightarrow> 'a act" where "liftA r c = (r, c)"

definition bindA :: "'a act \<Rightarrow> ('a \<Rightarrow> 'b act) \<Rightarrow> 'b act" where
  "bindA m f c = (case m c of (Inl e, c') \<Rightarrow> (Inl e, c') | (Inr x, c') \<Rightarrow> f x c')"

text \<open>\<open>try: m except GitHubApiUnavailable: h\<close>\<close>

definition is_unavailable :: "err \<Rightarrow> bool" where
  "is_unavailable e = (case e of GitHubApiUnavailable _ \<Rightarrow> True | _ \<Rightarrow> False)"

definition if_unavailableA :: "'a act \<Rightarrow> 'b act \<Rightarrow> ('a \<Rightarrow> 'b act) \<Rightarrow> 'b act" where
  "if_unavailableA m h k c =
     (case m c of
        (Inl e, c') \<Rightarrow> (if is_unavailable e then h c' else (Inl e, c'))
      | (Inr x, c') \<Rightarrow> k x c')"

fun mapA :: "('a \<Rightarrow> 'b act) \<Rightarrow> 'a list \<Rightarrow> 'b list act" where
  "mapA f [] = returnA []"
| "mapA f (x # xs) = bindA (f x) (\<lambda>y. bindA (mapA f xs) (\<lambda>ys. returnA (y # ys)))"

definition ask :: "api \<Rightarrow> request \<Rightarrow> json act" where
  "ask gh q c = (gh (c_requests c) q, c\<lparr>c_requests := c_requests c @ [q]\<rparr>)"

definition osA :: "'a io \<Rightarrow> 'a act" where
  "osA m c = (case m (c_world c) of (r, w) \<Rightarrow> (r, c\<lparr>c_world := w\<rparr>))"

definition api_get :: "api \<Rightarrow> string \<Rightarrow> bool \<Rightarrow> json act" where
  "api_get gh endpoint paginate = ask gh (Get endpoint paginate)"

definition api_mutate :: "api \<Rightarrow> string \<Rightarrow> string \<Rightarrow> unit act" where
  "api_mutate gh verb endpoint =
     (if \<not> List.member [''PUT'', ''DELETE''] verb then raiseA (RetirementError ''unsupported retirement mutation'')
      else bindA (ask gh (Mutate verb endpoint)) (\<lambda>_. returnA ()))"

section \<open>Workflows and runs\<close>

record workflow =
  wf_id :: int
  wf_path :: string
  wf_state :: string

record run =
  run_id :: int
  run_workflow :: int
  run_path :: string
  run_status :: string
  run_event :: string
  run_head :: string

record snapshot =
  sn_branch :: string
  sn_legacy :: "(workflow \<times> run list) list"

record receipt =
  rc_host :: string
  rc_branch :: string
  rc_legacy :: "workflow list"

definition positive_integer :: "json \<Rightarrow> string \<Rightarrow> int res" where
  "positive_integer v label =
     (case v of JInt i \<Rightarrow> if i \<le> 0 then Inl (RetirementError (label @ '' is invalid'')) else Inr i
      | _ \<Rightarrow> Inl (RetirementError (label @ '' is invalid'')))"

definition page_items :: "string \<Rightarrow> json \<Rightarrow> dict list res" where
  "page_items key page =
     (case page of
        JObj d \<Rightarrow>
          (case dget d key of
             JArr items \<Rightarrow> mapE (\<lambda>item. case item of JObj i \<Rightarrow> Inr i
                                        | _ \<Rightarrow> Inl (RetirementError ''paginated GitHub item is malformed'')) items
           | _ \<Rightarrow> Inl (RetirementError ''paginated GitHub response is malformed''))
      | _ \<Rightarrow> Inl (RetirementError ''paginated GitHub response is malformed''))"

definition flatten_pages :: "json \<Rightarrow> string \<Rightarrow> dict list res" where
  "flatten_pages v key =
     (case v of
        JArr pages \<Rightarrow> bindE (mapE (page_items key) pages) (\<lambda>items. Inr (concat items))
      | _ \<Rightarrow> Inl (RetirementError ''paginated GitHub response is invalid''))"

text \<open>\<open>v in s\<close> of a set: the value is hashed first.\<close>

definition in_set :: "json \<Rightarrow> json list \<Rightarrow> bool res" where
  "in_set v s = (if \<not> hashable v then Inl TypeError else Inr (list_ex (py_eq v) s))"

definition workflow_relevant :: "int list \<Rightarrow> dict \<Rightarrow> bool res" where
  "workflow_relevant captured d =
     bindE (in_set (dget d ''path'') (map JStr (LEGACY_PATHS @ REPLACEMENT_PATHS))) (\<lambda>known.
       if known then Inr True else in_set (dget d ''id'') (map JInt captured))"

definition catalog_step :: "int list \<Rightarrow> workflow list \<Rightarrow> dict \<Rightarrow> workflow list res" where
  "catalog_step captured selected d =
     bindE (workflow_relevant captured d) (\<lambda>relevant.
       if \<not> relevant then Inr selected
       else bindE (positive_integer (dget d ''id'') ''workflow id'') (\<lambda>i.
         (case (dget d ''path'', dget d ''state'') of
            (JStr p, JStr s) \<Rightarrow>
              if s = [] then Inl (RetirementError ''relevant workflow identity is malformed'')
              else if List.member (map wf_id selected) i \<or> List.member (map wf_path selected) p
              then Inl (RetirementError ''workflow identity is ambiguous'')
              else Inr (selected @ [\<lparr>wf_id = i, wf_path = p, wf_state = s\<rparr>])
          | _ \<Rightarrow> Inl (RetirementError ''relevant workflow identity is malformed''))))"

definition workflow_catalog :: "api \<Rightarrow> int list \<Rightarrow> workflow list act" where
  "workflow_catalog gh captured =
     bindA (api_get gh (''repos/'' @ REPOSITORY @ ''/actions/workflows?per_page=100'') True) (\<lambda>v.
       liftA (bindE (flatten_pages v ''workflows'') (foldE (catalog_step captured) [])))"

definition by_path :: "workflow list \<Rightarrow> string list \<Rightarrow> workflow list res" where
  "by_path workflows paths =
     mapE (\<lambda>p. case filter (\<lambda>w. wf_path w = p) workflows of
                 [w] \<Rightarrow> Inr w | _ \<Rightarrow> Inl (RetirementError ''required workflow identity is missing'')) paths"

definition run_of :: "dict \<Rightarrow> string \<Rightarrow> run res" where
  "run_of d label =
     bindE (positive_integer (dget d ''id'') (label @ '' id'')) (\<lambda>i.
     bindE (positive_integer (dget d ''workflow_id'') (label @ '' workflow id'')) (\<lambda>w.
       (case (dget d ''path'', dget d ''status'', dget d ''event'', dget d ''head_sha'') of
          (JStr p, JStr s, JStr e, JStr h) \<Rightarrow>
            if \<not> fullmatch COMMIT_RX h then Inl (RetirementError (label @ '' is malformed''))
            else Inr \<lparr>run_id = i, run_workflow = w, run_path = p, run_status = s, run_event = e, run_head = h\<rparr>
        | _ \<Rightarrow> Inl (RetirementError (label @ '' is malformed'')))))"

definition runs_step :: "workflow \<Rightarrow> run list \<Rightarrow> dict \<Rightarrow> run list res" where
  "runs_step w output d =
     bindE (run_of d ''workflow run'') (\<lambda>r.
       if run_workflow r \<noteq> wf_id w \<or> run_path r \<noteq> wf_path w \<or> List.member (map run_id output) (run_id r)
       then Inl (RetirementError ''run does not belong exactly to the workflow'')
       else Inr (output @ [r]))"

definition runs_endpoint :: "workflow \<Rightarrow> string" where
  "runs_endpoint w = ''repos/'' @ REPOSITORY @ ''/actions/workflows/'' @ dec_int (wf_id w) @ ''/runs?per_page=100''"

definition workflow_runs :: "api \<Rightarrow> workflow \<Rightarrow> run list act" where
  "workflow_runs gh w =
     bindA (api_get gh (runs_endpoint w) True) (\<lambda>v.
       liftA (bindE (flatten_pages v ''workflow_runs'') (\<lambda>ds.
         bindE (foldE (runs_step w) [] ds) (\<lambda>output. Inr (sort_key run_id output)))))"

definition repository_run_step :: "int list \<Rightarrow> run list \<Rightarrow> dict \<Rightarrow> run list res" where
  "repository_run_step captured output d =
     bindE (in_set (dget d ''workflow_id'') (map JInt captured)) (\<lambda>known.
       if \<not> known \<and> \<not> list_ex (\<lambda>p. py_eq (dget d ''path'') (JStr p)) LEGACY_PATHS then Inr output
       else bindE (run_of d ''repository workflow run'') (\<lambda>r.
         if List.member (map run_id output) (run_id r)
         then Inl (RetirementError ''repository workflow run is duplicated'') else Inr (output @ [r])))"

definition relevant_repository_runs :: "api \<Rightarrow> int list \<Rightarrow> run list act" where
  "relevant_repository_runs gh captured =
     bindA (api_get gh (''repos/'' @ REPOSITORY @ ''/actions/runs?per_page=100'') True) (\<lambda>v.
       liftA (bindE (flatten_pages v ''workflow_runs'') (\<lambda>ds.
         bindE (foldE (repository_run_step captured) [] ds) (\<lambda>output. Inr (sort_key run_id output)))))"

section \<open>The repository\<close>

definition valid_default_branch :: "json \<Rightarrow> string res" where
  "valid_default_branch v =
     (case v of
        JStr s \<Rightarrow> if \<not> fullmatch BRANCH_RX s then Inl (RetirementError ''default branch is invalid'') else Inr s
      | _ \<Rightarrow> Inl (RetirementError ''default branch is invalid''))"

definition branch_of_graphql :: "json \<Rightarrow> string res" where
  "branch_of_graphql response =
     (case response of
        JObj d \<Rightarrow>
          if map_of d ''errors'' \<noteq> None then Inl (RetirementError ''GraphQL repository identity response is invalid'')
          else (case (case dget d ''data'' of JObj x \<Rightarrow> dget x ''repository'' | _ \<Rightarrow> JNull) of
              JObj r \<Rightarrow>
                if \<not> py_eq (dget r ''nameWithOwner'') (JStr REPOSITORY)
                then Inl (RetirementError ''authenticated repository identity is invalid'')
                else (case dget r ''defaultBranchRef'' of
                    JObj b \<Rightarrow> valid_default_branch (dget b ''name'')
                  | _ \<Rightarrow> Inl (RetirementError ''default branch is invalid''))
            | _ \<Rightarrow> Inl (RetirementError ''GraphQL repository identity response is invalid''))
      | _ \<Rightarrow> Inl (RetirementError ''GraphQL repository identity response is invalid''))"

definition branch_of_rest :: "json \<Rightarrow> string res" where
  "branch_of_rest repository =
     (case repository of
        JObj d \<Rightarrow>
          if \<not> py_eq (dget d ''full_name'') (JStr REPOSITORY)
          then Inl (RetirementError ''authenticated repository identity is invalid'')
          else valid_default_branch (dget d ''default_branch'')
      | _ \<Rightarrow> Inl (RetirementError ''authenticated repository identity is invalid''))"

definition repository_default_branch :: "api \<Rightarrow> string act" where
  "repository_default_branch gh =
     if_unavailableA (api_get gh (''repos/'' @ REPOSITORY) False)
       (if_unavailableA (ask gh Repository_identity)
          (raiseA (GitHubApiUnavailable ''repository identity lookup failed through REST and GraphQL''))
          (\<lambda>response. liftA (branch_of_graphql response)))
       (\<lambda>repository. liftA (branch_of_rest repository))"

text \<open>\<open>urllib.parse.quote(s, safe="")\<close>\<close>

definition url_safe :: "char \<Rightarrow> bool" where
  "url_safe c \<longleftrightarrow> in_cls [(CHR ''A'', CHR ''Z''), (CHR ''a'', CHR ''z''), (CHR ''0'', CHR ''9''), (CHR ''_'', CHR ''_''),
     (CHR ''.'', CHR ''.''), (CHR ''-'', CHR ''-''), (CHR ''~'', CHR ''~'')] c"

definition upper_hex_digit :: "nat \<Rightarrow> char" where
  "upper_hex_digit d = (if d < 10 then char_of (48 + d) else char_of (55 + d))"

definition url_quote :: "string \<Rightarrow> string" where
  "url_quote s = concat (map (\<lambda>c. if url_safe c then [c]
     else [CHR ''%'', upper_hex_digit (byte_val c div 16), upper_hex_digit (byte_val c mod 16)]) s)"

definition text_paths :: "json list \<Rightarrow> string list" where
  "text_paths items =
     concat (map (\<lambda>item. case item of JObj d \<Rightarrow> (case dget d ''path'' of JStr p \<Rightarrow> [p] | _ \<Rightarrow> []) | _ \<Rightarrow> []) items)"

definition default_branch_paths :: "api \<Rightarrow> (string \<times> string list) act" where
  "default_branch_paths gh =
     bindA (repository_default_branch gh) (\<lambda>branch.
     bindA (api_get gh (''repos/'' @ REPOSITORY @ ''/contents/.github/workflows?ref='' @ url_quote branch) False) (\<lambda>contents.
       (case contents of
          JArr items \<Rightarrow> returnA (branch, text_paths items)
        | _ \<Rightarrow> raiseA (RetirementError ''default-branch workflow directory is invalid''))))"

section \<open>The plan\<close>

definition collect_pre_migration_snapshot :: "api \<Rightarrow> snapshot act" where
  "collect_pre_migration_snapshot gh =
     bindA (default_branch_paths gh) (\<lambda>(branch, paths).
       if \<not> list_all (List.member paths) LEGACY_PATHS \<or> list_ex (List.member paths) REPLACEMENT_PATHS
       then raiseA (RetirementError ''pre-migration retirement requires only the legacy publisher paths'')
       else
         bindA (workflow_catalog gh []) (\<lambda>catalog.
         bindA (liftA (by_path catalog LEGACY_PATHS)) (\<lambda>legacy.
         bindA (mapA (\<lambda>w. bindA (workflow_runs gh w) (\<lambda>rs. returnA (w, rs))) legacy) (\<lambda>pairs.
           returnA \<lparr>sn_branch = branch, sn_legacy = pairs\<rparr>))))"

definition token_json :: "snapshot \<Rightarrow> json" where
  "token_json s = JObj
     [(''host'', JStr GITHUB_HOST), (''repository'', JStr REPOSITORY), (''defaultBranch'', JStr (sn_branch s)),
      (''legacy'', JArr (map (\<lambda>(w, rs). JObj [(''id'', JInt (wf_id w)), (''path'', JStr (wf_path w)),
                                            (''runIds'', JArr (map (\<lambda>r. JInt (run_id r)) rs))]) (sn_legacy s)))]"

definition apply_token :: "snapshot \<Rightarrow> string" where
  "apply_token s = ''RETIRE-LEGACY-EXITFY-WORKFLOWS:'' @ sha256_hex (dumps compact_opts (token_json s))"

definition plan_run :: "run \<Rightarrow> json" where
  "plan_run r = JObj [(''id'', JInt (run_id r)), (''status'', JStr (run_status r)), (''event'', JStr (run_event r)),
     (''headSha'', JStr (run_head r))]"

definition snapshot_plan :: "snapshot \<Rightarrow> json" where
  "snapshot_plan s = JObj
     [(''phase'', JStr ''before-workflow-path-migration''), (''host'', JStr GITHUB_HOST), (''repository'', JStr REPOSITORY),
      (''defaultBranch'', JStr (sn_branch s)),
      (''legacy'', JArr (map (\<lambda>(w, rs). JObj [(''id'', JInt (wf_id w)), (''path'', JStr (wf_path w)),
          (''state'', JStr (wf_state w)), (''runs'', JArr (map plan_run rs))]) (sn_legacy s))),
      (''applyToken'', JStr (apply_token s))]"

definition verify_pre_migration_retired :: "snapshot \<Rightarrow> unit res" where
  "verify_pre_migration_retired s =
     (if list_ex (\<lambda>(w, rs). wf_state w \<noteq> ''disabled_manually'' \<or> rs \<noteq> []) (sn_legacy s)
      then Inl (RetirementError ''legacy workflow is not retired'') else Inr ())"

end
