(* ===== verification/Receipts.thy ===== *)
theory Receipts
  imports Retirement Os_Files
begin

text \<open>
  The receipt of \<open>scripts/retire_legacy_workflows.py\<close>: its contents, how it is put in place of an
  older one, how it is read back; then the retirement, the check after the migration and the command
  line. The names \<open>tempfile\<close> draws are an argument.
\<close>

section \<open>Paths\<close>

datatype made = Made | Missing_parent | Not_made

text \<open>A new inode under a path: an entry of the parent directory and what the path leads to.\<close>

definition enter_path :: "path \<Rightarrow> nat \<Rightarrow> content \<Rightarrow> nat \<Rightarrow> inode \<Rightarrow> (string \<times> nat) list \<Rightarrow> world \<Rightarrow> nat \<times> world" where
  "enter_path p perm content dino dn es w =
     (let ino = fs_next (w_fs w); t = fs_clock (w_fs w);
          n = \<lparr>n_dev = n_dev dn, n_content = content, n_perm = perm, n_nlink = 1, n_mtime = t, n_ctime = t\<rparr>;
          w1 = set_inode dino (dn\<lparr>n_content := Folder ((path_name p, ino) # es), n_mtime := t, n_ctime := t\<rparr>) w;
          w2 = set_inode ino n w1
      in (ino, w2\<lparr>w_fs := (w_fs w2)\<lparr>fs_next := Suc ino, fs_path := (fs_path (w_fs w2))(p \<mapsto> ino)\<rparr>\<rparr>))"

definition os_mkdir :: "path \<Rightarrow> made io" where
  "os_mkdir p = syscall (\<lambda>_ w. case lookup_path w p of
       Some _ \<Rightarrow> (Inr Not_made, w)
     | None \<Rightarrow> (case lookup_path w (butlast p) of
           None \<Rightarrow> (Inr Missing_parent, w)
         | Some (dino, dn) \<Rightarrow> (case n_content dn of
               Folder es \<Rightarrow> (Inr Made, snd (enter_path p 511 (Folder []) dino dn es w))
             | _ \<Rightarrow> (Inr Not_made, w))))"

text \<open>\<open>path.mkdir(parents=..., exist_ok=True)\<close>: any error is accepted for a directory that is there.\<close>

definition accept_directory :: "path \<Rightarrow> err \<Rightarrow> unit io" where
  "accept_directory p e = bindI (path_is_dir p) (\<lambda>d. if d then returnI () else raiseI e)"

definition mkdir_exist_ok :: "path \<Rightarrow> unit io \<Rightarrow> unit io" where
  "mkdir_exist_ok p missing w =
     (case os_mkdir p w of
        (Inr Made, w1) \<Rightarrow> (Inr (), w1)
      | (Inr Missing_parent, w1) \<Rightarrow> missing w1
      | (Inr Not_made, w1) \<Rightarrow> accept_directory p (OSError ''mkdir'') w1
      | (Inl e, w1) \<Rightarrow> if is_os_error e then accept_directory p e w1 else (Inl e, w1))"

function make_dirs :: "path \<Rightarrow> unit io" where
  "make_dirs p =
     mkdir_exist_ok p
       (if p = [] then raiseI (OSError ''mkdir'')
        else bindI (make_dirs (butlast p)) (\<lambda>_. mkdir_exist_ok p (raiseI (OSError ''mkdir''))))"
  by pat_completeness auto
termination
  by (relation "measure length") auto

declare make_dirs.simps [simp del]

text \<open>\<open>O_RDWR | O_CREAT | O_EXCL\<close>: an existing path is not an error of the call.\<close>

definition os_create_new :: "path \<Rightarrow> nat \<Rightarrow> nat option io" where
  "os_create_new p perm = syscall (\<lambda>_ w. case lookup_path w p of
       Some _ \<Rightarrow> (Inr None, w)
     | None \<Rightarrow> (case lookup_path w (butlast p) of
           None \<Rightarrow> fail ''open'' w
         | Some (dino, dn) \<Rightarrow> (case n_content dn of
               Folder es \<Rightarrow>
                 (case enter_path p perm (File []) dino dn es w of
                    (ino, w1) \<Rightarrow> (case new_fd ino w1 of
                        (Inr fd, w2) \<Rightarrow> (Inr (Some fd), w2) | (Inl e, w2) \<Rightarrow> (Inl e, w2)))
             | _ \<Rightarrow> fail ''open'' w)))"

text \<open>\<open>NamedTemporaryFile(dir=..., prefix=..., delete=False)\<close>: the first drawn name that is free.\<close>

fun create_temp :: "path \<Rightarrow> string \<Rightarrow> string list \<Rightarrow> (path \<times> nat) io" where
  "create_temp d name_prefix [] = raiseI (OSError ''no usable temporary file name found'')"
| "create_temp d name_prefix (drawn # names) =
     bindI (os_create_new (d @ [name_prefix @ drawn]) 384) (\<lambda>r.
       case r of None \<Rightarrow> create_temp d name_prefix names | Some fd \<Rightarrow> returnI (d @ [name_prefix @ drawn], fd))"

text \<open>A directory entry is taken out; the inode has one link less.\<close>

definition drop_path :: "path \<Rightarrow> nat \<Rightarrow> inode \<Rightarrow> nat \<Rightarrow> inode \<Rightarrow> (string \<times> nat) list \<Rightarrow> world \<Rightarrow> world" where
  "drop_path p ino n dino dn es w =
     (let t = fs_clock (w_fs w);
          w1 = set_inode ino (n\<lparr>n_nlink := n_nlink n - 1, n_ctime := t\<rparr>) w;
          w2 = set_inode dino (dn\<lparr>n_content := Folder (filter (\<lambda>e. fst e \<noteq> path_name p) es), n_mtime := t, n_ctime := t\<rparr>) w1
      in w2\<lparr>w_fs := (w_fs w2)\<lparr>fs_path := (fs_path (w_fs w2))(p := None)\<rparr>\<rparr>)"

text \<open>\<open>os.unlink(path)\<close>: a path that is not there is reported, not raised.\<close>

definition os_unlink :: "path \<Rightarrow> bool io" where
  "os_unlink p = syscall (\<lambda>_ w. case lookup_path w p of
       None \<Rightarrow> (Inr False, w)
     | Some (ino, n) \<Rightarrow>
         if content_type (n_content n) = Directory then fail ''unlink'' w
         else (case lookup_path w (butlast p) of
             None \<Rightarrow> fail ''unlink'' w
           | Some (dino, dn) \<Rightarrow> (case n_content dn of
                 Folder es \<Rightarrow> (Inr True, drop_path p ino n dino dn es w)
               | _ \<Rightarrow> fail ''unlink'' w)))"

text \<open>
  \<open>os.replace(src, dst)\<close> of two names in one directory: afterwards \<open>dst\<close> leads to what \<open>src\<close> led to,
  and \<open>src\<close> to nothing.
\<close>

definition os_replace :: "path \<Rightarrow> path \<Rightarrow> unit io" where
  "os_replace src dst = syscall (\<lambda>_ w. case lookup_path w src of
       None \<Rightarrow> fail ''replace'' w
     | Some (ino, n) \<Rightarrow>
         if butlast src \<noteq> butlast dst \<or> content_type (n_content n) = Directory
         then fail ''replace'' w
         else (case lookup_path w (butlast dst) of
             None \<Rightarrow> fail ''replace'' w
           | Some (dino, dn) \<Rightarrow> (case n_content dn of
                 Folder es \<Rightarrow>
                   let t = fs_clock (w_fs w);
                       es' = (path_name dst, ino) # filter (\<lambda>e. fst e \<noteq> path_name dst \<and> fst e \<noteq> path_name src) es;
                       moved = (\<lambda>v. set_inode dino (dn\<lparr>n_content := Folder es', n_mtime := t, n_ctime := t\<rparr>) v);
                       renamed = (\<lambda>v. v\<lparr>w_fs := (w_fs v)\<lparr>fs_path := (fs_path (w_fs v))(src := None, dst \<mapsto> ino)\<rparr>\<rparr>)
                   in (case lookup_path w dst of
                         None \<Rightarrow> (Inr (), renamed (moved w))
                       | Some (old, target) \<Rightarrow>
                           if old = ino then (Inr (), w)
                           else if content_type (n_content target) = Directory then fail ''replace'' w
                           else (Inr (), renamed (moved (set_inode old (target\<lparr>n_nlink := n_nlink target - 1, n_ctime := t\<rparr>) w))))
               | _ \<Rightarrow> fail ''replace'' w)))"

section \<open>Writing the receipt\<close>

definition receipt_json :: "snapshot \<Rightarrow> json" where
  "receipt_json s = JObj
     [(''schema'', JInt RECEIPT_SCHEMA), (''host'', JStr GITHUB_HOST), (''repository'', JStr REPOSITORY),
      (''defaultBranch'', JStr (sn_branch s)),
      (''legacy'', JArr (map (\<lambda>(w, rs). JObj [(''id'', JInt (wf_id w)), (''path'', JStr (wf_path w))]) (sn_legacy s))),
      (''verifiedState'', JStr ''disabled_manually''), (''verifiedRunCount'', JInt 0)]"

definition receipt_opts :: dump_opts where
  "receipt_opts = \<lparr>opt_indent = Some 2, opt_sort = True, opt_ascii = True\<rparr>"

definition receipt_payload :: "snapshot \<Rightarrow> bytes" where
  "receipt_payload s = dumps receipt_opts (receipt_json s) @ [CHR 0x0A]"

definition fill_temp :: "nat \<Rightarrow> bytes \<Rightarrow> unit io" where
  "fill_temp fd payload =
     finallyI (bindI (write_loop fd (length payload) ''write'' payload) (\<lambda>_. os_fsync fd)) (os_close fd)"

definition remove_temp :: "path \<Rightarrow> unit io" where
  "remove_temp p = bindI (os_unlink p) (\<lambda>_. returnI ())"

definition write_receipt :: "string list \<Rightarrow> snapshot \<Rightarrow> path \<Rightarrow> unit io" where
  "write_receipt names s p =
     bindI (make_dirs (butlast p)) (\<lambda>_.
     bindI (create_temp (butlast p) (''.'' @ path_name p @ ''.'') names) (\<lambda>(temporary, fd).
       on_errorI (bindI (fill_temp fd (receipt_payload s)) (\<lambda>_. os_replace temporary p)) (remove_temp temporary)))"

section \<open>Reading the receipt\<close>

definition receipt_entry :: "string \<Rightarrow> json \<Rightarrow> workflow res" where
  "receipt_entry expected_path entry =
     (case entry of
        JObj d \<Rightarrow>
          if \<not> keys_are d [''id'', ''path''] then Inl (RetirementError ''retirement receipt legacy entry is malformed'')
          else if \<not> py_eq (dget d ''path'') (JStr expected_path)
          then Inl (RetirementError ''retirement receipt legacy path is invalid'')
          else bindE (positive_integer (dget d ''id'') ''retirement receipt workflow id'') (\<lambda>i.
            Inr \<lparr>wf_id = i, wf_path = expected_path, wf_state = ''disabled_manually''\<rparr>)
      | _ \<Rightarrow> Inl (RetirementError ''retirement receipt legacy entry is malformed''))"

definition is_number :: "int \<Rightarrow> json \<Rightarrow> bool" where
  "is_number i v = (case v of JInt j \<Rightarrow> j = i | _ \<Rightarrow> False)"

definition receipt_of :: "dict \<Rightarrow> receipt res" where
  "receipt_of d =
     (if \<not> keys_are d [''schema'', ''host'', ''repository'', ''defaultBranch'', ''legacy'', ''verifiedState'', ''verifiedRunCount'']
      then Inl (RetirementError ''retirement receipt fields do not match the contract'')
      else if \<not> is_number RECEIPT_SCHEMA (dget d ''schema'') \<or> \<not> py_eq (dget d ''host'') (JStr GITHUB_HOST)
              \<or> \<not> py_eq (dget d ''repository'') (JStr REPOSITORY) \<or> \<not> py_eq (dget d ''verifiedState'') (JStr ''disabled_manually'')
              \<or> \<not> is_number 0 (dget d ''verifiedRunCount'')
      then Inl (RetirementError ''retirement receipt proof is invalid'')
      else (case (dget d ''defaultBranch'', dget d ''legacy'') of
          (JStr branch, JArr entries) \<Rightarrow>
            if \<not> fullmatch BRANCH_RX branch \<or> length entries \<noteq> length LEGACY_PATHS
            then Inl (RetirementError ''retirement receipt identity is invalid'')
            else bindE (mapE (\<lambda>(p, entry). receipt_entry p entry) (zip LEGACY_PATHS entries)) (\<lambda>legacy.
              if \<not> distinct (map wf_id legacy)
              then Inl (RetirementError ''retirement receipt workflow ids are duplicated'')
              else Inr \<lparr>rc_host = GITHUB_HOST, rc_branch = branch, rc_legacy = legacy\<rparr>)
        | _ \<Rightarrow> Inl (RetirementError ''retirement receipt identity is invalid'')))"

definition parse_receipt :: "bytes \<Rightarrow> receipt res" where
  "parse_receipt raw =
     (if MAX_RECEIPT_BYTES < length raw then Inl (RetirementError ''retirement receipt exceeds the safety limit'')
      else (case json_loads raw of
          Inl UnicodeDecodeError \<Rightarrow> Inl (RetirementError ''retirement receipt is invalid JSON'')
        | Inl JSONDecodeError \<Rightarrow> Inl (RetirementError ''retirement receipt is invalid JSON'')
        | Inl e \<Rightarrow> Inl e
        | Inr (JObj d) \<Rightarrow> receipt_of d
        | Inr _ \<Rightarrow> Inl (RetirementError ''retirement receipt fields do not match the contract'')))"

definition load_receipt :: "path \<Rightarrow> receipt io" where
  "load_receipt p =
     bindI (os_errorI (bindI (os_open_read p) (\<lambda>fd. finallyI (read_up_to fd MAX_RECEIPT_BYTES 0) (os_close fd)))
              (RetirementError ''retirement receipt cannot be read'')) (\<lambda>raw.
       liftI (parse_receipt raw))"

section \<open>Retiring\<close>

definition legacy_ids :: "snapshot \<Rightarrow> int list" where
  "legacy_ids s = map (\<lambda>(w, rs). wf_id w) (sn_legacy s)"

definition legacy_runs :: "snapshot \<Rightarrow> run list" where
  "legacy_runs s = concat (map (\<lambda>(w, rs). rs) (sn_legacy s))"

definition is_active :: "run \<Rightarrow> bool" where
  "is_active r \<longleftrightarrow> run_status r \<noteq> ''completed''"

definition disable_request :: "int \<Rightarrow> request" where
  "disable_request i = Mutate ''PUT'' (''repos/'' @ REPOSITORY @ ''/actions/workflows/'' @ dec_int i @ ''/disable'')"

definition delete_request :: "int \<Rightarrow> request" where
  "delete_request i = Mutate ''DELETE'' (''repos/'' @ REPOSITORY @ ''/actions/runs/'' @ dec_int i)"

text \<open>\<open>api.mutate(method, endpoint)\<close> for a request that is a mutation\<close>

definition send :: "api \<Rightarrow> request \<Rightarrow> unit act" where
  "send gh q = (case q of Mutate verb endpoint \<Rightarrow> api_mutate gh verb endpoint | _ \<Rightarrow> returnA ())"

text \<open>The second look: the workflows are disabled and nothing else has changed.\<close>

definition check_disabled :: "snapshot \<Rightarrow> snapshot \<Rightarrow> unit res" where
  "check_disabled s disabled =
     (if sn_branch disabled \<noteq> sn_branch s then Inl (RetirementError ''default branch changed after workflow disable'')
      else if legacy_ids disabled \<noteq> legacy_ids s
      then Inl (RetirementError ''legacy workflow identities changed after disable'')
      else if list_ex (\<lambda>(w, rs). wf_state w \<noteq> ''disabled_manually'') (sn_legacy disabled)
      then Inl (RetirementError ''legacy workflow disable did not become authoritative'')
      else if \<not> same_elems (map run_id (legacy_runs disabled)) (map run_id (legacy_runs s))
      then Inl (RetirementError ''legacy run set changed after disable; generate a new plan'')
      else if list_ex is_active (legacy_runs disabled)
      then Inl (RetirementError ''a legacy run is still active after disable'')
      else Inr ())"

definition check_retired :: "snapshot \<Rightarrow> snapshot \<Rightarrow> unit res" where
  "check_retired s retired =
     (if sn_branch retired \<noteq> sn_branch s then Inl (RetirementError ''default branch changed during run deletion'')
      else if legacy_ids retired \<noteq> legacy_ids s
      then Inl (RetirementError ''legacy workflow identities changed after run deletion'')
      else verify_pre_migration_retired retired)"

text \<open>\<open>sorted(original_runs)\<close> of the set of the run ids\<close>

definition runs_to_delete :: "snapshot \<Rightarrow> int list" where
  "runs_to_delete s = sort (remdups (map run_id (legacy_runs s)))"

definition retire :: "api \<Rightarrow> string list \<Rightarrow> snapshot \<Rightarrow> string \<Rightarrow> path \<Rightarrow> unit act" where
  "retire gh names s confirmation receipt_path =
     (if confirmation \<noteq> apply_token s
      then raiseA (RetirementError ''apply token does not match the current exact snapshot'')
      else if list_ex is_active (legacy_runs s)
      then raiseA (RetirementError ''legacy workflows have active runs; cancel them and generate a new plan'')
      else
        bindA (mapA (send gh) (map disable_request (legacy_ids s))) (\<lambda>_.
        bindA (collect_pre_migration_snapshot gh) (\<lambda>disabled.
        bindA (liftA (check_disabled s disabled)) (\<lambda>_.
        bindA (mapA (send gh) (map delete_request (runs_to_delete s))) (\<lambda>_.
        bindA (collect_pre_migration_snapshot gh) (\<lambda>retired.
        bindA (liftA (check_retired s retired)) (\<lambda>_.
          osA (write_receipt names retired receipt_path))))))))"

section \<open>After the migration\<close>

definition check_catalog_entry :: "api \<Rightarrow> receipt \<Rightarrow> workflow \<Rightarrow> unit act" where
  "check_catalog_entry gh rc w =
     (case filter (\<lambda>e. wf_id e = wf_id w) (rc_legacy rc) of
        [] \<Rightarrow>
          if List.member LEGACY_PATHS (wf_path w)
          then raiseA (RetirementError ''an unexpected legacy workflow identity still exists'') else returnA ()
      | expected # _ \<Rightarrow>
          if wf_path w \<noteq> wf_path expected \<or> wf_state w \<noteq> ''disabled_manually''
          then raiseA (RetirementError ''captured legacy workflow identity is not retired'')
          else bindA (workflow_runs gh w) (\<lambda>rs.
            if rs \<noteq> [] then raiseA (RetirementError ''captured legacy workflow still has runs'') else returnA ()))"

definition verify_post_migration :: "api \<Rightarrow> path \<Rightarrow> unit act" where
  "verify_post_migration gh receipt_path =
     bindA (osA (load_receipt receipt_path)) (\<lambda>rc.
     bindA (default_branch_paths gh) (\<lambda>(branch, paths).
     if branch \<noteq> rc_branch rc then raiseA (RetirementError ''default branch changed after legacy retirement'')
     else if list_ex (List.member paths) LEGACY_PATHS \<or> \<not> list_all (List.member paths) REPLACEMENT_PATHS
     then raiseA (RetirementError ''default branch is not migrated to only the hardened workflow paths'')
     else
       let captured = map wf_id (rc_legacy rc) in
       bindA (workflow_catalog gh captured) (\<lambda>catalog.
       bindA (liftA (by_path catalog REPLACEMENT_PATHS)) (\<lambda>replacements.
       if list_ex (\<lambda>w. wf_state w \<noteq> ''active'') replacements
       then raiseA (RetirementError ''replacement workflows must be active'')
       else if list_ex (\<lambda>w. List.member captured (wf_id w)) replacements
       then raiseA (RetirementError ''replacement workflow reuses a legacy identity'')
       else
         bindA (mapA (check_catalog_entry gh rc) catalog) (\<lambda>_.
         bindA (relevant_repository_runs gh captured) (\<lambda>remaining.
           if remaining \<noteq> [] then raiseA (RetirementError ''repository still contains legacy workflow runs'')
           else returnA ()))))))"

section \<open>The command line\<close>

datatype retirement_mode = Plan | Apply string | Verify_migrated

definition retirement_main :: "api \<Rightarrow> string list \<Rightarrow> path \<Rightarrow> retirement_mode \<Rightarrow> string act" where
  "retirement_main gh names receipt_path mode =
     (case mode of
        Verify_migrated \<Rightarrow> bindA (verify_post_migration gh receipt_path) (\<lambda>_.
          returnA ''legacy publishers retired; hardened workflows are active'')
      | Plan \<Rightarrow> bindA (collect_pre_migration_snapshot gh) (\<lambda>s. returnA (dumps receipt_opts (snapshot_plan s)))
      | Apply confirmation \<Rightarrow>
          bindA (collect_pre_migration_snapshot gh) (\<lambda>s.
          bindA (retire gh names s confirmation receipt_path) (\<lambda>_.
            returnA ''legacy publishers retired; receipt written'')))"

text \<open>\<open>OSError\<close> and \<open>RetirementError\<close> (\<open>GitHubApiUnavailable\<close> is one) end in a message and status 1.\<close>

definition is_reported :: "err \<Rightarrow> bool" where
  "is_reported e = (case e of OSError _ \<Rightarrow> True | RetirementError _ \<Rightarrow> True | GitHubApiUnavailable _ \<Rightarrow> True | _ \<Rightarrow> False)"

end
