(* ===== verification/Retirement_Props.thy ===== *)
theory Retirement_Props
  imports Receipts
begin

text \<open>
  Rules for actions of the client, which requests each action sends, the phases of a retirement, and what
  every snapshot the client collects looks like.
\<close>

section \<open>Rules for the client\<close>

named_theorems act_iff \<open>when a composed action returns a value\<close>

lemma returnA_iff [act_iff]: "returnA x c = (Inr y, c') \<longleftrightarrow> y = x \<and> c' = c"
  by (auto simp: returnA_def)

lemma raiseA_iff [act_iff]: "raiseA e c = (Inr y, c') \<longleftrightarrow> False"
  by (simp add: raiseA_def)

lemma liftA_iff [act_iff]: "liftA r c = (Inr y, c') \<longleftrightarrow> r = Inr y \<and> c' = c"
  by (auto simp: liftA_def)

lemma bindA_iff [act_iff]:
  "bindA m f c = (Inr y, c') \<longleftrightarrow> (\<exists>x c1. m c = (Inr x, c1) \<and> f x c1 = (Inr y, c'))"
  by (auto simp: bindA_def split: prod.splits sum.splits)

lemma osA_iff [act_iff]:
  "osA m c = (Inr y, c') \<longleftrightarrow> (\<exists>w. m (c_world c) = (Inr y, w) \<and> c' = c\<lparr>c_world := w\<rparr>)"
  by (auto simp: osA_def split: prod.splits)

lemma if_raiseA_iff [act_iff]:
  "(if b then raiseA e else m) c = (Inr y, c') \<longleftrightarrow> \<not> b \<and> m c = (Inr y, c')"
  by (simp add: raiseA_iff)

lemma case_prod_act_iff: "(case p of (a, b) \<Rightarrow> f a b) c = f (fst p) (snd p) c"
  by (cases p) simp

section \<open>Which requests an action sends\<close>

fun is_mutation :: "request \<Rightarrow> bool" where
  "is_mutation (Mutate verb endpoint) = True"
| "is_mutation _ = False"

definition mutations :: "client \<Rightarrow> request list" where
  "mutations c = filter is_mutation (c_requests c)"

text \<open>Only questions: the mutations sent so far stay what they are.\<close>

definition asks_only :: "'a act \<Rightarrow> bool" where
  "asks_only m \<longleftrightarrow> (\<forall>c. mutations (snd (m c)) = mutations c)"

named_theorems asks_intro \<open>which actions send no mutation\<close>

lemma asks_onlyD: "asks_only m \<Longrightarrow> m c = (r, c') \<Longrightarrow> mutations c' = mutations c"
  unfolding asks_only_def by (metis snd_conv)

lemma asks_returnA [asks_intro]: "asks_only (returnA x)"
  by (simp add: asks_only_def returnA_def)

lemma asks_raiseA [asks_intro]: "asks_only (raiseA e)"
  by (simp add: asks_only_def raiseA_def)

lemma asks_liftA [asks_intro]: "asks_only (liftA r)"
  by (simp add: asks_only_def liftA_def)

lemma asks_osA [asks_intro]: "asks_only (osA m)"
  by (simp add: asks_only_def osA_def mutations_def split: prod.split)

lemma asks_bindA [asks_intro]: "asks_only m \<Longrightarrow> (\<And>x. asks_only (f x)) \<Longrightarrow> asks_only (bindA m f)"
  unfolding asks_only_def bindA_def by (auto split: prod.split sum.split) (metis snd_conv)+

lemma asks_if_unavailable [asks_intro]:
  "asks_only m \<Longrightarrow> asks_only h \<Longrightarrow> (\<And>x. asks_only (k x)) \<Longrightarrow> asks_only (if_unavailableA m h k)"
  unfolding asks_only_def if_unavailableA_def by (auto split: prod.split sum.split) (metis snd_conv)+

lemma asks_if [asks_intro]: "asks_only m \<Longrightarrow> asks_only k \<Longrightarrow> asks_only (if b then m else k)"
  by simp

lemma asks_Let [asks_intro]: "asks_only (f x) \<Longrightarrow> asks_only (let y = x in f y)"
  by simp

lemma asks_case_prod [asks_intro]: "(\<And>a b. asks_only (f a b)) \<Longrightarrow> asks_only (case p of (a, b) \<Rightarrow> f a b)"
  by (cases p) simp

lemma asks_mapA [asks_intro]: "(\<And>x. asks_only (f x)) \<Longrightarrow> asks_only (mapA f xs)"
  by (induction xs) (auto intro!: asks_intro)

lemma asks_get [asks_intro]: "asks_only (api_get gh e p)" "asks_only (ask gh Repository_identity)"
  by (simp_all add: asks_only_def api_get_def ask_def mutations_def)

lemma asks_case_list [asks_intro]:
  "(xs = [] \<Longrightarrow> asks_only m) \<Longrightarrow> (\<And>y ys. asks_only (f y ys)) \<Longrightarrow> asks_only (case xs of [] \<Rightarrow> m | y # ys \<Rightarrow> f y ys)"
  by (cases xs) simp_all

lemma asks_case_json [asks_intro]:
  assumes "asks_only f1" "\<And>b. asks_only (f2 b)" "\<And>i. asks_only (f3 i)" "\<And>x. asks_only (f4 x)"
    "\<And>s. asks_only (f5 s)" "\<And>xs. asks_only (f6 xs)" "\<And>d. asks_only (f7 d)"
  shows "asks_only (case v of JNull \<Rightarrow> f1 | JBool b \<Rightarrow> f2 b | JInt i \<Rightarrow> f3 i | JFloat x \<Rightarrow> f4 x
    | JStr s \<Rightarrow> f5 s | JArr xs \<Rightarrow> f6 xs | JObj d \<Rightarrow> f7 d)"
  using assms by (cases v) simp_all

lemma asks_repository [asks_intro]:
  "asks_only (repository_default_branch gh)" "asks_only (default_branch_paths gh)"
  unfolding default_branch_paths_def repository_default_branch_def by (intro asks_intro)+

lemma asks_lists [asks_intro]:
  "asks_only (workflow_catalog gh captured)" "asks_only (workflow_runs gh w)"
  "asks_only (relevant_repository_runs gh captured)"
  unfolding workflow_catalog_def workflow_runs_def relevant_repository_runs_def by (intro asks_intro)+

lemma asks_collect [asks_intro]: "asks_only (collect_pre_migration_snapshot gh)"
  unfolding collect_pre_migration_snapshot_def by (intro asks_intro)

lemma asks_verify [asks_intro]: "asks_only (check_catalog_entry gh rc w)" "asks_only (verify_post_migration gh p)"
  unfolding verify_post_migration_def check_catalog_entry_def by (intro asks_intro)+

text \<open>A loop that sends mutations gets through some of them, in order, and all of them unless it raises.\<close>

lemma send_one:
  assumes "q = Mutate verb endpoint" and "verb = ''PUT'' \<or> verb = ''DELETE''" and "send gh q c = (r, c')"
  shows "mutations c' = mutations c @ [q]"
  using assms by (auto simp: send_def api_mutate_def bindA_def ask_def returnA_def mutations_def split: sum.splits prod.splits)

lemma send_all:
  assumes "mapA (send gh) qs c = (r, c')"
    and "\<And>q. q \<in> set qs \<Longrightarrow> \<exists>verb endpoint. q = Mutate verb endpoint \<and> (verb = ''PUT'' \<or> verb = ''DELETE'')"
  shows "\<exists>sent. mutations c' = mutations c @ sent \<and> prefix sent qs \<and> (\<forall>xs. r = Inr xs \<longrightarrow> sent = qs)"
  using assms
proof (induction qs arbitrary: c r c')
  case Nil
  then show ?case by (auto simp: returnA_def)
next
  case (Cons q qs)
  obtain r1 c1 where s: "send gh q c = (r1, c1)" by (cases "send gh q c")
  from Cons.prems(2) [of q] have m: "mutations c1 = mutations c @ [q]" using send_one [OF _ _ s] by auto
  show ?case
  proof (cases r1)
    case (Inl e)
    then show ?thesis using Cons.prems(1) s m by (auto simp: bindA_def)
  next
    case (Inr x)
    obtain r2 c2 where t: "mapA (send gh) qs c1 = (r2, c2)" by (cases "mapA (send gh) qs c1")
    from Cons.IH [OF t] Cons.prems(2) obtain sent where
      sent: "mutations c2 = mutations c1 @ sent" "prefix sent qs" "\<forall>xs. r2 = Inr xs \<longrightarrow> sent = qs" by auto
    have "c' = c2" "(\<exists>xs. r = Inr xs) \<longleftrightarrow> (\<exists>xs. r2 = Inr xs)"
      using Cons.prems(1) s Inr t by (auto simp: bindA_def returnA_def split: sum.splits)
    then show ?thesis using sent m by (intro exI [of _ "q # sent"]) auto
  qed
qed


section \<open>The mutations of a retirement\<close>

lemma send_disables:
  "mapA (send gh) (map disable_request xs) c = (r, c') \<Longrightarrow>
   \<exists>sent. mutations c' = mutations c @ sent \<and> prefix sent (map disable_request xs)
     \<and> (\<forall>ys. r = Inr ys \<longrightarrow> sent = map disable_request xs)"
  by (erule send_all) (auto simp: disable_request_def)

lemma send_deletes:
  "mapA (send gh) (map delete_request xs) c = (r, c') \<Longrightarrow>
   \<exists>sent. mutations c' = mutations c @ sent \<and> prefix sent (map delete_request xs)
     \<and> (\<forall>ys. r = Inr ys \<longrightarrow> sent = map delete_request xs)"
  by (erule send_all) (auto simp: delete_request_def)

lemma check_disabled_Inr:
  "check_disabled s d = Inr () \<longleftrightarrow> sn_branch d = sn_branch s \<and> legacy_ids d = legacy_ids s
     \<and> list_all (\<lambda>(w, rs). wf_state w = ''disabled_manually'') (sn_legacy d)
     \<and> set (map run_id (legacy_runs d)) = set (map run_id (legacy_runs s))
     \<and> \<not> list_ex is_active (legacy_runs d)"
  by (auto simp: check_disabled_def same_elems_iff list_ex_iff list_all_iff)

lemma check_retired_Inr:
  "check_retired s d = Inr () \<longleftrightarrow> sn_branch d = sn_branch s \<and> legacy_ids d = legacy_ids s
     \<and> list_all (\<lambda>(w, rs). wf_state w = ''disabled_manually'' \<and> rs = []) (sn_legacy d)"
  by (auto simp: check_retired_def verify_pre_migration_retired_def list_ex_iff list_all_iff)

text \<open>Every way a retirement can go, by the phase it reaches.\<close>

lemma retire_phases:
  assumes "retire gh names s confirmation p c = (r, c')"
  obtains (refused) e where "r = Inl e" "mutations c' = mutations c"
  | (disabling) e sent where "r = Inl e" "confirmation = apply_token s" "\<not> list_ex is_active (legacy_runs s)"
      "mutations c' = mutations c @ sent" "prefix sent (map disable_request (legacy_ids s))"
  | (deleting) c1 c2 d sent where "confirmation = apply_token s" "\<not> list_ex is_active (legacy_runs s)"
      "mutations c1 = mutations c @ map disable_request (legacy_ids s)"
      "collect_pre_migration_snapshot gh c1 = (Inr d, c2)" "check_disabled s d = Inr ()"
      "mutations c' = mutations c1 @ sent" "prefix sent (map delete_request (runs_to_delete s))"
      "r = Inr () \<Longrightarrow> \<exists>c3 c4 t w. sent = map delete_request (runs_to_delete s) \<and> mutations c3 = mutations c'
         \<and> collect_pre_migration_snapshot gh c3 = (Inr t, c4) \<and> check_retired s t = Inr ()
         \<and> write_receipt names t p (c_world c4) = (Inr (), w) \<and> c_world c' = w"
proof (cases "confirmation \<noteq> apply_token s \<or> list_ex is_active (legacy_runs s)")
  case True
  then show thesis using assms refused by (auto simp: retire_def raiseA_def split: if_splits)
next
  case False
  then have ok: "confirmation = apply_token s" "\<not> list_ex is_active (legacy_runs s)" by auto
  define rest where "rest = (\<lambda>_ :: unit list. bindA (collect_pre_migration_snapshot gh) (\<lambda>disabled.
        bindA (liftA (check_disabled s disabled)) (\<lambda>_.
        bindA (mapA (send gh) (map delete_request (runs_to_delete s))) (\<lambda>_.
        bindA (collect_pre_migration_snapshot gh) (\<lambda>retired.
        bindA (liftA (check_retired s retired)) (\<lambda>_.
          osA (write_receipt names retired p)))))))"
  have run: "bindA (mapA (send gh) (map disable_request (legacy_ids s))) rest c = (r, c')"
    using assms ok by (simp add: retire_def rest_def)
  obtain r1 c1 where 1: "mapA (send gh) (map disable_request (legacy_ids s)) c = (r1, c1)"
    by (cases "mapA (send gh) (map disable_request (legacy_ids s)) c")
  from send_disables [OF 1] obtain sent1 where
    s1: "mutations c1 = mutations c @ sent1" "prefix sent1 (map disable_request (legacy_ids s))"
      "\<forall>xs. r1 = Inr xs \<longrightarrow> sent1 = map disable_request (legacy_ids s)" by auto
  show thesis
  proof (cases r1)
    case (Inl e)
    then show thesis using run 1 s1 ok disabling by (auto simp: bindA_def)
  next
    case (Inr u)
    then have run1: "rest u c1 = (r, c')" and m1: "mutations c1 = mutations c @ map disable_request (legacy_ids s)"
      using run 1 s1 by (auto simp: bindA_def)
    obtain r2 c2 where 2: "collect_pre_migration_snapshot gh c1 = (r2, c2)"
      by (cases "collect_pre_migration_snapshot gh c1")
    have m2: "mutations c2 = mutations c1" using asks_onlyD [OF asks_collect 2] .
    show thesis
    proof (cases "\<exists>d. r2 = Inr d \<and> check_disabled s d = Inr ()")
      case False
      then have "mutations c' = mutations c1" "\<exists>e. r = Inl e"
        using run1 2 m2 unfolding rest_def
        by (auto simp: bindA_def liftA_def split: sum.splits) metis
      then show thesis using disabling [OF _ ok, of _ "map disable_request (legacy_ids s)"] m1 by auto
    next
      case True
      then obtain d where d: "r2 = Inr d" "check_disabled s d = Inr ()" by blast
      define rest2 where "rest2 = (\<lambda>_ :: unit list. bindA (collect_pre_migration_snapshot gh) (\<lambda>retired.
        bindA (liftA (check_retired s retired)) (\<lambda>_.
          osA (write_receipt names retired p))))"
      have run2: "bindA (mapA (send gh) (map delete_request (runs_to_delete s))) rest2 c2 = (r, c')"
        using run1 2 d unfolding rest_def rest2_def by (simp add: bindA_def liftA_def)
      obtain r3 c3 where 3: "mapA (send gh) (map delete_request (runs_to_delete s)) c2 = (r3, c3)"
        by (cases "mapA (send gh) (map delete_request (runs_to_delete s)) c2")
      from send_deletes [OF 3] obtain sent2 where
        s2: "mutations c3 = mutations c2 @ sent2" "prefix sent2 (map delete_request (runs_to_delete s))"
          "\<forall>xs. r3 = Inr xs \<longrightarrow> sent2 = map delete_request (runs_to_delete s)" by auto
      have asks: "asks_only (rest2 us)" for us unfolding rest2_def by (intro asks_intro)
      have m3: "mutations c' = mutations c3"
        using run2 3 asks_onlyD [OF asks] by (auto simp: bindA_def split: sum.splits)
      have final: "\<exists>c3 c4 t w. sent2 = map delete_request (runs_to_delete s) \<and> mutations c3 = mutations c'
         \<and> collect_pre_migration_snapshot gh c3 = (Inr t, c4) \<and> check_retired s t = Inr ()
         \<and> write_receipt names t p (c_world c4) = (Inr (), w) \<and> c_world c' = w" if "r = Inr ()"
      proof -
        from run2 that obtain us where r3: "r3 = Inr us" and run3: "rest2 us c3 = (Inr (), c')"
          using 3 by (auto simp: bindA_def split: sum.splits)
        from run3 obtain t c4 w where "collect_pre_migration_snapshot gh c3 = (Inr t, c4)" "check_retired s t = Inr ()"
          "write_receipt names t p (c_world c4) = (Inr (), w)" "c' = c4\<lparr>c_world := w\<rparr>"
          unfolding rest2_def act_iff ex_unit by blast
        then show ?thesis using r3 s2(3) m3 by auto
      qed
      show thesis
        by (rule deleting [OF ok m1 2 [unfolded d(1)] d(2) _ s2(2)]) (use m3 s2(1) m2 final in auto)
    qed
  qed
qed

section \<open>What a snapshot looks like\<close>

definition run_belongs :: "workflow \<Rightarrow> run \<Rightarrow> bool" where
  "run_belongs w r \<longleftrightarrow> run_workflow r = wf_id w \<and> run_path r = wf_path w \<and> 0 < run_id r \<and> fullmatch COMMIT_RX (run_head r)"

definition snapshot_ok :: "snapshot \<Rightarrow> bool" where
  "snapshot_ok s \<longleftrightarrow> fullmatch BRANCH_RX (sn_branch s)
     \<and> map (\<lambda>(w, rs). wf_path w) (sn_legacy s) = LEGACY_PATHS \<and> distinct (legacy_ids s)
     \<and> list_all (\<lambda>(w, rs). 0 < wf_id w \<and> wf_state w \<noteq> [] \<and> list_all (run_belongs w) rs
          \<and> sorted_wrt (<) (map run_id rs)) (sn_legacy s)"

lemma positive_integer_Inr: "positive_integer v label = Inr i \<longleftrightarrow> v = JInt i \<and> 0 < i"
  by (cases v) (auto simp: positive_integer_def)

definition catalog_ok :: "workflow list \<Rightarrow> bool" where
  "catalog_ok ws \<longleftrightarrow> distinct (map wf_id ws) \<and> distinct (map wf_path ws) \<and> list_all (\<lambda>w. 0 < wf_id w \<and> wf_state w \<noteq> []) ws"

lemma case_JStr_Inr [res_iff]:
  "(case v of JStr s \<Rightarrow> f s | _ \<Rightarrow> Inl e) = Inr y \<longleftrightarrow> (\<exists>s. v = JStr s \<and> f s = Inr y)"
  by (cases v) auto

lemma case_JArr_Inr [res_iff]:
  "(case v of JArr xs \<Rightarrow> f xs | _ \<Rightarrow> Inl e) = Inr y \<longleftrightarrow> (\<exists>xs. v = JArr xs \<and> f xs = Inr y)"
  by (cases v) auto

lemma case_JObj_Inr [res_iff]:
  "(case v of JObj d \<Rightarrow> f d | _ \<Rightarrow> Inl e) = Inr y \<longleftrightarrow> (\<exists>d. v = JObj d \<and> f d = Inr y)"
  by (cases v) auto

lemma catalog_step_Inr:
  "catalog_step captured ws d = Inr ws' \<longleftrightarrow> workflow_relevant captured d = Inr False \<and> ws' = ws
     \<or> (workflow_relevant captured d = Inr True \<and> (\<exists>i p s. dget d ''id'' = JInt i \<and> 0 < i
          \<and> dget d ''path'' = JStr p \<and> dget d ''state'' = JStr s \<and> s \<noteq> [] \<and> i \<notin> wf_id ` set ws \<and> p \<notin> wf_path ` set ws
          \<and> ws' = ws @ [\<lparr>wf_id = i, wf_path = p, wf_state = s\<rparr>]))"
  (is "_ \<longleftrightarrow> ?R")
proof (cases "workflow_relevant captured d")
  case (Inr b)
  then show ?thesis
    by (cases b) (auto simp: catalog_step_def positive_integer_Inr res_iff)
qed (simp add: catalog_step_def)

lemma run_of_Inr:
  "run_of d label = Inr r \<longleftrightarrow> (\<exists>i w p s e h. dget d ''id'' = JInt i \<and> 0 < i \<and> dget d ''workflow_id'' = JInt w \<and> 0 < w
     \<and> dget d ''path'' = JStr p \<and> dget d ''status'' = JStr s \<and> dget d ''event'' = JStr e \<and> dget d ''head_sha'' = JStr h
     \<and> fullmatch COMMIT_RX h
     \<and> r = \<lparr>run_id = i, run_workflow = w, run_path = p, run_status = s, run_event = e, run_head = h\<rparr>)"
  unfolding run_of_def case_prod_conv res_iff positive_integer_Inr not_not by auto

lemma catalog_step_ok: "catalog_step captured ws d = Inr ws' \<Longrightarrow> catalog_ok ws \<Longrightarrow> catalog_ok ws'"
  unfolding catalog_step_Inr by (auto simp: catalog_ok_def)

lemma catalog_fold_ok: "foldE (catalog_step captured) [] ds = Inr ws \<Longrightarrow> catalog_ok ws"
  by (erule foldE_invariant [where P = catalog_ok]) (simp add: catalog_ok_def, erule (1) catalog_step_ok)

lemma workflow_catalog_ok: "workflow_catalog gh captured c = (Inr ws, c') \<Longrightarrow> catalog_ok ws"
  unfolding workflow_catalog_def act_iff res_iff using catalog_fold_ok by blast

lemma by_path_iff:
  "by_path ws ps = Inr rs \<longleftrightarrow> list_all2 (\<lambda>p r. filter (\<lambda>w. wf_path w = p) ws = [r]) ps rs"
  unfolding by_path_def mapE_eq_Inr by (rule arg_cong2 [where f = "\<lambda>P Q. list_all2 P Q rs"])
    (auto simp: fun_eq_iff split: list.split)

lemma by_path_paths: "by_path ws ps = Inr rs \<Longrightarrow> map wf_path rs = ps \<and> set rs \<subseteq> set ws"
proof -
  assume "by_path ws ps = Inr rs"
  then have a: "list_all2 (\<lambda>p r. filter (\<lambda>w. wf_path w = p) ws = [r]) ps rs" by (simp add: by_path_iff)
  have e: "wf_path r = p \<and> r \<in> set ws" if "filter (\<lambda>w. wf_path w = p) ws = [r]" for p r
  proof -
    have "r \<in> set (filter (\<lambda>w. wf_path w = p) ws)" using that by simp
    then show ?thesis by simp
  qed
  have "list_all2 (\<lambda>p r. wf_path r = p \<and> r \<in> set ws) ps rs"
    using a by (rule list_all2_mono) (rule e)
  then show ?thesis by (auto simp: list_all2_conv_all_nth in_set_conv_nth intro!: nth_equalityI)
qed

lemma runs_step_ok:
  "runs_step w rs d = Inr rs' \<Longrightarrow> list_all (run_belongs w) rs \<and> distinct (map run_id rs) \<Longrightarrow>
   list_all (run_belongs w) rs' \<and> distinct (map run_id rs')"
  unfolding runs_step_def res_iff run_of_Inr by (auto simp: run_belongs_def)

lemma sort_key_strict: "distinct (map f xs) \<Longrightarrow> sorted_wrt (<) (map f (sort_key f xs))" for f :: "'a \<Rightarrow> int"
  by (metis distinct_map distinct_sort set_sort sorted_sort_key strict_sorted_iff)

lemma workflow_runs_ok:
  assumes "workflow_runs gh w c = (Inr rs, c')"
  shows "list_all (run_belongs w) rs \<and> sorted_wrt (<) (map run_id rs)"
proof -
  from assms obtain ds xs where f: "foldE (runs_step w) [] ds = Inr xs" and rs: "rs = sort_key run_id xs"
    unfolding workflow_runs_def act_iff res_iff by blast
  have "list_all (run_belongs w) xs \<and> distinct (map run_id xs)"
    using f by (rule foldE_invariant [where P = "\<lambda>xs. list_all (run_belongs w) xs \<and> distinct (map run_id xs)"])
      (simp, erule (1) runs_step_ok)
  then show ?thesis using sort_key_strict [of run_id xs] by (simp add: rs list_all_iff)
qed

lemma mapA_iff:
  "mapA f xs c = (Inr ys, c') \<Longrightarrow> length ys = length xs \<and> (\<forall>i < length xs. \<exists>c1 c2. f (xs ! i) c1 = (Inr (ys ! i), c2))"
proof (induction xs arbitrary: c ys)
  case (Cons x xs)
  from Cons.prems obtain y zs c1 where y: "f x c = (Inr y, c1)" and zs: "mapA f xs c1 = (Inr zs, c')" and ys: "ys = y # zs"
    by (auto simp: act_iff)
  from Cons.IH [OF zs] y show ?case by (auto simp: ys nth_Cons split: nat.split)
qed (simp add: act_iff)

lemma branch_ok: "default_branch_paths gh c = (Inr (branch, paths), c') \<Longrightarrow> fullmatch BRANCH_RX branch"
  by (auto simp: default_branch_paths_def repository_default_branch_def if_unavailableA_def act_iff ask_def
      raiseA_def returnA_def liftA_def bindA_def
      branch_of_rest_def branch_of_graphql_def valid_default_branch_def split: sum.splits prod.splits json.splits if_splits)

lemma collected_snapshot:
  assumes "collect_pre_migration_snapshot gh c = (Inr s, c')"
  shows "snapshot_ok s"
proof -
  from assms obtain branch paths catalog legacy pairs c1 c2 c3 where
    b: "default_branch_paths gh c = (Inr (branch, paths), c1)"
    and w: "workflow_catalog gh [] c1 = (Inr catalog, c2)" and l: "by_path catalog LEGACY_PATHS = Inr legacy"
    and p: "mapA (\<lambda>w. bindA (workflow_runs gh w) (\<lambda>rs. returnA (w, rs))) legacy c2 = (Inr pairs, c3)"
    and s: "s = \<lparr>sn_branch = branch, sn_legacy = pairs\<rparr>"
    unfolding collect_pre_migration_snapshot_def act_iff case_prod_act_iff by force
  have pairs: "length pairs = length legacy"
    "\<And>i. i < length legacy \<Longrightarrow> \<exists>rs. pairs ! i = (legacy ! i, rs) \<and> list_all (run_belongs (legacy ! i)) rs
       \<and> sorted_wrt (<) (map run_id rs)"
    using mapA_iff [OF p] workflow_runs_ok unfolding act_iff by blast+
  have fst: "map fst pairs = legacy"
    by (rule nth_equalityI) (use pairs in \<open>force simp: pairs(1)\<close>)+
  note cat = workflow_catalog_ok [OF w] and leg = by_path_paths [OF l]
  have path: "map (\<lambda>(w, rs). wf_path w) pairs = LEGACY_PATHS"
    using leg fst by (auto simp: case_prod_unfold comp_def)
  have "distinct (map wf_path legacy)" using leg by (simp add: LEGACY_PATHS_def)
  then have "distinct legacy" by (simp add: distinct_map)
  then have "distinct (map wf_id legacy)"
    using leg cat by (auto simp: distinct_map catalog_ok_def intro: inj_on_subset)
  then have ids: "distinct (map (\<lambda>(w, rs). wf_id w) pairs)"
    using fst by (auto simp: case_prod_unfold comp_def)
  have each: "list_all (\<lambda>(w, rs). 0 < wf_id w \<and> wf_state w \<noteq> [] \<and> list_all (run_belongs w) rs
          \<and> sorted_wrt (<) (map run_id rs)) pairs"
  proof (rule list_all_length [THEN iffD2], intro allI impI)
    fix i assume i: "i < length pairs"
    with pairs obtain rs where rs: "pairs ! i = (legacy ! i, rs)" "list_all (run_belongs (legacy ! i)) rs"
      "sorted_wrt (<) (map run_id rs)" by force
    have "legacy ! i \<in> set catalog" using leg i pairs(1) by auto
    then show "case pairs ! i of (w, rs) \<Rightarrow> 0 < wf_id w \<and> wf_state w \<noteq> [] \<and> list_all (run_belongs w) rs
          \<and> sorted_wrt (<) (map run_id rs)"
      using rs cat by (simp add: catalog_ok_def list_all_iff)
  qed
  show ?thesis using branch_ok [OF b] path ids each by (simp add: snapshot_ok_def s legacy_ids_def)
qed

end
