(* ===== verification/Github_Service.thy ===== *)
theory Github_Service
  imports Retirement_Props
begin

text \<open>
  A service that does what it is asked: workflows and runs as lists, the answers to the questions of the
  script, disabling and deleting as they are documented. It instantiates the parameter of the
  retirement; against it the retirement succeeds and does exactly what it should.
\<close>

section \<open>A service\<close>

record github =
  gh_branch :: string
  gh_files :: "string list"
  gh_workflows :: "workflow list"
  gh_runs :: "run list"

definition workflow_dict :: "workflow \<Rightarrow> dict" where
  "workflow_dict w = [(''id'', JInt (wf_id w)), (''path'', JStr (wf_path w)), (''state'', JStr (wf_state w))]"

definition run_dict :: "run \<Rightarrow> dict" where
  "run_dict r = [(''id'', JInt (run_id r)), (''workflow_id'', JInt (run_workflow r)), (''path'', JStr (run_path r)),
     (''status'', JStr (run_status r)), (''event'', JStr (run_event r)), (''head_sha'', JStr (run_head r))]"

definition one_page :: "string \<Rightarrow> dict list \<Rightarrow> json" where
  "one_page key items = JArr [JObj [(key, JArr (map JObj items))]]"

definition runs_of :: "github \<Rightarrow> int \<Rightarrow> run list" where
  "runs_of g i = filter (\<lambda>r. run_workflow r = i) (gh_runs g)"

definition serve :: "github \<Rightarrow> request \<Rightarrow> json res" where
  "serve g q =
     (if q = Get (''repos/'' @ REPOSITORY) False
      then Inr (JObj [(''full_name'', JStr REPOSITORY), (''default_branch'', JStr (gh_branch g))])
      else if q = Get (''repos/'' @ REPOSITORY @ ''/contents/.github/workflows?ref='' @ url_quote (gh_branch g)) False
      then Inr (JArr (map (\<lambda>p. JObj [(''path'', JStr p)]) (gh_files g)))
      else if q = Get (''repos/'' @ REPOSITORY @ ''/actions/workflows?per_page=100'') True
      then Inr (one_page ''workflows'' (map workflow_dict (gh_workflows g)))
      else if q = Get (''repos/'' @ REPOSITORY @ ''/actions/runs?per_page=100'') True
      then Inr (one_page ''workflow_runs'' (map run_dict (gh_runs g)))
      else (case filter (\<lambda>w. q = Get (runs_endpoint w) True) (gh_workflows g) of
          w # _ \<Rightarrow> Inr (one_page ''workflow_runs'' (map run_dict (runs_of g (wf_id w))))
        | [] \<Rightarrow> (case q of Mutate verb endpoint \<Rightarrow> Inr JNull | _ \<Rightarrow> Inl (GitHubApiUnavailable ''not found''))))"

text \<open>A mutation takes effect at once, and nothing else changes the service.\<close>

definition apply_request :: "github \<Rightarrow> request \<Rightarrow> github" where
  "apply_request g q = g\<lparr>
     gh_workflows := map (\<lambda>w. if q = disable_request (wf_id w) then w\<lparr>wf_state := ''disabled_manually''\<rparr> else w) (gh_workflows g),
     gh_runs := filter (\<lambda>r. q \<noteq> delete_request (run_id r)) (gh_runs g)\<rparr>"

definition after :: "github \<Rightarrow> request list \<Rightarrow> github" where
  "after g qs = foldl apply_request g qs"

definition honest :: "github \<Rightarrow> api" where
  "honest g history q = serve (after g history) q"

section \<open>What the client reads\<close>

lemma dec_int_inject [simp]: "dec_int i = dec_int j \<longleftrightarrow> i = j"
proof
  assume "dec_int i = dec_int j"
  moreover have "hd (dec_nat n) \<noteq> CHR ''-''" for n
    using dec_nat_set_digits [of "hd (dec_nat n)" n] by auto
  ultimately show "i = j"
    by (auto simp: dec_int_def split: if_split_asm) (metis list.sel(1))+
qed simp

lemma request_inject [simp]:
  "disable_request i = disable_request j \<longleftrightarrow> i = j" "delete_request i = delete_request j \<longleftrightarrow> i = j"
  "disable_request i \<noteq> delete_request j" "delete_request j \<noteq> disable_request i"
  by (simp_all add: disable_request_def delete_request_def)

lemma runs_endpoint_inject [simp]: "runs_endpoint v = runs_endpoint w \<longleftrightarrow> wf_id v = wf_id w"
  by (simp add: runs_endpoint_def)

lemma dec_int_head_chars: "c = hd (dec_int i) \<Longrightarrow> is_digit c \<or> c = CHR ''-''"
  by (metis dec_int_head list.sel(1))

lemma apply_get [simp]: "apply_request g (Get e p) = g"
  by (simp add: apply_request_def disable_request_def delete_request_def)

lemma after_simps [simp]: "after g [] = g" "after g (qs @ [q]) = apply_request (after g qs) q"
  by (simp_all add: after_def)

lemma mapE_JObj: "mapE (\<lambda>item. case item of JObj i \<Rightarrow> Inr i | _ \<Rightarrow> Inl e) (map JObj ds) = Inr ds"
  by (induction ds) auto

lemma flatten_one_page [simp]: "flatten_pages (one_page key ds) key = Inr ds"
  by (simp add: flatten_pages_def one_page_def page_items_def dget_def mapE_JObj)

definition relevant :: "workflow \<Rightarrow> bool" where
  "relevant w \<longleftrightarrow> wf_path w \<in> set (LEGACY_PATHS @ REPLACEMENT_PATHS)"

lemma workflow_relevant_dict: "workflow_relevant [] (workflow_dict w) = Inr (relevant w)"
  by (auto simp: workflow_relevant_def workflow_dict_def dget_def in_set_def relevant_def list_ex_iff)

lemma catalog_fold_dicts:
  "distinct (map wf_id (acc @ ws)) \<Longrightarrow> distinct (map wf_path (acc @ ws)) \<Longrightarrow>
   list_all (\<lambda>w. 0 < wf_id w \<and> wf_state w \<noteq> []) ws \<Longrightarrow>
   foldE (catalog_step []) acc (map workflow_dict ws) = Inr (acc @ filter relevant ws)"
proof (induction ws arbitrary: acc)
  case (Cons w ws)
  have "catalog_step [] acc (workflow_dict w) = Inr (if relevant w then acc @ [w] else acc)"
    using Cons.prems by (auto simp: catalog_step_Inr workflow_relevant_dict) (auto simp: workflow_dict_def dget_def)
  then show ?case using Cons by (cases "relevant w") auto
qed simp

lemma runs_fold_dicts:
  "list_all (run_belongs w) rs \<Longrightarrow> 0 < wf_id w \<Longrightarrow> distinct (map run_id (acc @ rs)) \<Longrightarrow>
   foldE (runs_step w) acc (map run_dict rs) = Inr (acc @ rs)"
proof (induction rs arbitrary: acc)
  case (Cons r rs)
  have "run_of (run_dict r) label = Inr r" for label
    using Cons.prems by (auto simp: run_of_Inr run_dict_def dget_def run_belongs_def)
  then have "runs_step w acc (run_dict r) = Inr (acc @ [r])"
    using Cons.prems by (auto simp: runs_step_def run_belongs_def)
  then show ?case using Cons by simp
qed simp

text \<open>A service before the migration: both legacy publishers are there, nothing of the replacements is.\<close>

definition before_migration :: "github \<Rightarrow> bool" where
  "before_migration g \<longleftrightarrow> fullmatch BRANCH_RX (gh_branch g)
     \<and> list_all (List.member (gh_files g)) LEGACY_PATHS \<and> \<not> list_ex (List.member (gh_files g)) REPLACEMENT_PATHS
     \<and> catalog_ok (gh_workflows g) \<and> set LEGACY_PATHS \<subseteq> wf_path ` set (gh_workflows g)
     \<and> distinct (map run_id (gh_runs g))
     \<and> list_all (\<lambda>w. List.member LEGACY_PATHS (wf_path w) \<longrightarrow> list_all (run_belongs w) (runs_of g (wf_id w))) (gh_workflows g)"

definition workflow_at :: "github \<Rightarrow> string \<Rightarrow> workflow" where
  "workflow_at g p = hd (filter (\<lambda>w. wf_path w = p) (gh_workflows g))"

definition snapshot_of :: "github \<Rightarrow> snapshot" where
  "snapshot_of g = \<lparr>sn_branch = gh_branch g,
     sn_legacy = map (\<lambda>p. (workflow_at g p, sort_key run_id (runs_of g (wf_id (workflow_at g p))))) LEGACY_PATHS\<rparr>"

lemma filter_path_single:
  "distinct (map wf_path ws) \<Longrightarrow> w \<in> set ws \<Longrightarrow> filter (\<lambda>v. wf_path v = wf_path w) ws = [w]"
proof (induction ws)
  case (Cons a ws)
  show ?case
  proof (cases "w = a")
    case True
    with Cons.prems(1) have "filter (\<lambda>v. wf_path v = wf_path a) ws = []" by (auto simp: filter_empty_conv image_iff)
    with True show ?thesis by simp
  next
    case False
    with Cons show ?thesis by auto
  qed
qed simp

lemma workflow_at:
  assumes "before_migration g" and "p \<in> set LEGACY_PATHS"
  shows "workflow_at g p \<in> set (gh_workflows g)" and "wf_path (workflow_at g p) = p"
    and "filter (\<lambda>w. wf_path w = p) (gh_workflows g) = [workflow_at g p]"
proof -
  from assms obtain w where w: "w \<in> set (gh_workflows g)" "wf_path w = p" by (auto simp: before_migration_def)
  have "filter (\<lambda>v. wf_path v = p) (gh_workflows g) = [w]"
    using filter_path_single [OF _ w(1)] assms(1) w(2) by (auto simp: before_migration_def catalog_ok_def)
  then show "workflow_at g p \<in> set (gh_workflows g)" "wf_path (workflow_at g p) = p"
    "filter (\<lambda>w. wf_path w = p) (gh_workflows g) = [workflow_at g p]" using w by (simp_all add: workflow_at_def)
qed

lemma ask_honest:
  "ask (honest g) q c = (serve (after g (c_requests c)) q, c\<lparr>c_requests := c_requests c @ [q]\<rparr>)"
  by (simp add: ask_def honest_def)

text \<open>The client now sees the service \<open>G\<close>; asking does not change that.\<close>

definition sees :: "github \<Rightarrow> github \<Rightarrow> world \<Rightarrow> client \<Rightarrow> bool" where
  "sees g G w c \<longleftrightarrow> after g (c_requests c) = G \<and> c_world c = w"

definition reads :: "github \<Rightarrow> 'a act \<Rightarrow> github \<Rightarrow> 'a \<Rightarrow> bool" where
  "reads g m G x \<longleftrightarrow> (\<forall>w c. sees g G w c \<longrightarrow> (\<exists>c'. m c = (Inr x, c') \<and> sees g G w c'))"

lemma reads_returnA: "reads g (returnA x) G x"
  by (simp add: reads_def returnA_def)

lemma reads_liftA: "r = Inr x \<Longrightarrow> reads g (liftA r) G x"
  by (simp add: reads_def liftA_def)

lemma reads_bindA: "reads g m G x \<Longrightarrow> reads g (f x) G y \<Longrightarrow> reads g (bindA m f) G y"
  unfolding reads_def bindA_def by (metis (no_types, lifting) case_prod_conv sum.case(2))

lemma reads_get: "serve G (Get e p) = Inr v \<Longrightarrow> reads g (api_get (honest g) e p) G v"
  by (simp add: reads_def api_get_def ask_honest sees_def)

lemma reads_mapA: "(\<And>x. x \<in> set xs \<Longrightarrow> reads g (f x) G (h x)) \<Longrightarrow> reads g (mapA f xs) G (map h xs)"
  by (induction xs) (auto intro!: reads_returnA reads_bindA)

lemma reads_branch:
  assumes "before_migration G"
  shows "reads g (default_branch_paths (honest g)) G (gh_branch G, gh_files G)"
proof -
  have rest: "branch_of_rest (JObj [(''full_name'', JStr REPOSITORY), (''default_branch'', JStr (gh_branch G))]) = Inr (gh_branch G)"
    using assms by (simp add: branch_of_rest_def valid_default_branch_def dget_def before_migration_def)
  have branch: "reads g (repository_default_branch (honest g)) G (gh_branch G)"
    by (simp add: reads_def repository_default_branch_def if_unavailableA_def api_get_def ask_honest sees_def liftA_def
        serve_def rest)
  have paths: "text_paths (map (\<lambda>p. JObj [(''path'', JStr p)]) ps) = ps" for ps
    by (induction ps) (auto simp: text_paths_def dget_def)
  show ?thesis unfolding default_branch_paths_def
    by (rule reads_bindA [OF branch], rule reads_bindA [OF reads_get]) (auto simp: serve_def paths intro: reads_returnA)
qed

lemma runs_of_endpoint:
  assumes "catalog_ok (gh_workflows G)" and "w \<in> set (gh_workflows G)"
  shows "serve G (Get (runs_endpoint w) True) = Inr (one_page ''workflow_runs'' (map run_dict (runs_of G (wf_id w))))"
proof -
  have e: "filter (\<lambda>v. Get (runs_endpoint w) True = Get (runs_endpoint v) True) (gh_workflows G)
      = filter (\<lambda>v. wf_id w = wf_id v) (gh_workflows G)" by simp
  have "filter (\<lambda>v. wf_id w = wf_id v) (gh_workflows G) \<noteq> []"
    using assms(2) by (auto simp: filter_empty_conv)
  then obtain v vs where f: "filter (\<lambda>v. wf_id w = wf_id v) (gh_workflows G) = v # vs"
    by (meson list.exhaust)
  then have "v \<in> set (filter (\<lambda>v. wf_id w = wf_id v) (gh_workflows G))" by simp
  then have "wf_id v = wf_id w" by simp
  then show ?thesis unfolding serve_def e f by (simp add: runs_endpoint_def)
qed

lemma reads_snapshot:
  assumes G: "before_migration G"
  shows "reads g (collect_pre_migration_snapshot (honest g)) G (snapshot_of G)"
proof -
  have cat: "catalog_ok (gh_workflows G)" using G by (simp add: before_migration_def)
  have catalog: "reads g (workflow_catalog (honest g) []) G (filter relevant (gh_workflows G))"
    unfolding workflow_catalog_def
    by (rule reads_bindA [OF reads_get], simp add: serve_def, rule reads_liftA)
      (use cat catalog_fold_dicts [of "[]" "gh_workflows G"] in \<open>simp add: catalog_ok_def\<close>)
  have "filter (\<lambda>w. wf_path w = p) (filter relevant (gh_workflows G)) = [workflow_at G p]" if "p \<in> set LEGACY_PATHS" for p
  proof -
    have "filter (\<lambda>w. wf_path w = p) (filter relevant (gh_workflows G)) = filter (\<lambda>w. wf_path w = p) (gh_workflows G)"
      unfolding filter_filter by (rule filter_cong) (use that in \<open>auto simp: relevant_def\<close>)
    then show ?thesis using workflow_at(3) [OF G that] by simp
  qed
  then have legacy: "by_path (filter relevant (gh_workflows G)) LEGACY_PATHS = Inr (map (workflow_at G) LEGACY_PATHS)"
    unfolding by_path_def by (intro mapE_Inr_map) simp
  have runs: "reads g (workflow_runs (honest g) (workflow_at G p)) G (sort_key run_id (runs_of G (wf_id (workflow_at G p))))"
    if p: "p \<in> set LEGACY_PATHS" for p
  proof -
    let ?w = "workflow_at G p"
    note w = workflow_at [OF G p]
    have "distinct (map run_id (runs_of G (wf_id ?w)))"
      using G by (auto simp: before_migration_def runs_of_def distinct_map intro: inj_on_subset)
    moreover have "list_all (run_belongs ?w) (runs_of G (wf_id ?w))" "0 < wf_id ?w"
      using G w p cat by (auto simp: before_migration_def list_all_iff catalog_ok_def)
    ultimately have "foldE (runs_step ?w) [] (map run_dict (runs_of G (wf_id ?w))) = Inr (runs_of G (wf_id ?w))"
      using runs_fold_dicts [of ?w "runs_of G (wf_id ?w)" "[]"] by simp
    then show ?thesis unfolding workflow_runs_def
      by (intro reads_bindA [OF reads_get [OF runs_of_endpoint [OF cat w(1)]]] reads_liftA) simp
  qed
  have pairs: "reads g (mapA (\<lambda>w. bindA (workflow_runs (honest g) w) (\<lambda>rs. returnA (w, rs))) (map (workflow_at G) LEGACY_PATHS)) G
      (map (\<lambda>w. (w, sort_key run_id (runs_of G (wf_id w)))) (map (workflow_at G) LEGACY_PATHS))"
    by (rule reads_mapA) (auto intro!: reads_bindA reads_returnA runs)
  have no: "\<not> (\<not> list_all (List.member (gh_files G)) LEGACY_PATHS \<or> list_ex (List.member (gh_files G)) REPLACEMENT_PATHS)"
    using G by (simp add: before_migration_def)
  show ?thesis unfolding collect_pre_migration_snapshot_def
    by (rule reads_bindA [OF reads_branch [OF G]], simp only: case_prod_conv if_not_P [OF no],
        rule reads_bindA [OF catalog], rule reads_bindA [OF reads_liftA [OF legacy]], rule reads_bindA [OF pairs])
      (simp add: snapshot_of_def reads_returnA comp_def)
qed

section \<open>Retiring against the service\<close>

lemma serve_mutation: "serve G (Mutate verb endpoint) = Inr JNull"
  by (simp add: serve_def)

lemma send_served:
  assumes "q = disable_request i \<or> q = delete_request i" and "sees g G w c"
  shows "\<exists>c'. send (honest g) q c = (Inr (), c') \<and> sees g (apply_request G q) w c'"
  using assms by (auto simp: send_def api_mutate_def bindA_def ask_honest returnA_def sees_def serve_mutation
      disable_request_def delete_request_def)

lemma send_all_served:
  assumes "\<And>q. q \<in> set qs \<Longrightarrow> \<exists>i. q = disable_request i \<or> q = delete_request i" and "sees g G w c"
  shows "\<exists>us c'. mapA (send (honest g)) qs c = (Inr us, c') \<and> sees g (foldl apply_request G qs) w c'"
  using assms
proof (induction qs arbitrary: G c)
  case (Cons q qs)
  from Cons.prems(1) [of q] obtain i where "q = disable_request i \<or> q = delete_request i" by auto
  from send_served [OF this Cons.prems(2)] obtain c1 where
    c1: "send (honest g) q c = (Inr (), c1)" "sees g (apply_request G q) w c1" by blast
  from Cons.IH [OF _ c1(2)] Cons.prems(1) obtain us c2 where
    "mapA (send (honest g)) qs c1 = (Inr us, c2)" "sees g (foldl apply_request (apply_request G q) qs) w c2" by auto
  with c1 show ?case by (auto simp: bindA_def returnA_def)
qed (simp add: returnA_def)

definition disable_in :: "int set \<Rightarrow> workflow \<Rightarrow> workflow" where
  "disable_in ids w = (if wf_id w \<in> ids then w\<lparr>wf_state := ''disabled_manually''\<rparr> else w)"

lemma disable_in_sel [simp]: "wf_id (disable_in ids w) = wf_id w" "wf_path (disable_in ids w) = wf_path w"
  by (simp_all add: disable_in_def)

lemma disable_in_state: "wf_state w \<noteq> [] \<Longrightarrow> wf_state (disable_in ids w) \<noteq> []"
  by (simp add: disable_in_def)

lemma disable_in_empty [simp]: "disable_in {} = (\<lambda>w. w)"
  by (rule ext) (simp add: disable_in_def)

lemma after_disables:
  "foldl apply_request G (map disable_request ids) = G\<lparr>gh_workflows := map (disable_in (set ids)) (gh_workflows G)\<rparr>"
proof (induction ids arbitrary: G)
  case (Cons i ids)
  have "apply_request G (disable_request i) = G\<lparr>gh_workflows := map (disable_in {i}) (gh_workflows G)\<rparr>"
    by (auto simp: apply_request_def disable_in_def)
  moreover have "disable_in (set ids) (disable_in {i} w) = disable_in (set (i # ids)) w" for w
    by (auto simp: disable_in_def)
  ultimately show ?case using Cons by simp
qed simp

lemma after_deletes:
  "foldl apply_request G (map delete_request ids) = G\<lparr>gh_runs := filter (\<lambda>r. run_id r \<notin> set ids) (gh_runs G)\<rparr>"
proof (induction ids arbitrary: G)
  case (Cons i ids)
  have "apply_request G (delete_request i) = G\<lparr>gh_runs := filter (\<lambda>r. i \<noteq> run_id r) (gh_runs G)\<rparr>"
    by (simp add: apply_request_def)
  with Cons show ?case by (simp add: eq_commute [of i])
qed simp

text \<open>The service after a retirement.\<close>

definition retired_service :: "github \<Rightarrow> github" where
  "retired_service g = g\<lparr>
     gh_workflows := map (\<lambda>w. if List.member LEGACY_PATHS (wf_path w) then w\<lparr>wf_state := ''disabled_manually''\<rparr> else w) (gh_workflows g),
     gh_runs := filter (\<lambda>r. \<not> List.member (legacy_ids (snapshot_of g)) (run_workflow r)) (gh_runs g)\<rparr>"

lemma legacy_ids_of: "legacy_ids (snapshot_of g) = map (\<lambda>p. wf_id (workflow_at g p)) LEGACY_PATHS"
  by (simp add: legacy_ids_def snapshot_of_def LEGACY_PATHS_def)

lemma set_legacy_runs: "set (legacy_runs (snapshot_of g)) = {r \<in> set (gh_runs g). run_workflow r \<in> set (legacy_ids (snapshot_of g))}"
proof -
  have "legacy_runs (snapshot_of g) = concat (map (\<lambda>p. sort_key run_id (runs_of g (wf_id (workflow_at g p)))) LEGACY_PATHS)"
    by (simp add: legacy_runs_def snapshot_of_def comp_def)
  then show ?thesis by (auto simp: legacy_ids_of runs_of_def)
qed

lemma legacy_id_iff:
  assumes g: "before_migration g" and w: "w \<in> set (gh_workflows g)"
  shows "wf_id w \<in> set (legacy_ids (snapshot_of g)) \<longleftrightarrow> wf_path w \<in> set LEGACY_PATHS"
proof
  assume "wf_id w \<in> set (legacy_ids (snapshot_of g))"
  then obtain p where p: "p \<in> set LEGACY_PATHS" "wf_id w = wf_id (workflow_at g p)" by (auto simp: legacy_ids_of)
  have "inj_on wf_id (set (gh_workflows g))"
    using g by (simp add: before_migration_def catalog_ok_def distinct_map)
  with p(2) w workflow_at(1) [OF g p(1)] have "w = workflow_at g p" by (auto dest: inj_onD)
  then show "wf_path w \<in> set LEGACY_PATHS" using p(1) workflow_at(2) [OF g p(1)] by simp
next
  assume p: "wf_path w \<in> set LEGACY_PATHS"
  from w have "w \<in> set (filter (\<lambda>v. wf_path v = wf_path w) (gh_workflows g))" by simp
  then have "w = workflow_at g (wf_path w)" using workflow_at(3) [OF g p] by simp
  then have "wf_id w = wf_id (workflow_at g (wf_path w))" by (rule arg_cong)
  then show "wf_id w \<in> set (legacy_ids (snapshot_of g))" using p unfolding legacy_ids_of set_map by (rule image_eqI)
qed

text \<open>Disabling and deleting leave a service before the migration.\<close>

lemma before_migration_disable:
  assumes "before_migration g"
  shows "before_migration (g\<lparr>gh_workflows := map (disable_in ids) (gh_workflows g)\<rparr>)"
    (is "before_migration ?h")
proof -
  have "run_belongs (disable_in ids w) r = run_belongs w r" for w r by (simp add: run_belongs_def)
  moreover have "catalog_ok (gh_workflows ?h)"
    using assms disable_in_state by (auto simp: before_migration_def catalog_ok_def list_all_iff comp_def)
  ultimately show ?thesis using assms
    by (simp add: before_migration_def list_all_iff runs_of_def image_comp comp_def)
qed

lemma before_migration_runs:
  assumes "before_migration g"
  shows "before_migration (g\<lparr>gh_runs := filter P (gh_runs g)\<rparr>)"
  using assms by (auto simp: before_migration_def list_all_iff runs_of_def distinct_map intro: inj_on_subset)

lemma workflow_at_disable: 
  assumes "before_migration g" and "p \<in> set LEGACY_PATHS"
  shows "workflow_at (g\<lparr>gh_workflows := map (disable_in ids) (gh_workflows g)\<rparr>) p = disable_in ids (workflow_at g p)"
proof -
  have "filter (\<lambda>w. wf_path w = p) (gh_workflows g) \<noteq> []" using workflow_at(3) [OF assms] by simp
  then show ?thesis by (simp add: workflow_at_def filter_map comp_def hd_map)
qed

lemma snapshot_runs [simp]: "workflow_at (g\<lparr>gh_runs := rs\<rparr>) p = workflow_at g p"
  by (simp add: workflow_at_def)

lemma readsD: "reads g m G x \<Longrightarrow> sees g G w c \<Longrightarrow> \<exists>c'. m c = (Inr x, c') \<and> sees g G w c'"
  by (simp add: reads_def)

lemma retire_served:
  assumes g: "before_migration g" and quiet: "\<not> list_ex is_active (legacy_runs (snapshot_of g))"
    and receipt: "write_receipt names (snapshot_of (retired_service g)) p w = (Inr (), w')"
  shows "\<exists>c'. retire (honest g) names (snapshot_of g) (apply_token (snapshot_of g)) p \<lparr>c_requests = [], c_world = w\<rparr>
      = (Inr (), c') \<and> after g (c_requests c') = retired_service g \<and> c_world c' = w'"
proof -
  let ?s = "snapshot_of g"
  define D where "D = g\<lparr>gh_workflows := map (disable_in (set (legacy_ids ?s))) (gh_workflows g)\<rparr>"
  define E where "E = D\<lparr>gh_runs := filter (\<lambda>r. run_id r \<notin> set (runs_to_delete ?s)) (gh_runs D)\<rparr>"
  have bD: "before_migration D" unfolding D_def by (rule before_migration_disable [OF g])
  have bE: "before_migration E" unfolding E_def by (rule before_migration_runs [OF bD])
  have ids: "legacy_ids (snapshot_of D) = legacy_ids ?s" "legacy_ids (snapshot_of E) = legacy_ids ?s"
    by (simp_all add: legacy_ids_of E_def) (simp_all add: D_def workflow_at_disable [OF g])
  have runsD: "set (legacy_runs (snapshot_of D)) = set (legacy_runs ?s)"
    unfolding set_legacy_runs ids by (simp add: D_def)
  have state: "wf_state (workflow_at D p) = ''disabled_manually''" if "p \<in> set LEGACY_PATHS" for p
    using that unfolding D_def workflow_at_disable [OF g that] by (auto simp: disable_in_def legacy_ids_of)
  have "check_disabled ?s (snapshot_of D) = Inr ()"
    unfolding check_disabled_Inr using ids(1) runsD quiet state
    by (auto simp: list_all_iff list_ex_iff) (auto simp: snapshot_of_def D_def)
  moreover have "check_retired ?s (snapshot_of E) = Inr ()"
  proof -
    have "runs_of E (wf_id (workflow_at E p)) = []" if "p \<in> set LEGACY_PATHS" for p
    proof -
      have "wf_id (workflow_at E p) \<in> set (legacy_ids ?s)"
        using that ids(2) by (auto simp: legacy_ids_of)
      then show ?thesis
        by (auto simp: runs_of_def E_def D_def runs_to_delete_def filter_empty_conv set_legacy_runs)
    qed
    then show ?thesis unfolding check_retired_Inr using ids(2) state
      by (auto simp: list_all_iff) (auto simp: snapshot_of_def D_def E_def)
  qed
  moreover have E: "E = retired_service g"
  proof -
    have w: "disable_in (set (legacy_ids ?s)) w
        = (if List.member LEGACY_PATHS (wf_path w) then w\<lparr>wf_state := ''disabled_manually''\<rparr> else w)"
      if "w \<in> set (gh_workflows g)" for w
      using legacy_id_iff [OF g that] by (simp add: disable_in_def)
    have "inj_on run_id (set (gh_runs g))" using g by (simp add: before_migration_def distinct_map)
    then have r: "run_id r \<in> set (runs_to_delete ?s) \<longleftrightarrow> run_workflow r \<in> set (legacy_ids ?s)" if "r \<in> set (gh_runs g)" for r
      using that by (auto simp: runs_to_delete_def set_legacy_runs dest: inj_onD)
    show ?thesis using w r by (simp add: E_def D_def retired_service_def cong: filter_cong)
  qed
  ultimately have checks: "check_disabled ?s (snapshot_of D) = Inr ()" "check_retired ?s (snapshot_of E) = Inr ()" by auto
  let ?c = "\<lparr>c_requests = [], c_world = w\<rparr>"
  have s0: "sees g g w ?c" by (simp add: sees_def)
  obtain us c1 where 1: "mapA (send (honest g)) (map disable_request (legacy_ids ?s)) ?c = (Inr us, c1)" "sees g D w c1"
    using send_all_served [OF _ s0, of "map disable_request (legacy_ids ?s)"] unfolding after_disables D_def by auto
  obtain c2 where 2: "collect_pre_migration_snapshot (honest g) c1 = (Inr (snapshot_of D), c2)" "sees g D w c2"
    using readsD [OF reads_snapshot [OF bD] 1(2)] by blast
  obtain vs c3 where 3: "mapA (send (honest g)) (map delete_request (runs_to_delete ?s)) c2 = (Inr vs, c3)" "sees g E w c3"
    using send_all_served [OF _ 2(2), of "map delete_request (runs_to_delete ?s)"] unfolding after_deletes E_def by auto
  obtain c4 where 4: "collect_pre_migration_snapshot (honest g) c3 = (Inr (snapshot_of E), c4)" "sees g E w c4"
    using readsD [OF reads_snapshot [OF bE] 3(2)] by blast
  have "retire (honest g) names ?s (apply_token ?s) p ?c = (Inr (), c4\<lparr>c_world := w'\<rparr>)"
    using quiet receipt 4(2) unfolding retire_def bindA_def
    by (simp add: 1(1) 2(1) 3(1) 4(1) checks(1) checks(2) [unfolded E] liftA_def osA_def sees_def E)
  then show ?thesis using 4(2) E by (simp add: sees_def)
qed

end
