(* ===== verification/Receipts_Props.thy ===== *)
theory Receipts_Props
  imports Retirement_Props
begin

text \<open>
  Putting the receipt in place is atomic: in a file system that nobody else changes, whatever call fails,
  the path leads to what it led to before or to the whole receipt.
\<close>

section \<open>A file system that only the script changes\<close>

text \<open>Calls may fail and transfers may be short, but nobody else touches the files.\<close>

definition still :: "world \<Rightarrow> bool" where
  "still w \<longleftrightarrow> list_all (\<lambda>ev. ev_change ev = id) (w_schedule w)"

text \<open>Inode numbers above the next one are free.\<close>

definition fs_ok :: "world \<Rightarrow> bool" where
  "fs_ok w \<longleftrightarrow> (\<forall>ino. fs_next (w_fs w) \<le> ino \<longrightarrow> fs_inode (w_fs w) ino = None)
     \<and> (\<forall>q ino. fs_path (w_fs w) q = Some ino \<longrightarrow> ino < fs_next (w_fs w))"

definition at_path :: "world \<Rightarrow> path \<Rightarrow> content option" where
  "at_path w p = (case lookup_path w p of None \<Rightarrow> None | Some (ino, n) \<Rightarrow> Some (n_content n))"

definition no_folder :: "content option \<Rightarrow> bool" where
  "no_folder c \<longleftrightarrow> (\<forall>es. c \<noteq> Some (Folder es))"

text \<open>What the path leads to stays as it is.\<close>

definition leaves :: "path \<Rightarrow> 'a io \<Rightarrow> bool" where
  "leaves p m \<longleftrightarrow> (\<forall>w r w'. still w \<longrightarrow> fs_ok w \<longrightarrow> no_folder (at_path w p) \<longrightarrow> m w = (r, w') \<longrightarrow>
     still w' \<and> fs_ok w' \<and> at_path w' p = at_path w p)"

lemma leavesD:
  "leaves p m \<Longrightarrow> still w \<Longrightarrow> fs_ok w \<Longrightarrow> no_folder (at_path w p) \<Longrightarrow> m w = (r, w') \<Longrightarrow>
   still w' \<and> fs_ok w' \<and> at_path w' p = at_path w p"
  unfolding leaves_def by blast

lemma leavesI:
  "(\<And>w r w'. still w \<Longrightarrow> fs_ok w \<Longrightarrow> no_folder (at_path w p) \<Longrightarrow> m w = (r, w') \<Longrightarrow>
   still w' \<and> fs_ok w' \<and> at_path w' p = at_path w p) \<Longrightarrow> leaves p m"
  unfolding leaves_def by blast

named_theorems leaves_intro \<open>which scripts leave a path alone\<close>

lemma leaves_pure [leaves_intro]: "leaves p (returnI x)" "leaves p (raiseI e)" "leaves p (liftI s)"
  by (auto simp: leaves_def returnI_def raiseI_def liftI_def)

lemma leaves_bindI [leaves_intro]: "leaves p m \<Longrightarrow> (\<And>x. leaves p (f x)) \<Longrightarrow> leaves p (bindI m f)"
proof (rule leavesI)
  fix w r w' assume m: "leaves p m" and f: "\<And>x. leaves p (f x)"
    and w: "still w" "fs_ok w" "no_folder (at_path w p)" and run: "bindI m f w = (r, w')"
  obtain r1 w1 where 1: "m w = (r1, w1)" by (cases "m w")
  note k = leavesD [OF m w 1]
  show "still w' \<and> fs_ok w' \<and> at_path w' p = at_path w p"
  proof (cases r1)
    case (Inr x)
    then have "f x w1 = (r, w')" using run 1 by (simp add: bindI_def)
    then show ?thesis using leavesD [OF f [of x], of w1 r w'] k w by simp
  qed (use run 1 k in \<open>simp add: bindI_def\<close>)
qed

lemma leaves_if [leaves_intro]: "leaves p m \<Longrightarrow> leaves p k \<Longrightarrow> leaves p (if b then m else k)"
  by simp

text \<open>A system call in a still world: it fails without effect, or it acts on the same files.\<close>

definition same_files :: "world \<Rightarrow> world \<Rightarrow> bool" where
  "same_files w v \<longleftrightarrow> w_fs v = w_fs w \<and> w_fds v = w_fds w \<and> w_pos v = w_pos w"

lemma still_syscall:
  assumes "still w" and "syscall act w = (r, w')"
  obtains (fault) "r = Inl (OSError ''fault'')" "same_files w w'" "still w'"
  | (effect) limit v where "act limit v = (r, w')" "same_files w v" "still v"
  using assms by (cases "w_schedule w")
    (auto simp: syscall_def same_files_def still_def Let_def split: if_split_asm)

lemma same_fs:
  assumes "w_fs v = w_fs w"
  shows "lookup_path v p = lookup_path w p" "at_path v p = at_path w p" "fs_ok v = fs_ok w"
  using assms by (auto simp: lookup_path_def at_path_def fs_ok_def split: option.splits)

lemma same_files_simps:
  assumes "same_files w v"
  shows "lookup_path v p = lookup_path w p" "at_path v p = at_path w p" "fs_ok v = fs_ok w" "inode_of v fd = inode_of w fd"
  using assms by (auto simp: same_files_def lookup_path_def at_path_def fs_ok_def inode_of_def split: option.splits)

lemma leaves_syscall:
  assumes "\<And>limit v r w'. still v \<Longrightarrow> fs_ok v \<Longrightarrow> no_folder (at_path v p) \<Longrightarrow> act limit v = (r, w') \<Longrightarrow>
     still w' \<and> fs_ok w' \<and> at_path w' p = at_path v p"
  shows "leaves p (syscall act)"
proof (rule leavesI)
  fix w r w' assume "still w" "fs_ok w" "no_folder (at_path w p)" "syscall act w = (r, w')"
  from this(1,4) show "still w' \<and> fs_ok w' \<and> at_path w' p = at_path w p"
  proof (cases rule: still_syscall)
    case fault
    then show ?thesis using same_files_simps \<open>fs_ok w\<close> by auto
  next
    case (effect limit v)
    then show ?thesis using same_files_simps [OF effect(2)] assms [OF effect(3) _ _ effect(1)] \<open>fs_ok w\<close> \<open>no_folder _\<close> by simp
  qed
qed

lemma schedule_set_inode [simp]: "w_schedule (set_inode ino n w) = w_schedule w"
  by (simp add: set_inode_def)

lemma enter_path_leaves:
  assumes "still w" "fs_ok w" "no_folder (at_path w p)" "q \<noteq> p"
    and d: "lookup_path w d = Some (dino, dn)" "n_content dn = Folder es"
    and e: "enter_path q perm content dino dn es w = (ino, w')"
  shows "still w' \<and> fs_ok w' \<and> at_path w' p = at_path w p \<and> ino = fs_next (w_fs w) \<and> w_fds w' = w_fds w
    \<and> lookup_path w' q = Some (ino, \<lparr>n_dev = n_dev dn, n_content = content, n_perm = perm, n_nlink = 1,
        n_mtime = fs_clock (w_fs w), n_ctime = fs_clock (w_fs w)\<rparr>)"
proof -
  from d have dino: "fs_inode (w_fs w) dino = Some dn" by (auto simp: lookup_path_def split: option.splits)
  then have lt: "dino < fs_next (w_fs w)" using assms(2) by (fastforce simp: fs_ok_def not_less [symmetric])
  have p: "fs_path (w_fs w) p \<noteq> Some dino"
    using assms(3) dino d(2) by (auto simp: no_folder_def at_path_def lookup_path_def)
  have n: "fs_path (w_fs w) p \<noteq> Some (fs_next (w_fs w))" using assms(2) by (auto simp: fs_ok_def)
  have ino: "ino = fs_next (w_fs w)" using e by (simp add: enter_path_def Let_def)
  have "fs_path (w_fs w') = (fs_path (w_fs w))(q \<mapsto> ino)" "fs_next (w_fs w') = Suc ino" "w_schedule w' = w_schedule w"
    "w_fds w' = w_fds w" and inodes: "\<And>j. j \<noteq> ino \<Longrightarrow> j \<noteq> dino \<Longrightarrow> fs_inode (w_fs w') j = fs_inode (w_fs w) j"
    and new: "fs_inode (w_fs w') ino = Some \<lparr>n_dev = n_dev dn, n_content = content, n_perm = perm, n_nlink = 1,
        n_mtime = fs_clock (w_fs w), n_ctime = fs_clock (w_fs w)\<rparr>"
    using e by (auto simp: enter_path_def Let_def set_inode_def)
  note w' = this
  have "at_path w' p = at_path w p"
    using w'(1) inodes p n assms(4) ino by (auto simp: at_path_def lookup_path_def split: option.splits)
  moreover have "fs_ok w'"
    using assms(2) w'(1,2) inodes lt ino by (auto simp: fs_ok_def less_Suc_eq split: if_split_asm)
  ultimately show ?thesis using assms(1) w'(1,3,4) ino new by (simp add: still_def lookup_path_def)
qed

lemma leaves_mkdir [leaves_intro]:
  assumes "q \<noteq> p" shows "leaves p (os_mkdir q)"
  unfolding os_mkdir_def
proof (rule leaves_syscall)
  fix v r w'
  assume v: "still v" "fs_ok v" "no_folder (at_path v p)"
    and run: "(case lookup_path v q of
       Some _ \<Rightarrow> (Inr Not_made, v)
     | None \<Rightarrow> (case lookup_path v (butlast q) of
           None \<Rightarrow> (Inr Missing_parent, v)
         | Some (dino, dn) \<Rightarrow> (case n_content dn of
               Folder es \<Rightarrow> (Inr Made, snd (enter_path q 511 (Folder []) dino dn es v))
             | _ \<Rightarrow> (Inr Not_made, v)))) = (r, w')"
  show "still w' \<and> fs_ok w' \<and> at_path w' p = at_path v p"
  proof (cases "lookup_path v q = None \<and> (\<exists>dino dn es. lookup_path v (butlast q) = Some (dino, dn) \<and> n_content dn = Folder es)")
    case True
    then obtain dino dn es where d: "lookup_path v q = None" "lookup_path v (butlast q) = Some (dino, dn)"
      "n_content dn = Folder es" by blast
    then have "w' = snd (enter_path q 511 (Folder []) dino dn es v)" using run by simp
    with enter_path_leaves [OF v assms d(2,3) surjective_pairing] show ?thesis by simp
  next
    case False
    then have "w' = v" using run by (cases "lookup_path v q"; cases "lookup_path v (butlast q)") (auto split: content.splits)
    then show ?thesis using v by simp
  qed
qed

lemma leaves_is_dir [leaves_intro]: "leaves p (path_is_dir q)"
  unfolding path_is_dir_def by (rule leaves_syscall) (auto split: option.splits)

lemma leaves_mkdir_exist_ok [leaves_intro]:
  assumes "q \<noteq> p" "leaves p missing"
  shows "leaves p (mkdir_exist_ok q missing)"
proof (rule leavesI)
  fix w r w' assume w: "still w" "fs_ok w" "no_folder (at_path w p)" "mkdir_exist_ok q missing w = (r, w')"
  obtain r1 w1 where m: "os_mkdir q w = (r1, w1)" by (cases "os_mkdir q w")
  note k = leavesD [OF leaves_mkdir [OF assms(1)] w(1-3) m]
  have a: "leaves p (accept_directory q e)" for e
    unfolding accept_directory_def by (intro leaves_intro)
  have n: "no_folder (at_path w1 p)" using k w(3) by simp
  consider "w' = w1" | e where "accept_directory q e w1 = (r, w')" | "missing w1 = (r, w')"
    using w(4) m by (auto simp: mkdir_exist_ok_def split: sum.splits made.splits if_splits)
  then show "still w' \<and> fs_ok w' \<and> at_path w' p = at_path w p"
  proof cases
    case (2 e)
    show ?thesis using leavesD [OF a _ _ n 2] k by simp
  next
    case 3
    show ?thesis using leavesD [OF assms(2) _ _ n 3] k by simp
  qed (use k in simp)
qed

lemma leaves_make_dirs: "length q < length p \<Longrightarrow> leaves p (make_dirs q)"
proof (induction q rule: make_dirs.induct)
  case (1 q)
  have "leaves p (if q = [] then raiseI (OSError ''mkdir'')
        else bindI (make_dirs (butlast q)) (\<lambda>_. mkdir_exist_ok q (raiseI (OSError ''mkdir''))))"
    using 1 by (cases "q = []") (auto intro!: leaves_pure leaves_bindI leaves_mkdir_exist_ok)
  then show ?case using 1(2) by (subst make_dirs.simps) (rule leaves_mkdir_exist_ok, auto)
qed


section \<open>The temporary file\<close>

text \<open>A new file that the path does not lead to, open at its end.\<close>

definition fresh_file :: "path \<Rightarrow> path \<Rightarrow> nat \<Rightarrow> bytes \<Rightarrow> world \<Rightarrow> bool" where
  "fresh_file p q fd b w \<longleftrightarrow> (\<exists>ino n. map_of (w_fds w) fd = Some ino \<and> lookup_path w q = Some (ino, n) \<and> n_content n = File b
     \<and> w_pos w fd = length b \<and> fs_path (w_fs w) p \<noteq> Some ino)"

lemma create_new_fresh:
  assumes w: "still w" "fs_ok w" "no_folder (at_path w p)" "q \<noteq> p" and run: "os_create_new q perm w = (r, w')"
  shows "still w' \<and> fs_ok w' \<and> at_path w' p = at_path w p \<and> (\<forall>fd. r = Inr (Some fd) \<longrightarrow> fresh_file p q fd [] w')"
  using w(1) run unfolding os_create_new_def
proof (cases rule: still_syscall)
  case fault
  then show ?thesis using same_files_simps w by auto
next
  case (effect limit v)
  have v: "still v" "fs_ok v" "no_folder (at_path v p)" using effect same_files_simps w by auto
  show ?thesis
  proof (cases "lookup_path v q = None \<and> (\<exists>dino dn es. lookup_path v (butlast q) = Some (dino, dn) \<and> n_content dn = Folder es)")
    case True
    then obtain dino dn es where d: "lookup_path v q = None" "lookup_path v (butlast q) = Some (dino, dn)"
      "n_content dn = Folder es" by blast
    obtain ino w1 where e: "enter_path q perm (File []) dino dn es v = (ino, w1)"
      by (cases "enter_path q perm (File []) dino dn es v")
    note k = enter_path_leaves [OF v w(4) d(2,3) e]
    have r: "r = Inr (Some (fresh_fd w1))"
      and w': "w' = w1\<lparr>w_fds := (fresh_fd w1, ino) # w_fds w1, w_pos := (w_pos w1)(fresh_fd w1 := 0)\<rparr>"
      using effect(1) d e by (auto simp: new_fd_def Let_def)
    have p: "fs_path (w_fs w1) p \<noteq> Some ino"
    proof -
      have "fs_path (w_fs v) p \<noteq> Some (fs_next (w_fs v))" using v(2) by (auto simp: fs_ok_def)
      moreover have "fs_path (w_fs w1) p = fs_path (w_fs v) p"
        using e w(4) by (auto simp: enter_path_def Let_def set_inode_def)
      ultimately show ?thesis using k by simp
    qed
    have same: "at_path w' x = at_path w1 x" "lookup_path w' x = lookup_path w1 x" "fs_ok w' = fs_ok w1" "still w' = still w1" for x
      using same_fs [of w' w1] by (simp_all add: w' still_def)
    have "fresh_file p q (fresh_fd w1) [] w'"
      unfolding fresh_file_def using k p same(2) by (intro exI [of _ ino]) (auto simp: w')
    then show ?thesis using k same r same_files_simps(2) [OF effect(2)] by simp
  next
    case False
    then have "w' = v \<and> (\<forall>fd. r \<noteq> Inr (Some fd))" using effect(1)
      by (cases "lookup_path v q"; cases "lookup_path v (butlast q)") (auto simp: fail_def split: content.splits)
    then show ?thesis using v effect(2) same_files_simps by auto
  qed
qed

lemma create_temp_fresh:
  assumes "still w" "fs_ok w" "no_folder (at_path w p)" "\<And>s. d @ [name_prefix @ s] \<noteq> p"
    and "create_temp d name_prefix names w = (r, w')"
  shows "still w' \<and> fs_ok w' \<and> at_path w' p = at_path w p
    \<and> (\<forall>q fd. r = Inr (q, fd) \<longrightarrow> q \<noteq> p \<and> butlast q = d \<and> fresh_file p q fd [] w')"
  using assms(1-3,5)
proof (induction names arbitrary: w)
  case Nil
  then show ?case by (auto simp: raiseI_def)
next
  case (Cons s names)
  obtain r1 w1 where o: "os_create_new (d @ [name_prefix @ s]) 384 w = (r1, w1)"
    by (cases "os_create_new (d @ [name_prefix @ s]) 384 w")
  note k = create_new_fresh [OF Cons.prems(1-3) assms(4) o]
  have n: "no_folder (at_path w1 p)" using k Cons.prems(3) by simp
  show ?case
  proof (cases "r1 = Inr None")
    case True
    then have "create_temp d name_prefix names w1 = (r, w')" using Cons.prems(4) o by (simp add: bindI_def)
    from Cons.IH [OF _ _ n this] k show ?thesis by simp
  next
    case False
    then show ?thesis using Cons.prems(4) o k assms(4)
      by (auto simp: bindI_def returnI_def split: sum.splits option.splits)
  qed
qed


definition temp_file :: "path \<Rightarrow> path \<Rightarrow> bytes \<Rightarrow> world \<Rightarrow> bool" where
  "temp_file p q b w \<longleftrightarrow> (\<exists>ino n. lookup_path w q = Some (ino, n) \<and> n_content n = File b \<and> fs_path (w_fs w) p \<noteq> Some ino)"

lemma fresh_same: "same_files w v \<Longrightarrow> fresh_file p q fd b v = fresh_file p q fd b w"
  unfolding fresh_file_def same_files_simps by (simp add: same_files_def)

lemma fresh_temp: "fresh_file p q fd b w \<Longrightarrow> temp_file p q b w"
  by (auto simp: fresh_file_def temp_file_def)

lemma lookup_pathD: "lookup_path w q = Some (ino, n) \<longleftrightarrow> fs_path (w_fs w) q = Some ino \<and> fs_inode (w_fs w) ino = Some n"
  by (auto simp: lookup_path_def split: option.splits)

lemma at_path_iff: "at_path w p = c \<longleftrightarrow> (case fs_path (w_fs w) p of None \<Rightarrow> c = None
     | Some ino \<Rightarrow> c = map_option n_content (fs_inode (w_fs w) ino))"
  by (auto simp: at_path_def lookup_path_def split: option.splits)

lemma set_inode_leaves:
  assumes "fs_ok w" "fs_inode (w_fs w) ino = Some n" "fs_path (w_fs w) p \<noteq> Some ino \<or> n_content n' = n_content n"
  shows "fs_ok (set_inode ino n' w) \<and> at_path (set_inode ino n' w) p = at_path w p"
  using assms by (auto simp: fs_ok_def set_inode_def at_path_iff split: option.splits)

lemma write_fresh:
  assumes w: "still w" "fs_ok w" "fresh_file p q fd b w" and run: "os_write fd view w = (r, w')"
  shows "still w' \<and> fs_ok w' \<and> at_path w' p = at_path w p
    \<and> (case r of Inl e \<Rightarrow> fresh_file p q fd b w' | Inr k \<Rightarrow> fresh_file p q fd (b @ take k view) w')"
  using w(1) run unfolding os_write_def
proof (cases rule: still_syscall)
  case fault
  then show ?thesis using same_files_simps [OF fault(2)] fresh_same [OF fault(2)] w by simp
next
  case (effect limit v)
  obtain ino n where fd: "map_of (w_fds w) fd = Some ino" and q: "lookup_path w q = Some (ino, n)" "n_content n = File b"
    and pos: "w_pos w fd = length b" and p: "fs_path (w_fs w) p \<noteq> Some ino"
    using w(3) by (auto simp: fresh_file_def)
  note same = effect(2) [unfolded same_files_def]
  have n: "fs_inode (w_fs v) ino = Some n" and path: "fs_path (w_fs v) q = Some ino" using q same by (auto simp: lookup_pathD)
  define k where "k = (case limit of None \<Rightarrow> length view | Some m \<Rightarrow> min (length view) m)"
  define n' where "n' = n\<lparr>n_content := File (b @ take k view), n_mtime := fs_clock (w_fs v), n_ctime := fs_clock (w_fs v)\<rparr>"
  define u where "u = v\<lparr>w_pos := (w_pos v)(fd := length b + k)\<rparr>"
  have r: "r = Inr k" and w': "w' = set_inode ino n' u"
    using effect(1) fd n q(2) pos same by (auto simp: inode_of_def Let_def k_def n'_def u_def)
  have u: "fs_ok u" "at_path u p = at_path w p" "w_fs u = w_fs v"
    using w(2) same_files_simps [OF effect(2)] same_fs [of u v] by (simp_all add: u_def)
  have "fs_path (w_fs u) p \<noteq> Some ino" "fs_inode (w_fs u) ino = Some n" using p same n u(3) by simp_all
  with set_inode_leaves [OF u(1), of ino n p n'] have "fs_ok w' \<and> at_path w' p = at_path w p" using u(2) w' by simp
  moreover have "fresh_file p q fd (b @ take k view) w'"
    unfolding fresh_file_def lookup_pathD using fd path p same
    by (intro exI [of _ ino] exI [of _ n']) (auto simp: w' u_def set_inode_def n'_def k_def split: option.split)
  moreover have "still w'" using effect(3) by (simp add: w' u_def still_def)
  ultimately show ?thesis by (simp add: r)
qed

lemma write_loop_fresh:
  assumes "still w" "fs_ok w" "fresh_file p q fd b w" and "write_loop fd k m view w = (r, w')"
  shows "still w' \<and> fs_ok w' \<and> at_path w' p = at_path w p
    \<and> (\<exists>b'. fresh_file p q fd b' w' \<and> (r = Inr () \<longrightarrow> b' = b @ view))"
  using assms
proof (induction fd k m view w arbitrary: b rule: write_loop.induct)
  case (1 fd k m view w)
  show ?case
  proof (cases "view = []")
    case True
    then show ?thesis using 1(2-5) by (auto simp: write_loop.simps)
  next
    case False
    obtain r1 w1 where o: "os_write fd (take k view) w = (r1, w1)" by (cases "os_write fd (take k view) w")
    note f = write_fresh [OF 1(2-4) o]
    show ?thesis
    proof (cases "\<exists>n. r1 = Inr n \<and> n \<noteq> 0")
      case True
      then obtain n where n: "r1 = Inr n" "n \<noteq> 0" by blast
      then have run: "write_loop fd k m (drop n view) w1 = (r, w')" using 1(5) False o by (subst (asm) write_loop.simps) simp
      have le: "n \<le> length (take k view)" 
        using o n(1) by (auto simp: os_write_def syscall_def fail_def Let_def split: list.splits option.splits prod.splits content.splits if_splits)
      from f n(1) have f1: "fresh_file p q fd (b @ take n (take k view)) w1" by simp
      from 1(1) [OF False o [symmetric] n(1) n(2) _ _ f1 run] f obtain b' where
        "still w' \<and> fs_ok w' \<and> at_path w' p = at_path w1 p" "fresh_file p q fd b' w'"
        "r = Inr () \<longrightarrow> b' = (b @ take n (take k view)) @ drop n view" by blast
      moreover have "take n (take k view) @ drop n view = view" using le by (auto simp: min_def split: if_splits)
      ultimately show ?thesis using f by (metis append.assoc)
    next
      case False
      then have "w' = w1 \<and> r \<noteq> Inr ()" using 1(5) \<open>view \<noteq> []\<close> o by (subst (asm) write_loop.simps) (auto split: sum.splits)
      then show ?thesis using f by (auto split: sum.splits)
    qed
  qed
qed


section \<open>Putting the receipt in place\<close>

lemma calls_on_temp:
  assumes w: "still w" "fs_ok w" "temp_file p q b w" and run: "os_fsync fd w = (r, w') \<or> os_close fd w = (r, w')"
  shows "still w' \<and> fs_ok w' \<and> at_path w' p = at_path w p \<and> temp_file p q b w'"
proof -
  have fs: "w_fs w' = w_fs w \<and> still w'"
    using run
  proof
    assume "os_fsync fd w = (r, w')"
    then show ?thesis using w(1)
      by (cases "w_schedule w") (auto simp: os_fsync_def syscall_def fail_def still_def Let_def split: option.splits if_splits)
  next
    assume "os_close fd w = (r, w')"
    then show ?thesis using w(1)
      by (cases "w_schedule w") (auto simp: os_close_def syscall_def fail_def still_def Let_def split: option.splits if_splits)
  qed
  show ?thesis using fs w same_fs [of w' w] by (simp add: temp_file_def)
qed

lemma fill_temp_leaves:
  assumes w: "still w" "fs_ok w" "fresh_file p q fd [] w" and run: "fill_temp fd payload w = (r, w')"
  shows "still w' \<and> fs_ok w' \<and> at_path w' p = at_path w p \<and> (r = Inr () \<longrightarrow> temp_file p q payload w')"
proof -
  obtain r1 w1 where 1: "write_loop fd (length payload) ''write'' payload w = (r1, w1)"
    by (cases "write_loop fd (length payload) ''write'' payload w")
  from write_loop_fresh [OF w 1] obtain b where
    k: "still w1" "fs_ok w1" "at_path w1 p = at_path w p" "temp_file p q b w1" "r1 = Inr () \<longrightarrow> b = payload"
    using fresh_temp by fastforce
  obtain r2 w2 where 2: "(case r1 of Inl e \<Rightarrow> (Inl e, w1) | Inr x \<Rightarrow> os_fsync fd w1) = (r2, w2)"
    by (cases "case r1 of Inl e \<Rightarrow> (Inl e, w1) | Inr x \<Rightarrow> os_fsync fd w1")
  have k2: "still w2 \<and> fs_ok w2 \<and> at_path w2 p = at_path w1 p \<and> temp_file p q b w2"
    using 2 calls_on_temp [OF k(1,2,4), of fd r2 w2] k by (cases r1) auto
  obtain r3 w3 where 3: "os_close fd w2 = (r3, w3)" by (cases "os_close fd w2")
  have k3: "still w3 \<and> fs_ok w3 \<and> at_path w3 p = at_path w2 p \<and> temp_file p q b w3"
    using calls_on_temp [of w2 p q b fd r3 w3] k2 3 by simp
  have "w' = w3" "r = Inr () \<longrightarrow> r1 = Inr ()"
    using run 1 2 3 by (auto simp: fill_temp_def finallyI_def bindI_def split: sum.splits)
  then show ?thesis using k k2 k3 by auto
qed

lemma replace_temp:
  assumes w: "still w" "fs_ok w" "no_folder (at_path w p)" "temp_file p q payload w" "q \<noteq> p"
    and run: "os_replace q p w = (r, w')"
  shows "still w' \<and> fs_ok w' \<and> (if r = Inr () then at_path w' p = Some (File payload) else at_path w' p = at_path w p)"
  using w(1) run unfolding os_replace_def
proof (cases rule: still_syscall)
  case fault
  then show ?thesis using same_files_simps [OF fault(2)] w by simp
next
  case (effect limit v)
  note same = same_files_simps [OF effect(2)]
  have v: "still v" "fs_ok v" "no_folder (at_path v p)" using effect(3) same w by auto
  obtain ino n where q: "lookup_path v q = Some (ino, n)" "n_content n = File payload" and p: "fs_path (w_fs v) p \<noteq> Some ino"
    using w(4) same effect(2) by (auto simp: temp_file_def same_files_def)
  have old_ne: "old \<noteq> ino" if "lookup_path v p = Some (old, target)" for old target
    using that p by (simp add: lookup_pathD)
  show ?thesis
  proof (cases "butlast q = butlast p \<and> (\<exists>dino dn es. lookup_path v (butlast p) = Some (dino, dn) \<and> n_content dn = Folder es)
      \<and> (\<forall>old target. lookup_path v p = Some (old, target) \<longrightarrow> content_type (n_content target) \<noteq> Directory)")
    case False
    then have "w' = v \<and> r \<noteq> Inr ()"
      using effect(1) q old_ne by (cases "lookup_path v (butlast p)"; cases "lookup_path v p")
        (auto simp: fail_def Let_def split: content.splits if_splits)
    then show ?thesis using v same by simp
  next
    case True
    then obtain dino dn es where d: "butlast q = butlast p" "lookup_path v (butlast p) = Some (dino, dn)" "n_content dn = Folder es"
      and target: "\<And>old target. lookup_path v p = Some (old, target) \<Longrightarrow> content_type (n_content target) \<noteq> Directory" by blast
    define t where "t = fs_clock (w_fs v)"
    define x where "x = (case lookup_path v p of None \<Rightarrow> v
      | Some (old, target) \<Rightarrow> set_inode old (target\<lparr>n_nlink := n_nlink target - 1, n_ctime := t\<rparr>) v)"
    define dn' where "dn' = dn\<lparr>n_content := Folder ((path_name p, ino) # filter (\<lambda>e. fst e \<noteq> path_name p \<and> fst e \<noteq> path_name q) es),
       n_mtime := t, n_ctime := t\<rparr>"
    define y where "y = set_inode dino dn' x"
    have w': "r = Inr ()" "w' = y\<lparr>w_fs := (w_fs y)\<lparr>fs_path := (fs_path (w_fs y))(q := None, p \<mapsto> ino)\<rparr>\<rparr>"
      using effect(1) q d target old_ne
      by (auto simp: Let_def x_def y_def t_def dn'_def split: option.splits)
    have ino: "ino \<noteq> dino" using q d(2,3) by (auto simp: lookup_pathD)
    have inode_x: "fs_inode (w_fs x) ino = Some n" "fs_path (w_fs x) = fs_path (w_fs v)" "fs_ok x" "still x"
      using q p v by (auto simp: x_def lookup_pathD set_inode_def fs_ok_def still_def split: option.splits)
    have "fs_inode (w_fs y) ino = Some n" using inode_x(1) ino by (simp add: y_def set_inode_def)
    moreover have "fs_ok y"
    proof -
      have "dino < fs_next (w_fs x)" using inode_x(2,3) d(2) by (auto simp: fs_ok_def lookup_pathD)
      then show ?thesis using inode_x(3) by (auto simp: y_def fs_ok_def set_inode_def)
    qed
    moreover have "ino < fs_next (w_fs y)" using calculation by (fastforce simp: fs_ok_def not_less [symmetric])
    ultimately show ?thesis using w' q(2) inode_x(4)
      by (auto simp: at_path_iff fs_ok_def still_def y_def)
  qed
qed

lemma leaves_unlink: 
  assumes "q \<noteq> p" shows "leaves p (os_unlink q)"
  unfolding os_unlink_def
proof (rule leaves_syscall)
  fix v r w'
  assume v: "still v" "fs_ok v" "no_folder (at_path v p)"
    and run: "(case lookup_path v q of
       None \<Rightarrow> (Inr False, v)
     | Some (ino, n) \<Rightarrow>
         if content_type (n_content n) = Directory then fail ''unlink'' v
         else (case lookup_path v (butlast q) of
             None \<Rightarrow> fail ''unlink'' v
           | Some (dino, dn) \<Rightarrow> (case n_content dn of
                 Folder es \<Rightarrow> (Inr True, drop_path q ino n dino dn es v)
               | _ \<Rightarrow> fail ''unlink'' v))) = (r, w')"
  show "still w' \<and> fs_ok w' \<and> at_path w' p = at_path v p"
  proof (cases "\<exists>ino n dino dn es. lookup_path v q = Some (ino, n) \<and> content_type (n_content n) \<noteq> Directory
      \<and> lookup_path v (butlast q) = Some (dino, dn) \<and> n_content dn = Folder es")
    case False
    then have "w' = v" using run by (cases "lookup_path v q"; cases "lookup_path v (butlast q)") (auto simp: fail_def split: content.splits if_splits)
    then show ?thesis using v by simp
  next
    case True
    then obtain ino n dino dn es where q: "lookup_path v q = Some (ino, n)" "content_type (n_content n) \<noteq> Directory"
      and d: "lookup_path v (butlast q) = Some (dino, dn)" "n_content dn = Folder es" by blast
    define t where "t = fs_clock (w_fs v)"
    define x where "x = set_inode ino (n\<lparr>n_nlink := n_nlink n - 1, n_ctime := t\<rparr>) v"
    define dn' where "dn' = dn\<lparr>n_content := Folder (filter (\<lambda>e. fst e \<noteq> path_name q) es), n_mtime := t, n_ctime := t\<rparr>"
    have w': "w' = (set_inode dino dn' x)\<lparr>w_fs := (w_fs (set_inode dino dn' x))\<lparr>fs_path := (fs_path (w_fs (set_inode dino dn' x)))(q := None)\<rparr>\<rparr>"
      using run q d by (simp add: drop_path_def Let_def t_def x_def dn'_def)
    have 1: "fs_ok x \<and> at_path x p = at_path v p"
      unfolding x_def by (rule set_inode_leaves [OF v(2)]) (use q(1) in \<open>auto simp: lookup_pathD\<close>)
    have ne: "ino \<noteq> dino" using q d by (auto simp: lookup_pathD)
    have dino: "fs_inode (w_fs x) dino = Some dn" "fs_path (w_fs x) p \<noteq> Some dino"
      using d v(3) ne by (auto simp: x_def set_inode_def lookup_pathD no_folder_def at_path_iff)
    from set_inode_leaves [OF conjunct1 [OF 1] dino(1), of p dn'] dino(2) 1 have
      2: "fs_ok (set_inode dino dn' x)" "at_path (set_inode dino dn' x) p = at_path v p" by auto
    have "fs_ok w'" using 2(1) by (auto simp: w' fs_ok_def)
    moreover have "at_path w' p = at_path v p" using 2(2) assms by (auto simp: w' at_path_iff split: option.splits)
    moreover have "still w'" using v(1) by (simp add: w' still_def x_def)
    ultimately show ?thesis by simp
  qed
qed

lemma write_receipt_atomic:
  assumes w: "still w" "fs_ok w" "no_folder (at_path w p)" "p \<noteq> []" and run: "write_receipt names s p w = (r, w')"
  shows "if r = Inr () then at_path w' p = Some (File (receipt_payload s)) else at_path w' p = at_path w p"
proof -
  have ne: "butlast p @ [(''.'' @ path_name p @ ''.'') @ x] \<noteq> p" for x
  proof
    assume "butlast p @ [(''.'' @ path_name p @ ''.'') @ x] = p"
    then have "last p = (''.'' @ path_name p @ ''.'') @ x" by (metis last_snoc)
    then have "length (last p) = length ((''.'' @ path_name p @ ''.'') @ x)" by (rule arg_cong)
    then show False using w(4) by (simp add: path_name_def)
  qed
  obtain r1 w1 where 1: "make_dirs (butlast p) w = (r1, w1)" by (cases "make_dirs (butlast p) w")
  have "leaves p (make_dirs (butlast p))" by (rule leaves_make_dirs) (use w(4) in \<open>cases p; simp\<close>)
  note k1 = leavesD [OF this w(1-3) 1]
  show ?thesis
  proof (cases r1)
    case (Inl e)
    then show ?thesis using run 1 k1 by (auto simp: write_receipt_def bindI_def)
  next
    case (Inr u)
    obtain r2 w2 where 2: "create_temp (butlast p) (''.'' @ path_name p @ ''.'') names w1 = (r2, w2)"
      by (cases "create_temp (butlast p) (''.'' @ path_name p @ ''.'') names w1")
    have k2: "still w2 \<and> fs_ok w2 \<and> at_path w2 p = at_path w1 p
       \<and> (\<forall>q fd. r2 = Inr (q, fd) \<longrightarrow> q \<noteq> p \<and> butlast q = butlast p \<and> fresh_file p q fd [] w2)"
      by (rule create_temp_fresh [OF _ _ _ ne 2]) (use k1 w(3) in simp_all)
    show ?thesis
    proof (cases r2)
      case (Inl e)
      then show ?thesis using run 1 2 \<open>r1 = Inr u\<close> k1 k2 by (auto simp: write_receipt_def bindI_def)
    next
      case (Inr t)
      obtain q fd where t: "t = (q, fd)" by (cases t)
      have fresh: "fresh_file p q fd [] w2" and q: "q \<noteq> p" using k2 Inr t by auto
      obtain r3 w3 where 3: "fill_temp fd (receipt_payload s) w2 = (r3, w3)" by (cases "fill_temp fd (receipt_payload s) w2")
      note k3 = fill_temp_leaves [OF _ _ fresh 3]
      define m where "m = bindI (fill_temp fd (receipt_payload s)) (\<lambda>_. os_replace q p)"
      have run': "on_errorI m (remove_temp q) w2 = (r, w')"
        using run 1 2 \<open>r1 = Inr u\<close> Inr t by (simp add: write_receipt_def bindI_def m_def)
      obtain r4 w4 where 4: "m w2 = (r4, w4)" by (cases "m w2")
      have k4: "still w4 \<and> fs_ok w4 \<and> (if r4 = Inr () then at_path w4 p = Some (File (receipt_payload s)) else at_path w4 p = at_path w p)"
      proof (cases r3)
        case (Inl e)
        then show ?thesis using 4 3 k3 k2 k1 by (auto simp: m_def bindI_def)
      next
        case (Inr x)
        then have "os_replace q p w3 = (r4, w4)" using 4 3 by (simp add: m_def bindI_def)
        from replace_temp [OF _ _ _ _ q this] k3 k2 k1 Inr w(3) show ?thesis by (auto split: if_splits)
      qed
      show ?thesis
      proof (cases r4)
        case (Inl e)
        obtain r5 w5 where 5: "remove_temp q w4 = (r5, w5)" by (cases "remove_temp q w4")
        have "leaves p (remove_temp q)" unfolding remove_temp_def by (intro leaves_intro leaves_unlink [OF q])
        from leavesD [OF this _ _ _ 5] k4 Inl w(3) have "at_path w5 p = at_path w p" by simp
        moreover have "w' = w5" "r \<noteq> Inr ()" using run' 4 5 Inl by (auto simp: on_errorI_def split: sum.splits)
        ultimately show ?thesis by simp
      next
        case (Inr x)
        then show ?thesis using run' 4 k4 by (simp add: on_errorI_def)
      qed
    qed
  qed
qed

end
