(* ===== verification/Retirement_Receipt.thy ===== *)
theory Retirement_Receipt
  imports Github_Service Receipts_Props Manifests_Props
begin

text \<open>
  The receipt of the retirement and the apply token as texts: both are printed from plain values, so
  the parser reads back what the printer wrote; a receipt on an undisturbed file system is loaded as
  it was written; and the check after the migration accepts a service that is migrated.
\<close>

section \<open>Sorted objects\<close>

lemma keys_are_sorted: "keys_are (sort_key fst (sort_members d)) ks \<longleftrightarrow> set (map fst d) = set ks"
proof -
  have "set (map fst (sort_key fst (sort_members d))) = set (map fst (sort_members d))"
    by (simp only: set_map set_sort)
  also have "\<dots> = set (map fst d)" by (simp only: keys_sort_members)
  finally show ?thesis by (simp only: keys_are_def same_elems_iff)
qed

section \<open>Tokens and receipts are plain\<close>

lemma ascii_branch: "fullmatch BRANCH_RX s \<Longrightarrow> ascii s"
  by (erule ascii_fullmatch) code_simp

lemma ascii_constants: "ascii REPOSITORY" "ascii GITHUB_HOST" "list_all ascii LEGACY_PATHS"
  by code_simp+

lemma legacy_path_ascii: "snapshot_ok s \<Longrightarrow> (w, rs) \<in> set (sn_legacy s) \<Longrightarrow> ascii (wf_path w)"
proof -
  assume s: "snapshot_ok s" "(w, rs) \<in> set (sn_legacy s)"
  then have "wf_path w \<in> set (map (\<lambda>(w, rs). wf_path w) (sn_legacy s))" by force
  moreover have "map (\<lambda>(w, rs). wf_path w) (sn_legacy s) = LEGACY_PATHS" using s(1) by (simp add: snapshot_ok_def)
  ultimately have "wf_path w \<in> set LEGACY_PATHS" by (simp only:)
  then show ?thesis using ascii_constants(3) by (simp only: list_all_iff)
qed

lemma ascii_literal: "list_all (\<lambda>c. byte_val c < 128) s \<Longrightarrow> ascii s"
  by (simp add: ascii_def)

lemma plain_token:
  assumes "snapshot_ok s" shows "plain (token_json s)"
proof -
  have "plain_items (map (\<lambda>(w, rs). JObj [(''id'', JInt (wf_id w)), (''path'', JStr (wf_path w)),
      (''runIds'', JArr (map (\<lambda>r. JInt (run_id r)) rs))]) (sn_legacy s))"
    using legacy_path_ascii [OF assms] by (auto simp: plain_items_iff list_all_iff ascii_def)
  moreover have "ascii (sn_branch s)" using assms ascii_branch by (simp add: snapshot_ok_def)
  ultimately show ?thesis using ascii_constants by (simp add: token_json_def ascii_def)
qed

lemma plain_receipt:
  assumes "snapshot_ok s" shows "plain (receipt_json s)"
proof -
  have "plain_items (map (\<lambda>(w, rs). JObj [(''id'', JInt (wf_id w)), (''path'', JStr (wf_path w))]) (sn_legacy s))"
    using legacy_path_ascii [OF assms] by (auto simp: plain_items_iff list_all_iff ascii_def)
  moreover have "ascii (sn_branch s)" using assms ascii_branch by (simp add: snapshot_ok_def)
  ultimately show ?thesis using ascii_constants by (simp add: receipt_json_def ascii_def)
qed

lemma receipt_entry_sorted:
  assumes "0 < wf_id w"
  shows "receipt_entry (wf_path w) (sort_obj (JObj [(''id'', JInt (wf_id w)), (''path'', JStr (wf_path w))]))
    = Inr \<lparr>wf_id = wf_id w, wf_path = wf_path w, wf_state = ''disabled_manually''\<rparr>"
proof -
  let ?d = "[(''id'', JInt (wf_id w)), (''path'', JStr (wf_path w))]"
  have "dget (sort_key fst (sort_members ?d)) ''path'' = JStr (wf_path w)"
    "dget (sort_key fst (sort_members ?d)) ''id'' = JInt (wf_id w)"
    by (subst dget_sorted; simp add: dget_def)+
  moreover have "keys_are (sort_key fst (sort_members ?d)) [''id'', ''path'']" unfolding keys_are_sorted by simp
  ultimately show ?thesis using assms by (simp add: receipt_entry_def positive_integer_def del: sort_members.simps)
qed

lemma receipt_round_trip:
  assumes s: "snapshot_ok s" and len: "length (receipt_payload s) \<le> MAX_RECEIPT_BYTES"
  shows "parse_receipt (receipt_payload s) = Inr \<lparr>rc_host = GITHUB_HOST, rc_branch = sn_branch s,
    rc_legacy = map (\<lambda>(w, rs). \<lparr>wf_id = wf_id w, wf_path = wf_path w, wf_state = ''disabled_manually''\<rparr>) (sn_legacy s)\<rparr>"
proof -
  define d where "d = [(''schema'', JInt RECEIPT_SCHEMA), (''host'', JStr GITHUB_HOST), (''repository'', JStr REPOSITORY),
      (''defaultBranch'', JStr (sn_branch s)),
      (''legacy'', JArr (map (\<lambda>(w, rs). JObj [(''id'', JInt (wf_id w)), (''path'', JStr (wf_path w))]) (sn_legacy s))),
      (''verifiedState'', JStr ''disabled_manually''), (''verifiedRunCount'', JInt 0)]"
  have j: "receipt_json s = JObj d" by (simp add: receipt_json_def d_def)
  define d' where "d' = sort_key fst (sort_members d)"
  have load: "json_loads (receipt_payload s) = Inr (JObj d')"
    using json_loads_dumps [OF plain_receipt [OF s], of "[CHR 0x0A]" receipt_opts]
    by (simp add: receipt_payload_def receipt_opts_def is_ws_def j d'_def)
  have dist: "distinct (map fst d)" by (simp add: d_def)
  have get: "dget d' ''schema'' = JInt RECEIPT_SCHEMA" "dget d' ''host'' = JStr GITHUB_HOST" "dget d' ''repository'' = JStr REPOSITORY"
    "dget d' ''defaultBranch'' = JStr (sn_branch s)" "dget d' ''verifiedState'' = JStr ''disabled_manually''"
    "dget d' ''verifiedRunCount'' = JInt 0"
    "dget d' ''legacy'' = JArr (map (\<lambda>(w, rs). sort_obj (JObj [(''id'', JInt (wf_id w)), (''path'', JStr (wf_path w))])) (sn_legacy s))"
    unfolding d'_def dget_sorted [OF dist] by (simp_all add: d_def dget_def sort_items_map case_prod_unfold comp_def)
  have keys: "keys_are d' [''schema'', ''host'', ''repository'', ''defaultBranch'', ''legacy'', ''verifiedState'', ''verifiedRunCount'']"
    unfolding d'_def keys_are_sorted by (simp add: d_def)
  have paths: "map (\<lambda>(w, rs). wf_path w) (sn_legacy s) = LEGACY_PATHS" and branch: "fullmatch BRANCH_RX (sn_branch s)"
    and ids: "distinct (legacy_ids s)" and pos: "\<And>w rs. (w, rs) \<in> set (sn_legacy s) \<Longrightarrow> 0 < wf_id w"
    using s by (auto simp: snapshot_ok_def list_all_iff)
  have entries: "mapE (\<lambda>(p, entry). receipt_entry p entry) (zip LEGACY_PATHS
      (map (\<lambda>(w, rs). sort_obj (JObj [(''id'', JInt (wf_id w)), (''path'', JStr (wf_path w))])) (sn_legacy s)))
    = Inr (map (\<lambda>(w, rs). \<lparr>wf_id = wf_id w, wf_path = wf_path w, wf_state = ''disabled_manually''\<rparr>) (sn_legacy s))"
  proof -
    have "mapE (\<lambda>(p, entry). receipt_entry p entry) (map (\<lambda>(w, rs). (wf_path w, sort_obj (JObj [(''id'', JInt (wf_id w)), (''path'', JStr (wf_path w))]))) l)
      = Inr (map (\<lambda>(w, rs). \<lparr>wf_id = wf_id w, wf_path = wf_path w, wf_state = ''disabled_manually''\<rparr>) l)"
      if "\<forall>x \<in> set l. 0 < wf_id (fst x)" for l :: "(workflow \<times> run list) list"
      using that
    proof (induction l)
      case (Cons x l)
      have "0 < wf_id (fst x)" using Cons.prems by simp
      from receipt_entry_sorted [OF this] Cons show ?case by (simp add: case_prod_unfold del: sort_obj.simps)
    qed simp
    note each = this
    have "\<forall>x \<in> set (sn_legacy s). 0 < wf_id (fst x)" using pos by auto
    from each [OF this] show ?thesis
      by (auto simp: paths [symmetric] zip_map_map case_prod_unfold zip_same_conv_map comp_def del: sort_obj.simps)
  qed
  have "distinct (map wf_id (map (\<lambda>(w, rs). \<lparr>wf_id = wf_id w, wf_path = wf_path w, wf_state = ''disabled_manually''\<rparr>) (sn_legacy s)))"
    using ids by (simp add: legacy_ids_def comp_def case_prod_unfold)
  moreover have "length (sn_legacy s) = length LEGACY_PATHS" using paths by (metis length_map)
  ultimately have "receipt_of d' = Inr \<lparr>rc_host = GITHUB_HOST, rc_branch = sn_branch s,
    rc_legacy = map (\<lambda>(w, rs). \<lparr>wf_id = wf_id w, wf_path = wf_path w, wf_state = ''disabled_manually''\<rparr>) (sn_legacy s)\<rparr>"
    unfolding receipt_of_def get using keys branch entries by (simp add: is_number_def del: sort_obj.simps)
  then show ?thesis using len load by (simp add: parse_receipt_def)
qed

section \<open>The token\<close>

lemma token_determines:
  assumes s: "snapshot_ok s" and t: "snapshot_ok t"
    and e: "dumps compact_opts (token_json s) = dumps compact_opts (token_json t)"
  shows "sn_branch s = sn_branch t \<and> legacy_ids s = legacy_ids t
    \<and> map (\<lambda>(w, rs). map run_id rs) (sn_legacy s) = map (\<lambda>(w, rs). map run_id rs) (sn_legacy t)"
proof -
  define d where "d = (\<lambda>s :: snapshot. [(''host'', JStr GITHUB_HOST), (''repository'', JStr REPOSITORY), (''defaultBranch'', JStr (sn_branch s)),
      (''legacy'', JArr (map (\<lambda>(w, rs). JObj [(''id'', JInt (wf_id w)), (''path'', JStr (wf_path w)),
                                            (''runIds'', JArr (map (\<lambda>r. JInt (run_id r)) rs))]) (sn_legacy s)))])"
  have j: "token_json s = JObj (d s)" for s :: snapshot by (simp add: token_json_def d_def)
  have dist: "distinct (map fst (d s))" for s :: snapshot by (simp add: d_def)
  have "sort_obj (token_json s) = sort_obj (token_json t)"
    using json_loads_dumps [OF plain_token [OF s], of "[]" compact_opts]
      json_loads_dumps [OF plain_token [OF t], of "[]" compact_opts] e
    by (simp add: compact_opts_def)
  then have "sort_key fst (sort_members (d s)) = sort_key fst (sort_members (d t))" by (simp add: j)
  then have get: "sort_obj (dget (d s) k) = sort_obj (dget (d t) k)" for k by (metis dget_sorted dist)
  from get [of "''defaultBranch''"] have branch: "sn_branch s = sn_branch t" by (simp add: d_def dget_def)
  define item where "item = (\<lambda>(w :: workflow, rs :: run list). [(''id'', JInt (wf_id w)), (''path'', JStr (wf_path w)),
      (''runIds'', JArr (map (\<lambda>r. JInt (run_id r)) rs))])"
  have item_dist: "distinct (map fst (item x))" for x :: "workflow \<times> run list" by (cases x) (simp add: item_def)
  have "map (sort_obj \<circ> JObj \<circ> item) (sn_legacy s) = map (sort_obj \<circ> JObj \<circ> item) (sn_legacy t)"
    using get [of "''legacy''"]
    by (simp add: d_def dget_def sort_items_map item_def comp_def case_prod_unfold del: sort_obj.simps(2))
  then have items: "map (\<lambda>x. f (sort_key fst (sort_members (item x)))) (sn_legacy s)
      = map (\<lambda>x. f (sort_key fst (sort_members (item x)))) (sn_legacy t)" for f :: "dict \<Rightarrow> 'z"
  proof -
    assume "map (sort_obj \<circ> JObj \<circ> item) (sn_legacy s) = map (sort_obj \<circ> JObj \<circ> item) (sn_legacy t)"
    then have "map (\<lambda>v. case v of JObj d \<Rightarrow> f d | _ \<Rightarrow> undefined) (map (sort_obj \<circ> JObj \<circ> item) (sn_legacy s))
      = map (\<lambda>v. case v of JObj d \<Rightarrow> f d | _ \<Rightarrow> undefined) (map (sort_obj \<circ> JObj \<circ> item) (sn_legacy t))"
      by (rule arg_cong)
    then show ?thesis by (simp add: comp_def)
  qed
  have "map (\<lambda>x. the_int (sort_obj (dget (item x) ''id''))) (sn_legacy s) = map (\<lambda>x. the_int (sort_obj (dget (item x) ''id''))) (sn_legacy t)"
    using items [of "\<lambda>d. the_int (dget d ''id'')"] by (simp only: dget_sorted [OF item_dist])
  moreover have "map (\<lambda>x. case sort_obj (dget (item x) ''runIds'') of JArr xs \<Rightarrow> map the_int xs | _ \<Rightarrow> []) (sn_legacy s)
      = map (\<lambda>x. case sort_obj (dget (item x) ''runIds'') of JArr xs \<Rightarrow> map the_int xs | _ \<Rightarrow> []) (sn_legacy t)"
    using items [of "\<lambda>d. case dget d ''runIds'' of JArr xs \<Rightarrow> map the_int xs | _ \<Rightarrow> []"] by (simp only: dget_sorted [OF item_dist])
  ultimately show ?thesis using branch
    by (simp add: item_def dget_def case_prod_unfold sort_items_map comp_def the_int_def legacy_ids_def)
qed


section \<open>Reading a file that stays\<close>

lemma read_up_to_quiet:
  assumes "w_schedule w = []" "map_of (w_fds w) fd = Some ino" "fs_inode (w_fs w) ino = Some n" "n_content n = File b"
    and "taken = w_pos w fd" "length b \<le> maximum" "w_pos w fd \<le> length b"
  shows "\<exists>w'. read_up_to fd maximum taken w = (Inr (drop (w_pos w fd) b), w') \<and> w_schedule w' = [] \<and> w_fds w' = w_fds w"
  using assms
proof (induction fd maximum taken w rule: read_up_to.induct)
  case (1 fd maximum taken w)
  define k where "k = min (64 * 1024) (maximum + 1 - taken)"
  define chunk where "chunk = take k (drop (w_pos w fd) b)"
  define w1 where "w1 = w\<lparr>w_pos := (w_pos w)(fd := w_pos w fd + length chunk)\<rparr>"
  have taken: "\<not> maximum < taken" using 1(6-8) by simp
  have r: "os_read fd (min (64 * 1024) (maximum + 1 - taken)) w = (Inr chunk, w1)"
    using 1(2-5) by (simp add: os_read_def inode_of_def Let_def transferred_def chunk_def w1_def k_def)
  have k: "0 < k" using taken by (simp add: k_def)
  show ?case
  proof (cases "chunk = []")
    case True
    then have "drop (w_pos w fd) b = []" using k by (simp add: chunk_def)
    moreover have "read_up_to fd maximum taken w = (Inr [], w1)"
      using r True taken by (subst read_up_to.simps) simp
    ultimately show ?thesis using 1(2) by (simp add: w1_def)
  next
    case False
    have "\<exists>w'. read_up_to fd maximum (taken + length chunk) w1 = (Inr (drop (w_pos w1 fd) b), w') \<and> w_schedule w' = [] \<and> w_fds w' = w_fds w1"
      by (rule 1(1) [OF taken r [symmetric] refl False]) (use 1(2-8) in \<open>auto simp: w1_def chunk_def\<close>)
    then obtain w' where w': "read_up_to fd maximum (taken + length chunk) w1 = (Inr (drop (w_pos w1 fd) b), w')"
      "w_schedule w' = []" "w_fds w' = w_fds w1" by blast
    have "chunk @ drop (w_pos w1 fd) b = drop (w_pos w fd) b"
    proof -
      have "chunk = take (length chunk) (drop (w_pos w fd) b)" by (simp add: chunk_def min_def)
      moreover have "drop (w_pos w1 fd) b = drop (length chunk) (drop (w_pos w fd) b)" by (simp add: w1_def add.commute)
      ultimately show ?thesis by (metis append_take_drop_id)
    qed
    then have "read_up_to fd maximum taken w = (Inr (drop (w_pos w fd) b), w')"
      using r False taken w'(1) by (subst read_up_to.simps) simp
    then show ?thesis using w' by (simp add: w1_def)
  qed
qed

lemma load_receipt_quiet:
  assumes w: "w_schedule w = []" and p: "at_path w p = Some (File b)" and len: "length b \<le> MAX_RECEIPT_BYTES"
  shows "fst (load_receipt p w) = parse_receipt b"
proof -
  obtain ino n where l: "lookup_path w p = Some (ino, n)" "n_content n = File b"
    using p by (auto simp: at_path_def split: option.splits)
  define fd where "fd = fresh_fd w"
  define w1 where "w1 = w\<lparr>w_fds := (fd, ino) # w_fds w, w_pos := (w_pos w)(fd := 0)\<rparr>"
  have o: "os_open_read p w = (Inr fd, w1)"
    using w l by (simp add: os_open_read_def new_fd_def Let_def fd_def w1_def)
  have n: "fs_inode (w_fs w1) ino = Some n" using l(1) by (simp add: lookup_pathD w1_def)
  obtain w2 where 2: "read_up_to fd MAX_RECEIPT_BYTES 0 w1 = (Inr b, w2)" "w_schedule w2 = []" "w_fds w2 = w_fds w1"
    using read_up_to_quiet [of w1 fd ino n b 0 MAX_RECEIPT_BYTES] w l(2) len n by (auto simp: w1_def)
  have "map_of (w_fds w2) fd \<noteq> None" using 2(3) by (simp add: w1_def)
  then obtain w3 where 3: "os_close fd w2 = (Inr (), w3)" using 2(2) by (simp add: os_close_def)
  show ?thesis using o 2(1) 3 by (simp add: load_receipt_def bindI_def os_errorI_def finallyI_def liftI_def)
qed

section \<open>A migrated service\<close>

definition after_migration :: "github \<Rightarrow> receipt \<Rightarrow> bool" where
  "after_migration g rc \<longleftrightarrow> fullmatch BRANCH_RX (gh_branch g) \<and> gh_branch g = rc_branch rc
     \<and> list_all (List.member (gh_files g)) REPLACEMENT_PATHS \<and> \<not> list_ex (List.member (gh_files g)) LEGACY_PATHS
     \<and> catalog_ok (gh_workflows g)
     \<and> list_all (\<lambda>p. list_ex (\<lambda>w. wf_path w = p \<and> wf_state w = ''active'' \<and> \<not> List.member (map wf_id (rc_legacy rc)) (wf_id w)) (gh_workflows g)) REPLACEMENT_PATHS
     \<and> list_all (\<lambda>w. if List.member (map wf_id (rc_legacy rc)) (wf_id w)
          then list_ex (\<lambda>e. wf_id e = wf_id w \<and> wf_path e = wf_path w) (rc_legacy rc) \<and> wf_state w = ''disabled_manually''
          else \<not> List.member LEGACY_PATHS (wf_path w)) (gh_workflows g)
     \<and> list_all (\<lambda>r. \<not> List.member (map wf_id (rc_legacy rc)) (run_workflow r) \<and> \<not> List.member LEGACY_PATHS (run_path r)) (gh_runs g)"

definition captured_relevant :: "int list \<Rightarrow> workflow \<Rightarrow> bool" where
  "captured_relevant ids w \<longleftrightarrow> wf_path w \<in> set (LEGACY_PATHS @ REPLACEMENT_PATHS) \<or> wf_id w \<in> set ids"

lemma captured_fold:
  "distinct (map wf_id (acc @ ws)) \<Longrightarrow> distinct (map wf_path (acc @ ws)) \<Longrightarrow>
   list_all (\<lambda>w. 0 < wf_id w \<and> wf_state w \<noteq> []) ws \<Longrightarrow>
   foldE (catalog_step ids) acc (map workflow_dict ws) = Inr (acc @ filter (captured_relevant ids) ws)"
proof (induction ws arbitrary: acc)
  case (Cons w ws)
  have rel: "workflow_relevant ids (workflow_dict w) = Inr (captured_relevant ids w)"
    by (auto simp: workflow_relevant_def workflow_dict_def dget_def in_set_def captured_relevant_def list_ex_iff num_eq_def)
  have "catalog_step ids acc (workflow_dict w) = Inr (if captured_relevant ids w then acc @ [w] else acc)"
    using Cons.prems by (auto simp: catalog_step_Inr rel) (auto simp: workflow_dict_def dget_def)
  then show ?case using Cons by (cases "captured_relevant ids w") auto
qed simp


lemma reads_paths:
  assumes "branch_of_rest (JObj [(''full_name'', JStr REPOSITORY), (''default_branch'', JStr (gh_branch G))]) = Inr (gh_branch G)"
  shows "reads g (default_branch_paths (honest g)) G (gh_branch G, gh_files G)"
proof -
  have branch: "reads g (repository_default_branch (honest g)) G (gh_branch G)"
    by (simp add: reads_def repository_default_branch_def if_unavailableA_def api_get_def ask_honest sees_def liftA_def
        serve_def assms)
  have paths: "text_paths (map (\<lambda>p. JObj [(''path'', JStr p)]) ps) = ps" for ps
    by (induction ps) (auto simp: text_paths_def dget_def)
  show ?thesis unfolding default_branch_paths_def
    by (rule reads_bindA [OF branch], rule reads_bindA [OF reads_get]) (auto simp: serve_def paths intro: reads_returnA)
qed

lemma filter_id_single:
  "distinct (map wf_id es) \<Longrightarrow> e \<in> set es \<Longrightarrow> filter (\<lambda>x. wf_id x = wf_id e) es = [e]"
proof (induction es)
  case (Cons a es)
  show ?case
  proof (cases "e = a")
    case True
    with Cons.prems(1) have "filter (\<lambda>x. wf_id x = wf_id a) es = []" by (auto simp: filter_empty_conv image_iff)
    with True show ?thesis by simp
  next
    case False
    with Cons show ?thesis by auto
  qed
qed simp

lemma migrated_verifies:
  assumes g: "after_migration G rc" and rc: "distinct (map wf_id (rc_legacy rc))"
    and load: "load_receipt p w = (Inr rc, w')"
  shows "\<exists>c'. verify_post_migration (honest G) p \<lparr>c_requests = [], c_world = w\<rparr> = (Inr (), c')"
proof -
  let ?ids = "map wf_id (rc_legacy rc)" and ?ws = "filter (captured_relevant (map wf_id (rc_legacy rc))) (gh_workflows G)"
  have cat: "catalog_ok (gh_workflows G)" using g by (simp add: after_migration_def)
  have rest: "branch_of_rest (JObj [(''full_name'', JStr REPOSITORY), (''default_branch'', JStr (gh_branch G))]) = Inr (gh_branch G)"
  proof -
    have "fullmatch BRANCH_RX (gh_branch G)" using g unfolding after_migration_def by blast
    then show ?thesis by (simp add: branch_of_rest_def valid_default_branch_def dget_def)
  qed
  have branch: "reads G (default_branch_paths (honest G)) G (gh_branch G, gh_files G)" by (rule reads_paths [OF rest])
  have catalog: "reads G (workflow_catalog (honest G) ?ids) G ?ws"
    unfolding workflow_catalog_def
    by (rule reads_bindA [OF reads_get], simp add: serve_def, rule reads_liftA)
      (use cat captured_fold [of "[]" "gh_workflows G"] in \<open>simp add: catalog_ok_def\<close>)
  have repl: "\<exists>v. filter (\<lambda>v. wf_path v = q) ?ws = [v] \<and> wf_state v = ''active'' \<and> wf_id v \<notin> set ?ids"
    if q: "q \<in> set REPLACEMENT_PATHS" for q
  proof -
    from g q obtain v where v: "v \<in> set (gh_workflows G)" "wf_path v = q" "wf_state v = ''active''" "wf_id v \<notin> set ?ids"
      by (auto simp: after_migration_def list_all_iff list_ex_iff)
    have "filter (\<lambda>v. wf_path v = q) ?ws = filter (\<lambda>v. wf_path v = q) (gh_workflows G)"
      unfolding filter_filter by (rule filter_cong) (use q in \<open>auto simp: captured_relevant_def\<close>)
    then show ?thesis using filter_path_single [OF _ v(1)] cat v by (auto simp: catalog_ok_def)
  qed
  define rs where "rs = map (\<lambda>q. hd (filter (\<lambda>v. wf_path v = q) ?ws)) REPLACEMENT_PATHS"
  have by_path: "by_path ?ws REPLACEMENT_PATHS = Inr rs"
    unfolding by_path_def rs_def by (rule mapE_Inr_map) (use repl in force)
  have rs: "wf_state v = ''active'' \<and> wf_id v \<notin> set ?ids" if "v \<in> set rs" for v
    using that repl by (force simp: rs_def)
  have entry: "reads G (check_catalog_entry (honest G) rc v) G ()" if v: "v \<in> set ?ws" for v
  proof -
    have v': "v \<in> set (gh_workflows G)" using v by simp
    have state: "if List.member ?ids (wf_id v)
          then list_ex (\<lambda>e. wf_id e = wf_id v \<and> wf_path e = wf_path v) (rc_legacy rc) \<and> wf_state v = ''disabled_manually''
          else \<not> List.member LEGACY_PATHS (wf_path v)"
      using g v' unfolding after_migration_def list_all_iff by blast
    show ?thesis
    proof (cases "wf_id v \<in> set ?ids")
      case False
      then have "filter (\<lambda>e. wf_id e = wf_id v) (rc_legacy rc) = []" by (auto simp: filter_empty_conv image_iff)
      moreover have "\<not> List.member LEGACY_PATHS (wf_path v)" using state False by simp
      ultimately show ?thesis by (simp add: check_catalog_entry_def reads_returnA)
    next
      case True
      with state have "list_ex (\<lambda>e. wf_id e = wf_id v \<and> wf_path e = wf_path v) (rc_legacy rc) \<and> wf_state v = ''disabled_manually''"
        by simp
      then obtain e where e: "e \<in> set (rc_legacy rc)" "wf_id e = wf_id v" "wf_path e = wf_path v" "wf_state v = ''disabled_manually''"
        by (auto simp: list_ex_iff)
      have "filter (\<lambda>x. wf_id x = wf_id v) (rc_legacy rc) = [e]"
        using filter_id_single [OF rc e(1)] e(2) by simp
      moreover have "runs_of G (wf_id v) = []"
        using g True by (auto simp: runs_of_def filter_empty_conv after_migration_def list_all_iff)
      then have "reads G (workflow_runs (honest G) v) G []"
        unfolding workflow_runs_def
        by (intro reads_bindA [OF reads_get [OF runs_of_endpoint [OF cat v']]] reads_liftA) simp
      ultimately show ?thesis using e
        by (auto simp: check_catalog_entry_def intro!: reads_bindA reads_returnA)
    qed
  qed
  have none: "foldE (repository_run_step ?ids) [] (map run_dict xs) = Inr []"
    if "list_all (\<lambda>r. \<not> List.member ?ids (run_workflow r) \<and> \<not> List.member LEGACY_PATHS (run_path r)) xs" for xs
    using that
  proof (induction xs)
    case (Cons r xs)
    then have "repository_run_step ?ids [] (run_dict r) = Inr []"
      by (auto simp: repository_run_step_def in_set_def run_dict_def dget_def list_ex_iff num_eq_def)
    with Cons show ?case by simp
  qed simp
  have remaining: "reads G (relevant_repository_runs (honest G) ?ids) G []"
    unfolding relevant_repository_runs_def
    by (rule reads_bindA [OF reads_get], simp add: serve_def, rule reads_liftA)
      (use none g in \<open>simp add: after_migration_def\<close>)
  let ?c = "\<lparr>c_requests = [], c_world = w'\<rparr>"
  have s0: "sees G G w' ?c" by (simp add: sees_def)
  define rest where "rest = (\<lambda>(branch, paths).
     if branch \<noteq> rc_branch rc then raiseA (RetirementError ''default branch changed after legacy retirement'')
     else if list_ex (List.member paths) LEGACY_PATHS \<or> \<not> list_all (List.member paths) REPLACEMENT_PATHS
     then raiseA (RetirementError ''default branch is not migrated to only the hardened workflow paths'')
     else
       let captured = map wf_id (rc_legacy rc) in
       bindA (workflow_catalog (honest G) captured) (\<lambda>catalog.
       bindA (liftA (by_path catalog REPLACEMENT_PATHS)) (\<lambda>replacements.
       if list_ex (\<lambda>w. wf_state w \<noteq> ''active'') replacements
       then raiseA (RetirementError ''replacement workflows must be active'')
       else if list_ex (\<lambda>w. List.member captured (wf_id w)) replacements
       then raiseA (RetirementError ''replacement workflow reuses a legacy identity'')
       else
         bindA (mapA (check_catalog_entry (honest G) rc) catalog) (\<lambda>_.
         bindA (relevant_repository_runs (honest G) captured) (\<lambda>remaining.
           if remaining \<noteq> [] then raiseA (RetirementError ''repository still contains legacy workflow runs'')
           else returnA ())))))"
  have "reads G (bindA (default_branch_paths (honest G)) rest) G ()"
  proof (rule reads_bindA [OF branch])
    have "\<not> list_ex (\<lambda>w. wf_state w \<noteq> ''active'') rs" "\<not> list_ex (\<lambda>w. List.member ?ids (wf_id w)) rs"
      using rs by (auto simp: list_ex_iff)
    note ok = this
    show "reads G (rest (gh_branch G, gh_files G)) G ()"
      unfolding rest_def Let_def using g ok
      by (auto simp: after_migration_def intro!: reads_bindA [OF catalog] reads_bindA [OF reads_liftA [OF by_path]]
          reads_bindA [OF reads_mapA [of ?ws G "check_catalog_entry (honest G) rc" G "\<lambda>_. ()", OF entry]]
          reads_bindA [OF remaining] reads_returnA)
  qed
  from readsD [OF this s0] obtain c' where "bindA (default_branch_paths (honest G)) rest ?c = (Inr (), c')" by blast
  then have "verify_post_migration (honest G) p \<lparr>c_requests = [], c_world = w\<rparr> = (Inr (), c')"
    using load unfolding verify_post_migration_def rest_def by (simp add: bindA_def [of "osA (load_receipt p)"] osA_def)
  then show ?thesis by blast
qed

end
