(* ===== verification/Retirement_Properties.thy ===== *)
theory Retirement_Properties
  imports Retirement_Receipt
begin

text \<open>
  What \<open>scripts/retire_legacy_workflows.py\<close> guarantees: which requests change the service, what a
  successful retirement has seen, what the token and the receipt bind, that the receipt is replaced
  in one step, and that on a service that does what it is asked the whole procedure succeeds.
\<close>

section \<open>Properties\<close>

text \<open>C3. Whatever GitHub answers, a retirement sends no mutation but the disabling of the workflows of the
  snapshot and then the deletion of its runs, in this order and each at most once. It sends none
  unless the confirmation is the token of the snapshot and no run of it is active, and it deletes
  nothing unless a second look, after all were disabled, has shown the same workflows, now
  disabled, with the same runs, all completed.\<close>

theorem retirement_sends_only:
  assumes "retire gh names s confirmation p c = (r, c')"
  shows "\<exists>sent. mutations c' = mutations c @ sent
     \<and> prefix sent (map disable_request (legacy_ids s) @ map delete_request (runs_to_delete s))
     \<and> (sent \<noteq> [] \<longrightarrow> confirmation = apply_token s \<and> \<not> list_ex is_active (legacy_runs s))
     \<and> (length (legacy_ids s) < length sent \<longrightarrow> (\<exists>c1 c2 d. mutations c1 = mutations c @ map disable_request (legacy_ids s)
          \<and> collect_pre_migration_snapshot gh c1 = (Inr d, c2) \<and> sn_branch d = sn_branch s \<and> legacy_ids d = legacy_ids s
          \<and> list_all (\<lambda>(w, rs). wf_state w = ''disabled_manually'') (sn_legacy d)
          \<and> set (map run_id (legacy_runs d)) = set (map run_id (legacy_runs s)) \<and> \<not> list_ex is_active (legacy_runs d)))"
  using assms
proof (cases rule: retire_phases)
  case (refused e)
  then show ?thesis by (intro exI [of _ "[]"]) simp
next
  case (disabling e sent)
  then show ?thesis
    using prefix_length_le [OF disabling(5)] by (intro exI [of _ sent]) (auto simp: prefix_prefix)
next
  case (deleting c1 c2 d sent)
  then show ?thesis
    unfolding check_disabled_Inr by (intro exI [of _ "map disable_request (legacy_ids s) @ sent"]) auto
qed

text \<open>C19. A retirement that returns has sent every mutation, has then collected a snapshot of the same workflows,
  all disabled and without runs, and has put the receipt of that snapshot in place.\<close>

theorem retirement_proved:
  assumes "retire gh names s confirmation p c = (Inr (), c')"
  shows "mutations c' = mutations c @ map disable_request (legacy_ids s) @ map delete_request (runs_to_delete s)
     \<and> (\<exists>c3 c4 t. mutations c3 = mutations c' \<and> collect_pre_migration_snapshot gh c3 = (Inr t, c4)
          \<and> sn_branch t = sn_branch s \<and> legacy_ids t = legacy_ids s
          \<and> list_all (\<lambda>(w, rs). wf_state w = ''disabled_manually'' \<and> rs = []) (sn_legacy t)
          \<and> write_receipt names t p (c_world c4) = (Inr (), c_world c'))"
  using assms
proof (cases rule: retire_phases)
  case (deleting c1 c2 d sent)
  from deleting(8) obtain c3 c4 t where
    "sent = map delete_request (runs_to_delete s)" "mutations c3 = mutations c'"
    "collect_pre_migration_snapshot gh c3 = (Inr t, c4)" "check_retired s t = Inr ()"
    "write_receipt names t p (c_world c4) = (Inr (), c_world c')" by blast
  then show ?thesis using deleting(3,6) unfolding check_retired_Inr by auto
qed simp_all

text \<open>C40. Whatever GitHub answers, a collected snapshot is well formed: a branch name of the accepted pattern, the
  two legacy paths in order, distinct positive workflow ids, and for each workflow runs that belong
  to it, with full commit ids, in strictly ascending order.\<close>

theorem collected_snapshot_type:
  assumes "collect_pre_migration_snapshot gh c = (Inr s, c')"
  shows "snapshot_ok s"
  using assms by (rule collected_snapshot)

text \<open>C39. The token confirms the snapshot: two well-formed snapshots with the same token have the same branch,
  the same workflow ids and the same runs to delete, or their token texts are two different texts
  with the same SHA-256 digest.\<close>

theorem token_binds_snapshot:
  assumes "snapshot_ok s" and "snapshot_ok t" and "apply_token s = apply_token t"
  shows "sn_branch s = sn_branch t \<and> legacy_ids s = legacy_ids t
     \<and> map (\<lambda>(w, rs). map run_id rs) (sn_legacy s) = map (\<lambda>(w, rs). map run_id rs) (sn_legacy t)
   \<or> dumps compact_opts (token_json s) \<noteq> dumps compact_opts (token_json t)
     \<and> sha256_hex (dumps compact_opts (token_json s)) = sha256_hex (dumps compact_opts (token_json t))"
  using token_determines [OF assms(1,2)] assms(3) by (auto simp: apply_token_def)

text \<open>A receipt is read back as what was written: the branch and, for the two legacy paths, the ids of the
  retired workflows.\<close>

theorem receipt_read_back:
  assumes "snapshot_ok s" and "length (receipt_payload s) \<le> MAX_RECEIPT_BYTES"
  shows "parse_receipt (receipt_payload s) = Inr \<lparr>rc_host = GITHUB_HOST, rc_branch = sn_branch s,
    rc_legacy = map (\<lambda>(w, rs). \<lparr>wf_id = wf_id w, wf_path = wf_path w, wf_state = ''disabled_manually''\<rparr>) (sn_legacy s)\<rparr>"
  using assms by (rule receipt_round_trip)


text \<open>C20. Against a service that does what it is asked, retiring the snapshot the service shows returns, as long
  as no run is active and the receipt can be written. Afterwards exactly the two legacy workflows
  are disabled and exactly their runs are gone; every other workflow and run is untouched.\<close>

theorem honest_retirement:
  assumes "before_migration g" and "\<not> list_ex is_active (legacy_runs (snapshot_of g))"
    and "write_receipt names (snapshot_of (retired_service g)) p w = (Inr (), w')"
  shows "\<exists>c'. retire (honest g) names (snapshot_of g) (apply_token (snapshot_of g)) p \<lparr>c_requests = [], c_world = w\<rparr>
      = (Inr (), c') \<and> after g (c_requests c') = retired_service g \<and> c_world c' = w'"
  using assms by (rule retire_served)

text \<open>C21. The check after the migration accepts a service that is migrated as the receipt says.\<close>

theorem migration_accepted:
  assumes "after_migration G rc" and "distinct (map wf_id (rc_legacy rc))" and "load_receipt p w = (Inr rc, w')"
  shows "\<exists>c'. verify_post_migration (honest G) p \<lparr>c_requests = [], c_world = w\<rparr> = (Inr (), c')"
  using assms by (rule migrated_verifies)

section \<open>Instances\<close>

definition example_github :: github where
  "example_github = \<lparr>gh_branch = ''main'', gh_files = LEGACY_PATHS,
     gh_workflows = [\<lparr>wf_id = 11, wf_path = LEGACY_PATHS ! 0, wf_state = ''active''\<rparr>,
                     \<lparr>wf_id = 12, wf_path = LEGACY_PATHS ! 1, wf_state = ''active''\<rparr>],
     gh_runs = [\<lparr>run_id = 102, run_workflow = 12, run_path = LEGACY_PATHS ! 1, run_status = ''completed'', run_event = ''push'',
                 run_head = replicate 40 (CHR ''a'')\<rparr>]\<rparr>"

lemma example_before: "before_migration example_github"
  by code_simp

lemma example_no_active: "\<not> list_ex is_active (legacy_runs (snapshot_of example_github))"
  by code_simp

definition receipt_world :: world where
  "receipt_world = \<lparr>w_fs = \<lparr>
     fs_inode = [7 \<mapsto> \<lparr>n_dev = 2, n_content = Folder [], n_perm = 448, n_nlink = 2, n_mtime = 5, n_ctime = 5\<rparr>],
     fs_path = [[''d''] \<mapsto> 7], fs_canonical = (\<lambda>p. p), fs_clock = 12, fs_next = 20\<rparr>,
     w_fds = [], w_pos = (\<lambda>_. 0), w_schedule = []\<rparr>"

lemma receipt_world_ok: "still receipt_world \<and> fs_ok receipt_world \<and> no_folder (at_path receipt_world [''d'', ''r''])"
  by (auto simp: still_def fs_ok_def receipt_world_def no_folder_def at_path_def lookup_path_def split: if_split_asm)

lemma payload_nonempty [simp]: "receipt_payload s \<noteq> []"
  by (simp add: receipt_payload_def)

lemma receipt_world_written: "fst (write_receipt [''x''] s [''d'', ''r''] receipt_world) = Inr ()"
  by (simp add: write_receipt_def bindI_def make_dirs.simps [of "[''d'']"] mkdir_exist_ok_def os_mkdir_def receipt_world_def
      lookup_path_def accept_directory_def path_is_dir_def returnI_def os_create_new_def enter_path_def Let_def path_name_def
      new_fd_def fresh_fd_def set_inode_def on_errorI_def fill_temp_def finallyI_def write_loop.simps os_write_def inode_of_def
      os_fsync_def os_close_def os_replace_def)

lemma example_retired:
  "\<exists>c'. retire (honest example_github) [''x''] (snapshot_of example_github) (apply_token (snapshot_of example_github)) [''d'', ''r'']
     \<lparr>c_requests = [], c_world = receipt_world\<rparr> = (Inr (), c')"
proof -
  obtain w' where "write_receipt [''x''] (snapshot_of (retired_service example_github)) [''d'', ''r''] receipt_world = (Inr (), w')"
    using receipt_world_written by (metis prod.collapse)
  from retire_served [OF example_before example_no_active this] show ?thesis by blast
qed

lemma retirement_sends_only_witness:
  "\<exists>c' sent. mutations c' = sent \<and> prefix sent [disable_request 11, disable_request 12, delete_request 102]"
proof -
  obtain c' where "retire (honest example_github) [''x''] (snapshot_of example_github) (apply_token (snapshot_of example_github)) [''d'', ''r'']
     \<lparr>c_requests = [], c_world = receipt_world\<rparr> = (Inr (), c')" using example_retired by blast
  from retirement_sends_only [OF this] obtain sent where "mutations c' = sent"
    "prefix sent (map disable_request (legacy_ids (snapshot_of example_github)) @ map delete_request (runs_to_delete (snapshot_of example_github)))"
    by (auto simp: mutations_def)
  moreover have "legacy_ids (snapshot_of example_github) = [11, 12]" "runs_to_delete (snapshot_of example_github) = [102]"
    by code_simp+
  ultimately show ?thesis by auto
qed

lemma retirement_proved_witness:
  "\<exists>c'. mutations c' = [disable_request 11, disable_request 12, delete_request 102]"
proof -
  obtain c' where "retire (honest example_github) [''x''] (snapshot_of example_github) (apply_token (snapshot_of example_github)) [''d'', ''r'']
     \<lparr>c_requests = [], c_world = receipt_world\<rparr> = (Inr (), c')" using example_retired by blast
  from retirement_proved [OF this] have "mutations c' = map disable_request (legacy_ids (snapshot_of example_github))
     @ map delete_request (runs_to_delete (snapshot_of example_github))" by (simp add: mutations_def)
  moreover have "legacy_ids (snapshot_of example_github) = [11, 12]" "runs_to_delete (snapshot_of example_github) = [102]"
    by code_simp+
  ultimately show ?thesis by auto
qed

lemma example_collected:
  assumes "before_migration g"
  shows "\<exists>c'. collect_pre_migration_snapshot (honest g) \<lparr>c_requests = [], c_world = receipt_world\<rparr> = (Inr (snapshot_of g), c')"
proof -
  have "sees g g receipt_world \<lparr>c_requests = [], c_world = receipt_world\<rparr>" by (simp add: sees_def)
  from readsD [OF reads_snapshot [OF assms] this] show ?thesis by blast
qed

lemma collected_snapshot_type_witness: "snapshot_ok (snapshot_of example_github)"
proof -
  obtain c' where "collect_pre_migration_snapshot (honest example_github) \<lparr>c_requests = [], c_world = receipt_world\<rparr>
      = (Inr (snapshot_of example_github), c')" using example_collected [OF example_before] by blast
  from collected_snapshot_type [OF this] show ?thesis .
qed

definition example_disabled :: github where
  "example_disabled = example_github\<lparr>gh_workflows := map (disable_in {11, 12}) (gh_workflows example_github)\<rparr>"

lemma example_ok: "snapshot_ok (snapshot_of example_github)" "snapshot_ok (snapshot_of example_disabled)"
proof -
  have "before_migration example_disabled"
    unfolding example_disabled_def by (rule before_migration_disable [OF example_before])
  then show "snapshot_ok (snapshot_of example_disabled)" using example_collected collected_snapshot by blast
  show "snapshot_ok (snapshot_of example_github)" using example_collected [OF example_before] collected_snapshot by blast
qed

lemma token_binds_snapshot_witness:
  "legacy_ids (snapshot_of example_github) = legacy_ids (snapshot_of example_disabled)"
proof -
  have e: "token_json (snapshot_of example_github) = token_json (snapshot_of example_disabled)" by code_simp
  then have "apply_token (snapshot_of example_github) = apply_token (snapshot_of example_disabled)" by (simp add: apply_token_def)
  from token_binds_snapshot [OF example_ok this] e show ?thesis by simp
qed

lemma receipt_length: "length (receipt_payload (snapshot_of example_disabled)) \<le> MAX_RECEIPT_BYTES"
  by code_simp

lemma receipt_read_back_witness:
  "\<exists>rc. parse_receipt (receipt_payload (snapshot_of example_disabled)) = Inr rc \<and> rc_branch rc = ''main'' \<and> map wf_id (rc_legacy rc) = [11, 12]"
proof -
  have "sn_branch (snapshot_of example_disabled) = ''main''" "map (\<lambda>(w, rs). wf_id w) (sn_legacy (snapshot_of example_disabled)) = [11, 12]"
    by code_simp+
  then show ?thesis using receipt_read_back [OF example_ok(2) receipt_length] by (simp add: case_prod_unfold comp_def)
qed


lemma honest_retirement_witness:
  "\<exists>c' :: client. after example_github (c_requests c') = retired_service example_github \<and> gh_runs (retired_service example_github) = []"
proof -
  obtain w' where w: "write_receipt [''x''] (snapshot_of (retired_service example_github)) [''d'', ''r''] receipt_world = (Inr (), w')"
    using receipt_world_written by (metis prod.collapse)
  obtain c' :: client where "after example_github (c_requests c') = retired_service example_github"
    using honest_retirement [OF example_before example_no_active w] by blast
  moreover have "gh_runs (retired_service example_github) = []" by code_simp
  ultimately show ?thesis by blast
qed

definition migrated_github :: github where
  "migrated_github = \<lparr>gh_branch = ''main'', gh_files = REPLACEMENT_PATHS,
     gh_workflows = [\<lparr>wf_id = 11, wf_path = LEGACY_PATHS ! 0, wf_state = ''disabled_manually''\<rparr>,
                     \<lparr>wf_id = 12, wf_path = LEGACY_PATHS ! 1, wf_state = ''disabled_manually''\<rparr>,
                     \<lparr>wf_id = 21, wf_path = REPLACEMENT_PATHS ! 0, wf_state = ''active''\<rparr>,
                     \<lparr>wf_id = 22, wf_path = REPLACEMENT_PATHS ! 1, wf_state = ''active''\<rparr>], gh_runs = []\<rparr>"

definition example_receipt :: receipt where
  "example_receipt = \<lparr>rc_host = GITHUB_HOST, rc_branch = ''main'',
     rc_legacy = [\<lparr>wf_id = 11, wf_path = LEGACY_PATHS ! 0, wf_state = ''disabled_manually''\<rparr>,
                  \<lparr>wf_id = 12, wf_path = LEGACY_PATHS ! 1, wf_state = ''disabled_manually''\<rparr>]\<rparr>"

lemma migration_accepted_witness:
  "\<exists>w c'. verify_post_migration (honest migrated_github) [''d'', ''r''] \<lparr>c_requests = [], c_world = w\<rparr> = (Inr (), c')"
proof -
  obtain w1 where w1: "write_receipt [''x''] (snapshot_of example_disabled) [''d'', ''r''] receipt_world = (Inr (), w1)"
    using receipt_world_written by (metis prod.collapse)
  have at: "at_path w1 [''d'', ''r''] = Some (File (receipt_payload (snapshot_of example_disabled)))"
    using write_receipt_atomic [OF _ _ _ _ w1] receipt_world_ok by auto
  define w where "w = w1\<lparr>w_schedule := []\<rparr>"
  have "at_path w [''d'', ''r''] = Some (File (receipt_payload (snapshot_of example_disabled)))"
    using at same_fs [of w w1] by (simp add: w_def)
  with load_receipt_quiet [OF _ this receipt_length] have
    "fst (load_receipt [''d'', ''r''] w) = parse_receipt (receipt_payload (snapshot_of example_disabled))" by (simp add: w_def)
  also have "\<dots> = Inr example_receipt"
    unfolding receipt_round_trip [OF example_ok(2) receipt_length] by code_simp
  finally obtain w2 where "load_receipt [''d'', ''r''] w = (Inr example_receipt, w2)" by (metis prod.collapse)
  moreover have "after_migration migrated_github example_receipt" "distinct (map wf_id (rc_legacy example_receipt))"
    by code_simp+
  ultimately show ?thesis using migration_accepted by blast
qed

end
