(* ===== verification/Pinned_Inputs.thy ===== *)
theory Pinned_Inputs
  imports Handoff_Files
begin

text \<open>
  The pinned directories of \<open>scripts/verify_build_inputs.py\<close>: a directory is opened component by
  component, its identity is compared with that of its path before and after every use, and regular
  files are read and written relative to its descriptor. Paths are absolute and normalised; the check
  that the platform has the flags is not modelled (POSIX has them).
\<close>

section \<open>Directories\<close>

record pinned =
  pd_requested :: path
  pd_canonical :: path
  pd_fd :: nat
  pd_identity :: "nat \<times> nat \<times> nat"

definition pin_identity :: "stat_result \<Rightarrow> (nat \<times> nat \<times> nat) res" where
  "pin_identity s =
     (if st_type s \<noteq> Directory then Inl (ValueError ''pinned input path is not a directory'')
      else Inr (st_dev s, st_ino s, st_perm s))"

text \<open>\<open>try: m except OSError: os.close(fd); raise e except BaseException: os.close(fd); raise\<close>\<close>

definition closing_on_error :: "nat \<Rightarrow> err \<Rightarrow> 'a io \<Rightarrow> 'a io" where
  "closing_on_error fd e m = on_errorI (os_errorI m e) (os_close fd)"

text \<open>The loop that replaces the descriptor of a directory by that of its child.\<close>

fun walk_down :: "err \<Rightarrow> nat \<Rightarrow> string list \<Rightarrow> nat io" where
  "walk_down e fd [] = returnI fd"
| "walk_down e fd (part # parts) =
     bindI (closing_on_error fd e (os_open_dir_at part fd)) (\<lambda>child.
     bindI (closing_on_error child e (os_close fd)) (\<lambda>_. walk_down e child parts))"

definition ANCESTOR_CHANGED :: err where
  "ANCESTOR_CHANGED = ValueError ''input directory has a changed or symlinked ancestor''"

definition open_canonical_directory :: "path \<Rightarrow> nat io" where
  "open_canonical_directory p =
     bindI (os_errorI (os_open_dir []) (ValueError ''input directory anchor cannot be opened''))
       (\<lambda>fd. walk_down ANCESTOR_CHANGED fd p)"

definition PIN_CHANGED :: err where
  "PIN_CHANGED = ValueError ''pinned input directory changed''"

definition verify_pinned :: "pinned \<Rightarrow> unit io" where
  "verify_pinned d =
     bindI (os_errorI
       (bindI (bindI (os_fstat (pd_fd d)) (\<lambda>s. liftI (pin_identity s))) (\<lambda>opened.
        bindI (bindI (os_path_stat (pd_canonical d)) (\<lambda>s. liftI (pin_identity s))) (\<lambda>canonical.
        bindI (bindI (os_path_stat (pd_requested d)) (\<lambda>s. liftI (pin_identity s))) (\<lambda>requested.
          returnI (opened, canonical, requested))))) PIN_CHANGED) (\<lambda>(opened, canonical, requested).
     if opened \<noteq> pd_identity d \<or> canonical \<noteq> pd_identity d \<or> requested \<noteq> pd_identity d
     then raiseI PIN_CHANGED else returnI ())"

text \<open>The record of an opened directory, checked once; what the two ways of pinning have in common.\<close>

definition pin_opened :: "path \<Rightarrow> path \<Rightarrow> nat \<Rightarrow> pinned io" where
  "pin_opened requested canonical fd =
     bindI (bindI (os_fstat fd) (\<lambda>s. liftI (pin_identity s))) (\<lambda>i.
       returnI \<lparr>pd_requested = requested, pd_canonical = canonical, pd_fd = fd, pd_identity = i\<rparr>)"

definition pin_directory :: "path \<Rightarrow> string \<Rightarrow> pinned io" where
  "pin_directory p label =
     bindI (os_errorI (os_resolve p) (ValueError (label @ '' cannot be resolved''))) (\<lambda>canonical.
     bindI (open_canonical_directory canonical) (\<lambda>fd.
     on_errorI
       (bindI (pin_opened p canonical fd) (\<lambda>d. bindI (verify_pinned d) (\<lambda>_. returnI d)))
       (os_close fd)))"

section \<open>Names below a directory\<close>

definition relative_parts :: "string \<Rightarrow> string \<Rightarrow> bool \<Rightarrow> string list res" where
  "relative_parts raw label allow_dot =
     (if raw = [] \<or> List.member raw (CHR 0x5C) \<or> List.member raw (CHR 0x00)
      then Inl (ValueError (label @ '' is invalid''))
      else if is_absolute raw \<or> List.member (posix_parts raw) ''..''
      then Inl (ValueError (label @ '' is invalid''))
      else if as_posix raw = ''.''
      then (if allow_dot \<and> raw = ''.'' then Inr [] else Inl (ValueError (label @ '' is invalid'')))
      else if as_posix raw \<noteq> raw then Inl (ValueError (label @ '' is not canonical''))
      else Inr (posix_parts raw))"

text \<open>\<open>os.dup\<close>: a second descriptor of the same open directory.\<close>

definition os_dup :: "nat \<Rightarrow> nat io" where
  "os_dup fd = syscall (\<lambda>_ w. case inode_of w fd of None \<Rightarrow> fail ''dup'' w | Some (ino, n) \<Rightarrow> new_fd ino w)"

definition os_set_inheritable :: "nat \<Rightarrow> unit io" where
  "os_set_inheritable fd = syscall (\<lambda>_ w. case inode_of w fd of None \<Rightarrow> fail ''fcntl'' w | Some _ \<Rightarrow> (Inr (), w))"

definition pin_relative_directory :: "pinned \<Rightarrow> string \<Rightarrow> string \<Rightarrow> pinned io" where
  "pin_relative_directory root relative label =
     (let e = ValueError (label @ '' has a changed or symlinked ancestor'') in
      bindI (liftI (relative_parts relative label True)) (\<lambda>parts.
      bindI (verify_pinned root) (\<lambda>_.
      bindI (os_dup (pd_fd root)) (\<lambda>copy.
      bindI (os_set_inheritable copy) (\<lambda>_.
      bindI (walk_down e copy parts) (\<lambda>fd.
      closing_on_error fd e
        (bindI (pin_opened (pd_requested root @ parts) (pd_canonical root @ parts) fd) (\<lambda>d.
         bindI (verify_pinned root) (\<lambda>_. bindI (verify_pinned d) (\<lambda>_. returnI d))))))))))"

section \<open>Regular files below a directory\<close>

text \<open>
  The directories above the leaf are opened one below the other, all kept on a stack, and closed in
  reverse order after the leaf is open; an exception of a later close replaces an earlier one.
\<close>

fun open_parents :: "nat \<Rightarrow> string list \<Rightarrow> nat list \<Rightarrow> world \<Rightarrow> nat res \<times> nat list \<times> world" where
  "open_parents fd [] stack w = (Inr fd, stack, w)"
| "open_parents fd (part # parts) stack w =
     (case os_open_dir_at part fd w of
        (Inl e, w') \<Rightarrow> (Inl e, stack, w')
      | (Inr child, w') \<Rightarrow> open_parents child parts (child # stack) w')"

fun close_stack :: "nat list \<Rightarrow> err option \<Rightarrow> world \<Rightarrow> err option \<times> world" where
  "close_stack [] raised w = (raised, w)"
| "close_stack (fd # fds) raised w =
     (case os_close fd w of
        (Inl e, w') \<Rightarrow> close_stack fds (Some e) w'
      | (Inr _, w') \<Rightarrow> close_stack fds raised w')"

definition open_leaf :: "err \<Rightarrow> nat \<Rightarrow> string list \<Rightarrow> nat io" where
  "open_leaf e fd parts w =
     (case open_parents fd (butlast parts) [] w of (parent, stack, w1) \<Rightarrow>
      (case (case parent of Inl e' \<Rightarrow> (Inl e', w1) | Inr p \<Rightarrow> os_open_read_at (last parts) p w1) of (leaf, w2) \<Rightarrow>
       (case close_stack stack None w2 of
          (None, w3) \<Rightarrow> os_errorI (liftI leaf) e w3
        | (Some e', w3) \<Rightarrow>
            (case leaf of
               Inl _ \<Rightarrow> os_errorI (raiseI e') e w3
             | Inr d \<Rightarrow> closing_on_error d e (raiseI e') w3))))"

definition open_relative_regular :: "pinned \<Rightarrow> string \<Rightarrow> string \<Rightarrow> (nat \<times> stat_result) io" where
  "open_relative_regular d relative label =
     (let e = ValueError (label @ '' has a changed or symlinked path'') in
      bindI (liftI (relative_parts relative label False)) (\<lambda>parts.
      bindI (verify_pinned d) (\<lambda>_.
      bindI (open_leaf e (pd_fd d) parts) (\<lambda>fd.
      closing_on_error fd e
        (bindI (os_fstat fd) (\<lambda>s.
           if st_type s \<noteq> Regular \<or> st_nlink s \<noteq> 1
           then raiseI (ValueError (label @ '' is not a single-link regular file''))
           else returnI (fd, s)))))))"

definition read_regular_at :: "pinned \<Rightarrow> string \<Rightarrow> nat \<Rightarrow> string \<Rightarrow> bytes io" where
  "read_regular_at d relative maximum label =
     bindI (open_relative_regular d relative label) (\<lambda>(fd, opened).
     if maximum < st_size opened
     then bindI (os_close fd) (\<lambda>_. raiseI (ValueError (label @ '' exceeds the safety limit'')))
     else
       bindI (finallyI
         (bindI (read_up_to fd maximum 0) (\<lambda>v. bindI (os_fstat fd) (\<lambda>after. returnI (v, after))))
         (os_close fd)) (\<lambda>(v, after).
       if maximum < length v then raiseI (ValueError (label @ '' exceeds the safety limit''))
       else
         bindI (open_relative_regular d relative label) (\<lambda>(reopened, again).
         bindI (os_close reopened) (\<lambda>_.
         if identity after \<noteq> identity opened \<or> identity again \<noteq> identity opened
         then raiseI (ValueError (label @ '' changed while reading''))
         else bindI (verify_pinned d) (\<lambda>_. returnI v)))))"

definition read_regular_stable :: "path \<Rightarrow> nat \<Rightarrow> string \<Rightarrow> bytes io" where
  "read_regular_stable p maximum label =
     bindI (pin_directory (butlast p) (label @ '' parent'')) (\<lambda>d.
       finallyI (read_regular_at d (path_name p) maximum label) (os_close (pd_fd d)))"

text \<open>\<open>os.fchmod\<close> takes a new change time.\<close>

definition os_fchmod :: "nat \<Rightarrow> nat \<Rightarrow> unit io" where
  "os_fchmod fd perm = syscall (\<lambda>_ w. case inode_of w fd of
       None \<Rightarrow> fail ''fchmod'' w
     | Some (ino, n) \<Rightarrow> (Inr (), set_inode ino (n\<lparr>n_perm := perm, n_ctime := fs_clock (w_fs w)\<rparr>) w))"

definition write_new_regular_at :: "pinned \<Rightarrow> string \<Rightarrow> bytes \<Rightarrow> nat \<Rightarrow> unit io" where
  "write_new_regular_at d name payload perm =
     bindI (liftI (relative_parts name ''snapshot filename'' False)) (\<lambda>parts.
     if length parts \<noteq> 1 then raiseI (ValueError ''snapshot filename must be a basename'')
     else
       bindI (verify_pinned d) (\<lambda>_.
       bindI (os_errorI (os_create_at (hd parts) perm (pd_fd d)) (ValueError ''snapshot destination is unsafe'')) (\<lambda>fd.
       bindI (finallyI
         (bindI (write_loop fd (length payload) ''snapshot write made no progress'' payload) (\<lambda>_.
          bindI (os_fchmod fd perm) (\<lambda>_.
          bindI (os_fsync fd) (\<lambda>_.
          bindI (os_fstat fd) (\<lambda>s. returnI (identity s))))))
         (os_close fd)) (\<lambda>written.
       bindI (open_relative_regular d (hd parts) ''snapshot file'') (\<lambda>(reopened, s).
       bindI (os_close reopened) (\<lambda>_.
       if st_size s \<noteq> length payload \<or> identity s \<noteq> written
       then raiseI (ValueError ''snapshot file changed while publishing'')
       else bindI (os_fsync (pd_fd d)) (\<lambda>_. verify_pinned d)))))))"

text \<open>
  The descriptor of the new directory is closed on every failure, that of its parent always; the
  descriptor is \<open>None\<close> again once the directory is returned, so a failing close of the parent leaves
  it open.
\<close>

definition create_pinned_directory :: "path \<Rightarrow> string \<Rightarrow> pinned io" where
  "create_pinned_directory p label =
     (let e = ValueError (label @ '' cannot be created securely'') in
      if path_name p = [] \<or> path_name p = ''.'' \<or> path_name p = ''..''
      then raiseI (ValueError (label @ '' path is invalid''))
      else
        bindI (pin_directory (butlast p) (label @ '' parent'')) (\<lambda>parent.
        finallyI
          (bindI (os_errorI
             (bindI (os_mkdir_at (path_name p) 448 (pd_fd parent)) (\<lambda>_. os_open_dir_at (path_name p) (pd_fd parent))) e) (\<lambda>fd.
           closing_on_error fd e
             (bindI (os_fchmod fd 448) (\<lambda>_.
              bindI (os_fsync (pd_fd parent)) (\<lambda>_.
              bindI (pin_opened p (pd_canonical parent @ [path_name p]) fd) (\<lambda>d.
              bindI (verify_pinned parent) (\<lambda>_.
              bindI (verify_pinned d) (\<lambda>_. returnI d))))))))
          (os_close (pd_fd parent))))"

end
