(* ===== verification/Handoff_Files_Props.thy ===== *)
theory Handoff_Files_Props
  imports Handoff_Files
begin

text \<open>
  The file operations of the handoff in an environment that keeps time: what they return is what the
  named files held, unchanged, during the whole operation.
\<close>

section \<open>Names\<close>

lemma split_on_parts: "p \<in> set (split_on d s) \<Longrightarrow> d \<notin> set p"
  by (induction s arbitrary: p) (auto split: list.splits if_splits)

lemma posix_parts_no_slash: "p \<in> set (posix_parts s) \<Longrightarrow> CHR ''/'' \<notin> set p"
  using split_on_parts by (auto simp: posix_parts_def)

text \<open>A canonical component is what it says: a name, not a path.\<close>

lemma canonical_component_iff:
  "canonical_component v label = Inr u \<longleftrightarrow>
     u = v \<and> v \<noteq> [] \<and> v \<noteq> ''.'' \<and> v \<noteq> ''..'' \<and> CHR ''/'' \<notin> set v \<and> CHR 0x00 \<notin> set v"
proof -
  have slash: "CHR ''/'' \<notin> set v" if "\<not> is_absolute v" "length (pure_parts v) = 1" "as_posix v = v"
  proof -
    from that(1,2) obtain p where p: "posix_parts v = [p]" by (auto simp: pure_parts_def length_Suc_conv)
    hence "v = p" using that(3) by (simp add: as_posix_def)
    thus ?thesis using posix_parts_no_slash [of p v] p by simp
  qed
  have parts: "pure_parts v = [v] \<and> as_posix v = v \<and> \<not> is_absolute v"
    if "v \<noteq> []" "v \<noteq> ''.''" "CHR ''/'' \<notin> set v"
  proof -
    have "\<not> is_absolute v" using that(1,3) by (cases v) (auto simp: is_absolute_def startswith_def)
    thus ?thesis using that split_on_single [OF that(3)] by (simp add: pure_parts_def posix_parts_def as_posix_def)
  qed
  show ?thesis
  proof
    assume "canonical_component v label = Inr u"
    hence *: "u = v" "v \<noteq> []" "\<not> is_absolute v" "length (pure_parts v) = 1" "hd (pure_parts v) \<noteq> ''..''"
      "hd (pure_parts v) \<noteq> ''.''" "as_posix v = v" "CHR 0x00 \<notin> set v"
      unfolding canonical_component_def by (auto split: if_split_asm)
    have s: "CHR ''/'' \<notin> set v" by (rule slash [OF *(3,4,7)])
    have "v \<noteq> ''.''"
    proof
      assume "v = ''.''"
      thus False using *(4) by (simp add: pure_parts_def posix_parts_def is_absolute_def startswith_def)
    qed
    thus "u = v \<and> v \<noteq> [] \<and> v \<noteq> ''.'' \<and> v \<noteq> ''..'' \<and> CHR ''/'' \<notin> set v \<and> CHR 0x00 \<notin> set v"
      using * s parts by auto
  next
    assume *: "u = v \<and> v \<noteq> [] \<and> v \<noteq> ''.'' \<and> v \<noteq> ''..'' \<and> CHR ''/'' \<notin> set v \<and> CHR 0x00 \<notin> set v"
    with parts have "pure_parts v = [v]" "as_posix v = v" "\<not> is_absolute v" by auto
    thus "canonical_component v label = Inr u" using * by (simp add: canonical_component_def)
  qed
qed

section \<open>Reading\<close>

lemma read_up_to_run:
  assumes "read_up_to fd maximum count w = (r, w')"
  obtains (stop) "maximum < count" "r = Inr []" "w' = w"
  | (error) e where "os_read fd (min (64 * 1024) (maximum + 1 - count)) w = (Inl e, w')" "r = Inl e"
  | (eof) "\<not> maximum < count" "os_read fd (min (64 * 1024) (maximum + 1 - count)) w = (Inr [], w')" "r = Inr []"
  | (more) chunk w1 r1 where "\<not> maximum < count" "os_read fd (min (64 * 1024) (maximum + 1 - count)) w = (Inr chunk, w1)"
      "chunk \<noteq> []" "read_up_to fd maximum (count + length chunk) w1 = (r1, w')"
      "r = (case r1 of Inl e \<Rightarrow> Inl e | Inr rest \<Rightarrow> Inr (chunk @ rest))"
  using assms by (subst (asm) read_up_to.simps) (auto split: if_splits prod.splits sum.splits)

lemma balanced_read_up_to [balanced_intro]: "balanced (read_up_to fd maximum count)"
  unfolding balanced_def
proof
  fix w show "w_fds (snd (read_up_to fd maximum count w)) = w_fds w"
  proof (induction fd maximum count w rule: read_up_to.induct)
    case (1 fd maximum count w)
    obtain r w' where run: "read_up_to fd maximum count w = (r, w')" by (cases "read_up_to fd maximum count w")
    show ?case
      using run
    proof (cases rule: read_up_to_run)
      case (more chunk w1 r1)
      thus ?thesis using 1 [OF more(1) more(2) [symmetric] refl more(3)] balancedD [OF balanced_syscalls(5) more(2)] run
        by simp
    qed (use run balancedD [OF balanced_syscalls(5)] in auto)
  qed
qed

lemma progress_read_up_to [progress_intro]: "progress (read_up_to fd maximum count)"
proof (rule progressI)
  fix w r w' assume "timely w" and "read_up_to fd maximum count w = (r, w')"
  thus "timely w' \<and> evolves (w_fs w) (w_fs w')"
  proof (induction fd maximum count w arbitrary: r rule: read_up_to.induct)
    case (1 fd maximum count w)
    show ?case
      using 1(3)
    proof (cases rule: read_up_to_run)
      case (more chunk w1 r1)
      note p = progressD [OF progress_syscalls(5) 1(2) more(2)]
      show ?thesis using 1(1) [OF more(1) more(2) [symmetric] refl more(3) conjunct1 [OF p] more(4)] p evolves_trans by blast
    qed (use 1(2) progressD [OF progress_syscalls(5)] in auto)
  qed
qed

text \<open>What is read is a part of a file that stays the same until later.\<close>

lemma read_later:
  assumes v: "timely v" "fs_inode (w_fs v) ino = Some n" "n_content n = File c"
    and w: "timely w" "evolves (w_fs v) (w_fs w)" "map_of (w_fds w) fd = Some ino"
    and run: "os_read fd m w = (Inr chunk, w1)"
    and u: "evolves (w_fs w1) (w_fs u)" "fs_inode (w_fs u) ino = Some n"
  shows "\<exists>k. chunk = take k (drop (w_pos w fd) c) \<and> (m = 0 \<or> 0 < k)"
    and "w_pos w1 fd = w_pos w fd + length chunk" and "w_fds w1 = w_fds w"
proof -
  obtain limit w2 ino' nd b where
    s: "env_step w limit w2" and fd: "map_of (w_fds w2) fd = Some ino'"
    and nd: "fs_inode (w_fs w2) ino' = Some nd" "n_content nd = File b"
    and ch: "chunk = take (transferred limit m) (drop (w_pos w2 fd) b)"
    and w1: "w1 = w2\<lparr>w_pos := (w_pos w2)(fd := w_pos w2 fd + length chunk)\<rparr>"
    using run unfolding os_read_iff by blast
  have ino: "ino' = ino" using fd w(3) s by simp
  have "evolves (w_fs w) (w_fs w2)" using env_step_progress [OF s w(1)] by blast
  hence e: "evolves (w_fs v) (w_fs w2)" by (rule evolves_trans [OF w(2)])
  have st: "stamped (w_fs v)" using v(1) by (simp add: timely_def)
  have e2: "evolves (w_fs w2) (w_fs u)" using u(1) w1 by simp
  have "fs_inode (w_fs w2) ino = Some n" by (rule unchanged_between(2) [OF st e e2 v(2) u(2) refl])
  hence "b = c" using nd v(3) ino by simp
  moreover have "m = 0 \<or> 0 < transferred limit m" by (auto simp: transferred_def split: option.split)
  ultimately show "\<exists>k. chunk = take k (drop (w_pos w fd) c) \<and> (m = 0 \<or> 0 < k)" using ch s by auto
  show "w_pos w1 fd = w_pos w fd + length chunk" "w_fds w1 = w_fds w" using w1 s by simp_all
qed

lemma read_up_to_content:
  assumes v: "timely v" "fs_inode (w_fs v) ino = Some n" "n_content n = File c"
    and u: "fs_inode (w_fs u) ino = Some n"
    and run: "read_up_to fd maximum count w = (Inr b, w')" "evolves (w_fs w') (w_fs u)"
    and w: "timely w" "evolves (w_fs v) (w_fs w)" "map_of (w_fds w) fd = Some ino"
  shows "b = take (length b) (drop (w_pos w fd) c) \<and>
    (maximum < count + length b \<or> length c \<le> w_pos w fd + length b)"
  using run w
proof (induction fd maximum count w arbitrary: b rule: read_up_to.induct)
  case (1 fd maximum count w)
  note IH = 1(1) and run = 1(2) and later = 1(3) and w = 1(4-6)
  show ?case
    using run
  proof (cases rule: read_up_to_run)
    case stop
    thus ?thesis by simp
  next
    case eof
    have "min (64 * 1024) (maximum + 1 - count) \<noteq> 0" using eof(1) by simp
    with read_later(1) [OF v w eof(2) later u] obtain k where "[] = take k (drop (w_pos w fd) c)" "0 < k"
      by blast
    hence "length c \<le> w_pos w fd" by simp
    thus ?thesis using eof(3) by simp
  next
    case (more chunk w1 r1)
    from more(5) obtain rest where r1: "r1 = Inr rest" "b = chunk @ rest" by (cases r1) auto
    note p1 = progressD [OF progress_syscalls(5) w(1) more(2)]
    note p2 = progressD [OF progress_read_up_to conjunct1 [OF p1] more(4)]
    have later1: "evolves (w_fs w1) (w_fs u)" using p2 later evolves_trans by blast
    note r = read_later [OF v w more(2) later1 u]
    from r(1) obtain k where k: "chunk = take k (drop (w_pos w fd) c)" by blast
    have "rest = take (length rest) (drop (w_pos w1 fd) c) \<and>
        (maximum < count + length chunk + length rest \<or> length c \<le> w_pos w1 fd + length rest)"
      by (rule IH [OF more(1) more(2) [symmetric] refl more(3) more(4) [unfolded r1(1)] later
            conjunct1 [OF p1] evolves_trans [OF w(2) conjunct2 [OF p1]]]) (simp add: r(3) w(3))
    moreover have "chunk = take (length chunk) (drop (w_pos w fd) c)"
      unfolding k by (simp add: min_def)
    ultimately show ?thesis unfolding r(2) r1(2)
      by (auto simp: take_add add.commute add.left_commute)
  qed simp
qed

section \<open>The protocol of a checked read\<close>

lemma read_checked_trace:
  assumes "read_checked directory name maximum label w = (Inr b, w')"
  obtains before fd opened after final w1 w2 w3 w4 w5 w6 w7 where
    "os_stat_at name directory w = (Inr before, w1)" "bounded_regular before maximum"
    "os_open_read_at name directory w1 = (Inr fd, w2)"
    "os_fstat fd w2 = (Inr opened, w3)" "identity opened = identity before"
    "read_up_to fd maximum 0 w3 = (Inr b, w4)"
    "os_fstat fd w4 = (Inr after, w5)" "identity after = identity before"
    "os_close fd w5 = (Inr (), w6)"
    "os_stat_at name directory w6 = (Inr final, w7)" "identity final = identity before"
    "length b = st_size before" "length b \<le> maximum"
    "reopen_check directory name before label w7 = (Inr (), w')"
  using assms [unfolded read_checked_def, unfolded io_iff ex_unit de_Morgan_disj not_not not_less]
  by (elim exE conjE, hypsubst, simp only: fst_conv snd_conv)

lemma progress_reopen_check [progress_intro]: "progress (reopen_check directory name before label)"
  unfolding reopen_check_def by (intro progress_intro)

lemma read_checked_held:
  assumes w: "timely w" and run: "read_checked directory name maximum label w = (Inr b, w')"
  shows "held_throughout w w' directory name b \<and> 0 < length b \<and> length b \<le> maximum"
  using run
proof (rule read_checked_trace)
  fix before fd opened after final w1 w2 w3 w4 w5 w6 w7
  assume 1: "os_stat_at name directory w = (Inr before, w1)" and g: "bounded_regular before maximum"
    and 2: "os_open_read_at name directory w1 = (Inr fd, w2)"
    and 3: "os_fstat fd w2 = (Inr opened, w3)" and i3: "identity opened = identity before"
    and 4: "read_up_to fd maximum 0 w3 = (Inr b, w4)"
    and 5: "os_fstat fd w4 = (Inr after, w5)" and i5: "identity after = identity before"
    and 6: "os_close fd w5 = (Inr (), w6)"
    and 7: "os_stat_at name directory w6 = (Inr final, w7)" and i7: "identity final = identity before"
    and len: "length b = st_size before" "length b \<le> maximum"
    and 8: "reopen_check directory name before label w7 = (Inr (), w')"
  obtain ino n where l: "lookup_at w1 directory name = Some (ino, n)" and before: "before = stat_of ino n"
    using 1 unfolding os_iff by blast
  from g obtain c where c: "n_content n = File c" "n_nlink n = 1" "0 < length c" unfolding before bounded_regular_def by auto
  note n = lookup_at_inode [OF l]
  note id3 = i3 [unfolded before] and id5 = i5 [unfolded before] and id7 = i7 [unfolded before]
  have p1: "timely w1" "evolves (w_fs w) (w_fs w1)" using progressD [OF progress_syscalls(2) w 1] by auto
  have p2: "timely w2" "evolves (w_fs w1) (w_fs w2)" using progressD [OF progress_syscalls(9) p1(1) 2] by auto
  note f3 = fstat_later [OF p1(1) n p2 3 identity_later(1) [OF id3] identity_later(2) [OF id3]]
  have p4: "timely w4" "evolves (w_fs w3) (w_fs w4)" using progressD [OF progress_read_up_to f3(1) 4] by auto
  note f5 = fstat_later [OF p1(1) n p4(1) evolves_trans [OF f3(2) p4(2)] 5 identity_later(1) [OF id5] identity_later(2) [OF id5]]
  have p6: "timely w6" "evolves (w_fs w5) (w_fs w6)" using progressD [OF progress_close f5(1) 6] by auto
  note f7 = stat_later [OF p1(1) n p6(1) evolves_trans [OF f5(2) p6(2)] 7 identity_later(1) [OF id7] identity_later(2) [OF id7]]
  have p8: "evolves (w_fs w7) (w_fs w')" using progressD [OF progress_reopen_check f7(1) 8] by auto
  have held: "held_throughout w w' directory name c"
    unfolding held_throughout_def using p1(2) f7(2) p8 l f7(3) c by blast
  have fd: "map_of (w_fds w3) fd = Some ino" using f3(4,5) by simp
  have "b = take (length b) (drop (w_pos w3 fd) c)"
    using read_up_to_content [OF p1(1) n c(1) f5(6) 4 f5(3) f3(1,2) fd] by blast
  moreover have "w_pos w3 fd = 0" using 2 3 unfolding os_iff by auto
  ultimately have "b = take (length b) c" by simp
  moreover have "length b = length c" using len(1) before c(1) by simp
  ultimately have "b = c" by simp
  thus ?thesis using held len c(3) by simp
qed

lemma progress_read_checked [progress_intro]: "progress (read_checked directory name maximum label)"
  unfolding read_checked_def by (intro progress_intro)

lemma balanced_reopen_check [balanced_intro]: "balanced (reopen_check directory name before label)"
  unfolding reopen_check_def by (rule balanced_bracket [OF opens_syscalls(4)]) (intro balanced_intro)

lemma balanced_read_checked [balanced_intro]: "balanced (read_checked directory name maximum label)"
  unfolding read_checked_def
  by (intro balanced_intro balanced_bracket_then opens_syscalls)

lemma balanced_regular [balanced_intro]:
  "balanced (read_regular directory name maximum label)" "balanced (digest_regular directory name maximum label)"
  unfolding read_regular_def digest_regular_def by (intro balanced_intro)+

lemma progress_regular [progress_intro]:
  "progress (read_regular directory name maximum label)" "progress (digest_regular directory name maximum label)"
  unfolding read_regular_def digest_regular_def by (intro progress_intro)+

lemma read_regular_held:
  assumes "timely w" and "read_regular directory name maximum label w = (Inr r, w')"
  shows "held_throughout w w' directory name (fst r) \<and> snd r = sha256_hex (fst r)
    \<and> 0 < length (fst r) \<and> length (fst r) \<le> maximum"
  using assms(2) read_checked_held [OF assms(1)] unfolding read_regular_def io_iff by auto

lemma digest_regular_held:
  assumes "timely w" and "digest_regular directory name maximum label w = (Inr r, w')"
  shows "\<exists>b. held_throughout w w' directory name b \<and> r = (length b, sha256_hex b)
    \<and> 0 < length b \<and> length b \<le> maximum"
  using assms(2) read_checked_held [OF assms(1)] unfolding digest_regular_def io_iff by blast

section \<open>Copying\<close>

lemma copy_up_to_run:
  assumes "copy_up_to src dst maximum count w = (r, w')"
  obtains (stop) "maximum < count" "r = Inr []" "w' = w"
  | (error) e where "os_read src (min (64 * 1024) (maximum + 1 - count)) w = (Inl e, w')" "r = Inl e"
  | (eof) "\<not> maximum < count" "os_read src (min (64 * 1024) (maximum + 1 - count)) w = (Inr [], w')" "r = Inr []"
  | (short) chunk w1 e where "\<not> maximum < count" "os_read src (min (64 * 1024) (maximum + 1 - count)) w = (Inr chunk, w1)"
      "write_loop dst (length chunk) ''short candidate write'' chunk w1 = (Inl e, w')" "r = Inl e"
  | (more) chunk w1 u w2 r1 where "\<not> maximum < count"
      "os_read src (min (64 * 1024) (maximum + 1 - count)) w = (Inr chunk, w1)" "chunk \<noteq> []"
      "write_loop dst (length chunk) ''short candidate write'' chunk w1 = (Inr u, w2)"
      "copy_up_to src dst maximum (count + length chunk) w2 = (r1, w')"
      "r = (case r1 of Inl e \<Rightarrow> Inl e | Inr rest \<Rightarrow> Inr (chunk @ rest))"
  using assms by (subst (asm) copy_up_to.simps) (auto split: if_splits prod.splits sum.splits)

lemma progress_copy_up_to [progress_intro]: "progress (copy_up_to src dst maximum count)"
proof (rule progressI)
  fix w r w' assume "timely w" and "copy_up_to src dst maximum count w = (r, w')"
  thus "timely w' \<and> evolves (w_fs w) (w_fs w')"
  proof (induction src dst maximum count w arbitrary: r rule: copy_up_to.induct)
    case (1 src dst maximum count w)
    show ?case
      using 1(3)
    proof (cases rule: copy_up_to_run)
      case (short chunk w1 e)
      note p = progressD [OF progress_syscalls(5) 1(2) short(2)]
      show ?thesis using progressD [OF progress_write_loop conjunct1 [OF p] short(3)] p evolves_trans by blast
    next
      case (more chunk w1 u w2 r1)
      note p = progressD [OF progress_syscalls(5) 1(2) more(2)]
      note q = progressD [OF progress_write_loop conjunct1 [OF p] more(4)]
      have "evolves (w_fs w) (w_fs w2)" using p q evolves_trans by blast
      with 1(1) [OF more(1) more(2) [symmetric] refl more(3) more(4) [symmetric] refl conjunct1 [OF q] more(5)]
      show ?thesis using evolves_trans by blast
    qed (use 1(2) progressD [OF progress_syscalls(5)] in auto)
  qed
qed

lemma balanced_write: "write_loop dst k m chunk w = (r, w') \<Longrightarrow> w_fds w' = w_fds w"
  using balancedD [OF balanced_write_loop] .

text \<open>Writing to one descriptor does not move another.\<close>

lemma write_loop_pos: "write_loop dst k m view w = (r, w') \<Longrightarrow> fd \<noteq> dst \<Longrightarrow> w_pos w' fd = w_pos w fd"
proof (induction dst k m view w rule: write_loop.induct)
  case (1 dst k m view w)
  obtain r1 w1 where o: "os_write dst (take k view) w = (r1, w1)" by (cases "os_write dst (take k view) w")
  have act: "w_pos (snd (case inode_of w dst of
       Some (ino, nd) \<Rightarrow> (case n_content nd of
           File b \<Rightarrow>
             let n = (case limit of None \<Rightarrow> length data | Some m \<Rightarrow> min (length data) m);
                 pos = w_pos w dst;
                 b' = take pos b @ replicate (pos - length b) (CHR 0x00) @ take n data @ drop (pos + n) b
             in (Inr n, set_inode ino (nd\<lparr>n_content := File b', n_mtime := fs_clock (w_fs w),
                                          n_ctime := fs_clock (w_fs w)\<rparr>)
                          (w\<lparr>w_pos := (w_pos w)(dst := pos + n)\<rparr>))
         | _ \<Rightarrow> fail ''write'' w)
     | None \<Rightarrow> fail ''write'' w)) fd = w_pos w fd" for w limit and data :: bytes
    using 1(3) by (auto simp: fail_def Let_def set_inode_def split: option.split prod.split content.split)
  have "w_pos (snd (os_write dst (take k view) w)) fd = w_pos w fd"
    unfolding os_write_def syscall_def
    by (cases "w_schedule w") (use act in \<open>auto simp: Let_def\<close>)
  hence p: "w_pos w1 fd = w_pos w fd" using o by simp
  show ?case
    using 1(2) 1(1) [OF _ o [symmetric]] 1(3) o p
    by (subst (asm) write_loop.simps) (auto split: if_splits sum.splits)
qed

lemma copy_up_to_content:
  assumes v: "timely v" "fs_inode (w_fs v) ino = Some n" "n_content n = File c"
    and u: "fs_inode (w_fs u) ino = Some n" and fds: "src \<noteq> dst"
    and run: "copy_up_to src dst maximum count w = (Inr b, w')" "evolves (w_fs w') (w_fs u)"
    and w: "timely w" "evolves (w_fs v) (w_fs w)" "map_of (w_fds w) src = Some ino"
  shows "b = take (length b) (drop (w_pos w src) c)"
  using fds run w
proof (induction src dst maximum count w arbitrary: b rule: copy_up_to.induct)
  case (1 src dst maximum count w)
  note IH = 1(1) and fds = 1(2) and run = 1(3) and later = 1(4) and w = 1(5-7)
  show ?case
    using run
  proof (cases rule: copy_up_to_run)
    case (more chunk w1 x w2 r1)
    from more(6) obtain rest where r1: "r1 = Inr rest" "b = chunk @ rest" by (cases r1) auto
    note p1 = progressD [OF progress_syscalls(5) w(1) more(2)]
    note p2 = progressD [OF progress_write_loop conjunct1 [OF p1] more(4)]
    note p3 = progressD [OF progress_copy_up_to conjunct1 [OF p2] more(5)]
    have later1: "evolves (w_fs w1) (w_fs u)"
      by (rule evolves_trans [OF conjunct2 [OF p2] evolves_trans [OF conjunct2 [OF p3] later]])
    have e2: "evolves (w_fs v) (w_fs w2)"
      by (rule evolves_trans [OF w(2) evolves_trans [OF conjunct2 [OF p1] conjunct2 [OF p2]]])
    note r = read_later [OF v w more(2) later1 u]
    from r(1) obtain k where k: "chunk = take k (drop (w_pos w src) c)" by blast
    have fd2: "map_of (w_fds w2) src = Some ino" using balanced_write [OF more(4)] r(3) w(3) by simp
    have pos2: "w_pos w2 src = w_pos w src + length chunk" using write_loop_pos [OF more(4) fds] r(2) by simp
    have "rest = take (length rest) (drop (w_pos w2 src) c)"
      by (rule IH [OF more(1) more(2) [symmetric] refl more(3) more(4) [symmetric] refl fds more(5) [unfolded r1(1)] later
            conjunct1 [OF p2] e2 fd2])
    moreover have "chunk = take (length chunk) (drop (w_pos w src) c)"
      unfolding k by (simp add: min_def)
    ultimately show ?thesis unfolding pos2 r1(2) by (auto simp: take_add add.commute)
  qed (use run in simp_all)
qed

lemma copy_regular_trace:
  assumes "copy_regular sd sn dd dn maximum label w = (Inr r, w')"
  obtains before src opened dst content after dafter final copied w1 w2 w3 w4 w5 w6 w7 w8 w9 w10 w11 where
    "os_stat_at sn sd w = (Inr before, w1)" "bounded_regular before maximum"
    "os_open_read_at sn sd w1 = (Inr src, w2)"
    "os_fstat src w2 = (Inr opened, w3)" "identity opened = identity before"
    "os_create_at dn 384 dd w3 = (Inr dst, w4)"
    "copy_up_to src dst maximum 0 w4 = (Inr content, w5)"
    "os_fstat src w5 = (Inr after, w6)" "identity after = identity before"
    "os_fsync dst w6 = (Inr (), w7)" "os_fstat dst w7 = (Inr dafter, w8)"
    "length content = st_size before" "length content \<le> maximum"
    "os_close dst w8 = (Inr (), w9)" "os_close src w9 = (Inr (), w10)"
    "os_stat_at sn sd w10 = (Inr final, w11)" "identity final = identity before"
    "digest_regular dd dn maximum (''copied '' @ label) w11 = (Inr copied, w')"
    "fst copied = length content" "snd copied = sha256_hex content"
    "r = (length content, sha256_hex content)"
  using assms [unfolded copy_regular_def, unfolded io_iff ex_unit de_Morgan_disj not_not not_less]
  by (elim exE conjE, hypsubst) (rule that, (assumption | rule refl)+)

lemma create_pos: "os_create_at name perm fd0 w = (Inr dst, w') \<Longrightarrow> fd \<noteq> dst \<Longrightarrow> w_pos w' fd = w_pos w fd"
proof -
  assume run: "os_create_at name perm fd0 w = (Inr dst, w')" and ne: "fd \<noteq> dst"
  have ce: "w_pos v' = w_pos v" if "create_entry name perm (File []) fd0 v = Some (ino, v')" for v v' ino
    using that by (auto simp: create_entry_def Let_def set_inode_def split: option.splits prod.splits content.splits)
  from run obtain limit v ino v' where "env_step w limit v" "create_entry name perm (File []) fd0 v = Some (ino, v')"
      "new_fd ino v' = (Inr dst, w')"
    unfolding os_create_at_def syscall_iff found_iff by blast
  thus ?thesis using ne ce by (auto simp: new_fd_def Let_def)
qed

lemma copy_regular_held:
  assumes w: "timely w" and run: "copy_regular sd sn dd dn maximum label w = (Inr r, w')"
  shows "\<exists>c b. held_throughout w w' sd sn c \<and> held_throughout w w' dd dn b
    \<and> length b = length c \<and> sha256_hex b = sha256_hex c
    \<and> r = (length c, sha256_hex c) \<and> 0 < length c \<and> length c \<le> maximum"
  using run
proof (rule copy_regular_trace)
  fix before src opened dst content after dafter final copied w1 w2 w3 w4 w5 w6 w7 w8 w9 w10 w11
  assume 1: "os_stat_at sn sd w = (Inr before, w1)" and g: "bounded_regular before maximum"
    and 2: "os_open_read_at sn sd w1 = (Inr src, w2)"
    and 3: "os_fstat src w2 = (Inr opened, w3)" and i3: "identity opened = identity before"
    and 4: "os_create_at dn 384 dd w3 = (Inr dst, w4)"
    and 5: "copy_up_to src dst maximum 0 w4 = (Inr content, w5)"
    and 6: "os_fstat src w5 = (Inr after, w6)" and i6: "identity after = identity before"
    and 7: "os_fsync dst w6 = (Inr (), w7)" and 8: "os_fstat dst w7 = (Inr dafter, w8)"
    and len: "length content = st_size before"
    and 9: "os_close dst w8 = (Inr (), w9)" and 10: "os_close src w9 = (Inr (), w10)"
    and 11: "os_stat_at sn sd w10 = (Inr final, w11)" and i11: "identity final = identity before"
    and 12: "digest_regular dd dn maximum (''copied '' @ label) w11 = (Inr copied, w')"
    and r: "fst copied = length content" "snd copied = sha256_hex content" "r = (length content, sha256_hex content)"
  obtain ino n where l: "lookup_at w1 sd sn = Some (ino, n)" and before: "before = stat_of ino n"
    using 1 unfolding os_iff by blast
  from g obtain c where c: "n_content n = File c" "n_nlink n = 1" unfolding before bounded_regular_def by auto
  note n = lookup_at_inode [OF l]
  note id3 = i3 [unfolded before] and id6 = i6 [unfolded before] and id11 = i11 [unfolded before]
  have p1: "timely w1" "evolves (w_fs w) (w_fs w1)" using progressD [OF progress_syscalls(2) w 1] by auto
  have p2: "timely w2" "evolves (w_fs w1) (w_fs w2)" using progressD [OF progress_syscalls(9) p1(1) 2] by auto
  note f3 = fstat_later [OF p1(1) n p2 3 identity_later(1) [OF id3] identity_later(2) [OF id3]]
  have p4: "timely w4" "evolves (w_fs w3) (w_fs w4)" using progressD [OF progress_creating(1) f3(1) 4] by auto
  have p5: "timely w5" "evolves (w_fs w4) (w_fs w5)" using progressD [OF progress_copy_up_to p4(1) 5] by auto
  have e4: "evolves (w_fs w1) (w_fs w4)" by (rule evolves_trans [OF f3(2) p4(2)])
  note f6 = fstat_later [OF p1(1) n p5(1) evolves_trans [OF e4 p5(2)] 6 identity_later(1) [OF id6] identity_later(2) [OF id6]]
  have p7: "timely w7" "evolves (w_fs w6) (w_fs w7)" using progressD [OF progress_syscalls(6) f6(1) 7] by auto
  have p8: "timely w8" "evolves (w_fs w7) (w_fs w8)" using progressD [OF progress_syscalls(3) p7(1) 8] by auto
  have p9: "timely w9" "evolves (w_fs w8) (w_fs w9)" using progressD [OF progress_close p8(1) 9] by auto
  have p10: "timely w10" "evolves (w_fs w9) (w_fs w10)" using progressD [OF progress_close p9(1) 10] by auto
  have e10: "evolves (w_fs w1) (w_fs w10)"
    by (rule evolves_trans [OF f6(2) evolves_trans [OF p7(2) evolves_trans [OF p8(2) evolves_trans [OF p9(2) p10(2)]]]])
  note f11 = stat_later [OF p1(1) n p10(1) e10 11 identity_later(1) [OF id11] identity_later(2) [OF id11]]
  have p12: "evolves (w_fs w11) (w_fs w')" using progressD [OF progress_regular(2) f11(1) 12] by auto
  have src: "map_of (w_fds w3) src = Some ino" using f3(4,5) by simp
  note dst = opensD [OF opens_syscalls(5) 4]
  have ne: "src \<noteq> dst" using src dst map_of_SomeD [OF src] by force
  have fd4: "map_of (w_fds w4) src = Some ino" using src dst ne by auto
  have pos: "w_pos w4 src = 0"
  proof -
    have "w_pos w3 src = 0" using 2 3 unfolding os_iff by auto
    thus ?thesis using create_pos [OF 4 ne] by simp
  qed
  have "content = take (length content) c"
    using copy_up_to_content [OF p1(1) n c(1) f6(6) ne 5 f6(3) p4(1) e4 fd4] pos by simp
  moreover have "length content = length c" using len before c(1) by simp
  ultimately have content: "content = c" by simp
  have src_held: "held_throughout w w' sd sn c"
    unfolding held_throughout_def using p1(2) f11(2) p12 l f11(3) c by blast
  from digest_regular_held [OF f11(1) 12] obtain b where
    b: "held_throughout w11 w' dd dn b" "copied = (length b, sha256_hex b)" "0 < length b" "length b \<le> maximum" by blast
  have "held_throughout w w' dd dn b"
    using held_throughout_wider [OF b(1) evolves_trans [OF p1(2) f11(2)] evolves_refl] .
  moreover have "length b = length c" "sha256_hex b = sha256_hex c" using b(2) r(1,2) content by simp_all
  moreover have "0 < length c" "length c \<le> maximum" using b(3,4) calculation(2) by simp_all
  ultimately show ?thesis using src_held r(3) content by blast
qed

section \<open>Properties\<close>

text \<open>A name is a canonical component exactly when it is a name and not a path: not empty, not
  \<open>.\<close> or \<open>..\<close>, without a slash and without a NUL.\<close>

theorem component_exact:
  "(canonical_component v label = Inr u) = (u = v \<and> list_all (\<lambda>x. v \<noteq> x) [[], ''.'', ''..'']
     \<and> list_all (\<lambda>c. c \<noteq> CHR ''/'' \<and> c \<noteq> CHR 0x00) v)"
  unfolding canonical_component_iff by (auto simp: list_all_iff)



text \<open>Under every schedule, failing calls included, reading and digesting a file leave exactly the descriptors
  open that they found.\<close>

theorem reads_return_descriptors:
  "w_fds (snd (read_regular directory name maximum label w)) = w_fds w \<and>
   w_fds (snd (digest_regular directory name maximum label w)) = w_fds w"
  using balanced_regular by (simp add: balanced_def)

section \<open>Instances\<close>

definition two_dirs :: world where
  "two_dirs = \<lparr>w_fs = \<lparr>
     fs_inode = [7 \<mapsto> \<lparr>n_dev = 2, n_content = Folder [(''a'', 8)], n_perm = 448, n_nlink = 2, n_mtime = 5, n_ctime = 5\<rparr>,
                 8 \<mapsto> \<lparr>n_dev = 2, n_content = File ''hello'', n_perm = 420, n_nlink = 1, n_mtime = 4, n_ctime = 4\<rparr>,
                 9 \<mapsto> \<lparr>n_dev = 2, n_content = Folder [], n_perm = 448, n_nlink = 2, n_mtime = 5, n_ctime = 5\<rparr>],
     fs_path = Map.empty, fs_canonical = (\<lambda>p. p), fs_clock = 12, fs_next = 20\<rparr>,
     w_fds = [(4, 9), (3, 7)], w_pos = (\<lambda>_. 0), w_schedule = []\<rparr>"

lemma two_dirs_timely: "timely two_dirs"
  by (simp add: timely_def two_dirs_def stamped_def split: if_split_asm)

lemma canonical_a: "canonical_component ''a'' label = Inr ''a''"
  by (simp add: canonical_component_iff)

lemma two_dirs_read: "fst (read_regular 3 ''a'' 100 ''file'' two_dirs) = Inr (''hello'', sha256_hex ''hello'')"
  by (simp add: read_regular_def read_checked_def bindI_def liftI_def canonical_a os_stat_at_def two_dirs_def
      lookup_at_def entries_of_def inode_of_def bounded_regular_def os_open_read_at_def new_fd_def Let_def fresh_fd_def
      finallyI_def os_fstat_def read_up_to.simps os_read_def transferred_def os_close_def returnI_def reopen_check_def)


lemma two_dirs_copy: "fst (copy_regular 3 ''a'' 4 ''b'' 100 ''file'' two_dirs) = Inr (5, sha256_hex ''hello'')"
proof -
  have b: "canonical_component ''b'' label = Inr ''b''" for label by (simp add: canonical_component_iff)
  show ?thesis
    by (simp add: copy_regular_def digest_regular_def read_checked_def bindI_def liftI_def canonical_a b os_stat_at_def
      two_dirs_def lookup_at_def entries_of_def inode_of_def bounded_regular_def os_open_read_at_def new_fd_def Let_def
      fresh_fd_def finallyI_def on_errorI_def os_fstat_def read_up_to.simps copy_up_to.simps write_loop.simps os_read_def
      os_write_def os_create_at_def create_entry_def set_inode_def os_fsync_def transferred_def os_close_def returnI_def
      reopen_check_def identity_def stat_of_def)
qed


end
