(* ===== verification/Pinned_Inputs_Props.thy ===== *)
theory Pinned_Inputs_Props
  imports Pinned_Inputs Handoff_Files_Props
begin

text \<open>
  Reading through a pinned directory: every descriptor is given back, whatever fails (\<open>owns\<close> and
  \<open>releases\<close> are the scripts that take over an open descriptor), and when the environment keeps time
  a stable read returns what the named file held while it was read.
\<close>

section \<open>Descriptors\<close>

lemma os_errorI_Inl_iff:
  "os_errorI m e w = (Inl e', w') \<longleftrightarrow> (\<exists>e0. m w = (Inl e0, w') \<and> e' = (if is_os_error e0 then e else e0))"
  by (auto simp: os_errorI_def split: prod.splits sum.splits)

lemma on_errorI_Inl:
  "on_errorI m c w = (Inl e, w') \<Longrightarrow> \<exists>e1 w1. m w = (Inl e1, w1) \<and> w' = snd (c w1)"
  by (auto simp: on_errorI_def split: prod.splits sum.splits)

lemma closing_iff [io_iff]: "closing_on_error fd e m w = (Inr y, w') \<longleftrightarrow> m w = (Inr y, w')"
  by (simp add: closing_on_error_def io_iff)

lemma closing_Inl:
  "closing_on_error fd e m w = (Inl e', w') \<Longrightarrow> \<exists>e1 w1. m w = (Inl e1, w1) \<and> w' = snd (os_close fd w1)"
  unfolding closing_on_error_def by (drule on_errorI_Inl) (auto simp: os_errorI_Inl_iff)

text \<open>A script that takes over an open descriptor: it closes it when it raises, and may hand on another one.\<close>

definition owns :: "nat \<Rightarrow> ('a \<Rightarrow> nat) \<Rightarrow> 'a io \<Rightarrow> bool" where
  "owns fd g m \<longleftrightarrow> (\<forall>w ino fds. w_fds w = (fd, ino) # fds \<longrightarrow> fd \<notin> fst ` set fds \<longrightarrow>
     (case m w of
        (Inl e, w') \<Rightarrow> w_fds w' = fds
      | (Inr x, w') \<Rightarrow> g x \<notin> fst ` set fds \<and> (\<exists>ino. w_fds w' = (g x, ino) # fds)))"

lemma ownsI:
  assumes "\<And>w ino fds e w'. w_fds w = (fd, ino) # fds \<Longrightarrow> fd \<notin> fst ` set fds \<Longrightarrow> m w = (Inl e, w') \<Longrightarrow> w_fds w' = fds"
    and "\<And>w ino fds x w'. w_fds w = (fd, ino) # fds \<Longrightarrow> fd \<notin> fst ` set fds \<Longrightarrow> m w = (Inr x, w') \<Longrightarrow>
       g x \<notin> fst ` set fds \<and> (\<exists>ino. w_fds w' = (g x, ino) # fds)"
  shows "owns fd g m"
  unfolding owns_def
proof (intro allI impI)
  fix w :: world and ino fds assume fds: "w_fds w = (fd, ino) # fds" "fd \<notin> fst ` set fds"
  obtain r w' where r: "m w = (r, w')" by (cases "m w")
  show "case m w of (Inl e, w') \<Rightarrow> w_fds w' = fds
      | (Inr x, w') \<Rightarrow> g x \<notin> fst ` set fds \<and> (\<exists>ino. w_fds w' = (g x, ino) # fds)"
    using assms(1) [OF fds] assms(2) [OF fds] r by (cases r) auto
qed

lemma owns_errorD:
  "owns fd g m \<Longrightarrow> w_fds w = (fd, ino) # fds \<Longrightarrow> fd \<notin> fst ` set fds \<Longrightarrow> m w = (Inl e, w') \<Longrightarrow> w_fds w' = fds"
  unfolding owns_def by (drule spec [of _ w], drule spec [of _ ino], drule spec [of _ fds]) simp

lemma ownsD:
  "owns fd g m \<Longrightarrow> w_fds w = (fd, ino) # fds \<Longrightarrow> fd \<notin> fst ` set fds \<Longrightarrow> m w = (Inr x, w') \<Longrightarrow>
     g x \<notin> fst ` set fds \<and> (\<exists>ino. w_fds w' = (g x, ino) # fds)"
  unfolding owns_def by (drule spec [of _ w], drule spec [of _ ino], drule spec [of _ fds]) simp

lemma opens_owns:
  assumes m: "opens fd m" and f: "\<And>x. owns (fd x) g (f x)"
  shows "opens g (bindI m f)"
proof (rule opensI)
  fix w e w' assume "bindI m f w = (Inl e, w')"
  thus "w_fds w' = w_fds w"
    unfolding bindI_Inl_iff using opens_errorD [OF m] opensD [OF m] owns_errorD [OF f] by metis
next
  fix w x w' assume "bindI m f w = (Inr x, w')"
  thus "g x \<notin> fst ` set (w_fds w) \<and> (\<exists>ino. w_fds w' = (g x, ino) # w_fds w)"
    unfolding bindI_iff using opensD [OF m] ownsD [OF f] by metis
qed

lemma owns_bind:
  assumes m: "owns fd g m" and f: "\<And>x. owns (g x) h (f x)"
  shows "owns fd h (bindI m f)"
proof (rule ownsI)
  fix w ino fds e w' assume "w_fds w = (fd, ino) # fds" "fd \<notin> fst ` set fds" "bindI m f w = (Inl e, w')"
  thus "w_fds w' = fds"
    unfolding bindI_Inl_iff using owns_errorD [OF m] ownsD [OF m] owns_errorD [OF f] by metis
next
  fix w ino fds x w' assume "w_fds w = (fd, ino) # fds" "fd \<notin> fst ` set fds" "bindI m f w = (Inr x, w')"
  thus "h x \<notin> fst ` set fds \<and> (\<exists>ino. w_fds w' = (h x, ino) # fds)"
    unfolding bindI_iff using ownsD [OF m] ownsD [OF f] by metis
qed

lemma owns_guarded:
  assumes body: "balanced body" and same: "\<And>y w w'. body w = (Inr y, w') \<Longrightarrow> g y = fd"
  shows "owns fd g (on_errorI body (os_close fd))"
proof (rule ownsI)
  fix w ino fds e w'
  assume fds: "w_fds w = (fd, ino) # fds" "fd \<notin> fst ` set fds" and r: "on_errorI body (os_close fd) w = (Inl e, w')"
  obtain e1 w1 where "body w = (Inl e1, w1)" and "w' = snd (os_close fd w1)" using on_errorI_Inl [OF r] by blast
  thus "w_fds w' = fds" using balancedD [OF body] close_opened [OF fds(2)] fds(1) by metis
next
  fix w ino fds x w'
  assume fds: "w_fds w = (fd, ino) # fds" "fd \<notin> fst ` set fds" and r: "on_errorI body (os_close fd) w = (Inr x, w')"
  hence "body w = (Inr x, w')" by (simp add: io_iff)
  thus "g x \<notin> fst ` set fds \<and> (\<exists>ino. w_fds w' = (g x, ino) # fds)"
    using balancedD [OF body] same fds by metis
qed

lemma owns_closing:
  "balanced body \<Longrightarrow> (\<And>y w w'. body w = (Inr y, w') \<Longrightarrow> g y = fd) \<Longrightarrow> owns fd g (closing_on_error fd e body)"
  unfolding closing_on_error_def by (rule owns_guarded) (auto intro: balanced_intro simp: io_iff)

lemma owns_walk_down: "owns fd (\<lambda>d. d) (walk_down e fd parts)"
proof (induction parts arbitrary: fd)
  case Nil
  show ?case by (rule ownsI) (auto simp: returnI_def)
next
  case (Cons part parts)
  note child = opens_syscalls(2) [of part fd]
  have step: "owns fd (\<lambda>d. d) (bindI (closing_on_error fd e (os_open_dir_at part fd)) (\<lambda>child.
      bindI (closing_on_error child e (os_close fd)) (\<lambda>_. returnI child)))" (is "owns fd _ ?step")
  proof (rule ownsI)
    fix w ino fds e' w'
    assume fds: "w_fds w = (fd, ino) # fds" "fd \<notin> fst ` set fds" and r: "?step w = (Inl e', w')"
    then consider "closing_on_error fd e (os_open_dir_at part fd) w = (Inl e', w')"
      | c w1 where "os_open_dir_at part fd w = (Inr c, w1)" "closing_on_error c e (os_close fd) w1 = (Inl e', w')"
      by (auto simp: bindI_Inl_iff io_iff returnI_def)
    thus "w_fds w' = fds"
    proof cases
      case 1
      from closing_Inl [OF this] obtain e1 w1 where "os_open_dir_at part fd w = (Inl e1, w1)" "w' = snd (os_close fd w1)"
        by blast
      thus ?thesis using opens_errorD [OF child] close_opened [OF fds(2)] fds(1) by metis
    next
      case (2 c w1)
      from closing_Inl [OF 2(2)] obtain e1 w2 where c: "os_close fd w1 = (Inl e1, w2)" "w' = snd (os_close c w2)" by blast
      obtain i where i: "c \<notin> fst ` set (w_fds w)" "w_fds w1 = (c, i) # w_fds w" using opensD [OF child 2(1)] by blast
      have "w_fds w2 = (c, i) # fds"
        using c(1) i fds unfolding os_close_def
        by (auto simp: syscall_def fail_def Let_def filter_id_conv split: list.splits if_splits)
      thus ?thesis unfolding c(2) using i(1) fds(1) by (intro close_opened) auto
    qed
  next
    fix w ino fds c w'
    assume fds: "w_fds w = (fd, ino) # fds" "fd \<notin> fst ` set fds" and r: "?step w = (Inr c, w')"
    then obtain w1 where 1: "os_open_dir_at part fd w = (Inr c, w1)" and 2: "os_close fd w1 = (Inr (), w')"
      by (auto simp: io_iff)
    obtain i where i: "c \<notin> fst ` set (w_fds w)" "w_fds w1 = (c, i) # w_fds w" using opensD [OF child 1] by blast
    have "w_fds w' = filter (\<lambda>p. fst p \<noteq> fd) (w_fds w1)" using 2 unfolding os_iff by (auto simp: without_fd_def)
    also have "\<dots> = (c, i) # fds" using i fds by (auto simp: filter_id_conv)
    finally show "c \<notin> fst ` set fds \<and> (\<exists>ino. w_fds w' = (c, ino) # fds)" using i fds by auto
  qed
  have "walk_down e fd (part # parts) = bindI (bindI (closing_on_error fd e (os_open_dir_at part fd)) (\<lambda>child.
      bindI (closing_on_error child e (os_close fd)) (\<lambda>_. returnI child))) (\<lambda>child. walk_down e child parts)"
    by (simp add: bindI_assoc fun_eq_iff) (simp add: bindI_def returnI_def split: prod.split sum.split)
  thus ?case using owns_bind [OF step Cons.IH] by simp
qed

lemma opens_canonical: "opens (\<lambda>fd. fd) (open_canonical_directory p)"
  unfolding open_canonical_directory_def
  by (rule opens_owns [OF opens_os_errorI [OF opens_syscalls(1)]]) (rule owns_walk_down)

lemma balanced_pin_calls [balanced_intro]:
  "balanced (verify_pinned d)" "balanced (pin_opened p c fd)" "balanced (os_fchmod fd perm)"
  "balanced (os_set_inheritable fd)"
  unfolding verify_pinned_def pin_opened_def os_fchmod_def os_set_inheritable_def
  by (intro balanced_intro balanced_syscall; auto simp: fail_def split: option.splits prod.splits)+

lemma pin_opened_fd: "pin_opened p c fd w = (Inr d, w') \<Longrightarrow> pd_fd d = fd"
  by (auto simp: pin_opened_def io_iff)

lemma opens_pin_directory: "opens pd_fd (pin_directory p label)"
  unfolding pin_directory_def
  by (intro opens_bindI opens_owns [OF opens_canonical] owns_guarded balanced_intro) (auto simp: io_iff dest: pin_opened_fd)

lemma close_stack_fds: "w_fds (snd (close_stack stack raised w)) = filter (\<lambda>p. fst p \<notin> set stack) (w_fds w)"
proof (induction stack arbitrary: raised w)
  case (Cons fd fds)
  have "w_fds (snd (os_close fd w)) = filter (\<lambda>p. fst p \<noteq> fd) (w_fds w)"
    unfolding os_close_def by (auto simp: syscall_def fail_def Let_def split: list.splits)
  thus ?case using Cons by (auto split: prod.split sum.split)
qed simp

lemma open_parents_fds:
  "open_parents fd parts stack w = (r, stack', w') \<Longrightarrow>
     \<exists>new. stack' = map fst new @ stack \<and> w_fds w' = new @ w_fds w \<and> fst ` set new \<inter> fst ` set (w_fds w) = {}"
proof (induction parts arbitrary: fd stack w)
  case (Cons part parts)
  show ?case
  proof (cases "os_open_dir_at part fd w")
    case (Pair r1 w1)
    show ?thesis
    proof (cases r1)
      case (Inl e)
      thus ?thesis using Cons.prems Pair opens_errorD [OF opens_syscalls(2)] by auto
    next
      case (Inr c)
      obtain i where i: "c \<notin> fst ` set (w_fds w)" "w_fds w1 = (c, i) # w_fds w"
        using opensD [OF opens_syscalls(2)] Pair Inr by blast
      from Cons.IH [of c "c # stack" w1] Cons.prems Pair Inr obtain new where
        "stack' = map fst new @ c # stack" "w_fds w' = new @ w_fds w1" "fst ` set new \<inter> fst ` set (w_fds w1) = {}" by auto
      thus ?thesis using i by (intro exI [of _ "new @ [(c, i)]"]) auto
    qed
  qed
qed auto

lemma opens_open_leaf: "opens (\<lambda>fd. fd) (open_leaf e fd parts)"
  unfolding opens_def
proof
  fix w
  obtain parent stack w1 where 1: "open_parents fd (butlast parts) [] w = (parent, stack, w1)"
    by (cases "open_parents fd (butlast parts) [] w")
  from open_parents_fds [OF 1] obtain new where
    new: "stack = map fst new" "w_fds w1 = new @ w_fds w" "fst ` set new \<inter> fst ` set (w_fds w) = {}" by auto
  obtain leaf w2 where 2: "(case parent of Inl e' \<Rightarrow> (Inl e', w1) | Inr p \<Rightarrow> os_open_read_at (last parts) p w1) = (leaf, w2)"
    by (metis prod.exhaust)
  have keep: "w_fds w2 = w_fds w1" if "leaf = Inl e1" for e1
    using 2 that opens_errorD [OF opens_syscalls(4)] by (cases parent) auto
  have add: "d \<notin> fst ` set (w_fds w1) \<and> (\<exists>i. w_fds w2 = (d, i) # w_fds w1)" if "leaf = Inr d" for d
    using 2 that opensD [OF opens_syscalls(4)] by (cases parent) auto
  obtain raised w3 where 3: "close_stack stack None w2 = (raised, w3)" by (cases "close_stack stack None w2")
  have fds3: "w_fds w3 = filter (\<lambda>p. fst p \<notin> set stack) (w_fds w2)" using close_stack_fds [of stack None w2] 3 by simp
  have rest: "filter (\<lambda>p. fst p \<notin> set stack) (w_fds w1) = w_fds w"
    using new by (auto simp: filter_empty_conv filter_id_conv)
  have err: "w_fds w3 = w_fds w" if "leaf = Inl e1" for e1 using fds3 keep [OF that] rest by simp
  have ok: "d \<notin> fst ` set (w_fds w) \<and> (\<exists>i. w_fds w3 = (d, i) # w_fds w)" if "leaf = Inr d" for d
    using add [OF that] fds3 rest new by auto
  show "case open_leaf e fd parts w of (Inl e, w') \<Rightarrow> w_fds w' = w_fds w
    | (Inr x, w') \<Rightarrow> x \<notin> fst ` set (w_fds w) \<and> (\<exists>ino. w_fds w' = (x, ino) # w_fds w)"
  proof (cases leaf)
    case (Inl e1)
    thus ?thesis using err
      by (simp add: open_leaf_def 1 2 3 os_errorI_def liftI_def raiseI_def split: option.split)
  next
    case (Inr d)
    obtain i where "d \<notin> fst ` set (w_fds w)" "w_fds w3 = (d, i) # w_fds w" using ok [OF Inr] by blast
    hence "w_fds (snd (os_close d w3)) = w_fds w" by (rule close_opened)
    thus ?thesis using ok [OF Inr] Inr
      by (cases "os_close d w3") (auto simp add: open_leaf_def 1 2 3 os_errorI_def liftI_def raiseI_def closing_on_error_def on_errorI_def
          split: option.splits prod.splits sum.splits)
  qed
qed

lemma opens_relative_regular: "opens fst (open_relative_regular d relative label)"
  unfolding open_relative_regular_def Let_def
  by (intro opens_bindI opens_owns [OF opens_open_leaf] owns_closing balanced_intro) (auto simp: io_iff)

text \<open>A script that takes over an open descriptor and closes it in every case.\<close>

definition releases :: "nat \<Rightarrow> 'a io \<Rightarrow> bool" where
  "releases fd m \<longleftrightarrow> (\<forall>w ino fds. w_fds w = (fd, ino) # fds \<longrightarrow> fd \<notin> fst ` set fds \<longrightarrow> w_fds (snd (m w)) = fds)"

named_theorems releases_intro \<open>which scripts close the descriptor they take over\<close>

lemma releases_close [releases_intro]: "releases fd (os_close fd)"
  unfolding releases_def by (blast intro: close_opened)

lemma releases_bindI [releases_intro]: "releases fd m \<Longrightarrow> (\<And>x. balanced (f x)) \<Longrightarrow> releases fd (bindI m f)"
  unfolding releases_def balanced_def bindI_def by (auto split: prod.split sum.split) (metis snd_conv)+

lemma releases_finallyI [releases_intro]: "balanced m \<Longrightarrow> releases fd (finallyI m (os_close fd))"
proof -
  assume m: "balanced m"
  have "w_fds (snd (finallyI m (os_close fd) w)) = w_fds (snd (os_close fd (snd (m w))))" for w
    by (auto simp: finallyI_def split: prod.split sum.split)
  thus ?thesis using m close_opened unfolding releases_def balanced_def by metis
qed

lemma releases_if [releases_intro]: "releases fd a \<Longrightarrow> releases fd b \<Longrightarrow> releases fd (if c then a else b)"
  by simp

lemma opens_releases:
  assumes m: "opens fd m" and f: "\<And>x. releases (fd x) (f x)" shows "balanced (bindI m f)"
  unfolding balanced_def
proof
  fix w show "w_fds (snd (bindI m f w)) = w_fds w"
    using opens_errorD [OF m, of w] opensD [OF m, of w] f unfolding releases_def bindI_def
    by (auto split: prod.split sum.split)
qed

lemma balanced_read_regular_at [balanced_intro]: "balanced (read_regular_at d relative maximum label)"
  unfolding read_regular_at_def case_prod_unfold
  by (intro opens_releases [OF opens_relative_regular] releases_intro balanced_intro)

lemma balanced_read_regular_stable [balanced_intro]: "balanced (read_regular_stable p maximum label)"
  unfolding read_regular_stable_def
  by (rule balanced_bracket [OF opens_pin_directory]) (intro balanced_intro)

section \<open>Time\<close>

lemma progress_closing [progress_intro]: "progress m \<Longrightarrow> progress (closing_on_error fd e m)"
  unfolding closing_on_error_def by (intro progress_intro)

lemma progress_walk_down [progress_intro]: "progress (walk_down e fd parts)"
  by (induction parts arbitrary: fd) (auto intro!: progress_intro)

lemma progress_pin_calls [progress_intro]:
  "progress (os_dup fd)" "progress (os_set_inheritable fd)"
  unfolding os_dup_def os_set_inheritable_def
  by (rule progress_quiet_syscall, auto simp: fail_def new_fd_def Let_def split: option.splits prod.splits)+

lemma progress_pinned [progress_intro]:
  "progress (verify_pinned d)" "progress (pin_opened p c fd)" "progress (open_canonical_directory p)"
  "progress (pin_directory p label)"
  unfolding verify_pinned_def pin_opened_def open_canonical_directory_def pin_directory_def by (intro progress_intro)+

lemma open_leaf_single: "open_leaf e fd [name] = os_errorI (os_open_read_at name fd) e"
  by (auto simp: open_leaf_def os_errorI_def liftI_def fun_eq_iff split: prod.split)

lemma relative_name:
  assumes "relative_parts name label False = Inr parts" and "CHR ''/'' \<notin> set name"
  shows "parts = [name]"
  using assms split_on_single [of "CHR ''/''" name]
  by (auto simp: relative_parts_def posix_parts_def as_posix_def split: if_split_asm)

section \<open>What a stable read returns\<close>

definition entry_of :: "fs \<Rightarrow> nat \<Rightarrow> string \<Rightarrow> (nat \<times> inode) option" where
  "entry_of s dir name =
     (case fs_inode s dir of None \<Rightarrow> None
      | Some dn \<Rightarrow> (case n_content dn of
            Folder es \<Rightarrow> (case map_of es name of None \<Rightarrow> None
              | Some ino \<Rightarrow> (case fs_inode s ino of None \<Rightarrow> None | Some n \<Rightarrow> Some (ino, n)))
          | _ \<Rightarrow> None))"

lemma lookup_at_entry:
  "lookup_at w fd name = (case map_of (w_fds w) fd of None \<Rightarrow> None | Some dir \<Rightarrow> entry_of (w_fs w) dir name)"
  by (simp add: lookup_at_def entries_of_def inode_of_def entry_of_def split: option.split content.split)

text \<open>
  The path led to one and the same directory before and after; the file that the name led to at the
  end held the contents unchanged since before the first octet was read.
\<close>

definition stable_file :: "fs \<Rightarrow> fs \<Rightarrow> path \<Rightarrow> string \<Rightarrow> bytes \<Rightarrow> bool" where
  "stable_file s s' p name b \<longleftrightarrow>
     (\<exists>t0 t1 t2 t3 dir ino n. evolves s t0 \<and> evolves t0 t1 \<and> evolves t1 t2 \<and> evolves t2 t3 \<and> evolves t3 s'
        \<and> fs_path t0 p = Some dir \<and> fs_path t3 p = Some dir \<and> fs_inode t1 ino = Some n
        \<and> entry_of t2 dir name = Some (ino, n) \<and> n_content n = File b \<and> n_nlink n = 1)"

lemma os_path_stat_iff [os_iff]:
  "os_path_stat p w = (Inr s, w') \<longleftrightarrow>
     (\<exists>limit ino n. env_step w limit w' \<and> lookup_path w' p = Some (ino, n) \<and> s = stat_of ino n)"
  unfolding os_path_stat_def syscall_iff found_iff by auto

lemma lookup_path_ino: "lookup_path w p = Some (ino, n) \<Longrightarrow> fs_path (w_fs w) p = Some ino"
  by (auto simp: lookup_path_def split: option.splits)

lemma pin_identity_ino: "pin_identity s = Inr i \<Longrightarrow> fst (snd i) = st_ino s"
  by (auto simp: pin_identity_def split: if_splits)

abbreviation pinned_inode :: "pinned \<Rightarrow> nat" where
  "pinned_inode d \<equiv> fst (snd (pd_identity d))"

lemma verify_pinned_path:
  assumes w: "timely w" and run: "verify_pinned d w = (Inr (), w')"
  shows "\<exists>t. evolves (w_fs w) t \<and> evolves t (w_fs w') \<and> fs_path t (pd_requested d) = Some (pinned_inode d)"
proof -
  from run obtain s1 s2 s3 i1 i2 i3 w1 w2 where
    1: "os_fstat (pd_fd d) w = (Inr s1, w1)" and 2: "os_path_stat (pd_canonical d) w1 = (Inr s2, w2)"
    and 3: "os_path_stat (pd_requested d) w2 = (Inr s3, w')" and i: "pin_identity s3 = Inr i3" "i3 = pd_identity d"
    unfolding verify_pinned_def io_iff case_prod_io_iff ex_unit by auto
  have p1: "timely w1" "evolves (w_fs w) (w_fs w1)" using progressD [OF progress_syscalls(3) w 1] by auto
  have p2: "timely w2" "evolves (w_fs w1) (w_fs w2)" using progressD [OF progress_path_calls(1) p1(1) 2] by auto
  have p3: "evolves (w_fs w2) (w_fs w')" using progressD [OF progress_path_calls(1) p2(1) 3] by auto
  obtain ino n where "lookup_path w' (pd_requested d) = Some (ino, n)" "s3 = stat_of ino n" using 3 unfolding os_iff by auto
  hence "fs_path (w_fs w') (pd_requested d) = Some (pinned_inode d)"
    using i pin_identity_ino [OF i(1)] by (auto dest: lookup_path_ino)
  thus ?thesis using evolves_trans [OF p1(2) evolves_trans [OF p2(2) p3]] evolves_refl by blast
qed

lemma pin_directory_inode:
  assumes run: "pin_directory p label w = (Inr d, w')"
  shows "pd_requested d = p" and "map_of (w_fds w') (pd_fd d) = Some (pinned_inode d)"
proof -
  from run obtain w2 w3 fd s where 1: "pd_requested d = p"
    and 2: "os_fstat fd w2 = (Inr s, w3)" and i: "pin_identity s = Inr (pd_identity d)" and fd: "pd_fd d = fd"
    and 3: "verify_pinned d w3 = (Inr (), w')"
    unfolding pin_directory_def pin_opened_def io_iff ex_unit by auto
  show "pd_requested d = p" by (rule 1)
  obtain ino n where "map_of (w_fds w3) fd = Some ino" "s = stat_of ino n" using 2 unfolding os_iff by auto
  thus "map_of (w_fds w') (pd_fd d) = Some (pinned_inode d)"
    using fd pin_identity_ino [OF i] balancedD [OF balanced_pin_calls(1) 3] by simp
qed

lemma open_relative_trace:
  assumes "open_relative_regular d name label w = (Inr r, w')" and "CHR ''/'' \<notin> set name"
  obtains w1 w2 where "verify_pinned d w = (Inr (), w1)" "os_open_read_at name (pd_fd d) w1 = (Inr (fst r), w2)"
    "os_fstat (fst r) w2 = (Inr (snd r), w')" "st_type (snd r) = Regular" "st_nlink (snd r) = 1"
  using assms unfolding open_relative_regular_def Let_def io_iff ex_unit
  by (auto dest: relative_name simp: open_leaf_single io_iff)

lemma if_close_raise_iff:
  "(if c then bindI m (\<lambda>_. raiseI e) else k) w = (Inr y, w') \<longleftrightarrow> \<not> c \<and> k w = (Inr y, w')"
  by (simp add: io_iff)

lemma read_regular_at_trace:
  assumes "read_regular_at d name maximum label w = (Inr b, w')"
  obtains fd opened after again fd2 w1 w2 w3 w4 w5 w6 where
    "open_relative_regular d name label w = (Inr (fd, opened), w1)" "st_size opened \<le> maximum"
    "read_up_to fd maximum 0 w1 = (Inr b, w2)" "os_fstat fd w2 = (Inr after, w3)" "os_close fd w3 = (Inr (), w4)"
    "length b \<le> maximum" "open_relative_regular d name label w4 = (Inr (fd2, again), w5)"
    "os_close fd2 w5 = (Inr (), w6)" "identity after = identity opened" "identity again = identity opened"
    "verify_pinned d w6 = (Inr (), w')"
  using assms unfolding read_regular_at_def
  by (auto simp: io_iff if_close_raise_iff case_prod_unfold not_less simp del: if_split)

lemma read_regular_at_stable:
  assumes w: "timely w" and name: "CHR ''/'' \<notin> set name" and dir: "map_of (w_fds w) (pd_fd d) = Some (pinned_inode d)"
    and run: "read_regular_at d name maximum label w = (Inr b, w')"
  shows "stable_file (w_fs w) (w_fs w') (pd_requested d) name b \<and> length b \<le> maximum"
  using run
proof (rule read_regular_at_trace)
  fix fd opened after again fd2 w1 w2 w3 w4 w5 w6
  assume 1: "open_relative_regular d name label w = (Inr (fd, opened), w1)"
    and 2: "read_up_to fd maximum 0 w1 = (Inr b, w2)" and 3: "os_fstat fd w2 = (Inr after, w3)" and i3: "identity after = identity opened"
    and 4: "os_close fd w3 = (Inr (), w4)" and len: "length b \<le> maximum"
    and 5: "open_relative_regular d name label w4 = (Inr (fd2, again), w5)" and 6: "os_close fd2 w5 = (Inr (), w6)"
    and i5: "identity again = identity opened" and 7: "verify_pinned d w6 = (Inr (), w')" and max: "st_size opened \<le> maximum"
  from 1 name obtain v1 v2 where a: "verify_pinned d w = (Inr (), v1)" "os_open_read_at name (pd_fd d) v1 = (Inr fd, v2)"
      "os_fstat fd v2 = (Inr opened, w1)" and reg: "st_type opened = Regular" "st_nlink opened = 1"
    by (rule open_relative_trace) simp
  from 5 name obtain u1 u2 where c: "verify_pinned d w4 = (Inr (), u1)" "os_open_read_at name (pd_fd d) u1 = (Inr fd2, u2)"
      "os_fstat fd2 u2 = (Inr again, w5)"
    by (rule open_relative_trace) simp
  obtain t0 where t0: "evolves (w_fs w) t0" "evolves t0 (w_fs v1)" "fs_path t0 (pd_requested d) = Some (pinned_inode d)"
    using verify_pinned_path [OF w a(1)] by blast
  have pv1: "timely v1" using progressD [OF progress_pinned(1) w a(1)] by auto
  have pv2: "timely v2" "evolves (w_fs v1) (w_fs v2)" using progressD [OF progress_syscalls(9) pv1 a(2)] by auto
  have p1: "timely w1" "evolves (w_fs v2) (w_fs w1)" using progressD [OF progress_syscalls(3) pv2(1) a(3)] by auto
  obtain ino n where n: "fs_inode (w_fs w1) ino = Some n" "opened = stat_of ino n" "map_of (w_fds w1) fd = Some ino"
    using a(3) unfolding os_iff by auto
  obtain x where x: "n_content n = File x" "n_nlink n = 1" using reg n(2) by auto
  note id3 = i3 [unfolded n(2)] and id5 = i5 [unfolded n(2)]
  have p2: "timely w2" "evolves (w_fs w1) (w_fs w2)" using progressD [OF progress_read_up_to p1(1) 2] by auto
  note f3 = fstat_later [OF p1(1) n(1) p2 3 identity_later(1) [OF id3] identity_later(2) [OF id3]]
  have p4: "timely w4" "evolves (w_fs w3) (w_fs w4)" using progressD [OF progress_close f3(1) 4] by auto
  have q1: "timely u1" "evolves (w_fs w4) (w_fs u1)" using progressD [OF progress_pinned(1) p4(1) c(1)] by auto
  have q2: "timely u2" "evolves (w_fs u1) (w_fs u2)" using progressD [OF progress_syscalls(9) q1(1) c(2)] by auto
  have e13: "evolves (w_fs w1) (w_fs u1)" by (rule evolves_trans [OF f3(2) evolves_trans [OF p4(2) q1(2)]])
  note f5 = fstat_later [OF p1(1) n(1) q2(1) evolves_trans [OF e13 q2(2)] c(3) identity_later(1) [OF id5] identity_later(2) [OF id5]]
  have p6: "timely w6" "evolves (w_fs w5) (w_fs w6)" using progressD [OF progress_close f5(1) 6] by auto
  obtain t3 where t3: "evolves (w_fs w6) t3" "evolves t3 (w_fs w')" "fs_path t3 (pd_requested d) = Some (pinned_inode d)"
    using verify_pinned_path [OF p6(1) 7] by blast
  have "b = take (length b) (drop (w_pos w1 fd) x) \<and> (maximum < 0 + length b \<or> length x \<le> w_pos w1 fd + length b)"
    using read_up_to_content [OF p1(1) n(1) x(1) f3(7) 2 evolves_refl p1(1) evolves_refl n(3)] by blast
  moreover have "w_pos w1 fd = 0" using a(2,3) unfolding os_iff by auto
  ultimately have b: "n_content n = File b" using x(1) len by auto
  have fds: "w_fds w4 = w_fds w"
  proof -
    obtain i where i: "fd \<notin> fst ` set (w_fds w)" "w_fds w1 = (fd, i) # w_fds w"
      using opensD [OF opens_relative_regular 1] by auto
    have "w_fds w3 = (fd, i) # w_fds w"
      using balancedD [OF balanced_read_up_to 2] balancedD [OF balanced_syscalls(3) 3] i(2) by simp
    from close_opened [OF i(1) this] 4 show ?thesis by simp
  qed
  obtain u1' limit m where o: "env_step u1 limit u1'" "lookup_at u1' (pd_fd d) name = Some (fst m, snd m)"
      "w_fs u2 = w_fs u1'" "map_of (w_fds u2) fd2 = Some (fst m)"
    using c(2) unfolding os_iff by fastforce
  have fds1: "map_of (w_fds u1') (pd_fd d) = Some (pinned_inode d)"
    using o(1) balancedD [OF balanced_pin_calls(1) c(1)] fds dir by simp
  have "fst m = ino" using o(4) f5(4) by simp
  moreover have "snd m = n" using lookup_at_inode [OF o(2)] f5(7) o(3) calculation by simp
  ultimately have entry: "entry_of (w_fs u2) (pinned_inode d) name = Some (ino, n)"
    using o(2,3) fds1 unfolding lookup_at_entry by simp
  have e1: "evolves t0 (w_fs w1)" by (rule evolves_trans [OF t0(2) evolves_trans [OF pv2(2) p1(2)]])
  have e3: "evolves (w_fs u2) t3" by (rule evolves_trans [OF f5(3) evolves_trans [OF p6(2) t3(1)]])
  show ?thesis unfolding stable_file_def
    using t0(1,3) e1 evolves_trans [OF e13 q2(2)] e3 t3(2,3) n(1) entry b x(2) len by blast
qed

lemma open_parents_progress:
  "timely w \<Longrightarrow> open_parents fd parts stack w = (r, stack', w') \<Longrightarrow> timely w' \<and> evolves (w_fs w) (w_fs w')"
proof (induction parts arbitrary: fd stack w)
  case (Cons part parts)
  obtain r1 w1 where o: "os_open_dir_at part fd w = (r1, w1)" by (cases "os_open_dir_at part fd w")
  note p = progressD [OF progress_syscalls(8) Cons.prems(1) o]
  show ?case
  proof (cases r1)
    case (Inl e)
    thus ?thesis using Cons.prems(2) o p by auto
  next
    case (Inr c)
    hence "open_parents c parts (c # stack) w1 = (r, stack', w')" using Cons.prems(2) o by simp
    from Cons.IH [OF conjunct1 [OF p] this] show ?thesis using p evolves_trans by blast
  qed
qed auto

lemma close_stack_progress:
  "timely w \<Longrightarrow> close_stack stack raised w = (r, w') \<Longrightarrow> timely w' \<and> evolves (w_fs w) (w_fs w')"
proof (induction stack arbitrary: raised w)
  case (Cons fd fds)
  obtain r1 w1 where o: "os_close fd w = (r1, w1)" by (cases "os_close fd w")
  note p = progressD [OF progress_close Cons.prems(1) o]
  obtain raised' where "close_stack fds raised' w1 = (r, w')" using Cons.prems(2) o by (cases r1) auto
  from Cons.IH [OF conjunct1 [OF p] this] show ?case using p evolves_trans by blast
qed auto

lemma progress_open_leaf [progress_intro]: "progress (open_leaf e fd parts)"
proof (rule progressI)
  fix w r w' assume w: "timely w" and run: "open_leaf e fd parts w = (r, w')"
  obtain parent stack w1 where 1: "open_parents fd (butlast parts) [] w = (parent, stack, w1)"
    by (cases "open_parents fd (butlast parts) [] w")
  note p1 = open_parents_progress [OF w 1]
  obtain leaf w2 where 2: "(case parent of Inl e' \<Rightarrow> (Inl e', w1) | Inr p \<Rightarrow> os_open_read_at (last parts) p w1) = (leaf, w2)"
    by (metis prod.exhaust)
  have p2: "timely w2 \<and> evolves (w_fs w1) (w_fs w2)"
    using 2 p1 progressD [OF progress_syscalls(9)] by (cases parent) auto
  obtain raised w3 where 3: "close_stack stack None w2 = (raised, w3)" by (cases "close_stack stack None w2")
  have p3: "timely w3 \<and> evolves (w_fs w2) (w_fs w3)" using close_stack_progress [OF _ 3] p2 by blast
  have "\<exists>m. progress m \<and> m w3 = (r, w')"
  proof (cases raised)
    case None
    thus ?thesis using run 1 2 3 by (auto simp: open_leaf_def intro!: exI [of _ "os_errorI (liftI leaf) e"] progress_intro)
  next
    case (Some e')
    thus ?thesis
    proof (cases leaf)
      case (Inl e1)
      thus ?thesis using run 1 2 3 Some
        by (auto simp: open_leaf_def intro!: exI [of _ "os_errorI (raiseI e') e"] progress_intro)
    next
      case (Inr d)
      thus ?thesis using run 1 2 3 Some
        by (auto simp: open_leaf_def intro!: exI [of _ "closing_on_error d e (raiseI e')"] progress_intro)
    qed
  qed
  then obtain m where "progress m" "m w3 = (r, w')" by blast
  from progressD [OF this(1) _ this(2)] p3 have "timely w' \<and> evolves (w_fs w3) (w_fs w')" by blast
  thus "timely w' \<and> evolves (w_fs w) (w_fs w')" using p1 p2 p3 evolves_trans by blast
qed

lemma progress_read_pinned [progress_intro]:
  "progress (open_relative_regular d relative label)" "progress (read_regular_at d relative maximum label)"
  unfolding open_relative_regular_def Let_def read_regular_at_def by (intro progress_intro)+

lemma progress_read_regular_stable [progress_intro]: "progress (read_regular_stable p maximum label)"
  unfolding read_regular_stable_def by (intro progress_intro)

lemma read_regular_stable_held:
  assumes w: "timely w" and name: "CHR ''/'' \<notin> set (path_name p)" and run: "read_regular_stable p maximum label w = (Inr b, w')"
  shows "stable_file (w_fs w) (w_fs w') (butlast p) (path_name p) b \<and> length b \<le> maximum"
proof -
  from run obtain d w1 w2 where 1: "pin_directory (butlast p) (label @ '' parent'') w = (Inr d, w1)"
    and 2: "read_regular_at d (path_name p) maximum label w1 = (Inr b, w2)" and 3: "os_close (pd_fd d) w2 = (Inr (), w')"
    unfolding read_regular_stable_def io_iff by auto
  have p1: "timely w1" "evolves (w_fs w) (w_fs w1)" using progressD [OF progress_pinned(4) w 1] by auto
  note h = read_regular_at_stable [OF p1(1) name pin_directory_inode(2) [OF 1] 2, unfolded pin_directory_inode(1) [OF 1]]
  from progressD [OF progress_read_pinned(2) p1(1) 2] have "timely w2" by simp
  from progressD [OF progress_close this 3] have "evolves (w_fs w2) (w_fs w')" by simp
  with h p1(2) show ?thesis unfolding stable_file_def by (meson evolves_trans)
qed

section \<open>Properties\<close>


text \<open>A stable read leaves exactly the descriptors open that it found, whichever of its calls fails and
  whatever the environment does between them.\<close>

theorem stable_read_descriptors: "w_fds (snd (read_regular_stable p maximum label w)) = w_fds w"
  using balanced_read_regular_stable by (simp add: balanced_def)

section \<open>An instance\<close>

definition pinned_world :: world where
  "pinned_world = \<lparr>w_fs = \<lparr>
     fs_inode = [5 \<mapsto> \<lparr>n_dev = 2, n_content = Folder [(''d'', 7)], n_perm = 493, n_nlink = 3, n_mtime = 5, n_ctime = 5\<rparr>,
                 7 \<mapsto> \<lparr>n_dev = 2, n_content = Folder [(''a'', 8)], n_perm = 448, n_nlink = 2, n_mtime = 5, n_ctime = 5\<rparr>,
                 8 \<mapsto> \<lparr>n_dev = 2, n_content = File ''hello'', n_perm = 420, n_nlink = 1, n_mtime = 4, n_ctime = 4\<rparr>],
     fs_path = [[] \<mapsto> 5, [''d''] \<mapsto> 7, [''d'', ''a''] \<mapsto> 8], fs_canonical = (\<lambda>p. p), fs_clock = 12, fs_next = 20\<rparr>,
     w_fds = [], w_pos = (\<lambda>_. 0), w_schedule = []\<rparr>"

lemma pinned_world_timely: "timely pinned_world"
  by (simp add: timely_def pinned_world_def stamped_def split: if_split_asm)

lemma pinned_world_read: "fst (read_regular_stable [''d'', ''a''] 100 ''file'' pinned_world) = Inr ''hello''"
  by (simp add: read_regular_stable_def pin_directory_def open_canonical_directory_def read_regular_at_def
      open_relative_regular_def relative_parts_def pin_opened_def verify_pinned_def pin_identity_def closing_on_error_def
      open_leaf_single posix_parts_def as_posix_def is_absolute_def startswith_def path_name_def
      os_resolve_def os_open_dir_def os_open_dir_at_def os_path_stat_def os_open_read_at_def os_fstat_def os_read_def os_close_def
      lookup_path_def lookup_at_def entries_of_def inode_of_def new_fd_def fresh_fd_def transferred_def read_up_to.simps
      bindI_def liftI_def returnI_def finallyI_def on_errorI_def os_errorI_def Let_def pinned_world_def stat_of_def)


end
