(* ===== verification/Handoff.thy ===== *)
theory Handoff
  imports Handoff_Files_Props Manifests
begin

text \<open>
  The contract of \<open>scripts/candidate_handoff.py\<close>: provenance, pin snapshot, core attestation, and the
  two operations that create and verify the directory handed from the build to the publisher.
\<close>

section \<open>Constants\<close>

definition MAX_CORE_BYTES :: nat where "MAX_CORE_BYTES = 64 * 1024 * 1024"
definition MAX_SOURCE_BYTES :: nat where "MAX_SOURCE_BYTES = 512 * 1024 * 1024"
definition MAX_PIN_BYTES :: nat where "MAX_PIN_BYTES = 16 * 1024 * 1024"
definition MAX_HANDOFF_BYTES :: nat where "MAX_HANDOFF_BYTES = 1024 * 1024"
definition HANDOFF_NAME :: string where "HANDOFF_NAME = ''candidate-handoff.json''"
definition CORE_ATTESTATION_NAME :: string where "CORE_ATTESTATION_NAME = ''core-attestation.json''"
definition SNAPSHOT_DIR :: string where "SNAPSHOT_DIR = ''pin-snapshot''"

definition SNAPSHOT_FILES :: "string list" where
  "SNAPSHOT_FILES = [''go.mod'', ''go.sum'', ''snapshot.json'']"

definition HANDOFF_ABIS :: "(string \<times> int \<times> int) list" where
  "HANDOFF_ABIS = [(''arm64-v8a'', 2, 183)]"

section \<open>JSON objects\<close>

text \<open>A decoding error is a \<open>ValueError\<close>; other exceptions of the decoder pass through.\<close>

definition load_object :: "bytes \<Rightarrow> string \<Rightarrow> dict res" where
  "load_object raw label =
     (case json_loads raw of
        Inl UnicodeDecodeError \<Rightarrow> Inl (ValueError (label @ '' is not valid JSON''))
      | Inl JSONDecodeError \<Rightarrow> Inl (ValueError (label @ '' is not valid JSON''))
      | Inl e \<Rightarrow> Inl e
      | Inr (JObj d) \<Rightarrow> Inr d
      | Inr _ \<Rightarrow> Inl (ValueError (label @ '' must be a JSON object'')))"

text \<open>A JSON object whose bytes are the canonical rendering of its value.\<close>

definition load_canonical :: "bytes \<Rightarrow> string \<Rightarrow> dict res" where
  "load_canonical raw label =
     bindE (load_object raw label) (\<lambda>d.
       if raw \<noteq> canonical_json (JObj d) then Inl (ValueError (label @ '' is not canonical JSON'')) else Inr d)"

section \<open>Provenance\<close>

record provenance =
  pv_family :: string
  pv_event_commit :: string
  pv_upstream_tag :: string
  pv_upstream_commit :: string
  pv_go_version :: string
  pv_release_tag :: string
  pv_snapshot_sha256 :: string

definition family_contract :: "string \<Rightarrow> string \<Rightarrow> (string list \<times> string \<times> string) res" where
  "family_contract family upstream_tag =
     (if \<not> fullmatch VERSION_RX upstream_tag then Inl (ValueError ''upstream tag is invalid'')
      else if family = ''xray''
      then Inr (map (\<lambda>(abi, _). artifact_name ''libxray'' abi) HANDOFF_ABIS, ''github.com/xtls/libxray'',
                ''xray-'' @ upstream_tag @ ''-w'')
      else if family = ''sing_box''
      then Inr (map (\<lambda>(abi, _). artifact_name ''libexitfy-sb'' abi) HANDOFF_ABIS
                  @ [''exitfy-sb-'' @ upstream_tag @ ''-source.tar.gz''], ''github.com/sagernet/sing-box'',
                ''sb-'' @ upstream_tag @ ''-w'')
      else Inl (ValueError ''candidate family is invalid''))"

definition validate_provenance :: "'a provenance_scheme \<Rightarrow> (string list \<times> string) res" where
  "validate_provenance p =
     bindE (family_contract (pv_family p) (pv_upstream_tag p)) (\<lambda>(artifacts, module_path, release_prefix).
       if \<not> fullmatch COMMIT_RX (pv_event_commit p) \<or> \<not> fullmatch COMMIT_RX (pv_upstream_commit p)
       then Inl (ValueError ''candidate commit provenance is invalid'')
       else if \<not> fullmatch GO_VERSION_RX (pv_go_version p)
       then Inl (ValueError ''candidate Go version is invalid'')
       else if \<not> startswith (pv_release_tag p) release_prefix
               \<or> \<not> fullmatch (Seq (lit release_prefix) WRAPPER_RX) (pv_release_tag p)
       then Inl (ValueError ''candidate release tag is invalid'')
       else if \<not> fullmatch DIGEST_RX (pv_snapshot_sha256 p)
       then Inl (ValueError ''candidate snapshot digest is invalid'')
       else Inr (artifacts, module_path))"

section \<open>The pin snapshot\<close>

definition pin_record_ok :: "json \<Rightarrow> string \<Rightarrow> string \<Rightarrow> bool" where
  "pin_record_ok v expected_path expected_file =
     (case v of
        JObj r \<Rightarrow> keys_are r [''path'', ''file'', ''size'', ''sha256'']
          \<and> py_eq (dget r ''path'') (JStr expected_path) \<and> py_eq (dget r ''file'') (JStr expected_file)
          \<and> is_int (dget r ''size'') \<and> 0 < the_int (dget r ''size'') \<and> the_int (dget r ''size'') \<le> int MAX_PIN_BYTES
          \<and> is_plain_digest (dget r ''sha256'')
      | _ \<Rightarrow> False)"

definition pin_paths :: "string \<Rightarrow> string list" where
  "pin_paths family = (if family = ''xray'' then [''go.mod'', ''go.sum''] else [''singbox/go.mod'', ''singbox/go.sum''])"

definition is_nonempty_text :: "json \<Rightarrow> bool" where
  "is_nonempty_text v = (case v of JStr s \<Rightarrow> s \<noteq> [] | _ \<Rightarrow> False)"

definition validate_snapshot :: "bytes \<Rightarrow> string \<Rightarrow> string \<Rightarrow> string \<Rightarrow> string \<Rightarrow> dict res" where
  "validate_snapshot raw family module_path upstream_commit snapshot_sha256 =
     (if sha256_hex raw \<noteq> snapshot_sha256
      then Inl (ValueError ''snapshot metadata digest does not match provenance'')
      else bindE (load_canonical raw ''pin snapshot'') (\<lambda>d.
        if \<not> keys_are d [''schema'', ''modulePath'', ''moduleVersion'', ''originCommit'', ''pins'']
        then Inl (ValueError ''pin snapshot fields do not match the contract'')
        else if \<not> py_eq (dget d ''schema'') (JInt 1) \<or> \<not> py_eq (dget d ''modulePath'') (JStr module_path)
                \<or> \<not> py_eq (dget d ''originCommit'') (JStr upstream_commit)
                \<or> \<not> is_nonempty_text (dget d ''moduleVersion'')
        then Inl (ValueError ''pin snapshot provenance is invalid'')
        else (case dget d ''pins'' of
            JArr [r1, r2] \<Rightarrow>
              if \<not> list_all2 (\<lambda>r (p, f). pin_record_ok r p f) [r1, r2] (zip (pin_paths family) [''go.mod'', ''go.sum''])
              then Inl (ValueError ''pin snapshot record is invalid'')
              else Inr d
          | _ \<Rightarrow> Inl (ValueError ''pin snapshot provenance is invalid''))))"

type_synonym snapshot_values = "(string \<times> bytes \<times> string) list"

definition check_pin_bytes :: "snapshot_values \<Rightarrow> json \<Rightarrow> unit res" where
  "check_pin_bytes values r =
     (case r of
        JObj d \<Rightarrow>
          (case map_of values (str_value (dget d ''file'')) of
             None \<Rightarrow> Inl KeyError
           | Some (raw, digest) \<Rightarrow>
               if \<not> py_eq (dget d ''size'') (JInt (int (length raw))) \<or> \<not> py_eq (dget d ''sha256'') (JStr digest)
               then Inl (ValueError ''snapshot pin bytes differ'') else Inr ())
      | _ \<Rightarrow> Inl TypeError)"

definition json_items :: "json \<Rightarrow> json list" where
  "json_items v = (case v of JArr xs \<Rightarrow> xs | _ \<Rightarrow> [])"

definition read_snapshot :: "nat \<Rightarrow> string \<Rightarrow> string \<Rightarrow> string \<Rightarrow> string \<Rightarrow> (snapshot_values \<times> dict) io" where
  "read_snapshot directory family module_path upstream_commit snapshot_sha256 =
     bindI (directory_names directory ''pin snapshot'') (\<lambda>names.
     if \<not> same_elems names SNAPSHOT_FILES then raiseI (ValueError ''pin snapshot file set is not exact'')
     else
       bindI (mapI (\<lambda>name. bindI (read_regular directory name MAX_PIN_BYTES (''pin snapshot '' @ name))
                            (\<lambda>r. returnI (name, r))) SNAPSHOT_FILES) (\<lambda>values.
       bindI (liftI (case map_of values ''snapshot.json'' of
                None \<Rightarrow> Inl KeyError
              | Some (raw, _) \<Rightarrow> validate_snapshot raw family module_path upstream_commit snapshot_sha256)) (\<lambda>metadata.
       bindI (liftI (mapE (check_pin_bytes values) (json_items (dget metadata ''pins'')))) (\<lambda>_.
       bindI (directory_names directory ''pin snapshot'') (\<lambda>names'.
         if \<not> same_elems names' SNAPSHOT_FILES then raiseI (ValueError ''pin snapshot changed while reading'')
         else returnI (values, metadata))))))"

section \<open>The core attestation\<close>

definition artifact_limit :: "string \<Rightarrow> nat res" where
  "artifact_limit name =
     (if endswith name ''.so'' then Inr MAX_CORE_BYTES
      else if endswith name ''-source.tar.gz'' then Inr MAX_SOURCE_BYTES
      else Inl (ValueError ''unexpected candidate artifact''))"

text \<open>\<open>alignment & (alignment - 1)\<close> is zero for the powers of two (and zero).\<close>

definition alignment_ok :: "json \<Rightarrow> bool" where
  "alignment_ok v = (case v of JInt a \<Rightarrow> MIN_ANDROID_PAGE_ALIGNMENT \<le> a \<and> (and a (a - 1)) = 0 | _ \<Rightarrow> False)"

definition alignments_ok :: "json \<Rightarrow> bool" where
  "alignments_ok v = (case v of JArr xs \<Rightarrow> xs \<noteq> [] \<and> list_all alignment_ok xs | _ \<Rightarrow> False)"

definition core_abi :: "string \<Rightarrow> (int \<times> int) option" where
  "core_abi name =
     (case filter (\<lambda>(abi, _). endswith name (''-'' @ abi @ ''.so'')) HANDOFF_ABIS of
        [] \<Rightarrow> None | (_, c, m) # _ \<Rightarrow> Some (c, m))"

definition core_record_ok :: "dict \<Rightarrow> string \<Rightarrow> nat \<Rightarrow> int \<Rightarrow> int \<Rightarrow> bool" where
  "core_record_ok r name minimum elf_class machine \<longleftrightarrow>
     keys_are r [''path'', ''size'', ''sha256'', ''elfClass'', ''machine'', ''exports'', ''loadAlignments'']
     \<and> py_eq (dget r ''path'') (JStr name) \<and> size_within minimum MAX_CORE_BYTES (dget r ''size'')
     \<and> is_plain_digest (dget r ''sha256'') \<and> py_eq (dget r ''elfClass'') (JInt elf_class)
     \<and> py_eq (dget r ''machine'') (JInt machine) \<and> py_eq (dget r ''exports'') (JArr (map JStr EXPORTS))
     \<and> alignments_ok (dget r ''loadAlignments'')"

type_synonym attested = "(string \<times> nat \<times> string) list"

definition attested_core :: "string \<Rightarrow> json \<Rightarrow> string \<Rightarrow> (string \<times> nat \<times> string) res" where
  "attested_core family v name =
     (case core_abi name of
        None \<Rightarrow> Inl (ValueError ''core attestation ABI is invalid'')
      | Some (elf_class, machine) \<Rightarrow>
          (case v of
             JObj r \<Rightarrow>
               if \<not> core_record_ok r name (if family = ''sing_box'' then 1024 * 1024 else 1) elf_class machine
               then Inl (ValueError (''core attestation record is invalid: '' @ name))
               else Inr (name, nat (the_int (dget r ''size'')), str_value (dget r ''sha256''))
           | _ \<Rightarrow> Inl AssertionError))"

definition record_name :: "json \<Rightarrow> json" where
  "record_name v = (case v of JObj r \<Rightarrow> dget r ''path'' | _ \<Rightarrow> JNull)"

definition validate_core_attestation :: "bytes \<Rightarrow> string \<Rightarrow> string list \<Rightarrow> attested res" where
  "validate_core_attestation raw family core_names =
     bindE (load_canonical raw ''core attestation'') (\<lambda>d.
       if \<not> keys_are d [''schema'', ''family'', ''files'']
       then Inl (ValueError ''core attestation fields do not match the contract'')
       else if \<not> py_eq (dget d ''schema'') (JInt 1) \<or> \<not> py_eq (dget d ''family'') (JStr family)
       then Inl (ValueError ''core attestation provenance is invalid'')
       else (case dget d ''files'' of
           JArr files \<Rightarrow>
             if length files \<noteq> length core_names then Inl (ValueError ''core attestation provenance is invalid'')
             else if \<not> py_eq (JArr (map record_name files)) (JArr (map JStr (sort core_names)))
             then Inl (ValueError ''core attestation file set is not exact'')
             else mapE (\<lambda>(r, name). attested_core family r name) (zip files (sort core_names))
         | _ \<Rightarrow> Inl (ValueError ''core attestation provenance is invalid'')))"

section \<open>The records of the handed files\<close>

definition file_record :: "string \<Rightarrow> string \<Rightarrow> nat \<Rightarrow> string \<Rightarrow> string \<times> json" where
  "file_record p role sz hex = (p, JObj [(''path'', JStr p), (''role'', JStr role), (''size'', JInt (int sz)), (''sha256'', JStr hex)])"

text \<open>\<open>records.sort(key=lambda item: item["path"])\<close>\<close>

definition sorted_records :: "(string \<times> json) list \<Rightarrow> json" where
  "sorted_records rs = JArr (map snd (sort_key fst rs))"

definition is_core :: "string \<Rightarrow> bool" where
  "is_core name = endswith name ''.so''"

definition artifact_entry :: "attested \<Rightarrow> string \<Rightarrow> string \<Rightarrow> nat \<times> string \<Rightarrow> (string \<times> json) res" where
  "artifact_entry cores label name r =
     (if is_core name \<and> map_of cores name \<noteq> Some r
      then Inl (ValueError (label @ name @ '' differs from its ELF attestation''))
      else Inr (file_record name (if is_core name then ''core'' else ''source'') (fst r) (snd r)))"

definition snapshot_record :: "snapshot_values \<Rightarrow> string \<Rightarrow> string \<times> json" where
  "snapshot_record values name =
     (case map_of values name of
        None \<Rightarrow> (name, JNull)
      | Some (raw, digest) \<Rightarrow> file_record (SNAPSHOT_DIR @ ''/'' @ name)
          (if name = ''snapshot.json'' then ''snapshot'' else ''pin'') (length raw) digest)"

definition upstream_json :: "'a provenance_scheme \<Rightarrow> json" where
  "upstream_json p = JObj [(''tag'', JStr (pv_upstream_tag p)), (''commit'', JStr (pv_upstream_commit p)),
     (''goVersion'', JStr (pv_go_version p))]"

definition snapshot_json :: "'a provenance_scheme \<Rightarrow> dict \<Rightarrow> json" where
  "snapshot_json p metadata = JObj [(''metadataSha256'', JStr (pv_snapshot_sha256 p)),
     (''modulePath'', dget metadata ''modulePath''), (''moduleVersion'', dget metadata ''moduleVersion''),
     (''originCommit'', dget metadata ''originCommit'')]"

definition handoff_json :: "'a provenance_scheme \<Rightarrow> string \<Rightarrow> dict \<Rightarrow> (string \<times> json) list \<Rightarrow> json" where
  "handoff_json p attestation_sha256 metadata records = JObj
     [(''schema'', JInt 2), (''family'', JStr (pv_family p)), (''eventCommit'', JStr (pv_event_commit p)),
      (''releaseTag'', JStr (pv_release_tag p)), (''coreAttestationSha256'', JStr attestation_sha256),
      (''upstream'', upstream_json p), (''pinSnapshot'', snapshot_json p metadata), (''files'', sorted_records records)]"

section \<open>Verifying\<close>

definition check_handoff_fields :: "'a provenance_scheme \<Rightarrow> dict \<Rightarrow> unit res" where
  "check_handoff_fields p h =
     (if \<not> keys_are h [''schema'', ''family'', ''eventCommit'', ''releaseTag'', ''coreAttestationSha256'', ''upstream'',
                         ''pinSnapshot'', ''files'']
      then Inl (ValueError ''candidate handoff fields do not match the contract'')
      else if \<not> py_eq (dget h ''schema'') (JInt 2) \<or> \<not> py_eq (dget h ''family'') (JStr (pv_family p))
              \<or> \<not> py_eq (dget h ''eventCommit'') (JStr (pv_event_commit p))
              \<or> \<not> py_eq (dget h ''releaseTag'') (JStr (pv_release_tag p))
              \<or> \<not> py_eq (dget h ''upstream'') (upstream_json p)
      then Inl (ValueError ''candidate handoff provenance differs'')
      else Inr ())"

definition verified_artifact :: "nat \<Rightarrow> attested \<Rightarrow> string \<Rightarrow> (string \<times> json) io" where
  "verified_artifact root cores name =
     bindI (liftI (artifact_limit name)) (\<lambda>limit.
     bindI (digest_regular root name limit (''candidate artifact '' @ name)) (\<lambda>r.
       liftI (artifact_entry cores ''candidate artifact '' name r)))"

definition attestation_record :: "bytes \<times> string \<Rightarrow> string \<times> json" where
  "attestation_record a = file_record CORE_ATTESTATION_NAME ''verification'' (length (fst a)) (snd a)"

text \<open>The checks between opening the candidate directory and closing it.\<close>

definition verify_candidate :: "nat \<Rightarrow> 'a provenance_scheme \<Rightarrow> string \<Rightarrow> string list \<Rightarrow> string \<Rightarrow> string list \<Rightarrow> unit io" where
  "verify_candidate root p expected_sha256 artifacts module_path allowed =
     bindI (liftI (mapE (\<lambda>name. canonical_component name ''allowed candidate file'') allowed)) (\<lambda>_.
     let expected_root = artifacts @ [HANDOFF_NAME, CORE_ATTESTATION_NAME, SNAPSHOT_DIR] @ allowed in
     bindI (directory_names root ''candidate directory'') (\<lambda>names.
     if \<not> same_elems names expected_root then raiseI (ValueError ''candidate root file set is not exact'')
     else
       bindI (mapI (\<lambda>name. digest_regular root name MAX_HANDOFF_BYTES (''allowed candidate file '' @ name)) (sort allowed)) (\<lambda>_.
       bindI (read_regular root HANDOFF_NAME MAX_HANDOFF_BYTES ''candidate handoff'') (\<lambda>raw.
       if snd raw \<noteq> expected_sha256
       then raiseI (ValueError ''candidate handoff digest does not match the build output'')
       else
         bindI (liftI (load_canonical (fst raw) ''candidate handoff'')) (\<lambda>handoff.
         bindI (liftI (check_handoff_fields p handoff)) (\<lambda>_.
         bindI (bindI (open_child_directory root SNAPSHOT_DIR ''pin snapshot'') (\<lambda>snapshot.
                  finallyI (read_snapshot snapshot (pv_family p) module_path (pv_upstream_commit p) (pv_snapshot_sha256 p))
                    (os_close snapshot))) (\<lambda>snap.
         if \<not> py_eq (dget handoff ''pinSnapshot'') (snapshot_json p (snd snap))
         then raiseI (ValueError ''candidate snapshot provenance differs'')
         else
           bindI (read_regular root CORE_ATTESTATION_NAME MAX_HANDOFF_BYTES ''core attestation'') (\<lambda>attestation.
           if \<not> py_eq (dget handoff ''coreAttestationSha256'') (JStr (snd attestation))
           then raiseI (ValueError ''candidate core attestation digest differs'')
           else
             bindI (liftI (validate_core_attestation (fst attestation) (pv_family p) (filter is_core artifacts))) (\<lambda>cores.
             bindI (mapI (verified_artifact root cores) (sort artifacts)) (\<lambda>records.
             if \<not> py_eq (dget handoff ''files'')
                  (sorted_records (records @ [attestation_record attestation] @ map (snapshot_record (fst snap)) SNAPSHOT_FILES))
             then raiseI (ValueError ''candidate bytes differ from the handoff manifest'')
             else
               bindI (directory_names root ''candidate directory'') (\<lambda>names'.
                 if \<not> same_elems names' expected_root
                 then raiseI (ValueError ''candidate root changed while verifying'') else returnI ())))))))))))"

definition verify_handoff :: "path \<Rightarrow> 'a provenance_scheme \<Rightarrow> string \<Rightarrow> string list \<Rightarrow> unit io" where
  "verify_handoff directory p expected_sha256 allowed =
     bindI (liftI (validate_provenance p)) (\<lambda>(artifacts, module_path).
     if \<not> fullmatch DIGEST_RX expected_sha256 then raiseI (ValueError ''candidate handoff digest is invalid'')
     else bindI (open_plain_directory directory ''candidate directory'') (\<lambda>root.
       finallyI (verify_candidate root p expected_sha256 artifacts module_path allowed) (os_close root)))"

section \<open>Creating\<close>

record create_paths =
  cp_artifacts :: path
  cp_snapshot :: path
  cp_attestation :: path
  cp_output :: path

definition copied_artifact :: "nat \<Rightarrow> nat \<Rightarrow> attested \<Rightarrow> string \<Rightarrow> (string \<times> json) io" where
  "copied_artifact artifacts_fd output_fd cores name =
     bindI (liftI (artifact_limit name)) (\<lambda>limit.
     bindI (copy_regular artifacts_fd name output_fd name limit (''artifact '' @ name)) (\<lambda>r.
       liftI (artifact_entry cores ''artifact '' name r)))"

text \<open>The output directory and its snapshot directory are filled; the bytes of the handoff are returned.\<close>

definition fill_output ::
    "nat \<Rightarrow> nat \<Rightarrow> nat \<Rightarrow> 'a provenance_scheme \<Rightarrow> string \<Rightarrow> string list \<Rightarrow> attested \<Rightarrow> bytes \<times> string
      \<Rightarrow> snapshot_values \<times> dict \<Rightarrow> bytes io" where
  "fill_output artifacts_fd output_fd output_snapshot p attestation_sha256 artifacts cores attestation snap =
     bindI (mapI (copied_artifact artifacts_fd output_fd cores) (sort artifacts)) (\<lambda>records.
     bindI (write_regular output_fd CORE_ATTESTATION_NAME (fst attestation)) (\<lambda>_.
     bindI (mapI (\<lambda>name. write_regular output_snapshot name
              (case map_of (fst snap) name of None \<Rightarrow> [] | Some (raw, _) \<Rightarrow> raw)) SNAPSHOT_FILES) (\<lambda>_.
     let raw_handoff = canonical_json (handoff_json p attestation_sha256 (snd snap)
           (records @ [attestation_record attestation] @ map (snapshot_record (fst snap)) SNAPSHOT_FILES)) in
     if MAX_HANDOFF_BYTES < length raw_handoff
     then raiseI (ValueError ''candidate handoff exceeds the safety limit'')
     else
       bindI (write_regular output_fd HANDOFF_NAME raw_handoff) (\<lambda>_.
       bindI (os_fsync output_snapshot) (\<lambda>_.
       bindI (os_fsync output_fd) (\<lambda>_. returnI raw_handoff))))))"

definition build_output ::
    "nat \<Rightarrow> nat \<Rightarrow> create_paths \<Rightarrow> 'a provenance_scheme \<Rightarrow> string \<Rightarrow> string list \<Rightarrow> string \<Rightarrow> bytes io" where
  "build_output artifacts_fd snapshot_fd paths p attestation_sha256 artifacts module_path =
     bindI (read_path_regular (cp_attestation paths) MAX_HANDOFF_BYTES ''core attestation'') (\<lambda>attestation.
     if \<not> fullmatch DIGEST_RX attestation_sha256 \<or> snd attestation \<noteq> attestation_sha256
     then raiseI (ValueError ''core attestation digest differs from the verifier output'')
     else
       bindI (liftI (validate_core_attestation (fst attestation) (pv_family p) (filter is_core artifacts))) (\<lambda>cores.
       bindI (read_snapshot snapshot_fd (pv_family p) module_path (pv_upstream_commit p) (pv_snapshot_sha256 p)) (\<lambda>snap.
       bindI (os_resolve (butlast (cp_output paths))) (\<lambda>parent.
       bindI (liftI (canonical_component (path_name (cp_output paths)) ''output directory'')) (\<lambda>output_name.
       bindI (open_plain_directory parent ''output parent'') (\<lambda>parent_fd.
       finallyI
         (bindI (os_mkdir_at output_name 448 parent_fd) (\<lambda>_.
          bindI (bindI (open_child_directory parent_fd output_name ''output directory'') (\<lambda>output_fd.
            finallyI
              (bindI (os_mkdir_at SNAPSHOT_DIR 448 output_fd) (\<lambda>_.
               bindI (open_child_directory output_fd SNAPSHOT_DIR ''output snapshot directory'') (\<lambda>output_snapshot.
               finallyI
                 (fill_output artifacts_fd output_fd output_snapshot p attestation_sha256 artifacts cores attestation snap)
                 (os_close output_snapshot))))
              (os_close output_fd))) (\<lambda>raw_handoff.
          bindI (os_fsync parent_fd) (\<lambda>_. returnI raw_handoff))))
         (os_close parent_fd)))))))"

text \<open>When the second directory cannot be opened, the descriptor of the first stays open.\<close>

definition create_handoff :: "create_paths \<Rightarrow> 'a provenance_scheme \<Rightarrow> string \<Rightarrow> string io" where
  "create_handoff paths p attestation_sha256 =
     bindI (liftI (validate_provenance p)) (\<lambda>(artifacts, module_path).
     bindI (open_plain_directory (cp_artifacts paths) ''artifact directory'') (\<lambda>artifacts_fd.
     bindI (open_plain_directory (cp_snapshot paths) ''snapshot directory'') (\<lambda>snapshot_fd.
     bindI (finallyI (build_output artifacts_fd snapshot_fd paths p attestation_sha256 artifacts module_path)
              (bindI (os_close snapshot_fd) (\<lambda>_. os_close artifacts_fd))) (\<lambda>raw_handoff.
     bindI (verify_handoff (cp_output paths) p (sha256_hex raw_handoff) []) (\<lambda>_.
       returnI (sha256_hex raw_handoff))))))"

section \<open>The command line\<close>

datatype handoff_mode =
    Create create_paths string
  | Verify path string bool

definition handoff_main :: "handoff_mode \<Rightarrow> 'a provenance_scheme \<Rightarrow> string io" where
  "handoff_main mode p =
     (if pv_family p \<noteq> ''xray'' \<and> pv_family p \<noteq> ''sing_box'' then raiseI (UsageError ''invalid choice'')
      else case mode of
        Create paths attestation_sha256 \<Rightarrow> create_handoff paths p attestation_sha256
      | Verify directory expected_sha256 allow_final_manifest \<Rightarrow>
          bindI (verify_handoff directory p expected_sha256 (if allow_final_manifest then [''manifest.json''] else [])) (\<lambda>_.
            returnI ''candidate handoff verified''))"

end
