(* ===== verification/Published.thy ===== *)
theory Published
  imports Handoff Pinned_Inputs Remote_Release Release_Draft
begin

text \<open>
  \<open>scripts/verify_published_candidate.py\<close>: a release that is already public is the candidate. The
  candidate is verified again with its manifest, the release and its tag references are read through
  pinned directories, and every asset of the release is compared with the file of the candidate.
\<close>

definition MAX_RELEASE_BYTES :: nat where "MAX_RELEASE_BYTES = 16 * 1024 * 1024"
definition MAX_TAG_REFERENCES_BYTES :: nat where "MAX_TAG_REFERENCES_BYTES = 16 * 1024 * 1024"

definition read_external :: "path \<Rightarrow> nat \<Rightarrow> string \<Rightarrow> bytes io" where
  "read_external p maximum label = read_regular_stable p maximum label"

definition published_json :: "bytes \<Rightarrow> string \<Rightarrow> json res" where
  "published_json raw label =
     (case json_loads raw of
        Inl UnicodeDecodeError \<Rightarrow> Inl (ValueError (label @ '' is not valid JSON''))
      | Inl JSONDecodeError \<Rightarrow> Inl (ValueError (label @ '' is not valid JSON''))
      | Inl e \<Rightarrow> Inl e
      | Inr v \<Rightarrow> Inr v)"

definition published_object :: "bytes \<Rightarrow> string \<Rightarrow> dict res" where
  "published_object raw label =
     bindE (published_json raw label) (\<lambda>v.
       case v of JObj d \<Rightarrow> Inr d | _ \<Rightarrow> Inl (ValueError (label @ '' must be a JSON object'')))"

record published_args =
  pa_provenance :: provenance
  pa_candidate :: path
  pa_release :: path
  pa_references :: path
  pa_manifest :: path
  pa_handoff_sha256 :: string
  pa_wrapper_commit :: string

definition check_published_identity :: "published_args \<Rightarrow> dict \<Rightarrow> unit res" where
  "check_published_identity a release =
     (if \<not> py_eq (dget release ''tag_name'') (JStr (pv_release_tag (pa_provenance a)))
         \<or> \<not> py_eq (dget release ''target_commitish'') (JStr (pa_wrapper_commit a))
         \<or> dget release ''draft'' \<noteq> JBool False \<or> dget release ''prerelease'' \<noteq> JBool False
         \<or> \<not> is_int (dget release ''id'') \<or> the_int (dget release ''id'') \<le> 0
      then Inl (ValueError ''published release identity does not match the candidate'') else Inr ())"

definition asset_matches :: "dict \<Rightarrow> nat \<Rightarrow> string \<Rightarrow> bool" where
  "asset_matches remote n hex \<longleftrightarrow>
     py_eq (dget remote ''size'') (JInt (int n)) \<and> py_eq (dget remote ''digest'') (JStr (''sha256:'' @ hex))"

definition the_asset :: "asset_table \<Rightarrow> string \<Rightarrow> dict" where
  "the_asset assets name = (case map_of assets name of None \<Rightarrow> [] | Some d \<Rightarrow> d)"

definition compare_artifact :: "nat \<Rightarrow> asset_table \<Rightarrow> string \<Rightarrow> unit io" where
  "compare_artifact root remote_assets name =
     bindI (liftI (artifact_limit name)) (\<lambda>limit.
     bindI (digest_regular root name limit (''local release asset '' @ name)) (\<lambda>(n, hex).
       if \<not> asset_matches (the_asset remote_assets name) n hex
       then raiseI (ValueError (''published asset differs from the candidate: '' @ name)) else returnI ()))"

definition compare_release :: "published_args \<Rightarrow> dict \<Rightarrow> nat \<Rightarrow> unit io" where
  "compare_release a release root =
     bindI (read_regular root ''manifest.json'' MAX_MANIFEST_BYTES ''local release manifest'') (\<lambda>(local_manifest, local_digest).
     bindI (read_external (pa_manifest a) MAX_MANIFEST_BYTES ''remote release manifest'') (\<lambda>remote_manifest.
     if remote_manifest \<noteq> local_manifest
     then raiseI (ValueError ''remote manifest bytes differ from the local candidate'')
     else
       bindI (liftI (published_object local_manifest ''local release manifest'')) (\<lambda>manifest.
       bindI (liftI (verify_remote_release (JObj release) (JObj manifest) local_manifest (pv_family (pa_provenance a))
               (pv_upstream_commit (pa_provenance a)) (pa_wrapper_commit a) False)) (\<lambda>_.
       bindI (liftI (asset_map release)) (\<lambda>remote_assets.
       bindI (liftI (family_contract (pv_family (pa_provenance a)) (pv_upstream_tag (pa_provenance a)))) (\<lambda>(artifacts, _, _).
       if \<not> same_elems (map fst remote_assets) (''manifest.json'' # artifacts)
       then raiseI (ValueError ''published release asset set differs from the candidate'')
       else
         bindI (mapI (compare_artifact root remote_assets) (sort artifacts)) (\<lambda>_.
         if \<not> asset_matches (the_asset remote_assets ''manifest.json'') (length local_manifest) local_digest
            \<or> sha256_hex remote_manifest \<noteq> local_digest
         then raiseI (ValueError ''published manifest digest differs from the candidate'') else returnI ())))))))"

definition verify_published_candidate :: "published_args \<Rightarrow> unit io" where
  "verify_published_candidate a =
     bindI (verify_handoff (pa_candidate a) (pa_provenance a) (pa_handoff_sha256 a) [''manifest.json'']) (\<lambda>_.
     if \<not> fullmatch COMMIT_RX (pa_wrapper_commit a)
     then raiseI (ValueError ''published wrapper commit is invalid'')
     else
       bindI (read_external (pa_release a) MAX_RELEASE_BYTES ''published release'') (\<lambda>raw_release.
       bindI (liftI (published_object raw_release ''published release'')) (\<lambda>release.
       bindI (liftI (check_published_identity a release)) (\<lambda>_.
       bindI (read_external (pa_references a) MAX_TAG_REFERENCES_BYTES ''release tag references'') (\<lambda>raw_references.
       bindI (liftI (published_json raw_references ''release tag references'')) (\<lambda>references.
       bindI (liftI (verify_tag_references references (pv_release_tag (pa_provenance a)) (pa_wrapper_commit a) False)) (\<lambda>_.
       bindI (open_plain_directory (pa_candidate a) ''candidate directory'') (\<lambda>root.
         finallyI (compare_release a release root) (os_close root)))))))))"

text \<open>The command line: an unknown family is a usage error; \<open>OSError\<close> and \<open>ValueError\<close> end in status 1.\<close>

definition published_main :: "published_args \<Rightarrow> string io" where
  "published_main a =
     (if pv_family (pa_provenance a) \<noteq> ''xray'' \<and> pv_family (pa_provenance a) \<noteq> ''sing_box''
      then raiseI (UsageError ''invalid choice'')
      else bindI (verify_published_candidate a) (\<lambda>_.
        returnI ''published release exactly matches the immutable candidate''))"

end
