(* ===== verification/Py_Text.thy ===== *)
theory Py_Text
  imports Os_Model
begin

text \<open>
  The methods of \<open>bytes\<close> and \<open>str\<close> with which the scripts take apart the output of programs: decoding,
  \<open>strip\<close>, \<open>split\<close>. A decoded string is kept as its UTF-8 octets.
\<close>

definition decode_ascii :: "bytes \<Rightarrow> string res" where
  "decode_ascii b = (if list_all (\<lambda>c. byte_val c < 128) b then Inr b else Inl UnicodeDecodeError)"

definition decode_utf8 :: "bytes \<Rightarrow> string res" where
  "decode_utf8 b = (if utf8_ok False b then Inr b else Inl UnicodeDecodeError)"

text \<open>\<open>s.strip()\<close>: leading and trailing white space of any length in octets.\<close>

fun lstrip :: "string \<Rightarrow> string" where
  "lstrip [] = []"
| "lstrip [a] = (if ascii_space a then [] else [a])"
| "lstrip [a, b] = (if ascii_space a then lstrip [b] else if space2 a b then [] else [a, b])"
| "lstrip (a # b # c # s) =
     (if ascii_space a then lstrip (b # c # s)
      else if space2 a b then lstrip (c # s)
      else if space3 a b c then lstrip s else a # b # c # s)"

fun rstrip_rev :: "string \<Rightarrow> string" where
  "rstrip_rev [] = []"
| "rstrip_rev [a] = (if ascii_space a then [] else [a])"
| "rstrip_rev [b, a] = (if ascii_space b then rstrip_rev [a] else if space2 a b then [] else [b, a])"
| "rstrip_rev (c # b # a # s) =
     (if ascii_space c then rstrip_rev (b # a # s)
      else if space2 b c then rstrip_rev (a # s)
      else if space3 a b c then rstrip_rev s else c # b # a # s)"

definition py_strip :: "string \<Rightarrow> string" where
  "py_strip s = rev (rstrip_rev (rev (lstrip s)))"

text \<open>\<open>s.split()\<close> of an ASCII string: the maximal pieces without white space.\<close>

fun split_words :: "string \<Rightarrow> string \<Rightarrow> string list" where
  "split_words acc [] = (if acc = [] then [] else [rev acc])"
| "split_words acc (c # s) =
     (if ascii_space c then (if acc = [] then split_words [] s else rev acc # split_words [] s)
      else split_words (c # acc) s)"

definition py_split :: "string \<Rightarrow> string list" where
  "py_split s = split_words [] s"

text \<open>\<open>s.split(d, 1)\<close>: \<open>None\<close> where there is no separator.\<close>

fun split_first :: "char \<Rightarrow> string \<Rightarrow> (string \<times> string) option" where
  "split_first d [] = None"
| "split_first d (c # s) =
     (if c = d then Some ([], s)
      else case split_first d s of None \<Rightarrow> None | Some (a, b) \<Rightarrow> Some (c # a, b))"

text \<open>\<open>except ValueError\<close>: the decoding errors are subclasses.\<close>

definition is_value_error :: "err \<Rightarrow> bool" where
  "is_value_error e = (case e of ValueError _ \<Rightarrow> True | DraftNotReady _ \<Rightarrow> True | JSONDecodeError \<Rightarrow> True
     | UnicodeDecodeError \<Rightarrow> True | _ \<Rightarrow> False)"

text \<open>Git's lists of paths end every item with a NUL.\<close>

definition nul :: char where "nul = CHR 0x00"

section \<open>Lemmas\<close>

lemma decode_ascii_Inr [res_iff]: "decode_ascii b = Inr s \<longleftrightarrow> s = b \<and> list_all (\<lambda>c. byte_val c < 128) b"
  by (auto simp: decode_ascii_def)

lemma decode_utf8_Inr [res_iff]: "decode_utf8 b = Inr s \<longleftrightarrow> s = b \<and> utf8_ok False b"
  by (auto simp: decode_utf8_def)

lemma split_first_Some: "split_first d s = Some (a, b) \<longleftrightarrow> s = a @ d # b \<and> d \<notin> set a"
proof (induction s arbitrary: a)
  case (Cons c s)
  consider "a = []" | x a' where "a = x # a'" by (cases a) auto
  thus ?case
  proof cases
    case 2
    thus ?thesis using Cons.IH [of a'] by (cases "split_first d s") auto
  qed (cases "split_first d s"; auto)
qed simp

lemma split_on_nonempty [simp]: "split_on d s \<noteq> []"
  by (cases s) (auto split: list.split)

lemma split_on_Cons_sep: "d \<notin> set a \<Longrightarrow> split_on d (a @ d # b) = a # split_on d b"
proof (induction a)
  case Nil thus ?case by simp
next
  case (Cons c a) thus ?case by (cases "c = d") auto
qed

lemma split_on_join:
  "list_all (\<lambda>p. d \<notin> set p) ps \<Longrightarrow> split_on d (concat (map (\<lambda>p. p @ [d]) ps)) = ps @ [[]]"
proof (induction ps)
  case (Cons p ps)
  then show ?case using split_on_Cons_sep [of d p "concat (map (\<lambda>p. p @ [d]) ps)"] by simp
next
  case Nil thus ?case by simp
qed

lemma split_parts_no_sep: "list_all (\<lambda>p. d \<notin> set p) (split_on d s)"
  by (induction s) (auto split: list.splits)

lemma concat_split: "concat (map (\<lambda>p. p @ [d]) (split_on d s)) = s @ [d]"
proof (induction s)
  case (Cons c s)
  thus ?case by (cases "split_on d s") auto
qed simp

end
