(* ===== verification/Git_Tool.thy ===== *)
theory Git_Tool
  imports Pinned_Inputs Py_Text
begin

text \<open>
  Running \<open>git\<close> and \<open>go\<close> in \<open>scripts/verify_build_inputs.py\<close>: the executable is found on a search path
  that leaves out the repository, pinned by its identity and run in a pinned directory with an
  environment that carries no settings of the caller for these programs. What the programs write, how
  \<open>shutil.which\<close> searches and what the kernel lets the user execute are parameters.
\<close>

type_synonym environ = "string \<Rightarrow> string option"

record tools =
  t_environ :: environ
  t_cwd :: path
  t_python :: string
  t_which :: "string \<Rightarrow> string \<Rightarrow> string option io"
  t_may_execute :: "path \<Rightarrow> bool io"
  t_run :: "string list \<Rightarrow> environ \<Rightarrow> nat \<Rightarrow> bytes io"

definition to_path :: "'a tools_scheme \<Rightarrow> string \<Rightarrow> path" where
  "to_path T s = (if is_absolute s then posix_parts s else t_cwd T @ posix_parts s)"

definition path_text :: "path \<Rightarrow> string" where
  "path_text p = ''/'' @ join_with ''/'' p"

section \<open>Executables\<close>

type_synonym fingerprint = "nat \<times> nat \<times> (file_type \<times> nat) \<times> nat \<times> nat \<times> nat"

definition executable_fingerprint :: "stat_result \<Rightarrow> fingerprint" where
  "executable_fingerprint s = (st_dev s, st_ino s, (st_type s, st_perm s), st_size s, st_mtime s, st_ctime s)"

record pinned_executable =
  px_path :: path
  px_fd :: nat
  px_fingerprint :: fingerprint

text \<open>\<open>os.open(path, O_RDONLY | O_NOFOLLOW)\<close>, a directory included\<close>

definition os_open_any :: "path \<Rightarrow> nat io" where
  "os_open_any p = syscall (\<lambda>_ w. case lookup_path w p of
       Some (ino, n) \<Rightarrow> new_fd ino w | None \<Rightarrow> fail ''open'' w)"

definition may_be_executed :: "stat_result \<Rightarrow> bool" where
  "may_be_executed s \<longleftrightarrow> and (st_perm s) 0x49 \<noteq> 0"

definition pin_exact_executable :: "'a tools_scheme \<Rightarrow> string \<Rightarrow> pinned_executable io" where
  "pin_exact_executable T v =
     (if \<not> is_absolute v then raiseI (ValueError ''command executable must be an exact absolute path'')
      else
        bindI (os_errorI (os_resolve (to_path T v)) (ValueError ''command executable cannot be resolved'')) (\<lambda>resolved.
        bindI (os_errorI (os_open_any resolved) (ValueError ''command executable cannot be pinned'')) (\<lambda>fd.
        on_errorI
          (bindI (os_fstat fd) (\<lambda>opened.
           bindI (os_lstat resolved) (\<lambda>named.
             if st_type opened \<noteq> Regular \<or> \<not> may_be_executed opened
                \<or> executable_fingerprint named \<noteq> executable_fingerprint opened
             then raiseI (ValueError ''command executable is unsafe'')
             else returnI \<lparr>px_path = resolved, px_fd = fd, px_fingerprint = executable_fingerprint opened\<rparr>)))
          (os_close fd))))"

definition verify_pinned_executable :: "pinned_executable \<Rightarrow> unit io" where
  "verify_pinned_executable x =
     bindI (os_errorI (bindI (os_fstat (px_fd x)) (\<lambda>opened. bindI (os_lstat (px_path x)) (\<lambda>named. returnI (opened, named))))
             (ValueError ''command executable changed'')) (\<lambda>(opened, named).
     if executable_fingerprint opened \<noteq> px_fingerprint x \<or> executable_fingerprint named \<noteq> px_fingerprint x
     then raiseI (ValueError ''command executable changed'') else returnI ())"

section \<open>The search path and the environment\<close>

definition is_below :: "path \<Rightarrow> path \<Rightarrow> bool" where
  "is_below p root \<longleftrightarrow> take (length root) p = root"

text \<open>\<open>None\<close> for an entry that is skipped\<close>

definition search_entry :: "'a tools_scheme \<Rightarrow> path \<Rightarrow> string \<Rightarrow> string option io" where
  "search_entry T forbidden_root raw w =
     (if raw = [] \<or> \<not> is_absolute raw then (Inr None, w)
      else case os_resolve (to_path T raw) w of
        (Inl e, w') \<Rightarrow> if is_os_error e then (Inr None, w') else (Inl e, w')
      | (Inr resolved, w') \<Rightarrow>
          bindI (path_is_dir resolved) (\<lambda>d.
            returnI (if \<not> d \<or> is_below resolved forbidden_root then None else Some (path_text resolved))) w')"

text \<open>The first occurrence of every value, in order\<close>

definition dedup :: "'a list \<Rightarrow> 'a list" where
  "dedup xs = rev (remdups (rev xs))"

definition sanitized_search_path :: "'a tools_scheme \<Rightarrow> string \<Rightarrow> path \<Rightarrow> string io" where
  "sanitized_search_path T search root =
     bindI (os_resolve root) (\<lambda>forbidden_root.
     bindI (mapI (search_entry T forbidden_root) (split_on (CHR '':'') search)) (\<lambda>entries.
       let values = dedup (List.map_filter (\<lambda>e. e) entries) in
       if values = [] then raiseI (ValueError ''trusted executable search path is empty'')
       else returnI (join_with '':'' values)))"

definition FORBIDDEN_VARIABLES :: "string list" where
  "FORBIDDEN_VARIABLES = [''BASH_ENV'', ''CDPATH'', ''ENV'', ''LD_AUDIT'', ''LD_LIBRARY_PATH'', ''LD_PRELOAD'',
     ''PYTHONHOME'', ''PYTHONPATH'']"

definition plain_environment :: "environ \<Rightarrow> environ" where
  "plain_environment source k =
     (if List.member FORBIDDEN_VARIABLES k \<or> startswith k ''DYLD_'' then None else source k)"

definition base_environment :: "'a tools_scheme \<Rightarrow> path \<Rightarrow> environ io" where
  "base_environment T forbidden_root =
     (let env = plain_environment (t_environ T) in
      bindI (sanitized_search_path T (case env ''PATH'' of None \<Rightarrow> [] | Some s \<Rightarrow> s) forbidden_root) (\<lambda>search.
        returnI (env(''PATH'' \<mapsto> search))))"

definition GIT_SETTINGS :: "(string \<times> string) list" where
  "GIT_SETTINGS =
     [(''GIT_CONFIG_NOSYSTEM'', ''1''), (''GIT_CONFIG_GLOBAL'', ''/dev/null''), (''GIT_CONFIG_SYSTEM'', ''/dev/null''),
      (''GIT_CONFIG_COUNT'', ''3''), (''GIT_CONFIG_KEY_0'', ''core.fsmonitor''), (''GIT_CONFIG_VALUE_0'', ''false''),
      (''GIT_CONFIG_KEY_1'', ''core.hooksPath''), (''GIT_CONFIG_VALUE_1'', ''/dev/null''),
      (''GIT_CONFIG_KEY_2'', ''core.fileMode''), (''GIT_CONFIG_VALUE_2'', ''true''),
      (''GIT_OPTIONAL_LOCKS'', ''0''), (''GIT_TERMINAL_PROMPT'', ''0''), (''LC_ALL'', ''C'')]"

definition git_environment :: "environ \<Rightarrow> environ" where
  "git_environment base =
     (\<lambda>k. if startswith k ''GIT_'' then None else base k) ++ map_of GIT_SETTINGS"

definition git_options :: "string list" where
  "git_options = [''--no-pager'', ''-c'', ''core.fsmonitor=false'', ''-c'', ''core.hooksPath=/dev/null'',
     ''-c'', ''core.fileMode=true'']"

section \<open>Running a tool\<close>

definition trusted_tool :: "'a tools_scheme \<Rightarrow> string \<Rightarrow> environ \<Rightarrow> string io" where
  "trusted_tool T name env =
     (if name \<noteq> ''git'' \<and> name \<noteq> ''go'' then raiseI (ValueError ''unsupported trusted tool'')
      else
        bindI (t_which T name (case env ''PATH'' of None \<Rightarrow> [] | Some s \<Rightarrow> s)) (\<lambda>candidate.
        case candidate of
          None \<Rightarrow> raiseI (ValueError (''trusted '' @ name @ '' executable is unavailable''))
        | Some c \<Rightarrow>
            bindI (os_errorI (bindI (os_resolve (to_path T c)) (\<lambda>resolved.
                     bindI (os_lstat resolved) (\<lambda>metadata. returnI (resolved, metadata))))
                   (ValueError (''trusted '' @ name @ '' executable cannot be resolved''))) (\<lambda>(resolved, metadata).
            if st_type metadata \<noteq> Regular \<or> \<not> may_be_executed metadata
            then raiseI (ValueError (''trusted '' @ name @ '' executable is unsafe''))
            else
              bindI (t_may_execute T resolved) (\<lambda>ok.
                if \<not> ok then raiseI (ValueError (''trusted '' @ name @ '' executable is unsafe''))
                else returnI (path_text resolved)))))"

definition FCHDIR_EXEC_HELPER :: string where
  "FCHDIR_EXEC_HELPER =
     ''import os,sys; '' @ ''descriptor=int(sys.argv[1]); '' @ ''os.fchdir(descriptor); ''
     @ ''os.close(descriptor); '' @ ''os.execv(sys.argv[2],sys.argv[2:])''"

definition run_tool_in_directory :: "'a tools_scheme \<Rightarrow> string \<Rightarrow> string list \<Rightarrow> pinned \<Rightarrow> environ \<Rightarrow> bytes io" where
  "run_tool_in_directory T executable arguments d env =
     bindI (pin_exact_executable T executable) (\<lambda>tool.
     finallyI
       (bindI (verify_pinned d) (\<lambda>_.
        bindI (t_run T ([t_python T, ''-I'', ''-c'', FCHDIR_EXEC_HELPER, dec_nat (pd_fd d), path_text (px_path tool)] @ arguments)
                 env (pd_fd d)) (\<lambda>output.
        bindI (verify_pinned_executable tool) (\<lambda>_.
        bindI (verify_pinned d) (\<lambda>_. returnI output)))))
       (os_close (px_fd tool)))"

text \<open>
  \<open>_git\<close>: a directory it has pinned itself is closed at the end, but not when the environment or the
  executable cannot be had.
\<close>

definition git_in :: "'a tools_scheme \<Rightarrow> pinned \<Rightarrow> unit io \<Rightarrow> string list \<Rightarrow> bytes io" where
  "git_in T d finish arguments =
     bindI (base_environment T (pd_canonical d)) (\<lambda>base.
     bindI (trusted_tool T ''git'' (git_environment base)) (\<lambda>executable.
       finallyI (run_tool_in_directory T executable (git_options @ arguments) d (git_environment base)) finish))"

definition git :: "'a tools_scheme \<Rightarrow> pinned \<Rightarrow> string list \<Rightarrow> bytes io" where
  "git T d arguments = git_in T d (returnI ()) arguments"

definition git_at :: "'a tools_scheme \<Rightarrow> path \<Rightarrow> string list \<Rightarrow> bytes io" where
  "git_at T root arguments =
     bindI (pin_directory root ''repository root'') (\<lambda>d. git_in T d (os_close (pd_fd d)) arguments)"

definition GO_SETTINGS :: "(string \<times> string) list" where
  "GO_SETTINGS =
     [(''GO111MODULE'', ''on''), (''GOENV'', ''off''), (''GOFLAGS'', []), (''GOTOOLCHAIN'', ''local''), (''GOWORK'', ''off'')]
     @ GIT_SETTINGS"

definition go_environment :: "environ \<Rightarrow> environ" where
  "go_environment base =
     (\<lambda>k. if List.member [''AR'', ''CC'', ''CXX'', ''FC'', ''GCCGO'', ''GOROOT'', ''PKG_CONFIG''] k
             \<or> startswith k ''CGO_'' \<or> startswith k ''GIT_'' then None else base k) ++ map_of GO_SETTINGS"

definition tool_parent :: "string \<Rightarrow> string" where
  "tool_parent executable = path_text (butlast (posix_parts executable))"

definition run_go_in_directory :: "'a tools_scheme \<Rightarrow> string list \<Rightarrow> pinned \<Rightarrow> bytes io" where
  "run_go_in_directory T arguments d =
     (if arguments = [] \<or> hd arguments \<noteq> ''go'' then raiseI (ValueError ''unexpected Go command'')
      else
        bindI (base_environment T (pd_canonical d)) (\<lambda>base.
        let env = go_environment base in
        bindI (trusted_tool T ''go'' env) (\<lambda>go_executable.
        bindI (trusted_tool T ''git'' env) (\<lambda>git_executable.
          let search = (case env ''PATH'' of None \<Rightarrow> [] | Some s \<Rightarrow> s);
              dirs = dedup ([tool_parent go_executable, tool_parent git_executable] @ split_on (CHR '':'') search) in
          run_tool_in_directory T go_executable (tl arguments) d (env(''PATH'' \<mapsto> join_with '':'' dirs))))))"

definition run_go_bounded :: "'a tools_scheme \<Rightarrow> string list \<Rightarrow> path \<Rightarrow> bytes io" where
  "run_go_bounded T arguments cwd =
     bindI (pin_directory cwd ''Go module directory'') (\<lambda>d.
       finallyI (run_go_in_directory T arguments d) (os_close (pd_fd d)))"

section \<open>The repository and its head\<close>

definition canonical_root :: "'a tools_scheme \<Rightarrow> path \<Rightarrow> path io" where
  "canonical_root T root =
     bindI (pin_directory root ''repository root'') (\<lambda>d.
     finallyI
       (bindI (git T d [''rev-parse'', ''--show-toplevel'']) (\<lambda>raw.
        bindI (liftI (decode_utf8 raw)) (\<lambda>top.
        bindI (os_errorI (bindI (os_resolve (to_path T (py_strip top))) (\<lambda>top_path.
                 bindI (bindI (os_path_stat top_path) (\<lambda>s. liftI (pin_identity s))) (\<lambda>i. returnI (top_path, i))))
               (ValueError ''Git worktree root changed'')) (\<lambda>(top_path, top_identity).
        bindI (verify_pinned d) (\<lambda>_.
          if top_path \<noteq> pd_canonical d \<or> top_identity \<noteq> pd_identity d
          then raiseI (ValueError ''repository path is not the Git worktree root'')
          else returnI (pd_canonical d))))))
       (os_close (pd_fd d)))"

text \<open>The check runs \<open>git\<close> in a pinned directory or, pinning it for the call, on a path.\<close>

definition check_expected_head :: "(string list \<Rightarrow> bytes io) \<Rightarrow> string \<Rightarrow> unit io" where
  "check_expected_head run expected_head =
     (if \<not> fullmatch COMMIT_RX expected_head then raiseI (ValueError ''expected build commit is invalid'')
      else
        bindI (run [''rev-parse'', ''--verify'', ''HEAD^{commit}'']) (\<lambda>raw.
        bindI (liftI (decode_ascii raw)) (\<lambda>s.
          if py_strip s \<noteq> expected_head
          then raiseI (ValueError ''repository HEAD moved away from the expected build commit'')
          else returnI ())))"

definition require_expected_head :: "'a tools_scheme \<Rightarrow> pinned \<Rightarrow> string \<Rightarrow> unit io" where
  "require_expected_head T d = check_expected_head (git T d)"

definition require_expected_head_at :: "'a tools_scheme \<Rightarrow> path \<Rightarrow> string \<Rightarrow> unit io" where
  "require_expected_head_at T root = check_expected_head (git_at T root)"

end
