(* ===== verification/Head_State.thy ===== *)
theory Head_State
  imports Git_Tool
begin

text \<open>
  \<open>scripts/release_head_state.py\<close>: the commits whose build a release at the head of the workflow may
  continue. Besides the head itself this is its parent, when it has exactly one and the head changes
  nothing but the contents of pin files of the other families.
\<close>

definition canonical_path :: "string \<Rightarrow> string res" where
  "canonical_path v =
     (if v = [] \<or> is_absolute v \<or> as_posix v \<noteq> v \<or> List.member (posix_parts v) ''..''
      then Inl (ValueError ''foreign pin path is not canonical'') else Inr v)"

text \<open>\<open>raw.split(b"\0")\<close> without a last empty part\<close>

definition nul_parts :: "bytes \<Rightarrow> bytes list" where
  "nul_parts raw = (let parts = split_on nul raw in if last parts = [] then butlast parts else parts)"

definition change_of :: "bytes \<Rightarrow> bytes \<Rightarrow> (string \<times> string) res" where
  "change_of raw_status raw_path =
     (case (decode_ascii raw_status, decode_utf8 raw_path) of
        (Inr status, Inr p) \<Rightarrow> bindE (canonical_path p) (\<lambda>p. Inr (status, p))
      | _ \<Rightarrow> Inl (ValueError ''Git returned a non-UTF-8 change''))"

fun changes_of :: "bytes list \<Rightarrow> (string \<times> string) list res" where
  "changes_of (status # p # parts) =
     bindE (change_of status p) (\<lambda>c. bindE (changes_of parts) (\<lambda>cs. Inr (c # cs)))"
| "changes_of _ = Inr []"

definition parse_name_status :: "bytes \<Rightarrow> (string \<times> string) list res" where
  "parse_name_status raw =
     (if odd (length (nul_parts raw)) then Inl (ValueError ''Git returned malformed name-status output'')
      else changes_of (nul_parts raw))"

definition only_pins :: "string list \<Rightarrow> (string \<times> string) list \<Rightarrow> bool" where
  "only_pins pins changes \<longleftrightarrow> changes \<noteq> [] \<and> list_all (\<lambda>(status, p). status = ''M'' \<and> List.member pins p) changes"

definition current_wrapper_candidates :: "'a tools_scheme \<Rightarrow> path \<Rightarrow> string \<Rightarrow> string list \<Rightarrow> string list io" where
  "current_wrapper_candidates T root head foreign_pins =
     (if \<not> fullmatch COMMIT_RX head then raiseI (ValueError ''workflow head is invalid'')
      else
        bindI (liftI (mapE canonical_path foreign_pins)) (\<lambda>pins.
        if pins = [] then raiseI (ValueError ''foreign pin set is empty'')
        else
          bindI (canonical_root T root) (\<lambda>top.
          bindI (require_expected_head_at T top head) (\<lambda>_.
          bindI (git_at T top [''rev-list'', ''--parents'', ''-n'', ''1'', head]) (\<lambda>raw.
          bindI (liftI (decode_ascii raw)) (\<lambda>s.
            let parents = py_split (py_strip s) in
            if parents = [] \<or> hd parents \<noteq> head \<or> \<not> list_all (fullmatch COMMIT_RX) parents
            then raiseI (ValueError ''Git returned malformed parentage'')
            else
              bindI
                (if length parents = 2
                 then
                   bindI (git_at T top [''diff'', ''--no-ext-diff'', ''--no-renames'', ''--name-status'', ''-z'',
                            parents ! 1, head, ''--'']) (\<lambda>raw.
                   bindI (liftI (parse_name_status raw)) (\<lambda>changes.
                     returnI (if only_pins pins changes then [head, parents ! 1] else [head])))
                 else returnI [head]) (\<lambda>candidates.
              bindI (require_expected_head_at T top head) (\<lambda>_. returnI candidates))))))))"

text \<open>The command line prints one candidate per line.\<close>

definition head_state_main :: "'a tools_scheme \<Rightarrow> path \<Rightarrow> string \<Rightarrow> string list \<Rightarrow> string io" where
  "head_state_main T repo head foreign_pins =
     bindI (current_wrapper_candidates T repo head foreign_pins) (\<lambda>candidates.
       returnI (concat (map (\<lambda>c. c @ [CHR 0x0A]) candidates)))"

section \<open>The list of changes\<close>

definition change_ok :: "string \<times> string \<Rightarrow> bool" where
  "change_ok c \<longleftrightarrow> list_all (\<lambda>x. byte_val x < 128) (fst c) \<and> utf8_ok False (snd c)
     \<and> canonical_path (snd c) = Inr (snd c) \<and> nul \<notin> set (fst c) \<and> nul \<notin> set (snd c)"

definition name_status :: "(string \<times> string) list \<Rightarrow> bytes" where
  "name_status changes = concat (map (\<lambda>c. fst c @ [nul] @ snd c @ [nul]) changes)"

lemma canonical_path_Inr [res_iff]:
  "canonical_path v = Inr u \<longleftrightarrow> u = v \<and> v \<noteq> [] \<and> \<not> is_absolute v \<and> as_posix v = v \<and> ''..'' \<notin> set (posix_parts v)"
  by (auto simp: canonical_path_def)

lemma change_of_Inr:
  "change_of a b = Inr c \<longleftrightarrow> c = (a, b) \<and> list_all (\<lambda>x. byte_val x < 128) a \<and> utf8_ok False b \<and> canonical_path b = Inr b"
  by (auto simp: change_of_def decode_ascii_def decode_utf8_def bindE_eq_Inr split: sum.splits if_splits)
     (auto simp: res_iff)

lemma nul_parts_no_nul: "list_all (\<lambda>p. nul \<notin> set p) (nul_parts raw)"
  using split_parts_no_sep [of nul raw]
  by (auto simp: nul_parts_def Let_def list_all_iff dest: in_set_butlastD)

definition flat_changes :: "(string \<times> string) list \<Rightarrow> bytes list" where
  "flat_changes changes = concat (map (\<lambda>c. [fst c, snd c]) changes)"

lemma flat_changes_simps [simp]:
  "flat_changes [] = []" "flat_changes (c # cs) = fst c # snd c # flat_changes cs"
  by (simp_all add: flat_changes_def)

lemma flat_changes_Nil [simp]: "flat_changes changes = [] \<longleftrightarrow> changes = []"
  by (cases changes) simp_all

lemma name_status_flat: "name_status changes = concat (map (\<lambda>p. p @ [nul]) (flat_changes changes))"
  by (induction changes) (simp_all add: name_status_def)

lemma changes_of_Inr:
  "even (length parts) \<Longrightarrow> changes_of parts = Inr changes \<longleftrightarrow>
     parts = flat_changes changes \<and> list_all (\<lambda>c. change_of (fst c) (snd c) = Inr c) changes"
proof (induction parts arbitrary: changes rule: changes_of.induct)
  case (1 a b parts)
  show ?case
  proof (cases changes)
    case Nil
    thus ?thesis by (simp add: bindE_eq_Inr)
  next
    case (Cons c cs)
    have "changes_of (a # b # parts) = Inr (c # cs) \<longleftrightarrow> change_of a b = Inr c \<and> changes_of parts = Inr cs"
      by (cases c) (auto simp: bindE_eq_Inr)
    also have "\<dots> \<longleftrightarrow> change_of a b = Inr c \<and> parts = flat_changes cs \<and> list_all (\<lambda>c. change_of (fst c) (snd c) = Inr c) cs"
      using 1 by (cases c) auto
    finally show ?thesis using Cons by (auto simp: change_of_Inr)
  qed
next
  case "2_1"
  show ?case by (cases changes) auto
qed simp

lemma nul_parts_iff:
  assumes ps: "list_all (\<lambda>p. nul \<notin> set p) ps"
  shows "nul_parts raw = ps \<longleftrightarrow>
     raw = concat (map (\<lambda>p. p @ [nul]) ps) \<or> ps \<noteq> [] \<and> last ps \<noteq> [] \<and> raw @ [nul] = concat (map (\<lambda>p. p @ [nul]) ps)"
proof -
  let ?q = "split_on nul raw" and ?join = "\<lambda>ps. concat (map (\<lambda>p. p @ [nul]) ps)"
  have q: "?join ?q = raw @ [nul]" by (rule concat_split)
  have inj: "?join ps = ?join qs \<Longrightarrow> list_all (\<lambda>p. nul \<notin> set p) ps \<Longrightarrow> list_all (\<lambda>p. nul \<notin> set p) qs \<Longrightarrow> ps = qs" for ps qs
    using split_on_join [of nul ps] split_on_join [of nul qs] by (metis append_same_eq)
  have qn: "list_all (\<lambda>p. nul \<notin> set p) ?q" by (rule split_parts_no_sep)
  show ?thesis
  proof (cases "last ?q = []")
    case True
    then obtain qs where qs: "?q = qs @ [[]]" by (metis append_butlast_last_id split_on_nonempty)
    have "raw = ?join qs" using q qs by simp
    moreover have "nul_parts raw = qs" by (simp add: nul_parts_def qs)
    moreover have "qs = ps \<longleftrightarrow> ?join qs = ?join ps" using inj [of qs ps] ps qn qs by auto
    moreover have "\<not> (ps \<noteq> [] \<and> last ps \<noteq> [] \<and> raw @ [nul] = ?join ps)"
    proof
      assume a: "ps \<noteq> [] \<and> last ps \<noteq> [] \<and> raw @ [nul] = ?join ps"
      hence "?q = ps" using inj [OF _ qn ps] q by simp
      thus False using a True by simp
    qed
    ultimately show ?thesis by auto
  next
    case False
    hence "nul_parts raw = ?q" by (simp add: nul_parts_def)
    moreover have "?q = ps \<longleftrightarrow> raw @ [nul] = ?join ps" using q inj [OF _ qn ps] by metis
    moreover have "raw \<noteq> ?join ps"
    proof
      assume "raw = ?join ps"
      hence "?q = ps @ [[]]" using split_on_join [OF ps] by simp
      thus False using False by simp
    qed
    ultimately show ?thesis using False by auto
  qed
qed

lemma last_flat: "changes \<noteq> [] \<Longrightarrow> last (flat_changes changes) = snd (last changes)"
  by (induction changes) auto

lemma even_flat: "even (length (flat_changes changes))"
  by (induction changes) auto

text \<open>C38. The output of \<open>git diff --name-status -z\<close> is accepted, as a list of changes, exactly when it consists of these
  changes: every status in ASCII, every path in UTF-8, canonical and without a NUL. Only the last NUL may be missing.\<close>

lemma parse_name_status_Inr:
  "parse_name_status raw = Inr changes \<longleftrightarrow>
     list_all change_ok changes \<and> (raw = name_status changes \<or> changes \<noteq> [] \<and> raw @ [nul] = name_status changes)"
proof -
  have "parse_name_status raw = Inr changes \<longleftrightarrow>
      nul_parts raw = flat_changes changes \<and> list_all (\<lambda>c. change_of (fst c) (snd c) = Inr c) changes"
    using changes_of_Inr [of "nul_parts raw" changes] even_flat [of changes] by (auto simp: parse_name_status_def)
  also have "\<dots> \<longleftrightarrow> nul_parts raw = flat_changes changes \<and> list_all change_ok changes"
  proof -
    have "list_all change_ok changes \<longleftrightarrow> list_all (\<lambda>c. change_of (fst c) (snd c) = Inr c) changes"
      if "nul_parts raw = flat_changes changes"
      using nul_parts_no_nul [of raw] unfolding that
      by (auto simp: flat_changes_def list_all_iff change_ok_def change_of_Inr)
    thus ?thesis by blast
  qed
  also have "\<dots> \<longleftrightarrow> list_all change_ok changes \<and> (raw = name_status changes \<or> changes \<noteq> [] \<and> raw @ [nul] = name_status changes)"
  proof (cases "list_all change_ok changes")
    case True
    hence f: "list_all (\<lambda>p. nul \<notin> set p) (flat_changes changes)" by (auto simp: flat_changes_def list_all_iff change_ok_def)
    have "changes \<noteq> [] \<Longrightarrow> last (flat_changes changes) \<noteq> []"
      using True last_flat [of changes] last_in_set [of changes] by (auto simp: list_all_iff change_ok_def canonical_path_Inr)
    thus ?thesis using True nul_parts_iff [OF f, of raw] by (auto simp: name_status_flat)
  qed simp
  finally show ?thesis .
qed

end
