(* ===== verification/Repo_State.thy ===== *)
theory Repo_State
  imports Git_Tool
begin

text \<open>
  The state of the repository that \<open>scripts/verify_build_inputs.py\<close> accepts for a release build: the
  head is the expected commit, no index entry carries a flag, nothing is staged, nothing but pin files
  is changed, nothing is untracked, and two scans of all this agree while the index file is held open.
\<close>

section \<open>Lists of paths\<close>

definition decoded_path :: "string \<Rightarrow> bytes \<Rightarrow> string res" where
  "decoded_path label item =
     (if \<not> utf8_ok False item then Inl (ValueError (label @ '' contains a non-UTF-8 path''))
      else if startswith item ''/'' \<or> item = [] \<or> item = ''.'' \<or> List.member (posix_parts item) ''..''
      then Inl (ValueError (label @ '' contains a noncanonical path'')) else Inr item)"

definition decode_paths :: "bytes \<Rightarrow> string \<Rightarrow> string set res" where
  "decode_paths raw label =
     bindE (mapE (decoded_path label) (filter (\<lambda>item. item \<noteq> []) (split_on nul raw))) (\<lambda>values. Inr (set values))"

definition relative_pin :: "string \<Rightarrow> string res" where
  "relative_pin v = bindE (relative_parts v ''pin path'' False) (\<lambda>parts. Inr (join_with ''/'' parts))"

definition is_non_build_ignored :: "string \<Rightarrow> bool" where
  "is_non_build_ignored p \<longleftrightarrow> path_name (posix_parts p) = ''.DS_Store'' \<or> List.member (posix_parts p) ''__pycache__''"

definition is_generated_output :: "string \<Rightarrow> bool" where
  "is_generated_output p \<longleftrightarrow> startswith p ''dist/'' \<or> startswith p ''dist-repro/''"

section \<open>The index\<close>

text \<open>
  The lines \<open>git ls-files --debug\<close> writes after an entry. Every run of digits ends at an octet that is
  no digit, so the pattern matches in one way.
\<close>

definition expect :: "string \<Rightarrow> bytes \<Rightarrow> bytes option" where
  "expect s raw = (if startswith raw s then Some (drop (length s) raw) else None)"

definition skip_digits :: "bytes \<Rightarrow> bytes option" where
  "skip_digits raw = (case raw of [] \<Rightarrow> None | c # _ \<Rightarrow> if is_digit c then Some (dropWhile is_digit raw) else None)"

definition bind_opt :: "'a option \<Rightarrow> ('a \<Rightarrow> 'b option) \<Rightarrow> 'b option" where
  "bind_opt m f = (case m of None \<Rightarrow> None | Some x \<Rightarrow> f x)"

definition skip_number_line :: "string \<Rightarrow> string \<Rightarrow> string \<Rightarrow> bytes \<Rightarrow> bytes option" where
  "skip_number_line before between after raw =
     bind_opt (expect before raw) (\<lambda>r. bind_opt (skip_digits r) (\<lambda>r.
     bind_opt (expect between r) (\<lambda>r. bind_opt (skip_digits r) (expect after))))"

definition is_hex_digit :: "char \<Rightarrow> bool" where
  "is_hex_digit c \<longleftrightarrow> is_digit c \<or> (97 \<le> byte_val c \<and> byte_val c \<le> 102) \<or> (65 \<le> byte_val c \<and> byte_val c \<le> 70)"

definition newline :: string where "newline = [CHR 0x0A]"
definition tab :: string where "tab = [CHR 0x09]"

text \<open>The digits of the flags and what follows the block\<close>

definition index_debug :: "bytes \<Rightarrow> (string \<times> bytes) option" where
  "index_debug raw =
     bind_opt (skip_number_line ''  ctime: '' '':'' newline raw) (\<lambda>r.
     bind_opt (skip_number_line ''  mtime: '' '':'' newline r) (\<lambda>r.
     bind_opt (skip_number_line ''  dev: '' (tab @ ''ino: '') newline r) (\<lambda>r.
     bind_opt (skip_number_line ''  uid: '' (tab @ ''gid: '') newline r) (\<lambda>r.
     bind_opt (expect ''  size: '' r) (\<lambda>r. bind_opt (skip_digits r) (\<lambda>r.
     bind_opt (expect (tab @ ''flags: '') r) (\<lambda>r.
       let flags = takeWhile is_hex_digit r in
       if flags = [] then None
       else bind_opt (expect newline (dropWhile is_hex_digit r)) (\<lambda>r. Some (flags, r)))))))))"

type_synonym index_entry = "string \<times> string \<times> string \<times> nat"

text \<open>The tag, the mode, the object and the stage of an entry, and its path\<close>

definition index_header :: "bytes \<Rightarrow> (bytes \<times> bytes \<times> bytes \<times> bytes \<times> bytes) res" where
  "index_header header =
     (case split_first (CHR 0x09) header of
        Some (metadata, raw_path) \<Rightarrow>
          (case split_on (CHR '' '') metadata of
             [tag, mode, object_id, stage] \<Rightarrow>
               if utf8_ok False raw_path then Inr (tag, mode, object_id, stage, raw_path)
               else Inl (ValueError ''Git returned malformed index entry'')
           | _ \<Rightarrow> Inl (ValueError ''Git returned malformed index entry''))
      | None \<Rightarrow> Inl (ValueError ''Git returned malformed index entry''))"

definition is_object_id :: "string \<Rightarrow> bool" where
  "is_object_id s \<longleftrightarrow> fullmatch COMMIT_RX s \<or> fullmatch DIGEST_RX s"

definition default_entry :: "bytes \<Rightarrow> bytes \<Rightarrow> bytes \<Rightarrow> bytes \<Rightarrow> string \<Rightarrow> bool" where
  "default_entry tag mode object_id stage flags \<longleftrightarrow>
     tag = ''H'' \<and> list_all (\<lambda>c. c = CHR ''0'') flags \<and> stage = ''0''
     \<and> (mode = ''100644'' \<or> mode = ''100755'') \<and> is_object_id object_id"

lemma expect_Some: "expect s raw = Some r \<longleftrightarrow> raw = s @ r"
  by (auto simp: expect_def startswith_iff)

lemma skip_digits_length: "skip_digits raw = Some r \<Longrightarrow> length r \<le> length raw"
  using length_dropWhile_le [of is_digit raw] by (auto simp: skip_digits_def split: list.splits if_splits)

lemma bind_opt_Some: "bind_opt m f = Some y \<longleftrightarrow> (\<exists>x. m = Some x \<and> f x = Some y)"
  by (cases m) (simp_all add: bind_opt_def)

lemma skip_number_line_length: "skip_number_line a b c raw = Some r \<Longrightarrow> length r \<le> length raw"
  by (auto simp: skip_number_line_def bind_opt_Some expect_Some dest!: skip_digits_length)

lemma index_debug_length: "index_debug raw = Some (flags, r) \<Longrightarrow> length r \<le> length raw"
proof -
  assume "index_debug raw = Some (flags, r)"
  then obtain r1 r2 r3 r4 r5 r6 r7 where
    l: "skip_number_line ''  ctime: '' '':'' newline raw = Some r1" "skip_number_line ''  mtime: '' '':'' newline r1 = Some r2"
      "skip_number_line ''  dev: '' (tab @ ''ino: '') newline r2 = Some r3"
      "skip_number_line ''  uid: '' (tab @ ''gid: '') newline r3 = Some r4" "skip_digits r5 = Some r6"
    and e: "r4 = ''  size: '' @ r5" "r6 = (tab @ ''flags: '') @ r7" "dropWhile is_hex_digit r7 = newline @ r"
    by (auto simp: index_debug_def bind_opt_Some expect_Some Let_def split: if_splits)
  have "length r \<le> length r7" using length_dropWhile_le [of is_hex_digit r7] unfolding e(3) by simp
  moreover have "length r7 \<le> length r6" "length r5 \<le> length r4" using e by simp_all
  ultimately show ?thesis using skip_number_line_length [OF l(1)] skip_number_line_length [OF l(2)]
      skip_number_line_length [OF l(3)] skip_number_line_length [OF l(4)] skip_digits_length [OF l(5)] by linarith
qed

function index_entries :: "bytes \<Rightarrow> index_entry list \<Rightarrow> index_entry list res" where
  "index_entries raw entries =
     (if raw = [] then Inr entries
      else case split_first nul raw of
        None \<Rightarrow> Inl (ValueError ''Git returned malformed index metadata'')
      | Some (header, rest) \<Rightarrow>
          (case index_debug rest of
             None \<Rightarrow> Inl (ValueError ''Git returned malformed index debug metadata'')
           | Some (flags, rest') \<Rightarrow>
               bindE (index_header header) (\<lambda>(tag, mode, object_id, stage, p).
               if \<not> default_entry tag mode object_id stage flags
               then Inl (ValueError ''Git index contains non-default entry flags or state'')
               else
                 bindE (decode_paths (p @ [nul]) ''Git index'') (\<lambda>canonical.
                   if canonical \<noteq> {p} \<or> List.member (map fst entries) p
                   then Inl (ValueError ''Git index contains a duplicate or noncanonical path'')
                   else index_entries rest' (entries @ [(p, mode, object_id, 0)])))))"
  by pat_completeness auto
termination
  by (relation "measure (\<lambda>(raw, entries). length raw)") (auto simp: split_first_Some dest!: index_debug_length)

declare index_entries.simps [simp del]

definition default_index_entries :: "(string list \<Rightarrow> bytes io) \<Rightarrow> index_entry list io" where
  "default_index_entries run =
     bindI (run [''ls-files'', ''-v'', ''--stage'', ''--debug'', ''-z'', ''--'']) (\<lambda>output.
     bindI (liftI (index_entries output [])) (\<lambda>entries.
       returnI (sort_key fst entries)))"

section \<open>Scanning\<close>

record repo_state =
  rs_index :: "index_entry list"
  rs_staged :: "string set"
  rs_unstaged :: "string set"
  rs_untracked :: "string set"
  rs_ignored :: "string set"

text \<open>\<open>bytes.strip()\<close> leaves nothing\<close>

definition blank :: "bytes \<Rightarrow> bool" where
  "blank b \<longleftrightarrow> list_all (\<lambda>c. c = CHR 0x20 \<or> 9 \<le> byte_val c \<and> byte_val c \<le> 13) b"

definition reject_split_index :: "(string list \<Rightarrow> bytes io) \<Rightarrow> unit io" where
  "reject_split_index run =
     bindI (run [''rev-parse'', ''--shared-index-path'']) (\<lambda>raw.
       if \<not> blank raw then raiseI (ValueError ''split Git index is forbidden for release inputs'') else returnI ())"

definition listed :: "(string list \<Rightarrow> bytes io) \<Rightarrow> string list \<Rightarrow> string \<Rightarrow> string set io" where
  "listed run arguments label = bindI (run arguments) (\<lambda>raw. liftI (decode_paths raw label))"

definition unexpected_ignored :: "bool \<Rightarrow> string set \<Rightarrow> string set" where
  "unexpected_ignored allow_generated ignored =
     Set.filter (\<lambda>p. \<not> is_non_build_ignored p \<and> \<not> (allow_generated \<and> is_generated_output p)) ignored"

definition scan_repository_state :: "(string list \<Rightarrow> bytes io) \<Rightarrow> string \<Rightarrow> string set \<Rightarrow> bool \<Rightarrow> repo_state io" where
  "scan_repository_state run expected_head allowed allow_generated =
     bindI (reject_split_index run) (\<lambda>_.
     bindI (check_expected_head run expected_head) (\<lambda>_.
     bindI (default_index_entries run) (\<lambda>index_before.
     bindI (listed run [''diff'', ''--no-ext-diff'', ''--cached'', ''--name-only'', ''-z'', ''HEAD'', ''--''] ''staged changes'') (\<lambda>staged.
     bindI (listed run [''diff'', ''--no-ext-diff'', ''--name-only'', ''-z'', ''--''] ''unstaged changes'') (\<lambda>unstaged.
     if staged \<noteq> {} then raiseI (ValueError ''unexpected staged build input'')
     else if \<not> unstaged \<subseteq> allowed then raiseI (ValueError ''unexpected tracked build input'')
     else
       bindI (listed run [''ls-files'', ''--others'', ''--exclude-standard'', ''-z''] ''untracked files'') (\<lambda>untracked.
       if untracked \<noteq> {} then raiseI (ValueError ''unexpected untracked build input'')
       else
         bindI (listed run [''ls-files'', ''--others'', ''--ignored'', ''--exclude-standard'', ''-z''] ''ignored files'') (\<lambda>ignored.
         if unexpected_ignored allow_generated ignored \<noteq> {}
         then raiseI (ValueError ''unexpected ignored build input'')
         else
           bindI (default_index_entries run) (\<lambda>index_after.
           if index_after \<noteq> index_before
           then raiseI (ValueError ''Git index logical state changed during repository scan'')
           else
             bindI (reject_split_index run) (\<lambda>_.
             bindI (check_expected_head run expected_head) (\<lambda>_.
               returnI \<lparr>rs_index = index_after, rs_staged = staged, rs_unstaged = unstaged,
                        rs_untracked = untracked, rs_ignored = ignored\<rparr>))))))))))"

text \<open>
  The three descriptors are closed one after the other when the block is left; only those that were
  opened.
\<close>

definition close_both :: "pinned \<Rightarrow> pinned \<Rightarrow> unit io" where
  "close_both g d = bindI (os_close (pd_fd g)) (\<lambda>_. os_close (pd_fd d))"

definition assert_repository_state :: "'a tools_scheme \<Rightarrow> path \<Rightarrow> string \<Rightarrow> string list \<Rightarrow> bool \<Rightarrow> unit io" where
  "assert_repository_state T root expected_head allowed_tracked allow_generated =
     bindI (canonical_root T root) (\<lambda>top.
     bindI (liftI (mapE relative_pin allowed_tracked)) (\<lambda>allowed.
     bindI (pin_directory top ''repository root'') (\<lambda>d.
     let scan = scan_repository_state (git T d) expected_head (set allowed) allow_generated in
     bindI (on_errorI (pin_relative_directory d ''.git'' ''Git metadata directory'') (os_close (pd_fd d))) (\<lambda>g.
     bindI (on_errorI (bindI scan (\<lambda>settled.
              bindI (open_relative_regular g ''index'' ''Git index'') (\<lambda>opened. returnI (settled, opened))))
            (close_both g d)) (\<lambda>(settled, index_fd, metadata).
     finallyI
       (bindI scan (\<lambda>protected.
        if protected \<noteq> settled
        then raiseI (ValueError ''repository logical state changed after Git index settlement'')
        else
          bindI (os_fstat index_fd) (\<lambda>s.
          if identity s \<noteq> identity metadata
          then raiseI (ValueError ''Git index changed during release input verification'')
          else
            bindI (open_relative_regular g ''index'' ''Git index'') (\<lambda>(reopened, again).
            bindI (os_close reopened) (\<lambda>_.
            if identity again \<noteq> identity metadata
            then raiseI (ValueError ''Git index changed during release input verification'')
            else bindI (verify_pinned g) (\<lambda>_. verify_pinned d))))))
       (bindI (os_close index_fd) (\<lambda>_. close_both g d)))))))"

end
