(* ===== verification/Repo_State_Props.thy ===== *)
theory Repo_State_Props
  imports Repo_State
begin

text \<open>
  The index that the release check accepts, exactly: the output of \<open>git ls-files\<close> is read as a list of
  entries precisely when it is a sequence of blocks of one grammar, for regular files without flags,
  conflict stages or duplicates.
\<close>

section \<open>The grammar of an entry\<close>

definition digit_run :: "bytes \<Rightarrow> bool" where
  "digit_run d \<longleftrightarrow> d \<noteq> [] \<and> list_all is_digit d"

definition ends_digits :: "string \<Rightarrow> bool" where
  "ends_digits s \<longleftrightarrow> s \<noteq> [] \<and> \<not> is_digit (hd s)"

definition number_line :: "string \<Rightarrow> string \<Rightarrow> string \<Rightarrow> bytes \<Rightarrow> bool" where
  "number_line before between after b \<longleftrightarrow> (\<exists>d e. digit_run d \<and> digit_run e \<and> b = before @ d @ between @ e @ after)"

definition debug_block :: "bytes \<Rightarrow> bool" where
  "debug_block b \<longleftrightarrow> (\<exists>c m v u size flags.
     number_line ''  ctime: '' '':'' newline c \<and> number_line ''  mtime: '' '':'' newline m
     \<and> number_line ''  dev: '' (tab @ ''ino: '') newline v \<and> number_line ''  uid: '' (tab @ ''gid: '') newline u
     \<and> digit_run size \<and> flags \<noteq> [] \<and> list_all (\<lambda>x. x = CHR ''0'') flags
     \<and> b = c @ m @ v @ u @ ''  size: '' @ size @ tab @ ''flags: '' @ flags @ newline)"

definition entry_block :: "index_entry \<Rightarrow> bytes \<Rightarrow> bool" where
  "entry_block entry b \<longleftrightarrow>
     (\<exists>p mode object_id debug. entry = (p, mode, object_id, 0) \<and> debug_block debug
        \<and> b = ''H '' @ mode @ '' '' @ object_id @ '' 0'' @ tab @ p @ [nul] @ debug)"

definition entry_ok :: "index_entry \<Rightarrow> bool" where
  "entry_ok entry \<longleftrightarrow>
     (case entry of (p, mode, object_id, stage) \<Rightarrow>
        (mode = ''100644'' \<or> mode = ''100755'') \<and> is_object_id object_id
        \<and> nul \<notin> set p \<and> utf8_ok False p \<and> p \<noteq> [] \<and> p \<noteq> ''.'' \<and> \<not> startswith p ''/'' \<and> ''..'' \<notin> set (posix_parts p))"

section \<open>Reading it\<close>

lemma digits_split:
  assumes "ends_digits s" "digit_run d"
  shows "takeWhile is_digit (d @ s @ r) = d" "dropWhile is_digit (d @ s @ r) = s @ r"
  using assms by (cases s; auto simp: ends_digits_def digit_run_def list_all_iff takeWhile_append dropWhile_append)+

lemma skip_digits_Some:
  "skip_digits raw = Some r \<longleftrightarrow> (\<exists>d. digit_run d \<and> raw = d @ r \<and> (r = [] \<or> \<not> is_digit (hd r)))"
proof
  assume s: "skip_digits raw = Some r"
  then obtain c cs where raw: "raw = c # cs" "is_digit c" "r = dropWhile is_digit raw"
    by (auto simp: skip_digits_def split: list.splits if_splits)
  let ?d = "takeWhile is_digit raw"
  have "digit_run ?d" using raw by (auto simp: digit_run_def list_all_iff dest: set_takeWhileD)
  moreover have "raw = ?d @ r" using raw(3) by simp
  moreover have "r = [] \<or> \<not> is_digit (hd r)" using raw(3) hd_dropWhile by metis
  ultimately show "\<exists>d. digit_run d \<and> raw = d @ r \<and> (r = [] \<or> \<not> is_digit (hd r))" by blast
next
  assume "\<exists>d. digit_run d \<and> raw = d @ r \<and> (r = [] \<or> \<not> is_digit (hd r))"
  then obtain d where d: "digit_run d" "raw = d @ r" "r = [] \<or> \<not> is_digit (hd r)" by blast
  obtain c cs where c: "d = c # cs" using d(1) by (cases d) (auto simp: digit_run_def)
  have "dropWhile is_digit raw = r"
    using d by (cases r) (auto simp: digit_run_def list_all_iff dropWhile_append)
  thus "skip_digits raw = Some r" using d(1,2) c by (auto simp: skip_digits_def digit_run_def)
qed

lemma skip_digits_expect:
  "ends_digits s \<Longrightarrow> bind_opt (skip_digits raw) (expect s) = Some r \<longleftrightarrow> (\<exists>d. digit_run d \<and> raw = d @ s @ r)"
  by (auto simp: bind_opt_Some skip_digits_Some expect_Some ends_digits_def)

lemma bind_opt_assoc: "bind_opt (bind_opt m f) g = bind_opt m (\<lambda>x. bind_opt (f x) g)"
  by (cases m) (simp_all add: bind_opt_def)

lemma skip_number_line_Some:
  assumes "ends_digits b" "ends_digits c"
  shows "skip_number_line a b c raw = Some r \<longleftrightarrow> (\<exists>l. number_line a b c l \<and> raw = l @ r)"
proof -
  have "skip_number_line a b c raw = bind_opt (expect a raw) (\<lambda>r. bind_opt (bind_opt (skip_digits r) (expect b)) (\<lambda>r. bind_opt (skip_digits r) (expect c)))"
    by (simp add: skip_number_line_def bind_opt_assoc)
  hence "skip_number_line a b c raw = Some r \<longleftrightarrow>
      (\<exists>r1. expect a raw = Some r1 \<and> (\<exists>r2. bind_opt (skip_digits r1) (expect b) = Some r2 \<and> bind_opt (skip_digits r2) (expect c) = Some r))"
    by (simp only: bind_opt_Some [of "expect a raw"] bind_opt_Some [of "bind_opt (skip_digits _) (expect b)"])
  also have "\<dots> \<longleftrightarrow> (\<exists>d e. digit_run d \<and> digit_run e \<and> raw = a @ d @ b @ e @ c @ r)"
    unfolding skip_digits_expect [OF assms(1)] skip_digits_expect [OF assms(2)] expect_Some by blast
  also have "\<dots> \<longleftrightarrow> (\<exists>l. (\<exists>d e. digit_run d \<and> digit_run e \<and> l = a @ d @ b @ e @ c) \<and> raw = l @ r)"
    by (simp only: ex_simps [symmetric] conj_assoc) (rule iffI; elim exE conjE; simp; blast)
  finally show ?thesis by (simp add: number_line_def)
qed

lemma ends_literals [simp]:
  "ends_digits newline" "ends_digits '':''" "ends_digits (tab @ s)"
  by (simp_all add: ends_digits_def newline_def tab_def is_digit_def)

lemma index_debug_Some:
  "(\<exists>flags. index_debug raw = Some (flags, r) \<and> list_all (\<lambda>x. x = CHR ''0'') flags)
     \<longleftrightarrow> (\<exists>b. debug_block b \<and> raw = b @ r)" (is "?l \<longleftrightarrow> ?r")
proof -
  have hex: "(takeWhile is_hex_digit x = flags \<and> dropWhile is_hex_digit x = newline @ r) \<longleftrightarrow> x = flags @ newline @ r"
    if "list_all (\<lambda>x. x = CHR ''0'') flags" for x flags
  proof
    assume "takeWhile is_hex_digit x = flags \<and> dropWhile is_hex_digit x = newline @ r"
    thus "x = flags @ newline @ r" using takeWhile_dropWhile_id [of is_hex_digit x] by simp
  next
    assume x: "x = flags @ newline @ r"
    have "list_all is_hex_digit flags" using that by (induction flags) (auto simp: is_hex_digit_def is_digit_def)
    moreover have "\<not> is_hex_digit (CHR 0x0A)" by (simp add: is_hex_digit_def is_digit_def)
    ultimately show "takeWhile is_hex_digit x = flags \<and> dropWhile is_hex_digit x = newline @ r"
      by (simp add: x newline_def list_all_iff takeWhile_append2 dropWhile_append2)
  qed
  have chain: "index_debug raw = Some (flags, r) \<longleftrightarrow>
      (\<exists>r1 r2 r3 r4 r5 r7. skip_number_line ''  ctime: '' '':'' newline raw = Some r1
        \<and> skip_number_line ''  mtime: '' '':'' newline r1 = Some r2
        \<and> skip_number_line ''  dev: '' (tab @ ''ino: '') newline r2 = Some r3
        \<and> skip_number_line ''  uid: '' (tab @ ''gid: '') newline r3 = Some r4
        \<and> r4 = ''  size: '' @ r5 \<and> bind_opt (skip_digits r5) (expect (tab @ ''flags: '')) = Some r7
        \<and> flags \<noteq> [] \<and> takeWhile is_hex_digit r7 = flags \<and> dropWhile is_hex_digit r7 = newline @ r)" for flags
    by (auto simp: index_debug_def bind_opt_Some expect_Some Let_def)
  show ?thesis
  proof
    assume ?l
    then obtain flags where z: "list_all (\<lambda>x. x = CHR ''0'') flags" and i: "index_debug raw = Some (flags, r)" by blast
    from iffD1 [OF chain i, unfolded hex [OF z]] obtain r1 r2 r3 r4 r5 r7 where
      n: "skip_number_line ''  ctime: '' '':'' newline raw = Some r1" "skip_number_line ''  mtime: '' '':'' newline r1 = Some r2"
        "skip_number_line ''  dev: '' (tab @ ''ino: '') newline r2 = Some r3"
        "skip_number_line ''  uid: '' (tab @ ''gid: '') newline r3 = Some r4"
      and s: "r4 = ''  size: '' @ r5" "bind_opt (skip_digits r5) (expect (tab @ ''flags: '')) = Some r7"
      and f: "flags \<noteq> []" "r7 = flags @ newline @ r" by (elim exE conjE) (rule that; assumption)
    obtain c m v u where l: "number_line ''  ctime: '' '':'' newline c" "raw = c @ r1"
        "number_line ''  mtime: '' '':'' newline m" "r1 = m @ r2"
        "number_line ''  dev: '' (tab @ ''ino: '') newline v" "r2 = v @ r3"
        "number_line ''  uid: '' (tab @ ''gid: '') newline u" "r3 = u @ r4"
      using n [unfolded skip_number_line_Some [OF ends_literals(2,1)] skip_number_line_Some [OF ends_literals(3,1)]]
      by (elim exE conjE) (rule that; assumption)
    obtain d where d: "digit_run d" "r5 = d @ (tab @ ''flags: '') @ r7"
      using s(2) [unfolded skip_digits_expect [OF ends_literals(3)]] by blast
    let ?b = "c @ m @ v @ u @ ''  size: '' @ d @ tab @ ''flags: '' @ flags @ newline"
    have "debug_block ?b" unfolding debug_block_def using l(1,3,5,7) d(1) f(1) z by blast
    moreover have "raw = ?b @ r" by (simp add: l(2,4,6,8) s(1) d(2) f(2))
    ultimately show ?r by blast
  next
    assume ?r
    then obtain c m v u d flags where l: "number_line ''  ctime: '' '':'' newline c" 
        "number_line ''  mtime: '' '':'' newline m" "number_line ''  dev: '' (tab @ ''ino: '') newline v"
        "number_line ''  uid: '' (tab @ ''gid: '') newline u" "digit_run d" "flags \<noteq> []" "list_all (\<lambda>x. x = CHR ''0'') flags"
        "raw = c @ m @ v @ u @ ''  size: '' @ d @ tab @ ''flags: '' @ flags @ newline @ r"
      unfolding debug_block_def by (elim exE conjE) (simp only: append_assoc)
    have "index_debug raw = Some (flags, r)"
      unfolding chain skip_number_line_Some [OF ends_literals(2,1)] skip_number_line_Some [OF ends_literals(3,1)]
        skip_digits_expect [OF ends_literals(3)] hex [OF l(7)]
      using l by (intro exI conjI) (assumption | simp)+
    thus ?l using l(7) by blast
  qed
qed

lemma split_four:
  "split_on sep m = [a, b, c, d] \<longleftrightarrow> m = a @ sep # b @ sep # c @ sep # d \<and> sep \<notin> set a \<and> sep \<notin> set b \<and> sep \<notin> set c \<and> sep \<notin> set d"
proof
  assume s: "split_on sep m = [a, b, c, d]"
  thus "m = a @ sep # b @ sep # c @ sep # d \<and> sep \<notin> set a \<and> sep \<notin> set b \<and> sep \<notin> set c \<and> sep \<notin> set d"
    using concat_split [of sep m] split_parts_no_sep [of sep m] by simp
next
  assume m: "m = a @ sep # b @ sep # c @ sep # d \<and> sep \<notin> set a \<and> sep \<notin> set b \<and> sep \<notin> set c \<and> sep \<notin> set d"
  hence "split_on sep d = [d]" by (simp add: split_on_single)
  thus "split_on sep m = [a, b, c, d]" using m by (simp add: split_on_Cons_sep)
qed

definition header_block :: "bytes \<Rightarrow> bytes \<Rightarrow> bytes \<Rightarrow> bytes \<Rightarrow> bytes \<Rightarrow> bytes" where
  "header_block tag mode object_id stage p = tag @ '' '' @ mode @ '' '' @ object_id @ '' '' @ stage @ tab @ p"

lemma index_header_Inr:
  "index_header header = Inr (tag, mode, object_id, stage, p) \<longleftrightarrow>
     header = header_block tag mode object_id stage p \<and> utf8_ok False p
     \<and> list_all (\<lambda>f. CHR '' '' \<notin> set f \<and> CHR 0x09 \<notin> set f) [tag, mode, object_id, stage]" (is "?l \<longleftrightarrow> ?r")
proof -
  have "?l \<longleftrightarrow> (\<exists>m. split_first (CHR 0x09) header = Some (m, p) \<and> split_on (CHR '' '') m = [tag, mode, object_id, stage] \<and> utf8_ok False p)"
    by (auto simp: index_header_def split: option.splits list.splits if_splits)
  also have "\<dots> \<longleftrightarrow> ?r"
    unfolding split_first_Some split_four header_block_def tab_def by auto
  finally show ?thesis .
qed

lemma object_id_chars: "is_object_id s \<Longrightarrow> list_all is_hex s"
  by (auto simp: is_object_id_def fullmatch_COMMIT fullmatch_DIGEST)

lemma default_entry_chars:
  assumes "default_entry tag mode object_id stage flags"
  shows "list_all (\<lambda>f. CHR '' '' \<notin> set f \<and> CHR 0x09 \<notin> set f \<and> nul \<notin> set f) [tag, mode, object_id, stage]"
proof -
  have h: "list_all is_hex object_id" using object_id_chars assms by (simp add: default_entry_def)
  have "\<not> is_hex (CHR '' '')" "\<not> is_hex (CHR 0x09)" "\<not> is_hex nul" by (simp_all add: is_hex_def in_cls_def hex_cls_def nul_def)
  hence "CHR '' '' \<notin> set object_id" "CHR 0x09 \<notin> set object_id" "nul \<notin> set object_id" using h by (auto simp: list_all_iff)
  thus ?thesis using assms by (auto simp: default_entry_def nul_def)
qed

lemma decode_one_path:
  assumes "nul \<notin> set p"
  shows "decode_paths (p @ [nul]) label = Inr {p} \<longleftrightarrow>
    utf8_ok False p \<and> p \<noteq> [] \<and> p \<noteq> ''.'' \<and> \<not> startswith p ''/'' \<and> ''..'' \<notin> set (posix_parts p)"
proof -
  have "split_on nul (p @ [nul]) = [p, []]" using split_on_Cons_sep [OF assms, of "[]"] by simp
  thus ?thesis by (auto simp: decode_paths_def decoded_path_def bindE_eq_Inr)
qed

text \<open>One entry read is one block.\<close>

lemma entry_read_iff:
  "(\<exists>header rest flags tag mode object_id stage p.
      split_first nul raw = Some (header, rest) \<and> index_debug rest = Some (flags, r)
      \<and> index_header header = Inr (tag, mode, object_id, stage, p) \<and> default_entry tag mode object_id stage flags
      \<and> decode_paths (p @ [nul]) label = Inr {p} \<and> entry = (p, mode, object_id, 0))
   \<longleftrightarrow> (\<exists>b. entry_block entry b \<and> entry_ok entry \<and> raw = b @ r)" (is "?l \<longleftrightarrow> ?r")
proof
  assume ?l
  then obtain header rest flags tag mode object_id stage p where
    l: "split_first nul raw = Some (header, rest)" "index_debug rest = Some (flags, r)"
      "index_header header = Inr (tag, mode, object_id, stage, p)" "default_entry tag mode object_id stage flags"
      "decode_paths (p @ [nul]) label = Inr {p}" and e: "entry = (p, mode, object_id, 0)" by blast
  have raw: "raw = header @ nul # rest" "nul \<notin> set header" using l(1) by (simp_all add: split_first_Some)
  have h: "header = header_block tag mode object_id stage p" using l(3) by (simp add: index_header_Inr)
  have p: "nul \<notin> set p" using raw(2) by (simp add: h header_block_def)
  have d: "tag = ''H''" "stage = ''0''" "list_all (\<lambda>x. x = CHR ''0'') flags" "mode = ''100644'' \<or> mode = ''100755''" "is_object_id object_id"
    using l(4) by (simp_all add: default_entry_def)
  obtain b where b: "debug_block b" "rest = b @ r" using index_debug_Some l(2) d(3) by blast
  have "entry_block entry (''H '' @ mode @ '' '' @ object_id @ '' 0'' @ tab @ p @ [nul] @ b)"
    unfolding entry_block_def using e b(1) by blast
  moreover have "raw = (''H '' @ mode @ '' '' @ object_id @ '' 0'' @ tab @ p @ [nul] @ b) @ r"
    by (simp add: raw(1) h header_block_def d(1,2) b(2))
  moreover have "entry_ok entry" using l(5) d(4,5) p by (simp add: entry_ok_def e decode_one_path)
  ultimately show ?r by blast
next
  assume ?r
  then obtain b where b: "entry_block entry b" "entry_ok entry" "raw = b @ r" by blast
  then obtain p mode object_id debug where e: "entry = (p, mode, object_id, 0)" and debug: "debug_block debug"
    and t: "b = ''H '' @ mode @ '' '' @ object_id @ '' 0'' @ tab @ p @ [nul] @ debug" unfolding entry_block_def by blast
  let ?h = "header_block ''H'' mode object_id ''0'' p"
  obtain flags where f: "index_debug (debug @ r) = Some (flags, r)" "list_all (\<lambda>x. x = CHR ''0'') flags"
    using index_debug_Some debug by blast
  have ok: "mode = ''100644'' \<or> mode = ''100755''" "is_object_id object_id" "nul \<notin> set p" "utf8_ok False p"
    using b(2) by (simp_all add: entry_ok_def e)
  have d: "default_entry ''H'' mode object_id ''0'' flags" using f(2) ok by (simp add: default_entry_def)
  have "nul \<notin> set ?h" using default_entry_chars [OF d] ok(3) by (simp add: header_block_def nul_def tab_def)
  moreover have "raw = ?h @ nul # (debug @ r)" by (simp add: b(3) t header_block_def)
  ultimately have "split_first nul raw = Some (?h, debug @ r)" by (simp only: split_first_Some simp_thms)
  moreover have "index_header ?h = Inr (''H'', mode, object_id, ''0'', p)"
    using default_entry_chars [OF d] ok(4) by (auto simp: index_header_Inr)
  moreover have "decode_paths (p @ [nul]) label = Inr {p}" using b(2) by (simp add: entry_ok_def e decode_one_path)
  ultimately show ?l using f(1) d e by blast
qed

text \<open>The whole output\<close>

fun index_text :: "index_entry list \<Rightarrow> bytes \<Rightarrow> bool" where
  "index_text [] raw \<longleftrightarrow> raw = []"
| "index_text (entry # entries) raw \<longleftrightarrow> (\<exists>b rest. raw = b @ rest \<and> entry_block entry b \<and> index_text entries rest)"

definition index_ok :: "index_entry list \<Rightarrow> bool" where
  "index_ok entries \<longleftrightarrow> list_all entry_ok entries \<and> distinct (map fst entries)"

lemma index_entries_iff:
  "index_entries raw found = Inr entries \<longleftrightarrow>
     (\<exists>more. entries = found @ more \<and> index_text more raw \<and> list_all entry_ok more
        \<and> distinct (map fst more) \<and> set (map fst more) \<inter> set (map fst found) = {})"
proof (induction "length raw" arbitrary: raw found rule: less_induct)
  case less
  show ?case
  proof (cases "raw = []")
    case True
    hence "index_text more raw \<longleftrightarrow> more = []" for more
      by (cases more) (auto simp: entry_block_def)
    thus ?thesis using True by (auto simp: index_entries.simps [of "[]"])
  next
    case False
    let ?l = "''Git index''"
    have "index_entries raw found = Inr entries \<longleftrightarrow>
        (\<exists>entry r. (\<exists>header rest flags tag mode object_id stage p.
            split_first nul raw = Some (header, rest) \<and> index_debug rest = Some (flags, r)
            \<and> index_header header = Inr (tag, mode, object_id, stage, p) \<and> default_entry tag mode object_id stage flags
            \<and> decode_paths (p @ [nul]) ?l = Inr {p} \<and> entry = (p, mode, object_id, 0))
          \<and> fst entry \<notin> set (map fst found) \<and> index_entries r (found @ [entry]) = Inr entries)"
      using False
      by (subst index_entries.simps)
        (auto simp: bindE_eq_Inr split: option.splits if_splits, blast)
    also have "\<dots> \<longleftrightarrow> (\<exists>entry r b. entry_block entry b \<and> entry_ok entry \<and> raw = b @ r
          \<and> fst entry \<notin> set (map fst found) \<and> index_entries r (found @ [entry]) = Inr entries)"
      unfolding entry_read_iff by blast
    also have "\<dots> \<longleftrightarrow> (\<exists>entry r b. entry_block entry b \<and> entry_ok entry \<and> raw = b @ r
          \<and> fst entry \<notin> set (map fst found) \<and> (\<exists>more. entries = (found @ [entry]) @ more \<and> index_text more r
             \<and> list_all entry_ok more \<and> distinct (map fst more) \<and> set (map fst more) \<inter> set (map fst (found @ [entry])) = {}))"
    proof -
      have eq: "index_entries r (found @ [entry]) = Inr entries \<longleftrightarrow> (\<exists>more. entries = (found @ [entry]) @ more \<and> index_text more r
             \<and> list_all entry_ok more \<and> distinct (map fst more) \<and> set (map fst more) \<inter> set (map fst (found @ [entry])) = {})"
        if "entry_block entry b" "raw = b @ r" for entry r b
        using that by (intro less) (auto simp: entry_block_def)
      show ?thesis by (intro ex_cong1 conj_cong refl; rule eq; assumption)
    qed
    also have "\<dots> \<longleftrightarrow> (\<exists>more. entries = found @ more \<and> index_text more raw \<and> list_all entry_ok more
        \<and> distinct (map fst more) \<and> set (map fst more) \<inter> set (map fst found) = {})" (is "?m \<longleftrightarrow> ?n")
    proof
      assume ?m
      then obtain entry r b more where "entry_block entry b" "entry_ok entry" "raw = b @ r" "fst entry \<notin> set (map fst found)"
        "entries = (found @ [entry]) @ more" "index_text more r" "list_all entry_ok more" "distinct (map fst more)"
        "set (map fst more) \<inter> set (map fst (found @ [entry])) = {}" by blast
      thus ?n by (intro exI [of _ "entry # more"]) auto
    next
      assume ?n
      then obtain more where m: "entries = found @ more" "index_text more raw" "list_all entry_ok more"
        "distinct (map fst more)" "set (map fst more) \<inter> set (map fst found) = {}" by blast
      then obtain entry more' where e: "more = entry # more'" using False by (cases more) auto
      with m(2) obtain b r where "raw = b @ r" "entry_block entry b" "index_text more' r" by auto
      moreover have "entry_ok entry" "fst entry \<notin> set (map fst found)" "entries = (found @ [entry]) @ more'"
        "list_all entry_ok more'" "distinct (map fst more')" "set (map fst more') \<inter> set (map fst (found @ [entry])) = {}"
        using m e by auto
      ultimately show ?m by blast
    qed
    finally show ?thesis .
  qed
qed

text \<open>C8. The output of \<open>git ls-files\<close> is accepted, as a list of entries, exactly when it is the sequence of the blocks
  of these entries: regular files with canonical, distinct paths, at stage zero and without any flag.\<close>

lemma index_accepted: "index_entries raw [] = Inr entries \<longleftrightarrow> index_text entries raw \<and> index_ok entries"
  by (auto simp: index_entries_iff index_ok_def)

end
