(* ===== verification/Build_Snapshots.thy ===== *)
theory Build_Snapshots
  imports Repo_State Release_Draft
begin

text \<open>
  The pin snapshot of \<open>scripts/verify_build_inputs.py\<close>: where the upstream module comes from, the capture
  of the pin files in a directory outside the repository, their comparison later, and the command
  line that puts every step between two checks of the repository state.
\<close>

definition MAX_INPUT_PIN_BYTES :: nat where "MAX_INPUT_PIN_BYTES = 16 * 1024 * 1024"

definition parse_json_object :: "bytes \<Rightarrow> string \<Rightarrow> dict res" where
  "parse_json_object raw label =
     (case json_loads raw of
        Inl UnicodeDecodeError \<Rightarrow> Inl (ValueError (label @ '' is not valid JSON''))
      | Inl JSONDecodeError \<Rightarrow> Inl (ValueError (label @ '' is not valid JSON''))
      | Inl e \<Rightarrow> Inl e
      | Inr (JObj d) \<Rightarrow> Inr d
      | Inr _ \<Rightarrow> Inl (ValueError (label @ '' must be a JSON object'')))"

section \<open>The module\<close>

definition has_key :: "dict \<Rightarrow> string \<Rightarrow> bool" where
  "has_key d k \<longleftrightarrow> map_of d k \<noteq> None"

definition selected_version :: "string \<Rightarrow> string option \<Rightarrow> dict \<Rightarrow> string res" where
  "selected_version module_path expected_version selected =
     (if \<not> py_eq (dget selected ''Path'') (JStr module_path) then Inl (ValueError ''selected module path does not match'')
      else if has_key selected ''Error'' then Inl (ValueError ''selected module reports a resolution error'')
      else if has_key selected ''Replace'' then Inl (ValueError ''module replacement is forbidden'')
      else (case dget selected ''Version'' of
          JStr version \<Rightarrow>
            if version = [] then Inl (ValueError ''selected module version is missing'')
            else if expected_version \<noteq> None \<and> expected_version \<noteq> Some version
            then Inl (ValueError ''selected module version does not match'') else Inr version
        | _ \<Rightarrow> Inl (ValueError ''selected module version is missing'')))"

definition check_downloaded :: "string \<Rightarrow> string \<Rightarrow> string \<Rightarrow> dict \<Rightarrow> unit res" where
  "check_downloaded module_path version expected_commit downloaded =
     (if \<not> py_eq (dget downloaded ''Path'') (JStr module_path) \<or> \<not> py_eq (dget downloaded ''Version'') (JStr version)
      then Inl (ValueError ''downloaded module identity does not match'')
      else if has_key downloaded ''Error'' then Inl (ValueError ''downloaded module reports a resolution error'')
      else if has_key downloaded ''Replace'' then Inl (ValueError ''downloaded module replacement is forbidden'')
      else (case dget downloaded ''Origin'' of
          JObj origin \<Rightarrow>
            if \<not> py_eq (dget origin ''VCS'') (JStr ''git'') \<or> \<not> py_eq (dget origin ''Hash'') (JStr expected_commit)
            then Inl (ValueError ''downloaded module origin does not match the pinned commit'') else Inr ()
        | _ \<Rightarrow> Inl (ValueError ''downloaded module origin is missing'')))"

definition verify_module_origin ::
    "(string list \<Rightarrow> bytes io) \<Rightarrow> pinned \<Rightarrow> string \<Rightarrow> string \<Rightarrow> string option \<Rightarrow> string io" where
  "verify_module_origin run d module_path expected_commit expected_version =
     (if module_path = [] \<or> has_space module_path then raiseI (ValueError ''module path is invalid'')
      else if \<not> fullmatch COMMIT_RX expected_commit then raiseI (ValueError ''upstream commit is invalid'')
      else
        bindI (run [''go'', ''list'', ''-m'', ''-json'', module_path]) (\<lambda>raw.
        bindI (liftI (parse_json_object raw ''selected module'')) (\<lambda>selected.
        bindI (liftI (selected_version module_path expected_version selected)) (\<lambda>version.
        bindI (run [''go'', ''mod'', ''download'', ''-json'', module_path @ ''@'' @ version]) (\<lambda>raw.
        bindI (liftI (parse_json_object raw ''downloaded module'')) (\<lambda>downloaded.
        bindI (liftI (check_downloaded module_path version expected_commit downloaded)) (\<lambda>_.
        bindI (verify_pinned d) (\<lambda>_. returnI version))))))))"

section \<open>Capturing\<close>

definition read_pin :: "pinned \<Rightarrow> string \<Rightarrow> bytes io" where
  "read_pin d relative =
     bindI (liftI (relative_pin relative)) (\<lambda>canonical.
       read_regular_at d canonical MAX_INPUT_PIN_BYTES (''pin '' @ canonical))"

definition base_name :: "string \<Rightarrow> string" where
  "base_name p = path_name (posix_parts p)"

definition pin_record :: "string \<Rightarrow> bytes \<Rightarrow> json" where
  "pin_record relative v =
     JObj [(''path'', JStr relative), (''file'', JStr (base_name relative)), (''size'', JInt (int (length v))),
           (''sha256'', JStr (sha256_hex v))]"

definition captured_pin :: "pinned \<Rightarrow> pinned \<Rightarrow> string \<Rightarrow> json io" where
  "captured_pin root_directory snapshot_directory relative =
     bindI (read_pin root_directory relative) (\<lambda>v.
     bindI (write_new_regular_at snapshot_directory (base_name relative) v 384) (\<lambda>_.
       returnI (pin_record relative v)))"

definition snapshot_metadata :: "string \<Rightarrow> string \<Rightarrow> string \<Rightarrow> json list \<Rightarrow> bytes" where
  "snapshot_metadata module_path module_version commit records =
     canonical_json (JObj
       [(''schema'', JInt 1), (''modulePath'', JStr module_path), (''moduleVersion'', JStr module_version),
        (''originCommit'', JStr commit), (''pins'', JArr records)])"

definition capture_snapshot ::
    "'a tools_scheme \<Rightarrow> path \<Rightarrow> path \<Rightarrow> string list \<Rightarrow> string \<Rightarrow> string \<Rightarrow> string \<Rightarrow> string io" where
  "capture_snapshot T root snapshot pins module_path module_version commit =
     bindI (canonical_root T root) (\<lambda>top.
     bindI (os_errorI (os_resolve (butlast snapshot)) (ValueError ''snapshot parent does not exist'')) (\<lambda>parent.
     let snapshot_canonical = parent @ [path_name snapshot] in
     if is_below snapshot_canonical top then raiseI (ValueError ''snapshot must be outside the repository'')
     else
       bindI (liftI (mapE relative_pin pins)) (\<lambda>canonical_pins.
       if \<not> distinct canonical_pins \<or> \<not> distinct (map base_name canonical_pins)
       then raiseI (ValueError ''pin paths must be unique'')
       else
         bindI (pin_directory top ''repository root'') (\<lambda>root_directory.
         bindI (on_errorI (create_pinned_directory snapshot ''snapshot'') (os_close (pd_fd root_directory))) (\<lambda>snapshot_directory.
         finallyI
           (if pd_canonical snapshot_directory \<noteq> snapshot_canonical
            then raiseI (ValueError ''snapshot parent changed during creation'')
            else if is_below (pd_canonical snapshot_directory) top
            then raiseI (ValueError ''snapshot must remain outside the repository'')
            else
              bindI (mapI (captured_pin root_directory snapshot_directory) canonical_pins) (\<lambda>records.
              let metadata = snapshot_metadata module_path module_version commit records in
              bindI (write_new_regular_at snapshot_directory ''snapshot.json'' metadata 384) (\<lambda>_.
              bindI (verify_pinned root_directory) (\<lambda>_.
              bindI (verify_pinned snapshot_directory) (\<lambda>_.
                returnI (sha256_hex metadata))))))
           (close_both snapshot_directory root_directory))))))"

section \<open>Comparing\<close>

definition read_metadata :: "pinned \<Rightarrow> string \<Rightarrow> string \<Rightarrow> dict io" where
  "read_metadata snapshot_directory expected_sha256 message =
     bindI (read_regular_at snapshot_directory ''snapshot.json'' MAX_INPUT_PIN_BYTES ''snapshot metadata'') (\<lambda>raw.
       if \<not> fullmatch DIGEST_RX expected_sha256 \<or> sha256_hex raw \<noteq> expected_sha256
       then raiseI (ValueError message)
       else liftI (parse_json_object raw ''snapshot metadata''))"

text \<open>\<open>record.get("path")\<close> of a dictionary, \<open>None\<close> otherwise\<close>

definition metadata_path :: "json \<Rightarrow> json" where
  "metadata_path r = (case r of JObj d \<Rightarrow> dget d ''path'' | _ \<Rightarrow> JNull)"

text \<open>\<open>record["path"]\<close> of a record whose path has been compared with a pin\<close>

definition text_of :: "json \<Rightarrow> string" where
  "text_of v = (case v of JStr s \<Rightarrow> s | _ \<Rightarrow> [])"

definition snapshot_members :: "json \<Rightarrow> dict" where
  "snapshot_members v = (case v of JObj d \<Rightarrow> d | _ \<Rightarrow> [])"

definition unchanged_pin :: "pinned \<Rightarrow> pinned \<Rightarrow> json \<Rightarrow> unit io" where
  "unchanged_pin root_directory snapshot_directory r =
     (let d = snapshot_members r; relative = text_of (dget d ''path'') in
      case dget d ''file'' of
        JStr basename \<Rightarrow>
          if basename \<noteq> base_name relative then raiseI (ValueError ''snapshot pin filename is invalid'')
          else
            bindI (read_regular_at snapshot_directory basename MAX_INPUT_PIN_BYTES (''snapshot file '' @ basename)) (\<lambda>captured.
            bindI (read_pin root_directory relative) (\<lambda>current.
              if dget d ''size'' \<noteq> JInt (int (length captured)) \<or> dget d ''sha256'' \<noteq> JStr (sha256_hex captured)
                 \<or> current \<noteq> captured
              then raiseI (ValueError (''pin changed after provenance capture: '' @ relative)) else returnI ()))
      | _ \<Rightarrow> raiseI (ValueError ''snapshot pin filename is invalid''))"

definition verify_snapshot :: "'a tools_scheme \<Rightarrow> path \<Rightarrow> path \<Rightarrow> string list \<Rightarrow> string \<Rightarrow> unit io" where
  "verify_snapshot T root snapshot pins expected_sha256 =
     bindI (canonical_root T root) (\<lambda>top.
     bindI (pin_directory top ''repository root'') (\<lambda>root_directory.
     bindI (pin_directory snapshot ''snapshot directory'') (\<lambda>snapshot_directory.
     finallyI
       (if is_below (pd_canonical snapshot_directory) top
        then raiseI (ValueError ''snapshot must be outside the repository'')
        else
          bindI (read_metadata snapshot_directory expected_sha256
                   ''snapshot metadata digest does not match the pre-test value'') (\<lambda>metadata.
          bindI (liftI (mapE relative_pin pins)) (\<lambda>canonical_pins.
          case (py_eq (dget metadata ''schema'') (JInt 1), dget metadata ''pins'') of
            (True, JArr records) \<Rightarrow>
              if \<not> py_eq (JArr (map metadata_path records)) (JArr (map JStr canonical_pins))
              then raiseI (ValueError ''snapshot pin set does not match'')
              else
                bindI (mapI (unchanged_pin root_directory snapshot_directory) records) (\<lambda>_.
                bindI (verify_pinned root_directory) (\<lambda>_. verify_pinned snapshot_directory))
          | _ \<Rightarrow> raiseI (ValueError ''snapshot metadata is invalid''))))
       (close_both snapshot_directory root_directory))))"

definition pin_record_digest :: "string \<Rightarrow> dict \<Rightarrow> string res" where
  "pin_record_digest relative d =
     (case (dget d ''size'', dget d ''sha256'') of
        (JInt n, JStr digest) \<Rightarrow>
          if \<not> py_eq (dget d ''file'') (JStr (base_name relative)) \<or> n < 0 \<or> int MAX_INPUT_PIN_BYTES < n
             \<or> \<not> fullmatch DIGEST_RX digest
          then Inl (ValueError ''snapshot pin record is invalid'') else Inr digest
      | _ \<Rightarrow> Inl (ValueError ''snapshot pin record is invalid''))"

definition snapshot_pin_digest :: "path \<Rightarrow> string \<Rightarrow> string \<Rightarrow> string io" where
  "snapshot_pin_digest snapshot expected_sha256 pin =
     bindI (liftI (relative_pin pin)) (\<lambda>relative.
     bindI (pin_directory snapshot ''snapshot directory'') (\<lambda>directory.
     finallyI
       (bindI (read_metadata directory expected_sha256 ''snapshot metadata digest does not match the captured value'') (\<lambda>metadata.
        case (py_eq (dget metadata ''schema'') (JInt 1), dget metadata ''pins'') of
          (True, JArr records) \<Rightarrow>
            (case filter (\<lambda>r. is_dict r \<and> py_eq (metadata_path r) (JStr relative)) records of
               [r] \<Rightarrow>
                 bindI (liftI (pin_record_digest relative (snapshot_members r))) (\<lambda>digest.
                 bindI (verify_pinned directory) (\<lambda>_. returnI digest))
             | _ \<Rightarrow> raiseI (ValueError ''snapshot pin is missing or duplicated''))
        | _ \<Rightarrow> raiseI (ValueError ''snapshot metadata is invalid'')))
       (os_close (pd_fd directory))))"

section \<open>The module cache and the command line\<close>

text \<open>A directory below the root is pinned for a script, and both are checked again after it.\<close>

definition in_module_directory :: "path \<Rightarrow> string \<Rightarrow> (pinned \<Rightarrow> 'b io) \<Rightarrow> 'b io" where
  "in_module_directory repository module_dir body =
     bindI (pin_directory repository ''repository root'') (\<lambda>root_directory.
     bindI (on_errorI (pin_relative_directory root_directory module_dir ''module directory'') (os_close (pd_fd root_directory))) (\<lambda>m.
     finallyI
       (bindI (body m) (\<lambda>x. bindI (verify_pinned m) (\<lambda>_. bindI (verify_pinned root_directory) (\<lambda>_. returnI x))))
       (close_both m root_directory)))"

definition verify_module_cache :: "'a tools_scheme \<Rightarrow> path \<Rightarrow> string \<Rightarrow> string \<Rightarrow> string list \<Rightarrow> bool \<Rightarrow> unit io" where
  "verify_module_cache T root module_dir expected_head pins allow_generated =
     bindI (canonical_root T root) (\<lambda>top.
     bindI (liftI (mapE relative_pin pins)) (\<lambda>canonical_pins.
     bindI (assert_repository_state T top expected_head canonical_pins allow_generated) (\<lambda>_.
     bindI (in_module_directory top module_dir (run_go_in_directory T [''go'', ''mod'', ''verify''])) (\<lambda>_.
       assert_repository_state T top expected_head canonical_pins allow_generated))))"

datatype input_mode =
    Preflight path string
  | Capture path string string string string "string option" path "string list"
  | Verify_snapshot path path string string "string list" bool
  | Verify_module_cache path string string "string list" bool
  | Pin_digest path string string

definition inputs_main :: "'a tools_scheme \<Rightarrow> input_mode \<Rightarrow> string io" where
  "inputs_main T mode =
     (case mode of
        Preflight repo head \<Rightarrow>
          bindI (assert_repository_state T repo head [] False) (\<lambda>_.
          bindI (assert_repository_state T repo head [] False) (\<lambda>_.
            returnI ''release build inputs are clean''))
      | Capture repo module_dir module_path commit head version snapshot pin_args \<Rightarrow>
          bindI (canonical_root T repo) (\<lambda>top.
          bindI (liftI (mapE relative_pin pin_args)) (\<lambda>pins.
          bindI (assert_repository_state T top head pins False) (\<lambda>_.
          bindI (in_module_directory top module_dir (\<lambda>m.
                   verify_module_origin (\<lambda>arguments. run_go_in_directory T arguments m) m module_path commit version)) (\<lambda>selected.
          bindI (assert_repository_state T top head pins False) (\<lambda>_.
          bindI (capture_snapshot T top snapshot pins module_path selected commit) (\<lambda>digest.
          bindI (assert_repository_state T top head pins False) (\<lambda>_. returnI digest)))))))
      | Verify_module_cache repo module_dir head pins generated \<Rightarrow>
          bindI (verify_module_cache T repo module_dir head pins generated) (\<lambda>_.
            returnI ''Go module cache matches all downloaded module checksums'')
      | Pin_digest snapshot sha256 pin \<Rightarrow> snapshot_pin_digest snapshot sha256 pin
      | Verify_snapshot repo snapshot sha256 head pin_args generated \<Rightarrow>
          bindI (canonical_root T repo) (\<lambda>top.
          bindI (liftI (mapE relative_pin pin_args)) (\<lambda>pins.
          bindI (assert_repository_state T top head pins generated) (\<lambda>_.
          bindI (verify_snapshot T top snapshot pins sha256) (\<lambda>_.
          bindI (assert_repository_state T top head pins generated) (\<lambda>_.
            returnI ''release build inputs still match the verified snapshot''))))))"

end
