(* ===== verification/Build_Snapshots_Props.thy ===== *)
theory Build_Snapshots_Props
  imports Build_Snapshots Manifests_Props
begin

text \<open>
  The metadata of a snapshot: what the capture writes is read back by both readers, the comparison with
  the working tree and the question for the digest of one pin.
\<close>

lemma base_name_chars: "set (base_name p) \<subseteq> set p"
proof -
  have "\<forall>x \<in> set (split_on d s). set x \<subseteq> set s" for d s
    by (induction s) (auto split: list.splits)
  note part = this
  show ?thesis
  proof (cases "posix_parts p = []")
    case False
    hence "last (posix_parts p) \<in> set (split_on (CHR ''/'') p)"
      using last_in_set [OF False] by (auto simp: posix_parts_def)
    thus ?thesis using part False by (auto simp: base_name_def path_name_def)
  qed (simp add: base_name_def path_name_def)
qed

lemma ascii_base_name: "ascii p \<Longrightarrow> ascii (base_name p)"
  using base_name_chars by (auto simp: ascii_def list_all_iff)

lemma plain_pin_record: "ascii p \<Longrightarrow> plain (pin_record p v)"
  using ascii_fullmatch [OF sha256_hex_format] ascii_base_name
  by (simp add: pin_record_def ascii_def)

definition sorted_record :: "string \<times> bytes \<Rightarrow> json" where
  "sorted_record pin = sort_obj (pin_record (fst pin) (snd pin))"

lemma sorted_record_get:
  "dget (snapshot_members (sorted_record (p, v))) ''path'' = JStr p"
  "dget (snapshot_members (sorted_record (p, v))) ''file'' = JStr (base_name p)"
  "dget (snapshot_members (sorted_record (p, v))) ''size'' = JInt (int (length v))"
  "dget (snapshot_members (sorted_record (p, v))) ''sha256'' = JStr (sha256_hex v)"
  unfolding sorted_record_def pin_record_def snapshot_members_def
  by (simp_all only: sort_obj.simps json.case fst_conv snd_conv) (subst dget_sorted; simp add: dget_def)+

lemma sorted_record_dict [simp]: "is_dict (sorted_record pin)" "metadata_path (sorted_record pin) = JStr (fst pin)"
  using sorted_record_get(1) [of "fst pin" "snd pin"]
  by (simp_all add: sorted_record_def pin_record_def is_dict_def metadata_path_def snapshot_members_def del: sort_members.simps)

lemma pin_record_digest_sorted:
  "length v \<le> MAX_INPUT_PIN_BYTES \<Longrightarrow> pin_record_digest p (snapshot_members (sorted_record (p, v))) = Inr (sha256_hex v)"
  by (simp add: pin_record_digest_def sorted_record_get sha256_hex_format)

lemma filter_one: "distinct (map fst xs) \<Longrightarrow> (k, v) \<in> set xs \<Longrightarrow> filter (\<lambda>x. fst x = k) xs = [(k, v)]"
  by (induction xs) (auto simp: filter_empty_conv image_iff)

lemma metadata_read:
  assumes "list_all (\<lambda>(p, v). ascii p) pins" and "ascii module_path" "ascii module_version" "ascii commit"
  shows "\<exists>metadata. parse_json_object (snapshot_metadata module_path module_version commit (map (\<lambda>(p, v). pin_record p v) pins)) label
      = Inr metadata \<and> dget metadata ''schema'' = JInt 1 \<and> dget metadata ''pins'' = JArr (map sorted_record pins)"
proof -
  define d where "d = [(''schema'', JInt 1), (''modulePath'', JStr module_path), (''moduleVersion'', JStr module_version),
        (''originCommit'', JStr commit), (''pins'', JArr (map (\<lambda>(p, v). pin_record p v) pins))]"
  have "plain (JObj d)" using assms plain_pin_record
    by (auto simp: d_def plain_items_iff list_all_iff ascii_def)
  from json_loads_dumps [OF this, of "[CHR 0x0A]" compact_opts]
  have "json_loads (snapshot_metadata module_path module_version commit (map (\<lambda>(p, v). pin_record p v) pins))
      = Inr (JObj (sort_key fst (sort_members d)))"
    by (simp add: snapshot_metadata_def canonical_json_def compact_opts_def is_ws_def d_def [symmetric])
  moreover have dist: "distinct (map fst d)" by (simp add: d_def)
  moreover have "dget (sort_key fst (sort_members d)) ''schema'' = JInt 1"
    "dget (sort_key fst (sort_members d)) ''pins'' = JArr (map sorted_record pins)"
    unfolding dget_sorted [OF dist] by (simp_all add: d_def dget_def sort_items_map case_prod_unfold comp_def sorted_record_def [abs_def])
  ultimately show ?thesis by (simp add: parse_json_object_def)
qed

text \<open>C37. The metadata that a capture writes for some pins is read back: the comparison finds the list of their paths,
  and the question for the digest of a pin finds one record and answers the SHA-256 digest of its contents.\<close>

theorem snapshot_read_back:
  assumes "list_all (\<lambda>(p, v). ascii p) pins" and "distinct (map fst pins)"
    and "ascii module_path" "ascii module_version" "ascii commit"
  shows "\<exists>metadata records.
    parse_json_object (snapshot_metadata module_path module_version commit (map (\<lambda>(p, v). pin_record p v) pins)) label = Inr metadata
    \<and> py_eq (dget metadata ''schema'') (JInt 1) \<and> dget metadata ''pins'' = JArr records
    \<and> map metadata_path records = map (\<lambda>(p, v). JStr p) pins
    \<and> (\<forall>(p, v) \<in> set pins. length v \<le> MAX_INPUT_PIN_BYTES \<longrightarrow>
         (\<exists>r. filter (\<lambda>r. is_dict r \<and> py_eq (metadata_path r) (JStr p)) records = [r]
            \<and> pin_record_digest p (snapshot_members r) = Inr (sha256_hex v)))"
proof -
  obtain metadata where m: "parse_json_object (snapshot_metadata module_path module_version commit (map (\<lambda>(p, v). pin_record p v) pins)) label
      = Inr metadata" "dget metadata ''schema'' = JInt 1" "dget metadata ''pins'' = JArr (map sorted_record pins)"
    using metadata_read [OF assms(1,3-5)] by blast
  have "filter (\<lambda>r. is_dict r \<and> py_eq (metadata_path r) (JStr p)) (map sorted_record pins) = [sorted_record (p, v)]"
    if "(p, v) \<in> set pins" for p v
    using filter_one [OF assms(2) that] by (simp add: filter_map comp_def)
  hence "\<forall>(p, v) \<in> set pins. length v \<le> MAX_INPUT_PIN_BYTES \<longrightarrow>
         (\<exists>r. filter (\<lambda>r. is_dict r \<and> py_eq (metadata_path r) (JStr p)) (map sorted_record pins) = [r]
            \<and> pin_record_digest p (snapshot_members r) = Inr (sha256_hex v))"
    using pin_record_digest_sorted by fastforce
  moreover have "py_eq (JInt 1) (JInt 1)" by code_simp
  ultimately show ?thesis using m by (intro exI [of _ metadata] exI [of _ "map sorted_record pins"]) (simp add: case_prod_unfold comp_def)
qed

lemma snapshot_read_back_witness:
  "\<exists>metadata records. parse_json_object (snapshot_metadata ''m'' ''v1'' ''c'' [pin_record ''a/b'' ''x'', pin_record ''c'' ''y'']) ''label'' = Inr metadata
    \<and> dget metadata ''pins'' = JArr records \<and> map metadata_path records = [JStr ''a/b'', JStr ''c'']"
proof -
  have "list_all (\<lambda>(p, v). ascii p) [(''a/b'', ''x''), (''c'', ''y'')]" "ascii ''m''" "ascii ''v1''" "ascii ''c''"
    by (simp_all add: ascii_def)
  from snapshot_read_back [OF this(1) _ this(2-4)] show ?thesis by fastforce
qed

end
