(* ===== verification/Gh_Process.thy ===== *)
theory Gh_Process
  imports Retirement
begin

text \<open>
  The child process behind \<open>GitHubApi._run\<close> of \<open>scripts/retire_legacy_workflows.py\<close>: starting \<open>gh\<close>,
  watching its leader without reaping it, reading its two pipes under a deadline and a size limit,
  and ending its process group. Every call of the operating system is an event of a trace; what it
  answers, an exception included (an asynchronous one as well), is a function of the trace so far.
  Times are in nanoseconds. A loop without a bound of its own runs on fuel; the outcome \<open>None\<close> of a
  script says that it ran out, and no handler of the program sees it.
\<close>

section \<open>Limits\<close>

definition MAX_API_BYTES :: nat where "MAX_API_BYTES = 64 * 1024 * 1024"
definition API_READ_CHUNK_BYTES :: nat where "API_READ_CHUNK_BYTES = 64 * 1024"
definition PROCESS_POLL :: int where "PROCESS_POLL = 50000000"
definition PROCESS_TIMEOUT :: int where "PROCESS_TIMEOUT = 90000000000"
definition TERMINATE_GRACE :: int where "TERMINATE_GRACE = 1000000000"
definition POST_EXIT_DRAIN :: int where "POST_EXIT_DRAIN = 1000000000"

section \<open>The operating system\<close>

text \<open>
  \<open>Refused\<close> is \<open>RetirementError\<close>, \<open>Unavailable\<close> and \<open>Ownership_lost\<close> its subclasses, \<open>Os_failure\<close> is
  \<open>OSError\<close>, \<open>Value_failure\<close> \<open>ValueError\<close> or \<open>KeyError\<close>, \<open>Wait_timeout\<close> \<open>TimeoutExpired\<close>, \<open>Interrupt\<close> \<open>KeyboardInterrupt\<close> or \<open>SystemExit\<close>, \<open>Other_exception\<close> anything else.
\<close>

datatype exn =
    Refused string
  | Unavailable string
  | Ownership_lost
  | Os_failure
  | Wait_timeout
  | Interrupt
  | Value_failure
  | Other_exception

datatype stream = Out_pipe | Err_pipe

datatype probe = Running | Exited | Interrupted_call | No_child | Probe_raises exn

datatype gh_event =
    Clock_read
  | Probed probe
  | Signalled bool
  | Group_asked
  | Waited
  | Slept
  | Pipes_set
  | Selected
  | Chunk_read stream "bytes option"
  | Closed stream

text \<open>A read answers \<open>None\<close> where Python raises \<open>BlockingIOError\<close>.\<close>

record kernel =
  o_clock :: "gh_event list \<Rightarrow> exn + int"
  o_probe :: "gh_event list \<Rightarrow> probe"
  o_signal :: "gh_event list \<Rightarrow> bool \<Rightarrow> exn + bool"
  o_group :: "gh_event list \<Rightarrow> exn + bool"
  o_wait :: "gh_event list \<Rightarrow> exn + int"
  o_sleep :: "gh_event list \<Rightarrow> int \<Rightarrow> exn + unit"
  o_pipes :: "gh_event list \<Rightarrow> exn + unit"
  o_select :: "gh_event list \<Rightarrow> int \<Rightarrow> exn + stream list"
  o_read :: "gh_event list \<Rightarrow> stream \<Rightarrow> nat \<Rightarrow> exn + bytes option"
  o_close :: "gh_event list \<Rightarrow> stream \<Rightarrow> exn + unit"

text \<open>The variables of \<open>_capture_process\<close> and the cleanup state.\<close>

record capture =
  k_trace :: "gh_event list"
  k_kill_resolved :: bool
  k_kill_error :: bool
  k_stdout :: bytes
  k_stderr :: bytes
  k_captured :: nat
  k_overflow :: bool
  k_timed_out :: bool
  k_code :: "int option"
  k_post_exit :: "int option"
  k_open :: "stream list"
  k_finalized :: bool

section \<open>Scripts\<close>

type_synonym 'a cap = "capture \<Rightarrow> (exn + 'a) option \<times> capture"

definition returnC :: "'a \<Rightarrow> 'a cap" where "returnC x s = (Some (Inr x), s)"
definition raiseC :: "exn \<Rightarrow> 'a cap" where "raiseC e s = (Some (Inl e), s)"
definition stuckC :: "'a cap" where "stuckC s = (None, s)"
definition getC :: "(capture \<Rightarrow> 'a) \<Rightarrow> 'a cap" where "getC f s = (Some (Inr (f s)), s)"
definition setC :: "(capture \<Rightarrow> capture) \<Rightarrow> unit cap" where "setC f s = (Some (Inr ()), f s)"

definition bindC :: "'a cap \<Rightarrow> ('a \<Rightarrow> 'b cap) \<Rightarrow> 'b cap" where
  "bindC m f s =
     (case m s of
        (None, s') \<Rightarrow> (None, s')
      | (Some (Inl e), s') \<Rightarrow> (Some (Inl e), s')
      | (Some (Inr x), s') \<Rightarrow> f x s')"

text \<open>\<open>try: m except ... as e: h(e)\<close>, where \<open>h\<close> raises again what it does not catch\<close>

definition catchC :: "'a cap \<Rightarrow> (exn \<Rightarrow> 'a cap) \<Rightarrow> 'a cap" where
  "catchC m h s = (case m s of (Some (Inl e), s') \<Rightarrow> h e s' | (r, s') \<Rightarrow> (r, s'))"

text \<open>\<open>try: m finally: c\<close>\<close>

definition endC :: "'a cap \<Rightarrow> unit cap \<Rightarrow> 'a cap" where
  "endC m c s =
     (case m s of
        (None, s') \<Rightarrow> (None, s')
      | (r, s') \<Rightarrow> (case c s' of
            (None, s'') \<Rightarrow> (None, s'')
          | (Some (Inl e), s'') \<Rightarrow> (Some (Inl e), s'')
          | (Some (Inr _), s'') \<Rightarrow> (r, s'')))"

text \<open>A call: its event is recorded, then it answers.\<close>

definition callC :: "(gh_event list \<Rightarrow> exn + 'a) \<Rightarrow> (exn + 'a \<Rightarrow> gh_event) \<Rightarrow> 'a cap" where
  "callC answer ev s = (let a = answer (k_trace s) in (Some a, s\<lparr>k_trace := k_trace s @ [ev a]\<rparr>))"

definition is_os_failure :: "exn \<Rightarrow> bool" where
  "is_os_failure e \<longleftrightarrow> e = Os_failure"

section \<open>The leader and its group\<close>

definition the_answer :: "exn + probe \<Rightarrow> probe" where
  "the_answer a = (case a of Inl e \<Rightarrow> Probe_raises e | Inr p \<Rightarrow> p)"

fun leader_exited :: "kernel \<Rightarrow> nat \<Rightarrow> bool cap" where
  "leader_exited K 0 = stuckC"
| "leader_exited K (Suc n) =
     bindC (callC (\<lambda>t. Inr (o_probe K t)) (\<lambda>a. Probed (the_answer a))) (\<lambda>a.
       case a of
         Running \<Rightarrow> returnC False
       | Exited \<Rightarrow> returnC True
       | Interrupted_call \<Rightarrow> leader_exited K n
       | No_child \<Rightarrow> raiseC Ownership_lost
       | Probe_raises e \<Rightarrow> raiseC e)"

definition signal_group :: "kernel \<Rightarrow> bool \<Rightarrow> bool cap" where
  "signal_group K kill = callC (\<lambda>t. o_signal K t kill) (\<lambda>_. Signalled kill)"

definition group_exists :: "kernel \<Rightarrow> bool cap" where
  "group_exists K = callC (o_group K) (\<lambda>_. Group_asked)"

definition resolve_kill :: "kernel \<Rightarrow> unit cap" where
  "resolve_kill K =
     bindC (catchC (bindC (signal_group K True) (\<lambda>_. returnC False))
              (\<lambda>e. if is_os_failure e then returnC True else raiseC e)) (\<lambda>failed.
       setC (\<lambda>s. s\<lparr>k_kill_error := failed, k_kill_resolved := True\<rparr>))"

definition kill_group_and_reap :: "kernel \<Rightarrow> int cap" where
  "kill_group_and_reap K =
     bindC (getC k_kill_resolved) (\<lambda>resolved.
     bindC (if resolved then returnC () else resolve_kill K) (\<lambda>_.
     bindC (catchC (callC (o_wait K) (\<lambda>_. Waited))
              (\<lambda>e. if e = Wait_timeout then raiseC (Refused ''GitHub API process group did not stop'') else raiseC e)) (\<lambda>code.
     bindC (getC k_kill_error) (\<lambda>failed.
       if \<not> failed then returnC code
       else bindC (group_exists K) (\<lambda>there.
         if there then raiseC (Refused ''GitHub API process group could not be killed'') else returnC code)))))"

definition clock :: "kernel \<Rightarrow> int cap" where
  "clock K = callC (o_clock K) (\<lambda>_. Clock_read)"

fun grace_period :: "kernel \<Rightarrow> nat \<Rightarrow> int \<Rightarrow> unit cap" where
  "grace_period K 0 deadline = stuckC"
| "grace_period K (Suc n) deadline =
     bindC (clock K) (\<lambda>now.
       if deadline - now \<le> 0 then returnC ()
       else bindC (callC (\<lambda>t. o_sleep K t (min PROCESS_POLL (deadline - now))) (\<lambda>_. Slept)) (\<lambda>_. grace_period K n deadline))"

definition stop_process :: "kernel \<Rightarrow> nat \<Rightarrow> int cap" where
  "stop_process K fuel =
     bindC (getC k_kill_resolved) (\<lambda>resolved.
       if resolved then kill_group_and_reap K
       else
         bindC (leader_exited K fuel) (\<lambda>_.
         bindC (catchC (bindC (signal_group K False) (\<lambda>_. returnC ()))
                  (\<lambda>e. if is_os_failure e then returnC () else raiseC e)) (\<lambda>_.
         bindC (clock K) (\<lambda>now.
         bindC (grace_period K fuel (now + TERMINATE_GRACE)) (\<lambda>_.
           kill_group_and_reap K)))))"

section \<open>The pipes\<close>

definition close_stream :: "kernel \<Rightarrow> stream \<Rightarrow> unit cap" where
  "close_stream K st =
     bindC (setC (\<lambda>s. s\<lparr>k_open := removeAll st (k_open s)\<rparr>)) (\<lambda>_.
     catchC (callC (\<lambda>t. o_close K t st) (\<lambda>_. Closed st))
       (\<lambda>e. if e = Os_failure \<or> e = Value_failure then returnC () else raiseC e))"

fun close_streams :: "kernel \<Rightarrow> stream list \<Rightarrow> unit cap" where
  "close_streams K [] = returnC ()"
| "close_streams K (st # sts) = bindC (close_stream K st) (\<lambda>_. close_streams K sts)"

text \<open>What fits under the limit is kept, the rest is dropped and noted.\<close>

definition keep_chunk :: "stream \<Rightarrow> bytes \<Rightarrow> capture \<Rightarrow> capture" where
  "keep_chunk st chunk s =
     (let room = MAX_API_BYTES - k_captured s; accepted = take room chunk;
          s1 = (case st of
                  Out_pipe \<Rightarrow> s\<lparr>k_stdout := k_stdout s @ accepted\<rparr>
                | Err_pipe \<Rightarrow> s\<lparr>k_stderr := k_stderr s @ accepted\<rparr>);
          s2 = s1\<lparr>k_captured := k_captured s + length accepted\<rparr>
      in if room < length chunk then s2\<lparr>k_overflow := True\<rparr> else s2)"

definition read_stream :: "kernel \<Rightarrow> stream \<Rightarrow> unit cap" where
  "read_stream K st =
     bindC (callC (\<lambda>t. o_read K t st API_READ_CHUNK_BYTES)
              (\<lambda>a. Chunk_read st (case a of Inl _ \<Rightarrow> None | Inr c \<Rightarrow> c))) (\<lambda>a.
       case a of
         None \<Rightarrow> returnC ()
       | Some [] \<Rightarrow> close_stream K st
       | Some chunk \<Rightarrow> setC (keep_chunk st chunk))"

fun read_streams :: "kernel \<Rightarrow> stream list \<Rightarrow> unit cap" where
  "read_streams K [] = returnC ()"
| "read_streams K (st # sts) = bindC (read_stream K st) (\<lambda>_. read_streams K sts)"

section \<open>Capturing\<close>

text \<open>The process is stopped and its group finalised.\<close>

definition finish_stopped :: "kernel \<Rightarrow> nat \<Rightarrow> unit cap" where
  "finish_stopped K fuel =
     bindC (stop_process K fuel) (\<lambda>code. setC (\<lambda>s. s\<lparr>k_code := Some code, k_finalized := True\<rparr>))"

definition time_out :: "kernel \<Rightarrow> nat \<Rightarrow> unit cap" where
  "time_out K fuel = bindC (setC (\<lambda>s. s\<lparr>k_timed_out := True\<rparr>)) (\<lambda>_. finish_stopped K fuel)"

text \<open>
  The first half of an iteration: deadline, leader, deadline again. \<open>None\<close> leaves the loop, otherwise
  the last reading of the clock is handed on.
\<close>

definition watch_leader :: "kernel \<Rightarrow> nat \<Rightarrow> int \<Rightarrow> int option cap" where
  "watch_leader K fuel deadline =
     bindC (clock K) (\<lambda>now.
     bindC (getC k_code) (\<lambda>code.
     if code \<noteq> None then returnC (Some now)
     else if deadline \<le> now then bindC (time_out K fuel) (\<lambda>_. returnC None)
     else
       bindC (leader_exited K fuel) (\<lambda>exited.
       bindC (clock K) (\<lambda>now.
       if deadline \<le> now then bindC (time_out K fuel) (\<lambda>_. returnC None)
       else if exited
       then
         bindC (kill_group_and_reap K) (\<lambda>code.
         bindC (setC (\<lambda>s. s\<lparr>k_code := Some code, k_finalized := True, k_post_exit := Some (now + POST_EXIT_DRAIN)\<rparr>)) (\<lambda>_.
           returnC (Some now)))
       else returnC (Some now)))))"

definition select_timeout :: "int \<Rightarrow> int \<Rightarrow> capture \<Rightarrow> int" where
  "select_timeout deadline now s =
     (case (k_code s, k_post_exit s) of
        (None, _) \<Rightarrow> min PROCESS_POLL (max 0 (deadline - now))
      | (_, Some d) \<Rightarrow> min PROCESS_POLL (max 0 (d - now))
      | _ \<Rightarrow> PROCESS_POLL)"

definition drain_expired :: "int \<Rightarrow> capture \<Rightarrow> bool" where
  "drain_expired now s \<longleftrightarrow>
     k_code s \<noteq> None \<and> (case k_post_exit s of None \<Rightarrow> False | Some d \<Rightarrow> d \<le> now) \<and> k_open s \<noteq> []"

text \<open>The second half: the pipes. \<open>False\<close> leaves the loop.\<close>

definition serve_pipes :: "kernel \<Rightarrow> nat \<Rightarrow> int \<Rightarrow> int \<Rightarrow> bool cap" where
  "serve_pipes K fuel deadline now =
     bindC (getC (select_timeout deadline now)) (\<lambda>limit.
     bindC (callC (\<lambda>t. o_select K t limit) (\<lambda>_. Selected)) (\<lambda>ready.
     bindC (read_streams K ready) (\<lambda>_.
     bindC (getC (\<lambda>s. k_overflow s \<and> k_code s = None)) (\<lambda>too_much.
     if too_much then bindC (finish_stopped K fuel) (\<lambda>_. returnC False)
     else
       bindC (clock K) (\<lambda>now.
       bindC (getC (drain_expired now)) (\<lambda>expired.
       bindC (if expired then bindC (getC k_open) (close_streams K) else returnC ()) (\<lambda>_. returnC True)))))))"

fun capture_loop :: "kernel \<Rightarrow> nat \<Rightarrow> nat \<Rightarrow> int \<Rightarrow> unit cap" where
  "capture_loop K fuel 0 deadline = stuckC"
| "capture_loop K fuel (Suc n) deadline =
     bindC (watch_leader K fuel deadline) (\<lambda>watched.
       case watched of
         None \<Rightarrow> returnC ()
       | Some now \<Rightarrow>
           bindC (getC (\<lambda>s. k_code s \<noteq> None \<and> k_open s = [])) (\<lambda>drained.
           if drained then returnC ()
           else bindC (serve_pipes K fuel deadline now) (\<lambda>again.
             if again then capture_loop K fuel n deadline else returnC ())))"

record captured =
  cd_code :: int
  cd_stdout :: bytes
  cd_stderr :: bytes
  cd_overflow :: bool
  cd_timed_out :: bool

definition capture_result :: "captured cap" where
  "capture_result =
     bindC (getC k_code) (\<lambda>code.
       case code of
         None \<Rightarrow> raiseC (Refused ''GitHub API process result is unavailable'')
       | Some c \<Rightarrow> getC (\<lambda>s. \<lparr>cd_code = c, cd_stdout = k_stdout s, cd_stderr = k_stderr s,
                             cd_overflow = k_overflow s, cd_timed_out = k_timed_out s\<rparr>))"

definition is_final_exn :: "exn \<Rightarrow> bool" where
  "is_final_exn e = (case e of Interrupt \<Rightarrow> True | Refused _ \<Rightarrow> True | Unavailable _ \<Rightarrow> True | Ownership_lost \<Rightarrow> True | _ \<Rightarrow> False)"

text \<open>The \<open>except BaseException\<close> block: cleanup, unless the group is finalised or lost.\<close>

definition capture_failed :: "kernel \<Rightarrow> nat \<Rightarrow> exn \<Rightarrow> 'a cap" where
  "capture_failed K fuel e =
     bindC (if e = Ownership_lost then setC (\<lambda>s. s\<lparr>k_finalized := True\<rparr>) else returnC ()) (\<lambda>_.
     bindC (getC k_finalized) (\<lambda>finalized.
     bindC (if finalized then returnC ()
            else catchC (bindC (stop_process K fuel) (\<lambda>_. returnC ()))
                   (\<lambda>c. raiseC (if c = Ownership_lost then Ownership_lost else Refused ''GitHub API process cleanup failed''))) (\<lambda>_.
       raiseC (if is_final_exn e then e else Refused ''GitHub API capture failed''))))"

definition fresh_capture :: "gh_event list \<Rightarrow> capture" where
  "fresh_capture t =
     \<lparr>k_trace = t, k_kill_resolved = False, k_kill_error = False, k_stdout = [], k_stderr = [], k_captured = 0,
      k_overflow = False, k_timed_out = False, k_code = None, k_post_exit = None, k_open = [], k_finalized = False\<rparr>"

text \<open>\<open>pipes\<close> are the streams the process object has; with both of them they are registered.\<close>

definition capture_body :: "kernel \<Rightarrow> nat \<Rightarrow> stream list \<Rightarrow> int \<Rightarrow> captured cap" where
  "capture_body K fuel pipes deadline =
     (if pipes \<noteq> [Out_pipe, Err_pipe]
      then
        bindC (stop_process K fuel) (\<lambda>_.
        bindC (setC (\<lambda>s. s\<lparr>k_finalized := True\<rparr>)) (\<lambda>_. raiseC (Refused ''GitHub API process pipes are unavailable'')))
      else
        bindC (callC (o_pipes K) (\<lambda>_. Pipes_set)) (\<lambda>_.
        bindC (setC (\<lambda>s. s\<lparr>k_open := pipes\<rparr>)) (\<lambda>_.
        bindC (capture_loop K fuel fuel deadline) (\<lambda>_. capture_result))))"

definition capture_process :: "kernel \<Rightarrow> nat \<Rightarrow> stream list \<Rightarrow> captured cap" where
  "capture_process K fuel pipes =
     bindC (clock K) (\<lambda>now.
       endC (catchC (capture_body K fuel pipes (now + PROCESS_TIMEOUT)) (capture_failed K fuel))
            (close_streams K pipes))"

section \<open>Requests\<close>

text \<open>The command line of \<open>gh\<close> for a request.\<close>

definition repository_owner :: "string \<times> string" where
  "repository_owner = (takeWhile (\<lambda>c. c \<noteq> CHR ''/'') REPOSITORY, tl (dropWhile (\<lambda>c. c \<noteq> CHR ''/'') REPOSITORY))"

definition identity_query :: string where
  "identity_query = ''query($owner:String!,$name:String!){'' @ ''repository(owner:$owner,name:$name){''
     @ ''nameWithOwner defaultBranchRef{name}}}''"

definition gh_arguments :: "request \<Rightarrow> string list" where
  "gh_arguments q =
     (case q of
        Get endpoint paginate \<Rightarrow> if paginate then [''--paginate'', ''--slurp'', endpoint] else [endpoint]
      | Repository_identity \<Rightarrow>
          [''graphql'', ''-f'', ''query='' @ identity_query, ''-f'', ''owner='' @ fst repository_owner,
           ''-f'', ''name='' @ snd repository_owner]
      | Mutate verb endpoint \<Rightarrow> [''--method'', verb, endpoint])"

definition gh_command :: "request \<Rightarrow> string list" where
  "gh_command q = [''gh'', ''api'', ''--hostname'', GITHUB_HOST] @ gh_arguments q"

definition expects_json :: "request \<Rightarrow> bool" where
  "expects_json q = (case q of Mutate _ _ \<Rightarrow> False | _ \<Rightarrow> True)"

text \<open>A decoding error of the answer is not caught.\<close>

definition run_answer :: "captured \<Rightarrow> bool \<Rightarrow> json res" where
  "run_answer c json_expected =
     (if cd_overflow c then Inl (RetirementError ''GitHub API response exceeds the safety limit'')
      else if cd_timed_out c then Inl (GitHubApiUnavailable ''GitHub API request timed out'')
      else if cd_code c \<noteq> 0 then Inl (GitHubApiUnavailable ''GitHub API failed'')
      else if \<not> json_expected then Inr JNull
      else (case json_loads (cd_stdout c) of
          Inl JSONDecodeError \<Rightarrow> Inl (RetirementError ''GitHub API returned invalid JSON'')
        | r \<Rightarrow> r))"

text \<open>
  \<open>_run\<close>: \<open>supported\<close> says that the platform has process groups and the default \<open>SIGCHLD\<close>
  disposition, \<open>started\<close> that the command could be started, \<open>pipes\<close> which pipes it has.
\<close>

definition gh_run :: "kernel \<Rightarrow> nat \<Rightarrow> bool \<Rightarrow> (string list \<Rightarrow> bool) \<Rightarrow> stream list \<Rightarrow> request \<Rightarrow> (exn + json res) option" where
  "gh_run K fuel supported started pipes q =
     (if \<not> supported then Some (Inl (Refused ''GitHub API capture requires POSIX process groups and waitid WNOWAIT''))
      else if \<not> started (gh_command q) then Some (Inl (Unavailable ''GitHub API process could not start''))
      else (case fst (capture_process K fuel pipes (fresh_capture [])) of
          None \<Rightarrow> None
        | Some (Inl e) \<Rightarrow> Some (Inl e)
        | Some (Inr c) \<Rightarrow> Some (Inr (run_answer c (expects_json q)))))"

end
