(* ===== verification/Gh_Process_Props.thy ===== *)
theory Gh_Process_Props
  imports Gh_Process
begin

text \<open>
  What is certain of the child process, whatever the operating system answers and whatever interrupts
  the program: no signal goes to a process group that may no longer be its own, the captured output is
  what the pipes delivered up to the limit, and with a clock that advances the capture ends.
  Scripts are treated with triples that have one rule for each combinator.
\<close>

section \<open>Triples\<close>

text \<open>
  \<open>holds N P m Q E\<close>: from a state with \<open>P\<close> the script returns \<open>x\<close> in a state with \<open>Q x\<close>, raises \<open>e\<close> in a
  state with \<open>E e\<close>, or runs out of fuel in a state with \<open>N\<close>.
\<close>

definition holds :: "(capture \<Rightarrow> bool) \<Rightarrow> (capture \<Rightarrow> bool) \<Rightarrow> 'a cap \<Rightarrow> ('a \<Rightarrow> capture \<Rightarrow> bool) \<Rightarrow> (exn \<Rightarrow> capture \<Rightarrow> bool) \<Rightarrow> bool" where
  "holds N P m Q E \<longleftrightarrow> (\<forall>s. P s \<longrightarrow>
     (case m s of (None, s') \<Rightarrow> N s' | (Some (Inl e), s') \<Rightarrow> E e s' | (Some (Inr x), s') \<Rightarrow> Q x s'))"

lemma holdsI:
  assumes "\<And>s s'. P s \<Longrightarrow> m s = (None, s') \<Longrightarrow> N s'" "\<And>s e s'. P s \<Longrightarrow> m s = (Some (Inl e), s') \<Longrightarrow> E e s'"
    and "\<And>s x s'. P s \<Longrightarrow> m s = (Some (Inr x), s') \<Longrightarrow> Q x s'"
  shows "holds N P m Q E"
  unfolding holds_def using assms by (auto split: prod.split option.split sum.split)

lemma holdsD:
  assumes "holds N P m Q E" "P s"
  shows "m s = (None, s') \<Longrightarrow> N s'" "m s = (Some (Inl e), s') \<Longrightarrow> E e s'" "m s = (Some (Inr x), s') \<Longrightarrow> Q x s'"
  using assms(1) [unfolded holds_def, rule_format, OF assms(2)] by auto

lemma holds_conseq:
  assumes "holds N P m Q E" "\<And>s. P' s \<Longrightarrow> P s" "\<And>x s. Q x s \<Longrightarrow> Q' x s" "\<And>e s. E e s \<Longrightarrow> E' e s"
  shows "holds N P' m Q' E'"
  using assms(1) assms(2-4) unfolding holds_def by (fastforce split: prod.splits option.splits sum.splits)

lemma holds_stuck_any:
  assumes "holds N P m Q E" shows "holds (\<lambda>_. True) P m Q E"
  using holdsD [OF assms] by (auto intro: holdsI)

named_theorems holds_intro \<open>triples of the combinators\<close>

lemma holds_return [holds_intro]: "(\<And>s. P s \<Longrightarrow> Q x s) \<Longrightarrow> holds N P (returnC x) Q E"
  by (simp add: holds_def returnC_def)

lemma holds_raise [holds_intro]: "(\<And>s. P s \<Longrightarrow> E e s) \<Longrightarrow> holds N P (raiseC e) Q E"
  by (simp add: holds_def raiseC_def)

lemma holds_stuck [holds_intro]: "(\<And>s. P s \<Longrightarrow> N s) \<Longrightarrow> holds N P stuckC Q E"
  by (simp add: holds_def stuckC_def)

lemma holds_get [holds_intro]: "(\<And>s. P s \<Longrightarrow> Q (f s) s) \<Longrightarrow> holds N P (getC f) Q E"
  by (simp add: holds_def getC_def)

lemma holds_set [holds_intro]: "(\<And>s. P s \<Longrightarrow> Q () (f s)) \<Longrightarrow> holds N P (setC f) Q E"
  by (simp add: holds_def setC_def)

lemma holds_call [holds_intro]:
  assumes "\<And>s e. P s \<Longrightarrow> answer (k_trace s) = Inl e \<Longrightarrow> E e (s\<lparr>k_trace := k_trace s @ [ev (Inl e)]\<rparr>)"
    and "\<And>s x. P s \<Longrightarrow> answer (k_trace s) = Inr x \<Longrightarrow> Q x (s\<lparr>k_trace := k_trace s @ [ev (Inr x)]\<rparr>)"
  shows "holds N P (callC answer ev) Q E"
  unfolding holds_def callC_def Let_def using assms by (auto split: sum.split)

lemma holds_bind [holds_intro]:
  assumes "holds N P m mid E" and "\<And>x. holds N (mid x) (f x) Q E"
  shows "holds N P (bindC m f) Q E"
proof (rule holdsI)
  fix s s' assume "P s" "bindC m f s = (None, s')"
  thus "N s'" using holdsD [OF assms(1)] holdsD [OF assms(2)]
    by (fastforce simp: bindC_def split: prod.splits option.splits sum.splits)
next
  fix s e s' assume "P s" "bindC m f s = (Some (Inl e), s')"
  thus "E e s'" using holdsD [OF assms(1)] holdsD [OF assms(2)]
    by (fastforce simp: bindC_def split: prod.splits option.splits sum.splits)
next
  fix s x s' assume "P s" "bindC m f s = (Some (Inr x), s')"
  thus "Q x s'" using holdsD [OF assms(1)] holdsD [OF assms(2)]
    by (fastforce simp: bindC_def split: prod.splits option.splits sum.splits)
qed

lemma holds_catch [holds_intro]:
  assumes "holds N P m Q mid" and "\<And>e. holds N (mid e) (h e) Q E"
  shows "holds N P (catchC m h) Q E"
proof (rule holdsI)
  fix s s' assume "P s" "catchC m h s = (None, s')"
  thus "N s'" using holdsD [OF assms(1)] holdsD [OF assms(2)]
    by (fastforce simp: catchC_def split: prod.splits option.splits sum.splits)
next
  fix s e s' assume "P s" "catchC m h s = (Some (Inl e), s')"
  thus "E e s'" using holdsD [OF assms(1)] holdsD [OF assms(2)]
    by (fastforce simp: catchC_def split: prod.splits option.splits sum.splits)
next
  fix s x s' assume "P s" "catchC m h s = (Some (Inr x), s')"
  thus "Q x s'" using holdsD [OF assms(1)] holdsD [OF assms(2)]
    by (fastforce simp: catchC_def split: prod.splits option.splits sum.splits)
qed

lemma holds_end [holds_intro]:
  assumes "holds N P m Q1 E1" and "\<And>x. holds N (Q1 x) c (\<lambda>_. Q x) E" and "\<And>e. holds N (E1 e) c (\<lambda>_. E e) E"
  shows "holds N P (endC m c) Q E"
  unfolding holds_def
proof (intro allI impI)
  fix s assume P: "P s"
  obtain r s1 where m: "m s = (r, s1)" by fastforce
  obtain r2 s2 where c: "c s1 = (r2, s2)" by fastforce
  show "case endC m c s of (None, s') \<Rightarrow> N s' | (Some (Inl e), s') \<Rightarrow> E e s' | (Some (Inr x), s') \<Rightarrow> Q x s'"
  proof (cases r)
    case None thus ?thesis using holdsD(1) [OF assms(1) P] m by (simp add: endC_def)
  next
    case (Some a)
    show ?thesis
    proof (cases a)
      case (Inl e)
      hence "E1 e s1" using holdsD(2) [OF assms(1) P] m Some by simp
      from holdsD [OF assms(3) this] show ?thesis using m Some Inl c
        by (simp add: endC_def split: option.split sum.split)
    next
      case (Inr x)
      hence "Q1 x s1" using holdsD(3) [OF assms(1) P] m Some by simp
      from holdsD [OF assms(2) this] show ?thesis using m Some Inr c
        by (simp add: endC_def split: option.split sum.split)
    qed
  qed
qed

lemma holds_if [holds_intro]:
  "(c \<Longrightarrow> holds N P a Q E) \<Longrightarrow> (\<not> c \<Longrightarrow> holds N P b Q E) \<Longrightarrow> holds N P (if c then a else b) Q E"
  by simp

section \<open>Signals\<close>

text \<open>
  A signal may be sent after a call that found the leader, dead or alive, unreaped, and not after a
  call that may have reaped it or that found it reaped by somebody else.
\<close>

definition may_signal :: "gh_event list \<Rightarrow> bool" where
  "may_signal t \<longleftrightarrow> (Probed Running \<in> set t \<or> Probed Exited \<in> set t) \<and> Waited \<notin> set t \<and> Probed No_child \<notin> set t"

definition signals_safe :: "gh_event list \<Rightarrow> bool" where
  "signals_safe t \<longleftrightarrow> (\<forall>before kill rest. t = before @ Signalled kill # rest \<longrightarrow> may_signal before)"

lemma signals_safe_Nil [simp]: "signals_safe []"
  by (simp add: signals_safe_def)

lemma signals_safe_append [simp]:
  "signals_safe (t @ [ev]) \<longleftrightarrow> signals_safe t \<and> (\<forall>kill. ev = Signalled kill \<longrightarrow> may_signal t)"
proof -
  have "(t @ [ev] = before @ Signalled kill # rest) \<longleftrightarrow>
      (rest = [] \<and> before = t \<and> ev = Signalled kill) \<or> (rest \<noteq> [] \<and> last rest = ev \<and> t = before @ Signalled kill # butlast rest)"
    for before kill rest by (cases rest rule: rev_cases) auto
  note this [simp]
  show ?thesis
  proof
    assume l: "signals_safe (t @ [ev])"
    have "may_signal before" if "t = before @ Signalled kill # rest" for before kill rest
      using l [unfolded signals_safe_def, rule_format, of before kill "rest @ [ev]"] that by simp
    moreover have "may_signal t" if "ev = Signalled kill" for kill
      using l [unfolded signals_safe_def, rule_format, of t kill "[]"] that by simp
    ultimately show "signals_safe t \<and> (\<forall>kill. ev = Signalled kill \<longrightarrow> may_signal t)" unfolding signals_safe_def by blast
  next
    assume r: "signals_safe t \<and> (\<forall>kill. ev = Signalled kill \<longrightarrow> may_signal t)"
    show "signals_safe (t @ [ev])"
      unfolding signals_safe_def using r [unfolded signals_safe_def] by (intro allI impI) (simp, blast)
  qed
qed

definition owned :: "capture \<Rightarrow> bool" where
  "owned s \<longleftrightarrow> signals_safe (k_trace s) \<and> Probed No_child \<notin> set (k_trace s)
     \<and> (Waited \<in> set (k_trace s) \<longrightarrow> k_kill_resolved s)"

definition probed :: "capture \<Rightarrow> bool" where
  "probed s \<longleftrightarrow> Probed Running \<in> set (k_trace s) \<or> Probed Exited \<in> set (k_trace s)"

definition safe :: "capture \<Rightarrow> bool" where "safe s \<longleftrightarrow> signals_safe (k_trace s)"

definition lost_or_owned :: "exn \<Rightarrow> capture \<Rightarrow> bool" where
  "lost_or_owned e s \<longleftrightarrow> (if e = Ownership_lost then safe s else owned s)"

abbreviation "steps \<equiv> holds safe"

lemma owned_safe: "owned s \<Longrightarrow> safe s"
  by (simp add: owned_def safe_def)

lemma owned_lost: "owned s \<Longrightarrow> lost_or_owned e s"
  by (simp add: lost_or_owned_def owned_safe)

text \<open>Calls that are neither signals nor waits, and changes of other variables, keep ownership.\<close>

definition quiet_event :: "gh_event \<Rightarrow> bool" where
  "quiet_event ev \<longleftrightarrow> (case ev of Probed _ \<Rightarrow> False | Signalled _ \<Rightarrow> False | Waited \<Rightarrow> False | _ \<Rightarrow> True)"

lemma owned_quiet: "owned s \<Longrightarrow> quiet_event ev \<Longrightarrow> owned (s\<lparr>k_trace := k_trace s @ [ev]\<rparr>)"
  by (auto simp: owned_def quiet_event_def)

lemma probed_append: "probed s \<Longrightarrow> probed (s\<lparr>k_trace := k_trace s @ [ev]\<rparr>)"
  by (auto simp: probed_def)

definition quiet_probed :: "capture \<Rightarrow> bool" where
  "quiet_probed s \<longleftrightarrow> owned s \<and> probed s"

lemma steps_probe:
  "steps (\<lambda>s. owned s \<and> k_kill_resolved s = b) (leader_exited K n) (\<lambda>_ s. quiet_probed s \<and> k_kill_resolved s = b) lost_or_owned"
proof (induction n)
  case 0
  show ?case by (auto intro!: holds_intro dest: owned_safe)
next
  case (Suc n)
  let ?mid = "\<lambda>a s. case a of Running \<Rightarrow> quiet_probed s \<and> k_kill_resolved s = b | Exited \<Rightarrow> quiet_probed s \<and> k_kill_resolved s = b
        | No_child \<Rightarrow> safe s | _ \<Rightarrow> owned s \<and> k_kill_resolved s = b"
  show ?case unfolding leader_exited.simps
  proof (rule holds_bind [where mid = ?mid])
    show "steps (\<lambda>s. owned s \<and> k_kill_resolved s = b) (callC (\<lambda>t. Inr (o_probe K t)) (\<lambda>a. Probed (the_answer a))) ?mid lost_or_owned"
      by (rule holds_call) (auto simp: the_answer_def quiet_probed_def owned_def probed_def safe_def split: probe.split)
  next
    fix a
    show "steps (?mid a)
        (case a of Running \<Rightarrow> returnC False | Exited \<Rightarrow> returnC True | Interrupted_call \<Rightarrow> leader_exited K n
           | No_child \<Rightarrow> raiseC Ownership_lost | Probe_raises e \<Rightarrow> raiseC e) (\<lambda>_ s. quiet_probed s \<and> k_kill_resolved s = b) lost_or_owned"
      using Suc by (cases a) (auto intro!: holds_intro simp: lost_or_owned_def [abs_def] dest: owned_safe)
  qed
qed

text \<open>Before a hard kill: it has been resolved, or the leader has been probed.\<close>

definition killable :: "capture \<Rightarrow> bool" where
  "killable s \<longleftrightarrow> owned s \<and> (k_kill_resolved s \<or> probed s)"

lemma steps_resolve: "steps (\<lambda>s. killable s \<and> \<not> k_kill_resolved s) (resolve_kill K) (\<lambda>_ s. owned s \<and> k_kill_resolved s) lost_or_owned"
proof -
  have a: "steps (\<lambda>s. killable s \<and> \<not> k_kill_resolved s) (signal_group K True) (\<lambda>_. owned) (\<lambda>_. owned)"
    unfolding signal_group_def
    by (rule holds_call) (auto simp: killable_def owned_def probed_def may_signal_def)
  show ?thesis
    unfolding resolve_kill_def
    apply (rule holds_bind [where mid = "\<lambda>_. owned"])
     apply (rule holds_catch [where mid = "\<lambda>_. owned"])
      apply (rule holds_bind [OF a])
      apply (rule holds_return, assumption)
     apply (auto intro!: holds_intro simp: owned_lost owned_def)
    done
qed

lemma steps_kill: "steps killable (kill_group_and_reap K) (\<lambda>_. owned) lost_or_owned"
proof -
  have w: "steps (\<lambda>s. owned s \<and> k_kill_resolved s) (callC (o_wait K) (\<lambda>_. Waited)) (\<lambda>_. owned) (\<lambda>_. owned)"
    by (rule holds_call) (auto simp: owned_def)
  have g: "steps owned (group_exists K) (\<lambda>_. owned) lost_or_owned"
    unfolding group_exists_def by (rule holds_call) (auto simp: owned_lost owned_quiet quiet_event_def)
  show ?thesis
    unfolding kill_group_and_reap_def
    apply (rule holds_bind [where mid = "\<lambda>b s. killable s \<and> k_kill_resolved s = b"])
     apply (auto intro!: holds_intro)[1]
    apply (rule holds_bind [where mid = "\<lambda>_ s. owned s \<and> k_kill_resolved s"])
     apply (rule holds_if)
      apply (auto intro!: holds_intro simp: killable_def)[1]
     apply (rule holds_conseq [OF steps_resolve]; simp)
    apply (rule holds_bind [where mid = "\<lambda>_. owned"])
     apply (rule holds_catch [OF w])
     apply (rule holds_if; rule holds_raise; simp add: owned_lost)
    apply (rule holds_bind [where mid = "\<lambda>_. owned"])
     apply (rule holds_get, assumption)
    apply (rule holds_if)
     apply (rule holds_return, assumption)
    apply (rule holds_bind [OF g])
    apply (rule holds_if)
     apply (rule holds_raise, simp add: owned_lost)
    apply (rule holds_return, assumption)
    done
qed

text \<open>What calls that are neither signals nor waits keep\<close>

definition stable :: "(capture \<Rightarrow> bool) \<Rightarrow> bool" where
  "stable kept \<longleftrightarrow> (\<forall>s ev. kept s \<longrightarrow> quiet_event ev \<longrightarrow> kept (s\<lparr>k_trace := k_trace s @ [ev]\<rparr>))"

lemma stable_owned: "stable owned"
  by (simp add: stable_def owned_quiet)

lemma stable_probed: "stable (\<lambda>s. quiet_probed s \<and> k_kill_resolved s = b)"
  by (simp add: stable_def quiet_probed_def owned_quiet probed_append)

lemma stable_safe: "stable safe"
  by (auto simp: stable_def safe_def quiet_event_def)

lemma steps_quiet_call:
  assumes "stable kept" "\<And>a. quiet_event (ev a)"
  shows "holds N kept (callC answer ev) (\<lambda>_. kept) (\<lambda>_. kept)"
  using assms by (auto intro!: holds_call simp: stable_def)

lemma steps_clock: "stable kept \<Longrightarrow> holds N kept (clock K) (\<lambda>_. kept) (\<lambda>_. kept)"
  unfolding clock_def by (rule steps_quiet_call) (simp_all add: quiet_event_def)

lemma steps_grace: "stable kept \<Longrightarrow> (\<And>s. kept s \<Longrightarrow> N s) \<Longrightarrow> holds N kept (grace_period K n d) (\<lambda>_. kept) (\<lambda>_. kept)"
proof (induction n)
  case 0 thus ?case by (auto intro!: holds_intro)
next
  case (Suc n)
  have sl: "holds N kept (callC answer (\<lambda>_. Slept)) (\<lambda>_. kept) (\<lambda>_. kept)" for answer :: "gh_event list \<Rightarrow> exn + unit"
    using Suc.prems(1) by (rule steps_quiet_call) (simp add: quiet_event_def)
  show ?case unfolding grace_period.simps
    apply (rule holds_bind [OF steps_clock [OF Suc.prems(1)]])
    apply (rule holds_if)
     apply (rule holds_return, assumption)
    apply (rule holds_bind [OF sl])
    apply (rule Suc.IH [OF Suc.prems])
    apply assumption
    done
qed

lemma steps_stop: "steps owned (stop_process K fuel) (\<lambda>_. owned) lost_or_owned"
proof -
  let ?p = "\<lambda>s. quiet_probed s \<and> k_kill_resolved s = False"
  have tm: "steps ?p (signal_group K False) (\<lambda>_. ?p) (\<lambda>_. ?p)"
    unfolding signal_group_def by (rule holds_call) (auto simp: quiet_probed_def owned_def probed_def may_signal_def)
  have p: "?p s \<Longrightarrow> lost_or_owned e s" "?p s \<Longrightarrow> safe s" for s e
    by (simp_all add: quiet_probed_def owned_lost owned_safe)
  show ?thesis
    unfolding stop_process_def
    apply (rule holds_bind [where mid = "\<lambda>b s. owned s \<and> k_kill_resolved s = b"])
     apply (rule holds_get, simp)
    apply (rule holds_if)
     apply (rule holds_conseq [OF steps_kill]; simp add: killable_def)
    apply (rule holds_bind [where mid = "\<lambda>_. ?p"])
     apply (rule holds_conseq [OF steps_probe [where b = False]]; simp)
    apply (rule holds_bind [where mid = "\<lambda>_. ?p"])
     apply (rule holds_catch [where mid = "\<lambda>_. ?p"])
      apply (rule holds_bind [OF tm])
      apply (rule holds_return, simp)
     apply (rule holds_if)
      apply (rule holds_return, simp)
     apply (rule holds_raise, simp add: p)
    apply (rule holds_bind [where mid = "\<lambda>_. ?p"])
     apply (rule holds_conseq [OF steps_clock [OF stable_probed [where b = False]]]; simp add: p)
    apply (rule holds_bind [where mid = "\<lambda>_. ?p"])
     apply (rule holds_conseq [OF steps_grace [OF stable_probed [where b = False]]]; simp add: p)
    apply (rule holds_conseq [OF steps_kill]; simp add: killable_def quiet_probed_def)
    done
qed

text \<open>What changes of the variables of the capture keep\<close>

definition plain_inv :: "(capture \<Rightarrow> bool) \<Rightarrow> bool" where
  "plain_inv kept \<longleftrightarrow> stable kept
     \<and> (\<forall>s s'. kept s \<longrightarrow> k_trace s' = k_trace s \<longrightarrow> k_kill_resolved s' = k_kill_resolved s \<longrightarrow> kept s')"

lemma plain_owned: "plain_inv owned"
  by (simp add: plain_inv_def stable_owned) (simp add: owned_def)

lemma plain_safe: "plain_inv safe"
  by (simp add: plain_inv_def stable_safe) (simp add: safe_def)

lemma plainD: "plain_inv kept \<Longrightarrow> kept s \<Longrightarrow> k_trace s' = k_trace s \<Longrightarrow> k_kill_resolved s' = k_kill_resolved s \<Longrightarrow> kept s'"
  unfolding plain_inv_def by blast

lemma plain_stable: "plain_inv kept \<Longrightarrow> stable kept"
  by (simp add: plain_inv_def)

lemma steps_set: 
  assumes "plain_inv kept" "\<And>s. k_trace (f s) = k_trace s" "\<And>s. k_kill_resolved (f s) = k_kill_resolved s"
  shows "holds N kept (setC f) (\<lambda>_. kept) E"
  using assms by (auto intro!: holds_set intro: plainD)

lemma steps_close: "plain_inv kept \<Longrightarrow> holds N kept (close_stream K st) (\<lambda>_. kept) (\<lambda>_. kept)"
  unfolding close_stream_def
  apply (rule holds_bind [where mid = "\<lambda>_. kept"])
   apply (rule steps_set; simp)
  apply (rule holds_catch)
   apply (rule steps_quiet_call [OF plain_stable]; simp add: quiet_event_def)
  apply (rule holds_if)
   apply (rule holds_return, assumption)
  apply (rule holds_raise, assumption)
  done

lemma steps_closes: "plain_inv kept \<Longrightarrow> holds N kept (close_streams K sts) (\<lambda>_. kept) (\<lambda>_. kept)"
proof (induction sts)
  case Nil thus ?case by (auto intro!: holds_intro)
next
  case (Cons st sts)
  show ?case unfolding close_streams.simps
    by (rule holds_bind [OF steps_close [OF Cons.prems] Cons.IH [OF Cons.prems]])
qed

lemma keep_chunk_fields [simp]:
  "k_trace (keep_chunk st c s) = k_trace s" "k_kill_resolved (keep_chunk st c s) = k_kill_resolved s"
  "k_code (keep_chunk st c s) = k_code s" "k_open (keep_chunk st c s) = k_open s"
  "k_post_exit (keep_chunk st c s) = k_post_exit s" "k_finalized (keep_chunk st c s) = k_finalized s"
  by (simp_all add: keep_chunk_def Let_def split: stream.split)

lemma steps_read: "plain_inv kept \<Longrightarrow> holds N kept (read_stream K st) (\<lambda>_. kept) (\<lambda>_. kept)"
  unfolding read_stream_def
  apply (rule holds_bind)
   apply (rule steps_quiet_call [OF plain_stable]; simp add: quiet_event_def)
  subgoal for x
    by (auto intro: holds_return steps_close steps_set split: option.split list.split)
  done

lemma steps_reads: "plain_inv kept \<Longrightarrow> holds N kept (read_streams K sts) (\<lambda>_. kept) (\<lambda>_. kept)"
proof (induction sts)
  case Nil thus ?case by (auto intro!: holds_intro)
next
  case (Cons st sts)
  show ?case unfolding read_streams.simps
    by (rule holds_bind [OF steps_read [OF Cons.prems] Cons.IH [OF Cons.prems]])
qed

section \<open>The capture\<close>

lemma owned_weaken:
  "holds N owned m (\<lambda>_. owned) (\<lambda>_. owned) \<Longrightarrow> holds N owned m (\<lambda>_. owned) lost_or_owned"
  by (erule holds_conseq) (simp_all add: owned_lost)

lemma steps_probed: "steps owned (leader_exited K n) (\<lambda>_. quiet_probed) lost_or_owned"
proof (rule holdsI)
  fix s s' assume "owned s" "leader_exited K n s = (None, s')"
  thus "safe s'" using holdsD(1) [OF steps_probe, of s] by blast
next
  fix s e s' assume "owned s" "leader_exited K n s = (Some (Inl e), s')"
  thus "lost_or_owned e s'" using holdsD(2) [OF steps_probe, of s] by blast
next
  fix s x s' assume "owned s" "leader_exited K n s = (Some (Inr x), s')"
  thus "quiet_probed s'" using holdsD(3) [OF steps_probe, of s] by blast
qed

lemma stable_quiet_probed: "stable quiet_probed"
  by (simp add: stable_def quiet_probed_def owned_quiet probed_append)

lemma quiet_probed_owned: "quiet_probed s \<Longrightarrow> owned s"
  by (simp add: quiet_probed_def)

lemmas owned_clock = owned_weaken [OF steps_clock [OF stable_owned]]
lemmas owned_set = steps_set [OF plain_owned]

lemma steps_finish: "steps owned (finish_stopped K fuel) (\<lambda>_. owned) lost_or_owned"
  unfolding finish_stopped_def by (rule holds_bind [OF steps_stop]) (rule owned_set; simp)

lemma steps_time_out: "steps owned (time_out K fuel) (\<lambda>_. owned) lost_or_owned"
  unfolding time_out_def by (rule holds_bind [OF owned_set]; simp add: steps_finish)

lemma steps_watch: "steps owned (watch_leader K fuel d) (\<lambda>_. owned) lost_or_owned"
proof -
  have c: "steps quiet_probed (clock K) (\<lambda>_. quiet_probed) lost_or_owned"
    by (rule holds_conseq [OF steps_clock [OF stable_quiet_probed]]) (auto simp: quiet_probed_owned owned_lost)
  have k: "steps quiet_probed (kill_group_and_reap K) (\<lambda>_. owned) lost_or_owned"
    by (rule holds_conseq [OF steps_kill]) (auto simp: quiet_probed_def killable_def)
  have t: "steps quiet_probed (time_out K fuel) (\<lambda>_. owned) lost_or_owned"
    by (rule holds_conseq [OF steps_time_out]) (auto simp: quiet_probed_owned)
  show ?thesis
    unfolding watch_leader_def
    apply (rule holds_bind [OF owned_clock])
    apply (rule holds_bind [where mid = "\<lambda>_. owned"])
     apply (rule holds_get, assumption)
    apply (rule holds_if, rule holds_return, assumption)
    apply (rule holds_if)
     apply (rule holds_bind [OF steps_time_out], rule holds_return, assumption)
    apply (rule holds_bind [OF steps_probed])
    apply (rule holds_bind [OF c])
    apply (rule holds_if)
     apply (rule holds_bind [OF t], rule holds_return, assumption)
    apply (rule holds_if)
     apply (rule holds_bind [OF k])
     apply (rule holds_bind [OF owned_set]; simp?)
     apply (rule holds_return, assumption)
    apply (rule holds_return, erule quiet_probed_owned)
    done
qed

lemma steps_serve: "steps owned (serve_pipes K fuel d now) (\<lambda>_. owned) lost_or_owned"
proof -
  have sel: "steps owned (callC answer (\<lambda>_. Selected)) (\<lambda>_. owned) lost_or_owned" for answer :: "gh_event list \<Rightarrow> exn + stream list"
    by (rule owned_weaken, rule steps_quiet_call [OF stable_owned]) (simp add: quiet_event_def)
  show ?thesis
    unfolding serve_pipes_def
    apply (rule holds_bind [where mid = "\<lambda>_. owned"], rule holds_get, assumption)
    apply (rule holds_bind [OF sel])
    apply (rule holds_bind [OF owned_weaken [OF steps_reads [OF plain_owned]]])
    apply (rule holds_bind [where mid = "\<lambda>_. owned"], rule holds_get, assumption)
    apply (rule holds_if)
     apply (rule holds_bind [OF steps_finish], rule holds_return, assumption)
    apply (rule holds_bind [OF owned_clock])
    apply (rule holds_bind [where mid = "\<lambda>_. owned"], rule holds_get, assumption)
    apply (rule holds_bind [where mid = "\<lambda>_. owned"])
     apply (rule holds_if)
      apply (rule holds_bind [where mid = "\<lambda>_. owned"], rule holds_get, assumption)
      apply (rule owned_weaken [OF steps_closes [OF plain_owned]])
     apply (rule holds_return, assumption)
    apply (rule holds_return, assumption)
    done
qed

lemma steps_loop: "steps owned (capture_loop K fuel n d) (\<lambda>_. owned) lost_or_owned"
proof (induction n)
  case 0
  show ?case by (auto intro!: holds_intro dest: owned_safe)
next
  case (Suc n)
  have body: "steps owned (bindC (getC (\<lambda>s. k_code s \<noteq> None \<and> k_open s = [])) (\<lambda>drained.
           if drained then returnC ()
           else bindC (serve_pipes K fuel d now) (\<lambda>again.
             if again then capture_loop K fuel n d else returnC ()))) (\<lambda>_. owned) lost_or_owned" for now
    apply (rule holds_bind [where mid = "\<lambda>_. owned"], rule holds_get, assumption)
    apply (rule holds_if, rule holds_return, assumption)
    apply (rule holds_bind [OF steps_serve])
    apply (rule holds_if, rule Suc.IH)
    apply (rule holds_return, assumption)
    done
  show ?case
    unfolding capture_loop.simps
    apply (rule holds_bind [OF steps_watch])
    subgoal for w by (cases w; simp only: option.case; (rule body | rule holds_return, assumption))
    done
qed

lemma steps_body: "steps owned (capture_body K fuel pipes d) (\<lambda>_. owned) lost_or_owned"
proof -
  have p: "steps owned (callC (o_pipes K) (\<lambda>_. Pipes_set)) (\<lambda>_. owned) lost_or_owned"
    by (rule owned_weaken, rule steps_quiet_call [OF stable_owned]) (simp add: quiet_event_def)
  have r: "steps owned capture_result (\<lambda>_. owned) lost_or_owned"
    unfolding capture_result_def
    apply (rule holds_bind [where mid = "\<lambda>_. owned"], rule holds_get, assumption)
    subgoal for c by (cases c) (auto intro!: holds_intro simp: owned_lost)
    done
  show ?thesis
    unfolding capture_body_def
    apply (rule holds_if)
     apply (rule holds_bind [OF steps_stop])
     apply (rule holds_bind [OF owned_set]; simp?)
     apply (rule holds_raise, erule owned_lost)
    apply (rule holds_bind [OF p])
    apply (rule holds_bind [OF owned_set]; simp?)
    apply (rule holds_bind [OF steps_loop r])
    done
qed

lemma lost_or_owned_safe: "lost_or_owned e s \<Longrightarrow> safe s"
  by (simp add: lost_or_owned_def owned_safe split: if_splits)

lemma lost_or_owned_owned: "lost_or_owned e s \<Longrightarrow> e \<noteq> Ownership_lost \<Longrightarrow> owned s"
  by (simp add: lost_or_owned_def)

lemma steps_failed: "steps (lost_or_owned e) (capture_failed K fuel e) (\<lambda>_. safe) (\<lambda>_. safe)"
proof -
  have stop: "steps owned (catchC (bindC (stop_process K fuel) (\<lambda>_. returnC ()))
      (\<lambda>c. raiseC (if c = Ownership_lost then Ownership_lost else Refused ''GitHub API process cleanup failed'')))
      (\<lambda>_. safe) (\<lambda>_. safe)"
    apply (rule holds_catch [where mid = "\<lambda>_. safe"])
     apply (rule holds_bind [where mid = "\<lambda>_. owned"])
      apply (rule holds_conseq [OF steps_stop]; simp add: lost_or_owned_safe)
     apply (rule holds_return, erule owned_safe)
    apply (rule holds_raise, assumption)
    done
  show ?thesis
  proof (cases "e = Ownership_lost")
    case True
    show ?thesis
      unfolding capture_failed_def if_P [OF True]
      apply (rule holds_bind [where mid = "\<lambda>_ s. safe s \<and> k_finalized s"])
       apply (rule holds_set) 
       apply (drule lost_or_owned_safe, simp add: safe_def)
      apply (rule holds_bind [where mid = "\<lambda>f s. safe s \<and> f"])
       apply (rule holds_get, simp)
      apply (rule holds_bind [where mid = "\<lambda>_. safe"])
       apply (rule holds_if)
        apply (rule holds_return, simp)
       apply (simp add: holds_def)
      apply (rule holds_raise, assumption)
      done
  next
    case False
    show ?thesis
      unfolding capture_failed_def if_not_P [OF False]
      apply (rule holds_bind [where mid = "\<lambda>_. owned"])
       apply (rule holds_return, erule lost_or_owned_owned [OF _ False])
      apply (rule holds_bind [where mid = "\<lambda>_. owned"])
       apply (rule holds_get, assumption)
      apply (rule holds_bind [where mid = "\<lambda>_. safe"])
       apply (rule holds_if)
        apply (rule holds_return, erule owned_safe)
       apply (rule stop)
      apply (rule holds_raise, assumption)
      done
  qed
qed

lemma steps_capture: "steps owned (capture_process K fuel pipes) (\<lambda>_. safe) (\<lambda>_. safe)"
  unfolding capture_process_def
  apply (rule holds_bind [where mid = "\<lambda>_. owned"])
   apply (rule holds_conseq [OF steps_clock [OF stable_owned]]; simp add: owned_safe)
  apply (rule holds_end [where ?Q1.0 = "\<lambda>_. safe" and ?E1.0 = "\<lambda>_. safe"])
    apply (rule holds_catch [where mid = lost_or_owned])
     apply (rule holds_conseq [OF steps_body]; simp add: owned_safe)
    apply (rule steps_failed)
   apply (rule steps_closes [OF plain_safe])+
  done

lemma owned_fresh: "owned (fresh_capture [])"
  by (simp add: owned_def fresh_capture_def)


section \<open>Output\<close>

text \<open>What was read from a pipe\<close>

fun received :: "stream \<Rightarrow> gh_event list \<Rightarrow> bytes" where
  "received st [] = []"
| "received st (Chunk_read st' (Some c) # t) = (if st' = st then c else []) @ received st t"
| "received st (_ # t) = received st t"

definition is_read :: "gh_event \<Rightarrow> bool" where
  "is_read ev \<longleftrightarrow> (case ev of Chunk_read _ _ \<Rightarrow> True | _ \<Rightarrow> False)"

lemma received_append [simp]: "received st (t @ u) = received st t @ received st u"
  by (induction st t rule: received.induct) simp_all

lemma received_other [simp]: "\<not> is_read ev \<Longrightarrow> received st [ev] = []"
  by (cases ev) (simp_all add: is_read_def)

definition tally :: "gh_event list \<Rightarrow> bytes \<Rightarrow> bytes \<Rightarrow> bool \<Rightarrow> bool" where
  "tally t out err full \<longleftrightarrow>
     Sublist.prefix out (received Out_pipe t) \<and> Sublist.prefix err (received Err_pipe t)
     \<and> length out + length err = min MAX_API_BYTES (length (received Out_pipe t) + length (received Err_pipe t))
     \<and> (full \<longleftrightarrow> MAX_API_BYTES < length (received Out_pipe t) + length (received Err_pipe t))"

definition tallied :: "capture \<Rightarrow> bool" where
  "tallied s \<longleftrightarrow> tally (k_trace s) (k_stdout s) (k_stderr s) (k_overflow s) \<and> k_captured s = length (k_stdout s) + length (k_stderr s)"

lemma tally_other [simp]: "\<not> is_read ev \<Longrightarrow> tally (t @ [ev]) out err full = tally t out err full"
  by (simp add: tally_def)

lemma tally_none [simp]: "tally (t @ [Chunk_read st None]) out err full = tally t out err full"
  by (simp add: tally_def)

lemma prefix_full:
  "Sublist.prefix a x \<Longrightarrow> Sublist.prefix b y \<Longrightarrow> length x + length y \<le> length a + length b \<Longrightarrow> a = x \<and> b = y"
  by (auto simp: prefix_def)

lemma tally_step:
  fixes c :: bytes
  assumes t: "Sublist.prefix a x" "Sublist.prefix b y" "length a + length b = min m (length x + length y)"
  defines "room \<equiv> m - (length a + length b)"
  shows "Sublist.prefix (a @ take room c) (x @ c)"
    and "length (a @ take room c) + length b = min m (length (x @ c) + length y)"
    and "(m < length x + length y \<or> room < length c) \<longleftrightarrow> m < length (x @ c) + length y"
proof -
  show "Sublist.prefix (a @ take room c) (x @ c)"
  proof (cases "m \<le> length x + length y")
    case True thus ?thesis using t by (auto simp: room_def prefix_def)
  next
    case False
    hence "a = x" using t prefix_full [OF t(1,2)] by simp
    thus ?thesis by (simp add: prefix_def) (metis append_take_drop_id)
  qed
  show "length (a @ take room c) + length b = min m (length (x @ c) + length y)"
    "(m < length x + length y \<or> room < length c) \<longleftrightarrow> m < length (x @ c) + length y"
    using t(3) by (cases c; auto simp: room_def min_def split: if_splits)+
qed

lemma keep_chunk_output:
  defines "room s \<equiv> MAX_API_BYTES - k_captured s"
  shows "k_stdout (keep_chunk st c s) = (if st = Out_pipe then k_stdout s @ take (room s) c else k_stdout s)"
    "k_stderr (keep_chunk st c s) = (if st = Err_pipe then k_stderr s @ take (room s) c else k_stderr s)"
    "k_captured (keep_chunk st c s) = k_captured s + length (take (room s) c)"
    "k_overflow (keep_chunk st c s) = (k_overflow s \<or> room s < length c)"
  by (cases st; simp add: keep_chunk_def Let_def room_def)+

lemma tally_chunk:
  assumes "tallied s"
  shows "tallied (keep_chunk st c (s\<lparr>k_trace := k_trace s @ [Chunk_read st (Some c)]\<rparr>))"
proof -
  let ?x = "received Out_pipe (k_trace s)" and ?y = "received Err_pipe (k_trace s)"
  have p: "Sublist.prefix (k_stdout s) ?x" "Sublist.prefix (k_stderr s) ?y"
    and l: "length (k_stdout s) + length (k_stderr s) = min MAX_API_BYTES (length ?x + length ?y)"
    and v: "k_overflow s = (MAX_API_BYTES < length ?x + length ?y)"
    and n: "k_captured s = length (k_stdout s) + length (k_stderr s)"
    using assms by (simp_all add: tallied_def tally_def)
  have l': "length (k_stderr s) + length (k_stdout s) = min MAX_API_BYTES (length ?y + length ?x)"
    using l by (simp add: add.commute)
  note out = tally_step [OF p l, of c] and err = tally_step [OF p(2,1) l', of c]
  have o: "k_overflow s \<or> MAX_API_BYTES - k_captured s < length c
      \<longleftrightarrow> MAX_API_BYTES < length ?x + length ?y + length c" using out(3) by (simp add: v n ac_simps)
  show ?thesis
  proof (cases st)
    case Out_pipe
    show ?thesis unfolding Out_pipe tallied_def tally_def
      using out(1,2) p o by (simp add: keep_chunk_output n ac_simps)
  next
    case Err_pipe
    show ?thesis unfolding Err_pipe tallied_def tally_def
      using err(1,2) p o by (simp add: keep_chunk_output n ac_simps)
  qed
qed


text \<open>Scripts that keep the tally\<close>

abbreviation throughout :: "(capture \<Rightarrow> bool) \<Rightarrow> (capture \<Rightarrow> bool) \<Rightarrow> 'a cap \<Rightarrow> bool" where
  "throughout N kept m \<equiv> holds N kept m (\<lambda>_. kept) (\<lambda>_. kept)"

abbreviation keeps :: "'a cap \<Rightarrow> bool" where
  "keeps \<equiv> throughout tallied tallied"

named_theorems keeps_intro \<open>scripts that keep an invariant\<close>

lemma keeps_bind [keeps_intro]: "throughout N kept m \<Longrightarrow> (\<And>x. throughout N kept (f x)) \<Longrightarrow> throughout N kept (bindC m f)"
  by (rule holds_bind)

lemma keeps_catch [keeps_intro]: "throughout N kept m \<Longrightarrow> (\<And>e. throughout N kept (h e)) \<Longrightarrow> throughout N kept (catchC m h)"
  by (rule holds_catch)

lemma keeps_simple [keeps_intro]: "throughout N kept (returnC x)" "throughout N kept (raiseC e)" "throughout N kept (getC f)"
  by (auto intro!: holds_intro)

lemma keeps_stuck [keeps_intro]: "throughout kept kept stuckC"
  by (auto intro!: holds_intro)

lemma keeps_if [keeps_intro]: "throughout N kept a \<Longrightarrow> throughout N kept b \<Longrightarrow> throughout N kept (if c then a else b)"
  by simp

lemma keeps_set [keeps_intro]:
  assumes "\<And>s. k_trace (f s) = k_trace s" "\<And>s. k_stdout (f s) = k_stdout s" "\<And>s. k_stderr (f s) = k_stderr s"
    and "\<And>s. k_overflow (f s) = k_overflow s" "\<And>s. k_captured (f s) = k_captured s"
  shows "keeps (setC f)"
  using assms by (auto intro!: holds_set simp: tallied_def)

lemma keeps_call [keeps_intro]: "(\<And>a. \<not> is_read (ev a)) \<Longrightarrow> keeps (callC answer ev)"
  by (rule holds_call) (simp_all add: tallied_def)

lemma keeps_probe [keeps_intro]: "keeps (leader_exited K n)"
proof (induction n)
  case (Suc n) thus ?case
    unfolding leader_exited.simps by (intro keeps_intro) (auto simp: is_read_def intro: keeps_intro split: probe.split)
qed (simp add: keeps_intro)

lemma keeps_kill [keeps_intro]: "keeps (kill_group_and_reap K)"
  unfolding kill_group_and_reap_def resolve_kill_def signal_group_def group_exists_def
  by (intro keeps_intro) (simp_all add: is_read_def)

lemma keeps_grace [keeps_intro]: "keeps (grace_period K n d)"
proof (induction n)
  case (Suc n) thus ?case
    unfolding grace_period.simps clock_def by (intro keeps_intro) (simp_all add: is_read_def)
qed (simp add: keeps_intro)

lemma keeps_stop [keeps_intro]: "keeps (stop_process K fuel)"
  unfolding stop_process_def signal_group_def clock_def by (intro keeps_intro) (simp_all add: is_read_def)

lemma keeps_close [keeps_intro]: "keeps (close_stream K st)"
  unfolding close_stream_def by (intro keeps_intro) (simp_all add: is_read_def)

lemma keeps_closes [keeps_intro]: "keeps (close_streams K sts)"
  by (induction sts) (auto intro: keeps_intro)

lemma keeps_read [keeps_intro]: "keeps (read_stream K st)"
  unfolding read_stream_def
proof (rule holds_bind [where mid = "\<lambda>a s. case a of None \<Rightarrow> tallied s
     | Some c \<Rightarrow> if c = [] then tallied s else tallied (keep_chunk st c s)"])
  show "holds tallied tallied (callC (\<lambda>t. o_read K t st API_READ_CHUNK_BYTES)
        (\<lambda>a. Chunk_read st (case a of Inl _ \<Rightarrow> None | Inr c \<Rightarrow> c)))
      (\<lambda>a s. case a of None \<Rightarrow> tallied s | Some c \<Rightarrow> if c = [] then tallied s else tallied (keep_chunk st c s)) (\<lambda>_. tallied)"
    by (rule holds_call) (auto simp: tally_chunk split: option.split, simp_all add: tallied_def tally_def)
next
  fix a
  show "holds tallied (\<lambda>s. case a of None \<Rightarrow> tallied s | Some c \<Rightarrow> if c = [] then tallied s else tallied (keep_chunk st c s))
      (case a of None \<Rightarrow> returnC () | Some [] \<Rightarrow> close_stream K st | Some (x # xs) \<Rightarrow> setC (keep_chunk st (x # xs)))
      (\<lambda>_. tallied) (\<lambda>_. tallied)"
    by (cases a) (auto intro: keeps_intro holds_set split: list.split)
qed

lemma keeps_reads [keeps_intro]: "keeps (read_streams K sts)"
  by (induction sts) (auto intro: keeps_intro)


lemma keeps_finish [keeps_intro]: "keeps (finish_stopped K fuel)" "keeps (time_out K fuel)"
  unfolding time_out_def finish_stopped_def by (intro keeps_intro; simp)+

lemma keeps_watch [keeps_intro]: "keeps (watch_leader K fuel d)"
  unfolding watch_leader_def clock_def by (intro keeps_intro) (simp_all add: is_read_def)

lemma keeps_serve [keeps_intro]: "keeps (serve_pipes K fuel d now)"
  unfolding serve_pipes_def clock_def by (intro keeps_intro) (simp_all add: is_read_def)

lemma keeps_loop [keeps_intro]: "keeps (capture_loop K fuel n d)"
proof (induction n)
  case (Suc n) thus ?case
    unfolding capture_loop.simps by (intro keeps_intro) (auto intro!: keeps_intro split: option.split)
qed (simp add: keeps_intro)

definition reported :: "captured \<Rightarrow> gh_event list \<Rightarrow> bool" where
  "reported c t \<longleftrightarrow> tally t (cd_stdout c) (cd_stderr c) (cd_overflow c)"

lemma result_reported: "holds tallied tallied capture_result (\<lambda>c s. reported c (k_trace s)) (\<lambda>_. tallied)"
  unfolding capture_result_def
  apply (rule holds_bind [where mid = "\<lambda>_. tallied"], rule holds_get, assumption)
  subgoal for c by (cases c) (auto intro!: holds_intro simp: tallied_def reported_def)
  done

lemma body_reported: "holds tallied tallied (capture_body K fuel pipes d) (\<lambda>c s. reported c (k_trace s)) (\<lambda>_. tallied)"
  unfolding capture_body_def
  apply (rule holds_if)
   apply (rule holds_bind [OF keeps_stop])
   apply (rule holds_bind [where mid = "\<lambda>_. tallied"], rule keeps_set; simp)
   apply (rule holds_raise, assumption)
  apply (rule holds_bind [where mid = "\<lambda>_. tallied"], rule keeps_call, simp add: is_read_def)
  apply (rule holds_bind [where mid = "\<lambda>_. tallied"], rule keeps_set; simp)
  apply (rule holds_bind [OF keeps_loop result_reported])
  done

lemma failed_never_returns: "holds tallied tallied (capture_failed K fuel e) (\<lambda>_ _. False) (\<lambda>_. tallied)"
  unfolding capture_failed_def
  apply (rule holds_bind [where mid = "\<lambda>_. tallied"])
   apply (intro keeps_intro; simp)
  apply (rule holds_bind [where mid = "\<lambda>_. tallied"], rule holds_get, assumption)
  apply (rule holds_bind [where mid = "\<lambda>_. tallied"], intro keeps_intro)
  apply (rule holds_raise, assumption)
  done

lemma closes_reported:
  "holds (\<lambda>_. True) (\<lambda>s. reported c (k_trace s)) (close_streams K sts) (\<lambda>_ s. reported c (k_trace s)) (\<lambda>_ _. True)"
proof (induction sts)
  case Nil thus ?case by (auto intro: holds_intro)
next
  case (Cons st sts)
  have "holds (\<lambda>_. True) (\<lambda>s. reported c (k_trace s)) (close_stream K st) (\<lambda>_ s. reported c (k_trace s)) (\<lambda>_ _. True)"
    unfolding close_stream_def
    apply (rule holds_bind [where mid = "\<lambda>_ s. reported c (k_trace s)"], rule holds_set, simp)
    apply (rule holds_catch [where mid = "\<lambda>_ s. reported c (k_trace s)"], rule holds_call)
      apply (simp_all add: reported_def is_read_def)
    apply (auto intro!: holds_intro)
    done
  thus ?case unfolding close_streams.simps by (rule holds_bind) (rule Cons.IH)
qed

lemma capture_reported:
  "holds (\<lambda>_. True) tallied (capture_process K fuel pipes) (\<lambda>c s. reported c (k_trace s)) (\<lambda>_ _. True)"
  unfolding capture_process_def clock_def
  apply (rule holds_bind [where mid = "\<lambda>_. tallied"])
   apply (rule holds_call; simp add: tallied_def is_read_def)
  apply (rule holds_end [where ?Q1.0 = "\<lambda>c s. reported c (k_trace s)" and ?E1.0 = "\<lambda>_ _. True"])
    apply (rule holds_catch [where mid = "\<lambda>_. tallied"])
     apply (rule holds_stuck_any [OF body_reported])
    apply (rule holds_conseq [OF holds_stuck_any [OF failed_never_returns]]; simp)
   apply (rule closes_reported)
  apply (simp add: holds_def split: prod.split option.split sum.split)
  done

lemma capture_output_of:
  assumes "capture_process K fuel pipes (fresh_capture []) = (Some (Inr c), s)"
  shows "reported c (k_trace s)"
proof -
  have "tallied (fresh_capture [])" by (simp add: tallied_def tally_def fresh_capture_def)
  from holdsD(3) [OF capture_reported this assms] show ?thesis .
qed

section \<open>Termination\<close>

text \<open>
  A pause takes time on a clock that does not go back, and a call is not interrupted for ever.
\<close>

definition pauses :: "gh_event list \<Rightarrow> int" where
  "pauses t = int (length (filter (\<lambda>ev. ev = Slept \<or> ev = Selected) t))"

definition clock_advances :: "kernel \<Rightarrow> bool" where
  "clock_advances K \<longleftrightarrow> (\<forall>t u a b. o_clock K t = Inr a \<longrightarrow> o_clock K (t @ u) = Inr b \<longrightarrow> a + pauses u \<le> b)"

definition interrupts_bounded :: "kernel \<Rightarrow> nat \<Rightarrow> bool" where
  "interrupts_bounded K n \<longleftrightarrow> (\<forall>t. \<exists>k\<le>n. o_probe K (t @ replicate k (Probed Interrupted_call)) \<noteq> Interrupted_call)"

definition clock_from :: "kernel \<Rightarrow> int \<Rightarrow> gh_event list \<Rightarrow> bool" where
  "clock_from K c t \<longleftrightarrow> (\<forall>u b. o_clock K (t @ u) = Inr b \<longrightarrow> c + pauses u \<le> b)"

lemma pauses_simps [simp]: "pauses [] = 0" "pauses (t @ u) = pauses t + pauses u" "0 \<le> pauses t"
  by (simp_all add: pauses_def)

lemma pauses_one [simp]: "pauses [Slept] = 1" "pauses [Selected] = 1" "pauses [Clock_read] = 0"
  by (simp_all add: pauses_def)

lemma clock_from_append: "clock_from K c t \<Longrightarrow> clock_from K (c + pauses u) (t @ u)"
  unfolding clock_from_def
proof (intro allI impI)
  fix v b assume c: "\<forall>u b. o_clock K (t @ u) = Inr b \<longrightarrow> c + pauses u \<le> b" and "o_clock K ((t @ u) @ v) = Inr b"
  thus "c + pauses u + pauses v \<le> b" using c [rule_format, of "u @ v" b] by simp
qed

lemma clock_from_mono: "clock_from K c t \<Longrightarrow> c' \<le> c \<Longrightarrow> clock_from K c' t"
  unfolding clock_from_def by fastforce

lemma clock_from_more: "clock_from K c t \<Longrightarrow> clock_from K c (t @ u)"
  using clock_from_mono [OF clock_from_append [of K c t u], of c] pauses_simps(3) [of u] by simp

lemma clock_from_read:
  assumes "clock_advances K" "o_clock K t = Inr a"
  shows "clock_from K a (t @ [Clock_read])"
proof -
  have "clock_from K a t" using assms by (auto simp: clock_from_def clock_advances_def)
  from clock_from_more [OF this] show ?thesis .
qed

lemma clock_from_le: "clock_from K c t \<Longrightarrow> o_clock K t = Inr a \<Longrightarrow> c \<le> a"
  unfolding clock_from_def by (metis append_Nil2 pauses_simps(1) add.right_neutral)

text \<open>What calls and the variables of the output do not change\<close>

definition robust :: "(capture \<Rightarrow> bool) \<Rightarrow> bool" where
  "robust kept \<longleftrightarrow> (\<forall>s s' u. kept s \<longrightarrow> k_trace s' = k_trace s @ u \<longrightarrow> k_code s' = k_code s
     \<longrightarrow> k_post_exit s' = k_post_exit s \<longrightarrow> (k_open s = [] \<longrightarrow> k_open s' = []) \<longrightarrow> kept s')"

abbreviation ends :: "(capture \<Rightarrow> bool) \<Rightarrow> 'a cap \<Rightarrow> ('a \<Rightarrow> capture \<Rightarrow> bool) \<Rightarrow> bool" where
  "ends P m Q \<equiv> holds (\<lambda>_. False) P m Q (\<lambda>_ _. True)"

lemma holds_fact: "(b \<Longrightarrow> holds N P m Q E) \<Longrightarrow> holds N (\<lambda>s. P s \<and> b) m Q E"
  by (cases b) (simp_all add: holds_def)

lemma ends_conseq: "ends P m Q \<Longrightarrow> (\<And>s. P' s \<Longrightarrow> P s) \<Longrightarrow> (\<And>x s. Q x s \<Longrightarrow> Q' x s) \<Longrightarrow> ends P' m Q'"
  by (rule holds_conseq)

lemma robustD:
  "robust kept \<Longrightarrow> kept s \<Longrightarrow> k_trace s' = k_trace s @ u \<Longrightarrow> k_code s' = k_code s
     \<Longrightarrow> k_post_exit s' = k_post_exit s \<Longrightarrow> (k_open s = [] \<Longrightarrow> k_open s' = []) \<Longrightarrow> kept s'"
  unfolding robust_def by blast

text \<open>Scripts that return or raise and keep such a predicate\<close>

abbreviation goes :: "(capture \<Rightarrow> bool) \<Rightarrow> 'a cap \<Rightarrow> bool" where
  "goes \<equiv> throughout (\<lambda>_. False)"

lemma goes_ends: "goes kept m \<Longrightarrow> ends kept m (\<lambda>_. kept)"
  by (erule holds_conseq) simp_all

lemma goes_call [keeps_intro]: "robust kept \<Longrightarrow> goes kept (callC answer ev)"
  by (rule holds_call) (auto intro: robustD)

lemma goes_set [keeps_intro]:
  assumes "robust kept" "\<And>s. k_trace (f s) = k_trace s" "\<And>s. k_code (f s) = k_code s"
    "\<And>s. k_post_exit (f s) = k_post_exit s" "\<And>s. k_open s = [] \<Longrightarrow> k_open (f s) = []"
  shows "goes kept (setC f)"
  by (rule holds_set) (erule robustD [OF assms(1), where u = "[]"]; simp add: assms)

lemma goes_kill [keeps_intro]: "robust kept \<Longrightarrow> goes kept (kill_group_and_reap K)"
  unfolding kill_group_and_reap_def resolve_kill_def signal_group_def group_exists_def
  by (intro keeps_intro; simp)

lemma goes_close [keeps_intro]: "robust kept \<Longrightarrow> goes kept (close_stream K st)"
  unfolding close_stream_def by (intro keeps_intro; simp)

lemma goes_closes [keeps_intro]: "robust kept \<Longrightarrow> goes kept (close_streams K sts)"
  by (induction sts) (auto intro: keeps_intro)

lemma goes_read [keeps_intro]: "robust kept \<Longrightarrow> goes kept (read_stream K st)"
  unfolding read_stream_def
  by (rule keeps_bind) (auto intro!: keeps_intro split: option.split list.split)

lemma goes_reads [keeps_intro]: "robust kept \<Longrightarrow> goes kept (read_streams K sts)"
  by (induction sts) (auto intro: keeps_intro)

lemma ends_probe:
  assumes "robust kept"
  shows "ends (\<lambda>s. kept s \<and> (\<exists>k<n. o_probe K (k_trace s @ replicate k (Probed Interrupted_call)) \<noteq> Interrupted_call))
           (leader_exited K n) (\<lambda>_. kept)"
proof (induction n)
  case 0 show ?case by (simp add: holds_def)
next
  case (Suc n)
  let ?more = "\<lambda>s. \<exists>k<n. o_probe K (k_trace s @ replicate k (Probed Interrupted_call)) \<noteq> Interrupted_call"
  show ?case unfolding leader_exited.simps
  proof (rule holds_bind [where mid = "\<lambda>a s. kept s \<and> (a = Interrupted_call \<longrightarrow> ?more s)"])
    show "ends (\<lambda>s. kept s \<and> (\<exists>k<Suc n. o_probe K (k_trace s @ replicate k (Probed Interrupted_call)) \<noteq> Interrupted_call))
        (callC (\<lambda>t. Inr (o_probe K t)) (\<lambda>a. Probed (the_answer a))) (\<lambda>a s. kept s \<and> (a = Interrupted_call \<longrightarrow> ?more s))"
    proof (rule holds_call)
      fix s x
      assume s: "kept s \<and> (\<exists>k<Suc n. o_probe K (k_trace s @ replicate k (Probed Interrupted_call)) \<noteq> Interrupted_call)"
        and x: "(Inr (o_probe K (k_trace s)) :: exn + probe) = Inr x"
      have "?more (s\<lparr>k_trace := k_trace s @ [Probed Interrupted_call]\<rparr>)" if "x = Interrupted_call"
      proof -
        obtain k where k: "k < Suc n" "o_probe K (k_trace s @ replicate k (Probed Interrupted_call)) \<noteq> Interrupted_call" using s by blast
        with x that show ?thesis by (cases k) auto
      qed
      thus "kept (s\<lparr>k_trace := k_trace s @ [Probed (the_answer (Inr x))]\<rparr>)
          \<and> (x = Interrupted_call \<longrightarrow> ?more (s\<lparr>k_trace := k_trace s @ [Probed (the_answer (Inr x))]\<rparr>))"
        using s assms by (auto simp: the_answer_def intro: robustD)
    qed simp
  next
    fix a
    show "ends (\<lambda>s. kept s \<and> (a = Interrupted_call \<longrightarrow> ?more s))
        (case a of Running \<Rightarrow> returnC False | Exited \<Rightarrow> returnC True | Interrupted_call \<Rightarrow> leader_exited K n
           | No_child \<Rightarrow> raiseC Ownership_lost | Probe_raises e \<Rightarrow> raiseC e) (\<lambda>_. kept)"
      using Suc by (cases a) (auto intro!: holds_intro)
  qed
qed

lemma ends_probed:
  "robust kept \<Longrightarrow> interrupts_bounded K b \<Longrightarrow> b < n \<Longrightarrow> ends kept (leader_exited K n) (\<lambda>_. kept)"
  by (rule ends_conseq [OF ends_probe]) (auto simp: interrupts_bounded_def intro: le_less_trans)

lemma ends_clock:
  assumes "clock_advances K" "robust kept"
  shows "ends (\<lambda>s. kept s \<and> clock_from K c (k_trace s)) (clock K) (\<lambda>now s. (kept s \<and> clock_from K now (k_trace s)) \<and> c \<le> now)"
  unfolding clock_def
  by (rule holds_call) (use assms in \<open>auto intro: robustD clock_from_read clock_from_le\<close>)

lemma ends_pause:
  assumes "robust kept" "ev = Slept \<or> ev = Selected"
  shows "ends (\<lambda>s. kept s \<and> clock_from K c (k_trace s)) (callC answer (\<lambda>_. ev)) (\<lambda>_ s. kept s \<and> clock_from K (c + 1) (k_trace s))"
proof (rule holds_call; clarsimp)
  fix s assume s: "kept s" "clock_from K c (k_trace s)"
  have "kept (s\<lparr>k_trace := k_trace s @ [ev]\<rparr>)" by (rule robustD [OF assms(1) s(1)]) simp_all
  moreover have "clock_from K (c + 1) (k_trace s @ [ev])"
    using clock_from_append [OF s(2), of "[ev]"] assms(2) by auto
  ultimately show "kept (s\<lparr>k_trace := k_trace s @ [ev]\<rparr>) \<and> clock_from K (c + 1) (k_trace s @ [ev])" ..
qed

lemma ends_grace:
  assumes "clock_advances K" "robust kept" "0 < n" "d - c < int n"
  shows "ends (\<lambda>s. kept s \<and> clock_from K c (k_trace s)) (grace_period K n d) (\<lambda>_. kept)"
  using assms(3,4)
proof (induction n arbitrary: c)
  case (Suc n)
  show ?case unfolding grace_period.simps
    apply (rule holds_bind [OF ends_clock [OF assms(1,2)]])
    apply (rule holds_fact)
    apply (rule holds_if, rule holds_return, simp)
    apply (rule holds_bind [OF ends_pause [OF assms(2)]], simp)
    apply (rule Suc.IH)
    using Suc.prems by simp_all
qed simp

lemma ends_stop:
  assumes K: "clock_advances K" "interrupts_bounded K b" "b < fuel" "TERMINATE_GRACE < int fuel" and r: "robust kept"
  shows "ends kept (stop_process K fuel) (\<lambda>_. kept)"
proof -
  have "ends kept (clock K) (\<lambda>now s. kept s \<and> clock_from K now (k_trace s))"
    unfolding clock_def by (rule holds_call) (use K(1) r in \<open>auto intro: robustD clock_from_read\<close>)
  moreover have "0 < fuel" using K(3) by simp
  ultimately show ?thesis
    unfolding stop_process_def signal_group_def
    apply -
    apply (rule holds_bind [where mid = "\<lambda>_. kept"], rule holds_get, assumption)
    apply (rule holds_if, rule goes_ends [OF goes_kill [OF r]])
    apply (rule holds_bind [OF ends_probed [OF r K(2,3)]])
    apply (rule holds_bind [where mid = "\<lambda>_. kept"])
     apply (rule goes_ends, intro keeps_intro, rule r)
    apply (rule holds_bind, assumption)
    apply (rule holds_bind [OF ends_grace [OF K(1) r]], assumption)
     apply (use K(4) in simp)
    apply (rule goes_ends [OF goes_kill [OF r]])
    done
qed

text \<open>The two phases of the loop, with a lower bound of the clock\<close>

definition running :: "kernel \<Rightarrow> int \<Rightarrow> capture \<Rightarrow> bool" where
  "running K c s \<longleftrightarrow> clock_from K c (k_trace s) \<and> k_code s = None"

definition draining :: "kernel \<Rightarrow> int \<Rightarrow> int \<Rightarrow> capture \<Rightarrow> bool" where
  "draining K c p s \<longleftrightarrow> clock_from K c (k_trace s) \<and> k_code s \<noteq> None \<and> k_post_exit s = Some p"

definition drained :: "capture \<Rightarrow> bool" where
  "drained s \<longleftrightarrow> k_code s \<noteq> None \<and> k_open s = []"

lemma robust_running: "robust (running K c)"
  by (auto simp: robust_def running_def intro: clock_from_more)

lemma robust_draining: "robust (draining K c p)"
  by (auto simp: robust_def draining_def intro: clock_from_more)

lemma robust_drained: "robust drained"
  by (auto simp: robust_def drained_def)

lemma robust_True: "robust (\<lambda>_. True)"
  by (simp add: robust_def)

text \<open>Iterations that are enough\<close>

definition enough :: "kernel \<Rightarrow> int \<Rightarrow> nat \<Rightarrow> capture \<Rightarrow> bool" where
  "enough K d n s \<longleftrightarrow>
     (\<exists>c. running K c s \<and> max 0 (d - c) + POST_EXIT_DRAIN + 3 \<le> int n)
     \<or> (\<exists>c p. draining K c p s \<and> max 0 (p - c) + 2 \<le> int n)
     \<or> (drained s \<and> 1 \<le> n)"

lemma holds_ex:
  assumes "\<And>x. holds N (P x) m Q E" shows "holds N (\<lambda>s. \<exists>x. P x s) m Q E"
  by (rule holdsI; elim exE; use holdsD [OF assms] in blast)

lemma holds_or: "holds N P m Q E \<Longrightarrow> holds N P' m Q E \<Longrightarrow> holds N (\<lambda>s. P s \<or> P' s) m Q E"
  by (auto simp: holds_def)

text \<open>The fuel of the inner loops is enough.\<close>

definition ample :: "kernel \<Rightarrow> nat \<Rightarrow> bool" where
  "ample K fuel \<longleftrightarrow> clock_advances K \<and> TERMINATE_GRACE < int fuel \<and> (\<exists>b<fuel. interrupts_bounded K b)"

lemma ample_stop: "ample K fuel \<Longrightarrow> robust kept \<Longrightarrow> ends kept (stop_process K fuel) (\<lambda>_. kept)"
  by (auto simp: ample_def intro: ends_stop)

lemma ample_probe: "ample K fuel \<Longrightarrow> robust kept \<Longrightarrow> ends kept (leader_exited K fuel) (\<lambda>_. kept)"
  by (auto simp: ample_def intro: ends_probed)

lemma ends_finish: "ample K fuel \<Longrightarrow> ends (\<lambda>_. True) (finish_stopped K fuel) (\<lambda>_ _. True)" 
  unfolding finish_stopped_def by (rule holds_bind [OF ample_stop [OF _ robust_True]]) (auto intro: holds_set)

lemma ends_finish_any: "ample K fuel \<Longrightarrow> ends P (finish_stopped K fuel) (\<lambda>_ _. True)"
  by (rule ends_conseq [OF ends_finish]) simp_all

lemma ends_time_out: "ample K fuel \<Longrightarrow> ends P (time_out K fuel) (\<lambda>_ _. True)"
  unfolding time_out_def by (rule holds_bind [OF holds_set ends_finish_any]) simp_all

lemma ends_watch_running:
  assumes A: "ample K fuel"
  shows "ends (running K c) (watch_leader K fuel d)
     (\<lambda>r s. case r of None \<Rightarrow> True | Some now \<Rightarrow> (running K now s \<or> draining K now (now + POST_EXIT_DRAIN) s) \<and> c \<le> now \<and> now < d)"
proof -
  have adv: "clock_advances K" using A by (simp add: ample_def)
  have kr: "robust (\<lambda>s. k_code s = None)" by (simp add: robust_def)
  have clk: "ends (running K c) (clock K) (\<lambda>now s. running K now s \<and> c \<le> now)" for c
    by (rule ends_conseq [OF ends_clock [OF adv kr]]) (auto simp: running_def)
  show ?thesis
    unfolding watch_leader_def
    apply (rule holds_bind [OF clk])
    apply (rule holds_fact)
    subgoal for now0
    apply (rule holds_bind [where mid = "\<lambda>code s. running K now0 s \<and> code = None"], rule holds_get, simp add: running_def)
    apply (rule holds_fact)
    apply (rule holds_if, simp)
    apply (rule holds_if)
     apply (rule holds_bind [OF ends_time_out [OF A]], rule holds_return, simp)
    apply (rule holds_bind [OF ample_probe [OF A robust_running]])
    apply (rule holds_bind [OF clk])
    apply (rule holds_fact)
    apply (rule holds_if)
     apply (rule holds_bind [OF ends_time_out [OF A]], rule holds_return, simp)
    apply (rule holds_if)
     apply (rule holds_bind [OF goes_ends [OF goes_kill [OF robust_running]]])
     subgoal for _ _ now'
       apply (rule holds_bind [where mid = "\<lambda>_. draining K now' (now' + POST_EXIT_DRAIN)"], rule holds_set)
        apply (simp add: running_def draining_def)
       apply (rule holds_return, simp)
       done
    apply (rule holds_return, simp)
    done
    done
qed

lemma ends_watch_code:
  assumes A: "ample K fuel"
  shows "ends (draining K c p) (watch_leader K fuel d) (\<lambda>r s. case r of None \<Rightarrow> False | Some now \<Rightarrow> draining K now p s \<and> c \<le> now)"
    and "ends drained (watch_leader K fuel d) (\<lambda>r s. case r of None \<Rightarrow> False | Some now \<Rightarrow> drained s)"
proof -
  have adv: "clock_advances K" using A by (simp add: ample_def)
  have kr: "robust (\<lambda>s. k_code s \<noteq> None \<and> k_post_exit s = Some p)" by (simp add: robust_def)
  have clk: "ends (draining K c p) (clock K) (\<lambda>now s. draining K now p s \<and> c \<le> now)" for c
    by (rule ends_conseq [OF ends_clock [OF adv kr]]) (auto simp: draining_def)
  show "ends (draining K c p) (watch_leader K fuel d) (\<lambda>r s. case r of None \<Rightarrow> False | Some now \<Rightarrow> draining K now p s \<and> c \<le> now)"
    unfolding watch_leader_def
    apply (rule holds_bind [OF clk])
    subgoal for now
      apply (rule holds_bind [where mid = "\<lambda>code s. (draining K now p s \<and> c \<le> now) \<and> code \<noteq> None"], rule holds_get, simp add: draining_def)
      apply (rule holds_fact)
      apply (rule holds_if)
       apply (rule holds_return, simp)
      apply simp
      done
    done
  show "ends drained (watch_leader K fuel d) (\<lambda>r s. case r of None \<Rightarrow> False | Some now \<Rightarrow> drained s)"
    unfolding watch_leader_def clock_def
    apply (rule holds_bind [OF goes_ends [OF goes_call [OF robust_drained]]])
    apply (rule holds_bind [where mid = "\<lambda>code s. drained s \<and> code \<noteq> None"], rule holds_get, simp add: drained_def)
    apply (rule holds_fact)
    apply (rule holds_if)
     apply (rule holds_return, simp)
    apply simp
    done
qed

lemma closes_drained:
  "ends (\<lambda>s. k_code s \<noteq> None \<and> set (k_open s) \<subseteq> set sts) (close_streams K sts) (\<lambda>_. drained)"
proof (induction sts)
  case Nil show ?case by (auto intro!: holds_intro simp: drained_def)
next
  case (Cons st sts)
  have "ends (\<lambda>s. k_code s \<noteq> None \<and> set (k_open s) \<subseteq> set (st # sts)) (close_stream K st)
      (\<lambda>_ s. k_code s \<noteq> None \<and> set (k_open s) \<subseteq> set sts)"
    unfolding close_stream_def
    apply (rule holds_bind [where mid = "\<lambda>_ s. k_code s \<noteq> None \<and> set (k_open s) \<subseteq> set sts"], rule holds_set)
     apply auto[1]
    apply (rule holds_catch [where mid = "\<lambda>_ s. k_code s \<noteq> None \<and> set (k_open s) \<subseteq> set sts"])
     apply (rule holds_call; simp)
    apply (rule holds_if; auto intro: holds_intro)
    done
  thus ?case unfolding close_streams.simps by (rule holds_bind) (rule Cons.IH)
qed

lemma ends_serve_running:
  assumes A: "ample K fuel"
  shows "ends (running K c) (serve_pipes K fuel d now) (\<lambda>again s. again \<longrightarrow> running K (c + 1) s)"
proof -
  have kr: "robust (\<lambda>s. k_code s = None)" by (simp add: robust_def)
  have sel: "ends (running K c) (callC answer (\<lambda>_. Selected)) (\<lambda>_. running K (c + 1))" for answer :: "gh_event list \<Rightarrow> exn + stream list"
    by (rule ends_conseq [OF ends_pause [OF kr]]) (auto simp: running_def)
  show ?thesis
    unfolding serve_pipes_def clock_def
    apply (rule holds_bind [where mid = "\<lambda>_. running K c"], rule holds_get, assumption)
    apply (rule holds_bind [OF sel])
    apply (rule holds_bind [OF goes_ends [OF goes_reads [OF robust_running]]])
    apply (rule holds_bind [where mid = "\<lambda>_. running K (c + 1)"], rule holds_get, assumption)
    apply (rule holds_if)
     apply (rule holds_bind [OF ends_finish_any [OF A]], rule holds_return, simp)
    apply (rule holds_bind [OF goes_ends [OF goes_call [OF robust_running]]])
    apply (rule holds_bind [where mid = "\<lambda>_. running K (c + 1)"], rule holds_get, assumption)
    apply (rule holds_bind [where mid = "\<lambda>_. running K (c + 1)"])
     apply (rule goes_ends, intro keeps_intro; rule robust_running)
    apply (rule holds_return, simp)
    done
qed

lemma ends_serve_draining:
  assumes A: "ample K fuel"
  shows "ends (draining K c p) (serve_pipes K fuel d now)
     (\<lambda>again s. again \<longrightarrow> drained s \<or> (\<exists>c'. draining K c' p s \<and> c + 1 \<le> c' \<and> c' < p))"
proof -
  have adv: "clock_advances K" using A by (simp add: ample_def)
  have kr: "robust (\<lambda>s. k_code s \<noteq> None \<and> k_post_exit s = Some p)" by (simp add: robust_def)
  have clk: "ends (draining K c p) (clock K) (\<lambda>now s. draining K now p s \<and> c \<le> now)" for c
    by (rule ends_conseq [OF ends_clock [OF adv kr]]) (auto simp: draining_def)
  have sel: "ends (draining K c p) (callC answer (\<lambda>_. Selected)) (\<lambda>_. draining K (c + 1) p)" for answer :: "gh_event list \<Rightarrow> exn + stream list"
    by (rule ends_conseq [OF ends_pause [OF kr]]) (auto simp: draining_def)
  have cl: "ends (draining K c p) (bindC (getC k_open) (close_streams K)) (\<lambda>_. drained)" for c
    apply (rule holds_bind [where mid = "\<lambda>sts s. k_code s \<noteq> None \<and> set (k_open s) \<subseteq> set sts"])
     apply (rule holds_get, simp add: draining_def)
    apply (rule closes_drained)
    done
  show ?thesis
    unfolding serve_pipes_def
    apply (rule holds_bind [where mid = "\<lambda>_. draining K c p"], rule holds_get, assumption)
    apply (rule holds_bind [OF sel])
    apply (rule holds_bind [OF goes_ends [OF goes_reads [OF robust_draining]]])
    apply (rule holds_bind [where mid = "\<lambda>_. draining K (c + 1) p"], rule holds_get, assumption)
    apply (rule holds_if)
     apply (rule holds_bind [OF ends_finish_any [OF A]], rule holds_return, simp)
    apply (rule holds_bind [OF clk])
    apply (rule holds_fact)
    subgoal for _ _ _ _ now2
      apply (rule holds_bind [where mid = "\<lambda>e s. draining K now2 p s \<and> (\<not> e \<longrightarrow> now2 < p \<or> drained s)"])
       apply (rule holds_get, auto simp: draining_def drain_expired_def drained_def)[1]
      apply (rule holds_bind [where mid = "\<lambda>_ s. drained s \<or> (draining K now2 p s \<and> now2 < p)"])
       apply (rule holds_if)
        apply (rule ends_conseq [OF cl]; simp)
       apply (rule holds_return, blast)
      apply (rule holds_return, blast)
      done
    done
qed

lemma ends_rest:
  assumes "ends P (serve_pipes K fuel d now) (\<lambda>again s. again \<longrightarrow> enough K d n s)"
    and "ends (enough K d n) (capture_loop K fuel n d) (\<lambda>_ _. True)"
  shows "ends P (bindC (getC (\<lambda>s. k_code s \<noteq> None \<and> k_open s = [])) (\<lambda>dr.
      if dr then returnC () else bindC (serve_pipes K fuel d now) (\<lambda>again.
        if again then capture_loop K fuel n d else returnC ()))) (\<lambda>_ _. True)"
  apply (rule holds_bind [where mid = "\<lambda>_. P"], rule holds_get, assumption)
  apply (rule holds_if, rule holds_return, simp)
  apply (rule holds_bind [OF assms(1)])
  apply (rule holds_if)
   apply (rule ends_conseq [OF assms(2)]; simp)
  apply (rule holds_return, simp)
  done

lemma ends_loop:
  assumes A: "ample K fuel"
  shows "ends (enough K d n) (capture_loop K fuel n d) (\<lambda>_ _. True)"
proof (induction n)
  case 0
  show ?case by (auto simp: holds_def enough_def POST_EXIT_DRAIN_def)
next
  case (Suc n)
  note rest = ends_rest [OF _ Suc.IH]
  have run: "ends (running K c) (capture_loop K fuel (Suc n) d) (\<lambda>_ _. True)"
    if b: "max 0 (d - c) + POST_EXIT_DRAIN + 3 \<le> int (Suc n)" for c
    unfolding capture_loop.simps
    apply (rule holds_bind [OF ends_watch_running [OF A]])
    subgoal for w
      apply (cases w; simp only: option.case)
       apply (rule holds_return, simp)
      apply (rule holds_fact)
      apply (rule holds_or)
       apply (rule rest, rule ends_conseq [OF ends_serve_running [OF A]], assumption)
       apply (use b in \<open>fastforce simp: enough_def max_def split: if_splits\<close>)
      apply (rule rest, rule ends_conseq [OF ends_serve_draining [OF A]], assumption)
      apply (use b in \<open>fastforce simp: enough_def max_def POST_EXIT_DRAIN_def split: if_splits\<close>)
      done
    done
  have dr: "ends (draining K c p) (capture_loop K fuel (Suc n) d) (\<lambda>_ _. True)"
    if b: "max 0 (p - c) + 2 \<le> int (Suc n)" for c p
    unfolding capture_loop.simps
    apply (rule holds_bind [OF ends_watch_code(1) [OF A]])
    subgoal for w
      apply (cases w; simp only: option.case)
       apply (simp add: holds_def)
      apply (rule holds_fact)
      apply (rule rest, rule ends_conseq [OF ends_serve_draining [OF A]], assumption)
      apply (use b in \<open>fastforce simp: enough_def max_def split: if_splits\<close>)
      done
    done
  have dd: "ends drained (capture_loop K fuel (Suc n) d) (\<lambda>_ _. True)"
    unfolding capture_loop.simps
    apply (rule holds_bind [OF ends_watch_code(2) [OF A]])
    subgoal for w
      apply (cases w; simp only: option.case)
       apply (simp add: holds_def)
      apply (rule holds_bind [where mid = "\<lambda>x _. x"], rule holds_get, simp add: drained_def)
      apply (rule holds_if, rule holds_return, simp)
      apply (simp add: holds_def)
      done
    done
  show ?case
    unfolding enough_def
    apply (intro holds_or)
    apply (intro holds_ex holds_fact run, assumption)
     apply (intro holds_ex holds_fact dr, assumption)
    apply (rule holds_fact, rule dd)
    done
qed


lemma ends_body:
  assumes A: "ample K fuel" and f: "max 0 (d - c) + POST_EXIT_DRAIN + 3 \<le> int fuel"
  shows "ends (running K c) (capture_body K fuel pipes d) (\<lambda>_ _. True)"
proof -
  have r: "ends (\<lambda>_. True) capture_result (\<lambda>_ _. True)"
    unfolding capture_result_def
    apply (rule holds_bind [where mid = "\<lambda>_ _. True"], rule holds_get, assumption)
    subgoal for x by (cases x) (auto intro!: holds_intro)
    done
  show ?thesis
    unfolding capture_body_def
    apply (rule holds_if)
     apply (rule holds_bind [OF ample_stop [OF A robust_running]])
     apply (rule holds_bind [where mid = "\<lambda>_ _. True"], rule holds_set, simp)
     apply (rule holds_raise, simp)
    apply (rule holds_bind [OF goes_ends [OF goes_call [OF robust_running]]])
    apply (rule holds_bind [where mid = "\<lambda>_. running K c"], rule holds_set, simp add: running_def)
    apply (rule holds_bind [where mid = "\<lambda>_ _. True"])
     apply (rule ends_conseq [OF ends_loop [OF A]])
      apply (use f in \<open>auto simp: enough_def\<close>)[1]
     apply simp
    apply (rule r)
    done
qed

lemma ends_failed: "ample K fuel \<Longrightarrow> ends (\<lambda>_. True) (capture_failed K fuel e) (\<lambda>_ _. True)"
  unfolding capture_failed_def
  apply (rule holds_bind [where mid = "\<lambda>_ _. True"])
   apply (rule holds_if; auto intro: holds_intro)
  apply (rule holds_bind [where mid = "\<lambda>_ _. True"], rule holds_get, simp)
  apply (rule holds_bind [where mid = "\<lambda>_ _. True"])
   apply (rule holds_if, rule holds_return, simp)
   apply (rule holds_catch [where mid = "\<lambda>_ _. True"])
    apply (rule holds_bind [OF ample_stop [OF _ robust_True]], assumption)
    apply (rule holds_return, simp)
   apply (rule holds_raise, simp)
  apply (rule holds_raise, simp)
  done

section \<open>Properties\<close>

text \<open>C6. No signal is sent to the process group unless the leader has been found unreaped before, and none
  after a wait or after the leader was found reaped by somebody else: for every behaviour of the operating
  system, asynchronous exceptions at any call included.\<close>

lemma capture_signals_safe: "signals_safe (k_trace (snd (capture_process K fuel pipes (fresh_capture []))))"
proof -
  obtain r s where r: "capture_process K fuel pipes (fresh_capture []) = (r, s)" by fastforce
  have "safe s"
  proof (cases r)
    case None thus ?thesis using holdsD(1) [OF steps_capture owned_fresh] r by blast
  next
    case (Some a) thus ?thesis using holdsD(2,3) [OF steps_capture owned_fresh] r by (cases a) blast+
  qed
  thus ?thesis by (simp add: r safe_def)
qed


text \<open>C23. A capture that returns holds the octets that were read from the two pipes, in order and up to the
  common limit; it is marked as overflowed exactly when more was read than the limit admits.\<close>

lemma capture_output:
  assumes "capture_process K fuel pipes (fresh_capture []) = (Some (Inr c), s)"
  defines "out \<equiv> received Out_pipe (k_trace s)" and "err \<equiv> received Err_pipe (k_trace s)"
  shows "Sublist.prefix (cd_stdout c) out \<and> Sublist.prefix (cd_stderr c) err
    \<and> length (cd_stdout c) + length (cd_stderr c) = min MAX_API_BYTES (length out + length err)
    \<and> (cd_overflow c \<longleftrightarrow> MAX_API_BYTES < length out + length err)"
  using capture_output_of [OF assms(1)] by (simp add: reported_def tally_def out_def err_def)

text \<open>C22. On a clock on which every pause takes time, and with calls that are not interrupted for ever, the capture
  ends: the iterations that the deadlines admit are enough.\<close>

lemma capture_ends:
  assumes A: "ample K fuel" and f: "PROCESS_TIMEOUT + POST_EXIT_DRAIN + 3 \<le> int fuel"
  shows "fst (capture_process K fuel pipes (fresh_capture [])) \<noteq> None"
proof -
  have adv: "clock_advances K" using A by (simp add: ample_def)
  have "ends (\<lambda>s. k_code s = None) (capture_process K fuel pipes) (\<lambda>_ _. True)"
    unfolding capture_process_def clock_def
    apply (rule holds_bind [where mid = "running K"])
     apply (rule holds_call; use adv in \<open>auto simp: running_def intro: clock_from_read\<close>)
    apply (rule holds_end [where ?Q1.0 = "\<lambda>_ _. True" and ?E1.0 = "\<lambda>_ _. True"])
      apply (rule holds_catch [where mid = "\<lambda>_ _. True"])
       apply (rule ends_body [OF A])
       apply (use f in \<open>simp add: PROCESS_TIMEOUT_def\<close>)
      apply (rule ends_failed [OF A])
     apply (rule goes_ends [OF goes_closes [OF robust_True]])
    apply (rule goes_ends [OF goes_closes [OF robust_True]])
    done
  from holdsD(1) [OF this, of "fresh_capture []"] show ?thesis
    by (cases "capture_process K fuel pipes (fresh_capture [])") (auto simp: fresh_capture_def)
qed


section \<open>Examples\<close>

text \<open>A process that writes an empty array and exits with code zero\<close>

definition empty_array :: bytes where "empty_array = ''[]''"

definition quick_gh :: kernel where
  "quick_gh =
     \<lparr>o_clock = \<lambda>t. Inr (int (length t)), o_probe = \<lambda>_. Exited, o_signal = \<lambda>_ _. Inr True, o_group = \<lambda>_. Inr False,
      o_wait = \<lambda>_. Inr 0, o_sleep = \<lambda>_ _. Inr (), o_pipes = \<lambda>_. Inr (),
      o_select = \<lambda>t _. Inr (if Closed Err_pipe \<in> set t then [Out_pipe] else [Out_pipe, Err_pipe]),
      o_read = \<lambda>t st _. Inr (Some (if st = Out_pipe \<and> Chunk_read Out_pipe (Some empty_array) \<notin> set t then empty_array else [])),
      o_close = \<lambda>_ _. Inr ()\<rparr>"

abbreviation quick_fuel :: nat where "quick_fuel \<equiv> Suc (Suc (Suc (Suc 0)))"

lemmas script_defs = bindC_def catchC_def endC_def callC_def getC_def setC_def returnC_def raiseC_def Let_def

lemmas capture_defs = capture_process_def capture_body_def clock_def watch_leader_def serve_pipes_def capture_result_def
  kill_group_and_reap_def resolve_kill_def signal_group_def group_exists_def read_stream_def close_stream_def
  keep_chunk_def select_timeout_def drain_expired_def the_answer_def fresh_capture_def
  MAX_API_BYTES_def PROCESS_TIMEOUT_def POST_EXIT_DRAIN_def PROCESS_POLL_def API_READ_CHUNK_BYTES_def

lemma quick_capture:
  "fst (capture_process quick_gh quick_fuel [Out_pipe, Err_pipe] (fresh_capture [])) = Some (Inr
     \<lparr>cd_code = 0, cd_stdout = empty_array, cd_stderr = [], cd_overflow = False, cd_timed_out = False\<rparr>)"
  by (simp add: quick_gh_def empty_array_def script_defs capture_defs)

lemma capture_output_witness:
  "Sublist.prefix empty_array (received Out_pipe (k_trace (snd (capture_process quick_gh quick_fuel [Out_pipe, Err_pipe] (fresh_capture [])))))"
proof -
  let ?c = "\<lparr>cd_code = 0, cd_stdout = empty_array, cd_stderr = [], cd_overflow = False, cd_timed_out = False\<rparr>"
  have "capture_process quick_gh quick_fuel [Out_pipe, Err_pipe] (fresh_capture []) = (Some (Inr ?c),
      snd (capture_process quick_gh quick_fuel [Out_pipe, Err_pipe] (fresh_capture [])))"
    using quick_capture by (metis prod.collapse)
  from capture_output [OF this] show ?thesis by simp
qed

lemma quick_advances: "clock_advances quick_gh"
  unfolding clock_advances_def
proof (intro allI impI)
  fix t u a b assume "o_clock quick_gh t = Inr a" "o_clock quick_gh (t @ u) = Inr b"
  moreover have "length (filter (\<lambda>ev. ev = Slept \<or> ev = Selected) u) \<le> length u" by (rule length_filter_le)
  ultimately show "a + pauses u \<le> b" by (auto simp: quick_gh_def pauses_def)
qed

lemma quick_ample: "ample quick_gh 91000000003"
proof -
  have "interrupts_bounded quick_gh 0" by (simp add: interrupts_bounded_def quick_gh_def)
  thus ?thesis unfolding ample_def using quick_advances by (intro conjI exI [of _ 0]) (auto simp: TERMINATE_GRACE_def)
qed

lemma capture_ends_witness: "fst (capture_process quick_gh 91000000003 [Out_pipe, Err_pipe] (fresh_capture [])) \<noteq> None"
  by (rule capture_ends [OF quick_ample]) (simp add: PROCESS_TIMEOUT_def POST_EXIT_DRAIN_def)


end
