(* ===== verification/Bundle_Scan.thy ===== *)
theory Bundle_Scan
  imports Py_Text Py_Regex Sha256 Py_Json
begin

text \<open>
  The content checks of the audit of the sing-box source bundle
  (\<open>scripts/audit_singbox_source_bundle.py\<close>): the constants, the two scanners that work a byte or a
  line at a time (\<open>IntelHexScanner\<close>, \<open>PdfObjectScanner\<close>), the searches for forbidden names and
  for paths of a local host, the magic numbers, and \<open>scan_member_payload\<close>, which reads a member of
  the archive in pieces and runs all of them with bounded memory.

  A stream is read through an operation \<open>read n p\<close>, which gives the bytes read and the stream after
  the call; a state of a scanner is a record of the attributes of its class.
\<close>

section \<open>Constants\<close>

definition FORBIDDEN_SUFFIXES :: "string list" where
  "FORBIDDEN_SUFFIXES =
    [''.plugin'', ''.dex'', ''.jar'', ''.apk'', ''.aar'', ''.class'', ''.so'',
     ''.dylib'', ''.dll'', ''.exe'', ''.syso'',
     ''.o'', ''.obj'', ''.a'', ''.lib'', ''.lo'', ''.la'', ''.wasm'', ''.node'',
     ''.pyc'', ''.pyo'', ''.whl'', ''.deb'', ''.rpm'', ''.msi'', ''.cab'', ''.pkg'',
     ''.zip'', ''.tar'', ''.tgz'', ''.gz'', ''.bz2'', ''.xz'', ''.zst'', ''.7z'',
     ''.rar'', ''.war'', ''.ear'', ''.ipa'', ''.pdf'', ''.bin'', ''.img'', ''.iso'',
     ''.dmg'', ''.hex'', ''.ihex'', ''.srec'', ''.s19'', ''.s28'', ''.s37'', ''.uf2'']"

definition FORBIDDEN_BYTES :: "bytes list" where
  "FORBIDDEN_BYTES =
    [''TMessages'' @ ''Proj'', ''com'' @ ''.exteragram'', ''org'' @ ''.telegram'',
     ''com'' @ ''/exteragram'', ''org'' @ ''/telegram'']"

definition FORBIDDEN_PATH_PARTS :: "string list list" where
  "FORBIDDEN_PATH_PARTS = [[''com'', ''exteragram''], [''org'', ''telegram'']]"

definition FORBIDDEN_DOTTED_PATH_PARTS :: "string list" where
  "FORBIDDEN_DOTTED_PATH_PARTS = [''com'' @ ''.exteragram'', ''org'' @ ''.telegram'']"

definition FORBIDDEN_SOURCE_TREE_PARTS :: "string list" where
  "FORBIDDEN_SOURCE_TREE_PARTS = [''tmessagesproj'']"

definition MAX_BUNDLE_BYTES :: nat where "MAX_BUNDLE_BYTES = 512 * 1024 * 1024"
definition MAX_MEMBER_BYTES :: nat where "MAX_MEMBER_BYTES = 64 * 1024 * 1024"
definition MAX_EXPANDED_BYTES :: nat where "MAX_EXPANDED_BYTES = 512 * 1024 * 1024"
definition MAX_TAR_STREAM_BYTES :: nat where
  "MAX_TAR_STREAM_BYTES = MAX_EXPANDED_BYTES + 128 * 1024 * 1024"
definition MAX_ARCHIVE_FILES :: nat where "MAX_ARCHIVE_FILES = 50000"
definition MAX_ARCHIVE_DIRECTORIES :: nat where "MAX_ARCHIVE_DIRECTORIES = 50000"
definition MAX_MEMBERS :: nat where "MAX_MEMBERS = MAX_ARCHIVE_FILES + MAX_ARCHIVE_DIRECTORIES"
definition MAX_FAILURES :: nat where "MAX_FAILURES = 100"
definition MAX_FAILURE_BYTES :: nat where "MAX_FAILURE_BYTES = 1024"
definition MAX_MEMBER_NAME_BYTES :: nat where "MAX_MEMBER_NAME_BYTES = 4096"
definition MAX_RETAINED_NAME_BYTES :: nat where "MAX_RETAINED_NAME_BYTES = 16 * 1024 * 1024"
definition MAX_PAX_BYTES :: nat where "MAX_PAX_BYTES = 8192"
definition MAX_ALLOWED_BINARY_BYTES :: nat where "MAX_ALLOWED_BINARY_BYTES = 1024 * 1024"
definition GZIP_INPUT_BYTES :: nat where "GZIP_INPUT_BYTES = 64 * 1024"
definition GZIP_OUTPUT_BYTES :: nat where "GZIP_OUTPUT_BYTES = 64 * 1024"
definition CONTENT_READ_BYTES :: nat where "CONTENT_READ_BYTES = 64 * 1024"
definition CONTENT_SCAN_OVERLAP_BYTES :: nat where "CONTENT_SCAN_OVERLAP_BYTES = 256"
definition PDF_HEADER_WINDOW_BYTES :: nat where "PDF_HEADER_WINDOW_BYTES = 1024"
definition PDF_TRAILER_WINDOW_BYTES :: nat where "PDF_TRAILER_WINDOW_BYTES = 1024"
definition PDF_HEADER_BYTES :: nat where "PDF_HEADER_BYTES = length ''%PDF-1.0''"
definition MAGIC_PROBE_BYTES :: nat where
  "MAGIC_PROBE_BYTES = max 263 (PDF_HEADER_WINDOW_BYTES + PDF_HEADER_BYTES - 1)"
definition MAX_INTEL_HEX_LINE_BYTES :: nat where "MAX_INTEL_HEX_LINE_BYTES = 1024"

definition GIT_LFS_POINTER_HEADER :: bytes where
  "GIT_LFS_POINTER_HEADER = ''version https://git-lfs.github.com/spec/v1''"

definition octets :: "nat list \<Rightarrow> bytes" where
  "octets = map char_of"

definition BINARY_MAGICS :: "bytes list" where
  "BINARY_MAGICS =
    [octets [0x7f] @ ''ELF'', ''MZ'',
     octets [0xfe, 0xed, 0xfa, 0xce], octets [0xce, 0xfa, 0xed, 0xfe],
     octets [0xfe, 0xed, 0xfa, 0xcf], octets [0xcf, 0xfa, 0xed, 0xfe],
     octets [0xca, 0xfe, 0xba, 0xbe], octets [0xbe, 0xba, 0xfe, 0xca],
     octets [0xca, 0xfe, 0xba, 0xbf], octets [0xbf, 0xba, 0xfe, 0xca],
     ''!<arch>'' @ octets [10], octets [0] @ ''asm'',
     ''PK'' @ octets [3, 4], ''PK'' @ octets [5, 6], ''PK'' @ octets [7, 8],
     octets [0x1f, 0x8b], ''BZh'', octets [0xfd] @ ''7zXZ'' @ octets [0],
     octets [0x28, 0xb5, 0x2f, 0xfd], ''7z'' @ octets [0xbc, 0xaf, 0x27, 0x1c],
     ''Rar!'' @ octets [0x1a, 0x07, 0x00], ''Rar!'' @ octets [0x1a, 0x07, 0x01, 0x00],
     ''dex'' @ octets [10]]"

definition PDF_WHITESPACE :: bytes where
  "PDF_WHITESPACE = [CHR 0x00, CHR 0x09, CHR 0x0A, CHR 0x0C, CHR 0x0D, CHR 0x20]"

definition PDF_DELIMITERS :: bytes where "PDF_DELIMITERS = ''()<>[]{}/%''"

definition UTF8_BOM :: bytes where "UTF8_BOM = [CHR 0xEF, CHR 0xBB, CHR 0xBF]"

definition CR :: char where "CR = CHR 0x0D"
definition LF :: char where "LF = CHR 0x0A"

section \<open>Bytes\<close>

text \<open>\<open>b.lower()\<close>, which maps the ASCII letters only, and \<open>needle in data\<close>.\<close>

definition lower_byte :: "char \<Rightarrow> char" where
  "lower_byte c = (if 65 \<le> byte_val c \<and> byte_val c \<le> 90 then char_of (byte_val c + 32) else c)"

definition lower :: "bytes \<Rightarrow> bytes" where
  "lower = map lower_byte"

fun occurs :: "bytes \<Rightarrow> bytes \<Rightarrow> bool" where
  "occurs needle [] \<longleftrightarrow> needle = []"
| "occurs needle (c # s) \<longleftrightarrow> startswith (c # s) needle \<or> occurs needle s"

text \<open>\<open>b.strip(cs)\<close>\<close>

definition strip_set :: "bytes \<Rightarrow> bytes \<Rightarrow> bytes" where
  "strip_set cs b =
     rev (dropWhile (\<lambda>c. c \<in> set cs) (rev (dropWhile (\<lambda>c. c \<in> set cs) b)))"

text \<open>\<open>b[-n:]\<close>\<close>

definition last_bytes :: "nat \<Rightarrow> bytes \<Rightarrow> bytes" where
  "last_bytes n b = drop (length b - n) b"

text \<open>The word characters of a pattern over bytes.\<close>

definition word_char :: "char \<Rightarrow> bool" where
  "word_char c \<longleftrightarrow> (65 \<le> byte_val c \<and> byte_val c \<le> 90) \<or> (97 \<le> byte_val c \<and> byte_val c \<le> 122)
     \<or> (48 \<le> byte_val c \<and> byte_val c \<le> 57) \<or> c = CHR ''_''"

section \<open>Paths of a local host\<close>

text \<open>
  The four patterns of \<open>HOME_PATHS\<close>, each as a test of the data from the place where the match
  starts; all begin with \<open>(?<![A-Za-z0-9_])\<close>, which looks at the byte before that place. After a
  word character, \<open>\b\<close> asks for the end or for a byte that is no word character.
\<close>

definition word_ends :: "bytes \<Rightarrow> bool" where
  "word_ends s \<longleftrightarrow> (case s of [] \<Rightarrow> True | c # _ \<Rightarrow> c = CHR ''/'' \<or> \<not> word_char c)"

definition host_unix :: "bytes \<Rightarrow> bool" where
  "host_unix s \<longleftrightarrow> startswith s ''/home/'' \<or> startswith s ''/root/''"

definition host_macos :: "bytes \<Rightarrow> bool" where
  "host_macos s \<longleftrightarrow> startswith s (''/'' @ ''Users'' @ ''/'')"

definition host_windows :: "bytes \<Rightarrow> bool" where
  "host_windows s \<longleftrightarrow> (case s of [] \<Rightarrow> False
     | c # s' \<Rightarrow> 97 \<le> byte_val (lower_byte c) \<and> byte_val (lower_byte c) \<le> 122
                \<and> startswith (lower s') ('':'' @ [CHR 0x5C] @ ''users'' @ [CHR 0x5C]))"

definition host_temporary :: "bytes \<Rightarrow> bool" where
  "host_temporary s \<longleftrightarrow>
     list_ex (\<lambda>p. startswith s p \<and> word_ends (drop (length p) s))
       [''/private/tmp'', ''/private/var/folders'', ''/opt/homebrew'']"

definition HOME_PATHS :: "(bytes \<Rightarrow> bool) list" where
  "HOME_PATHS = [host_unix, host_macos, host_windows, host_temporary]"

definition match_at :: "(bytes \<Rightarrow> bool) \<Rightarrow> bytes \<Rightarrow> nat \<Rightarrow> bool" where
  "match_at p data i \<longleftrightarrow> (i = 0 \<or> \<not> word_char (data ! (i - 1))) \<and> p (drop i data)"

text \<open>\<open>pattern.search(data, position)\<close>: where the leftmost match starts.\<close>

definition search :: "(bytes \<Rightarrow> bool) \<Rightarrow> bytes \<Rightarrow> nat \<Rightarrow> nat option" where
  "search p data position = find (match_at p data) [position ..< Suc (length data)]"

definition contains_local_host_path :: "bytes \<Rightarrow> bool" where
  "contains_local_host_path data \<longleftrightarrow> list_ex (\<lambda>p. search p data 0 \<noteq> None) HOME_PATHS"

lemma find_Some_mem: "find p xs = Some x \<Longrightarrow> x \<in> set xs \<and> p x"
  by (induction xs) (auto split: if_splits)

lemma search_Some_ge: "search p data position = Some m \<Longrightarrow> position \<le> m"
  using find_Some_mem [of "match_at p data"] by (fastforce simp: search_def)

function pattern_before :: "(bytes \<Rightarrow> bool) \<Rightarrow> bytes \<Rightarrow> nat \<Rightarrow> nat \<Rightarrow> nat \<Rightarrow> bool" where
  "pattern_before p data start_limit minimum_start position \<longleftrightarrow>
     (if position < start_limit then
        (case search p data position of None \<Rightarrow> False
         | Some m \<Rightarrow>
             if start_limit \<le> m then False
             else if minimum_start \<le> m then True
             else pattern_before p data start_limit minimum_start (m + 1))
      else False)"
  by auto
termination
  by (relation "measure (\<lambda>(p, data, limit, minimum, position). limit - position)")
    (auto dest: search_Some_ge)

declare pattern_before.simps [simp del]

definition contains_local_host_path_before :: "bytes \<Rightarrow> nat \<Rightarrow> nat \<Rightarrow> bool" where
  "contains_local_host_path_before data start_limit minimum_start \<longleftrightarrow>
     0 < start_limit
     \<and> list_ex (\<lambda>p. pattern_before p data start_limit minimum_start 0) HOME_PATHS"

section \<open>Magic numbers\<close>

definition has_forbidden_binary_magic :: "bytes \<Rightarrow> bool" where
  "has_forbidden_binary_magic data \<longleftrightarrow>
     list_ex (startswith data) BINARY_MAGICS
     \<or> (263 \<le> length data
        \<and> (take 6 (drop 257 data) = ''ustar'' @ octets [0] \<or> take 6 (drop 257 data) = ''ustar ''))
     \<or> (4 \<le> length data \<and> 0x50 \<le> byte_val (data ! 0) \<and> byte_val (data ! 0) \<le> 0x5F
        \<and> take 3 (drop 1 data) = octets [0x2a, 0x4d, 0x18])"

text \<open>\<open>PDF_HEADER\<close> at the start of the data, and where it is first found.\<close>

definition pdf_header_at :: "bytes \<Rightarrow> bool" where
  "pdf_header_at s \<longleftrightarrow> startswith s ''%PDF-'' \<and> 8 \<le> length s
     \<and> is_digit (s ! 5) \<and> s ! 6 = CHR ''.'' \<and> is_digit (s ! 7)"

definition pdf_header_search :: "bytes \<Rightarrow> nat option" where
  "pdf_header_search data = find (\<lambda>i. pdf_header_at (drop i data)) [0 ..< length data]"

text \<open>
  \<open>PDF_EOF.search\<close>: the marker on a line of its own, as an expression for the whole data. The end
  of the line is looked at and not taken by the match, which makes no difference to the search.
\<close>

definition any_rx :: rx where
  "any_rx = Star (Cls [(CHR 0x00, char_of (255 :: nat))])"

definition pdf_line_end :: rx where
  "pdf_line_end = Cls [(CR, CR), (LF, LF), (CHR 0x0C, CHR 0x0C)]"

definition pdf_padding :: rx where
  "pdf_padding = Star (Cls [(CHR 0x00, CHR 0x00), (CHR 0x09, CHR 0x09), (CHR 0x0C, CHR 0x0C), (CHR '' '', CHR '' '')])"

definition PDF_EOF_RX :: rx where
  "PDF_EOF_RX =
     Seq (opt (Seq any_rx pdf_line_end))
       (Seq pdf_padding (Seq (lit ''%%EOF'') (Seq pdf_padding (opt (Seq pdf_line_end any_rx)))))"

definition has_structured_pdf :: "bytes \<Rightarrow> bool \<Rightarrow> bytes \<Rightarrow> bool" where
  "has_structured_pdf prefix_bytes has_object trailer \<longleftrightarrow>
     (case pdf_header_search prefix_bytes of None \<Rightarrow> False
      | Some start \<Rightarrow> start < PDF_HEADER_WINDOW_BYTES \<and> has_object
          \<and> fullmatch PDF_EOF_RX trailer)"

section \<open>Intel HEX\<close>

fun hex_octets :: "bytes \<Rightarrow> nat list option" where
  "hex_octets [] = Some []"
| "hex_octets [c] = None"
| "hex_octets (c # d # s) =
     (case (hex_val c, hex_val d, hex_octets s) of
        (Some i, Some j, Some ns) \<Rightarrow> Some ((16 * i + j) # ns)
      | _ \<Rightarrow> None)"

fun expected_length :: "nat \<Rightarrow> nat" where
  "expected_length t = (if t = 1 then 0 else if t = 2 then 2 else if t = 3 then 4 else if t = 4 then 2 else 4)"

definition intel_hex_record_type :: "bytes \<Rightarrow> nat option" where
  "intel_hex_record_type line =
     (let encoded = (if startswith line '':'' then drop 1 line else []) in
      if length encoded < 10 \<or> length encoded mod 2 = 1
         \<or> list_ex (\<lambda>c. c \<notin> set ''0123456789abcdefABCDEF'') encoded then None
      else
        (case hex_octets encoded of None \<Rightarrow> None
         | Some rec \<Rightarrow>
             if length rec \<noteq> rec ! 0 + 5 \<or> 5 < rec ! 3 \<or> sum_list rec mod 256 \<noteq> 0 then None
             else if rec ! 3 = 0 then Some (rec ! 3)
             else if rec ! 0 \<noteq> expected_length (rec ! 3) \<or> take 2 (drop 1 rec) \<noteq> [0, 0] then None
             else Some (rec ! 3)))"

record intel_hex =
  ih_possible :: bool
  ih_line :: bytes
  ih_records :: nat
  ih_eof_seen :: bool
  ih_preamble :: bytes
  ih_preamble_done :: bool

definition intel_init :: intel_hex where
  "intel_init = \<lparr>ih_possible = True, ih_line = [], ih_records = 0, ih_eof_seen = False,
                 ih_preamble = [], ih_preamble_done = False\<rparr>"

definition intel_finish_line :: "intel_hex \<Rightarrow> intel_hex" where
  "intel_finish_line s =
     (let stripped = strip_set [CHR 0x20, CHR 0x09, CHR 0x0C] (ih_line s);
          s = s\<lparr>ih_line := []\<rparr> in
      if stripped = [] \<or> startswith stripped '';'' \<or> startswith stripped ''#'' then s
      else
        (case intel_hex_record_type stripped of None \<Rightarrow> s\<lparr>ih_possible := False\<rparr>
         | Some t \<Rightarrow>
             if ih_eof_seen s then s\<lparr>ih_possible := False\<rparr>
             else s\<lparr>ih_records := ih_records s + 1, ih_eof_seen := ih_eof_seen s \<or> t = 1\<rparr>))"

definition line_end :: "char \<Rightarrow> bool" where
  "line_end c \<longleftrightarrow> c = CR \<or> c = LF"

function intel_feed_body :: "intel_hex \<Rightarrow> bytes \<Rightarrow> intel_hex" where
  "intel_feed_body s data =
     (if data = [] then s
      else
        let piece = takeWhile (\<lambda>c. \<not> line_end c) data in
        if MAX_INTEL_HEX_LINE_BYTES < length (ih_line s) + length piece then
          s\<lparr>ih_possible := False, ih_line := []\<rparr>
        else
          let s = s\<lparr>ih_line := ih_line s @ piece\<rparr> in
          (case drop (length piece) data of [] \<Rightarrow> s
           | terminator # rest \<Rightarrow>
               let s = intel_finish_line s in
               if \<not> ih_possible s then s else intel_feed_body s rest))"
  by pat_completeness auto
termination
proof (relation "measure (\<lambda>(s, data). length data)")
  fix s :: intel_hex and data piece t' rest and x xa xb and t :: char
  assume "drop (length piece) data = t # rest"
  then have "length (drop (length piece) data) = Suc (length rest)" by simp
  then show "((xb, rest), (s, data)) \<in> measure (\<lambda>(s, data). length data)" by simp
qed simp

declare intel_feed_body.simps [simp del]

fun intel_feed_preamble :: "intel_hex \<Rightarrow> bytes \<Rightarrow> intel_hex \<times> bytes" where
  "intel_feed_preamble s [] = (s, [])"
| "intel_feed_preamble s (c # data) =
     (if ih_preamble_done s then (s, c # data)
      else
        let pending = ih_preamble s @ [c] in
        if \<not> startswith UTF8_BOM pending then
          intel_feed_preamble (intel_feed_body (s\<lparr>ih_preamble := [], ih_preamble_done := True\<rparr>) pending) data
        else if length pending = length UTF8_BOM then
          intel_feed_preamble (s\<lparr>ih_preamble := [], ih_preamble_done := True\<rparr>) data
        else intel_feed_preamble (s\<lparr>ih_preamble := pending\<rparr>) data)"

definition intel_feed :: "intel_hex \<Rightarrow> bytes \<Rightarrow> intel_hex" where
  "intel_feed s data =
     (if \<not> ih_possible s then s
      else if \<not> ih_preamble_done s then
        (case intel_feed_preamble s data of (s, rest) \<Rightarrow>
           if \<not> ih_preamble_done s \<or> \<not> ih_possible s then s else intel_feed_body s rest)
      else intel_feed_body s data)"

definition intel_finish :: "intel_hex \<Rightarrow> bool" where
  "intel_finish s =
     (let s = (if ih_possible s \<and> \<not> ih_preamble_done s then
                 intel_feed_body (s\<lparr>ih_preamble := [], ih_preamble_done := True\<rparr>) (ih_preamble s)
               else s);
          s = (if ih_possible s \<and> ih_line s \<noteq> [] then intel_finish_line s else s) in
      ih_possible s \<and> ih_eof_seen s \<and> 2 \<le> ih_records s)"

section \<open>Objects of a PDF file\<close>

datatype pdf_state = SEEK_FIRST | NUMBER | NUMBER_GAP | KEYWORD_O | KEYWORD_B | KEYWORD_J | COMMENT

record pdf_scanner =
  pdf_state :: pdf_state
  pdf_digits :: nat
  pdf_completed :: nat
  pdf_boundary :: bool
  pdf_found :: bool

definition pdf_init :: pdf_scanner where
  "pdf_init = \<lparr>pdf_state = SEEK_FIRST, pdf_digits = 0, pdf_completed = 0, pdf_boundary = True,
               pdf_found = False\<rparr>"

definition pdf_whitespace :: "char \<Rightarrow> bool" where
  "pdf_whitespace c \<longleftrightarrow> c \<in> set PDF_WHITESPACE"

definition is_boundary :: "char \<Rightarrow> bool" where
  "is_boundary c \<longleftrightarrow> c \<in> set PDF_WHITESPACE \<or> c \<in> set PDF_DELIMITERS"

definition pdf_reset :: "char \<Rightarrow> pdf_scanner \<Rightarrow> pdf_scanner" where
  "pdf_reset c s =
     s\<lparr>pdf_state := SEEK_FIRST, pdf_digits := 0, pdf_completed := 0, pdf_boundary := is_boundary c\<rparr>"

definition pdf_byte :: "char \<Rightarrow> pdf_scanner \<Rightarrow> pdf_scanner" where
  "pdf_byte c s =
     (case pdf_state s of
        COMMENT \<Rightarrow>
          if line_end c then
            s\<lparr>pdf_state := (if pdf_completed s \<noteq> 0 then NUMBER_GAP else SEEK_FIRST), pdf_boundary := True\<rparr>
          else s
      | SEEK_FIRST \<Rightarrow>
          if pdf_boundary s \<and> is_digit c then
            s\<lparr>pdf_state := NUMBER, pdf_digits := 1, pdf_completed := 0, pdf_boundary := False\<rparr>
          else if c = CHR ''%'' then s\<lparr>pdf_state := COMMENT, pdf_completed := 0\<rparr>
          else s\<lparr>pdf_boundary := is_boundary c\<rparr>
      | NUMBER \<Rightarrow>
          if is_digit c then
            (let s = s\<lparr>pdf_digits := pdf_digits s + 1\<rparr> in
             if 10 < pdf_digits s then pdf_reset c s else s)
          else if pdf_whitespace c then
            s\<lparr>pdf_completed := min 2 (pdf_completed s + 1), pdf_state := NUMBER_GAP\<rparr>
          else if c = CHR ''%'' then
            s\<lparr>pdf_completed := min 2 (pdf_completed s + 1), pdf_state := COMMENT\<rparr>
          else pdf_reset c s
      | NUMBER_GAP \<Rightarrow>
          if pdf_whitespace c then s
          else if is_digit c then s\<lparr>pdf_state := NUMBER, pdf_digits := 1\<rparr>
          else if 2 \<le> pdf_completed s \<and> c = CHR ''o'' then s\<lparr>pdf_state := KEYWORD_O\<rparr>
          else if c = CHR ''%'' then s\<lparr>pdf_state := COMMENT\<rparr>
          else pdf_reset c s
      | KEYWORD_O \<Rightarrow>
          if c = CHR ''b'' then s\<lparr>pdf_state := KEYWORD_B\<rparr>
          else if c = CHR ''%'' then s\<lparr>pdf_completed := 0, pdf_state := COMMENT\<rparr>
          else pdf_reset c s
      | KEYWORD_B \<Rightarrow>
          if c = CHR ''j'' then s\<lparr>pdf_state := KEYWORD_J\<rparr>
          else if c = CHR ''%'' then s\<lparr>pdf_completed := 0, pdf_state := COMMENT\<rparr>
          else pdf_reset c s
      | KEYWORD_J \<Rightarrow> if is_boundary c then s\<lparr>pdf_found := True\<rparr> else pdf_reset c s)"

fun pdf_feed :: "pdf_scanner \<Rightarrow> bytes \<Rightarrow> pdf_scanner" where
  "pdf_feed s [] = s"
| "pdf_feed s (c # data) = (if pdf_found s then s else pdf_feed (pdf_byte c s) data)"

section \<open>Names of members\<close>

text \<open>\<open>part.endswith((b".", b" "))\<close> of the parts that are not empty.\<close>

definition member_name_policy_failure :: "bytes \<Rightarrow> bool \<Rightarrow> string option" where
  "member_name_policy_failure encoded_name directory =
     (let candidate = (if directory \<and> endswith encoded_name ''/'' then butlast encoded_name
                       else encoded_name) in
      if CHR 0x5C \<in> set candidate then Some ''archive member name contains a backslash''
      else if list_ex (\<lambda>c. byte_val c < 0x20 \<or> byte_val c = 0x7F) candidate then
        Some ''archive member name contains a control character''
      else if list_ex (\<lambda>p. p \<noteq> [] \<and> (endswith p ''.'' \<or> endswith p '' '')) (split_on (CHR ''/'') candidate) then
        Some ''archive member path component has a trailing dot or space''
      else if list_ex (\<lambda>f. occurs (lower f) (lower candidate)) FORBIDDEN_BYTES then
        Some ''forbidden archive namespace''
      else if contains_local_host_path candidate then
        Some ''absolute local host path in archive member name''
      else None)"

text \<open>
  \<open>PurePosixPath(s).parts\<close> of any path: a path that starts with two slashes and not three has the
  root of two slashes. \<open>str.lower()\<close> is kept to the letters that matter in a comparison with an
  ASCII string: A to Z, and the Kelvin sign, whose lower case is \<open>k\<close>; the lower case of no other
  character is one ASCII letter.
\<close>

definition posix_path_parts :: "string \<Rightarrow> string list" where
  "posix_path_parts s =
     (if startswith s ''//'' \<and> \<not> startswith s ''///'' then ''//'' # posix_parts s
      else if startswith s ''/'' then ''/'' # posix_parts s
      else posix_parts s)"

definition parts_posix :: "string list \<Rightarrow> string" where
  "parts_posix parts =
     (case parts of [] \<Rightarrow> ''.''
      | p # ps \<Rightarrow> if startswith p ''/'' then p @ join_with ''/'' ps else join_with ''/'' parts)"

fun str_lower :: "string \<Rightarrow> string" where
  "str_lower [] = []"
| "str_lower (c # s) =
     (if byte_val c = 0xE2 \<and> take 2 s = octets [0x84, 0xAA] then CHR ''k'' # str_lower (drop 2 s)
      else lower_byte c # str_lower s)"

definition forbidden_namespace_path :: "string list \<Rightarrow> bool" where
  "forbidden_namespace_path path_parts \<longleftrightarrow>
     (let parts = map str_lower path_parts in
      list_ex (\<lambda>p. p \<in> set FORBIDDEN_DOTTED_PATH_PARTS) parts
      \<or> list_ex (\<lambda>p. p \<in> set FORBIDDEN_SOURCE_TREE_PARTS) parts
      \<or> list_ex (\<lambda>f. list_ex (\<lambda>i. take (length f) (drop i parts) = f)
                   [0 ..< length parts + 1 - length f]) FORBIDDEN_PATH_PARTS)"

section \<open>Reading a member in pieces\<close>

text \<open>
  The incremental decoder of UTF-8: \<open>utf8_rest\<close> takes the complete characters off and leaves the
  start of one that is not complete; \<open>None\<close> is the exception. A character is complete when its
  first byte says so, and what may follow is checked as \<open>utf8_ok\<close> checks it.
\<close>

definition second_ok :: "char \<Rightarrow> char \<Rightarrow> bool" where
  "second_ok a b \<longleftrightarrow> cont_byte b
     \<and> (byte_val a = 0xE0 \<longrightarrow> 0xA0 \<le> byte_val b) \<and> (byte_val a = 0xED \<longrightarrow> byte_val b \<le> 0x9F)
     \<and> (byte_val a = 0xF0 \<longrightarrow> 0x90 \<le> byte_val b) \<and> (byte_val a = 0xF4 \<longrightarrow> byte_val b \<le> 0x8F)"

fun utf8_rest :: "bytes \<Rightarrow> bytes option" where
  "utf8_rest [] = Some []"
| "utf8_rest (a # s) =
     (if byte_val a < 0x80 then utf8_rest s
      else if 0xC2 \<le> byte_val a \<and> byte_val a \<le> 0xDF then
        (case s of [] \<Rightarrow> Some [a] | b # s' \<Rightarrow> if second_ok a b then utf8_rest s' else None)
      else if 0xE0 \<le> byte_val a \<and> byte_val a \<le> 0xEF then
        (case s of [] \<Rightarrow> Some [a]
         | [b] \<Rightarrow> if second_ok a b then Some [a, b] else None
         | b # c # s' \<Rightarrow> if second_ok a b \<and> cont_byte c then utf8_rest s' else None)
      else if 0xF0 \<le> byte_val a \<and> byte_val a \<le> 0xF4 then
        (case s of [] \<Rightarrow> Some [a]
         | [b] \<Rightarrow> if second_ok a b then Some [a, b] else None
         | [b, c] \<Rightarrow> if second_ok a b \<and> cont_byte c then Some [a, b, c] else None
         | b # c # d # s' \<Rightarrow>
             if second_ok a b \<and> cont_byte c \<and> cont_byte d then utf8_rest s' else None)
      else None)"

record content_audit =
  ca_bytes_read :: nat
  ca_exact_size :: bool
  ca_forbidden_magic :: bool
  ca_sha256 :: "string option"
  ca_has_nul :: bool
  ca_valid_utf8 :: bool
  ca_forbidden_reference :: bool
  ca_local_host_path :: bool
  ca_git_lfs_pointer :: bool

text \<open>
  The local variables of \<open>scan_member_payload\<close>. The running digest is the bytes it was given; the
  decoder is the bytes it has kept, and is gone after an exception.
\<close>

record payload_scan =
  ps_remaining :: nat
  ps_bytes_read :: nat
  ps_prefix :: bytes
  ps_scan_tail :: bytes
  ps_pdf_tail :: bytes
  ps_pdf_object_scanner :: "pdf_scanner option"
  ps_pdf_scanned_bytes :: nat
  ps_intel_hex :: intel_hex
  ps_content_digest :: "bytes option"
  ps_has_nul :: bool
  ps_forbidden_reference :: bool
  ps_local_host_path :: bool
  ps_valid_utf8 :: bool
  ps_decoder :: "bytes option"

definition payload_init :: "nat \<Rightarrow> bool \<Rightarrow> payload_scan" where
  "payload_init member_size binary_allowed =
     \<lparr>ps_remaining = member_size, ps_bytes_read = 0, ps_prefix = [], ps_scan_tail = [],
      ps_pdf_tail = [], ps_pdf_object_scanner = None, ps_pdf_scanned_bytes = 0,
      ps_intel_hex = intel_init,
      ps_content_digest = (if binary_allowed then Some [] else None),
      ps_has_nul = False, ps_forbidden_reference = False, ps_local_host_path = False,
      ps_valid_utf8 = True, ps_decoder = (if binary_allowed then None else Some [])\<rparr>"

text \<open>The steps of the loop for a chunk, in their order.\<close>

definition count_chunk :: "bytes \<Rightarrow> payload_scan \<Rightarrow> payload_scan" where
  "count_chunk chunk s =
     s\<lparr>ps_remaining := ps_remaining s - length chunk,
       ps_bytes_read := ps_bytes_read s + length chunk,
       ps_content_digest := map_option (\<lambda>d. d @ chunk) (ps_content_digest s)\<rparr>"

definition probe_chunk :: "bytes \<Rightarrow> payload_scan \<Rightarrow> payload_scan" where
  "probe_chunk chunk s =
     (if length (ps_prefix s) < MAGIC_PROBE_BYTES then
        let pre = ps_prefix s @ take (MAGIC_PROBE_BYTES - length (ps_prefix s)) chunk;
            s = s\<lparr>ps_prefix := pre\<rparr> in
        (case pdf_header_search pre of
           Some start \<Rightarrow>
             if start < PDF_HEADER_WINDOW_BYTES \<and> ps_pdf_object_scanner s = None then
               s\<lparr>ps_pdf_object_scanner := Some (pdf_feed pdf_init (drop (start + PDF_HEADER_BYTES) pre)),
                 ps_pdf_scanned_bytes := length pre\<rparr>
             else s
         | None \<Rightarrow> s)
      else s)"

definition tail_chunk :: "bytes \<Rightarrow> payload_scan \<Rightarrow> payload_scan" where
  "tail_chunk chunk s =
     s\<lparr>ps_pdf_tail := last_bytes PDF_TRAILER_WINDOW_BYTES (ps_pdf_tail s @ chunk),
       ps_intel_hex := intel_feed (ps_intel_hex s) chunk\<rparr>"

definition object_chunk :: "bytes \<Rightarrow> payload_scan \<Rightarrow> payload_scan" where
  "object_chunk chunk s =
     (case ps_pdf_object_scanner s of
        Some scanner \<Rightarrow>
          if \<not> pdf_found scanner then
            let chunk_offset = ps_bytes_read s - length chunk;
                scan_offset = max (ps_pdf_scanned_bytes s) chunk_offset in
            if scan_offset < ps_bytes_read s then
              s\<lparr>ps_pdf_object_scanner := Some (pdf_feed scanner (drop (scan_offset - chunk_offset) chunk)),
                ps_pdf_scanned_bytes := ps_bytes_read s\<rparr>
            else s
          else s
      | None \<Rightarrow> s)"

definition window_chunk :: "bytes \<Rightarrow> payload_scan \<Rightarrow> payload_scan" where
  "window_chunk chunk s =
     (let window = ps_scan_tail s @ chunk in
      s\<lparr>ps_forbidden_reference := ps_forbidden_reference s
          \<or> list_ex (\<lambda>f. occurs (lower f) (lower window)) FORBIDDEN_BYTES,
        ps_local_host_path := ps_local_host_path s
          \<or> contains_local_host_path_before window (length window - CONTENT_SCAN_OVERLAP_BYTES)
               (if ps_bytes_read s = length window then 0 else 1),
        ps_scan_tail := last_bytes (CONTENT_SCAN_OVERLAP_BYTES + 1) window\<rparr>)"

definition text_chunk :: "bool \<Rightarrow> bytes \<Rightarrow> payload_scan \<Rightarrow> payload_scan" where
  "text_chunk binary_allowed chunk s =
     (if binary_allowed then s
      else
        let s = s\<lparr>ps_has_nul := ps_has_nul s \<or> CHR 0x00 \<in> set chunk\<rparr> in
        (case ps_decoder s of None \<Rightarrow> s
         | Some kept \<Rightarrow>
             (case utf8_rest (kept @ chunk) of
                Some rest \<Rightarrow> s\<lparr>ps_decoder := Some rest\<rparr>
              | None \<Rightarrow> s\<lparr>ps_valid_utf8 := False, ps_decoder := None\<rparr>)))"

definition scan_chunk :: "bool \<Rightarrow> bytes \<Rightarrow> payload_scan \<Rightarrow> payload_scan" where
  "scan_chunk binary_allowed chunk s =
     text_chunk binary_allowed chunk
       (window_chunk chunk
         (object_chunk chunk (tail_chunk chunk (probe_chunk chunk (count_chunk chunk s)))))"

lemma remaining_chunk [simp]:
  "ps_remaining (count_chunk chunk s) = ps_remaining s - length chunk"
  "ps_remaining (probe_chunk chunk s) = ps_remaining s"
  "ps_remaining (tail_chunk chunk s) = ps_remaining s"
  "ps_remaining (object_chunk chunk s) = ps_remaining s"
  "ps_remaining (window_chunk chunk s) = ps_remaining s"
  "ps_remaining (text_chunk binary_allowed chunk s) = ps_remaining s"
  by (simp_all add: count_chunk_def probe_chunk_def tail_chunk_def object_chunk_def
      window_chunk_def text_chunk_def Let_def split: option.split)

function payload_loop ::
  "(nat \<Rightarrow> 'p \<Rightarrow> (bytes \<times> 'p) res) \<Rightarrow> bool \<Rightarrow> 'p \<Rightarrow> payload_scan \<Rightarrow> (payload_scan \<times> 'p) res" where
  "payload_loop read binary_allowed p s =
     (if ps_remaining s = 0 then Inr (s, p)
      else bindE (read (min CONTENT_READ_BYTES (ps_remaining s)) p) (\<lambda>(chunk, p).
        if chunk = [] then Inr (s, p)
        else if ps_remaining s < length chunk then
          Inl (ValueError ''archive payload reader exceeded member size'')
        else payload_loop read binary_allowed p (scan_chunk binary_allowed chunk s)))"
  by pat_completeness auto
termination
proof (relation "measure (\<lambda>(read, allowed, p, s). ps_remaining s)")
  fix read :: "nat \<Rightarrow> 'p \<Rightarrow> (bytes \<times> 'p) res" and allowed p and s :: payload_scan and x chunk p'
  assume "ps_remaining s \<noteq> 0" "chunk \<noteq> ([] :: bytes)"
  moreover have "ps_remaining (scan_chunk allowed chunk s) = ps_remaining s - length chunk"
    by (simp add: scan_chunk_def)
  ultimately show "((read, allowed, p', scan_chunk allowed chunk s), (read, allowed, p, s))
      \<in> measure (\<lambda>(read, allowed, p, s). ps_remaining s)"
    by (cases chunk) simp_all
qed simp

declare payload_loop.simps [simp del]

definition payload_result :: "bytes \<Rightarrow> payload_scan \<Rightarrow> content_audit" where
  "payload_result extra s =
     \<lparr>ca_bytes_read = ps_bytes_read s,
      ca_exact_size = (ps_remaining s = 0 \<and> extra = []),
      ca_forbidden_magic =
        (has_forbidden_binary_magic (ps_prefix s)
         \<or> has_structured_pdf (ps_prefix s)
             (case ps_pdf_object_scanner s of None \<Rightarrow> False | Some scanner \<Rightarrow> pdf_found scanner)
             (ps_pdf_tail s)
         \<or> intel_finish (ps_intel_hex s)),
      ca_sha256 = map_option sha256_hex (ps_content_digest s),
      ca_has_nul = ps_has_nul s,
      ca_valid_utf8 = (ps_valid_utf8 s \<and> ps_decoder s \<in> {None, Some []}),
      ca_forbidden_reference = ps_forbidden_reference s,
      ca_local_host_path = (ps_local_host_path s
        \<or> contains_local_host_path_before (ps_scan_tail s) (length (ps_scan_tail s))
             (if ps_bytes_read s = length (ps_scan_tail s) then 0 else 1)),
      ca_git_lfs_pointer = startswith (ps_prefix s) GIT_LFS_POINTER_HEADER\<rparr>"

definition scan_member_payload ::
  "(nat \<Rightarrow> 'p \<Rightarrow> (bytes \<times> 'p) res) \<Rightarrow> 'p \<Rightarrow> nat \<Rightarrow> bool \<Rightarrow> content_audit res" where
  "scan_member_payload read payload_stream member_size binary_allowed =
     bindE (payload_loop read binary_allowed payload_stream (payload_init member_size binary_allowed))
       (\<lambda>(s, p). bindE (read 1 p) (\<lambda>(extra, p). Inr (payload_result extra s)))"

end
