(* ===== verification/Bundle_Hex_Props.thy ===== *)
theory Bundle_Hex_Props
  imports Bundle_Scan
begin

text \<open>
  The two scanners of the source-bundle audit. Both are shown to be runs of an automaton over the
  bytes, so that what they have seen does not depend on how the bytes were cut into pieces; the
  Intel HEX scanner is then compared with a definition over the lines of the whole payload, and
  the PDF scanner is shown to find every object declaration that starts a line.
\<close>

section \<open>The Intel HEX scanner as an automaton\<close>

definition line_byte :: "char \<Rightarrow> intel_hex \<Rightarrow> intel_hex" where
  "line_byte c s =
     (if \<not> ih_possible s then s
      else if line_end c then intel_finish_line s
      else if MAX_INTEL_HEX_LINE_BYTES < length (ih_line s) + 1 then s\<lparr>ih_possible := False, ih_line := []\<rparr>
      else s\<lparr>ih_line := ih_line s @ [c]\<rparr>)"

definition intel_byte :: "char \<Rightarrow> intel_hex \<Rightarrow> intel_hex" where
  "intel_byte c s =
     (if \<not> ih_possible s then s
      else if ih_preamble_done s then line_byte c s
      else
        let pending = ih_preamble s @ [c] in
        if \<not> startswith UTF8_BOM pending then
          fold line_byte pending (s\<lparr>ih_preamble := [], ih_preamble_done := True\<rparr>)
        else if length pending = length UTF8_BOM then s\<lparr>ih_preamble := [], ih_preamble_done := True\<rparr>
        else s\<lparr>ih_preamble := pending\<rparr>)"

definition line_fits :: "intel_hex \<Rightarrow> bool" where
  "line_fits s \<longleftrightarrow> length (ih_line s) \<le> MAX_INTEL_HEX_LINE_BYTES"

lemma finish_line_fields [simp]:
  "ih_line (intel_finish_line s) = []"
  "ih_preamble (intel_finish_line s) = ih_preamble s"
  "ih_preamble_done (intel_finish_line s) = ih_preamble_done s"
  by (simp_all add: intel_finish_line_def Let_def split: option.split)

lemma line_byte_preamble [simp]:
  "ih_preamble_done (line_byte c s) = ih_preamble_done s" "ih_preamble (line_byte c s) = ih_preamble s"
  by (simp_all add: line_byte_def)

lemma line_fits_line_byte: "line_fits s \<Longrightarrow> line_fits (line_byte c s)"
  by (simp add: line_byte_def line_fits_def)

lemma fold_line_byte_preamble [simp]:
  "ih_preamble_done (fold line_byte data s) = ih_preamble_done s"
  "ih_preamble (fold line_byte data s) = ih_preamble s"
  by (induction data arbitrary: s) simp_all

lemma line_fits_fold: "line_fits s \<Longrightarrow> line_fits (fold line_byte data s)"
  by (induction data arbitrary: s) (simp_all add: line_fits_line_byte)

lemma fold_line_byte_stuck: "\<not> ih_possible s \<Longrightarrow> fold line_byte data s = s"
  by (induction data) (simp_all add: line_byte_def)

lemma fold_intel_byte_stuck: "\<not> ih_possible s \<Longrightarrow> fold intel_byte data s = s"
  by (induction data) (simp_all add: intel_byte_def)

text \<open>A piece without a line end, taken at once or byte by byte.\<close>

lemma fold_piece:
  "ih_possible s \<Longrightarrow> line_fits s \<Longrightarrow> list_all (\<lambda>c. \<not> line_end c) piece \<Longrightarrow>
   fold line_byte piece s =
     (if MAX_INTEL_HEX_LINE_BYTES < length (ih_line s) + length piece then
        s\<lparr>ih_possible := False, ih_line := []\<rparr>
      else s\<lparr>ih_line := ih_line s @ piece\<rparr>)"
proof (induction piece arbitrary: s)
  case Nil
  then show ?case by (simp add: line_fits_def)
next
  case (Cons c piece)
  let ?over = "MAX_INTEL_HEX_LINE_BYTES < length (ih_line s) + 1"
  show ?case
  proof (cases ?over)
    case True
    then have "line_byte c s = s\<lparr>ih_possible := False, ih_line := []\<rparr>"
      using Cons.prems by (simp add: line_byte_def)
    then show ?thesis using True by (simp add: fold_line_byte_stuck)
  next
    case False
    then have "line_byte c s = s\<lparr>ih_line := ih_line s @ [c]\<rparr>"
      using Cons.prems by (simp add: line_byte_def)
    moreover have "line_fits (s\<lparr>ih_line := ih_line s @ [c]\<rparr>)" using False by (simp add: line_fits_def)
    ultimately show ?thesis using Cons.IH [of "s\<lparr>ih_line := ih_line s @ [c]\<rparr>"] Cons.prems by simp
  qed
qed

lemma feed_body_fold: "ih_possible s \<Longrightarrow> line_fits s \<Longrightarrow> intel_feed_body s data = fold line_byte data s"
proof (induction s data rule: intel_feed_body.induct)
  case (1 s data)
  define piece where "piece = takeWhile (\<lambda>c. \<not> line_end c) data"
  have split_data: "data = piece @ drop (length piece) data"
    by (simp add: piece_def flip: dropWhile_eq_drop)
  have rest_starts: "drop (length piece) data = t # rest \<Longrightarrow> line_end t" for t rest
    unfolding piece_def using dropWhile_eq_drop [of "\<lambda>c. \<not> line_end c" data]
    by (metis dropWhile_eq_Cons_conv)
  have free: "list_all (\<lambda>c. \<not> line_end c) piece"
    by (auto simp: piece_def list_all_iff dest: set_takeWhileD)
  note piece_fold = fold_piece [OF "1.prems" free]
  show ?case
  proof (cases "data = [] \<or> MAX_INTEL_HEX_LINE_BYTES < length (ih_line s) + length piece")
    case True
    show ?thesis
    proof (cases "data = []")
      case True
      then show ?thesis by (simp add: intel_feed_body.simps)
    next
      case False
      with True have over: "MAX_INTEL_HEX_LINE_BYTES < length (ih_line s) + length piece" by simp
      have "fold line_byte data s = fold line_byte (drop (length piece) data) (fold line_byte piece s)"
        by (subst split_data) simp
      also have "\<dots> = s\<lparr>ih_possible := False, ih_line := []\<rparr>"
        using over piece_fold by (simp add: fold_line_byte_stuck)
      finally show ?thesis using False over
        by (subst intel_feed_body.simps) (simp add: piece_def [symmetric] Let_def)
    qed
  next
    case False
    let ?s = "s\<lparr>ih_line := ih_line s @ piece\<rparr>"
    have run: "fold line_byte data s = fold line_byte (drop (length piece) data) ?s"
      using False piece_fold by (subst split_data) simp
    show ?thesis
    proof (cases "drop (length piece) data")
      case Nil
      then show ?thesis using False run
        by (subst intel_feed_body.simps) (simp add: piece_def [symmetric] Let_def)
    next
      case (Cons t rest)
      have "line_byte t ?s = intel_finish_line ?s"
        using rest_starts [OF Cons] "1.prems" by (simp add: line_byte_def)
      moreover have "intel_feed_body s data =
          (if \<not> ih_possible (intel_finish_line ?s) then intel_finish_line ?s
           else intel_feed_body (intel_finish_line ?s) rest)"
        using False Cons by (subst intel_feed_body.simps) (simp add: piece_def [symmetric] Let_def)
      moreover have "ih_possible (intel_finish_line ?s) \<Longrightarrow>
          intel_feed_body (intel_finish_line ?s) rest = fold line_byte rest (intel_finish_line ?s)"
        using "1.IH" [OF _ refl _ refl, of t rest "intel_finish_line ?s"] False Cons
        by (simp add: piece_def line_fits_def)
      ultimately show ?thesis using run Cons by (simp add: fold_line_byte_stuck)
    qed
  qed
qed

lemma intel_byte_done: "ih_preamble_done s \<Longrightarrow> fold intel_byte data s = fold line_byte data s"
proof (induction data arbitrary: s)
  case (Cons c data)
  then have "intel_byte c s = line_byte c s" by (simp add: intel_byte_def line_byte_def)
  then show ?case using Cons by simp
qed simp

lemma line_fits_intel_byte: "line_fits s \<Longrightarrow> line_fits (intel_byte c s)"
proof (cases "ih_possible s \<and> \<not> ih_preamble_done s \<and> \<not> startswith UTF8_BOM (ih_preamble s @ [c])")
  case True
  assume "line_fits s"
  then have "line_fits (fold line_byte (ih_preamble s @ [c]) (s\<lparr>ih_preamble := [], ih_preamble_done := True\<rparr>))"
    by (intro line_fits_fold) (simp add: line_fits_def)
  then show ?thesis using True unfolding intel_byte_def Let_def by simp
next
  case False
  moreover assume "line_fits s"
  ultimately show ?thesis
    by (auto simp: intel_byte_def Let_def line_fits_line_byte) (auto simp: line_fits_def)
qed

lemma line_fits_fold_intel: "line_fits s \<Longrightarrow> line_fits (fold intel_byte data s)"
  by (induction data arbitrary: s) (simp_all add: line_fits_intel_byte)

definition after_preamble :: "intel_hex \<times> bytes \<Rightarrow> intel_hex" where
  "after_preamble r = (case r of (s, rest) \<Rightarrow>
     if \<not> ih_preamble_done s \<or> \<not> ih_possible s then s else intel_feed_body s rest)"

lemma preamble_done: "ih_preamble_done s \<Longrightarrow> intel_feed_preamble s data = (s, data)"
  by (cases data) simp_all

lemma after_done:
  "ih_preamble_done s \<Longrightarrow> line_fits s \<Longrightarrow> after_preamble (intel_feed_preamble s data) = fold intel_byte data s"
  by (cases "ih_possible s")
    (simp_all add: after_preamble_def preamble_done feed_body_fold intel_byte_done fold_line_byte_stuck)

lemma feed_preamble_fold:
  "ih_possible s \<Longrightarrow> line_fits s \<Longrightarrow> after_preamble (intel_feed_preamble s data) = fold intel_byte data s"
proof (induction data arbitrary: s)
  case Nil
  then show ?case by (simp add: after_preamble_def intel_feed_body.simps)
next
  case (Cons c data)
  let ?pending = "ih_preamble s @ [c]" and ?done = "s\<lparr>ih_preamble := [], ih_preamble_done := True\<rparr>"
  have fits: "line_fits ?done" and possible: "ih_possible ?done" using Cons.prems by (simp_all add: line_fits_def)
  consider "ih_preamble_done s" | "\<not> ih_preamble_done s" "\<not> startswith UTF8_BOM ?pending"
    | "\<not> ih_preamble_done s" "startswith UTF8_BOM ?pending" "length ?pending = length UTF8_BOM"
    | "\<not> ih_preamble_done s" "startswith UTF8_BOM ?pending" "length ?pending \<noteq> length UTF8_BOM"
    by blast
  then show ?case
  proof cases
    case 1
    then show ?thesis using after_done Cons.prems by blast
  next
    case 2
    let ?s = "fold line_byte ?pending ?done"
    have "intel_feed_preamble s (c # data) = intel_feed_preamble ?s data"
      using 2 feed_body_fold [OF possible fits] by (simp add: Let_def)
    moreover have "intel_byte c s = ?s" using 2 Cons.prems by (simp add: intel_byte_def Let_def)
    moreover have "line_fits ?s" using line_fits_fold [OF fits] by blast
    moreover have "ih_preamble_done ?s" by (simp only: fold_line_byte_preamble) simp
    ultimately show ?thesis by (simp only: after_done fold.simps comp_apply)
  next
    case 3
    then have "intel_byte c s = ?done" using Cons.prems by (simp add: intel_byte_def Let_def)
    then show ?thesis using 3 after_done [OF _ fits] by (simp add: Let_def)
  next
    case 4
    then have "intel_byte c s = s\<lparr>ih_preamble := ?pending\<rparr>"
      using Cons.prems by (simp add: intel_byte_def Let_def)
    then show ?thesis using 4 Cons.IH [of "s\<lparr>ih_preamble := ?pending\<rparr>"] Cons.prems
      by (simp add: Let_def line_fits_def)
  qed
qed

lemma feed_fold: "line_fits s \<Longrightarrow> intel_feed s data = fold intel_byte data s"
proof (cases "ih_possible s")
  case True
  assume fits: "line_fits s"
  show ?thesis
  proof (cases "ih_preamble_done s")
    case True
    then show ?thesis using \<open>ih_possible s\<close> fits
      by (simp add: intel_feed_def feed_body_fold intel_byte_done)
  next
    case False
    then show ?thesis using \<open>ih_possible s\<close> feed_preamble_fold [OF \<open>ih_possible s\<close> fits]
      by (simp add: intel_feed_def after_preamble_def)
  qed
qed (simp add: intel_feed_def fold_intel_byte_stuck)

lemma intel_init_fits [simp]: "line_fits intel_init"
  by (simp add: line_fits_def intel_init_def)

lemma intel_feed_init: "intel_feed intel_init data = fold intel_byte data intel_init"
  by (rule feed_fold) simp

text \<open>What has been seen does not depend on the pieces.\<close>

lemma intel_feed_append:
  "intel_feed (intel_feed intel_init xs) ys = intel_feed intel_init (xs @ ys)"
  using feed_fold [OF line_fits_fold_intel [OF intel_init_fits, of xs], of ys]
  by (simp add: intel_feed_init)

section \<open>Intel HEX by lines\<close>

fun hex_lines :: "bytes \<Rightarrow> bytes list" where
  "hex_lines [] = [[]]"
| "hex_lines (c # s) = (if line_end c then [] # hex_lines s else (c # hd (hex_lines s)) # tl (hex_lines s))"

lemma hex_lines_nonempty [simp]: "hex_lines s \<noteq> []"
  by (cases s) simp_all

definition hex_stripped :: "bytes \<Rightarrow> bytes" where
  "hex_stripped line = strip_set [CHR 0x20, CHR 0x09, CHR 0x0C] line"

definition substantive :: "bytes \<Rightarrow> bool" where
  "substantive line \<longleftrightarrow> hex_stripped line \<noteq> [] \<and> \<not> startswith (hex_stripped line) '';''
     \<and> \<not> startswith (hex_stripped line) ''#''"

fun lines_accepted :: "nat \<Rightarrow> bool \<Rightarrow> bytes list \<Rightarrow> bool" where
  "lines_accepted n seen [] \<longleftrightarrow> seen \<and> 2 \<le> n"
| "lines_accepted n seen (line # ls) \<longleftrightarrow> length line \<le> MAX_INTEL_HEX_LINE_BYTES \<and>
     (if \<not> substantive line then lines_accepted n seen ls
      else (case intel_hex_record_type (hex_stripped line) of None \<Rightarrow> False
            | Some t \<Rightarrow> \<not> seen \<and> lines_accepted (n + 1) (t = 1) ls))"

definition body_accepted :: "intel_hex \<Rightarrow> bool" where
  "body_accepted s \<longleftrightarrow>
     (let s = (if ih_possible s \<and> ih_line s \<noteq> [] then intel_finish_line s else s) in
      ih_possible s \<and> ih_eof_seen s \<and> 2 \<le> ih_records s)"

lemma substantive_Nil [simp]: "\<not> substantive []"
  by (simp add: substantive_def hex_stripped_def strip_set_def)

lemma finish_line_cases:
  "intel_finish_line s =
     (if \<not> substantive (ih_line s) then s\<lparr>ih_line := []\<rparr>
      else case intel_hex_record_type (hex_stripped (ih_line s)) of
             None \<Rightarrow> s\<lparr>ih_line := [], ih_possible := False\<rparr>
           | Some t \<Rightarrow> if ih_eof_seen s then s\<lparr>ih_line := [], ih_possible := False\<rparr>
               else s\<lparr>ih_line := [], ih_records := ih_records s + 1, ih_eof_seen := (t = 1)\<rparr>)"
  by (simp add: intel_finish_line_def substantive_def hex_stripped_def Let_def split: option.split)

lemma body_accepted_stuck: "\<not> ih_possible s \<Longrightarrow> \<not> body_accepted s"
  by (simp add: body_accepted_def)

lemma lines_accepted_head:
  "ih_possible s \<Longrightarrow> line_fits s \<Longrightarrow>
   lines_accepted (ih_records s) (ih_eof_seen s) (ih_line s # ls) \<longleftrightarrow>
     (let t = intel_finish_line s in ih_possible t \<and> lines_accepted (ih_records t) (ih_eof_seen t) ls)"
  by (simp add: finish_line_cases line_fits_def Let_def split: option.split)

lemma body_accepted_now:
  assumes "ih_possible s" "line_fits s"
  shows "body_accepted s \<longleftrightarrow> lines_accepted (ih_records s) (ih_eof_seen s) [ih_line s]"
  using assms lines_accepted_head [OF assms, of "[]"]
  by (cases "ih_line s = []") (simp_all add: body_accepted_def Let_def)

lemma body_accepted_lines:
  "ih_possible s \<Longrightarrow> line_fits s \<Longrightarrow>
   body_accepted (fold line_byte data s) \<longleftrightarrow>
   lines_accepted (ih_records s) (ih_eof_seen s)
     ((ih_line s @ hd (hex_lines data)) # tl (hex_lines data))"
proof (induction data arbitrary: s)
  case Nil
  then show ?case using body_accepted_now by simp
next
  case (Cons c data)
  consider "line_end c" | "\<not> line_end c" "MAX_INTEL_HEX_LINE_BYTES < length (ih_line s) + 1"
    | "\<not> line_end c" "length (ih_line s) + 1 \<le> MAX_INTEL_HEX_LINE_BYTES" by linarith
  then show ?case
  proof cases
    case 1
    let ?t = "intel_finish_line s"
    have step: "line_byte c s = ?t" using 1 Cons.prems by (simp add: line_byte_def)
    have head: "lines_accepted (ih_records s) (ih_eof_seen s) (ih_line s # hex_lines data) \<longleftrightarrow>
        ih_possible ?t \<and> lines_accepted (ih_records ?t) (ih_eof_seen ?t) (hex_lines data)"
      using lines_accepted_head [OF Cons.prems] by (simp add: Let_def)
    show ?thesis
    proof (cases "ih_possible ?t")
      case True
      have "line_fits ?t" by (simp add: line_fits_def)
      then show ?thesis using Cons.IH [of ?t] True step head 1 by simp
    next
      case False
      then show ?thesis using step head 1 by (simp add: fold_line_byte_stuck body_accepted_stuck)
    qed
  next
    case 2
    then have "line_byte c s = s\<lparr>ih_possible := False, ih_line := []\<rparr>"
      using Cons.prems by (simp add: line_byte_def)
    then show ?thesis using 2 by (simp add: fold_line_byte_stuck body_accepted_stuck)
  next
    case 3
    then have "line_byte c s = s\<lparr>ih_line := ih_line s @ [c]\<rparr>"
      using Cons.prems by (simp add: line_byte_def)
    then show ?thesis using 3 Cons.IH [of "s\<lparr>ih_line := ih_line s @ [c]\<rparr>"] Cons.prems
      by (simp add: line_fits_def)
  qed
qed

text \<open>
  The definition of an Intel HEX payload: after one byte order mark, lines of at most 1024 bytes,
  of which those that are neither blank nor comments are two records or ls, all valid, the last
  one and no other being the end of file record.
\<close>

definition hex_body :: "bytes \<Rightarrow> bytes" where
  "hex_body data = (if startswith data UTF8_BOM then drop (length UTF8_BOM) data else data)"

definition is_intel_hex :: "bytes \<Rightarrow> bool" where
  "is_intel_hex data \<longleftrightarrow>
     (let lines = hex_lines (hex_body data);
          types = map (\<lambda>l. intel_hex_record_type (hex_stripped l)) (filter substantive lines) in
      (\<forall>line \<in> set lines. length line \<le> MAX_INTEL_HEX_LINE_BYTES)
      \<and> 2 \<le> length types \<and> last types = Some 1
      \<and> (\<forall>t \<in> set (butlast types). t \<noteq> None \<and> t \<noteq> Some 1))"

lemma lines_accepted_spec:
  "lines_accepted n seen lines \<longleftrightarrow>
     (\<forall>line \<in> set lines. length line \<le> MAX_INTEL_HEX_LINE_BYTES)
     \<and> (let types = map (\<lambda>l. intel_hex_record_type (hex_stripped l)) (filter substantive lines) in
        2 \<le> n + length types
        \<and> (if types = [] then seen
           else \<not> seen \<and> last types = Some 1 \<and> (\<forall>t \<in> set (butlast types). t \<noteq> None \<and> t \<noteq> Some 1)))"
proof (induction lines arbitrary: n seen)
  case Nil
  then show ?case by (auto simp: Let_def)
next
  case (Cons line lines)
  show ?case
  proof (cases "substantive line")
    case False
    then show ?thesis by (simp add: Cons.IH Let_def)
  next
    case True
    then show ?thesis
      by (cases "intel_hex_record_type (hex_stripped line)";
          cases "filter substantive lines")
        (auto simp: Cons.IH Let_def)
  qed
qed

lemma intel_finish_body: "ih_preamble_done s \<Longrightarrow> intel_finish s \<longleftrightarrow> body_accepted s"
  by (simp add: intel_finish_def body_accepted_def Let_def)

definition intel_body :: intel_hex where
  "intel_body = intel_init\<lparr>ih_preamble_done := True\<rparr>"

lemma intel_body_accepted: "body_accepted (fold line_byte data intel_body) \<longleftrightarrow>
    lines_accepted 0 False (hex_lines data)"
proof -
  have "ih_possible intel_body" "line_fits intel_body"
    by (simp_all add: intel_body_def intel_init_def line_fits_def)
  then show ?thesis using body_accepted_lines [of intel_body data]
    by (simp add: intel_body_def intel_init_def)
qed

text \<open>A byte order mark that has started is held back until it is complete or broken off.\<close>

lemma preamble_kept:
  "startswith UTF8_BOM data \<Longrightarrow> length data < length UTF8_BOM \<Longrightarrow>
   fold intel_byte data intel_init = intel_init\<lparr>ih_preamble := data\<rparr>"
proof (induction data rule: rev_induct)
  case Nil
  then show ?case by (simp add: intel_init_def)
next
  case (snoc c data)
  have "startswith UTF8_BOM data" using snoc.prems(1) by (auto simp: startswith_iff)
  then have "fold intel_byte data intel_init = intel_init\<lparr>ih_preamble := data\<rparr>"
    using snoc by simp
  moreover have "intel_byte c (intel_init\<lparr>ih_preamble := data\<rparr>) = intel_init\<lparr>ih_preamble := data @ [c]\<rparr>"
    using snoc.prems by (simp add: intel_byte_def intel_init_def Let_def)
  ultimately show ?case by simp
qed

lemma preamble_broken:
  "startswith UTF8_BOM data \<Longrightarrow> length data < length UTF8_BOM \<Longrightarrow> \<not> startswith UTF8_BOM (data @ [c]) \<Longrightarrow>
   fold intel_byte (data @ c # rest) intel_init = fold line_byte (data @ c # rest) intel_body"
proof -
  assume data: "startswith UTF8_BOM data" "length data < length UTF8_BOM" "\<not> startswith UTF8_BOM (data @ [c])"
  let ?s = "intel_init\<lparr>ih_preamble := data\<rparr>"
  have "intel_byte c ?s = fold line_byte (data @ [c]) intel_body"
    using data(3) by (simp add: intel_byte_def intel_body_def intel_init_def Let_def)
  then have "fold intel_byte (data @ c # rest) intel_init = fold intel_byte rest (fold line_byte (data @ [c]) intel_body)"
    using preamble_kept [OF data(1,2)] by simp
  also have "\<dots> = fold line_byte rest (fold line_byte (data @ [c]) intel_body)"
    by (intro intel_byte_done) (simp only: fold_line_byte_preamble, simp add: intel_body_def)
  finally show ?thesis by simp
qed

lemma preamble_complete: "fold intel_byte (UTF8_BOM @ rest) intel_init = fold line_byte rest intel_body"
proof -
  have "fold intel_byte UTF8_BOM intel_init = intel_body"
    by (simp add: UTF8_BOM_def intel_byte_def intel_init_def intel_body_def Let_def startswith_def)
  then show ?thesis by (simp add: intel_byte_done intel_body_def)
qed

lemma preamble_split:
  assumes "\<not> startswith data UTF8_BOM" "\<not> startswith UTF8_BOM data"
  obtains pre c rest where "data = pre @ c # rest" "startswith UTF8_BOM pre" "length pre < length UTF8_BOM"
    "\<not> startswith UTF8_BOM (pre @ [c])"
proof -
  have "\<not> Sublist.prefix data UTF8_BOM" "\<not> Sublist.prefix UTF8_BOM data"
    using assms by (auto simp: startswith_iff prefix_def)
  then have "data \<parallel> UTF8_BOM" by blast
  then obtain pre c rest d rest' where *: "data = pre @ c # rest" "UTF8_BOM = pre @ d # rest'" "c \<noteq> d"
    using parallel_decomp by metis
  have "length pre < length UTF8_BOM" by (simp only: *(2)) simp
  moreover have "startswith UTF8_BOM pre" by (simp only: *(2) startswith_append)
  moreover have "\<not> startswith UTF8_BOM (pre @ [c])"
    unfolding *(2) startswith_iff using *(3) by simp
  ultimately show thesis using that [OF *(1)] by blast
qed

lemma intel_finish_iff: "intel_finish (intel_feed intel_init data) \<longleftrightarrow> is_intel_hex data"
proof -
  have "intel_finish (intel_feed intel_init data) \<longleftrightarrow> lines_accepted 0 False (hex_lines (hex_body data))"
  proof (cases "startswith data UTF8_BOM")
    case True
    then obtain rest where data: "data = UTF8_BOM @ rest" by (auto simp: startswith_iff)
    have "ih_preamble_done (fold line_byte rest intel_body)"
      by (simp only: fold_line_byte_preamble) (simp add: intel_body_def)
    moreover have "intel_feed intel_init data = fold line_byte rest intel_body"
      by (simp only: data intel_feed_init preamble_complete)
    ultimately show ?thesis
      by (simp add: data intel_finish_body intel_body_accepted hex_body_def)
  next
    case False
    then have body: "hex_body data = data" by (simp add: hex_body_def)
    show ?thesis
    proof (cases "startswith UTF8_BOM data")
      case True
      have short: "length data < length UTF8_BOM"
      proof (rule ccontr)
        assume "\<not> length data < length UTF8_BOM"
        then have "data = UTF8_BOM" using True by (simp add: startswith_def)
        then show False using False by (simp add: startswith_def)
      qed
      have *: "ih_possible intel_body" "line_fits intel_body"
        by (simp_all add: intel_body_def intel_init_def line_fits_def)
      have "intel_init\<lparr>ih_preamble := [], ih_preamble_done := True\<rparr> = intel_body"
        by (simp add: intel_body_def intel_init_def)
      then have "intel_finish (intel_init\<lparr>ih_preamble := data\<rparr>) \<longleftrightarrow> body_accepted (intel_feed_body intel_body data)"
        by (simp add: intel_finish_def body_accepted_def intel_init_def intel_body_def Let_def)
      then show ?thesis
        using preamble_kept [OF True short] feed_body_fold [OF *]
        by (simp add: intel_feed_init body intel_body_accepted)
    next
      assume "\<not> startswith UTF8_BOM data"
      with False obtain pre c rest where split: "data = pre @ c # rest" "startswith UTF8_BOM pre"
          "length pre < length UTF8_BOM" "\<not> startswith UTF8_BOM (pre @ [c])"
        using preamble_split by blast
      have "ih_preamble_done (fold line_byte data intel_body)"
        by (simp only: fold_line_byte_preamble) (simp add: intel_body_def)
      then show ?thesis
        using preamble_broken [OF split(2-4), of rest]
        by (simp add: intel_feed_init split(1) [symmetric] intel_finish_body intel_body_accepted body)
    qed
  qed
  then show ?thesis
    by (auto simp: lines_accepted_spec is_intel_hex_def Let_def)
qed

section \<open>The PDF scanner\<close>

lemma pdf_feed_found: "pdf_found s \<Longrightarrow> pdf_feed s data = s"
  by (cases data) simp_all

lemma pdf_feed_append: "pdf_feed s (xs @ ys) = pdf_feed (pdf_feed s xs) ys"
  by (induction xs arbitrary: s) (simp_all add: pdf_feed_found)

text \<open>After a line end the scanner is ready for an object: between numbers, or at a boundary.\<close>

definition pdf_ready :: "pdf_scanner \<Rightarrow> bool" where
  "pdf_ready s \<longleftrightarrow> pdf_found s \<or> (pdf_state s = SEEK_FIRST \<and> pdf_boundary s) \<or> pdf_state s = NUMBER_GAP"

lemma line_end_whitespace: "line_end c \<Longrightarrow> pdf_whitespace c \<and> is_boundary c \<and> \<not> is_digit c \<and> c \<noteq> CHR ''%''"
  by (auto simp: line_end_def pdf_whitespace_def is_boundary_def PDF_WHITESPACE_def CR_def LF_def
      is_digit_def)

lemma pdf_ready_line_end:
  assumes "line_end c"
  shows "pdf_ready (pdf_byte c s)"
  using line_end_whitespace [OF assms] assms
  by (cases "pdf_state s")
    (auto simp: pdf_byte_def pdf_ready_def pdf_reset_def line_end_def CR_def LF_def)

definition pdf_number :: "bytes \<Rightarrow> bool" where
  "pdf_number n \<longleftrightarrow> n \<noteq> [] \<and> length n \<le> 10 \<and> list_all is_digit n"

definition pdf_gap :: "bytes \<Rightarrow> bool" where
  "pdf_gap g \<longleftrightarrow> g \<noteq> [] \<and> list_all pdf_whitespace g"

lemma whitespace_no_digit: "pdf_whitespace c \<Longrightarrow> \<not> is_digit c"
  by (auto simp: pdf_whitespace_def PDF_WHITESPACE_def is_digit_def)

lemma feed_digits:
  "list_all is_digit n \<Longrightarrow> pdf_state s = NUMBER \<Longrightarrow> \<not> pdf_found s \<Longrightarrow> pdf_digits s + length n \<le> 10 \<Longrightarrow>
   pdf_state (pdf_feed s n) = NUMBER \<and> pdf_completed (pdf_feed s n) = pdf_completed s \<and> \<not> pdf_found (pdf_feed s n)"
proof (induction n arbitrary: s)
  case (Cons c n)
  have "pdf_byte c s = s\<lparr>pdf_digits := pdf_digits s + 1\<rparr>"
    using Cons.prems by (simp add: pdf_byte_def Let_def)
  then show ?case using Cons by simp
qed simp

lemma feed_gap:
  "list_all pdf_whitespace g \<Longrightarrow> pdf_state s = NUMBER_GAP \<Longrightarrow> pdf_feed s g = s"
proof (induction g)
  case (Cons c g)
  then show ?case by (simp add: pdf_byte_def)
qed simp

text \<open>A number and the white space after it bring the scanner one number further.\<close>

lemma feed_number:
  assumes "pdf_number n" "pdf_gap g" "\<not> pdf_found s"
    and "pdf_state s = SEEK_FIRST \<and> pdf_boundary s \<and> k = 0 \<or> pdf_state s = NUMBER_GAP \<and> k \<le> pdf_completed s"
  shows "pdf_state (pdf_feed s (n @ g)) = NUMBER_GAP \<and> \<not> pdf_found (pdf_feed s (n @ g))
    \<and> min 2 (k + 1) \<le> pdf_completed (pdf_feed s (n @ g))"
proof -
  obtain c n' where n: "n = c # n'" "is_digit c" "list_all is_digit n'" "length n' \<le> 9"
    using assms(1) by (cases n) (auto simp: pdf_number_def)
  obtain w g' where g: "g = w # g'" "pdf_whitespace w" "list_all pdf_whitespace g'"
    using assms(2) by (cases g) (auto simp: pdf_gap_def)
  let ?s = "pdf_byte c s"
  have first: "pdf_state ?s = NUMBER" "pdf_digits ?s = 1" "\<not> pdf_found ?s" "k \<le> pdf_completed ?s"
  proof -
    have "\<not> pdf_whitespace c" using n(2) whitespace_no_digit by blast
    then have "?s = s\<lparr>pdf_state := NUMBER, pdf_digits := 1, pdf_completed := 0, pdf_boundary := False\<rparr> \<and> k = 0
        \<or> ?s = s\<lparr>pdf_state := NUMBER, pdf_digits := 1\<rparr> \<and> k \<le> pdf_completed s"
      using assms(4) n(2) by (elim disjE conjE) (simp_all add: pdf_byte_def)
    then show "pdf_state ?s = NUMBER" "pdf_digits ?s = 1" "\<not> pdf_found ?s" "k \<le> pdf_completed ?s"
      using assms(3) by (elim disjE conjE; simp)+
  qed
  let ?t = "pdf_feed ?s n'"
  have run: "pdf_state ?t = NUMBER" "k \<le> pdf_completed ?t" "\<not> pdf_found ?t"
    using feed_digits [OF n(3) first(1,3)] n(4) first(2,4) by simp_all
  have last_step: "pdf_byte w ?t = ?t\<lparr>pdf_completed := min 2 (pdf_completed ?t + 1), pdf_state := NUMBER_GAP\<rparr>"
    using run(1) g(2) whitespace_no_digit [OF g(2)] by (simp add: pdf_byte_def)
  have "pdf_feed s (n @ g) = pdf_feed (pdf_byte w ?t) g'"
    using assms(3) run(3) by (simp add: n(1) g(1) pdf_feed_append)
  also have "\<dots> = pdf_byte w ?t"
    by (rule feed_gap [OF g(3)]) (simp add: last_step)
  finally show ?thesis using run by (simp add: last_step)
qed

lemma feed_keyword:
  assumes "pdf_state s = NUMBER_GAP" "2 \<le> pdf_completed s" "\<not> pdf_found s" "is_boundary b"
  shows "pdf_found (pdf_feed s (''obj'' @ [b]))"
proof -
  have "\<not> pdf_whitespace (CHR ''o'')" "\<not> is_digit (CHR ''o'')"
    by (simp_all add: pdf_whitespace_def PDF_WHITESPACE_def is_digit_def)
  then show ?thesis using assms by (simp add: pdf_byte_def)
qed

lemma pdf_object_found:
  assumes "pdf_ready s" "pdf_number n" "pdf_gap g" "pdf_number m" "pdf_gap h" "is_boundary b"
  shows "pdf_found (pdf_feed s (n @ g @ m @ h @ ''obj'' @ b # rest))"
proof (cases "pdf_found s")
  case False
  let ?s1 = "pdf_feed s (n @ g)" and ?s2 = "pdf_feed (pdf_feed s (n @ g)) (m @ h)"
  have one: "pdf_state ?s1 = NUMBER_GAP" "\<not> pdf_found ?s1" "1 \<le> pdf_completed ?s1"
    using feed_number [OF assms(2,3) False, of 0] assms(1) False by (auto simp: pdf_ready_def)
  have two: "pdf_state ?s2 = NUMBER_GAP" "\<not> pdf_found ?s2" "2 \<le> pdf_completed ?s2"
    using feed_number [OF assms(4,5) one(2), of 1] one by auto
  have "pdf_feed s (n @ g @ m @ h @ ''obj'' @ b # rest) = pdf_feed (pdf_feed ?s2 (''obj'' @ [b])) rest"
    using pdf_feed_append [of s "n @ g" "m @ h @ ''obj'' @ b # rest"]
      pdf_feed_append [of ?s1 "m @ h" "''obj'' @ b # rest"] pdf_feed_append [of ?s2 "''obj'' @ [b]" rest]
    by simp
  then show ?thesis using feed_keyword [OF two(1,3,2) assms(6)] by (simp add: pdf_feed_found)
qed (simp add: pdf_feed_found)

end
