(* ===== verification/Bundle_Scan_Props.thy ===== *)
theory Bundle_Scan_Props
  imports Bundle_Hex_Props
begin

text \<open>
  Reading a member in pieces gives what reading it at once gives: the windows of the search for
  forbidden names and local paths overlap enough, the prefix and the tail are those of the whole
  content, the decoder and the scanners carry over. The outcome of \<open>scan_member_payload\<close> is
  compared with \<open>audit_of\<close>, which looks at the whole content, for every way of cutting it.
\<close>

section \<open>Searching\<close>

lemma occurs_iff: "occurs needle s \<longleftrightarrow> (\<exists>a b. s = a @ needle @ b)"
proof (induction s)
  case (Cons c s)
  show ?case
  proof
    assume "occurs needle (c # s)"
    then consider "startswith (c # s) needle" | a b where "s = a @ needle @ b" using Cons by auto
    then show "\<exists>a b. c # s = a @ needle @ b"
    proof cases
      case 1
      then obtain t where "c # s = needle @ t" by (auto simp: startswith_iff)
      then have "c # s = [] @ needle @ t" by simp
      then show ?thesis by blast
    next
      case 2
      then have "c # s = (c # a) @ needle @ b" by simp
      then show ?thesis by blast
    qed
  next
    assume "\<exists>a b. c # s = a @ needle @ b"
    then obtain a b where split: "c # s = a @ needle @ b" by blast
    show "occurs needle (c # s)"
    proof (cases a)
      case Nil
      then have "startswith (c # s) needle" using split unfolding startswith_iff by auto
      then show ?thesis by simp
    next
      case (Cons x a')
      then have "s = a' @ needle @ b" using split by simp
      then show ?thesis using Cons.IH by auto
    qed
  qed
qed auto

lemma occurs_append: "occurs needle s \<Longrightarrow> occurs needle (a @ s @ b)"
  by (metis append.assoc occurs_iff)

text \<open>An occurrence that is not in the old content is in its last bytes and the new ones.\<close>

lemma occurs_window:
  assumes "length needle \<le> n + 1"
  shows "occurs needle (s @ t) \<longleftrightarrow> occurs needle s \<or> occurs needle (last_bytes n s @ t)"
proof
  assume "occurs needle (s @ t)"
  then obtain a b where split: "s @ t = a @ needle @ b" by (auto simp: occurs_iff)
  show "occurs needle s \<or> occurs needle (last_bytes n s @ t)"
  proof (cases "length a + length needle \<le> length s")
    case True
    have "s = take (length s) (a @ needle @ b)" by (simp flip: split)
    also have "\<dots> = a @ needle @ take (length s - length a - length needle) b"
      using True by simp
    finally show ?thesis by (auto simp: occurs_iff)
  next
    case False
    let ?k = "length s - n"
    have k: "?k \<le> length a" using False assms by linarith
    have "last_bytes n s @ t = drop ?k (s @ t)" by (simp add: last_bytes_def)
    also have "\<dots> = drop ?k a @ needle @ b" using k by (simp add: split)
    finally show ?thesis by (auto simp: occurs_iff)
  qed
next
  have "s @ t = take (length s - n) s @ (last_bytes n s @ t) @ []" by (simp add: last_bytes_def)
  moreover assume "occurs needle s \<or> occurs needle (last_bytes n s @ t)"
  ultimately show "occurs needle (s @ t)"
    using occurs_append [of needle s "[]" t] occurs_append [of needle "last_bytes n s @ t"]
    by (metis append_Nil)
qed

lemma last_bytes_append: "last_bytes n (last_bytes n s @ t) = last_bytes n (s @ t)"
  by (cases "n \<le> length s") (simp_all add: last_bytes_def add.commute)

lemma last_bytes_length [simp]: "length (last_bytes n s) = min n (length s)"
  by (simp add: last_bytes_def)

lemma lower_last_bytes: "lower (last_bytes n s) = last_bytes n (lower s)"
  by (simp add: lower_def last_bytes_def drop_map)

lemma lower_append: "lower (s @ t) = lower s @ lower t"
  by (simp add: lower_def)

lemma forbidden_short: "f \<in> set FORBIDDEN_BYTES \<Longrightarrow> length f \<le> 16"
  by (auto simp: FORBIDDEN_BYTES_def)

definition forbidden_reference :: "bytes \<Rightarrow> bool" where
  "forbidden_reference s \<longleftrightarrow> (\<exists>f \<in> set FORBIDDEN_BYTES. occurs (lower f) (lower s))"

lemma forbidden_window:
  "forbidden_reference s \<or> forbidden_reference (last_bytes (CONTENT_SCAN_OVERLAP_BYTES + 1) s @ t)
   \<longleftrightarrow> forbidden_reference (s @ t)"
proof -
  have "occurs (lower f) (lower (s @ t)) \<longleftrightarrow> occurs (lower f) (lower s)
      \<or> occurs (lower f) (lower (last_bytes (CONTENT_SCAN_OVERLAP_BYTES + 1) s @ t))"
    if "f \<in> set FORBIDDEN_BYTES" for f
    using occurs_window [of "lower f" "CONTENT_SCAN_OVERLAP_BYTES + 1" "lower s" "lower t"] forbidden_short [OF that]
    by (simp add: lower_append lower_last_bytes) (simp add: lower_def CONTENT_SCAN_OVERLAP_BYTES_def)
  then show ?thesis unfolding forbidden_reference_def by blast
qed

section \<open>Paths of a local host\<close>

text \<open>A place of the data where a pattern of \<open>HOME_PATHS\<close> matches.\<close>

definition host_at :: "bytes \<Rightarrow> nat \<Rightarrow> bool" where
  "host_at data m \<longleftrightarrow> (\<exists>p \<in> set HOME_PATHS. match_at p data m)"

lemma find_None_mem: "find p xs = None \<longleftrightarrow> (\<forall>x \<in> set xs. \<not> p x)"
  by (induction xs) auto

lemma home_nonempty: "p \<in> set HOME_PATHS \<Longrightarrow> \<not> p []"
  by (auto simp: HOME_PATHS_def host_unix_def host_macos_def host_windows_def host_temporary_def startswith_def)

lemma match_at_bound: "p \<in> set HOME_PATHS \<Longrightarrow> match_at p data m \<Longrightarrow> m < length data"
  using home_nonempty [of p] by (cases "m < length data") (auto simp: match_at_def)

lemma search_None: "p \<in> set HOME_PATHS \<Longrightarrow>
  search p data position = None \<longleftrightarrow> (\<forall>m \<ge> position. \<not> match_at p data m)"
  using match_at_bound [of p data] by (fastforce simp: search_def find_None_mem)

lemma find_least: "find p [i ..< j] = Some m \<Longrightarrow> i \<le> k \<Longrightarrow> k < m \<Longrightarrow> \<not> p k"
proof (induction "j - i" arbitrary: i)
  case (Suc n)
  then have upt: "[i ..< j] = i # [Suc i ..< j]" by (simp add: upt_conv_Cons)
  show ?case
  proof (cases "p i \<or> k = i")
    case True
    then show ?thesis using Suc.prems upt by (auto split: if_splits)
  next
    case False
    then show ?thesis using Suc.hyps(1) [of "Suc i"] Suc.hyps(2) Suc.prems upt by auto
  qed
qed simp

lemma search_Some:
  "search p data position = Some m \<Longrightarrow> match_at p data m \<and> position \<le> m \<and> (\<forall>k. position \<le> k \<longrightarrow> k < m \<longrightarrow> \<not> match_at p data k)"
  using find_Some_mem [of "match_at p data"] find_least [of "match_at p data" position "Suc (length data)" m]
  by (fastforce simp: search_def)

lemma pattern_before_iff:
  "p \<in> set HOME_PATHS \<Longrightarrow>
   pattern_before p data limit minimum position \<longleftrightarrow>
   (\<exists>m. position \<le> m \<and> minimum \<le> m \<and> m < limit \<and> match_at p data m)"
proof (induction p data limit minimum position rule: pattern_before.induct)
  case (1 p data limit minimum position)
  show ?case
  proof (cases "position < limit")
    case False
    then show ?thesis by (subst pattern_before.simps) auto
  next
    case True
    show ?thesis
    proof (cases "search p data position")
      case None
      then have "\<not> pattern_before p data limit minimum position"
        by (subst pattern_before.simps) simp
      then show ?thesis using None search_None [OF "1.prems"] by auto
    next
      case (Some m)
      note least = search_Some [OF Some]
      have step: "pattern_before p data limit minimum position \<longleftrightarrow>
          m < limit \<and> (minimum \<le> m \<or> pattern_before p data limit minimum (m + 1))"
        using True Some by (subst pattern_before.simps) auto
      show ?thesis
      proof (cases "m < limit \<and> \<not> minimum \<le> m")
        case True
        then have "pattern_before p data limit minimum (m + 1) \<longleftrightarrow>
            (\<exists>k. m + 1 \<le> k \<and> minimum \<le> k \<and> k < limit \<and> match_at p data k)"
          using "1.IH" [OF \<open>position < limit\<close> Some] "1.prems" by simp
        moreover have "m + 1 \<le> k \<longleftrightarrow> position \<le> k" if "minimum \<le> k" for k
          using that True least by linarith
        ultimately show ?thesis using step True by blast
      next
        case False
        show ?thesis
        proof (cases "m < limit")
          case True
          with False step least show ?thesis by blast
        next
          case False
          then have "\<not> match_at p data k" if "position \<le> k" "k < limit" for k
            using that least by auto
          then show ?thesis using step False by blast
        qed
      qed
    qed
  qed
qed

lemma before_iff:
  "contains_local_host_path_before data limit minimum \<longleftrightarrow> (\<exists>m. minimum \<le> m \<and> m < limit \<and> host_at data m)"
  using pattern_before_iff [of _ data limit minimum 0]
  by (fastforce simp: contains_local_host_path_before_def host_at_def list_ex_iff)

lemma contains_iff: "contains_local_host_path data \<longleftrightarrow> (\<exists>m. host_at data m)"
proof -
  have "search p data 0 \<noteq> None \<longleftrightarrow> (\<exists>m. match_at p data m)" if "p \<in> set HOME_PATHS" for p
    using search_None [OF that, of data 0] by (cases "search p data 0") auto
  then show ?thesis unfolding contains_local_host_path_def host_at_def list_ex_iff by blast
qed

lemma host_at_bound: "host_at data m \<Longrightarrow> m < length data"
  by (auto simp: host_at_def dest: match_at_bound)

text \<open>No pattern looks at more than 22 bytes.\<close>

lemma startswith_take: "length p \<le> n \<Longrightarrow> startswith (take n s) p = startswith s p"
  by (simp add: startswith_def min_def)

lemma home_local:
  assumes "p \<in> set HOME_PATHS" "22 \<le> n"
  shows "p (take n s) = p s"
proof -
  have word: "word_ends (drop k (take n s)) = word_ends (drop k s)" if "k < n" for k
    using that by (cases "drop k s"; cases "n - k") (simp_all add: word_ends_def drop_take)
  have "host_windows (take n s) = host_windows s"
  proof (cases s)
    case (Cons c t)
    moreover obtain k where "n = Suc k" using assms(2) by (cases n) auto
    moreover have "lower (take k t) = take k (lower t)" by (simp add: lower_def take_map)
    ultimately show ?thesis using assms(2)
      by (simp add: host_windows_def startswith_take)
  qed simp
  moreover have "host_unix (take n s) = host_unix s" "host_macos (take n s) = host_macos s"
    using assms(2) by (simp_all add: host_unix_def host_macos_def startswith_take)
  moreover have "host_temporary (take n s) = host_temporary s"
    using assms(2) by (simp add: host_temporary_def startswith_take word)
  ultimately show ?thesis using assms(1) by (auto simp: HOME_PATHS_def)
qed

lemma host_at_append:
  assumes "m + 22 \<le> length s"
  shows "host_at (s @ t) m \<longleftrightarrow> host_at s m"
proof -
  have "p (drop m (s @ t)) = p (drop m s)" if "p \<in> set HOME_PATHS" for p
    using home_local [OF that, of "length s - m" "drop m (s @ t)"] assms by simp
  moreover have "(s @ t) ! (m - 1) = s ! (m - 1)" using assms by (subst nth_append) auto
  ultimately show ?thesis unfolding host_at_def match_at_def by auto
qed

lemma host_at_drop:
  assumes "k = 0 \<or> 1 \<le> m"
  shows "host_at (drop k s) m \<longleftrightarrow> host_at s (k + m)"
proof (cases "k + m \<le> length s")
  case True
  have "drop k s ! (m - 1) = s ! (k + m - 1)" if "1 \<le> m" using that True by simp
  then show ?thesis using assms
    by (auto simp: host_at_def match_at_def add.commute)
next
  case False
  then show ?thesis using host_at_bound [of "drop k s" m] host_at_bound [of s "k + m"] by fastforce
qed

lemma split_range:
  "(a :: nat) \<le> b \<Longrightarrow> (\<exists>m. m < a \<and> q m) \<or> (\<exists>m. a \<le> m \<and> m < b \<and> q m) \<longleftrightarrow> (\<exists>m. m < b \<and> q m)"
  by (meson less_le_trans not_le)

text \<open>The flag of the loop: a match that starts more than the overlap before the end.\<close>

definition host_seen :: "bytes \<Rightarrow> bool" where
  "host_seen s \<longleftrightarrow> (\<exists>m. m < length s - CONTENT_SCAN_OVERLAP_BYTES \<and> host_at s m)"

lemma host_window:
  fixes s t :: bytes
  defines "window \<equiv> last_bytes (CONTENT_SCAN_OVERLAP_BYTES + 1) s @ t"
  shows "host_seen s \<or> contains_local_host_path_before window (length window - CONTENT_SCAN_OVERLAP_BYTES)
           (if length (s @ t) = length window then 0 else 1)
     \<longleftrightarrow> host_seen (s @ t)"
proof -
  define k where "k = length s - (CONTENT_SCAN_OVERLAP_BYTES + 1)"
  have window: "window = drop k (s @ t)" by (simp add: window_def last_bytes_def k_def)
  have len: "length window = length (s @ t) - k" "k \<le> length s" by (auto simp: window k_def)
  then have whole: "length (s @ t) = length window \<longleftrightarrow> k = 0" by auto
  have limit: "length window - CONTENT_SCAN_OVERLAP_BYTES + k = length (s @ t) - CONTENT_SCAN_OVERLAP_BYTES
      \<or> length window \<le> CONTENT_SCAN_OVERLAP_BYTES \<and> k = 0"
    using len by (auto simp: k_def)
  have "contains_local_host_path_before window (length window - CONTENT_SCAN_OVERLAP_BYTES)
          (if length (s @ t) = length window then 0 else 1) \<longleftrightarrow>
        (\<exists>m. (if k = 0 then 0 else 1) \<le> m \<and> m < length window - CONTENT_SCAN_OVERLAP_BYTES \<and> host_at (s @ t) (k + m))"
    unfolding before_iff whole using host_at_drop [of k _ "s @ t"] by (auto simp: window)
  also have "\<dots> \<longleftrightarrow> (\<exists>m. (if k = 0 then 0 else k + 1) \<le> m \<and> m < length (s @ t) - CONTENT_SCAN_OVERLAP_BYTES \<and> host_at (s @ t) m)"
  proof
    assume "\<exists>m. (if k = 0 then 0 else 1) \<le> m \<and> m < length window - CONTENT_SCAN_OVERLAP_BYTES \<and> host_at (s @ t) (k + m)"
    then obtain m where "(if k = 0 then 0 else 1) \<le> m" "m < length window - CONTENT_SCAN_OVERLAP_BYTES" "host_at (s @ t) (k + m)"
      by blast
    moreover from this have "k + m < length (s @ t) - CONTENT_SCAN_OVERLAP_BYTES" using len by linarith
    ultimately show "\<exists>m. (if k = 0 then 0 else k + 1) \<le> m \<and> m < length (s @ t) - CONTENT_SCAN_OVERLAP_BYTES \<and> host_at (s @ t) m"
      by (intro exI [of _ "k + m"]) (auto split: if_splits)
  next
    assume "\<exists>m. (if k = 0 then 0 else k + 1) \<le> m \<and> m < length (s @ t) - CONTENT_SCAN_OVERLAP_BYTES \<and> host_at (s @ t) m"
    then obtain m where m: "(if k = 0 then 0 else k + 1) \<le> m" "m < length (s @ t) - CONTENT_SCAN_OVERLAP_BYTES" "host_at (s @ t) m"
      by blast
    then have "k \<le> m" by (auto split: if_splits)
    with m len show "\<exists>m. (if k = 0 then 0 else 1) \<le> m \<and> m < length window - CONTENT_SCAN_OVERLAP_BYTES \<and> host_at (s @ t) (k + m)"
      by (intro exI [of _ "m - k"]) (auto split: if_splits)
  qed
  finally have new: "contains_local_host_path_before window (length window - CONTENT_SCAN_OVERLAP_BYTES)
          (if length (s @ t) = length window then 0 else 1) \<longleftrightarrow> \<dots>" .
  have old: "host_seen s \<longleftrightarrow> (\<exists>m. m < length s - CONTENT_SCAN_OVERLAP_BYTES \<and> host_at (s @ t) m)"
    unfolding host_seen_def using host_at_append [of _ s t]
    by (intro ex_cong1 conj_cong refl) (simp add: CONTENT_SCAN_OVERLAP_BYTES_def)
  show ?thesis
  proof (cases "k = 0")
    case True
    have le: "length s - CONTENT_SCAN_OVERLAP_BYTES \<le> length (s @ t) - CONTENT_SCAN_OVERLAP_BYTES" by simp
    show ?thesis unfolding new old unfolding host_seen_def using True less_le_trans [OF _ le] by auto
  next
    case False
    then have "length s - CONTENT_SCAN_OVERLAP_BYTES = k + 1" by (simp add: k_def)
    moreover have "length s - CONTENT_SCAN_OVERLAP_BYTES \<le> length (s @ t) - CONTENT_SCAN_OVERLAP_BYTES" by simp
    ultimately show ?thesis using False split_range [of "k + 1" "length (s @ t) - CONTENT_SCAN_OVERLAP_BYTES"]
      unfolding new old unfolding host_seen_def by simp
  qed
qed

lemma host_final:
  "host_seen s \<or> contains_local_host_path_before (last_bytes (CONTENT_SCAN_OVERLAP_BYTES + 1) s)
      (length (last_bytes (CONTENT_SCAN_OVERLAP_BYTES + 1) s))
      (if length s = length (last_bytes (CONTENT_SCAN_OVERLAP_BYTES + 1) s) then 0 else 1)
   \<longleftrightarrow> contains_local_host_path s"
proof -
  define k where "k = length s - (CONTENT_SCAN_OVERLAP_BYTES + 1)"
  let ?w = "last_bytes (CONTENT_SCAN_OVERLAP_BYTES + 1) s"
  have w: "?w = drop k s" by (simp add: last_bytes_def k_def)
  have whole: "length s = length ?w \<longleftrightarrow> k = 0" by (auto simp: k_def)
  have "contains_local_host_path_before ?w (length ?w) (if length s = length ?w then 0 else 1) \<longleftrightarrow>
      (\<exists>m. (if k = 0 then 0 else 1) \<le> m \<and> host_at (drop k s) m)"
    unfolding before_iff whole unfolding w using host_at_bound by blast
  also have "\<dots> \<longleftrightarrow> (\<exists>m. (if k = 0 then 0 else 1) \<le> m \<and> host_at s (k + m))"
    using host_at_drop [of k _ s] by auto
  also have "\<dots> \<longleftrightarrow> (\<exists>m. (if k = 0 then 0 else k + 1) \<le> m \<and> host_at s m)"
  proof (cases "k = 0")
    case False
    show ?thesis
    proof
      assume "\<exists>m. (if k = 0 then 0 else 1) \<le> m \<and> host_at s (k + m)"
      then obtain m where "1 \<le> m" "host_at s (k + m)" using False by auto
      then show "\<exists>m. (if k = 0 then 0 else k + 1) \<le> m \<and> host_at s m"
        using False by (intro exI [of _ "k + m"]) simp
    next
      assume "\<exists>m. (if k = 0 then 0 else k + 1) \<le> m \<and> host_at s m"
      then obtain m where "k + 1 \<le> m" "host_at s m" using False by auto
      then show "\<exists>m. (if k = 0 then 0 else 1) \<le> m \<and> host_at s (k + m)"
        using False by (intro exI [of _ "m - k"]) simp
    qed
  qed simp
  finally have final: "contains_local_host_path_before ?w (length ?w) (if length s = length ?w then 0 else 1) \<longleftrightarrow> \<dots>" .
  have "m < length s - CONTENT_SCAN_OVERLAP_BYTES" if "0 < k" "m < k + 1" for m
    using that by (simp add: k_def)
  then show ?thesis unfolding final contains_iff host_seen_def
    by (metis le0 neq0_conv not_le_imp_less)
qed

end
