(* ===== verification/Bundle_Payload.thy ===== *)
theory Bundle_Payload
  imports Bundle_Scan_Props
begin

text \<open>
  The audit of the content of a member: the contract of a stream that is read in pieces, a stream
  that gives as many bytes as a schedule grants, and the outcome of \<open>scan_member_payload\<close> in terms
  of the whole content.
\<close>

section \<open>The decoder\<close>

lemma second_ok_2: "0xC2 \<le> byte_val a \<Longrightarrow> byte_val a \<le> 0xDF \<Longrightarrow> second_ok a b = cont_byte b"
  by (auto simp: second_ok_def)

lemma utf8_rest_ok: "utf8_rest s = Some [] \<longleftrightarrow> utf8_ok False s"
proof (induction s rule: utf8_rest.induct)
  case (2 a s)
  consider "byte_val a < 0x80" | "0x80 \<le> byte_val a" "byte_val a < 0xC2" | "0xC2 \<le> byte_val a" "byte_val a \<le> 0xDF"
    | "0xE0 \<le> byte_val a" "byte_val a \<le> 0xEF" | "0xF0 \<le> byte_val a" "byte_val a \<le> 0xF4" | "0xF4 < byte_val a"
    by linarith
  then show ?case
  proof cases
    case 3
    then show ?thesis using "2.IH"(2) by (auto simp: second_ok_2 split: list.split)
  next
    case 4
    then show ?thesis using "2.IH"(3) by (auto simp: second_ok_def split: list.split)
  next
    case 5
    then show ?thesis using "2.IH"(4) by (auto simp: second_ok_def split: list.split)
  qed (use "2.IH"(1) in simp_all)
qed simp

lemma utf8_rest_append:
  "utf8_rest (s @ t) = (case utf8_rest s of None \<Rightarrow> None | Some kept \<Rightarrow> utf8_rest (kept @ t))"
proof (induction s rule: utf8_rest.induct)
  case (2 a s)
  consider "byte_val a < 0x80" | "0x80 \<le> byte_val a" "byte_val a < 0xC2" | "0xC2 \<le> byte_val a" "byte_val a \<le> 0xDF"
    | "0xE0 \<le> byte_val a" "byte_val a \<le> 0xEF" | "0xF0 \<le> byte_val a" "byte_val a \<le> 0xF4" | "0xF4 < byte_val a"
    by linarith
  then show ?case
  proof cases
    case 3
    then show ?thesis using "2.IH"(2) by (cases s) (auto split: option.split)
  next
    case 4
    then show ?thesis using "2.IH"(3)
      by (cases s; cases "tl s") (auto split: option.split list.split)
  next
    case 5
    then show ?thesis using "2.IH"(4)
      by (cases s; cases "tl s"; cases "tl (tl s)") (auto split: option.split list.split)
  qed (use "2.IH"(1) in simp_all)
qed simp

section \<open>The prefix\<close>

lemma pdf_header_at_append: "8 \<le> length s \<Longrightarrow> pdf_header_at (s @ t) = pdf_header_at s"
  by (simp add: pdf_header_at_def startswith_def nth_append)

lemma find_Some_upt:
  "find p [0 ..< n] = Some m \<longleftrightarrow> m < n \<and> p m \<and> (\<forall>k < m. \<not> p k)"
proof
  assume *: "find p [0 ..< n] = Some m"
  then show "m < n \<and> p m \<and> (\<forall>k < m. \<not> p k)"
    using find_Some_mem [OF *] find_least [OF *] by auto
next
  assume *: "m < n \<and> p m \<and> (\<forall>k < m. \<not> p k)"
  then obtain k where k: "find p [0 ..< n] = Some k"
    using find_None_mem [of p "[0 ..< n]"] by (cases "find p [0 ..< n]") auto
  have "k = m"
    using * find_Some_mem [OF k] find_least [OF k, of m] by (metis linorder_neqE_nat zero_le)
  with k show "find p [0 ..< n] = Some m" by simp
qed

lemma pdf_header_search_iff:
  "pdf_header_search s = Some m \<longleftrightarrow> pdf_header_at (drop m s) \<and> (\<forall>k < m. \<not> pdf_header_at (drop k s))"
  by (auto simp: pdf_header_search_def find_Some_upt pdf_header_at_def)

lemma pdf_header_search_end: "pdf_header_search s = Some m \<Longrightarrow> m + PDF_HEADER_BYTES \<le> length s"
  by (auto simp: pdf_header_search_iff pdf_header_at_def PDF_HEADER_BYTES_def)

text \<open>The leftmost header stays the leftmost one when bytes are added.\<close>

lemma pdf_header_search_append:
  assumes "pdf_header_search s = Some m"
  shows "pdf_header_search (s @ t) = Some m"
proof -
  have "m + 8 \<le> length s" using pdf_header_search_end [OF assms] by (simp add: PDF_HEADER_BYTES_def)
  then have "pdf_header_at (drop k (s @ t)) = pdf_header_at (drop k s)" if "k \<le> m" for k
    using pdf_header_at_append [of "drop k s" t] that by simp
  then show ?thesis using assms by (auto simp: pdf_header_search_iff)
qed

section \<open>The state of the loop\<close>

definition payload_at :: "nat \<Rightarrow> bool \<Rightarrow> bytes \<Rightarrow> payload_scan \<Rightarrow> bool" where
  "payload_at sz allowed content s \<longleftrightarrow>
     length content \<le> sz
     \<and> ps_remaining s = sz - length content
     \<and> ps_bytes_read s = length content
     \<and> ps_prefix s = take MAGIC_PROBE_BYTES content
     \<and> ps_scan_tail s = last_bytes (CONTENT_SCAN_OVERLAP_BYTES + 1) content
     \<and> ps_pdf_tail s = last_bytes PDF_TRAILER_WINDOW_BYTES content
     \<and> ps_pdf_object_scanner s =
         map_option (\<lambda>start. pdf_feed pdf_init (drop (start + PDF_HEADER_BYTES) content))
           (pdf_header_search (take MAGIC_PROBE_BYTES content))
     \<and> ps_pdf_scanned_bytes s \<le> length content
     \<and> ps_intel_hex s = intel_feed intel_init content
     \<and> ps_content_digest s = (if allowed then Some content else None)
     \<and> ps_has_nul s = (\<not> allowed \<and> CHR 0x00 \<in> set content)
     \<and> ps_forbidden_reference s = forbidden_reference content
     \<and> ps_local_host_path s = host_seen content
     \<and> ps_valid_utf8 s = (allowed \<or> utf8_rest content \<noteq> None)
     \<and> ps_decoder s = (if allowed then None else utf8_rest content)"

lemma payload_at_init: "payload_at sz allowed [] (payload_init sz allowed)"
proof -
  have "\<not> forbidden_reference []" by (auto simp: forbidden_reference_def FORBIDDEN_BYTES_def lower_def)
  moreover have "\<not> host_seen []" by (simp add: host_seen_def)
  moreover have "intel_feed intel_init [] = intel_init" by (simp add: intel_feed_init)
  ultimately show ?thesis
    by (simp add: payload_at_def payload_init_def last_bytes_def pdf_header_search_def)
qed

text \<open>What the steps for a chunk leave in each variable.\<close>

lemmas chunk_defs = scan_chunk_def count_chunk_def probe_chunk_def tail_chunk_def object_chunk_def
  window_chunk_def text_chunk_def Let_def

lemma count_fields:
  "ps_bytes_read (count_chunk c s) = ps_bytes_read s + length c"
  "ps_content_digest (count_chunk c s) = map_option (\<lambda>d. d @ c) (ps_content_digest s)"
  "ps_prefix (count_chunk c s) = ps_prefix s" "ps_scan_tail (count_chunk c s) = ps_scan_tail s"
  "ps_pdf_tail (count_chunk c s) = ps_pdf_tail s"
  "ps_pdf_object_scanner (count_chunk c s) = ps_pdf_object_scanner s"
  "ps_pdf_scanned_bytes (count_chunk c s) = ps_pdf_scanned_bytes s"
  "ps_intel_hex (count_chunk c s) = ps_intel_hex s" "ps_has_nul (count_chunk c s) = ps_has_nul s"
  "ps_forbidden_reference (count_chunk c s) = ps_forbidden_reference s"
  "ps_local_host_path (count_chunk c s) = ps_local_host_path s"
  "ps_valid_utf8 (count_chunk c s) = ps_valid_utf8 s" "ps_decoder (count_chunk c s) = ps_decoder s"
  by (simp_all add: count_chunk_def)

lemma probe_fields:
  "ps_bytes_read (probe_chunk c s) = ps_bytes_read s"
  "ps_content_digest (probe_chunk c s) = ps_content_digest s"
  "ps_prefix (probe_chunk c s) = (if length (ps_prefix s) < MAGIC_PROBE_BYTES
     then ps_prefix s @ take (MAGIC_PROBE_BYTES - length (ps_prefix s)) c else ps_prefix s)"
  "ps_scan_tail (probe_chunk c s) = ps_scan_tail s"
  "ps_pdf_tail (probe_chunk c s) = ps_pdf_tail s"
  "ps_intel_hex (probe_chunk c s) = ps_intel_hex s" "ps_has_nul (probe_chunk c s) = ps_has_nul s"
  "ps_forbidden_reference (probe_chunk c s) = ps_forbidden_reference s"
  "ps_local_host_path (probe_chunk c s) = ps_local_host_path s"
  "ps_valid_utf8 (probe_chunk c s) = ps_valid_utf8 s" "ps_decoder (probe_chunk c s) = ps_decoder s"
  by (simp_all add: probe_chunk_def Let_def split: option.split)

lemma tail_fields:
  "ps_bytes_read (tail_chunk c s) = ps_bytes_read s"
  "ps_content_digest (tail_chunk c s) = ps_content_digest s"
  "ps_prefix (tail_chunk c s) = ps_prefix s" "ps_scan_tail (tail_chunk c s) = ps_scan_tail s"
  "ps_pdf_tail (tail_chunk c s) = last_bytes PDF_TRAILER_WINDOW_BYTES (ps_pdf_tail s @ c)"
  "ps_pdf_object_scanner (tail_chunk c s) = ps_pdf_object_scanner s"
  "ps_pdf_scanned_bytes (tail_chunk c s) = ps_pdf_scanned_bytes s"
  "ps_intel_hex (tail_chunk c s) = intel_feed (ps_intel_hex s) c" "ps_has_nul (tail_chunk c s) = ps_has_nul s"
  "ps_forbidden_reference (tail_chunk c s) = ps_forbidden_reference s"
  "ps_local_host_path (tail_chunk c s) = ps_local_host_path s"
  "ps_valid_utf8 (tail_chunk c s) = ps_valid_utf8 s" "ps_decoder (tail_chunk c s) = ps_decoder s"
  by (simp_all add: tail_chunk_def)

lemma object_fields:
  "ps_bytes_read (object_chunk c s) = ps_bytes_read s"
  "ps_content_digest (object_chunk c s) = ps_content_digest s"
  "ps_prefix (object_chunk c s) = ps_prefix s" "ps_scan_tail (object_chunk c s) = ps_scan_tail s"
  "ps_pdf_tail (object_chunk c s) = ps_pdf_tail s"
  "ps_intel_hex (object_chunk c s) = ps_intel_hex s" "ps_has_nul (object_chunk c s) = ps_has_nul s"
  "ps_forbidden_reference (object_chunk c s) = ps_forbidden_reference s"
  "ps_local_host_path (object_chunk c s) = ps_local_host_path s"
  "ps_valid_utf8 (object_chunk c s) = ps_valid_utf8 s" "ps_decoder (object_chunk c s) = ps_decoder s"
  by (simp_all add: object_chunk_def Let_def split: option.split)

lemma window_fields:
  "ps_bytes_read (window_chunk c s) = ps_bytes_read s"
  "ps_content_digest (window_chunk c s) = ps_content_digest s"
  "ps_prefix (window_chunk c s) = ps_prefix s"
  "ps_scan_tail (window_chunk c s) = last_bytes (CONTENT_SCAN_OVERLAP_BYTES + 1) (ps_scan_tail s @ c)"
  "ps_pdf_tail (window_chunk c s) = ps_pdf_tail s"
  "ps_pdf_object_scanner (window_chunk c s) = ps_pdf_object_scanner s"
  "ps_pdf_scanned_bytes (window_chunk c s) = ps_pdf_scanned_bytes s"
  "ps_intel_hex (window_chunk c s) = ps_intel_hex s" "ps_has_nul (window_chunk c s) = ps_has_nul s"
  "ps_forbidden_reference (window_chunk c s) \<longleftrightarrow> ps_forbidden_reference s \<or> forbidden_reference (ps_scan_tail s @ c)"
  "ps_local_host_path (window_chunk c s) \<longleftrightarrow> ps_local_host_path s
      \<or> contains_local_host_path_before (ps_scan_tail s @ c)
          (length (ps_scan_tail s @ c) - CONTENT_SCAN_OVERLAP_BYTES)
          (if ps_bytes_read s = length (ps_scan_tail s @ c) then 0 else 1)"
  "ps_valid_utf8 (window_chunk c s) = ps_valid_utf8 s" "ps_decoder (window_chunk c s) = ps_decoder s"
  by (simp_all add: window_chunk_def Let_def forbidden_reference_def list_ex_iff)

lemma text_fields:
  "ps_bytes_read (text_chunk allowed c s) = ps_bytes_read s"
  "ps_content_digest (text_chunk allowed c s) = ps_content_digest s"
  "ps_prefix (text_chunk allowed c s) = ps_prefix s" "ps_scan_tail (text_chunk allowed c s) = ps_scan_tail s"
  "ps_pdf_tail (text_chunk allowed c s) = ps_pdf_tail s"
  "ps_pdf_object_scanner (text_chunk allowed c s) = ps_pdf_object_scanner s"
  "ps_pdf_scanned_bytes (text_chunk allowed c s) = ps_pdf_scanned_bytes s"
  "ps_intel_hex (text_chunk allowed c s) = ps_intel_hex s"
  "ps_has_nul (text_chunk allowed c s) \<longleftrightarrow> ps_has_nul s \<or> \<not> allowed \<and> CHR 0x00 \<in> set c"
  "ps_forbidden_reference (text_chunk allowed c s) = ps_forbidden_reference s"
  "ps_local_host_path (text_chunk allowed c s) = ps_local_host_path s"
  "ps_valid_utf8 (text_chunk allowed c s) \<longleftrightarrow> ps_valid_utf8 s
     \<and> (allowed \<or> (case ps_decoder s of None \<Rightarrow> True | Some kept \<Rightarrow> utf8_rest (kept @ c) \<noteq> None))"
  "ps_decoder (text_chunk allowed c s) = (if allowed then ps_decoder s
     else case ps_decoder s of None \<Rightarrow> None | Some kept \<Rightarrow> utf8_rest (kept @ c))"
  by (simp_all add: text_chunk_def Let_def split: option.split)

lemmas chunk_fields = count_fields probe_fields tail_fields object_fields window_fields text_fields

text \<open>The scanner for objects, over the two steps that give it bytes.\<close>

lemma object_step:
  "ps_pdf_object_scanner (object_chunk c s) =
     map_option (\<lambda>scanner. pdf_feed scanner
         (drop (max (ps_pdf_scanned_bytes s) (ps_bytes_read s - length c) - (ps_bytes_read s - length c)) c))
       (ps_pdf_object_scanner s)" if "length c \<le> ps_bytes_read s"
proof (cases "ps_pdf_object_scanner s")
  case (Some scanner)
  then show ?thesis using that
    by (cases "pdf_found scanner") (auto simp: object_chunk_def Let_def pdf_feed_found max_def)
qed (simp add: object_chunk_def)

lemma object_scanned:
  "ps_pdf_scanned_bytes s \<le> ps_bytes_read s \<Longrightarrow> ps_pdf_scanned_bytes (object_chunk c s) \<le> ps_bytes_read s"
  by (simp add: object_chunk_def Let_def split: option.split)

lemma header_in_window: "pdf_header_search (take MAGIC_PROBE_BYTES s) = Some start \<Longrightarrow> start < PDF_HEADER_WINDOW_BYTES"
  using pdf_header_search_end [of "take MAGIC_PROBE_BYTES s" start]
  by (simp add: MAGIC_PROBE_BYTES_def PDF_HEADER_WINDOW_BYTES_def PDF_HEADER_BYTES_def)

lemma probe_step:
  assumes pre: "ps_prefix s = take MAGIC_PROBE_BYTES content"
    and known: "ps_pdf_object_scanner s = None \<longleftrightarrow> pdf_header_search (take MAGIC_PROBE_BYTES content) = None"
  shows "ps_pdf_object_scanner (probe_chunk c s) =
      (case ps_pdf_object_scanner s of Some scanner \<Rightarrow> Some scanner
       | None \<Rightarrow> map_option (\<lambda>start. pdf_feed pdf_init (drop (start + PDF_HEADER_BYTES) (take MAGIC_PROBE_BYTES (content @ c))))
                   (pdf_header_search (take MAGIC_PROBE_BYTES (content @ c))))
    \<and> ps_pdf_scanned_bytes (probe_chunk c s) =
      (if ps_pdf_object_scanner s = None \<and> pdf_header_search (take MAGIC_PROBE_BYTES (content @ c)) \<noteq> None
       then length (take MAGIC_PROBE_BYTES (content @ c)) else ps_pdf_scanned_bytes s)"
proof (cases "length (ps_prefix s) < MAGIC_PROBE_BYTES")
  case True
  then have whole: "ps_prefix s = content" using pre by simp
  then have "ps_prefix s @ take (MAGIC_PROBE_BYTES - length (ps_prefix s)) c = take MAGIC_PROBE_BYTES (content @ c)"
    using True by simp
  then show ?thesis using True header_in_window [of "content @ c"]
    by (cases "ps_pdf_object_scanner s") (auto simp: probe_chunk_def Let_def split: option.split)
next
  case False
  then have "take MAGIC_PROBE_BYTES (content @ c) = take MAGIC_PROBE_BYTES content" using pre by simp
  then show ?thesis using False known
    by (cases "ps_pdf_object_scanner s") (auto simp: probe_chunk_def)
qed

lemma object_scanner_chunk:
  assumes read: "ps_bytes_read s = length (content @ c)" and pre: "ps_prefix s = take MAGIC_PROBE_BYTES content"
    and old: "ps_pdf_scanned_bytes s \<le> length content"
    and scanner: "ps_pdf_object_scanner s =
         map_option (\<lambda>start. pdf_feed pdf_init (drop (start + PDF_HEADER_BYTES) content))
           (pdf_header_search (take MAGIC_PROBE_BYTES content))"
  shows "ps_pdf_object_scanner (object_chunk c (tail_chunk c (probe_chunk c s))) =
         map_option (\<lambda>start. pdf_feed pdf_init (drop (start + PDF_HEADER_BYTES) (content @ c)))
           (pdf_header_search (take MAGIC_PROBE_BYTES (content @ c)))
    \<and> ps_pdf_scanned_bytes (object_chunk c (tail_chunk c (probe_chunk c s))) \<le> length (content @ c)"
proof
  let ?t = "tail_chunk c (probe_chunk c s)" and ?pre = "take MAGIC_PROBE_BYTES (content @ c)"
  have t: "ps_bytes_read ?t = length (content @ c)" using read by (simp add: tail_fields probe_fields)
  have probe: "ps_pdf_object_scanner (probe_chunk c s) =
      (case ps_pdf_object_scanner s of Some scanner \<Rightarrow> Some scanner
       | None \<Rightarrow> map_option (\<lambda>start. pdf_feed pdf_init (drop (start + PDF_HEADER_BYTES) ?pre)) (pdf_header_search ?pre))
    \<and> ps_pdf_scanned_bytes (probe_chunk c s) =
      (if ps_pdf_object_scanner s = None \<and> pdf_header_search ?pre \<noteq> None then length ?pre else ps_pdf_scanned_bytes s)"
    by (rule probe_step [OF pre]) (simp add: scanner)
  show "ps_pdf_scanned_bytes (object_chunk c ?t) \<le> length (content @ c)"
    using object_scanned [of ?t c] probe old t by (simp add: tail_fields split: if_splits)
  have step: "ps_pdf_object_scanner (object_chunk c ?t) =
     map_option (\<lambda>scanner. pdf_feed scanner (drop (max (ps_pdf_scanned_bytes ?t) (length content) - length content) c))
       (ps_pdf_object_scanner ?t)"
    using object_step [of c ?t] t by simp
  show "ps_pdf_object_scanner (object_chunk c ?t) =
         map_option (\<lambda>start. pdf_feed pdf_init (drop (start + PDF_HEADER_BYTES) (content @ c))) (pdf_header_search ?pre)"
  proof (cases "pdf_header_search (take MAGIC_PROBE_BYTES content)")
    case (Some start)
    have prefix: "?pre = take MAGIC_PROBE_BYTES content @ take (MAGIC_PROBE_BYTES - length content) c" by simp
    have "pdf_header_search ?pre = Some start" unfolding prefix by (rule pdf_header_search_append [OF Some])
    moreover have "start + PDF_HEADER_BYTES \<le> length content"
      using pdf_header_search_end [OF Some] by simp
    ultimately show ?thesis
      using Some scanner old probe by (simp add: step tail_fields pdf_feed_append max_def)
  next
    case None
    show ?thesis
    proof (cases "pdf_header_search ?pre")
      case (Some start)
      have "start + PDF_HEADER_BYTES \<le> length ?pre" by (rule pdf_header_search_end [OF Some])
      have short: "length content \<le> MAGIC_PROBE_BYTES"
      proof (rule ccontr)
        assume "\<not> length content \<le> MAGIC_PROBE_BYTES"
        then have same: "?pre = take MAGIC_PROBE_BYTES content" by simp
        have "pdf_header_search ?pre = None" unfolding same by (rule None)
        then show False using Some by (simp del: take_append)
      qed
      have rest: "?pre @ drop (length ?pre - length content) c = content @ c"
      proof (cases "length (content @ c) \<le> MAGIC_PROBE_BYTES")
        case False
        then have "length ?pre - length content = MAGIC_PROBE_BYTES - length content" by simp
        moreover have "?pre = content @ take (MAGIC_PROBE_BYTES - length content) c" using short by simp
        ultimately show ?thesis by simp
      qed simp
      have "length content \<le> length ?pre" using short by simp
      then have "ps_pdf_object_scanner (object_chunk c ?t) =
          Some (pdf_feed pdf_init (drop (start + PDF_HEADER_BYTES) ?pre @ drop (length ?pre - length content) c))"
        using None Some scanner probe
        by (simp only: step tail_fields pdf_feed_append max_def) (simp del: take_append)
      also have "drop (start + PDF_HEADER_BYTES) ?pre @ drop (length ?pre - length content) c =
          drop (start + PDF_HEADER_BYTES) (?pre @ drop (length ?pre - length content) c)"
        using \<open>start + PDF_HEADER_BYTES \<le> length ?pre\<close> by simp
      finally show ?thesis unfolding rest using Some by simp
    next
      case None
      then show ?thesis using \<open>pdf_header_search (take MAGIC_PROBE_BYTES content) = None\<close> scanner probe
        by (simp add: step tail_fields)
    qed
  qed
qed

lemma payload_at_chunk:
  assumes at: "payload_at sz allowed content s" and fits: "length c \<le> ps_remaining s"
  shows "payload_at sz allowed (content @ c) (scan_chunk allowed c s)"
proof -
  note at = at [unfolded payload_at_def]
  let ?s = "count_chunk c s"
  have scanner: "ps_pdf_object_scanner (object_chunk c (tail_chunk c (probe_chunk c ?s))) =
         map_option (\<lambda>start. pdf_feed pdf_init (drop (start + PDF_HEADER_BYTES) (content @ c)))
           (pdf_header_search (take MAGIC_PROBE_BYTES (content @ c)))
    \<and> ps_pdf_scanned_bytes (object_chunk c (tail_chunk c (probe_chunk c ?s))) \<le> length (content @ c)"
    using at by (intro object_scanner_chunk) (simp_all add: count_fields)
  have size: "length (content @ c) \<le> sz" using at fits by (elim conjE) simp
  have pre: "(if length (take MAGIC_PROBE_BYTES content) < MAGIC_PROBE_BYTES
      then take MAGIC_PROBE_BYTES content @ take (MAGIC_PROBE_BYTES - length (take MAGIC_PROBE_BYTES content)) c
      else take MAGIC_PROBE_BYTES content) = take MAGIC_PROBE_BYTES (content @ c)"
    by (simp add: min_def)
  have intel: "intel_feed (intel_feed intel_init content) c = intel_feed intel_init (content @ c)"
    by (rule intel_feed_append)
  have utf8: "(case utf8_rest content of None \<Rightarrow> None | Some kept \<Rightarrow> utf8_rest (kept @ c)) = utf8_rest (content @ c)"
    by (simp add: utf8_rest_append)
  have host: "host_seen content \<or> contains_local_host_path_before (last_bytes (CONTENT_SCAN_OVERLAP_BYTES + 1) content @ c)
          (length (last_bytes (CONTENT_SCAN_OVERLAP_BYTES + 1) content @ c) - CONTENT_SCAN_OVERLAP_BYTES)
          (if length (content @ c) = length (last_bytes (CONTENT_SCAN_OVERLAP_BYTES + 1) content @ c) then 0 else 1)
     \<longleftrightarrow> host_seen (content @ c)" by (rule host_window)
  have tails: "last_bytes n (last_bytes n content @ c) = last_bytes n (content @ c)" for n
    by (rule last_bytes_append)
  have remaining: "ps_remaining (scan_chunk allowed c s) = sz - length (content @ c)"
    using at by (simp add: scan_chunk_def)
  have object: "ps_pdf_object_scanner (scan_chunk allowed c s) =
      map_option (\<lambda>start. pdf_feed pdf_init (drop (start + PDF_HEADER_BYTES) (content @ c)))
        (pdf_header_search (take MAGIC_PROBE_BYTES (content @ c)))"
    using scanner by (simp add: scan_chunk_def window_fields text_fields)
  have scanned: "ps_pdf_scanned_bytes (scan_chunk allowed c s) \<le> length (content @ c)"
    using scanner by (simp add: scan_chunk_def window_fields text_fields)
  have prefix: "ps_prefix (scan_chunk allowed c s) = take MAGIC_PROBE_BYTES (content @ c)"
    using at pre by (simp only: scan_chunk_def chunk_fields)
  have tail: "ps_scan_tail (scan_chunk allowed c s) = last_bytes (CONTENT_SCAN_OVERLAP_BYTES + 1) (content @ c)"
    "ps_pdf_tail (scan_chunk allowed c s) = last_bytes PDF_TRAILER_WINDOW_BYTES (content @ c)"
    using at tails by (simp_all only: scan_chunk_def chunk_fields)
  have hex: "ps_intel_hex (scan_chunk allowed c s) = intel_feed intel_init (content @ c)"
    using at intel by (simp only: scan_chunk_def chunk_fields)
  have flags: "ps_bytes_read (scan_chunk allowed c s) = length (content @ c)"
    "ps_content_digest (scan_chunk allowed c s) = (if allowed then Some (content @ c) else None)"
    "ps_has_nul (scan_chunk allowed c s) \<longleftrightarrow> \<not> allowed \<and> CHR 0x00 \<in> set (content @ c)"
    using at by (auto simp: scan_chunk_def chunk_fields)
  have reference: "ps_forbidden_reference (scan_chunk allowed c s) = forbidden_reference (content @ c)"
    using at forbidden_window [of content c] by (simp only: scan_chunk_def chunk_fields)
  have path: "ps_local_host_path (scan_chunk allowed c s) = host_seen (content @ c)"
    using at host by (simp only: scan_chunk_def chunk_fields length_append)
  have utf: "ps_valid_utf8 (scan_chunk allowed c s) \<longleftrightarrow> allowed \<or> utf8_rest (content @ c) \<noteq> None"
    "ps_decoder (scan_chunk allowed c s) = (if allowed then None else utf8_rest (content @ c))"
    using at utf8_rest_append [of content c]
    by (cases allowed; cases "utf8_rest content"; simp add: scan_chunk_def chunk_fields)+
  show ?thesis
    unfolding payload_at_def
    using size remaining flags prefix tail object scanned hex reference path utf by blast
qed

section \<open>The outcome over the whole content\<close>

definition is_structured_pdf :: "bytes \<Rightarrow> bool" where
  "is_structured_pdf content \<longleftrightarrow>
     (case pdf_header_search (take MAGIC_PROBE_BYTES content) of None \<Rightarrow> False
      | Some start \<Rightarrow> pdf_found (pdf_feed pdf_init (drop (start + PDF_HEADER_BYTES) content))
          \<and> fullmatch PDF_EOF_RX (last_bytes PDF_TRAILER_WINDOW_BYTES content))"

definition audit_of :: "bytes \<Rightarrow> nat \<Rightarrow> bool \<Rightarrow> content_audit" where
  "audit_of data sz allowed =
     (let content = take sz data in
      \<lparr>ca_bytes_read = length content,
       ca_exact_size = (length data = sz),
       ca_forbidden_magic = (has_forbidden_binary_magic (take MAGIC_PROBE_BYTES content)
         \<or> is_structured_pdf content \<or> is_intel_hex content),
       ca_sha256 = (if allowed then Some (sha256_hex content) else None),
       ca_has_nul = (\<not> allowed \<and> CHR 0x00 \<in> set content),
       ca_valid_utf8 = (allowed \<or> utf8_ok False content),
       ca_forbidden_reference = forbidden_reference content,
       ca_local_host_path = contains_local_host_path content,
       ca_git_lfs_pointer = startswith content GIT_LFS_POINTER_HEADER\<rparr>)"

lemma payload_result_at:
  assumes at: "payload_at sz allowed (take sz data) s" 
    and extra: "extra = [] \<longleftrightarrow> drop sz data = []"
  shows "payload_result extra s = audit_of data sz allowed"
proof -
  let ?content = "take sz data"
  note at = at [unfolded payload_at_def]
  have exact: "ps_remaining s = 0 \<and> extra = [] \<longleftrightarrow> length data = sz"
    using at extra by auto
  have pdf: "has_structured_pdf (ps_prefix s)
       (case ps_pdf_object_scanner s of None \<Rightarrow> False | Some scanner \<Rightarrow> pdf_found scanner) (ps_pdf_tail s)
     \<longleftrightarrow> is_structured_pdf ?content"
    using at header_in_window [of ?content]
    by (auto simp: has_structured_pdf_def is_structured_pdf_def split: option.split)
  have intel: "intel_finish (ps_intel_hex s) \<longleftrightarrow> is_intel_hex ?content"
    using at by (simp add: intel_finish_iff)
  have utf8: "ps_valid_utf8 s \<and> ps_decoder s \<in> {None, Some []} \<longleftrightarrow> allowed \<or> utf8_ok False ?content"
    using at utf8_rest_ok [of ?content] by auto
  have host: "ps_local_host_path s \<or> contains_local_host_path_before (ps_scan_tail s) (length (ps_scan_tail s))
             (if ps_bytes_read s = length (ps_scan_tail s) then 0 else 1) \<longleftrightarrow> contains_local_host_path ?content"
    using at host_final [of ?content] by (elim conjE) (simp only:)
  have lfs: "startswith (ps_prefix s) GIT_LFS_POINTER_HEADER = startswith ?content GIT_LFS_POINTER_HEADER"
  proof -
    have "length GIT_LFS_POINTER_HEADER \<le> MAGIC_PROBE_BYTES"
      by (simp add: GIT_LFS_POINTER_HEADER_def MAGIC_PROBE_BYTES_def)
    then show ?thesis using at startswith_take by (elim conjE) (simp only:)
  qed
  have rest: "ps_bytes_read s = length ?content" "ps_prefix s = take MAGIC_PROBE_BYTES ?content"
    "map_option sha256_hex (ps_content_digest s) = (if allowed then Some (sha256_hex ?content) else None)"
    "ps_has_nul s = (\<not> allowed \<and> CHR 0x00 \<in> set ?content)"
    "ps_forbidden_reference s = forbidden_reference ?content"
    using at by simp_all
  show ?thesis
    unfolding payload_result_def audit_of_def Let_def exact pdf intel utf8 host lfs unfolding rest ..
qed

section \<open>Streams\<close>

text \<open>
  What the audit relies on in a stream it reads: \<open>read(n)\<close> gives some of the bytes that are left,
  at most \<open>n\<close> of them, and none only where none are left.
\<close>

locale byte_source =
  fixes read :: "nat \<Rightarrow> 'p \<Rightarrow> (bytes \<times> 'p) res" and rest_of :: "'p \<Rightarrow> bytes"
  assumes read_takes: "0 < n \<Longrightarrow> \<exists>chunk p'. read n p = Inr (chunk, p') \<and> rest_of p = chunk @ rest_of p'
      \<and> length chunk \<le> n \<and> (chunk = [] \<longrightarrow> rest_of p = [])"
begin

lemma payload_loop_at:
  "payload_at sz allowed content s \<Longrightarrow>
   \<exists>s' p'. payload_loop read allowed p s = Inr (s', p')
     \<and> payload_at sz allowed (take sz (content @ rest_of p)) s'
     \<and> rest_of p' = drop sz (content @ rest_of p)"
proof (induction "ps_remaining s" arbitrary: content s p rule: less_induct)
  case less
  note at = less.prems
  have fields: "ps_remaining s = sz - length content" "length content \<le> sz"
    using at by (simp_all add: payload_at_def)
  show ?case
  proof (cases "ps_remaining s = 0")
    case True
    then show ?thesis using at fields by (simp add: payload_loop.simps [of read allowed p s])
  next
    case False
    then obtain chunk p' where chunk: "read (min CONTENT_READ_BYTES (ps_remaining s)) p = Inr (chunk, p')"
        "rest_of p = chunk @ rest_of p'" "length chunk \<le> min CONTENT_READ_BYTES (ps_remaining s)"
        "chunk = [] \<longrightarrow> rest_of p = []"
      using read_takes [of "min CONTENT_READ_BYTES (ps_remaining s)" p] by (auto simp: CONTENT_READ_BYTES_def)
    show ?thesis
    proof (cases "chunk = []")
      case True
      then show ?thesis using at False chunk fields by (simp add: payload_loop.simps [of read allowed p s])
    next
      case nonempty: False
      have step: "payload_at sz allowed (content @ chunk) (scan_chunk allowed chunk s)"
        by (rule payload_at_chunk [OF at]) (use chunk in simp)
      moreover have "ps_remaining (scan_chunk allowed chunk s) < ps_remaining s"
        using nonempty False by (simp add: scan_chunk_def)
      moreover have "payload_loop read allowed p s = payload_loop read allowed p' (scan_chunk allowed chunk s)"
        using False chunk nonempty by (subst payload_loop.simps) simp
      ultimately show ?thesis
        using less.hyps [of "scan_chunk allowed chunk s" "content @ chunk" p'] chunk(2) by simp
    qed
  qed
qed

lemma scan_whole: "scan_member_payload read p sz allowed = Inr (audit_of (rest_of p) sz allowed)"
proof -
  obtain s' p' where loop: "payload_loop read allowed p (payload_init sz allowed) = Inr (s', p')"
      "payload_at sz allowed (take sz (rest_of p)) s'" "rest_of p' = drop sz (rest_of p)"
    using payload_loop_at [OF payload_at_init] by fastforce
  obtain extra q where extra: "read 1 p' = Inr (extra, q)" "rest_of p' = extra @ rest_of q" "length extra \<le> 1"
      "extra = [] \<longrightarrow> rest_of p' = []"
    using read_takes [of 1 p'] by auto
  have "extra = [] \<longleftrightarrow> drop sz (rest_of p) = []" using extra(2,4) loop(3) by auto
  then have "payload_result extra s' = audit_of (rest_of p) sz allowed"
    using payload_result_at [OF loop(2)] by blast
  then show ?thesis using loop(1) extra(1) by (simp add: scan_member_payload_def)
qed

end

text \<open>
  The stream of the model: the bytes that are left, and how many bytes each of the next reads is
  granted (at least one, and all that it asks for when the schedule is used up).
\<close>

type_synonym granted = "bytes \<times> nat list"

definition granted_read :: "nat \<Rightarrow> granted \<Rightarrow> (bytes \<times> granted) res" where
  "granted_read n p =
     (case p of (left, grants) \<Rightarrow>
        let k = (case grants of [] \<Rightarrow> n | g # _ \<Rightarrow> min n (max 1 g)) in
        Inr (take k left, (drop k left, tl grants)))"

interpretation granted: byte_source granted_read fst
proof
  fix n :: nat and p :: granted
  assume "0 < n"
  then show "\<exists>chunk p'. granted_read n p = Inr (chunk, p') \<and> fst p = chunk @ fst p'
      \<and> length chunk \<le> n \<and> (chunk = [] \<longrightarrow> fst p = [])"
    by (auto simp: granted_read_def Let_def split: prod.split list.split)
qed

lemma payload_pieces:
  "scan_member_payload granted_read (data, grants) member_size allowed = Inr (audit_of data member_size allowed)"
  by (rule granted.scan_whole [of "(data, grants)", unfolded fst_conv])

end
