(* ===== verification/Bundle_Tar.thy ===== *)
theory Bundle_Tar
  imports Bundle_Scan
begin

text \<open>
  The scan of the raw tar stream by the source-bundle audit (\<open>read_exact_at\<close> to
  \<open>scan_raw_tar_stream\<close> of \<open>scripts/audit_singbox_source_bundle.py\<close>). The stream is a file that is
  read at offsets: \<open>pread n offset\<close> is \<open>os.pread(stream.fileno(), n, offset)\<close>.
\<close>

section \<open>Constants of \<open>tarfile\<close>\<close>

definition BLOCKSIZE :: nat where "BLOCKSIZE = 512"
definition RECORDSIZE :: nat where "RECORDSIZE = 20 * BLOCKSIZE"
definition LENGTH_NAME :: nat where "LENGTH_NAME = 100"

definition REGTYPE :: bytes where "REGTYPE = ''0''"
definition AREGTYPE :: bytes where "AREGTYPE = [nul]"
definition LNKTYPE :: bytes where "LNKTYPE = ''1''"
definition SYMTYPE :: bytes where "SYMTYPE = ''2''"
definition DIRTYPE :: bytes where "DIRTYPE = ''5''"
definition CONTTYPE :: bytes where "CONTTYPE = ''7''"
definition GNUTYPE_LONGNAME :: bytes where "GNUTYPE_LONGNAME = ''L''"
definition GNUTYPE_LONGLINK :: bytes where "GNUTYPE_LONGLINK = ''K''"
definition GNUTYPE_SPARSE :: bytes where "GNUTYPE_SPARSE = ''S''"
definition XHDTYPE :: bytes where "XHDTYPE = ''x''"
definition XGLTYPE :: bytes where "XGLTYPE = ''g''"
definition SOLARIS_XHDTYPE :: bytes where "SOLARIS_XHDTYPE = ''X''"

definition unsafe_extension_types :: "bytes list" where
  "unsafe_extension_types =
     [GNUTYPE_LONGLINK, GNUTYPE_LONGNAME, GNUTYPE_SPARSE, SOLARIS_XHDTYPE, XGLTYPE]"

definition semantic_types :: "bytes list" where
  "semantic_types = [REGTYPE, AREGTYPE, CONTTYPE, DIRTYPE, SYMTYPE, LNKTYPE]"

definition zeros :: "nat \<Rightarrow> bytes" where
  "zeros n = replicate n nul"

section \<open>Reading at an offset\<close>

type_synonym positioned = "nat \<Rightarrow> nat \<Rightarrow> bytes res"

function read_exact_at :: "positioned \<Rightarrow> nat \<Rightarrow> nat \<Rightarrow> bytes res" where
  "read_exact_at pread remaining offset =
     (if remaining = 0 then Inr []
      else
        (case pread (min remaining GZIP_OUTPUT_BYTES) offset of
           Inl e \<Rightarrow> Inl (if is_os_error e \<or> e = AttributeError
                        then ValueError ''cannot inspect decompressed tar stream'' else e)
         | Inr chunk \<Rightarrow>
             if chunk = [] then Inl (ValueError ''truncated decompressed tar stream'')
             else
               bindE (read_exact_at pread (remaining - length chunk) (offset + length chunk))
                 (\<lambda>rest. Inr (chunk @ rest))))"
  by pat_completeness auto
termination
  by (relation "measure (\<lambda>(pread, remaining, offset). remaining)") (auto simp: neq_Nil_conv)

declare read_exact_at.simps [simp del]

definition has_nonzero :: "bytes \<Rightarrow> bool" where
  "has_nonzero b \<longleftrightarrow> strip_set [nul] b \<noteq> []"

function validate_zero_range :: "positioned \<Rightarrow> nat \<Rightarrow> nat \<Rightarrow> string \<Rightarrow> unit res" where
  "validate_zero_range pread offset remaining error_message =
     (if remaining = 0 then Inr ()
      else
        let chunk_size = min remaining GZIP_OUTPUT_BYTES in
        bindE (read_exact_at pread chunk_size offset) (\<lambda>chunk.
          if has_nonzero chunk then Inl (ValueError error_message)
          else validate_zero_range pread (offset + chunk_size) (remaining - chunk_size) error_message))"
  by pat_completeness auto
termination
  by (relation "measure (\<lambda>(pread, offset, remaining, m). remaining)") (auto simp: GZIP_OUTPUT_BYTES_def)

declare validate_zero_range.simps [simp del]

section \<open>Fields of a header\<close>

definition octal_digit :: "char \<Rightarrow> bool" where
  "octal_digit c \<longleftrightarrow> 48 \<le> byte_val c \<and> byte_val c \<le> 55"

definition octal_val :: "bytes \<Rightarrow> nat" where
  "octal_val s = foldl (\<lambda>a c. 8 * a + digit_val c) 0 s"

definition parse_canonical_tar_size :: "bytes \<Rightarrow> nat res" where
  "parse_canonical_tar_size header =
     (let field = take 12 (drop 124 header) in
      if length field \<noteq> 12 \<or> last_bytes 1 field \<noteq> [nul] \<or> \<not> list_all octal_digit (butlast field)
      then Inl (ValueError ''noncanonical raw archive size field'')
      else Inr (octal_val (butlast field)))"

definition byte_sum :: "bytes \<Rightarrow> nat" where
  "byte_sum b = sum_list (map byte_val b)"

definition validate_raw_tar_checksum :: "bytes \<Rightarrow> unit res" where
  "validate_raw_tar_checksum header =
     (let field = take 8 (drop 148 header) in
      if length field \<noteq> 8 \<or> drop 6 field \<noteq> [nul, CHR '' ''] \<or> \<not> list_all octal_digit (take 6 field)
      then Inl (ValueError ''noncanonical raw archive checksum field'')
      else if octal_val (take 6 field) \<noteq> byte_sum (take 148 header) + 8 * 32 + byte_sum (drop 156 header)
      then Inl (ValueError ''invalid raw archive header checksum'')
      else Inr ())"

definition validate_raw_pax_payload :: "bytes \<Rightarrow> unit res" where
  "validate_raw_pax_payload payload =
     (case split_first (CHR '' '') payload of
        None \<Rightarrow> Inl (ValueError ''noncanonical archive PAX metadata'')
      | Some (length_field, rest) \<Rightarrow>
          if length_field = [] then Inl (ValueError ''noncanonical archive PAX metadata'')
          else if \<not> list_all is_digit length_field \<or> 5 < length length_field
             \<or> startswith length_field ''0'' \<or> nat_of_digits length_field \<noteq> length payload
             \<or> length (filter (\<lambda>c. c = LF) payload) \<noteq> 1 \<or> \<not> endswith payload [LF]
          then Inl (ValueError ''noncanonical archive PAX metadata'')
          else
            let rec = butlast rest in
            if \<not> startswith rec ''path='' then Inl (ValueError ''noncanonical archive PAX metadata'')
            else
              let path_bytes = drop 5 rec in
              if path_bytes = [] \<or> MAX_MEMBER_NAME_BYTES + 1 < length path_bytes
                 \<or> nul \<in> set path_bytes \<or> CR \<in> set path_bytes
              then Inl (ValueError ''noncanonical archive PAX path'')
              else if \<not> utf8_ok False path_bytes then Inl (ValueError ''noncanonical archive PAX path'')
              else
                (case member_name_policy_failure path_bytes (endswith path_bytes ''/'') of
                   Some policy_failure \<Rightarrow> Inl (ValueError policy_failure)
                 | None \<Rightarrow> Inr ()))"

definition validate_raw_member_name :: "bytes \<Rightarrow> bool \<Rightarrow> unit res" where
  "validate_raw_member_name name_bytes directory =
     (if name_bytes = [] then Inl (ValueError ''empty archive member name'')
      else if \<not> utf8_ok False name_bytes then
        Inl (ValueError ''raw archive member name is not valid UTF-8'')
      else
        (case member_name_policy_failure name_bytes directory of
           Some policy_failure \<Rightarrow> Inl (ValueError policy_failure)
         | None \<Rightarrow> Inr ()))"

definition canonical_tar_stream_size :: "nat \<Rightarrow> nat" where
  "canonical_tar_stream_size archive_end =
     (archive_end + 2 * BLOCKSIZE + RECORDSIZE - 1) div RECORDSIZE * RECORDSIZE"

text \<open>
  \<open>b.decode("utf-8", "replace")\<close>: every maximal part that is no character becomes U+FFFD; and
  \<open>replace("\r", "\\r").replace("\n", "\\n")\<close>.
\<close>

definition replacement :: bytes where
  "replacement = [CHR 0xEF, CHR 0xBF, CHR 0xBD]"

fun utf8_replace :: "bytes \<Rightarrow> string" where
  "utf8_replace [] = []"
| "utf8_replace (a # s) =
     (if byte_val a < 0x80 then a # utf8_replace s
      else if 0xC2 \<le> byte_val a \<and> byte_val a \<le> 0xDF then
        (case s of [] \<Rightarrow> replacement
         | b # s' \<Rightarrow> if second_ok a b then a # b # utf8_replace s' else replacement @ utf8_replace s)
      else if 0xE0 \<le> byte_val a \<and> byte_val a \<le> 0xEF then
        (case s of [] \<Rightarrow> replacement
         | b # s1 \<Rightarrow>
             if \<not> second_ok a b then replacement @ utf8_replace s
             else (case s1 of [] \<Rightarrow> replacement
                   | c # s2 \<Rightarrow> if cont_byte c then a # b # c # utf8_replace s2
                               else replacement @ utf8_replace s1))
      else if 0xF0 \<le> byte_val a \<and> byte_val a \<le> 0xF4 then
        (case s of [] \<Rightarrow> replacement
         | b # s1 \<Rightarrow>
             if \<not> second_ok a b then replacement @ utf8_replace s
             else (case s1 of [] \<Rightarrow> replacement
                   | c # s2 \<Rightarrow>
                       if \<not> cont_byte c then replacement @ utf8_replace s1
                       else (case s2 of [] \<Rightarrow> replacement
                             | d # s3 \<Rightarrow> if cont_byte d then a # b # c # d # utf8_replace s3
                                         else replacement @ utf8_replace s2)))
      else replacement @ utf8_replace s)"

definition escape_newlines :: "string \<Rightarrow> string" where
  "escape_newlines s =
     concat (map (\<lambda>c. if c = CR then [CHR 0x5C, CHR ''r''] else if c = LF then [CHR 0x5C, CHR ''n''] else [c]) s)"

section \<open>The scan\<close>

record raw_tar_layout =
  rt_archive_end :: nat
  rt_member_count :: nat
  rt_file_count :: nat
  rt_directory_count :: nat

record raw_scan =
  rs_offset :: nat
  rs_member_count :: nat
  rs_file_count :: nat
  rs_directory_count :: nat
  rs_payload_total :: nat
  rs_pending_pax :: bool

definition raw_scan_init :: raw_scan where
  "raw_scan_init = \<lparr>rs_offset = 0, rs_member_count = 0, rs_file_count = 0, rs_directory_count = 0,
                    rs_payload_total = 0, rs_pending_pax = False\<rparr>"

definition padded_size :: "nat \<Rightarrow> nat" where
  "padded_size member_size = (member_size + BLOCKSIZE - 1) div BLOCKSIZE * BLOCKSIZE"

text \<open>The block of zeros that ends the members.\<close>

definition scan_end :: "positioned \<Rightarrow> nat \<Rightarrow> raw_scan \<Rightarrow> raw_tar_layout res" where
  "scan_end pread expanded_size s =
     (if rs_pending_pax s then Inl (ValueError ''orphaned archive PAX metadata'')
      else if expanded_size \<noteq> canonical_tar_stream_size (rs_offset s) then
        Inl (ValueError ''noncanonical decompressed tar stream length'')
      else if expanded_size - rs_offset s < 2 * BLOCKSIZE then
        Inl (ValueError ''missing canonical tar end markers'')
      else
        bindE (validate_zero_range pread (rs_offset s) (expanded_size - rs_offset s)
                 ''nonzero data follows the tar members'') (\<lambda>_.
          Inr \<lparr>rt_archive_end = rs_offset s, rt_member_count = rs_member_count s,
               rt_file_count = rs_file_count s, rt_directory_count = rs_directory_count s\<rparr>))"

text \<open>The extended header that names the next member.\<close>

definition scan_pax :: "positioned \<Rightarrow> nat \<Rightarrow> nat \<Rightarrow> raw_scan \<Rightarrow> raw_scan res" where
  "scan_pax pread member_size next_offset s =
     (if rs_pending_pax s then Inl (ValueError ''stacked archive PAX metadata'')
      else if member_size = 0 \<or> MAX_PAX_BYTES < member_size then
        Inl (ValueError (''archive PAX metadata exceeds '' @ dec_nat MAX_PAX_BYTES @ '' bytes''))
      else
        let payload_offset = rs_offset s + BLOCKSIZE in
        bindE (read_exact_at pread member_size payload_offset) (\<lambda>payload.
        bindE (validate_raw_pax_payload payload) (\<lambda>_.
        bindE (read_exact_at pread (padded_size member_size - member_size) (payload_offset + member_size)) (\<lambda>padding.
          if has_nonzero padding then Inl (ValueError ''nonzero archive PAX padding'')
          else Inr (s\<lparr>rs_pending_pax := True, rs_offset := next_offset\<rparr>)))))"

definition raw_name :: "bytes \<Rightarrow> bytes" where
  "raw_name header = hd (split_on nul (take LENGTH_NAME header))"

definition scan_member :: "bytes \<Rightarrow> bytes \<Rightarrow> nat \<Rightarrow> nat \<Rightarrow> raw_scan \<Rightarrow> raw_scan res" where
  "scan_member header typeflag member_size next_offset s =
     (if typeflag \<in> set unsafe_extension_types then
        Inl (ValueError ''noncanonical archive PAX metadata or extension type'')
      else if typeflag \<notin> set semantic_types then
        Inl (ValueError (''unsupported archive member type: '' @ escape_newlines (utf8_replace (raw_name header))))
      else
        bindE (if rs_pending_pax s then Inr ()
               else validate_raw_member_name (raw_name header) (typeflag = DIRTYPE)) (\<lambda>_.
        if MAX_MEMBER_BYTES < member_size then
          Inl (ValueError (''oversized raw archive member: '' @ dec_nat member_size @ '' bytes''))
        else if MAX_EXPANDED_BYTES < rs_payload_total s + member_size then
          Inl (ValueError ''expanded source bundle exceeds limit'')
        else if MAX_MEMBERS < rs_member_count s + 1 then
          Inl (ValueError (''source bundle exceeds the '' @ dec_nat MAX_MEMBERS @ ''-member limit''))
        else
          let directories = rs_directory_count s + (if typeflag = DIRTYPE then 1 else 0);
              files = rs_file_count s + (if typeflag \<in> {REGTYPE, AREGTYPE, CONTTYPE} then 1 else 0) in
          if MAX_ARCHIVE_DIRECTORIES < directories then
            Inl (ValueError (''source bundle exceeds the '' @ dec_nat MAX_ARCHIVE_DIRECTORIES @ ''-directory limit''))
          else if MAX_ARCHIVE_FILES < files then
            Inl (ValueError (''source bundle exceeds the '' @ dec_nat MAX_ARCHIVE_FILES @ ''-file limit''))
          else
            Inr \<lparr>rs_offset = next_offset, rs_member_count = rs_member_count s + 1, rs_file_count = files,
                 rs_directory_count = directories, rs_payload_total = rs_payload_total s + member_size,
                 rs_pending_pax = False\<rparr>))"

text \<open>One turn of the loop: the layout at the end, or the state for the next header.\<close>

definition scan_header :: "positioned \<Rightarrow> nat \<Rightarrow> raw_scan \<Rightarrow> (raw_tar_layout + raw_scan) res" where
  "scan_header pread expanded_size s =
     bindE (read_exact_at pread BLOCKSIZE (rs_offset s)) (\<lambda>header.
       if header = zeros BLOCKSIZE then bindE (scan_end pread expanded_size s) (\<lambda>layout. Inr (Inl layout))
       else
         bindE (validate_raw_tar_checksum header) (\<lambda>_.
         bindE (parse_canonical_tar_size header) (\<lambda>member_size.
           let typeflag = take 1 (drop 156 header);
               next_offset = rs_offset s + BLOCKSIZE + padded_size member_size in
           if expanded_size < next_offset then Inl (ValueError ''truncated decompressed tar member'')
           else if typeflag = XHDTYPE then
             bindE (scan_pax pread member_size next_offset s) (\<lambda>t. Inr (Inr t))
           else bindE (scan_member header typeflag member_size next_offset s) (\<lambda>t. Inr (Inr t)))))"

lemma scan_header_offset:
  "scan_header pread expanded_size s = Inr (Inr t) \<Longrightarrow> rs_offset s < rs_offset t \<and> rs_offset t \<le> expanded_size"
  by (auto simp: scan_header_def scan_pax_def scan_member_def res_iff Let_def BLOCKSIZE_def split: if_splits)

function scan_loop :: "positioned \<Rightarrow> nat \<Rightarrow> raw_scan \<Rightarrow> raw_tar_layout res" where
  "scan_loop pread expanded_size s =
     (case scan_header pread expanded_size s of
        Inl e \<Rightarrow> Inl e
      | Inr (Inl layout) \<Rightarrow> Inr layout
      | Inr (Inr t) \<Rightarrow> scan_loop pread expanded_size t)"
  by pat_completeness auto
termination
  by (relation "measure (\<lambda>(pread, expanded_size, s). expanded_size - rs_offset s)")
    (auto dest!: scan_header_offset)

declare scan_loop.simps [simp del]

definition scan_raw_tar_stream :: "positioned \<Rightarrow> nat \<Rightarrow> raw_tar_layout res" where
  "scan_raw_tar_stream pread expanded_size = scan_loop pread expanded_size raw_scan_init"

end
