(* ===== verification/Bundle_Tar_Props.thy ===== *)
theory Bundle_Tar_Props
  imports Bundle_Tar
begin

text \<open>
  The raw tar scan against a grammar: the scan accepts exactly the streams that are a sequence of
  extended headers and members, padded to blocks, followed by zeros up to the record size, with the
  limits on sizes and counts; and the layout it returns is that of the sequence.
\<close>

section \<open>The grammar\<close>

datatype tar_entry = Pax_entry bytes bytes | Member_entry bytes bytes bytes

definition typeflag_of :: "bytes \<Rightarrow> bytes" where
  "typeflag_of header = take 1 (drop 156 header)"

text \<open>A header of a payload: a block with a checksum and a size in canonical form, not all zeros.\<close>

definition header_for :: "bytes \<Rightarrow> bytes \<Rightarrow> bool" where
  "header_for payload header \<longleftrightarrow> length header = BLOCKSIZE \<and> header \<noteq> zeros BLOCKSIZE
     \<and> validate_raw_tar_checksum header = Inr () \<and> parse_canonical_tar_size header = Inr (length payload)"

fun entry_bytes :: "tar_entry \<Rightarrow> bytes" where
  "entry_bytes (Pax_entry header payload) =
     header @ payload @ zeros (padded_size (length payload) - length payload)"
| "entry_bytes (Member_entry header payload padding) = header @ payload @ padding"

fun is_pax :: "tar_entry \<Rightarrow> bool" where
  "is_pax (Pax_entry _ _) = True"
| "is_pax (Member_entry _ _ _) = False"

fun tar_entry_ok :: "bool \<Rightarrow> tar_entry \<Rightarrow> bool" where
  "tar_entry_ok pending (Pax_entry header payload) \<longleftrightarrow>
     header_for payload header \<and> typeflag_of header = XHDTYPE \<and> \<not> pending
     \<and> payload \<noteq> [] \<and> length payload \<le> MAX_PAX_BYTES \<and> validate_raw_pax_payload payload = Inr ()"
| "tar_entry_ok pending (Member_entry header payload padding) \<longleftrightarrow>
     header_for payload header \<and> typeflag_of header \<in> set semantic_types
     \<and> length padding = padded_size (length payload) - length payload
     \<and> (\<not> pending \<longrightarrow> validate_raw_member_name (raw_name header) (typeflag_of header = DIRTYPE) = Inr ())
     \<and> length payload \<le> MAX_MEMBER_BYTES"

fun entries_ok :: "bool \<Rightarrow> tar_entry list \<Rightarrow> bool" where
  "entries_ok pending [] \<longleftrightarrow> \<not> pending"
| "entries_ok pending (e # es) \<longleftrightarrow> tar_entry_ok pending e \<and> entries_ok (is_pax e) es"

fun payload_size :: "tar_entry \<Rightarrow> nat" where
  "payload_size (Pax_entry _ _) = 0"
| "payload_size (Member_entry _ payload _) = length payload"

definition members_in :: "(bytes \<Rightarrow> bool) \<Rightarrow> tar_entry list \<Rightarrow> nat" where
  "members_in kind es =
     length (filter (\<lambda>e. case e of Pax_entry _ _ \<Rightarrow> False | Member_entry h _ _ \<Rightarrow> kind (typeflag_of h)) es)"

definition directory_type :: "bytes \<Rightarrow> bool" where
  "directory_type t \<longleftrightarrow> t = DIRTYPE"

definition file_types :: "bytes \<Rightarrow> bool" where
  "file_types t \<longleftrightarrow> t \<in> {REGTYPE, AREGTYPE, CONTTYPE}"

definition stream_bytes :: "tar_entry list \<Rightarrow> bytes" where
  "stream_bytes es = concat (map entry_bytes es)"

text \<open>The state after the entries, and the limits it must keep.\<close>

definition scan_after :: "raw_scan \<Rightarrow> tar_entry list \<Rightarrow> raw_scan" where
  "scan_after s es =
     \<lparr>rs_offset = rs_offset s + length (stream_bytes es),
      rs_member_count = rs_member_count s + members_in (\<lambda>_. True) es,
      rs_file_count = rs_file_count s + members_in file_types es,
      rs_directory_count = rs_directory_count s + members_in directory_type es,
      rs_payload_total = rs_payload_total s + sum_list (map payload_size es),
      rs_pending_pax = (if es = [] then rs_pending_pax s else is_pax (last es))\<rparr>"

definition within_limits :: "raw_scan \<Rightarrow> bool" where
  "within_limits s \<longleftrightarrow> rs_payload_total s \<le> MAX_EXPANDED_BYTES \<and> rs_member_count s \<le> MAX_MEMBERS
     \<and> rs_file_count s \<le> MAX_ARCHIVE_FILES \<and> rs_directory_count s \<le> MAX_ARCHIVE_DIRECTORIES"

definition layout_of :: "raw_scan \<Rightarrow> raw_tar_layout" where
  "layout_of s = \<lparr>rt_archive_end = rs_offset s, rt_member_count = rs_member_count s,
                  rt_file_count = rs_file_count s, rt_directory_count = rs_directory_count s\<rparr>"

lemma scan_after_Nil [simp]: "scan_after s [] = s"
  by (simp add: scan_after_def stream_bytes_def members_in_def)

lemma members_in_Cons: "members_in kind (e # es) = members_in kind [e] + members_in kind es"
  by (simp add: members_in_def)

lemma stream_bytes_Cons: "stream_bytes (e # es) = entry_bytes e @ stream_bytes es"
  by (simp add: stream_bytes_def)

lemma stream_bytes_Nil [simp]: "stream_bytes [] = []"
  by (simp add: stream_bytes_def)

lemma scan_after_Cons: "scan_after s (e # es) = scan_after (scan_after s [e]) es"
  using members_in_Cons [of _ e es] by (simp add: scan_after_def stream_bytes_Cons)

lemma within_before: "within_limits (scan_after s es) \<Longrightarrow> within_limits s"
  by (auto simp: within_limits_def scan_after_def)

section \<open>Bytes\<close>

lemma has_nonzero_iff: "has_nonzero b \<longleftrightarrow> b \<noteq> zeros (length b)"
proof -
  have "strip_set [nul] b = [] \<longleftrightarrow> (\<forall>c \<in> set (dropWhile (\<lambda>c. c = nul) b). c = nul)"
    by (simp add: strip_set_def dropWhile_eq_Nil_conv)
  also have "\<dots> \<longleftrightarrow> (\<forall>c \<in> set b. c = nul)"
    by (induction b) auto
  finally show ?thesis
    by (simp add: has_nonzero_def zeros_def) (metis replicate_eqI in_set_replicate)
qed

lemma zeros_length [simp]: "length (zeros n) = n"
  by (simp add: zeros_def)

lemma zeros_add: "zeros (m + n) = zeros m @ zeros n"
  by (simp add: zeros_def replicate_add)

lemma padded_size_ge: "n \<le> padded_size n"
  by (simp add: padded_size_def BLOCKSIZE_def)

lemma canonical_size_ge: "n + 2 * BLOCKSIZE \<le> canonical_tar_stream_size n"
  by (simp add: canonical_tar_stream_size_def BLOCKSIZE_def RECORDSIZE_def)

text \<open>A slice at an offset, against the rest of the content.\<close>

lemma slice_iff:
  "off + n \<le> length raw \<and> take n (drop off raw) = part \<longleftrightarrow>
   off \<le> length raw \<and> length part = n \<and> drop off raw = part @ drop (off + n) raw"
proof
  assume *: "off + n \<le> length raw \<and> take n (drop off raw) = part"
  have "off + n \<le> length raw \<Longrightarrow> length (take n (drop off raw)) = n" by simp
  with * have "length part = n" by metis
  moreover from * have "drop off raw = part @ drop n (drop off raw)" by (metis append_take_drop_id)
  ultimately show "off \<le> length raw \<and> length part = n \<and> drop off raw = part @ drop (off + n) raw"
    using * by (simp add: add.commute)
next
  assume *: "off \<le> length raw \<and> length part = n \<and> drop off raw = part @ drop (off + n) raw"
  then have "length part + length (drop (off + n) raw) = length raw - off" by (metis length_append length_drop)
  then have "off + n \<le> length raw" using * by linarith
  moreover have "take n (drop off raw) = part" using * by (metis append_eq_conv_conj)
  ultimately show "off + n \<le> length raw \<and> take n (drop off raw) = part" by blast
qed

lemma zeros_split:
  assumes "k \<le> n"
  shows "off + n \<le> length raw \<and> take n (drop off raw) = zeros n \<longleftrightarrow>
    (off + k \<le> length raw \<and> take k (drop off raw) = zeros k)
    \<and> (off + k + (n - k) \<le> length raw \<and> take (n - k) (drop (off + k) raw) = zeros (n - k))"
proof (cases "off + n \<le> length raw")
  case True
  have "take n (drop off raw) = take k (drop off raw) @ take (n - k) (drop (off + k) raw)"
    using assms take_add [of k "n - k" "drop off raw"] by (simp add: add.commute)
  moreover have "zeros n = zeros k @ zeros (n - k)" using assms zeros_add [of k "n - k"] by simp
  moreover have "length (take k (drop off raw)) = length (zeros k)" using True assms by simp
  ultimately show ?thesis using True assms by simp
qed (use assms in auto)

section \<open>Reads at an offset\<close>

text \<open>
  What the scan relies on: a read at an offset gives a part of the content that starts there, not
  more than asked for, and none only at the end.
\<close>

locale positioned_source =
  fixes pread :: positioned and raw :: bytes
  assumes pread_part: "0 < n \<Longrightarrow> \<exists>k. pread n offset = Inr (take k (drop offset raw))
      \<and> k \<le> n \<and> (k = 0 \<longrightarrow> length raw \<le> offset)"
begin

lemma read_exact_at_eq:
  "read_exact_at pread n offset =
     (if n = 0 then Inr []
      else if offset + n \<le> length raw then Inr (take n (drop offset raw))
      else Inl (ValueError ''truncated decompressed tar stream''))"
proof (induction n arbitrary: offset rule: less_induct)
  case (less n)
  show ?case
  proof (cases "n = 0")
    case True
    then show ?thesis by (simp add: read_exact_at.simps)
  next
    case False
    then obtain k where k: "pread (min n GZIP_OUTPUT_BYTES) offset = Inr (take k (drop offset raw))"
        "k \<le> min n GZIP_OUTPUT_BYTES" "k = 0 \<longrightarrow> length raw \<le> offset"
      using pread_part [of "min n GZIP_OUTPUT_BYTES" offset] by (auto simp: GZIP_OUTPUT_BYTES_def)
    let ?chunk = "take k (drop offset raw)"
    show ?thesis
    proof (cases "?chunk = []")
      case True
      then have "length raw \<le> offset" using k(3) by auto
      then show ?thesis using False k(1) True by (subst read_exact_at.simps) simp
    next
      case nonempty: False
      then have pos: "0 < k" "offset < length raw" by auto
      let ?m = "length ?chunk"
      have m: "0 < ?m" "?m \<le> n" "?m \<le> length raw - offset" using pos k(2) by auto
      have "read_exact_at pread n offset =
          bindE (read_exact_at pread (n - ?m) (offset + ?m)) (\<lambda>rest. Inr (?chunk @ rest))"
        using False k(1) nonempty by (subst read_exact_at.simps) simp
      also have "read_exact_at pread (n - ?m) (offset + ?m) =
          (if n - ?m = 0 then Inr []
           else if offset + ?m + (n - ?m) \<le> length raw then Inr (take (n - ?m) (drop (offset + ?m) raw))
           else Inl (ValueError ''truncated decompressed tar stream''))"
        using m False by (intro less) simp
      finally have eq: "read_exact_at pread n offset = bindE (if n - ?m = 0 then Inr []
           else if offset + n \<le> length raw then Inr (take (n - ?m) (drop (offset + ?m) raw))
           else Inl (ValueError ''truncated decompressed tar stream'')) (\<lambda>rest. Inr (?chunk @ rest))" using m by simp
      have chunk: "?chunk = take ?m (drop offset raw)" by (simp add: min_def)
      show ?thesis
      proof (cases "n = ?m")
        case True
        then have "offset + n \<le> length raw" using m pos by linarith
        then show ?thesis using eq True chunk False by simp
      next
        case other: False
        have "take n (drop offset raw) = ?chunk @ take (n - ?m) (drop (offset + ?m) raw)"
          using m take_add [of ?m "n - ?m" "drop offset raw"] chunk by (simp add: add.commute)
        then show ?thesis using eq m False other by (simp split: if_splits)
      qed
    qed
  qed
qed

lemma read_exact_Inr:
  "read_exact_at pread n off = Inr part \<longleftrightarrow>
   length part = n \<and> (n = 0 \<or> off \<le> length raw \<and> drop off raw = part @ drop (off + n) raw)"
  using slice_iff [of off n raw part] by (auto simp: read_exact_at_eq)

lemma zero_range_Inr:
  "validate_zero_range pread off n msg = Inr () \<longleftrightarrow>
   n = 0 \<or> off + n \<le> length raw \<and> take n (drop off raw) = zeros n"
proof (induction n arbitrary: off rule: less_induct)
  case (less n)
  show ?case
  proof (cases "n = 0")
    case True
    then show ?thesis by (simp add: validate_zero_range.simps)
  next
    case False
    let ?k = "min n GZIP_OUTPUT_BYTES"
    have k: "0 < ?k" "?k \<le> n" using False by (simp_all add: GZIP_OUTPUT_BYTES_def)
    have "validate_zero_range pread off n msg = Inr () \<longleftrightarrow>
        (\<exists>chunk. read_exact_at pread ?k off = Inr chunk \<and> \<not> has_nonzero chunk
           \<and> validate_zero_range pread (off + ?k) (n - ?k) msg = Inr ())"
      using False by (subst validate_zero_range.simps) (simp add: Let_def res_iff)
    also have "\<dots> \<longleftrightarrow> (off + ?k \<le> length raw \<and> take ?k (drop off raw) = zeros ?k)
        \<and> (off + ?k + (n - ?k) \<le> length raw \<and> take (n - ?k) (drop (off + ?k) raw) = zeros (n - ?k))"
    proof -
      have one: "read_exact_at pread ?k off = Inr chunk \<and> \<not> has_nonzero chunk \<longleftrightarrow>
          (off + ?k \<le> length raw \<and> take ?k (drop off raw) = zeros ?k) \<and> chunk = zeros ?k" for chunk
        using k(1) by (auto simp: read_exact_at_eq has_nonzero_iff)
      have two: "validate_zero_range pread (off + ?k) (n - ?k) msg = Inr () \<longleftrightarrow>
          n - ?k = 0 \<or> off + ?k + (n - ?k) \<le> length raw \<and> take (n - ?k) (drop (off + ?k) raw) = zeros (n - ?k)"
        by (rule less) (use k in simp)
      show ?thesis unfolding conj_assoc [symmetric] one two by (auto simp: zeros_def)
    qed
    also have "\<dots> \<longleftrightarrow> off + n \<le> length raw \<and> take n (drop off raw) = zeros n"
      by (rule zeros_split [OF k(2), symmetric])
    finally show ?thesis using False by simp
  qed
qed

lemma scan_end_Inr:
  "scan_end pread (length raw) s = Inr layout \<longleftrightarrow>
   \<not> rs_pending_pax s \<and> length raw = canonical_tar_stream_size (rs_offset s)
   \<and> drop (rs_offset s) raw = zeros (length raw - rs_offset s) \<and> layout = layout_of s"
proof -
  have "rs_offset s + 2 * BLOCKSIZE \<le> length raw" if "length raw = canonical_tar_stream_size (rs_offset s)"
    using that canonical_size_ge by simp
  then show ?thesis
    by (auto simp: scan_end_def res_iff zero_range_Inr layout_of_def BLOCKSIZE_def)
qed

lemma scan_header_Inl:
  "scan_header pread (length raw) s = Inr (Inl layout) \<longleftrightarrow>
   \<not> rs_pending_pax s \<and> length raw = canonical_tar_stream_size (rs_offset s)
   \<and> drop (rs_offset s) raw = zeros (length raw - rs_offset s) \<and> layout = layout_of s"
  (is "_ \<longleftrightarrow> ?markers")
proof -
  have "scan_header pread (length raw) s = Inr (Inl layout) \<longleftrightarrow>
      read_exact_at pread BLOCKSIZE (rs_offset s) = Inr (zeros BLOCKSIZE)
      \<and> scan_end pread (length raw) s = Inr layout"
    by (auto simp: scan_header_def res_iff Let_def split: if_splits)
  moreover have "read_exact_at pread BLOCKSIZE (rs_offset s) = Inr (zeros BLOCKSIZE)" if ?markers
  proof -
    have "rs_offset s + 2 * BLOCKSIZE \<le> length raw" using that canonical_size_ge by simp
    then have "length raw - rs_offset s = BLOCKSIZE + (length raw - rs_offset s - BLOCKSIZE)"
      "rs_offset s + BLOCKSIZE \<le> length raw" by auto
    moreover have "take BLOCKSIZE (drop (rs_offset s) raw) = zeros BLOCKSIZE"
      using that by (metis calculation(1) append_eq_conv_conj zeros_add zeros_length)
    ultimately show ?thesis by (simp add: read_exact_at_eq) (simp add: BLOCKSIZE_def zeros_def)
  qed
  ultimately show ?thesis using scan_end_Inr by blast
qed

text \<open>A turn that goes on has read an entry.\<close>

lemma scan_pax_Inr:
  assumes next_fits: "next_offset = rs_offset s + BLOCKSIZE + padded_size m" "next_offset \<le> length raw"
  shows "scan_pax pread m next_offset s = Inr t \<longleftrightarrow>
    \<not> rs_pending_pax s \<and> 0 < m \<and> m \<le> MAX_PAX_BYTES
    \<and> validate_raw_pax_payload (take m (drop (rs_offset s + BLOCKSIZE) raw)) = Inr ()
    \<and> take (padded_size m - m) (drop (rs_offset s + BLOCKSIZE + m) raw) = zeros (padded_size m - m)
    \<and> t = s\<lparr>rs_pending_pax := True, rs_offset := next_offset\<rparr>"
proof -
  have "rs_offset s + BLOCKSIZE + m \<le> length raw"
    "rs_offset s + BLOCKSIZE + m + (padded_size m - m) \<le> length raw"
    using next_fits padded_size_ge [of m] by linarith+
  moreover have "length (take (padded_size m - m) (drop (rs_offset s + BLOCKSIZE + m) raw)) = padded_size m - m"
    using calculation by simp
  ultimately show ?thesis
    by (auto simp: scan_pax_def res_iff Let_def read_exact_at_eq has_nonzero_iff zeros_def)
qed

lemma scan_member_Inr:
  assumes "within_limits s"
  shows "scan_member header (typeflag_of header) m next_offset s = Inr t \<longleftrightarrow>
    typeflag_of header \<in> set semantic_types
    \<and> (\<not> rs_pending_pax s \<longrightarrow> validate_raw_member_name (raw_name header) (typeflag_of header = DIRTYPE) = Inr ())
    \<and> m \<le> MAX_MEMBER_BYTES
    \<and> within_limits t
    \<and> t = \<lparr>rs_offset = next_offset, rs_member_count = rs_member_count s + 1,
           rs_file_count = rs_file_count s + (if file_types (typeflag_of header) then 1 else 0),
           rs_directory_count = rs_directory_count s + (if directory_type (typeflag_of header) then 1 else 0),
           rs_payload_total = rs_payload_total s + m, rs_pending_pax = False\<rparr>"
proof -
  have disjoint: "x \<in> set semantic_types \<Longrightarrow> x \<notin> set unsafe_extension_types" for x
    by (auto simp: semantic_types_def unsafe_extension_types_def REGTYPE_def AREGTYPE_def CONTTYPE_def
        DIRTYPE_def SYMTYPE_def LNKTYPE_def GNUTYPE_LONGLINK_def GNUTYPE_LONGNAME_def GNUTYPE_SPARSE_def
        SOLARIS_XHDTYPE_def XGLTYPE_def nul_def)
  show ?thesis
    using assms
    by (auto simp: scan_member_def res_iff Let_def within_limits_def file_types_def directory_type_def
        dest: disjoint split: if_splits)
qed

lemma scan_header_cases:
  "scan_header pread (length raw) s = Inr (Inr t) \<longleftrightarrow>
   (\<exists>header m. rs_offset s + BLOCKSIZE \<le> length raw \<and> header = take BLOCKSIZE (drop (rs_offset s) raw)
      \<and> header \<noteq> zeros BLOCKSIZE \<and> validate_raw_tar_checksum header = Inr ()
      \<and> parse_canonical_tar_size header = Inr m
      \<and> rs_offset s + BLOCKSIZE + padded_size m \<le> length raw
      \<and> (if typeflag_of header = XHDTYPE
         then scan_pax pread m (rs_offset s + BLOCKSIZE + padded_size m) s = Inr t
         else scan_member header (typeflag_of header) m (rs_offset s + BLOCKSIZE + padded_size m) s = Inr t))"
proof -
  have read: "read_exact_at pread BLOCKSIZE (rs_offset s) = Inr header \<longleftrightarrow>
      rs_offset s + BLOCKSIZE \<le> length raw \<and> header = take BLOCKSIZE (drop (rs_offset s) raw)" for header
    by (auto simp: read_exact_at_eq BLOCKSIZE_def)
  have step: "scan_header pread (length raw) s = Inr (Inr t) \<longleftrightarrow>
    (\<exists>header m. read_exact_at pread BLOCKSIZE (rs_offset s) = Inr header
      \<and> header \<noteq> zeros BLOCKSIZE \<and> validate_raw_tar_checksum header = Inr ()
      \<and> parse_canonical_tar_size header = Inr m
      \<and> rs_offset s + BLOCKSIZE + padded_size m \<le> length raw
      \<and> (if typeflag_of header = XHDTYPE
         then scan_pax pread m (rs_offset s + BLOCKSIZE + padded_size m) s = Inr t
         else scan_member header (typeflag_of header) m (rs_offset s + BLOCKSIZE + padded_size m) s = Inr t))"
    by (simp add: scan_header_def res_iff Let_def typeflag_of_def not_less split: if_splits) blast
  show ?thesis unfolding step read by (simp only: conj_assoc)
qed

lemma three_parts:
  assumes "o' + a + b + c \<le> length raw"
  shows "drop o' raw = take a (drop o' raw) @ take b (drop (o' + a) raw)
      @ take c (drop (o' + a + b) raw) @ drop (o' + a + b + c) raw"
proof -
  have "drop k raw = take n (drop k raw) @ drop (k + n) raw" for k n
    by (metis append_take_drop_id drop_drop add.commute)
  then show ?thesis by metis
qed

lemma entry_parts:
  assumes "drop o' raw = h @ p @ q @ rest" "o' \<le> length raw"
  shows "take (length h) (drop o' raw) = h" "take (length p) (drop (o' + length h) raw) = p"
    "take (length q) (drop (o' + length h + length p) raw) = q"
    "o' + length h + length p + length q \<le> length raw"
proof -
  have two: "drop (o' + length h) raw = p @ q @ rest"
    using assms(1) by (metis append_eq_conv_conj drop_drop add.commute)
  have three: "drop (o' + length h + length p) raw = q @ rest"
    using two by (metis append_eq_conv_conj drop_drop add.commute)
  show "take (length h) (drop o' raw) = h" "take (length p) (drop (o' + length h) raw) = p"
    "take (length q) (drop (o' + length h + length p) raw) = q"
    using assms(1) two three by simp_all
  have "length raw - o' = length h + length p + length q + length rest"
    using arg_cong [OF assms(1), of length] by simp
  then show "o' + length h + length p + length q \<le> length raw" using assms(2) by linarith
qed

lemma scan_header_entry:
  assumes "within_limits s" "scan_header pread (length raw) s = Inr (Inr t)"
  shows "\<exists>e rest. drop (rs_offset s) raw = entry_bytes e @ rest
      \<and> tar_entry_ok (rs_pending_pax s) e \<and> within_limits t \<and> t = scan_after s [e]"
proof -
  let ?o = "rs_offset s"
  obtain header m where h: "?o + BLOCKSIZE \<le> length raw" "header = take BLOCKSIZE (drop ?o raw)"
      "header \<noteq> zeros BLOCKSIZE" "validate_raw_tar_checksum header = Inr ()"
      "parse_canonical_tar_size header = Inr m" "?o + BLOCKSIZE + padded_size m \<le> length raw"
    and branch: "if typeflag_of header = XHDTYPE
         then scan_pax pread m (?o + BLOCKSIZE + padded_size m) s = Inr t
         else scan_member header (typeflag_of header) m (?o + BLOCKSIZE + padded_size m) s = Inr t"
    using assms(2) unfolding scan_header_cases by blast
  let ?p = "take m (drop (?o + BLOCKSIZE) raw)"
  let ?q = "take (padded_size m - m) (drop (?o + BLOCKSIZE + m) raw)"
  let ?rest = "drop (?o + BLOCKSIZE + padded_size m) raw"
  have fits: "?o + BLOCKSIZE + m + (padded_size m - m) \<le> length raw" and m: "m \<le> padded_size m"
    using h(6) padded_size_ge [of m] by linarith+
  have parts: "drop ?o raw = header @ ?p @ ?q @ ?rest"
    using three_parts [OF fits] m h(2) by (simp add: add.assoc)
  have len: "length header = BLOCKSIZE" "length ?p = m" "length ?q = padded_size m - m"
    using h(1,2) fits m by simp_all
  have hf: "header_for ?p header" using h len by (simp add: header_for_def)
  show ?thesis
  proof (cases "typeflag_of header = XHDTYPE")
    case True
    with branch have t: "\<not> rs_pending_pax s" "0 < m" "m \<le> MAX_PAX_BYTES" "validate_raw_pax_payload ?p = Inr ()"
        "?q = zeros (padded_size m - m)" "t = s\<lparr>rs_pending_pax := True, rs_offset := ?o + BLOCKSIZE + padded_size m\<rparr>"
      using scan_pax_Inr [OF refl h(6)] by simp_all
    let ?e = "Pax_entry header ?p"
    have "tar_entry_ok (rs_pending_pax s) ?e" using hf t(1-4) True len by auto
    moreover have "entry_bytes ?e = header @ ?p @ ?q" using t(5) len by simp
    moreover from this have "t = scan_after s [?e]"
      using t(6) len m by (simp add: scan_after_def stream_bytes_Cons members_in_def del: entry_bytes.simps)
    moreover have "within_limits t" using assms(1) t(6) by (simp add: within_limits_def)
    ultimately show ?thesis using parts by (metis append.assoc)
  next
    case False
    with branch have member: "scan_member header (typeflag_of header) m (?o + BLOCKSIZE + padded_size m) s = Inr t" by simp
    let ?e = "Member_entry header ?p ?q"
    note member = member [unfolded scan_member_Inr [OF assms(1)]]
    have "tar_entry_ok (rs_pending_pax s) ?e" using hf member len by simp
    moreover have "t = scan_after s [?e]"
      using member len m by (simp add: scan_after_def stream_bytes_Cons members_in_def)
    ultimately show ?thesis using parts member by (metis append.assoc entry_bytes.simps(2))
  qed
qed

lemma entry_scan_header:
  assumes "within_limits s" "rs_offset s \<le> length raw" "drop (rs_offset s) raw = entry_bytes e @ rest"
    and "tar_entry_ok (rs_pending_pax s) e" "within_limits (scan_after s [e])"
  shows "scan_header pread (length raw) s = Inr (Inr (scan_after s [e]))"
proof -
  let ?o = "rs_offset s"
  have disjoint: "XHDTYPE \<notin> set semantic_types"
    by (simp add: semantic_types_def REGTYPE_def AREGTYPE_def CONTTYPE_def
        DIRTYPE_def SYMTYPE_def LNKTYPE_def XHDTYPE_def nul_def)
  obtain h p q where e: "entry_bytes e = h @ p @ q" "header_for p h" "length q = padded_size (length p) - length p"
      "case e of Pax_entry h' p' \<Rightarrow> h' = h \<and> p' = p \<and> q = zeros (padded_size (length p) - length p)
         | Member_entry h' p' q' \<Rightarrow> h' = h \<and> p' = p \<and> q' = q"
    using assms(4) by (cases e) auto
  have raw: "drop ?o raw = h @ p @ q @ rest" using assms(3) e(1) by simp
  note parts = entry_parts [OF raw assms(2)]
  have lh: "length h = BLOCKSIZE" using e(2) by (simp add: header_for_def)
  have m: "length p \<le> padded_size (length p)" by (rule padded_size_ge)
  have next_fits: "?o + BLOCKSIZE + padded_size (length p) \<le> length raw"
    using parts(4) lh e(3) m by simp
  have "if typeflag_of h = XHDTYPE
        then scan_pax pread (length p) (?o + BLOCKSIZE + padded_size (length p)) s = Inr (scan_after s [e])
        else scan_member h (typeflag_of h) (length p) (?o + BLOCKSIZE + padded_size (length p)) s = Inr (scan_after s [e])"
  proof (cases e)
    case (Pax_entry h' p')
    then have "typeflag_of h = XHDTYPE" "\<not> rs_pending_pax s" "0 < length p" "length p \<le> MAX_PAX_BYTES"
        "validate_raw_pax_payload p = Inr ()" "q = zeros (padded_size (length p) - length p)"
      using assms(4) e(4) by auto
    moreover have "scan_after s [e] = s\<lparr>rs_pending_pax := True, rs_offset := ?o + BLOCKSIZE + padded_size (length p)\<rparr>"
      using Pax_entry e(4) lh m by (simp add: scan_after_def stream_bytes_Cons members_in_def)
    ultimately show ?thesis
      using scan_pax_Inr [OF refl next_fits] parts(2,3) lh e(3) by simp
  next
    case (Member_entry h' p' q')
    then have "typeflag_of h \<noteq> XHDTYPE" using assms(4) e(4) disjoint by auto
    moreover have "scan_after s [e] = \<lparr>rs_offset = ?o + BLOCKSIZE + padded_size (length p), rs_member_count = rs_member_count s + 1,
           rs_file_count = rs_file_count s + (if file_types (typeflag_of h) then 1 else 0),
           rs_directory_count = rs_directory_count s + (if directory_type (typeflag_of h) then 1 else 0),
           rs_payload_total = rs_payload_total s + length p, rs_pending_pax = False\<rparr>"
      using Member_entry e(3,4) lh m by (simp add: scan_after_def stream_bytes_Cons members_in_def)
    ultimately show ?thesis
      using scan_member_Inr [OF assms(1), of h "length p"] Member_entry assms(4,5) e(4) by simp
  qed
  then show ?thesis
    unfolding scan_header_cases using e(2) parts(1) next_fits lh
    by (intro exI [of _ h] exI [of _ "length p"]) (simp add: header_for_def)
qed

lemma scan_loop_iff:
  "within_limits s \<Longrightarrow> rs_offset s \<le> length raw \<Longrightarrow>
   scan_loop pread (length raw) s = Inr layout \<longleftrightarrow>
   (\<exists>es. drop (rs_offset s) raw = stream_bytes es @ zeros (length raw - rs_offset (scan_after s es))
      \<and> length raw = canonical_tar_stream_size (rs_offset (scan_after s es))
      \<and> entries_ok (rs_pending_pax s) es \<and> within_limits (scan_after s es) \<and> layout = layout_of (scan_after s es))"
  (is "_ \<Longrightarrow> _ \<Longrightarrow> _ \<longleftrightarrow> (\<exists>es. ?accepted s es)")
proof (induction "length raw - rs_offset s" arbitrary: s rule: less_induct)
  case less
  show ?case
  proof
    assume run: "scan_loop pread (length raw) s = Inr layout"
    then obtain r where r: "scan_header pread (length raw) s = Inr r"
      by (subst (asm) scan_loop.simps) (auto split: sum.splits)
    show "\<exists>es. ?accepted s es"
    proof (cases r)
      case (Inl l)
      then have "l = layout" using run r by (subst (asm) scan_loop.simps) simp
      then have "?accepted s []" using r Inl scan_header_Inl less.prems by simp
      then show ?thesis by blast
    next
      case (Inr t)
      obtain e rest where e: "drop (rs_offset s) raw = entry_bytes e @ rest"
          "tar_entry_ok (rs_pending_pax s) e" "within_limits t" "t = scan_after s [e]"
        using scan_header_entry [OF less.prems(1) r [unfolded Inr]] by blast
      note grows = scan_header_offset [OF r [unfolded Inr]]
      have "scan_loop pread (length raw) t = Inr layout"
        using run r Inr by (subst (asm) scan_loop.simps) simp
      moreover have "length raw - rs_offset t < length raw - rs_offset s" "rs_offset t \<le> length raw"
        using grows by auto
      ultimately obtain es where es: "?accepted t es"
        using less.hyps [of t] e(3) by blast
      have off: "rs_offset t = rs_offset s + length (entry_bytes e)"
        using e(4) by (simp add: scan_after_def stream_bytes_Cons)
      then have "drop (rs_offset t) raw = rest"
        using e(1) by (metis add.commute append_eq_conv_conj drop_drop)
      then have "?accepted s (e # es)"
        using es e by (simp add: stream_bytes_Cons scan_after_Cons [of s e es]) (simp add: scan_after_def)
      then show ?thesis by blast
    qed
  next
    assume "\<exists>es. ?accepted s es"
    then obtain es where es: "?accepted s es" by blast
    show "scan_loop pread (length raw) s = Inr layout"
    proof (cases es)
      case Nil
      then have "scan_header pread (length raw) s = Inr (Inl layout)"
        using es scan_header_Inl by simp
      then show ?thesis by (subst scan_loop.simps) simp
    next
      case (Cons e es')
      let ?t = "scan_after s [e]"
      have scan_after: "scan_after s es = scan_after ?t es'" unfolding Cons by (rule scan_after_Cons)
      have within: "within_limits ?t" using es unfolding scan_after by (blast intro: within_before)
      have raw: "drop (rs_offset s) raw = entry_bytes e @ stream_bytes es' @ zeros (length raw - rs_offset (scan_after s es))"
        using es Cons by (simp add: stream_bytes_Cons)
      have step: "scan_header pread (length raw) s = Inr (Inr ?t)"
        by (rule entry_scan_header [OF less.prems raw]) (use es Cons within in simp_all)
      note grows = scan_header_offset [OF step]
      have off: "rs_offset ?t = rs_offset s + length (entry_bytes e)"
        by (simp add: scan_after_def stream_bytes_Cons)
      then have "drop (rs_offset ?t) raw = stream_bytes es' @ zeros (length raw - rs_offset (scan_after s es))"
        using raw by (metis add.commute append_eq_conv_conj drop_drop)
      moreover have "rs_pending_pax ?t = is_pax e" by (simp add: scan_after_def)
      ultimately have "?accepted ?t es'" using es Cons unfolding scan_after by simp
      moreover have "length raw - rs_offset ?t < length raw - rs_offset s" "rs_offset ?t \<le> length raw"
        using grows by auto
      ultimately have "scan_loop pread (length raw) ?t = Inr layout"
        using less.hyps [of ?t] within by blast
      then show ?thesis using step by (subst scan_loop.simps) simp
    qed
  qed
qed

end

end
