(* ===== verification/Bundle_Gzip.thy ===== *)
theory Bundle_Gzip
  imports Bundle_Tar_Props
begin

text \<open>
  The two gzip checks of the source-bundle audit (\<open>inspect_gzip_stream\<close> and
  \<open>verify_canonical_gzip_bytes\<close> of \<open>scripts/audit_singbox_source_bundle.py\<close>). The compressed file is
  read through two operations on a state; zlib and gzip are arguments: a decompressor as the state
  of the object with what its method and attributes give, and the compressor as the bytes that a
  \<open>GzipFile\<close> with no name and no time leaves for the pieces written to it.
\<close>

definition CANONICAL_GZIP_HEADER :: bytes where
  "CANONICAL_GZIP_HEADER = octets [0x1f, 0x8b, 0x08, 0, 0, 0, 0, 0, 0x02, 0xff]"

section \<open>What the check is given\<close>

record 'p reader =
  rd_read :: "nat \<Rightarrow> 'p \<Rightarrow> bytes res \<times> 'p"
  rd_rewind :: "'p \<Rightarrow> unit res \<times> 'p"

text \<open>\<open>zl_decompress z data n\<close> is \<open>None\<close> where the method raises \<open>zlib.error\<close>.\<close>

record 'z zlib =
  zl_start :: 'z
  zl_decompress :: "'z \<Rightarrow> bytes \<Rightarrow> nat \<Rightarrow> (bytes \<times> 'z) option"
  zl_eof :: "'z \<Rightarrow> bool"
  zl_unused_data :: "'z \<Rightarrow> bytes"
  zl_unconsumed_tail :: "'z \<Rightarrow> bytes"

text \<open>\<open>sink.write(data)\<close>: the number of bytes written.\<close>

type_synonym 'w writer = "bytes \<Rightarrow> 'w \<Rightarrow> (nat \<times> 'w) res"

section \<open>Decompressing with a limit\<close>

record ('z, 'w) gzip_scan =
  gz_decompressor :: 'z
  gz_expanded :: nat
  gz_compressed_total :: nat
  gz_last_nonzero :: int
  gz_sink :: "'w option"

record gzip_stream_info =
  gi_expanded_size :: nat
  gi_last_nonzero_offset :: int

definition rstrip_nul :: "bytes \<Rightarrow> bytes" where
  "rstrip_nul b = rev (dropWhile (\<lambda>c. c = nul) (rev b))"

definition gzip_account :: "'w writer \<Rightarrow> bytes \<Rightarrow> ('z, 'w) gzip_scan \<Rightarrow> ('z, 'w) gzip_scan res" where
  "gzip_account put data s =
     (if MAX_TAR_STREAM_BYTES < gz_expanded s + length data then
        Inl (ValueError ''decompressed tar stream exceeds limit'')
      else
        bindE
          (case gz_sink s of
             Some w \<Rightarrow>
               if data \<noteq> [] then
                 bindE (put data w) (\<lambda>(n, w).
                   if n \<noteq> length data then Inl (ValueError ''cannot materialize decompressed tar stream'')
                   else Inr (Some w))
               else Inr (Some w)
           | None \<Rightarrow> Inr None)
          (\<lambda>sink.
            let stripped = rstrip_nul data in
            Inr (s\<lparr>gz_sink := sink,
                   gz_last_nonzero := (if stripped \<noteq> [] then int (gz_expanded s + length stripped) - 1
                                       else gz_last_nonzero s),
                   gz_expanded := gz_expanded s + length data\<rparr>)))"

text \<open>
  The loop over what is pending of a piece. zlib gives back a tail that is not longer than what it
  was given; where it did not, the model stops with \<open>OutOfFuel\<close>.
\<close>

definition gzip_output :: "'z zlib \<Rightarrow> 'w writer \<Rightarrow> bytes \<Rightarrow> ('z, 'w) gzip_scan \<Rightarrow>
    (bytes \<times> bytes \<times> ('z, 'w) gzip_scan) res" where
  "gzip_output zl put pending s =
     (case zl_decompress zl (gz_decompressor s) pending GZIP_OUTPUT_BYTES of
        None \<Rightarrow> Inl (ValueError ''invalid gzip stream'')
      | Some (out, z) \<Rightarrow>
          if zl_unused_data zl z \<noteq> [] then Inl (ValueError ''data follows the gzip member'')
          else
            bindE (gzip_account put out (s\<lparr>gz_decompressor := z\<rparr>)) (\<lambda>s.
              if out = [] \<and> length (zl_unconsumed_tail zl z) = length pending then
                Inl (ValueError ''gzip decompressor made no progress'')
              else if length pending < length (zl_unconsumed_tail zl z) then Inl OutOfFuel
              else Inr (out, zl_unconsumed_tail zl z, s)))"

lemma gzip_account_expanded:
  "gzip_account put data s = Inr t \<Longrightarrow>
   gz_expanded t = gz_expanded s + length data \<and> gz_expanded t \<le> MAX_TAR_STREAM_BYTES
   \<and> gz_compressed_total t = gz_compressed_total s \<and> gz_decompressor t = gz_decompressor s"
  by (auto simp: gzip_account_def res_iff Let_def)

lemma gzip_output_measure:
  "gzip_output zl put pending s = Inr (out, tail, t) \<Longrightarrow>
   (MAX_TAR_STREAM_BYTES - gz_expanded t) + length tail < (MAX_TAR_STREAM_BYTES - gz_expanded s) + length pending"
  by (cases out)
    (auto simp: gzip_output_def res_iff dest!: gzip_account_expanded split: option.splits prod.splits)

lemma gzip_output_total:
  "gzip_output zl put pending s = Inr (out, tail, t) \<Longrightarrow> gz_compressed_total t = gz_compressed_total s"
  by (auto simp: gzip_output_def res_iff dest!: gzip_account_expanded split: option.splits prod.splits)

function gzip_pending :: "'z zlib \<Rightarrow> 'w writer \<Rightarrow> bytes \<Rightarrow> ('z, 'w) gzip_scan \<Rightarrow> ('z, 'w) gzip_scan res" where
  "gzip_pending zl put pending s =
     (if pending = [] then Inr s
      else (case gzip_output zl put pending s of
              Inl e \<Rightarrow> Inl e
            | Inr (out, tail, t) \<Rightarrow> gzip_pending zl put tail t))"
  by pat_completeness auto
termination
  by (relation "measure (\<lambda>(zl, put, pending, s). (MAX_TAR_STREAM_BYTES - gz_expanded s) + length pending)")
    (auto dest: gzip_output_measure)

declare gzip_pending.simps [simp del]

lemma gzip_pending_total:
  "gzip_pending zl put pending s = Inr t \<Longrightarrow> gz_compressed_total t = gz_compressed_total s"
proof (induction zl put pending s rule: gzip_pending.induct)
  case (1 zl put pending s)
  then show ?case
    by (subst (asm) (2) gzip_pending.simps)
      (auto split: if_splits sum.splits dest: gzip_output_total)
qed

definition gzip_piece :: "'z zlib \<Rightarrow> 'w writer \<Rightarrow> bytes \<Rightarrow> ('z, 'w) gzip_scan \<Rightarrow> ('z, 'w) gzip_scan res" where
  "gzip_piece zl put compressed s =
     (let s = s\<lparr>gz_compressed_total := gz_compressed_total s + length compressed\<rparr> in
      if MAX_BUNDLE_BYTES < gz_compressed_total s then
        Inl (ValueError ''compressed source bundle exceeds limit'')
      else if zl_eof zl (gz_decompressor s) then Inl (ValueError ''data follows the gzip member'')
      else gzip_pending zl put compressed s)"

lemma gzip_piece_total:
  "gzip_piece zl put compressed s = Inr t \<Longrightarrow>
   gz_compressed_total t = gz_compressed_total s + length compressed \<and> gz_compressed_total t \<le> MAX_BUNDLE_BYTES"
  by (auto simp: gzip_piece_def Let_def dest!: gzip_pending_total split: if_splits)

function gzip_pieces :: "'p reader \<Rightarrow> 'z zlib \<Rightarrow> 'w writer \<Rightarrow> ('z, 'w) gzip_scan \<Rightarrow> 'p \<Rightarrow>
    ('z, 'w) gzip_scan res \<times> 'p" where
  "gzip_pieces rd zl put s p =
     (case rd_read rd GZIP_INPUT_BYTES p of
        (Inl e, p) \<Rightarrow> (Inl e, p)
      | (Inr compressed, p) \<Rightarrow>
          if compressed = [] then (Inr s, p)
          else (case gzip_piece zl put compressed s of
                  Inl e \<Rightarrow> (Inl e, p)
                | Inr t \<Rightarrow> gzip_pieces rd zl put t p))"
  by pat_completeness auto
termination
proof (relation "measure (\<lambda>(rd, zl, put, s, p). MAX_BUNDLE_BYTES - gz_compressed_total s)")
  fix rd :: "'p reader" and zl :: "'z zlib" and put :: "'w writer" and s t :: "('z, 'w) gzip_scan"
    and p x p' compressed
  assume "compressed \<noteq> []" "gzip_piece zl put compressed s = Inr t"
  then show "((rd, zl, put, t, p'), rd, zl, put, s, p)
      \<in> measure (\<lambda>(rd, zl, put, s, p). MAX_BUNDLE_BYTES - gz_compressed_total s)"
    using gzip_piece_total [of zl put compressed s t] by (cases compressed) auto
qed simp

declare gzip_pieces.simps [simp del]

definition gzip_init :: "'z zlib \<Rightarrow> 'w option \<Rightarrow> ('z, 'w) gzip_scan" where
  "gzip_init zl sink =
     \<lparr>gz_decompressor = zl_start zl, gz_expanded = 0, gz_compressed_total = 0, gz_last_nonzero = - 1,
      gz_sink = sink\<rparr>"

text \<open>Sequencing of computations over the state of the source, and \<open>finally: source.seek(0)\<close>.\<close>

definition bindP :: "('p \<Rightarrow> 'a res \<times> 'p) \<Rightarrow> ('a \<Rightarrow> 'p \<Rightarrow> 'b res \<times> 'p) \<Rightarrow> 'p \<Rightarrow> 'b res \<times> 'p" where
  "bindP m f p = (case m p of (Inl e, p) \<Rightarrow> (Inl e, p) | (Inr x, p) \<Rightarrow> f x p)"

definition rewindP :: "'p reader \<Rightarrow> ('p \<Rightarrow> 'a res \<times> 'p) \<Rightarrow> 'p \<Rightarrow> 'a res \<times> 'p" where
  "rewindP rd m p =
     (case m p of (r, p) \<Rightarrow>
        (case rd_rewind rd p of (Inl e, p) \<Rightarrow> (Inl e, p) | (Inr _, p) \<Rightarrow> (r, p)))"

definition inspect_gzip_stream :: "'p reader \<Rightarrow> 'z zlib \<Rightarrow> 'w writer \<Rightarrow> 'w option \<Rightarrow> 'p \<Rightarrow>
    (gzip_stream_info \<times> 'w option) res \<times> 'p" where
  "inspect_gzip_stream rd zl put sink =
     bindP (rd_rewind rd) (\<lambda>_.
     bindP (rd_read rd (length CANONICAL_GZIP_HEADER)) (\<lambda>header p.
       if header \<noteq> CANONICAL_GZIP_HEADER then (Inl (ValueError ''noncanonical gzip header''), p)
       else
         bindP (rd_rewind rd) (\<lambda>_.
         bindP (rewindP rd (gzip_pieces rd zl put (gzip_init zl sink))) (\<lambda>s p.
           if \<not> zl_eof zl (gz_decompressor s) then (Inl (ValueError ''truncated gzip stream''), p)
           else if zl_unused_data zl (gz_decompressor s) \<noteq> [] then
             (Inl (ValueError ''data follows the gzip member''), p)
           else (Inr (\<lparr>gi_expanded_size = gz_expanded s, gi_last_nonzero_offset = gz_last_nonzero s\<rparr>,
                      gz_sink s), p))) p))"

section \<open>The canonical bytes\<close>

text \<open>The pieces that a loop of \<open>read(n)\<close> gives of a file that is all there.\<close>

function file_pieces :: "nat \<Rightarrow> bytes \<Rightarrow> bytes list" where
  "file_pieces n b = (if b = [] \<or> n = 0 then [] else take n b # file_pieces n (drop n b))"
  by pat_completeness auto
termination by (relation "measure (\<lambda>(n, b). length b)") auto

declare file_pieces.simps [simp del]

function compare_pieces :: "'p reader \<Rightarrow> bytes \<Rightarrow> 'p \<Rightarrow> unit res \<times> 'p" where
  "compare_pieces rd canonical p =
     (case rd_read rd GZIP_INPUT_BYTES p of
        (Inl e, p) \<Rightarrow> (Inl e, p)
      | (Inr actual, p) \<Rightarrow>
          if actual \<noteq> take GZIP_INPUT_BYTES canonical then (Inl (ValueError ''noncanonical gzip payload''), p)
          else if actual = [] then (Inr (), p)
          else compare_pieces rd (drop GZIP_INPUT_BYTES canonical) p)"
  by pat_completeness auto
termination
  by (relation "measure (\<lambda>(rd, canonical, p). length canonical)") (auto simp: GZIP_INPUT_BYTES_def)

declare compare_pieces.simps [simp del]

definition verify_canonical_gzip_bytes :: "'p reader \<Rightarrow> (bytes list \<Rightarrow> bytes) \<Rightarrow> bytes \<Rightarrow> 'p \<Rightarrow> unit res \<times> 'p" where
  "verify_canonical_gzip_bytes rd gzip_file tar_stream =
     bindP (rd_rewind rd) (\<lambda>_.
       rewindP rd (\<lambda>p.
         let canonical = gzip_file (file_pieces GZIP_OUTPUT_BYTES tar_stream) in
         if MAX_BUNDLE_BYTES < length canonical then
           (Inl (ValueError ''canonical compressed source bundle exceeds limit''), p)
         else compare_pieces rd canonical p))"

end
