(* ===== verification/Bundle_Gzip_Props.thy ===== *)
theory Bundle_Gzip_Props
  imports Bundle_Gzip
begin

text \<open>
  What the gzip checks establish: the stream that was inspected is the one that was written out, its
  size and the place of its last byte that is not zero are those reported and within the limit; the
  loops end; and the canonical check accepts exactly the bytes of the compressor.
\<close>

section \<open>The sink\<close>

text \<open>The private temporary file of the audit: what is written is appended.\<close>

definition append_put :: "bytes writer" where
  "append_put data w = Inr (length data, w @ data)"

definition last_nonzero_of :: "bytes \<Rightarrow> int" where
  "last_nonzero_of w = int (length (rstrip_nul w)) - 1"

lemma rstrip_nul_Nil: "rstrip_nul d = [] \<longleftrightarrow> (\<forall>c \<in> set d. c = nul)"
  by (simp add: rstrip_nul_def dropWhile_eq_Nil_conv)

lemma dropWhile_all: "(\<forall>c \<in> set d. q c) \<Longrightarrow> dropWhile q (d @ e) = dropWhile q e"
  by (induction d) auto

lemma dropWhile_some: "\<not> (\<forall>c \<in> set d. q c) \<Longrightarrow> dropWhile q (d @ e) = dropWhile q d @ e"
  by (induction d) auto

lemma rstrip_nul_append:
  "rstrip_nul (w @ d) = (if rstrip_nul d \<noteq> [] then w @ rstrip_nul d else rstrip_nul w)"
  using dropWhile_all [of "rev d" "\<lambda>c. c = nul" "rev w"] dropWhile_some [of "rev d" "\<lambda>c. c = nul" "rev w"]
  by (simp add: rstrip_nul_Nil) (auto simp: rstrip_nul_def)

text \<open>The meaning of the offset: no byte after it differs from zero, and the byte at it does.\<close>

lemma last_nonzero_none:
  assumes "last_nonzero_of w < int i" "i < length w"
  shows "w ! i = nul"
proof -
  have split: "w = rstrip_nul w @ rev (takeWhile (\<lambda>c. c = nul) (rev w))"
    by (metis rstrip_nul_def rev_append rev_rev_ident takeWhile_dropWhile_id)
  have "length (rstrip_nul w) \<le> i" using assms(1) by (simp add: last_nonzero_of_def)
  then have "w ! i \<in> set (rev (takeWhile (\<lambda>c. c = nul) (rev w)))"
    using assms(2) split by (metis (no_types, lifting) add_diff_inverse_nat leD length_append nat_add_left_cancel_less nth_append nth_mem)
  then show ?thesis by (auto dest: set_takeWhileD)
qed

section \<open>What has been inspected\<close>

definition inspected :: "('z, bytes) gzip_scan \<Rightarrow> bytes \<Rightarrow> bool" where
  "inspected s w \<longleftrightarrow> gz_sink s = Some w \<and> gz_expanded s = length w \<and> length w \<le> MAX_TAR_STREAM_BYTES
     \<and> gz_last_nonzero s = last_nonzero_of w"

lemma inspected_account:
  "gzip_account append_put data s = Inr t \<Longrightarrow> inspected s w \<Longrightarrow> inspected t (w @ data)"
  by (auto simp: gzip_account_def inspected_def append_put_def res_iff Let_def last_nonzero_of_def
      rstrip_nul_append split: if_splits)

lemma inspected_output:
  assumes "gzip_output zl append_put pending s = Inr (out, tail, t)" "inspected s w"
  shows "inspected t (w @ out)"
proof -
  obtain z where "gzip_account append_put out (s\<lparr>gz_decompressor := z\<rparr>) = Inr t"
    using assms(1) by (auto simp: gzip_output_def res_iff split: option.splits prod.splits)
  moreover have "inspected (s\<lparr>gz_decompressor := z\<rparr>) w" using assms(2) by (simp add: inspected_def)
  ultimately show ?thesis by (rule inspected_account)
qed

lemma inspected_pending:
  "gzip_pending zl append_put pending s = Inr t \<Longrightarrow> inspected s w \<Longrightarrow> \<exists>more. inspected t (w @ more)"
proof (induction "(MAX_TAR_STREAM_BYTES - gz_expanded s) + length pending" arbitrary: pending s w rule: less_induct)
  case less
  show ?case
  proof (cases "pending = []")
    case True
    then have "t = s" using less.prems(1) by (simp add: gzip_pending.simps)
    then show ?thesis using less.prems(2) by (intro exI [of _ "[]"]) simp
  next
    case False
    then obtain out tail u where step: "gzip_output zl append_put pending s = Inr (out, tail, u)"
        "gzip_pending zl append_put tail u = Inr t"
      using less.prems(1) by (subst (asm) gzip_pending.simps) (auto split: sum.splits)
    then obtain more' where "inspected t ((w @ out) @ more')"
      using less.hyps [OF gzip_output_measure [OF step(1)] step(2) inspected_output [OF step(1) less.prems(2)]] by blast
    then show ?thesis by auto
  qed
qed

lemma inspected_piece:
  assumes "gzip_piece zl append_put compressed s = Inr t" "inspected s w"
  shows "\<exists>more. inspected t (w @ more)"
proof -
  have "inspected (s\<lparr>gz_compressed_total := gz_compressed_total s + length compressed\<rparr>) w"
    using assms(2) by (simp add: inspected_def)
  then show ?thesis using assms(1) inspected_pending
    by (fastforce simp: gzip_piece_def Let_def split: if_splits)
qed

lemma inspected_pieces:
  "gzip_pieces rd zl append_put s p = (Inr t, p') \<Longrightarrow> inspected s w \<Longrightarrow> \<exists>w'. inspected t w'"
proof (induction "MAX_BUNDLE_BYTES - gz_compressed_total s" arbitrary: s p w rule: less_induct)
  case less
  obtain compressed q where read: "rd_read rd GZIP_INPUT_BYTES p = (Inr compressed, q)"
    using less.prems(1) by (subst (asm) gzip_pieces.simps) (auto split: prod.splits sum.splits)
  show ?case
  proof (cases "compressed = []")
    case True
    then show ?thesis using less.prems read by (subst (asm) gzip_pieces.simps) auto
  next
    case False
    then obtain u where u: "gzip_piece zl append_put compressed s = Inr u" "gzip_pieces rd zl append_put u q = (Inr t, p')"
      using less.prems(1) read by (subst (asm) gzip_pieces.simps) (auto split: sum.splits)
    then obtain w' where "inspected u w'" using inspected_piece less.prems(2) by blast
    moreover have "MAX_BUNDLE_BYTES - gz_compressed_total u < MAX_BUNDLE_BYTES - gz_compressed_total s"
      using gzip_piece_total [OF u(1)] False by (cases compressed) auto
    ultimately show ?thesis using less.hyps u(2) by blast
  qed
qed

lemma inspect_gzip_Inr:
  assumes "inspect_gzip_stream rd zl append_put (Some []) p = (Inr (info, sink), p')"
  shows "\<exists>w. sink = Some w \<and> gi_expanded_size info = length w \<and> length w \<le> MAX_TAR_STREAM_BYTES
    \<and> gi_last_nonzero_offset info = last_nonzero_of w"
proof -
  obtain s q q' where s: "gzip_pieces rd zl append_put (gzip_init zl (Some [])) q = (Inr s, q')"
      "info = \<lparr>gi_expanded_size = gz_expanded s, gi_last_nonzero_offset = gz_last_nonzero s\<rparr>" "sink = gz_sink s"
    using assms
    by (auto simp: inspect_gzip_stream_def bindP_def rewindP_def split: prod.splits sum.splits if_splits)
  have "inspected (gzip_init zl (Some [])) []"
    by (simp add: inspected_def gzip_init_def last_nonzero_of_def rstrip_nul_def)
  then obtain w where "inspected s w" using inspected_pieces [OF s(1)] by blast
  then show ?thesis using s(2,3) by (simp add: inspected_def)
qed

section \<open>The loops end\<close>

text \<open>zlib gives back a part of what it was given.\<close>

definition tail_bounded :: "'z zlib \<Rightarrow> bool" where
  "tail_bounded zl \<longleftrightarrow> (\<forall>z data n out z'. zl_decompress zl z data n = Some (out, z') \<longrightarrow>
     length (zl_unconsumed_tail zl z') \<le> length data)"

definition no_fuel :: "'a res \<Rightarrow> bool" where
  "no_fuel r \<longleftrightarrow> r \<noteq> Inl OutOfFuel"

definition put_ends :: "'w writer \<Rightarrow> bool" where
  "put_ends put \<longleftrightarrow> (\<forall>d w. no_fuel (put d w))"

definition reader_ends :: "'p reader \<Rightarrow> bool" where
  "reader_ends rd \<longleftrightarrow> (\<forall>n p. no_fuel (fst (rd_read rd n p))) \<and> (\<forall>p. no_fuel (fst (rd_rewind rd p)))"

lemma no_fuel_account: "put_ends put \<Longrightarrow> no_fuel (gzip_account put data s)"
  by (auto simp: put_ends_def gzip_account_def no_fuel_def Let_def bindE_def split: option.splits sum.splits prod.splits)

lemma no_fuel_output:
  assumes "tail_bounded zl" "put_ends put"
  shows "no_fuel (gzip_output zl put pending s)"
proof (cases "zl_decompress zl (gz_decompressor s) pending GZIP_OUTPUT_BYTES")
  case (Some r)
  obtain out z where r: "r = (out, z)" by (cases r)
  have "length (zl_unconsumed_tail zl z) \<le> length pending"
    using assms(1) Some r unfolding tail_bounded_def by blast
  then show ?thesis using Some r no_fuel_account [OF assms(2), where data = out and s = "s\<lparr>gz_decompressor := z\<rparr>"]
    by (auto simp: gzip_output_def no_fuel_def bindE_def split: sum.splits)
qed (simp add: gzip_output_def no_fuel_def)

lemma no_fuel_pending:
  assumes "tail_bounded zl" "put_ends put"
  shows "no_fuel (gzip_pending zl put pending s)"
proof (induction "(MAX_TAR_STREAM_BYTES - gz_expanded s) + length pending" arbitrary: pending s rule: less_induct)
  case less
  show ?case
  proof (cases "pending = []")
    case False
    show ?thesis
    proof (cases "gzip_output zl put pending s")
      case (Inl e)
      then show ?thesis using no_fuel_output [OF assms, where pending = pending and s = s] False
        by (simp add: gzip_pending.simps [of zl put pending] no_fuel_def)
    next
      case (Inr r)
      obtain out tail t where r: "r = (out, tail, t)" by (cases r)
      show ?thesis using less [OF gzip_output_measure [OF Inr [unfolded r]]] Inr r False
        by (simp add: gzip_pending.simps [of zl put pending])
    qed
  qed (simp add: gzip_pending.simps no_fuel_def)
qed

lemma no_fuel_pieces:
  assumes "tail_bounded zl" "put_ends put" "reader_ends rd"
  shows "no_fuel (fst (gzip_pieces rd zl put s p))"
proof (induction "MAX_BUNDLE_BYTES - gz_compressed_total s" arbitrary: s p rule: less_induct)
  case less
  obtain r q where read: "rd_read rd GZIP_INPUT_BYTES p = (r, q)" by fastforce
  show ?case
  proof (cases r)
    case (Inl e)
    have "no_fuel (fst (rd_read rd GZIP_INPUT_BYTES p))" using assms(3) by (simp add: reader_ends_def)
    then show ?thesis using Inl read by (subst gzip_pieces.simps) (simp add: no_fuel_def)
  next
    case (Inr compressed)
    show ?thesis
    proof (cases "compressed = []")
      case True
      then show ?thesis using read Inr by (subst gzip_pieces.simps) (simp add: no_fuel_def)
    next
      case False
      show ?thesis
      proof (cases "gzip_piece zl put compressed s")
        case (Inl e)
        have "no_fuel (gzip_piece zl put compressed s)"
          using no_fuel_pending [OF assms(1,2)] by (simp add: gzip_piece_def Let_def) (simp add: no_fuel_def)
        then show ?thesis using read Inr False Inl by (subst gzip_pieces.simps) (simp add: no_fuel_def)
      next
        case (Inr t)
        have "MAX_BUNDLE_BYTES - gz_compressed_total t < MAX_BUNDLE_BYTES - gz_compressed_total s"
          using gzip_piece_total [OF Inr] False by (cases compressed) auto
        then show ?thesis using less [of t q] read \<open>r = Inr compressed\<close> False Inr
          by (subst gzip_pieces.simps) simp
      qed
    qed
  qed
qed

lemma no_fuel_bindP:
  assumes "\<And>q. no_fuel (fst (m q))" "\<And>x q. no_fuel (fst (f x q))"
  shows "no_fuel (fst (bindP m f q))"
  using assms(1) [of q] assms(2) by (auto simp: bindP_def no_fuel_def split: prod.splits sum.splits)

lemma inspect_gzip_ends:
  assumes "tail_bounded zl" "put_ends put" "reader_ends rd"
  shows "no_fuel (fst (inspect_gzip_stream rd zl put sink p))"
proof -
  have reads: "no_fuel (fst (rd_read rd n q))" and rewind: "no_fuel (fst (rd_rewind rd q))" for n q
    using assms(3) by (auto simp: reader_ends_def)
  have rewound: "no_fuel (fst (rewindP rd (gzip_pieces rd zl put (gzip_init zl sink)) q))" for q
  proof -
    obtain r q1 where run: "gzip_pieces rd zl put (gzip_init zl sink) q = (r, q1)" by fastforce
    obtain r2 q2 where backs: "rd_rewind rd q1 = (r2, q2)" by fastforce
    have "no_fuel r" using no_fuel_pieces [OF assms, where s = "gzip_init zl sink" and p = q] run by simp
    moreover have "no_fuel r2" using rewind [of q1] backs by simp
    ultimately show ?thesis using run backs by (cases r2) (simp_all add: rewindP_def no_fuel_def)
  qed
  show ?thesis
    unfolding inspect_gzip_stream_def
    apply (rule no_fuel_bindP [OF rewind])
    apply (rule no_fuel_bindP [OF reads])
    apply (simp only: if_distrib [where f = fst] fst_conv split: if_split)
    apply (intro conjI impI)
     apply (simp add: no_fuel_def)
    apply (rule no_fuel_bindP [OF rewind])
    apply (rule no_fuel_bindP [OF rewound])
    apply (simp add: no_fuel_def)
    done
qed

section \<open>The canonical bytes\<close>

text \<open>A file that is all there, read from a place in it.\<close>

definition plain_reader :: "(bytes \<times> bytes) reader" where
  "plain_reader = \<lparr>rd_read = (\<lambda>n (content, left). (Inr (take n left), (content, drop n left))),
                  rd_rewind = (\<lambda>(content, left). (Inr (), (content, content)))\<rparr>"

lemma compare_pieces_file:
  "fst (compare_pieces plain_reader canonical (content, left)) = Inr () \<longleftrightarrow> left = canonical"
proof (induction "length canonical" arbitrary: canonical left rule: less_induct)
  case less
  have one: "compare_pieces plain_reader canonical (content, left) =
      (if take GZIP_INPUT_BYTES left \<noteq> take GZIP_INPUT_BYTES canonical
       then (Inl (ValueError ''noncanonical gzip payload''), (content, drop GZIP_INPUT_BYTES left))
       else if take GZIP_INPUT_BYTES left = [] then (Inr (), (content, drop GZIP_INPUT_BYTES left))
       else compare_pieces plain_reader (drop GZIP_INPUT_BYTES canonical) (content, drop GZIP_INPUT_BYTES left))"
    by (subst compare_pieces.simps) (simp add: plain_reader_def)
  have pos: "0 < GZIP_INPUT_BYTES" by (simp add: GZIP_INPUT_BYTES_def)
  show ?case
  proof (cases "take GZIP_INPUT_BYTES left = take GZIP_INPUT_BYTES canonical \<and> take GZIP_INPUT_BYTES left \<noteq> []")
    case True
    then have "canonical \<noteq> []" by auto
    then have "length (drop GZIP_INPUT_BYTES canonical) < length canonical" using pos by (cases canonical) auto
    from less [OF this] have "fst (compare_pieces plain_reader canonical (content, left)) = Inr () \<longleftrightarrow>
        drop GZIP_INPUT_BYTES left = drop GZIP_INPUT_BYTES canonical"
      using True \<open>canonical \<noteq> []\<close> by (simp add: one)
    also have "\<dots> \<longleftrightarrow> left = canonical" using True by (metis append_take_drop_id)
    finally show ?thesis .
  next
    case False
    then show ?thesis using pos by (auto simp: one)
  qed
qed

lemma verify_canonical_iff:
  "fst (verify_canonical_gzip_bytes plain_reader gzip_file tar_stream (content, left)) = Inr () \<longleftrightarrow>
   content = gzip_file (file_pieces GZIP_OUTPUT_BYTES tar_stream) \<and> length content \<le> MAX_BUNDLE_BYTES"
proof -
  let ?canonical = "gzip_file (file_pieces GZIP_OUTPUT_BYTES tar_stream)"
  have rewind: "rd_rewind plain_reader q = (Inr (), (fst q, fst q))" for q
    by (cases q) (simp add: plain_reader_def)
  have "fst (verify_canonical_gzip_bytes plain_reader gzip_file tar_stream (content, left)) =
      (if MAX_BUNDLE_BYTES < length ?canonical
       then Inl (ValueError ''canonical compressed source bundle exceeds limit'')
       else fst (compare_pieces plain_reader ?canonical (content, content)))"
    by (simp add: verify_canonical_gzip_bytes_def bindP_def rewindP_def rewind Let_def split: prod.split)
  then show ?thesis using compare_pieces_file [of ?canonical content content] by auto
qed

end
