(* ===== verification/Bundle_Audit.thy ===== *)
theory Bundle_Audit
  imports Bundle_Payload Bundle_Gzip_Props
begin

text \<open>
  The audit of the members of the source bundle (\<open>validate_reproducible_metadata\<close>,
  \<open>validate_canonical_member_bytes\<close>, \<open>validate_builder_topology\<close> and the loop of \<open>audit_bundle\<close> in
  \<open>scripts/audit_singbox_source_bundle.py\<close>).

  \<open>tarfile\<close> is an argument: the answers of \<open>archive.next()\<close> for the decompressed stream, each a
  record of the attributes the audit reads, of the bytes that \<open>tobuf\<close> gives and of the stream of
  \<open>extractfile\<close>. A path is the list of the parts of the \<open>PurePosixPath\<close>.
\<close>

section \<open>Failures\<close>

text \<open>
  \<open>cleaned.encode("utf-8", "replace")\<close>: a lone surrogate becomes a question mark. The bytes are well
  formed, so that of a prefix only the last character can be cut, which \<open>decode("utf-8", "ignore")\<close>
  leaves out.
\<close>

fun encode_replace :: "string \<Rightarrow> bytes" where
  "encode_replace (a # b # c # s) =
     (if byte_val a = 0xED \<and> 0xA0 \<le> byte_val b then CHR ''?'' # encode_replace s
      else a # encode_replace (b # c # s))"
| "encode_replace s = s"

definition decode_ignore :: "bytes \<Rightarrow> string" where
  "decode_ignore b = (case utf8_rest b of Some kept \<Rightarrow> take (length b - length kept) b | None \<Rightarrow> b)"

definition clean_failure :: "string \<Rightarrow> string" where
  "clean_failure message =
     concat (map (\<lambda>c. if c = nul then [CHR 0x5C, CHR ''0''] else if c = CR then [CHR 0x5C, CHR ''r'']
                      else if c = LF then [CHR 0x5C, CHR ''n''] else [c]) message)"

definition append_failure :: "string \<Rightarrow> string list \<Rightarrow> string list res" where
  "append_failure message failures =
     (if MAX_FAILURES \<le> length failures then
        Inl (ValueError (''source bundle exceeds the '' @ dec_nat MAX_FAILURES @ ''-failure limit''))
      else
        let cleaned = clean_failure message; encoded = encode_replace cleaned in
        Inr (failures @
          [if MAX_FAILURE_BYTES < length encoded
           then decode_ignore (take (MAX_FAILURE_BYTES - 3) encoded) @ ''...'' else cleaned]))"

definition fail_if :: "bool \<Rightarrow> string \<Rightarrow> string list \<Rightarrow> string list res" where
  "fail_if c message failures = (if c then append_failure message failures else Inr failures)"

text \<open>A sequence of checks, each with its message.\<close>

definition fail_each :: "(bool \<times> string) list \<Rightarrow> string list \<Rightarrow> string list res" where
  "fail_each checks failures = foldE (\<lambda>fs (c, m). fail_if c m fs) failures checks"

section \<open>Members\<close>

record tar_member =
  tm_name :: string
  tm_uid :: int
  tm_gid :: int
  tm_uname :: string
  tm_gname :: string
  tm_mtime :: int
  tm_linkname :: string
  tm_mode :: int
  tm_type :: bytes
  tm_size :: int
  tm_pax_headers :: "(string \<times> string) list"
  tm_offset :: nat
  tm_offset_data :: nat
  tm_tobuf :: "string + bytes"
  tm_payload :: "granted option"

definition is_dir :: "tar_member \<Rightarrow> bool" where
  "is_dir m \<longleftrightarrow> tm_type m = DIRTYPE"

definition is_file :: "tar_member \<Rightarrow> bool" where
  "is_file m \<longleftrightarrow> tm_type m \<in> {REGTYPE, AREGTYPE, CONTTYPE, GNUTYPE_SPARSE}"

definition is_link :: "tar_member \<Rightarrow> bool" where
  "is_link m \<longleftrightarrow> tm_type m = SYMTYPE \<or> tm_type m = LNKTYPE"

definition path_needs_pax :: "tar_member \<Rightarrow> bool" where
  "path_needs_pax m \<longleftrightarrow>
     (if list_all (\<lambda>c. byte_val c < 128) (tm_name m) then LENGTH_NAME < length (tm_name m) else True)"

text \<open>The modes 0777, 0755 and 0644 are 511, 493 and 420.\<close>

definition metadata_checks :: "tar_member \<Rightarrow> (bool \<times> string) list" where
  "metadata_checks m =
     [(tm_uid m \<noteq> 0 \<or> tm_gid m \<noteq> 0, ''noncanonical archive ownership: '' @ tm_name m),
      (tm_uname m \<noteq> [] \<or> tm_gname m \<noteq> [], ''noncanonical archive owner names: '' @ tm_name m),
      (tm_mtime m \<noteq> 0, ''noncanonical archive mtime: '' @ tm_name m),
      (tm_linkname m \<noteq> [], ''noncanonical archive link metadata: '' @ tm_name m),
      (tm_mode m < 0 \<or> 511 < tm_mode m, ''archive mode contains special bits: '' @ tm_name m),
      (is_dir m \<and> (tm_mode m \<noteq> 493 \<or> tm_size m \<noteq> 0),
        ''noncanonical archive directory metadata: '' @ tm_name m),
      (\<not> is_dir m \<and> is_file m \<and> (tm_type m \<noteq> REGTYPE \<or> tm_mode m \<notin> {420, 493}),
        ''noncanonical archive file metadata: '' @ tm_name m),
      (set (map fst (tm_pax_headers m)) \<noteq> (if path_needs_pax m then {''path''} else {}),
        ''noncanonical archive PAX metadata: '' @ tm_name m),
      (map_of (tm_pax_headers m) ''path'' \<notin> {None, Some (if is_dir m then tm_name m @ ''/'' else tm_name m)},
        ''noncanonical archive PAX path: '' @ tm_name m)]"

definition validate_reproducible_metadata :: "tar_member \<Rightarrow> string list \<Rightarrow> string list res" where
  "validate_reproducible_metadata m = fail_each (metadata_checks m)"

definition validate_canonical_member_bytes ::
  "positioned \<Rightarrow> tar_member \<Rightarrow> string list \<Rightarrow> string list res" where
  "validate_canonical_member_bytes pread m failures =
     (case tm_tobuf m of
        Inl error_name \<Rightarrow>
          append_failure (''cannot canonicalize archive member header: '' @ tm_name m @ '': '' @ error_name) failures
      | Inr expected \<Rightarrow>
          let header_size = int (tm_offset_data m) - int (tm_offset m) in
          if header_size \<noteq> int (length expected) then
            append_failure (''noncanonical archive header span: '' @ tm_name m) failures
          else
            bindE (read_exact_at pread (nat header_size) (tm_offset m)) (\<lambda>actual.
            bindE (fail_if (actual \<noteq> expected) (''noncanonical raw archive header: '' @ tm_name m) failures) (\<lambda>failures.
            let padding_size = nat ((- tm_size m) mod int BLOCKSIZE) in
            if padding_size = 0 then Inr failures
            else if int (tm_offset_data m) + tm_size m < 0 then
              Inl (ValueError ''cannot inspect decompressed tar stream'')
            else
              bindE (read_exact_at pread padding_size (nat (int (tm_offset_data m) + tm_size m))) (\<lambda>padding.
                fail_if (has_nonzero padding) (''nonzero archive member padding: '' @ tm_name m) failures))))"

definition ALLOWED_BINARY_FILES :: "(string list \<times> nat \<times> string) list" where
  "ALLOWED_BINARY_FILES =
     [([''singbox'', ''vendor'', ''golang.org'', ''x'', ''net'', ''publicsuffix'', ''data'', ''children''],
       3484, ''bda2852d2be3d2187bcb45acedf9973af4ceeead7cec45dfd22f17424f746b9d''),
      ([''singbox'', ''vendor'', ''golang.org'', ''x'', ''net'', ''publicsuffix'', ''data'', ''nodes''],
       50500, ''4291647663383213ccefb726abacf571c5d76904ee939e0e3feb41898bb43102'')]"

definition allowed_binary_spec :: "string list \<Rightarrow> (nat \<times> string) option" where
  "allowed_binary_spec parts =
     (if length parts < 2 then None else map_of ALLOWED_BINARY_FILES (tl parts))"

text \<open>\<open>PurePath.suffix\<close>: from the last dot of the name, where it is neither first nor last.\<close>

definition path_suffix :: "string list \<Rightarrow> string" where
  "path_suffix parts =
     (let name = (if parts = [] \<or> startswith (last parts) ''/'' then [] else last parts);
          ending = rev (takeWhile (\<lambda>c. c \<noteq> CHR ''.'') (rev name)) in
      if ending \<noteq> [] \<and> length ending + 1 < length name then CHR ''.'' # ending else [])"

section \<open>The topology of the members\<close>

datatype member_kind = Directory_kind | File_kind | Other_kind

text \<open>The dict \<open>member_kinds\<close>, in the order of its insertions.\<close>

type_synonym kinds = "(string list \<times> member_kind list) list"

fun add_kind :: "string list \<Rightarrow> member_kind \<Rightarrow> kinds \<Rightarrow> kinds" where
  "add_kind p k [] = [(p, [k])]"
| "add_kind p k ((q, ks) # rest) =
     (if q = p then (q, if k \<in> set ks then ks else ks @ [k]) # rest else (q, ks) # add_kind p k rest)"

definition kinds_of :: "kinds \<Rightarrow> string list \<Rightarrow> member_kind list" where
  "kinds_of kinds p = (case map_of kinds p of None \<Rightarrow> [] | Some ks \<Rightarrow> ks)"

text \<open>The directories that are open, the innermost first, each with whether a file was seen in it.\<close>

type_synonym active = "(string list \<times> bool) list"

definition below :: "string list \<Rightarrow> string list \<Rightarrow> bool" where
  "below p parent \<longleftrightarrow> length parent < length p \<and> take (length parent) p = parent"

fun close_directory :: "active \<Rightarrow> string list \<Rightarrow> (active \<times> string list) res" where
  "close_directory [] failures = Inr ([], failures)"
| "close_directory ((path, has_file) # rest) failures =
     (if \<not> has_file then
        bindE (append_failure (''empty archive directory is not emitted by builder: '' @ parts_posix path) failures)
          (\<lambda>failures. Inr (rest, failures))
      else
        Inr (case rest of [] \<Rightarrow> [] | (parent, _) # outer \<Rightarrow> (parent, True) # outer, failures))"

function close_until :: "string list \<Rightarrow> active \<Rightarrow> string list \<Rightarrow> (active \<times> string list) res" where
  "close_until p [] failures = Inr ([], failures)"
| "close_until p ((parent, has_file) # rest) failures =
     (if below p parent then Inr ((parent, has_file) # rest, failures)
      else (case close_directory ((parent, has_file) # rest) failures of
              Inl e \<Rightarrow> Inl e
            | Inr (active, failures) \<Rightarrow> close_until p active failures))"
  by pat_completeness auto
termination
  by (relation "measure (\<lambda>(p, active, failures). length active)")
    (auto simp: bindE_def split: if_splits sum.splits list.splits)

function close_all :: "active \<Rightarrow> string list \<Rightarrow> string list res" where
  "close_all [] failures = Inr failures"
| "close_all (d # rest) failures =
     (case close_directory (d # rest) failures of
        Inl e \<Rightarrow> Inl e
      | Inr (active, failures) \<Rightarrow> close_all active failures)"
  by pat_completeness auto
termination
  by (relation "measure (\<lambda>(active, failures). length active)")
    (auto simp: bindE_def split: if_splits sum.splits list.splits)

definition enter_member :: "kinds \<Rightarrow> active \<times> string list \<Rightarrow> string list \<Rightarrow> (active \<times> string list) res" where
  "enter_member kinds s p =
     (case s of (active, failures) \<Rightarrow>
        bindE (close_until p active failures) (\<lambda>(active, failures).
          let ks = kinds_of kinds p;
              active = (if Directory_kind \<in> set ks then (p, False) # active else active) in
          Inr (if File_kind \<in> set ks then
                 (case active of [] \<Rightarrow> [] | (current, has_file) # rest \<Rightarrow>
                    if current \<noteq> p then (current, True) # rest else (current, has_file) # rest)
               else active,
               failures)))"

definition validate_builder_topology :: "string list list \<Rightarrow> kinds \<Rightarrow> string list \<Rightarrow> string list res" where
  "validate_builder_topology member_sequence kinds failures =
     bindE (fail_if (list_ex (\<lambda>p. length p = 1) member_sequence)
              ''explicit logical root archive member is forbidden'' failures) (\<lambda>failures.
     bindE (fail_if (member_sequence \<noteq> sort member_sequence)
              ''archive members are not in canonical builder order'' failures) (\<lambda>failures.
     bindE (fail_each (map (\<lambda>(p, _). (2 < length p \<and> Directory_kind \<notin> set (kinds_of kinds (butlast p)),
              ''archive parent directory is missing: '' @ parts_posix (butlast p))) kinds) failures) (\<lambda>failures.
     bindE (foldE (enter_member kinds) ([], failures) (sort (map fst kinds))) (\<lambda>(active, failures).
       close_all active failures))))"

section \<open>The loop over the members\<close>

record audit_state =
  au_failures :: "string list"
  au_files :: nat
  au_directories :: nat
  au_expanded :: int
  au_member_count :: nat
  au_retained_name_bytes :: nat
  au_archive_end :: int
  au_root_name :: "string option"
  au_multiple_roots :: bool
  au_kinds :: kinds
  au_sequence :: "string list list"

definition audit_init :: audit_state where
  "audit_init = \<lparr>au_failures = [], au_files = 0, au_directories = 0, au_expanded = 0, au_member_count = 0,
     au_retained_name_bytes = 0, au_archive_end = 0, au_root_name = None, au_multiple_roots = False,
     au_kinds = [], au_sequence = []\<rparr>"

definition report :: "(bool \<times> string) list \<Rightarrow> audit_state \<Rightarrow> audit_state res" where
  "report checks s = bindE (fail_each checks (au_failures s)) (\<lambda>fs. Inr (s\<lparr>au_failures := fs\<rparr>))"

definition member_path :: "tar_member \<Rightarrow> string list" where
  "member_path m = posix_path_parts (tm_name m)"

text \<open>\<open>name.encode("utf-8", "strict")\<close>, and the empty bytes where that raises.\<close>

definition encoded_name :: "tar_member \<Rightarrow> bytes" where
  "encoded_name m = (if utf8_ok False (tm_name m) then tm_name m else [])"

text \<open>Counting a member and measuring its name; \<open>py_repr\<close> is \<open>repr\<close> of a string.\<close>

definition count_member :: "(string \<Rightarrow> string) \<Rightarrow> tar_member \<Rightarrow> audit_state \<Rightarrow> audit_state res" where
  "count_member py_repr m s =
     (let s = s\<lparr>au_member_count := au_member_count s + 1\<rparr> in
      if MAX_MEMBERS < au_member_count s then
        Inl (ValueError (''source bundle exceeds the '' @ dec_nat MAX_MEMBERS @ ''-member limit''))
      else
        let s = s\<lparr>au_archive_end := max (au_archive_end s)
                    (int (tm_offset_data m) + (max (tm_size m) 0 + int BLOCKSIZE - 1) div int BLOCKSIZE * int BLOCKSIZE),
                  au_sequence := au_sequence s @ [member_path m]\<rparr> in
        bindE (report [(\<not> utf8_ok False (tm_name m),
                 ''archive member name is not valid UTF-8: '' @ py_repr (tm_name m))] s) (\<lambda>s.
        let s = s\<lparr>au_retained_name_bytes := au_retained_name_bytes s + length (encode_replace (tm_name m))\<rparr> in
        if MAX_RETAINED_NAME_BYTES < au_retained_name_bytes s then
          Inl (ValueError ''archive member names exceed the retained-byte limit'')
        else
          report
            [(MAX_MEMBER_NAME_BYTES < length (encoded_name m),
               ''archive member name exceeds '' @ dec_nat MAX_MEMBER_NAME_BYTES @ '' bytes: '' @ tm_name m),
             (128 < length (member_path m), ''archive member depth exceeds 128: '' @ tm_name m)] s))"

definition kind_of :: "tar_member \<Rightarrow> member_kind" where
  "kind_of m = (if is_dir m then Directory_kind else if is_file m then File_kind else Other_kind)"

definition count_kind :: "tar_member \<Rightarrow> audit_state \<Rightarrow> audit_state res" where
  "count_kind m s =
     (if is_dir m then
        if MAX_ARCHIVE_DIRECTORIES < au_directories s + 1 then
          Inl (ValueError (''source bundle exceeds the '' @ dec_nat MAX_ARCHIVE_DIRECTORIES @ ''-directory limit''))
        else Inr (s\<lparr>au_directories := au_directories s + 1\<rparr>)
      else if is_file m then
        if MAX_ARCHIVE_FILES < au_files s + 1 then
          Inl (ValueError (''source bundle exceeds the '' @ dec_nat MAX_ARCHIVE_FILES @ ''-file limit''))
        else Inr (s\<lparr>au_files := au_files s + 1\<rparr>)
      else Inr s)"

text \<open>The checks of the name, the root and the path, and the metadata of the header.\<close>

definition policy_failure :: "tar_member \<Rightarrow> string option" where
  "policy_failure m =
     (if encoded_name m \<noteq> [] then member_name_policy_failure (encoded_name m) (is_dir m) else None)"

definition check_root :: "tar_member \<Rightarrow> audit_state \<Rightarrow> audit_state res" where
  "check_root m s =
     (if tm_name m = [] \<or> member_path m = [] then report [(True, ''empty archive member name'')] s
      else
        (case au_root_name s of
           None \<Rightarrow> Inr (s\<lparr>au_root_name := Some (hd (member_path m))\<rparr>)
         | Some root \<Rightarrow>
             if hd (member_path m) \<noteq> root \<and> \<not> au_multiple_roots s then
               bindE (report [(True, ''source bundle must contain exactly one root directory'')] s)
                 (\<lambda>s. Inr (s\<lparr>au_multiple_roots := True\<rparr>))
             else Inr s))"

definition check_path :: "positioned \<Rightarrow> tar_member \<Rightarrow> audit_state \<Rightarrow> audit_state res" where
  "check_path pread m s =
     bindE (report
       [(parts_posix (member_path m) \<noteq> tm_name m, ''noncanonical archive member name: '' @ tm_name m),
        (member_path m \<in> set (map fst (au_kinds s)),
          ''duplicate normalized archive member: '' @ parts_posix (member_path m))] s) (\<lambda>s.
     let s = s\<lparr>au_kinds := add_kind (member_path m) (kind_of m) (au_kinds s)\<rparr> in
     bindE (validate_reproducible_metadata m (au_failures s)) (\<lambda>fs.
     bindE (validate_canonical_member_bytes pread m fs) (\<lambda>fs.
       Inr (s\<lparr>au_failures := fs\<rparr>))))"

text \<open>The checks of the content of a file.\<close>

definition content_checks :: "tar_member \<Rightarrow> content_audit \<Rightarrow> (bool \<times> string) list" where
  "content_checks m c =
     [(ca_forbidden_magic c, ''executable or archive magic is forbidden: '' @ tm_name m),
      (ca_git_lfs_pointer c, ''Git LFS pointer is forbidden: '' @ tm_name m)]
     @ (case allowed_binary_spec (member_path m) of
          Some (sz, digest) \<Rightarrow>
            [(int MAX_ALLOWED_BINARY_BYTES < tm_size m,
               ''allowed binary source exceeds '' @ dec_nat MAX_ALLOWED_BINARY_BYTES @ '' bytes: '' @ tm_name m),
             (tm_size m \<noteq> int sz \<or> ca_sha256 c \<noteq> Some digest,
               ''allowed binary source does not match the reviewed size and digest: '' @ tm_name m)]
        | None \<Rightarrow>
            [(ca_has_nul c, ''NUL byte in source text: '' @ tm_name m),
             (\<not> ca_valid_utf8 c, ''non-UTF-8 source text: '' @ tm_name m)])
     @ [(ca_forbidden_reference c, ''forbidden client reference: '' @ tm_name m),
        (ca_local_host_path c, ''absolute local host path: '' @ tm_name m)]"

definition audit_content :: "tar_member \<Rightarrow> audit_state \<Rightarrow> audit_state res" where
  "audit_content m s =
     (if tm_size m < 0 \<or> int MAX_MEMBER_BYTES < tm_size m then
        report [(True, ''oversized archive member: '' @ tm_name m)] s
      else
        let s = s\<lparr>au_expanded := au_expanded s + tm_size m\<rparr> in
        if int MAX_EXPANDED_BYTES < au_expanded s then
          report [(True, ''expanded source bundle exceeds limit'')] s
        else
          bindE (report [(str_lower (path_suffix (member_path m)) \<in> set FORBIDDEN_SUFFIXES,
                   ''forbidden packaged artifact: '' @ tm_name m)] s) (\<lambda>s.
          (case tm_payload m of
             None \<Rightarrow> report [(True, ''cannot read archive member: '' @ tm_name m)] s
           | Some payload \<Rightarrow>
               bindE (scan_member_payload granted_read payload (nat (tm_size m))
                        (allowed_binary_spec (member_path m) \<noteq> None)) (\<lambda>c.
                 if \<not> ca_exact_size c \<or> int (ca_bytes_read c) \<noteq> tm_size m then
                   report [(True, ''archive member size mismatch: '' @ tm_name m)] s
                 else report (content_checks m c) s))))"

text \<open>The whole of a turn of the loop; every \<open>continue\<close> ends it.\<close>

definition audit_member :: "(string \<Rightarrow> string) \<Rightarrow> positioned \<Rightarrow> tar_member \<Rightarrow> audit_state \<Rightarrow> audit_state res" where
  "audit_member py_repr pread m s =
     bindE (count_member py_repr m s) (\<lambda>s.
     bindE (count_kind m s) (\<lambda>s.
     bindE (case policy_failure m of None \<Rightarrow> Inr s
            | Some message \<Rightarrow> report [(True, message @ '': '' @ tm_name m)] s) (\<lambda>s.
     bindE (check_root m s) (\<lambda>s.
     bindE (check_path pread m s) (\<lambda>s.
       let p = member_path m in
       if startswith (tm_name m) ''/'' \<or> ''..'' \<in> set p then
         report [(True, ''unsafe archive path: '' @ tm_name m)] s
       else if forbidden_namespace_path p then
         report [(True, ''forbidden archive namespace: '' @ tm_name m)] s
       else if is_link m then report [(True, ''archive link is forbidden: '' @ tm_name m)] s
       else if is_dir m then Inr s
       else if \<not> is_file m then report [(True, ''unsupported archive member type: '' @ tm_name m)] s
       else audit_content m s)))))"

section \<open>The audit of the archive\<close>

definition collision_checks :: "kinds \<Rightarrow> (bool \<times> string) list" where
  "collision_checks kinds =
     concat (map (\<lambda>(p, ks).
       (File_kind \<in> set ks \<and> Directory_kind \<in> set ks,
         ''archive file/directory type collision: '' @ parts_posix p)
       # map (\<lambda>i. (File_kind \<in> set (kinds_of kinds (take i p)),
               ''archive file/directory type collision: '' @ parts_posix (take i p)))
           [1 ..< length p]) kinds)"

definition layout_checks :: "gzip_stream_info \<Rightarrow> raw_tar_layout \<Rightarrow> audit_state \<Rightarrow> (bool \<times> string) list" where
  "layout_checks info layout s =
     [(gi_expanded_size info \<noteq> canonical_tar_stream_size (nat (au_archive_end s)),
        ''noncanonical decompressed tar stream length''),
      (au_archive_end s \<le> gi_last_nonzero_offset info, ''nonzero data follows the tar members''),
      (au_archive_end s \<noteq> int (rt_archive_end layout) \<or> au_member_count s \<noteq> rt_member_count layout
         \<or> au_files s \<noteq> rt_file_count layout \<or> au_directories s \<noteq> rt_directory_count layout,
        ''raw and parsed archive layouts differ'')]"

definition audit_members :: "(string \<Rightarrow> string) \<Rightarrow> positioned \<Rightarrow> tar_member res list \<Rightarrow> audit_state res" where
  "audit_members py_repr pread answers =
     foldE (\<lambda>s answer. bindE answer (\<lambda>m. audit_member py_repr pread m s)) audit_init answers"

definition audit_archive ::
  "(string \<Rightarrow> string) \<Rightarrow> positioned \<Rightarrow> tar_member res list \<Rightarrow> gzip_stream_info \<Rightarrow> raw_tar_layout
     \<Rightarrow> (string list \<times> nat) res" where
  "audit_archive py_repr pread answers info layout =
     bindE (audit_members py_repr pread answers) (\<lambda>s.
     bindE (report [(au_root_name s = None, ''source bundle must contain exactly one root directory'')] s) (\<lambda>s.
     bindE (validate_builder_topology (au_sequence s) (au_kinds s) (au_failures s)) (\<lambda>fs.
     bindE (fail_each (collision_checks (au_kinds s)) fs) (\<lambda>fs.
     bindE (fail_each (layout_checks info layout s) fs) (\<lambda>fs.
       Inr (fs, au_files s))))))"

text \<open>The end: the failures, each once and in order, make the error.\<close>

definition conclude :: "string list \<times> nat \<Rightarrow> nat res" where
  "conclude r =
     (case r of (failures, files) \<Rightarrow>
        bindE (fail_if (files = 0) ''bundle contains no files'' failures) (\<lambda>failures.
          if failures \<noteq> [] then Inl (ValueError (join_with [LF] (sort (remdups failures)))) else Inr files))"

end
