(* ===== verification/Bundle_Open.thy ===== *)
theory Bundle_Open
  imports Bundle_Audit Os_Files Os_Rules
begin

text \<open>
  Opening the source bundle and making sure at the end that it is still the same file under the same
  path (\<open>normalized_bundle_path\<close> to \<open>verify_opened_bundle\<close> of
  \<open>scripts/audit_singbox_source_bundle.py\<close>), and the audit as a whole, from the path to the exit of
  the command line.
\<close>

section \<open>The path of the bundle\<close>

text \<open>
  What the normalisation asks of the system: the working directory, and \<open>lstat\<close> and \<open>readlink\<close> of a
  name in the root directory.
\<close>

record path_env =
  pe_getcwd :: "string res"
  pe_is_link :: "string \<Rightarrow> bool res"
  pe_readlink :: "string \<Rightarrow> string res"

text \<open>\<open>os.path.abspath\<close>: the parts that remain, the last one first, with \<open>..\<close> taken back.\<close>

fun norm_parts :: "string list \<Rightarrow> string list \<Rightarrow> string list" where
  "norm_parts acc [] = rev acc"
| "norm_parts acc (c # cs) =
     (if c = [] \<or> c = ''.'' then norm_parts acc cs
      else if c = ''..'' then norm_parts (tl acc) cs
      else norm_parts (c # acc) cs)"

definition abspath_parts :: "path_env \<Rightarrow> string \<Rightarrow> string list res" where
  "abspath_parts env s =
     bindE (if startswith s ''/'' then Inr s else bindE (pe_getcwd env) (\<lambda>cwd. Inr (cwd @ ''/'' @ s))) (\<lambda>s.
       Inr ((if startswith s ''//'' \<and> \<not> startswith s ''///'' then ''//'' else ''/'')
            # norm_parts [] (split_on (CHR ''/'') s)))"

definition SYSTEM_ROOT_ALIASES :: "(string \<times> string list) list" where
  "SYSTEM_ROOT_ALIASES =
     [(''etc'', [''private'', ''etc'']), (''tmp'', [''private'', ''tmp'']), (''var'', [''private'', ''var''])]"

definition normalized_bundle_path :: "path_env \<Rightarrow> string \<Rightarrow> path res" where
  "normalized_bundle_path env bundle =
     (case abspath_parts env bundle of
        Inl e \<Rightarrow> Inl (if is_os_error e \<or> e = TypeError \<or> is_value_error e
                    then ValueError ''bundle path cannot be normalized'' else e)
      | Inr parts \<Rightarrow>
          if length parts < 2 \<or> hd parts \<noteq> ''/'' \<or> list_ex (\<lambda>p. p \<in> {[], ''.'', ''..''}) (tl parts) then
            Inl (ValueError ''bundle path is not a safe absolute path'')
          else
            let below_root = tl parts in
            (case map_of SYSTEM_ROOT_ALIASES (hd below_root) of
               None \<Rightarrow> Inr below_root
             | Some alias_target \<Rightarrow>
                 (case (pe_is_link env (hd below_root), pe_readlink env (hd below_root)) of
                    (Inl e, _) \<Rightarrow> if is_os_error e then Inr below_root else Inl e
                  | (Inr _, Inl e) \<Rightarrow> if is_os_error e then Inr below_root else Inl e
                  | (Inr is_symlink, Inr target) \<Rightarrow>
                      if is_symlink \<and> target = join_with ''/'' alias_target
                      then Inr (alias_target @ tl below_root) else Inr below_root)))"

section \<open>Fingerprints\<close>

type_synonym bundle_print = "nat \<times> nat \<times> (file_type \<times> nat) \<times> nat \<times> nat \<times> nat \<times> nat"
type_synonym directory_print = "nat \<times> nat \<times> file_type"

definition bundle_fingerprint :: "stat_result \<Rightarrow> bundle_print" where
  "bundle_fingerprint s =
     (st_dev s, st_ino s, (st_type s, st_perm s), st_nlink s, st_size s, st_mtime s, st_ctime s)"

definition validate_bundle_metadata :: "stat_result \<Rightarrow> bundle_print res" where
  "validate_bundle_metadata s =
     (if st_type s \<noteq> Regular \<or> st_nlink s \<noteq> 1
      then Inl (ValueError ''bundle is not a private regular file'') else Inr (bundle_fingerprint s))"

definition directory_fingerprint :: "stat_result \<Rightarrow> directory_print res" where
  "directory_fingerprint s =
     (if st_type s \<noteq> Directory then Inl (ValueError ''bundle ancestor is not a directory'')
      else Inr (st_dev s, st_ino s, st_type s))"

section \<open>Opening\<close>

text \<open>One step of the walk: the child is opened and checked before its parent is closed.\<close>

definition open_child :: "nat \<Rightarrow> string \<Rightarrow> (nat \<times> directory_print) io" where
  "open_child descriptor component =
     on_errorI
       (bindI (os_open_dir_at component descriptor) (\<lambda>next_descriptor.
        bindI (on_errorI (bindI (os_fstat next_descriptor) (\<lambda>s. liftI (directory_fingerprint s)))
                 (os_close next_descriptor)) (\<lambda>fingerprint.
        bindI (os_close descriptor) (\<lambda>_. returnI (next_descriptor, fingerprint)))))
       (os_close descriptor)"

fun open_children :: "nat \<Rightarrow> directory_print list \<Rightarrow> string list \<Rightarrow> (nat \<times> directory_print list) io" where
  "open_children descriptor fingerprints [] = returnI (descriptor, fingerprints)"
| "open_children descriptor fingerprints (component # components) =
     bindI (open_child descriptor component) (\<lambda>(next_descriptor, fingerprint).
       open_children next_descriptor (fingerprints @ [fingerprint]) components)"

definition open_directory_chain :: "path \<Rightarrow> (nat \<times> directory_print list) io" where
  "open_directory_chain absolute_path =
     bindI (os_open_dir []) (\<lambda>descriptor.
     bindI (on_errorI (bindI (os_fstat descriptor) (\<lambda>s. liftI (directory_fingerprint s)))
              (os_close descriptor)) (\<lambda>fingerprint.
       open_children descriptor [fingerprint] (butlast absolute_path)))"

definition CHANGED :: err where
  "CHANGED = ValueError ''bundle path changed while it was audited''"

definition verify_leaf_identity :: "nat \<Rightarrow> string \<Rightarrow> bundle_print \<Rightarrow> unit io" where
  "verify_leaf_identity parent_descriptor leaf_name expected_fingerprint =
     bindI (os_stat_at leaf_name parent_descriptor) (\<lambda>s.
     bindI (liftI (validate_bundle_metadata s)) (\<lambda>found.
       if found \<noteq> expected_fingerprint then raiseI CHANGED
       else
         bindI (os_open_read_at leaf_name parent_descriptor) (\<lambda>reopened.
           finallyI
             (bindI (os_fstat reopened) (\<lambda>s. bindI (liftI (validate_bundle_metadata s)) (\<lambda>found.
                if found \<noteq> expected_fingerprint then raiseI CHANGED else returnI ())))
             (os_close reopened))))"

record opened_bundle =
  ob_stream :: nat
  ob_fingerprint :: bundle_print
  ob_absolute_path :: path
  ob_parent_descriptor :: nat
  ob_directory_fingerprints :: "directory_print list"

abbreviation ob_leaf_name :: "opened_bundle \<Rightarrow> string" where
  "ob_leaf_name opened \<equiv> last (ob_absolute_path opened)"

text \<open>\<open>except (OSError, ValueError) as error: raise e from error\<close>\<close>

definition value_errorI :: "'a io \<Rightarrow> err \<Rightarrow> 'a io" where
  "value_errorI m e w =
     (case m w of (Inl e', w) \<Rightarrow> (Inl (if is_os_error e' \<or> is_value_error e' then e else e'), w)
      | (Inr x, w) \<Rightarrow> (Inr x, w))"

text \<open>The bundle below its open directory; it must not change between the look and the opening.\<close>

definition open_bundle_leaf :: "path \<Rightarrow> nat \<Rightarrow> directory_print list \<Rightarrow> opened_bundle io" where
  "open_bundle_leaf absolute_path parent_descriptor fingerprints =
     bindI (os_stat_at (last absolute_path) parent_descriptor) (\<lambda>s.
     bindI (liftI (validate_bundle_metadata s)) (\<lambda>before_fingerprint.
     bindI (os_open_read_at (last absolute_path) parent_descriptor) (\<lambda>descriptor.
       on_errorI
         (bindI (os_fstat descriptor) (\<lambda>s. bindI (liftI (validate_bundle_metadata s)) (\<lambda>after_fingerprint.
            if before_fingerprint \<noteq> after_fingerprint then
              raiseI (ValueError ''bundle changed while it was opened'')
            else
              returnI \<lparr>ob_stream = descriptor, ob_fingerprint = after_fingerprint,
                       ob_absolute_path = absolute_path, ob_parent_descriptor = parent_descriptor,
                       ob_directory_fingerprints = fingerprints\<rparr>)))
         (os_close descriptor))))"

definition open_regular_bundle :: "path_env \<Rightarrow> string \<Rightarrow> opened_bundle io" where
  "open_regular_bundle env bundle =
     bindI (liftI (normalized_bundle_path env bundle)) (\<lambda>absolute_path.
     bindI (value_errorI (open_directory_chain absolute_path) (ValueError ''bundle cannot be opened safely''))
       (\<lambda>(parent_descriptor, fingerprints).
         on_errorI (open_bundle_leaf absolute_path parent_descriptor fingerprints) (os_close parent_descriptor)))"

text \<open>All but the first two checks turn an error into that of a changed path.\<close>

definition verify_ancestors :: "opened_bundle \<Rightarrow> unit io" where
  "verify_ancestors opened =
     bindI (os_fstat (ob_parent_descriptor opened)) (\<lambda>s.
     bindI (liftI (directory_fingerprint s)) (\<lambda>fingerprint.
       if fingerprint \<noteq> last (ob_directory_fingerprints opened) then raiseI CHANGED
       else
         bindI (verify_leaf_identity (ob_parent_descriptor opened) (ob_leaf_name opened) (ob_fingerprint opened)) (\<lambda>_.
         bindI (open_directory_chain (ob_absolute_path opened)) (\<lambda>(parent_descriptor, fingerprints).
           finallyI
             (if fingerprints \<noteq> ob_directory_fingerprints opened then raiseI CHANGED
              else verify_leaf_identity parent_descriptor (ob_leaf_name opened) (ob_fingerprint opened))
             (os_close parent_descriptor)))))"

definition verify_opened_bundle :: "path_env \<Rightarrow> string \<Rightarrow> opened_bundle \<Rightarrow> unit io" where
  "verify_opened_bundle env bundle opened =
     bindI (os_fstat (ob_stream opened)) (\<lambda>s.
       if bundle_fingerprint s \<noteq> ob_fingerprint opened then
         raiseI (ValueError ''bundle changed while it was audited'')
       else
         bindI (liftI (normalized_bundle_path env bundle)) (\<lambda>absolute_path.
           if absolute_path \<noteq> ob_absolute_path opened then raiseI CHANGED
           else value_errorI (verify_ancestors opened) CHANGED))"

section \<open>Reading the bundle\<close>

text \<open>\<open>stream.read(n)\<close> of a buffered file asks for bytes until there are enough or none are left.\<close>

lemma os_read_length: "os_read fd n w = (Inr chunk, w') \<Longrightarrow> length chunk \<le> n"
  by (auto simp: os_read_iff transferred_def split: option.splits)

function buffered_read :: "nat \<Rightarrow> nat \<Rightarrow> bytes io" where
  "buffered_read fd n w =
     (if n = 0 then (Inr [], w)
      else
        (case os_read fd n w of
           (Inl e, w) \<Rightarrow> (Inl e, w)
         | (Inr chunk, w) \<Rightarrow>
             if chunk = [] then (Inr [], w)
             else
               (case buffered_read fd (n - length chunk) w of
                  (Inl e, w) \<Rightarrow> (Inl e, w)
                | (Inr rest, w) \<Rightarrow> (Inr (chunk @ rest), w))))"
  by pat_completeness auto
termination
  by (relation "measure (\<lambda>(fd, n, w). n)") (auto simp: neq_Nil_conv)

declare buffered_read.simps [simp del]

definition seek_start :: "nat \<Rightarrow> unit io" where
  "seek_start fd w = (Inr (), w\<lparr>w_pos := (w_pos w)(fd := 0)\<rparr>)"

definition bundle_reader :: "nat \<Rightarrow> world reader" where
  "bundle_reader fd = \<lparr>rd_read = buffered_read fd, rd_rewind = (\<lambda>w. seek_start fd w)\<rparr>"

section \<open>The audit as a whole\<close>

text \<open>
  What is not under \<open>src/\<close>: the decompressor and the compressor, \<open>tarfile\<close> (the answers of \<open>next()\<close>
  for a stream) and \<open>repr\<close>. The two temporary files of the audit are private to it: they are the
  bytes written to them.
\<close>

record 'z bundle_env =
  be_zlib :: "'z zlib"
  be_gzip :: "bytes list \<Rightarrow> bytes"
  be_tarfile :: "bytes \<Rightarrow> tar_member res list"
  be_repr :: "string \<Rightarrow> string"

text \<open>\<open>os.pread\<close> of a temporary file, which gives all that is asked for and there.\<close>

definition tar_pread :: "bytes \<Rightarrow> positioned" where
  "tar_pread raw n offset = Inr (take n (drop offset raw))"

definition audit_stream :: "'z bundle_env \<Rightarrow> 'p reader \<Rightarrow> 'p \<Rightarrow> (string list \<times> nat) res \<times> 'p" where
  "audit_stream env rd =
     bindP (inspect_gzip_stream rd (be_zlib env) append_put (Some [])) (\<lambda>(info, sink).
       let tar_stream = (case sink of Some w \<Rightarrow> w | None \<Rightarrow> []) in
       bindP (verify_canonical_gzip_bytes rd (be_gzip env) tar_stream) (\<lambda>_ p.
         (bindE (scan_raw_tar_stream (tar_pread tar_stream) (gi_expanded_size info)) (\<lambda>layout.
            audit_archive (be_repr env) (tar_pread tar_stream) (be_tarfile env tar_stream) info layout), p)))"

definition audit_opened :: "'z bundle_env \<Rightarrow> path_env \<Rightarrow> string \<Rightarrow> opened_bundle \<Rightarrow> (string list \<times> nat) io" where
  "audit_opened env later bundle opened =
     bindI (os_fstat (ob_stream opened)) (\<lambda>s.
       if st_type s \<noteq> Regular \<or> st_size s = 0 \<or> MAX_BUNDLE_BYTES < st_size s then
         raiseI (ValueError ''invalid bundle size or type'')
       else
         bindI (audit_stream env (bundle_reader (ob_stream opened))) (\<lambda>r.
         bindI (verify_opened_bundle later bundle opened) (\<lambda>_. returnI r)))"

definition managed_opened_bundle :: "opened_bundle \<Rightarrow> 'a io \<Rightarrow> 'a io" where
  "managed_opened_bundle opened body =
     finallyI body (finallyI (os_close (ob_stream opened)) (os_close (ob_parent_descriptor opened)))"

text \<open>\<open>before\<close> and \<open>later\<close> are what the two normalisations of the path meet.\<close>

definition audit_bundle :: "'z bundle_env \<Rightarrow> path_env \<Rightarrow> path_env \<Rightarrow> string \<Rightarrow> nat io" where
  "audit_bundle env before later bundle =
     bindI (value_errorI (open_regular_bundle before bundle) (ValueError ''bundle cannot be opened'')) (\<lambda>opened.
     bindI (managed_opened_bundle opened (audit_opened env later bundle opened)) (\<lambda>r.
       liftI (conclude r)))"

text \<open>\<open>main\<close>: the line that is printed, or the message of the exit.\<close>

definition is_tar_error :: "err \<Rightarrow> bool" where
  "is_tar_error e = (case e of TarError _ \<Rightarrow> True | _ \<Rightarrow> False)"

datatype audit_exit = Passed nat | Refused err | Raised err

definition audit_main :: "'z bundle_env \<Rightarrow> path_env \<Rightarrow> path_env \<Rightarrow> string \<Rightarrow> world \<Rightarrow> audit_exit \<times> world" where
  "audit_main env before later bundle w =
     (case audit_bundle env before later bundle w of
        (Inr files, w) \<Rightarrow> (Passed files, w)
      | (Inl e, w) \<Rightarrow>
          ((if is_os_error e \<or> is_value_error e \<or> is_tar_error e then Refused e else Raised e), w))"

end
