(* ===== verification/Bundle_Topology.thy ===== *)
theory Bundle_Topology
  imports Bundle_Audit
begin

text \<open>
  The one-pass check of the topology (\<open>validate_builder_topology\<close>) against what it is to mean: no
  member for the root, the members in order, every parent a directory, and no directory without a
  file somewhere below it.
\<close>

section \<open>Failures that are counted\<close>

lemma append_failure_nonempty: "append_failure message failures = Inr failures' \<Longrightarrow> failures' \<noteq> []"
  by (auto simp: append_failure_def Let_def split: if_splits)

lemma fail_if_clean: "fail_if c message failures = Inr [] \<longleftrightarrow> \<not> c \<and> failures = []"
  using append_failure_nonempty by (auto simp: fail_if_def)

lemma fail_if_keeps: "fail_if c message failures = Inr failures' \<Longrightarrow> failures' = [] \<Longrightarrow> failures = []"
  using fail_if_clean by blast

lemma fail_each_clean: "fail_each checks failures = Inr [] \<longleftrightarrow> failures = [] \<and> (\<forall>(c, m) \<in> set checks. \<not> c)"
proof (induction checks arbitrary: failures)
  case Nil
  then show ?case by (simp add: fail_each_def)
next
  case (Cons check checks)
  obtain c m where check: "check = (c, m)" by (cases check)
  have "fail_each (check # checks) failures = Inr [] \<longleftrightarrow>
      (\<exists>fs. fail_if c m failures = Inr fs \<and> fail_each checks fs = Inr [])"
    by (simp add: fail_each_def check res_iff)
  also have "\<dots> \<longleftrightarrow> fail_if c m failures = Inr [] \<and> (\<forall>(c, m) \<in> set checks. \<not> c)"
    by (simp add: Cons.IH)
  finally show ?case by (auto simp: fail_if_clean check)
qed

lemma fail_each_keeps: "fail_each checks failures = Inr failures' \<Longrightarrow> failures' = [] \<Longrightarrow> failures = []"
  by (simp add: fail_each_clean)

section \<open>The order of paths\<close>

lemma below_append: "below f d \<longleftrightarrow> (\<exists>x t. f = d @ x # t)"
proof
  assume *: "below f d"
  then have "f = d @ drop (length d) f" by (metis append_take_drop_id below_def)
  moreover have "drop (length d) f \<noteq> []" using * by (simp add: below_def)
  ultimately show "\<exists>x t. f = d @ x # t" by (metis list.exhaust)
qed (auto simp: below_def)

lemma below_trans: "below f e \<Longrightarrow> below e d \<Longrightarrow> below f d"
  by (fastforce simp: below_append)

lemma below_less: "below f d \<Longrightarrow> d < f"
proof -
  have "d < d @ x # t" for d :: "string list" and x t by (induction d) simp_all
  then show "below f d \<Longrightarrow> d < f" by (auto simp: below_append)
qed

lemma below_between:
  fixes d p f :: "string list"
  assumes "below f d" "d < p" "p \<le> f"
  shows "below p d"
proof -
  have "d < p \<Longrightarrow> p \<le> d @ t \<Longrightarrow> \<exists>x u. p = d @ x # u" for t
  proof (induction d arbitrary: p)
    case Nil
    then show ?case by (cases p) auto
  next
    case (Cons c d)
    then obtain q where "p = c # q" "d < q" "q \<le> d @ t" by (cases p) auto
    with Cons.IH show ?case by auto
  qed
  then show ?thesis using assms by (auto simp: below_append)
qed

section \<open>Meaning\<close>

definition holds_directory :: "kinds \<Rightarrow> string list \<Rightarrow> bool" where
  "holds_directory kinds p \<longleftrightarrow> Directory_kind \<in> set (kinds_of kinds p)"

definition holds_file :: "kinds \<Rightarrow> string list \<Rightarrow> bool" where
  "holds_file kinds p \<longleftrightarrow> File_kind \<in> set (kinds_of kinds p) \<and> Directory_kind \<notin> set (kinds_of kinds p)"

definition occupied :: "kinds \<Rightarrow> string list \<Rightarrow> bool" where
  "occupied kinds d \<longleftrightarrow> (\<exists>f \<in> set (map fst kinds). holds_file kinds f \<and> below f d)"

definition builder_topology :: "string list list \<Rightarrow> kinds \<Rightarrow> bool" where
  "builder_topology member_sequence kinds \<longleftrightarrow>
     (\<forall>p \<in> set member_sequence. length p \<noteq> 1) \<and> sorted member_sequence
     \<and> (\<forall>p \<in> set (map fst kinds). 2 < length p \<longrightarrow> holds_directory kinds (butlast p))
     \<and> (\<forall>d \<in> set (map fst kinds). holds_directory kinds d \<longrightarrow> occupied kinds d)"

section \<open>The stack of directories\<close>

text \<open>
  A directory of the stack is flagged when a file was seen below it that is not below the next inner
  directory of the stack.
\<close>

fun flagged :: "kinds \<Rightarrow> string list set \<Rightarrow> string list option \<Rightarrow> active \<Rightarrow> bool" where
  "flagged kinds seen inner [] \<longleftrightarrow> True"
| "flagged kinds seen inner ((d, flag) # rest) \<longleftrightarrow>
     (flag \<longleftrightarrow> (\<exists>f \<in> seen. holds_file kinds f \<and> below f d \<and> (\<forall>e. inner = Some e \<longrightarrow> \<not> below f e)))
     \<and> flagged kinds seen (Some d) rest"

definition stack_ok :: "kinds \<Rightarrow> string list set \<Rightarrow> active \<Rightarrow> bool" where
  "stack_ok kinds seen active \<longleftrightarrow>
     sorted_wrt (\<lambda>x y. below (fst x) (fst y)) active \<and> set (map fst active) \<subseteq> seen
     \<and> flagged kinds seen None active"

lemma close_directory_ok:
  assumes "stack_ok kinds seen ((d, True) # rest)"
  obtains rest' where "close_directory ((d, True) # rest) [] = Inr (rest', [])" "map fst rest' = map fst rest"
    "stack_ok kinds seen rest'"
proof (cases rest)
  case Nil
  then show thesis using that [of "[]"] by (simp add: stack_ok_def)
next
  case (Cons x outer)
  obtain parent flag where x: "x = (parent, flag)" by (cases x)
  obtain f where f: "f \<in> seen" "holds_file kinds f" "below f d"
    using assms by (auto simp: stack_ok_def)
  have "below d parent" using assms by (simp add: stack_ok_def Cons x)
  with f have "\<exists>f \<in> seen. holds_file kinds f \<and> below f parent" using below_trans by blast
  then have "stack_ok kinds seen ((parent, True) # outer)"
    using assms by (auto simp: stack_ok_def Cons x)
  then show thesis using that [of "(parent, True) # outer"] by (simp add: Cons x)
qed

lemma close_directory_empty:
  "close_directory ((d, False) # rest) failures = Inr (active, failures') \<Longrightarrow> failures' \<noteq> []"
  by (auto simp: res_iff dest: append_failure_nonempty)

lemma close_directory_keeps:
  "close_directory active failures = Inr (active', failures') \<Longrightarrow> failures' = [] \<Longrightarrow> failures = []"
  by (cases "(active, failures)" rule: close_directory.cases)
    (auto simp: res_iff dest: append_failure_nonempty split: if_splits)

lemma close_until_keeps:
  "close_until p active failures = Inr (active', failures') \<Longrightarrow> failures' = [] \<Longrightarrow> failures = []"
proof (induction p active failures rule: close_until.induct)
  case (2 p parent has_file rest failures)
  then show ?case
    by (auto simp del: close_directory.simps split: if_splits sum.splits prod.splits
        dest: close_directory_keeps)
qed simp

text \<open>
  Closing the directories that do not contain the next path: without a failure exactly when all of
  them have a file, given that all there is below them has been seen.
\<close>

definition closable :: "kinds \<Rightarrow> string list \<Rightarrow> active \<Rightarrow> bool" where
  "closable kinds p active \<longleftrightarrow> (\<forall>d \<in> set (map fst active). \<not> below p d \<longrightarrow> occupied kinds d)"

definition seen_below :: "kinds \<Rightarrow> string list set \<Rightarrow> string list \<Rightarrow> active \<Rightarrow> bool" where
  "seen_below kinds seen p active \<longleftrightarrow>
     (\<forall>d \<in> set (map fst active). \<not> below p d \<longrightarrow> (\<forall>f \<in> set (map fst kinds). below f d \<longrightarrow> f \<in> seen))"

lemma close_until_ok:
  "stack_ok kinds seen active \<Longrightarrow> seen \<subseteq> set (map fst kinds) \<Longrightarrow> seen_below kinds seen p active \<Longrightarrow>
   (if closable kinds p active
    then \<exists>active'. close_until p active [] = Inr (active', []) \<and> stack_ok kinds seen active'
           \<and> map fst active' = filter (below p) (map fst active)
    else \<forall>active'. close_until p active [] \<noteq> Inr (active', []))"
proof (induction "length active" arbitrary: active)
  case 0
  then show ?case by (simp add: closable_def)
next
  case (Suc n)
  obtain d flag rest where active: "active = (d, flag) # rest"
    using Suc.hyps(2) by (cases active) force+
  have outer: "below d e" if "e \<in> set (map fst rest)" for e
    using Suc.prems(1) that by (auto simp: stack_ok_def active)
  show ?case
  proof (cases "below p d")
    case True
    then have all: "below p e" if "e \<in> set (map fst active)" for e
      using outer below_trans that by (auto simp: active)
    then have "filter (below p) (map fst active) = map fst active" by simp
    moreover have "closable kinds p active" using all by (simp add: closable_def)
    ultimately show ?thesis using True Suc.prems(1) by (simp add: active)
  next
    case False
    have "flag \<longleftrightarrow> (\<exists>f \<in> seen. holds_file kinds f \<and> below f d)"
      using Suc.prems(1) by (simp add: stack_ok_def active)
    also have "\<dots> \<longleftrightarrow> occupied kinds d"
    proof -
      have "\<forall>f \<in> set (map fst kinds). below f d \<longrightarrow> f \<in> seen"
        using Suc.prems(3) False by (simp add: seen_below_def active)
      then show ?thesis unfolding occupied_def using Suc.prems(2) by blast
    qed
    finally have flag: "flag \<longleftrightarrow> occupied kinds d" .
    show ?thesis
    proof (cases flag)
      case True
      then have "stack_ok kinds seen ((d, True) # rest)" using Suc.prems(1) active by simp
      then obtain rest' where closed: "close_directory ((d, True) # rest) [] = Inr (rest', [])"
          "map fst rest' = map fst rest" "stack_ok kinds seen rest'"
        using close_directory_ok by blast
      have "length rest' = n" using closed(2) Suc.hyps(2) active by (metis Suc_inject length_Cons length_map)
      moreover have "seen_below kinds seen p rest'"
        using Suc.prems(3) unfolding seen_below_def closed(2) active by simp
      ultimately have "if closable kinds p rest'
          then \<exists>active'. close_until p rest' [] = Inr (active', []) \<and> stack_ok kinds seen active'
                 \<and> map fst active' = filter (below p) (map fst rest')
          else \<forall>active'. close_until p rest' [] \<noteq> Inr (active', [])"
        using Suc.hyps(1) [of rest'] closed(3) Suc.prems(2) by blast
      moreover have "closable kinds p active \<longleftrightarrow> closable kinds p rest'"
        using flag True unfolding closable_def closed(2) active by simp
      moreover have "close_until p active [] = close_until p rest' []"
        using False True closed(1) by (simp add: active del: close_directory.simps)
      moreover have "filter (below p) (map fst active) = filter (below p) (map fst rest')"
        using False closed(2) by (simp add: active)
      ultimately show ?thesis by simp
    next
      case empty: False
      have "close_until p active [] \<noteq> Inr (active', [])" for active'
      proof
        assume run: "close_until p active [] = Inr (active', [])"
        then obtain rest' fs where "close_directory ((d, False) # rest) [] = Inr (rest', fs)"
            "close_until p rest' fs = Inr (active', [])"
          using False empty by (auto simp: active simp del: close_directory.simps split: sum.splits prod.splits)
        then show False using close_directory_empty close_until_keeps by blast
      qed
      moreover have "\<not> closable kinds p active" using flag empty False by (auto simp: closable_def active)
      ultimately show ?thesis by simp
    qed
  qed
qed

lemma close_all_until: "close_all active failures = bindE (close_until [] active failures) (\<lambda>(a, fs). Inr fs)"
proof (induction active failures rule: close_all.induct)
  case (2 d rest failures)
  obtain parent flag where d: "d = (parent, flag)" by (cases d)
  have "\<not> below [] parent" by (simp add: below_def)
  then show ?case using 2
    by (auto simp: d simp del: close_directory.simps split: sum.splits prod.splits)
qed simp

section \<open>The whole walk\<close>

text \<open>One path of the walk.\<close>

lemma flagged_nofile: "\<not> holds_file kinds p \<Longrightarrow> flagged kinds (insert p seen) inner active = flagged kinds seen inner active"
  by (induction active arbitrary: inner) auto

lemma flagged_insert_outer:
  "below p e \<Longrightarrow> \<forall>d \<in> set (map fst active). below e d \<Longrightarrow>
   sorted_wrt (\<lambda>x y. below (fst x) (fst y)) active \<Longrightarrow>
   flagged kinds (insert p seen) (Some e) active = flagged kinds seen (Some e) active"
proof (induction active arbitrary: e)
  case (Cons x rest)
  obtain d flag where x: "x = (d, flag)" by (cases x)
  have "below p d" using Cons.prems below_trans by (auto simp: x)
  then show ?case using Cons.IH [of d] Cons.prems by (auto simp: x)
qed simp

lemma flagged_new_inner: "(\<And>f. f \<in> seen \<Longrightarrow> \<not> below f p) \<Longrightarrow> flagged kinds seen (Some p) active = flagged kinds seen None active"
  by (cases active) auto

lemma seen_below_order:
  assumes "stack_ok kinds seen active" "\<And>q. q \<in> seen \<Longrightarrow> q < p"
    and "\<And>q. q \<in> set (map fst kinds) \<Longrightarrow> q \<notin> seen \<Longrightarrow> p \<le> q"
  shows "seen_below kinds seen p active"
proof -
  have "f \<in> seen" if "d \<in> set (map fst active)" "\<not> below p d" "f \<in> set (map fst kinds)" "below f d" for d f
  proof (rule ccontr)
    assume "f \<notin> seen"
    moreover have "d < p" using that(1) assms(1,2) by (auto simp: stack_ok_def)
    ultimately show False using below_between [OF that(4)] assms(3) that(2,3) by blast
  qed
  then show ?thesis unfolding seen_below_def by blast
qed

lemma enter_member_ok:
  assumes "stack_ok kinds seen active" "seen \<subseteq> set (map fst kinds)" "p \<in> set (map fst kinds)"
    and order: "\<And>q. q \<in> seen \<Longrightarrow> q < p" "\<And>q. q \<in> set (map fst kinds) \<Longrightarrow> q \<notin> seen \<Longrightarrow> p \<le> q"
    and ends: "closable kinds p active"
  shows "\<exists>active'. enter_member kinds (active, []) p = Inr (active', []) \<and> stack_ok kinds (insert p seen) active'
     \<and> set (map fst active') = {d \<in> set (map fst active). below p d} \<union> {d. d = p \<and> holds_directory kinds p}"
proof -
  have all_seen: "seen_below kinds seen p active"
    using assms(1) order by (rule seen_below_order)
  obtain active1 where one: "close_until p active [] = Inr (active1, [])" "stack_ok kinds seen active1"
      "map fst active1 = filter (below p) (map fst active)"
    using close_until_ok [OF assms(1,2) all_seen] ends by (auto split: if_splits)
  have outer: "below p d" if "d \<in> set (map fst active1)" for d using that one(3) by simp
  have fresh: "p \<notin> seen" "\<And>f. f \<in> seen \<Longrightarrow> \<not> below f p"
    using order(1) below_less by (auto dest: less_asym)
  have stack: "sorted_wrt (\<lambda>x y. below (fst x) (fst y)) active1" "set (map fst active1) \<subseteq> seen"
      "flagged kinds seen None active1"
    using one(2) by (simp_all add: stack_ok_def)
  have dirs: "set (map fst active1) = {d \<in> set (map fst active). below p d}" using one(3) by simp
  consider "holds_directory kinds p" | "holds_file kinds p" | "\<not> holds_directory kinds p" "\<not> holds_file kinds p" by blast
  then show ?thesis
  proof cases
    case 1
    then have nofile: "\<not> holds_file kinds p" by (simp add: holds_file_def holds_directory_def)
    have "\<not> below p p" using below_less by blast
    then have "stack_ok kinds (insert p seen) ((p, False) # active1)"
      using stack outer fresh nofile
      by (auto simp: stack_ok_def flagged_nofile flagged_new_inner)
    moreover have "enter_member kinds (active, []) p = Inr ((p, False) # active1, [])"
      using 1 one(1) by (simp add: enter_member_def holds_directory_def Let_def)
    ultimately show ?thesis using 1 dirs by auto
  next
    case 2
    then have nodir: "\<not> holds_directory kinds p" by (simp add: holds_file_def holds_directory_def)
    show ?thesis
    proof (cases active1)
      case Nil
      then have "enter_member kinds (active, []) p = Inr ([], [])"
        using nodir one(1) by (simp add: enter_member_def holds_directory_def Let_def)
      moreover have "stack_ok kinds (insert p seen) []" by (simp add: stack_ok_def)
      ultimately show ?thesis using nodir dirs Nil by auto
    next
      case (Cons x rest)
      obtain d flag where x: "x = (d, flag)" by (cases x)
      have "d \<noteq> p" using stack(2) fresh(1) by (auto simp: Cons x)
      then have run: "enter_member kinds (active, []) p = Inr ((d, True) # rest, [])"
        using 2 nodir one(1) by (simp add: enter_member_def holds_directory_def holds_file_def Let_def Cons x)
      have "below p d" using outer by (simp add: Cons x)
      moreover have "flagged kinds (insert p seen) (Some d) rest = flagged kinds seen (Some d) rest"
        using stack(1) calculation by (intro flagged_insert_outer) (auto simp: Cons x)
      ultimately have "stack_ok kinds (insert p seen) ((d, True) # rest)"
        using stack 2 by (auto simp: stack_ok_def Cons x)
      then show ?thesis using run nodir dirs by (auto simp: Cons x)
    qed
  next
    case 3
    then have "enter_member kinds (active, []) p = Inr (active1, [])"
      using one(1) by (simp add: enter_member_def holds_directory_def holds_file_def Let_def)
    moreover have "stack_ok kinds (insert p seen) active1"
      using stack 3(2) by (auto simp: stack_ok_def flagged_nofile)
    ultimately show ?thesis using 3 dirs by auto
  qed
qed

lemma enter_member_keeps: "enter_member kinds (active, failures) p = Inr (active', failures') \<Longrightarrow> failures' = [] \<Longrightarrow> failures = []"
  by (auto simp: enter_member_def res_iff Let_def dest: close_until_keeps)

lemma enter_paths_keeps:
  "foldE (enter_member kinds) (active, failures) ps = Inr (active', failures') \<Longrightarrow> failures' = [] \<Longrightarrow> failures = []"
proof (induction ps arbitrary: active failures)
  case (Cons p ps)
  then obtain a fs where "enter_member kinds (active, failures) p = Inr (a, fs)" "foldE (enter_member kinds) (a, fs) ps = Inr (active', failures')"
    by (auto simp: res_iff)
  then show ?case using Cons enter_member_keeps by blast
qed simp

definition walk_paths :: "kinds \<Rightarrow> active \<Rightarrow> string list \<Rightarrow> string list list \<Rightarrow> string list res" where
  "walk_paths kinds active failures ps =
     bindE (foldE (enter_member kinds) (active, failures) ps) (\<lambda>(active, failures). close_all active failures)"

lemma walk_paths_keeps: "walk_paths kinds active failures ps = Inr [] \<Longrightarrow> failures = []"
  by (auto simp: walk_paths_def res_iff close_all_until dest: enter_paths_keeps close_until_keeps)

lemma walk_paths_Cons:
  "walk_paths kinds active failures (p # ps) =
   bindE (enter_member kinds (active, failures) p) (\<lambda>(active, failures). walk_paths kinds active failures ps)"
  by (auto simp: walk_paths_def bindE_def split: sum.split prod.split)

lemma walk_paths_ok:
  "stack_ok kinds seen active \<Longrightarrow> seen \<union> set ps = set (map fst kinds) \<Longrightarrow> sorted ps \<Longrightarrow> distinct ps \<Longrightarrow>
   (\<And>q p. q \<in> seen \<Longrightarrow> p \<in> set ps \<Longrightarrow> q < p) \<Longrightarrow>
   (\<And>d. d \<in> set (map fst active) \<Longrightarrow> holds_directory kinds d) \<Longrightarrow>
   (\<And>d. d \<in> seen \<Longrightarrow> holds_directory kinds d \<Longrightarrow> d \<in> set (map fst active) \<or> occupied kinds d) \<Longrightarrow>
   walk_paths kinds active [] ps = Inr [] \<longleftrightarrow>
   (\<forall>d \<in> set (map fst kinds). holds_directory kinds d \<longrightarrow> occupied kinds d)"
proof (induction ps arbitrary: seen active)
  case Nil
  have in_kinds: "set (map fst active) \<subseteq> set (map fst kinds)"
    using Nil.prems(1,2) by (auto simp: stack_ok_def)
  have none: "\<not> below [] d" for d by (simp add: below_def)
  have "closable kinds [] active \<longleftrightarrow> (\<forall>d \<in> set (map fst kinds). holds_directory kinds d \<longrightarrow> occupied kinds d)"
  proof -
    have "seen = set (map fst kinds)" using Nil.prems(2) by simp
    then show ?thesis using Nil.prems(6,7) in_kinds none unfolding closable_def by blast
  qed
  moreover have "walk_paths kinds active [] [] = Inr [] \<longleftrightarrow> (\<exists>a. close_until [] active [] = Inr (a, []))"
    by (auto simp: walk_paths_def close_all_until res_iff)
  moreover have "if closable kinds [] active
    then \<exists>active'. close_until [] active [] = Inr (active', []) \<and> stack_ok kinds seen active'
           \<and> map fst active' = filter (below []) (map fst active)
    else \<forall>active'. close_until [] active [] \<noteq> Inr (active', [])"
    using Nil.prems(1,2) by (intro close_until_ok) (auto simp: seen_below_def)
  ultimately show ?case by (auto split: if_splits)
next
  case (Cons p ps)
  have sub: "seen \<subseteq> set (map fst kinds)" "p \<in> set (map fst kinds)" using Cons.prems(2) by auto
  have order: "q < p" if "q \<in> seen" for q using Cons.prems(5) that by simp
  have least: "p \<le> q" if "q \<in> set (map fst kinds)" "q \<notin> seen" for q
  proof -
    have "q \<in> set (p # ps)" using Cons.prems(2) that by blast
    then show ?thesis using Cons.prems(3) by auto
  qed
  show ?case
  proof (cases "closable kinds p active")
    case True
    obtain active' where step: "enter_member kinds (active, []) p = Inr (active', [])"
        "stack_ok kinds (insert p seen) active'"
        "set (map fst active') = {d \<in> set (map fst active). below p d} \<union> {d. d = p \<and> holds_directory kinds p}"
      using enter_member_ok [OF Cons.prems(1) sub order least True] by blast
    have "walk_paths kinds active [] (p # ps) = walk_paths kinds active' [] ps"
      using step(1) by (simp add: walk_paths_Cons)
    moreover have "walk_paths kinds active' [] ps = Inr [] \<longleftrightarrow>
        (\<forall>d \<in> set (map fst kinds). holds_directory kinds d \<longrightarrow> occupied kinds d)"
    proof (rule Cons.IH [OF step(2)])
      show "insert p seen \<union> set ps = set (map fst kinds)" using Cons.prems(2) by auto
      show "sorted ps" "distinct ps" using Cons.prems(3,4) by auto
      show "q < r" if "q \<in> insert p seen" "r \<in> set ps" for q r
      proof (cases "q = p")
        case True
        have "p \<le> r" "p \<noteq> r" using that(2) Cons.prems(3,4) by auto
        then show ?thesis using True by (simp add: less_le)
      qed (use that Cons.prems(5) in auto)
      show "holds_directory kinds d" if "d \<in> set (map fst active')" for d
        using that step(3) Cons.prems(6) by auto
      show "d \<in> set (map fst active') \<or> occupied kinds d" if "d \<in> insert p seen" "holds_directory kinds d" for d
        using that step(3) Cons.prems(7) True unfolding closable_def by blast
    qed
    ultimately show ?thesis by simp
  next
    case False
    have all_seen: "seen_below kinds seen p active"
      using Cons.prems(1) order least by (rule seen_below_order)
    have never: "close_until p active [] \<noteq> Inr (a, [])" for a
      using close_until_ok [OF Cons.prems(1) sub(1) all_seen] False by (auto split: if_splits)
    have "walk_paths kinds active [] (p # ps) \<noteq> Inr []"
    proof
      assume "walk_paths kinds active [] (p # ps) = Inr []"
      then obtain a fs where "enter_member kinds (active, []) p = Inr (a, fs)" "walk_paths kinds a fs ps = Inr []"
        by (auto simp: walk_paths_Cons res_iff)
      then have "enter_member kinds (active, []) p = Inr (a, [])" using walk_paths_keeps by blast
      then show False using never by (auto simp: enter_member_def res_iff Let_def)
    qed
    moreover have "\<exists>d \<in> set (map fst kinds). holds_directory kinds d \<and> \<not> occupied kinds d"
      using False Cons.prems(1,6) sub(1) unfolding closable_def stack_ok_def by blast
    ultimately show ?thesis by blast
  qed
qed

lemma topology_keeps:
  assumes "validate_builder_topology member_sequence kinds failures = Inr []"
  shows "failures = []"
proof -
  obtain f1 f2 f3 where a: "fail_if (list_ex (\<lambda>p. length p = 1) member_sequence)
              ''explicit logical root archive member is forbidden'' failures = Inr f1"
       and b: "fail_if (member_sequence \<noteq> sort member_sequence)
              ''archive members are not in canonical builder order'' f1 = Inr f2"
       and c: "fail_each (map (\<lambda>(p, _). (2 < length p \<and> Directory_kind \<notin> set (kinds_of kinds (butlast p)),
              ''archive parent directory is missing: '' @ parts_posix (butlast p))) kinds) f2 = Inr f3"
       and walk: "walk_paths kinds [] f3 (sort (map fst kinds)) = Inr []"
    using assms unfolding validate_builder_topology_def walk_paths_def by (simp only: bindE_eq_Inr) blast
  have "f3 = []" using walk walk_paths_keeps by blast
  then show ?thesis using fail_if_keeps [OF a] fail_if_keeps [OF b] fail_each_keeps [OF c] by blast
qed

lemma topology_clean:
  assumes "distinct (map fst kinds)"
  shows "validate_builder_topology member_sequence kinds failures = Inr [] \<longleftrightarrow>
    failures = [] \<and> builder_topology member_sequence kinds"
proof -
  have walk: "walk_paths kinds [] [] (sort (map fst kinds)) = Inr [] \<longleftrightarrow>
      (\<forall>d \<in> set (map fst kinds). holds_directory kinds d \<longrightarrow> occupied kinds d)"
    by (rule walk_paths_ok [of kinds "{}"]) (use assms in \<open>auto simp: stack_ok_def\<close>)
  have keeps: "walk_paths kinds [] fs (sort (map fst kinds)) = Inr [] \<longleftrightarrow>
      fs = [] \<and> (\<forall>d \<in> set (map fst kinds). holds_directory kinds d \<longrightarrow> occupied kinds d)" for fs
    using walk walk_paths_keeps by blast
  have order: "member_sequence = sort member_sequence \<longleftrightarrow> sorted member_sequence"
    by (metis sorted_sort sorted_sort_id)
  have parents: "fail_each (map (\<lambda>(p, _). (2 < length p \<and> Directory_kind \<notin> set (kinds_of kinds (butlast p)),
         ''archive parent directory is missing: '' @ parts_posix (butlast p))) kinds) fs = Inr [] \<longleftrightarrow>
      fs = [] \<and> (\<forall>p \<in> set (map fst kinds). 2 < length p \<longrightarrow> holds_directory kinds (butlast p))" for fs
    by (auto simp: fail_each_clean holds_directory_def)
  have "validate_builder_topology member_sequence kinds failures = Inr [] \<longleftrightarrow>
    (\<exists>f1 f2 f3. fail_if (list_ex (\<lambda>p. length p = 1) member_sequence)
              ''explicit logical root archive member is forbidden'' failures = Inr f1
       \<and> fail_if (member_sequence \<noteq> sort member_sequence)
              ''archive members are not in canonical builder order'' f1 = Inr f2
       \<and> fail_each (map (\<lambda>(p, _). (2 < length p \<and> Directory_kind \<notin> set (kinds_of kinds (butlast p)),
              ''archive parent directory is missing: '' @ parts_posix (butlast p))) kinds) f2 = Inr f3
       \<and> walk_paths kinds [] f3 (sort (map fst kinds)) = Inr [])"
    unfolding validate_builder_topology_def walk_paths_def by (simp only: bindE_eq_Inr) blast
  also have "\<dots> \<longleftrightarrow> failures = [] \<and> builder_topology member_sequence kinds"
    (is "(\<exists>f1 f2 f3. ?a f1 \<and> ?b f1 f2 \<and> ?c f2 f3 \<and> ?d f3) \<longleftrightarrow> _")
  proof
    assume "\<exists>f1 f2 f3. ?a f1 \<and> ?b f1 f2 \<and> ?c f2 f3 \<and> ?d f3"
    then obtain f1 f2 f3 where "?a f1" "?b f1 f2" "?c f2 f3" "?d f3" by blast
    moreover from this have "f3 = []" using keeps by blast
    moreover from calculation have "f2 = []" using parents by blast
    moreover from calculation have "f1 = []" using fail_if_clean by blast
    ultimately show "failures = [] \<and> builder_topology member_sequence kinds"
      unfolding builder_topology_def keeps
      using parents [of "[]"] order by (simp add: fail_if_clean list_ex_iff)
  next
    assume "failures = [] \<and> builder_topology member_sequence kinds"
    then have "?a []" "?b [] []" "?c [] []" "?d []"
      unfolding builder_topology_def keeps
      using parents [of "[]"] order by (simp_all add: fail_if_clean list_ex_iff)
    then show "\<exists>f1 f2 f3. ?a f1 \<and> ?b f1 f2 \<and> ?c f2 f3 \<and> ?d f3" by blast
  qed
  finally show ?thesis .
qed

end
