(* ===== verification/Bundle_Audit_Props.thy ===== *)
theory Bundle_Audit_Props
  imports Bundle_Topology
begin

text \<open>
  Which archives the audit of the members accepts: every member has to pass every check, their paths
  are distinct and below one root, the topology is that of the builder, the counts are within the
  limits, and the two readings of the archive agree. Each step is characterised by when it ends without
  a failure, and by the state it then leaves.
\<close>

section \<open>What a member must be\<close>

definition audited_content :: "(nat \<times> string) option \<Rightarrow> bytes \<Rightarrow> bool" where
  "audited_content spec data \<longleftrightarrow>
     \<not> has_forbidden_binary_magic (take MAGIC_PROBE_BYTES data) \<and> \<not> is_structured_pdf data \<and> \<not> is_intel_hex data
     \<and> \<not> startswith data GIT_LFS_POINTER_HEADER
     \<and> \<not> forbidden_reference data \<and> \<not> contains_local_host_path data
     \<and> (case spec of
          None \<Rightarrow> CHR 0x00 \<notin> set data \<and> utf8_ok False data
        | Some (sz, digest) \<Rightarrow> length data = sz \<and> sz \<le> MAX_ALLOWED_BINARY_BYTES \<and> sha256_hex data = digest)"

definition audited_file :: "tar_member \<Rightarrow> bool" where
  "audited_file m \<longleftrightarrow>
     is_file m \<and> str_lower (path_suffix (member_path m)) \<notin> set FORBIDDEN_SUFFIXES
     \<and> tm_size m \<le> int MAX_MEMBER_BYTES
     \<and> (\<exists>data grants. tm_payload m = Some (data, grants) \<and> int (length data) = tm_size m
          \<and> audited_content (allowed_binary_spec (member_path m)) data)"

definition audited_name :: "tar_member \<Rightarrow> bool" where
  "audited_name m \<longleftrightarrow>
     tm_name m \<noteq> [] \<and> member_path m \<noteq> [] \<and> utf8_ok False (tm_name m) \<and> length (tm_name m) \<le> MAX_MEMBER_NAME_BYTES
     \<and> member_name_policy_failure (tm_name m) (is_dir m) = None
     \<and> parts_posix (member_path m) = tm_name m \<and> length (member_path m) \<le> 128
     \<and> \<not> startswith (tm_name m) ''/'' \<and> ''..'' \<notin> set (member_path m)
     \<and> \<not> forbidden_namespace_path (member_path m)"

definition padding_size :: "tar_member \<Rightarrow> nat" where
  "padding_size m = nat ((- tm_size m) mod int BLOCKSIZE)"

definition audited_bytes :: "positioned \<Rightarrow> tar_member \<Rightarrow> bool" where
  "audited_bytes pread m \<longleftrightarrow>
     (\<exists>header. tm_tobuf m = Inr header \<and> tm_offset_data m = tm_offset m + length header
        \<and> read_exact_at pread (length header) (tm_offset m) = Inr header)
     \<and> (padding_size m = 0 \<or> 0 \<le> int (tm_offset_data m) + tm_size m
          \<and> (\<exists>padding. read_exact_at pread (padding_size m) (nat (int (tm_offset_data m) + tm_size m)) = Inr padding
               \<and> \<not> has_nonzero padding))"

definition audited_header :: "positioned \<Rightarrow> tar_member \<Rightarrow> bool" where
  "audited_header pread m \<longleftrightarrow> (\<forall>(c, message) \<in> set (metadata_checks m). \<not> c) \<and> audited_bytes pread m"

definition audited_member :: "positioned \<Rightarrow> tar_member \<Rightarrow> bool" where
  "audited_member pread m \<longleftrightarrow>
     audited_name m \<and> audited_header pread m \<and> \<not> is_link m \<and> (is_dir m \<or> audited_file m)"

section \<open>Steps without a failure\<close>

definition cleanly :: "(audit_state \<Rightarrow> audit_state res) \<Rightarrow> audit_state \<Rightarrow> audit_state \<Rightarrow> bool" where
  "cleanly f s t \<longleftrightarrow> f s = Inr t \<and> au_failures t = []"

text \<open>\<open>step_clean f c e\<close>: \<open>f\<close> ends without a failure exactly where it found none and \<open>c\<close> holds, with the state \<open>e\<close>.\<close>

definition step_clean :: "(audit_state \<Rightarrow> audit_state res) \<Rightarrow> (audit_state \<Rightarrow> bool) \<Rightarrow> (audit_state \<Rightarrow> audit_state) \<Rightarrow> bool" where
  "step_clean f c e \<longleftrightarrow> (\<forall>s t. cleanly f s t \<longleftrightarrow> au_failures s = [] \<and> c s \<and> t = e s) \<and> (\<forall>s. au_failures (e s) = au_failures s)"

lemma step_cleanI:
  assumes "\<And>s t. f s = Inr t \<Longrightarrow> au_failures t = [] \<Longrightarrow> au_failures s = [] \<and> c s \<and> t = e s"
    and "\<And>s. au_failures s = [] \<Longrightarrow> c s \<Longrightarrow> f s = Inr (e s)"
    and "\<And>s. au_failures (e s) = au_failures s"
  shows "step_clean f c e"
  unfolding step_clean_def cleanly_def
proof (intro conjI allI iffI)
  fix s t assume "au_failures s = [] \<and> c s \<and> t = e s"
  then show "f s = Inr t" "au_failures t = []" using assms(2,3) by simp_all
qed (use assms(1,3) in blast)+

lemma step_clean_bind:
  assumes f: "step_clean f c e" and g: "step_clean g d h"
  shows "step_clean (\<lambda>s. bindE (f s) g) (\<lambda>s. c s \<and> d (e s)) (\<lambda>s. h (e s))"
proof (rule step_cleanI)
  fix s t assume "bindE (f s) g = Inr t" "au_failures t = []"
  then obtain u where "f s = Inr u" "g u = Inr t" by (auto simp: bindE_eq_Inr)
  then have "au_failures u = [] \<and> d u \<and> t = h u" using g \<open>au_failures t = []\<close> by (auto simp: step_clean_def cleanly_def)
  moreover from this have "au_failures s = [] \<and> c s \<and> u = e s"
    using f \<open>f s = Inr u\<close> by (auto simp: step_clean_def cleanly_def)
  ultimately show "au_failures s = [] \<and> (c s \<and> d (e s)) \<and> t = h (e s)" by auto
next
  fix s assume s: "au_failures s = []" "c s \<and> d (e s)"
  then have "f s = Inr (e s)" using f by (auto simp: step_clean_def cleanly_def)
  moreover have "au_failures (e s) = []" using f s(1) by (simp add: step_clean_def)
  then have "g (e s) = Inr (h (e s))" using g s(2) unfolding step_clean_def cleanly_def by blast
  ultimately show "bindE (f s) g = Inr (h (e s))" by simp
next
  show "au_failures (h (e s)) = au_failures s" for s using f g by (simp add: step_clean_def)
qed

lemma step_clean_after:
  assumes "step_clean g d h" "\<And>s. au_failures (k s) = au_failures s"
  shows "step_clean (\<lambda>s. g (k s)) (\<lambda>s. d (k s)) (\<lambda>s. h (k s))"
  using assms by (simp add: step_clean_def cleanly_def)

lemma step_clean_cong:
  "step_clean f c e \<Longrightarrow> g = f \<Longrightarrow> (\<And>s. d s \<longleftrightarrow> c s) \<Longrightarrow> (\<And>s. h s = e s) \<Longrightarrow> step_clean g d h"
  by (simp add: step_clean_def)

lemma report_clean:
  "report checks s = Inr t \<and> au_failures t = [] \<longleftrightarrow> au_failures s = [] \<and> t = s \<and> (\<forall>(c, m) \<in> set checks. \<not> c)"
proof
  assume r: "report checks s = Inr t \<and> au_failures t = []"
  then obtain fs where "fail_each checks (au_failures s) = Inr fs" "t = s\<lparr>au_failures := fs\<rparr>"
    by (auto simp: report_def res_iff)
  moreover from this r have "fs = []" by simp
  ultimately show "au_failures s = [] \<and> t = s \<and> (\<forall>(c, m) \<in> set checks. \<not> c)" by (simp add: fail_each_clean)
next
  assume r: "au_failures s = [] \<and> t = s \<and> (\<forall>(c, m) \<in> set checks. \<not> c)"
  then have "fail_each checks (au_failures s) = Inr []" by (simp add: fail_each_clean)
  then show "report checks s = Inr t \<and> au_failures t = []" using r by (simp add: report_def)
qed

lemma report_one: "report [(True, message)] s = Inr t \<Longrightarrow> au_failures t \<noteq> []"
  using report_clean [of "[(True, message)]" s t] by auto

lemma step_report: "step_clean (\<lambda>s. report (checks s) s) (\<lambda>s. \<forall>(c, m) \<in> set (checks s). \<not> c) (\<lambda>s. s)"
  unfolding step_clean_def cleanly_def using report_clean by auto

section \<open>The steps of a turn\<close>

definition member_end :: "tar_member \<Rightarrow> int" where
  "member_end m = int (tm_offset_data m) + (max (tm_size m) 0 + int BLOCKSIZE - 1) div int BLOCKSIZE * int BLOCKSIZE"

definition count_effect :: "tar_member \<Rightarrow> audit_state \<Rightarrow> audit_state" where
  "count_effect m s = s\<lparr>au_member_count := au_member_count s + 1, au_archive_end := max (au_archive_end s) (member_end m),
     au_sequence := au_sequence s @ [member_path m],
     au_retained_name_bytes := au_retained_name_bytes s + length (encode_replace (tm_name m))\<rparr>"

lemma step_count:
  "step_clean (count_member py_repr m)
     (\<lambda>s. au_member_count s < MAX_MEMBERS \<and> utf8_ok False (tm_name m)
        \<and> au_retained_name_bytes s + length (encode_replace (tm_name m)) \<le> MAX_RETAINED_NAME_BYTES
        \<and> length (tm_name m) \<le> MAX_MEMBER_NAME_BYTES \<and> length (member_path m) \<le> 128)
     (count_effect m)"
proof (rule step_cleanI)
  let ?s1 = "\<lambda>s. s\<lparr>au_member_count := au_member_count s + 1,
      au_archive_end := max (au_archive_end s)
        (int (tm_offset_data m) + (max (tm_size m) 0 + int BLOCKSIZE - 1) div int BLOCKSIZE * int BLOCKSIZE),
      au_sequence := au_sequence s @ [member_path m]\<rparr>"
  fix s t assume r: "count_member py_repr m s = Inr t" and clean: "au_failures t = []"
  obtain u where u: "report [(\<not> utf8_ok False (tm_name m),
        ''archive member name is not valid UTF-8: '' @ py_repr (tm_name m))] (?s1 s) = Inr u"
    and rest: "report
            [(MAX_MEMBER_NAME_BYTES < length (encoded_name m),
               ''archive member name exceeds '' @ dec_nat MAX_MEMBER_NAME_BYTES @ '' bytes: '' @ tm_name m),
             (128 < length (member_path m), ''archive member depth exceeds 128: '' @ tm_name m)]
         (u\<lparr>au_retained_name_bytes := au_retained_name_bytes u + length (encode_replace (tm_name m))\<rparr>) = Inr t"
    and limits: "au_member_count s < MAX_MEMBERS"
      "au_retained_name_bytes u + length (encode_replace (tm_name m)) \<le> MAX_RETAINED_NAME_BYTES"
    using r unfolding count_member_def Let_def by (auto simp: res_iff)
  note second = rest [THEN conjI, OF clean, unfolded report_clean]
  have "au_failures u = []" using second by simp
  note first = u [THEN conjI, OF this, unfolded report_clean]
  have valid: "utf8_ok False (tm_name m)" using first by simp
  then have "encoded_name m = tm_name m" by (simp add: encoded_name_def)
  then show "au_failures s = [] \<and> (au_member_count s < MAX_MEMBERS \<and> utf8_ok False (tm_name m)
        \<and> au_retained_name_bytes s + length (encode_replace (tm_name m)) \<le> MAX_RETAINED_NAME_BYTES
        \<and> length (tm_name m) \<le> MAX_MEMBER_NAME_BYTES \<and> length (member_path m) \<le> 128) \<and> t = count_effect m s"
    using first second limits valid by (auto simp: count_effect_def member_end_def)
next
  fix s :: audit_state assume s: "au_failures s = []" and c: "au_member_count s < MAX_MEMBERS \<and> utf8_ok False (tm_name m)
        \<and> au_retained_name_bytes s + length (encode_replace (tm_name m)) \<le> MAX_RETAINED_NAME_BYTES
        \<and> length (tm_name m) \<le> MAX_MEMBER_NAME_BYTES \<and> length (member_path m) \<le> 128"
  have clean: "report checks u = Inr u" if "au_failures u = []" "\<forall>(c, m) \<in> set checks. \<not> c" for checks u
    using report_clean that by blast
  have "encoded_name m = tm_name m" using c by (simp add: encoded_name_def)
  then show "count_member py_repr m s = Inr (count_effect m s)"
    using s c by (simp add: count_member_def count_effect_def member_end_def clean)
qed (simp add: count_effect_def)

definition kind_effect :: "tar_member \<Rightarrow> audit_state \<Rightarrow> audit_state" where
  "kind_effect m s = s\<lparr>au_files := au_files s + (if kind_of m = File_kind then 1 else 0),
     au_directories := au_directories s + (if kind_of m = Directory_kind then 1 else 0)\<rparr>"

lemma step_kind:
  "step_clean (count_kind m)
     (\<lambda>s. (kind_of m = File_kind \<longrightarrow> au_files s < MAX_ARCHIVE_FILES)
        \<and> (kind_of m = Directory_kind \<longrightarrow> au_directories s < MAX_ARCHIVE_DIRECTORIES))
     (kind_effect m)"
  by (rule step_cleanI) (auto simp: count_kind_def kind_effect_def kind_of_def split: if_splits)

lemma step_policy:
  "step_clean (\<lambda>s. case policy_failure m of None \<Rightarrow> Inr s
      | Some message \<Rightarrow> report [(True, message @ '': '' @ tm_name m)] s)
     (\<lambda>s. policy_failure m = None) (\<lambda>s. s)"
  by (rule step_cleanI) (auto dest: report_one split: option.splits)

definition root_effect :: "tar_member \<Rightarrow> audit_state \<Rightarrow> audit_state" where
  "root_effect m s = (if au_root_name s = None then s\<lparr>au_root_name := Some (hd (member_path m))\<rparr> else s)"

lemma step_root:
  "step_clean (check_root m)
     (\<lambda>s. tm_name m \<noteq> [] \<and> member_path m \<noteq> []
        \<and> (au_root_name s \<in> {None, Some (hd (member_path m))} \<or> au_multiple_roots s))
     (root_effect m)"
proof (rule step_cleanI)
  fix s t assume r: "check_root m s = Inr t" and clean: "au_failures t = []"
  have name: "\<not> (tm_name m = [] \<or> member_path m = [])"
  proof
    assume "tm_name m = [] \<or> member_path m = []"
    then have "report [(True, ''empty archive member name'')] s = Inr t" using r by (simp add: check_root_def)
    then show False using report_one clean by blast
  qed
  show "au_failures s = [] \<and> (tm_name m \<noteq> [] \<and> member_path m \<noteq> []
        \<and> (au_root_name s \<in> {None, Some (hd (member_path m))} \<or> au_multiple_roots s)) \<and> t = root_effect m s"
  proof (cases "au_root_name s")
    case None
    then show ?thesis using r clean name by (auto simp: check_root_def root_effect_def)
  next
    case (Some root)
    show ?thesis
    proof (cases "hd (member_path m) \<noteq> root \<and> \<not> au_multiple_roots s")
      case True
      then obtain u where "report [(True, ''source bundle must contain exactly one root directory'')] s = Inr u"
          "t = u\<lparr>au_multiple_roots := True\<rparr>"
        using r name Some by (auto simp: check_root_def res_iff)
      then show ?thesis using report_one clean by fastforce
    next
      case False
      then show ?thesis using r clean name Some by (auto simp: check_root_def root_effect_def)
    qed
  qed
next
  fix s :: audit_state assume "tm_name m \<noteq> [] \<and> member_path m \<noteq> []
        \<and> (au_root_name s \<in> {None, Some (hd (member_path m))} \<or> au_multiple_roots s)"
  then show "check_root m s = Inr (root_effect m s)"
    by (cases "au_root_name s") (auto simp: check_root_def root_effect_def)
qed (simp add: root_effect_def)

lemma bytes_clean:
  "validate_canonical_member_bytes pread m fs = Inr [] \<longleftrightarrow> fs = [] \<and> audited_bytes pread m"
proof (cases "tm_tobuf m")
  case (Inl e)
  then show ?thesis using append_failure_nonempty
    by (auto simp: validate_canonical_member_bytes_def audited_bytes_def)
next
  case (Inr header)
  show ?thesis
  proof (cases "int (tm_offset_data m) - int (tm_offset m) = int (length header)")
    case False
    then show ?thesis using append_failure_nonempty Inr
      by (auto simp: validate_canonical_member_bytes_def Let_def audited_bytes_def)
  next
    case True
    then have span: "tm_offset_data m = tm_offset m + length header" by linarith
    let ?at = "int (tm_offset_data m) + tm_size m"
    have tail: "(if padding_size m = 0 then Inr fs'
            else if ?at < 0 then Inl (ValueError ''cannot inspect decompressed tar stream'')
            else bindE (read_exact_at pread (padding_size m) (nat ?at)) (\<lambda>padding.
                fail_if (has_nonzero padding) (''nonzero archive member padding: '' @ tm_name m) fs')) = Inr []
        \<longleftrightarrow> fs' = [] \<and> (padding_size m = 0 \<or> 0 \<le> ?at
          \<and> (\<exists>padding. read_exact_at pread (padding_size m) (nat ?at) = Inr padding \<and> \<not> has_nonzero padding))" for fs'
      by (auto simp: bindE_eq_Inr fail_if_clean)
    have "validate_canonical_member_bytes pread m fs = Inr [] \<longleftrightarrow>
        (\<exists>actual fs'. read_exact_at pread (length header) (tm_offset m) = Inr actual
           \<and> fail_if (actual \<noteq> header) (''noncanonical raw archive header: '' @ tm_name m) fs = Inr fs'
           \<and> (if padding_size m = 0 then Inr fs'
            else if ?at < 0 then Inl (ValueError ''cannot inspect decompressed tar stream'')
            else bindE (read_exact_at pread (padding_size m) (nat ?at)) (\<lambda>padding.
                fail_if (has_nonzero padding) (''nonzero archive member padding: '' @ tm_name m) fs')) = Inr [])"
      unfolding validate_canonical_member_bytes_def Inr Let_def padding_size_def
      by (simp add: True bindE_eq_Inr)
    also have "\<dots> \<longleftrightarrow> fs = [] \<and> audited_bytes pread m"
      unfolding tail audited_bytes_def Inr using span by (auto simp: fail_if_clean)
    finally show ?thesis .
  qed
qed

definition path_effect :: "tar_member \<Rightarrow> audit_state \<Rightarrow> audit_state" where
  "path_effect m s = s\<lparr>au_kinds := add_kind (member_path m) (kind_of m) (au_kinds s)\<rparr>"

lemma step_path:
  "step_clean (check_path pread m)
     (\<lambda>s. parts_posix (member_path m) = tm_name m \<and> member_path m \<notin> set (map fst (au_kinds s)) \<and> audited_header pread m)
     (path_effect m)"
proof -
  have headers: "step_clean (\<lambda>s. bindE (validate_reproducible_metadata m (au_failures s)) (\<lambda>fs.
     bindE (validate_canonical_member_bytes pread m fs) (\<lambda>fs. Inr (s\<lparr>au_failures := fs\<rparr>))))
     (\<lambda>s. audited_header pread m) (\<lambda>s. s)" (is "step_clean ?h _ _")
  proof (rule step_cleanI)
    fix s t assume "?h s = Inr t" "au_failures t = []"
    then obtain fs where "validate_reproducible_metadata m (au_failures s) = Inr fs"
        "validate_canonical_member_bytes pread m fs = Inr []" "t = s\<lparr>au_failures := []\<rparr>"
      by (auto simp: bindE_eq_Inr)
    then show "au_failures s = [] \<and> audited_header pread m \<and> t = s"
      by (auto simp: bytes_clean validate_reproducible_metadata_def fail_each_clean audited_header_def)
  next
    fix s :: audit_state assume "au_failures s = []" "audited_header pread m"
    then have "validate_reproducible_metadata m (au_failures s) = Inr []" "validate_canonical_member_bytes pread m [] = Inr []"
      by (simp_all add: bytes_clean validate_reproducible_metadata_def fail_each_clean audited_header_def)
    then show "?h s = Inr s" using \<open>au_failures s = []\<close> by simp
  qed simp
  have "step_clean (\<lambda>s. bindE (report
       [(parts_posix (member_path m) \<noteq> tm_name m, ''noncanonical archive member name: '' @ tm_name m),
        (member_path m \<in> set (map fst (au_kinds s)),
          ''duplicate normalized archive member: '' @ parts_posix (member_path m))] s) (\<lambda>s. ?h (path_effect m s)))
     (\<lambda>s. (\<forall>(c, message) \<in> set [(parts_posix (member_path m) \<noteq> tm_name m, ''noncanonical archive member name: '' @ tm_name m),
        (member_path m \<in> set (map fst (au_kinds s)),
          ''duplicate normalized archive member: '' @ parts_posix (member_path m))]. \<not> c) \<and> audited_header pread m)
     (\<lambda>s. path_effect m s)"
    by (rule step_clean_bind [OF step_report step_clean_after [OF headers]]) (simp add: path_effect_def)
  moreover have "check_path pread m = (\<lambda>s. bindE (report
       [(parts_posix (member_path m) \<noteq> tm_name m, ''noncanonical archive member name: '' @ tm_name m),
        (member_path m \<in> set (map fst (au_kinds s)),
          ''duplicate normalized archive member: '' @ parts_posix (member_path m))] s) (\<lambda>s. ?h (path_effect m s)))"
    by (simp only: fun_eq_iff check_path_def Let_def path_effect_def) simp
  moreover have "(\<lambda>s :: audit_state. (\<forall>(c, message) \<in> set [(parts_posix (member_path m) \<noteq> tm_name m, ''noncanonical archive member name: '' @ tm_name m),
        (member_path m \<in> set (map fst (au_kinds s)),
          ''duplicate normalized archive member: '' @ parts_posix (member_path m))]. \<not> c) \<and> audited_header pread m)
      = (\<lambda>s. parts_posix (member_path m) = tm_name m \<and> member_path m \<notin> set (map fst (au_kinds s)) \<and> audited_header pread m)"
    by (auto simp: fun_eq_iff)
  ultimately show ?thesis by (simp only:)
qed

definition content_effect :: "tar_member \<Rightarrow> audit_state \<Rightarrow> audit_state" where
  "content_effect m s = s\<lparr>au_expanded := au_expanded s + tm_size m\<rparr>"

lemma content_checks_clean:
  assumes "int (length data) = tm_size m"
  shows "(\<forall>(c, message) \<in> set (content_checks m (audit_of data (nat (tm_size m)) (allowed_binary_spec (member_path m) \<noteq> None))).
      \<not> c) \<longleftrightarrow> audited_content (allowed_binary_spec (member_path m)) data"
proof -
  have all: "(\<forall>(c, message) \<in> set checks. \<not> c) \<longleftrightarrow> list_all (\<lambda>(c, message). \<not> c) checks" for checks :: "(bool \<times> string) list"
    by (simp add: list_all_iff)
  show ?thesis
    unfolding all assms [symmetric] content_checks_def
    by (cases "allowed_binary_spec (member_path m)")
      (auto simp: audited_content_def audit_of_def Let_def)
qed

lemma payload_clean:
  "(case tm_payload m of
       None \<Rightarrow> report [(True, ''cannot read archive member: '' @ tm_name m)] u
     | Some payload \<Rightarrow>
         bindE (scan_member_payload granted_read payload (nat (tm_size m)) (allowed_binary_spec (member_path m) \<noteq> None)) (\<lambda>c.
           if \<not> ca_exact_size c \<or> int (ca_bytes_read c) \<noteq> tm_size m then
             report [(True, ''archive member size mismatch: '' @ tm_name m)] u
           else report (content_checks m c) u)) = Inr t \<and> au_failures t = []
   \<longleftrightarrow> au_failures u = [] \<and> t = u \<and> (\<exists>data grants. tm_payload m = Some (data, grants) \<and> int (length data) = tm_size m
          \<and> audited_content (allowed_binary_spec (member_path m)) data)"
proof (cases "tm_payload m")
  case None
  then show ?thesis using report_one by auto
next
  case (Some payload)
  obtain data grants where payload: "payload = (data, grants)" by (cases payload)
  let ?c = "audit_of data (nat (tm_size m)) (allowed_binary_spec (member_path m) \<noteq> None)"
  have exact: "\<not> (\<not> ca_exact_size ?c \<or> int (ca_bytes_read ?c) \<noteq> tm_size m) \<longleftrightarrow> int (length data) = tm_size m"
    by (auto simp: audit_of_def Let_def)
  show ?thesis
  proof (cases "int (length data) = tm_size m")
    case True
    then have "\<not> (\<not> ca_exact_size ?c \<or> int (ca_bytes_read ?c) \<noteq> tm_size m)" using exact by blast
    then have turn: "(if \<not> ca_exact_size ?c \<or> int (ca_bytes_read ?c) \<noteq> tm_size m then
             report [(True, ''archive member size mismatch: '' @ tm_name m)] u
           else report (content_checks m ?c) u) = report (content_checks m ?c) u" by simp
    show ?thesis
      unfolding Some payload option.case payload_pieces bindE_Inr turn report_clean content_checks_clean [OF True]
      using True by auto
  next
    case False
    then have "\<not> ca_exact_size ?c \<or> int (ca_bytes_read ?c) \<noteq> tm_size m" using exact by blast
    then have "(if \<not> ca_exact_size ?c \<or> int (ca_bytes_read ?c) \<noteq> tm_size m then
             report [(True, ''archive member size mismatch: '' @ tm_name m)] u
           else report (content_checks m ?c) u) = report [(True, ''archive member size mismatch: '' @ tm_name m)] u" by simp
    then show ?thesis using False Some report_one by (auto simp: payload payload_pieces)
  qed
qed

lemma step_content:
  assumes "is_file m"
  shows "step_clean (audit_content m) (\<lambda>s. audited_file m \<and> au_expanded s + tm_size m \<le> int MAX_EXPANDED_BYTES) (content_effect m)"
proof -
  have iff: "audit_content m s = Inr t \<and> au_failures t = [] \<longleftrightarrow>
      au_failures s = [] \<and> (audited_file m \<and> au_expanded s + tm_size m \<le> int MAX_EXPANDED_BYTES) \<and> t = content_effect m s" for s t
  proof (cases "tm_size m < 0 \<or> int MAX_MEMBER_BYTES < tm_size m")
    case True
    then have "audit_content m s = report [(True, ''oversized archive member: '' @ tm_name m)] s"
      unfolding audit_content_def by (rule if_P)
    then show ?thesis using report_one True by (auto simp: audited_file_def)
  next
    case fits: False
    show ?thesis
    proof (cases "int MAX_EXPANDED_BYTES < au_expanded s + tm_size m")
      case True
      then have "audit_content m s = report [(True, ''expanded source bundle exceeds limit'')] (content_effect m s)"
        using fits unfolding audit_content_def Let_def content_effect_def by simp
      then show ?thesis using report_one True by (auto simp: audited_file_def)
    next
      case False
      let ?rest = "\<lambda>u. case tm_payload m of
             None \<Rightarrow> report [(True, ''cannot read archive member: '' @ tm_name m)] u
           | Some payload \<Rightarrow>
               bindE (scan_member_payload granted_read payload (nat (tm_size m))
                        (allowed_binary_spec (member_path m) \<noteq> None)) (\<lambda>c.
                 if \<not> ca_exact_size c \<or> int (ca_bytes_read c) \<noteq> tm_size m then
                   report [(True, ''archive member size mismatch: '' @ tm_name m)] u
                 else report (content_checks m c) u)"
      let ?suffix = "\<lambda>u. report [(str_lower (path_suffix (member_path m)) \<in> set FORBIDDEN_SUFFIXES,
                   ''forbidden packaged artifact: '' @ tm_name m)] u"
      have "audit_content m s = bindE (?suffix (content_effect m s)) ?rest"
        using fits False unfolding audit_content_def Let_def content_effect_def by simp
      then have "audit_content m s = Inr t \<and> au_failures t = [] \<longleftrightarrow>
          (\<exists>u. ?suffix (content_effect m s) = Inr u \<and> ?rest u = Inr t \<and> au_failures t = [])"
        by (simp only: bindE_eq_Inr) blast
      also have "\<dots> \<longleftrightarrow> (\<exists>u. (?suffix (content_effect m s) = Inr u \<and> au_failures u = []) \<and> t = u
          \<and> (\<exists>data grants. tm_payload m = Some (data, grants) \<and> int (length data) = tm_size m
          \<and> audited_content (allowed_binary_spec (member_path m)) data))"
        unfolding payload_clean by blast
      also have "\<dots> \<longleftrightarrow> au_failures s = [] \<and> (audited_file m \<and> au_expanded s + tm_size m \<le> int MAX_EXPANDED_BYTES) \<and> t = content_effect m s"
        unfolding report_clean using fits False assms by (auto simp: audited_file_def content_effect_def)
      finally show ?thesis .
    qed
  qed
  show ?thesis unfolding step_clean_def cleanly_def using iff by (simp add: content_effect_def)
qed

section \<open>A turn\<close>

text \<open>What a member needs of the state, and what it makes of it.\<close>

definition member_fits :: "tar_member \<Rightarrow> audit_state \<Rightarrow> bool" where
  "member_fits m s \<longleftrightarrow>
     au_member_count s < MAX_MEMBERS
     \<and> au_retained_name_bytes s + length (encode_replace (tm_name m)) \<le> MAX_RETAINED_NAME_BYTES
     \<and> (kind_of m = File_kind \<longrightarrow> au_files s < MAX_ARCHIVE_FILES)
     \<and> (kind_of m = Directory_kind \<longrightarrow> au_directories s < MAX_ARCHIVE_DIRECTORIES)
     \<and> (au_root_name s \<in> {None, Some (hd (member_path m))} \<or> au_multiple_roots s)
     \<and> member_path m \<notin> set (map fst (au_kinds s))
     \<and> (is_dir m \<or> au_expanded s + tm_size m \<le> int MAX_EXPANDED_BYTES)"

definition member_effect :: "tar_member \<Rightarrow> audit_state \<Rightarrow> audit_state" where
  "member_effect m s =
     (let t = path_effect m (root_effect m (kind_effect m (count_effect m s))) in
      if is_dir m then t else content_effect m t)"

lemma step_rest:
  "step_clean (\<lambda>s. if startswith (tm_name m) ''/'' \<or> ''..'' \<in> set (member_path m) then
         report [(True, ''unsafe archive path: '' @ tm_name m)] s
       else if forbidden_namespace_path (member_path m) then
         report [(True, ''forbidden archive namespace: '' @ tm_name m)] s
       else if is_link m then report [(True, ''archive link is forbidden: '' @ tm_name m)] s
       else if is_dir m then Inr s
       else if \<not> is_file m then report [(True, ''unsupported archive member type: '' @ tm_name m)] s
       else audit_content m s)
     (\<lambda>s. \<not> startswith (tm_name m) ''/'' \<and> ''..'' \<notin> set (member_path m) \<and> \<not> forbidden_namespace_path (member_path m)
        \<and> \<not> is_link m \<and> (is_dir m \<or> audited_file m \<and> au_expanded s + tm_size m \<le> int MAX_EXPANDED_BYTES))
     (\<lambda>s. if is_dir m then s else content_effect m s)"
proof -
  have rejects: "(if c then report [(True, message)] s else k) = Inr t \<and> au_failures t = [] \<longleftrightarrow> \<not> c \<and> k = Inr t \<and> au_failures t = []"
    for c message s k t using report_one [of message s t] by auto
  have content: "audit_content m s = Inr t \<and> au_failures t = [] \<longleftrightarrow> au_failures s = []
      \<and> (audited_file m \<and> au_expanded s + tm_size m \<le> int MAX_EXPANDED_BYTES) \<and> t = content_effect m s" if "is_file m" for s t
    using step_content [OF that] unfolding step_clean_def cleanly_def by blast
  show ?thesis
  proof (cases "is_dir m")
    case True
    then show ?thesis unfolding step_clean_def cleanly_def rejects by auto
  next
    case False
    show ?thesis unfolding step_clean_def cleanly_def rejects if_not_P [OF False] using False
      by (cases "is_file m") (auto simp: content content_effect_def audited_file_def)
  qed
qed

lemma policy_none: "utf8_ok False (tm_name m) \<Longrightarrow> tm_name m \<noteq> [] \<Longrightarrow>
    policy_failure m = None \<longleftrightarrow> member_name_policy_failure (tm_name m) (is_dir m) = None"
  by (simp add: policy_failure_def encoded_name_def)

lemma step_member:
  "step_clean (audit_member py_repr pread m) (\<lambda>s. audited_member pread m \<and> member_fits m s) (member_effect m)"
proof -
  note chain = step_clean_bind [OF step_count [of py_repr m] step_clean_bind [OF step_kind [of m]
    step_clean_bind [OF step_policy [of m] step_clean_bind [OF step_root [of m]
    step_clean_bind [OF step_path [of pread m] step_rest [of m]]]]]]
  have fields: "au_files (count_effect m s) = au_files s" "au_directories (count_effect m s) = au_directories s"
    "au_root_name (kind_effect m (count_effect m s)) = au_root_name s"
    "au_multiple_roots (kind_effect m (count_effect m s)) = au_multiple_roots s"
    "au_kinds (root_effect m (kind_effect m (count_effect m s))) = au_kinds s"
    "au_expanded (path_effect m (root_effect m (kind_effect m (count_effect m s)))) = au_expanded s" for s :: audit_state
    by (simp_all add: count_effect_def kind_effect_def root_effect_def path_effect_def)
  show ?thesis
  proof (rule step_clean_cong [OF chain])
    show "audit_member py_repr pread m = (\<lambda>s. bindE (count_member py_repr m s) (\<lambda>s. bindE (count_kind m s) (\<lambda>s.
      bindE (case policy_failure m of None \<Rightarrow> Inr s | Some message \<Rightarrow> report [(True, message @ '': '' @ tm_name m)] s) (\<lambda>s.
      bindE (check_root m s) (\<lambda>s. bindE (check_path pread m s) (\<lambda>s.
       if startswith (tm_name m) ''/'' \<or> ''..'' \<in> set (member_path m) then
         report [(True, ''unsafe archive path: '' @ tm_name m)] s
       else if forbidden_namespace_path (member_path m) then
         report [(True, ''forbidden archive namespace: '' @ tm_name m)] s
       else if is_link m then report [(True, ''archive link is forbidden: '' @ tm_name m)] s
       else if is_dir m then Inr s
       else if \<not> is_file m then report [(True, ''unsupported archive member type: '' @ tm_name m)] s
       else audit_content m s))))))"
      by (simp only: fun_eq_iff audit_member_def Let_def) simp
  next
    fix s :: audit_state
    show "member_effect m s = (if is_dir m then path_effect m (root_effect m (kind_effect m (count_effect m s)))
        else content_effect m (path_effect m (root_effect m (kind_effect m (count_effect m s)))))"
      by (simp add: member_effect_def Let_def)
  qed (use policy_none [of m] in \<open>auto simp: fields audited_member_def audited_name_def member_fits_def\<close>)
qed

section \<open>The members\<close>

fun all_fit :: "audit_state \<Rightarrow> tar_member list \<Rightarrow> bool" where
  "all_fit s [] \<longleftrightarrow> True"
| "all_fit s (m # ms) \<longleftrightarrow> member_fits m s \<and> all_fit (member_effect m s) ms"

lemma members_clean:
  "foldE (\<lambda>s answer. bindE answer (\<lambda>m. audit_member py_repr pread m s)) s answers = Inr t \<and> au_failures t = [] \<longleftrightarrow>
   au_failures s = [] \<and> (\<exists>ms. answers = map Inr ms \<and> (\<forall>m \<in> set ms. audited_member pread m) \<and> all_fit s ms
     \<and> t = fold member_effect ms s)"
proof (induction answers arbitrary: s)
  case Nil
  then show ?case by auto
next
  case (Cons answer answers)
  show ?case
  proof (cases answer)
    case (Inl e)
    then show ?thesis by auto
  next
    case (Inr m)
    have turn: "audit_member py_repr pread m s = Inr u \<and> au_failures u = [] \<longleftrightarrow>
        au_failures s = [] \<and> (audited_member pread m \<and> member_fits m s) \<and> u = member_effect m s" for u
      using step_member [of py_repr pread m] unfolding step_clean_def cleanly_def by blast
    have "foldE (\<lambda>s answer. bindE answer (\<lambda>m. audit_member py_repr pread m s)) s (answer # answers) = Inr t \<and> au_failures t = []
      \<longleftrightarrow> (\<exists>u. audit_member py_repr pread m s = Inr u \<and> (foldE (\<lambda>s answer. bindE answer (\<lambda>m. audit_member py_repr pread m s)) u answers
         = Inr t \<and> au_failures t = []))"
      by (auto simp: Inr bindE_eq_Inr)
    also have "\<dots> \<longleftrightarrow> (\<exists>u. (audit_member py_repr pread m s = Inr u \<and> au_failures u = []) \<and>
        (\<exists>ms. answers = map Inr ms \<and> (\<forall>m \<in> set ms. audited_member pread m) \<and> all_fit u ms \<and> t = fold member_effect ms u))"
      unfolding Cons.IH by blast
    also have "\<dots> \<longleftrightarrow> au_failures s = [] \<and> (\<exists>ms. answer # answers = map Inr ms \<and> (\<forall>m \<in> set ms. audited_member pread m)
        \<and> all_fit s ms \<and> t = fold member_effect ms s)"
      unfolding turn Inr by (auto simp: Cons_eq_map_conv)
    finally show ?thesis .
  qed
qed

definition kinds_of_members :: "tar_member list \<Rightarrow> kinds" where
  "kinds_of_members ms = map (\<lambda>m. (member_path m, [kind_of m])) ms"

definition single_root :: "tar_member list \<Rightarrow> bool" where
  "single_root ms \<longleftrightarrow> (\<forall>m \<in> set ms. hd (member_path m) = hd (member_path (hd ms)))"

definition members_end :: "tar_member list \<Rightarrow> int" where
  "members_end ms = foldl max 0 (map member_end ms)"

definition names_size :: "tar_member list \<Rightarrow> nat" where
  "names_size ms = sum_list (map (\<lambda>m. length (encode_replace (tm_name m))) ms)"

definition contents_size :: "tar_member list \<Rightarrow> int" where
  "contents_size ms = sum_list (map tm_size (filter (\<lambda>m. \<not> is_dir m) ms))"

definition of_kind :: "member_kind \<Rightarrow> tar_member list \<Rightarrow> nat" where
  "of_kind k ms = length (filter (\<lambda>m. kind_of m = k) ms)"

definition members_limited :: "tar_member list \<Rightarrow> bool" where
  "members_limited ms \<longleftrightarrow> length ms \<le> MAX_MEMBERS \<and> names_size ms \<le> MAX_RETAINED_NAME_BYTES
     \<and> of_kind File_kind ms \<le> MAX_ARCHIVE_FILES \<and> of_kind Directory_kind ms \<le> MAX_ARCHIVE_DIRECTORIES
     \<and> contents_size ms \<le> int MAX_EXPANDED_BYTES"

abbreviation members_state :: "tar_member list \<Rightarrow> audit_state" where
  "members_state ms \<equiv> fold member_effect ms audit_init"

lemma member_effect_fields:
  "au_failures (member_effect m s) = au_failures s"
  "au_member_count (member_effect m s) = au_member_count s + 1"
  "au_archive_end (member_effect m s) = max (au_archive_end s) (member_end m)"
  "au_sequence (member_effect m s) = au_sequence s @ [member_path m]"
  "au_retained_name_bytes (member_effect m s) = au_retained_name_bytes s + length (encode_replace (tm_name m))"
  "au_files (member_effect m s) = au_files s + (if kind_of m = File_kind then 1 else 0)"
  "au_directories (member_effect m s) = au_directories s + (if kind_of m = Directory_kind then 1 else 0)"
  "au_multiple_roots (member_effect m s) = au_multiple_roots s"
  "au_root_name (member_effect m s) = (if au_root_name s = None then Some (hd (member_path m)) else au_root_name s)"
  "au_expanded (member_effect m s) = (if is_dir m then au_expanded s else au_expanded s + tm_size m)"
  "au_kinds (member_effect m s) = add_kind (member_path m) (kind_of m) (au_kinds s)"
  by (simp_all add: member_effect_def count_effect_def kind_effect_def root_effect_def path_effect_def content_effect_def Let_def)

lemma add_kind_keys: "set (map fst (add_kind p k ks)) = insert p (set (map fst ks))"
  by (induction p k ks rule: add_kind.induct) auto

lemma add_kind_fresh: "p \<notin> set (map fst ks) \<Longrightarrow> add_kind p k ks = ks @ [(p, [k])]"
  by (induction ks) auto

lemma members_state_fields:
  "au_failures (members_state ms) = []"
  "au_member_count (members_state ms) = length ms"
  "au_archive_end (members_state ms) = members_end ms"
  "au_sequence (members_state ms) = map member_path ms"
  "au_retained_name_bytes (members_state ms) = names_size ms"
  "au_files (members_state ms) = of_kind File_kind ms"
  "au_directories (members_state ms) = of_kind Directory_kind ms"
  "au_multiple_roots (members_state ms) = False"
  "au_root_name (members_state ms) = (if ms = [] then None else Some (hd (member_path (hd ms))))"
  "au_expanded (members_state ms) = contents_size ms"
  "set (map fst (au_kinds (members_state ms))) = set (map member_path ms)"
  by (induction ms rule: rev_induct)
    (auto simp: audit_init_def members_end_def names_size_def of_kind_def contents_size_def member_effect_fields add_kind_keys [simplified])

lemma members_state_kinds: "distinct (map member_path ms) \<Longrightarrow> au_kinds (members_state ms) = kinds_of_members ms"
proof (induction ms rule: rev_induct)
  case (snoc m ms)
  then have "member_path m \<notin> set (map fst (au_kinds (members_state ms)))" unfolding members_state_fields by auto
  then have "add_kind (member_path m) (kind_of m) (au_kinds (members_state ms)) = au_kinds (members_state ms) @ [(member_path m, [kind_of m])]"
    by (rule add_kind_fresh)
  then show ?case using snoc by (simp add: member_effect_fields kinds_of_members_def)
qed (simp add: audit_init_def kinds_of_members_def)

lemma all_fit_snoc: "all_fit s (ms @ [m]) \<longleftrightarrow> all_fit s ms \<and> member_fits m (fold member_effect ms s)"
  by (induction ms arbitrary: s) auto

lemma all_fit_iff:
  "(\<forall>m \<in> set ms. is_dir m \<or> 0 \<le> tm_size m) \<Longrightarrow>
   all_fit audit_init ms \<longleftrightarrow> members_limited ms \<and> distinct (map member_path ms) \<and> single_root ms"
proof (induction ms rule: rev_induct)
  case Nil
  then show ?case
    by (simp add: members_limited_def single_root_def names_size_def of_kind_def contents_size_def)
next
  case (snoc m ms)
  have size: "is_dir m \<or> 0 \<le> tm_size m" using snoc.prems by simp
  have fits: "member_fits m (members_state ms) \<longleftrightarrow> length ms < MAX_MEMBERS
      \<and> names_size ms + length (encode_replace (tm_name m)) \<le> MAX_RETAINED_NAME_BYTES
      \<and> (kind_of m = File_kind \<longrightarrow> of_kind File_kind ms < MAX_ARCHIVE_FILES)
      \<and> (kind_of m = Directory_kind \<longrightarrow> of_kind Directory_kind ms < MAX_ARCHIVE_DIRECTORIES)
      \<and> (ms \<noteq> [] \<longrightarrow> hd (member_path m) = hd (member_path (hd ms)))
      \<and> member_path m \<notin> set (map member_path ms)
      \<and> (is_dir m \<or> contents_size ms + tm_size m \<le> int MAX_EXPANDED_BYTES)"
    unfolding member_fits_def members_state_fields by auto
  have limited: "members_limited (ms @ [m]) \<longleftrightarrow> length ms + 1 \<le> MAX_MEMBERS
      \<and> names_size ms + length (encode_replace (tm_name m)) \<le> MAX_RETAINED_NAME_BYTES
      \<and> of_kind File_kind ms + (if kind_of m = File_kind then 1 else 0) \<le> MAX_ARCHIVE_FILES
      \<and> of_kind Directory_kind ms + (if kind_of m = Directory_kind then 1 else 0) \<le> MAX_ARCHIVE_DIRECTORIES
      \<and> contents_size ms + (if is_dir m then 0 else tm_size m) \<le> int MAX_EXPANDED_BYTES"
    by (simp add: members_limited_def names_size_def of_kind_def contents_size_def)
  have root: "single_root (ms @ [m]) \<longleftrightarrow> single_root ms \<and> (ms \<noteq> [] \<longrightarrow> hd (member_path m) = hd (member_path (hd ms)))"
    by (cases ms) (auto simp: single_root_def)
  have grow: "members_limited (ms @ [m]) \<longleftrightarrow> members_limited ms \<and> length ms < MAX_MEMBERS
      \<and> names_size ms + length (encode_replace (tm_name m)) \<le> MAX_RETAINED_NAME_BYTES
      \<and> (kind_of m = File_kind \<longrightarrow> of_kind File_kind ms < MAX_ARCHIVE_FILES)
      \<and> (kind_of m = Directory_kind \<longrightarrow> of_kind Directory_kind ms < MAX_ARCHIVE_DIRECTORIES)
      \<and> (is_dir m \<or> contents_size ms + tm_size m \<le> int MAX_EXPANDED_BYTES)"
    unfolding limited members_limited_def [of ms] using size by (simp split: if_split) linarith
  have all: "all_fit audit_init ms \<longleftrightarrow> members_limited ms \<and> distinct (map member_path ms) \<and> single_root ms"
    using snoc by simp
  have path: "distinct (map member_path (ms @ [m])) \<longleftrightarrow> distinct (map member_path ms) \<and> member_path m \<notin> set (map member_path ms)"
    by auto
  show ?case unfolding all_fit_snoc fits grow root path all by blast
qed

section \<open>The whole archive\<close>

lemma directory_key: "holds_directory ks p \<Longrightarrow> p \<in> set (map fst ks)"
  by (cases "map_of ks p") (auto simp: holds_directory_def kinds_of_def intro: rev_image_eqI dest: map_of_SomeD)

lemma checks_clean:
  "(\<exists>fs fs'. v = Inr fs \<and> fail_each collisions fs = Inr fs' \<and> fail_each layouts fs' = Inr [] \<and> q) \<longleftrightarrow>
     v = Inr [] \<and> (\<forall>(c, m) \<in> set collisions. \<not> c) \<and> (\<forall>(c, m) \<in> set layouts. \<not> c) \<and> q"
  by (auto simp: fail_each_clean)

text \<open>No file has a member below it: every ancestor that is a member is a directory.\<close>

lemma collisions_clean:
  assumes topology: "builder_topology (map member_path ms) (kinds_of_members ms)"
    and distinct: "distinct (map member_path ms)"
  shows "\<forall>(c, message) \<in> set (collision_checks (kinds_of_members ms)). \<not> c"
proof -
  let ?ks = "kinds_of_members ms"
  have keys: "map fst ?ks = map member_path ms" by (simp add: kinds_of_members_def comp_def)
  have single: "ks = [Directory_kind]" if "(p, ks) \<in> set ?ks" "holds_directory ?ks p" for p ks
  proof -
    have "map_of ?ks p = Some ks" using that(1) distinct keys by (intro map_of_is_SomeI) simp_all
    then show ?thesis using that by (auto simp: holds_directory_def kinds_of_def kinds_of_members_def)
  qed
  have no_root: "map_of ?ks q = None" if "length q = 1" for q
    using topology that keys unfolding builder_topology_def map_of_eq_None_iff by (metis image_set)
  have dir: "holds_directory ?ks (take i p)" if "p \<in> set (map fst ?ks)" "2 \<le> i" "i < length p" for i p
    using that
  proof (induction "length p - i" arbitrary: p)
    case (Suc d)
    have parent: "holds_directory ?ks (butlast p)"
      using topology Suc.prems by (auto simp: builder_topology_def)
    show ?case
    proof (cases "i = length p - 1")
      case True
      then show ?thesis using parent by (simp add: butlast_conv_take)
    next
      case False
      have "butlast p \<in> set (map fst ?ks)"
        using parent by (rule directory_key)
      moreover have "d = length (butlast p) - i" "i < length (butlast p)" using Suc.hyps(2) Suc.prems False by auto
      ultimately have "holds_directory ?ks (take i (butlast p))" using Suc.hyps(1) Suc.prems(2) by blast
      then show ?thesis using Suc.prems(3) by (simp add: butlast_conv_take)
    qed
  qed simp
  have no_file: "File_kind \<notin> set (kinds_of ?ks (take i p))" if "(p, ks) \<in> set ?ks" "i \<in> set [1 ..< length p]" for p ks i
  proof (cases "i = 1")
    case True
    then show ?thesis using no_root [of "take i p"] that by (simp add: kinds_of_def)
  next
    case False
    then have "holds_directory ?ks (take i p)" using dir [of p i] that by force
    then obtain ks' where ks': "map_of ?ks (take i p) = Some ks'"
      by (cases "map_of ?ks (take i p)") (auto simp: holds_directory_def kinds_of_def)
    then have "ks' = [Directory_kind]" using single [OF map_of_SomeD [OF ks']] \<open>holds_directory ?ks (take i p)\<close> by blast
    then show ?thesis using ks' by (simp add: kinds_of_def)
  qed
  show ?thesis
    unfolding collision_checks_def using no_file
    by (fastforce simp: kinds_of_members_def)
qed

definition audited_members :: "positioned \<Rightarrow> tar_member list \<Rightarrow> bool" where
  "audited_members pread ms \<longleftrightarrow>
     ms \<noteq> [] \<and> (\<forall>m \<in> set ms. audited_member pread m) \<and> members_limited ms
     \<and> distinct (map member_path ms) \<and> single_root ms
     \<and> builder_topology (map member_path ms) (kinds_of_members ms)"

definition readings_agree :: "gzip_stream_info \<Rightarrow> raw_tar_layout \<Rightarrow> tar_member list \<Rightarrow> bool" where
  "readings_agree info layout ms \<longleftrightarrow>
     gi_expanded_size info = canonical_tar_stream_size (nat (members_end ms))
     \<and> gi_last_nonzero_offset info < members_end ms
     \<and> members_end ms = int (rt_archive_end layout) \<and> length ms = rt_member_count layout
     \<and> of_kind File_kind ms = rt_file_count layout \<and> of_kind Directory_kind ms = rt_directory_count layout"

lemma audited_sizes: "audited_member pread m \<Longrightarrow> is_dir m \<or> 0 \<le> tm_size m"
  by (auto simp: audited_member_def audited_file_def)

lemma audit_archive_iff:
  "audit_archive py_repr pread answers info layout = Inr ([], files) \<longleftrightarrow>
     (\<exists>ms. answers = map Inr ms \<and> audited_members pread ms \<and> readings_agree info layout ms \<and> files = of_kind File_kind ms)"
proof -
  let ?root = "\<lambda>s. report [(au_root_name s = None, ''source bundle must contain exactly one root directory'')] s"
  have "audit_archive py_repr pread answers info layout = Inr ([], files) \<longleftrightarrow>
      (\<exists>s u. audit_members py_repr pread answers = Inr s \<and> ?root s = Inr u
         \<and> (\<exists>fs fs'. validate_builder_topology (au_sequence u) (au_kinds u) (au_failures u) = Inr fs
              \<and> fail_each (collision_checks (au_kinds u)) fs = Inr fs'
              \<and> fail_each (layout_checks info layout u) fs' = Inr [] \<and> files = au_files u))"
    unfolding audit_archive_def by (simp only: bindE_eq_Inr prod.inject sum.inject) blast
  also have "\<dots> \<longleftrightarrow> (\<exists>s u. audit_members py_repr pread answers = Inr s \<and> ?root s = Inr u
         \<and> validate_builder_topology (au_sequence u) (au_kinds u) (au_failures u) = Inr []
         \<and> (\<forall>(c, m) \<in> set (collision_checks (au_kinds u)). \<not> c)
         \<and> (\<forall>(c, m) \<in> set (layout_checks info layout u). \<not> c) \<and> files = au_files u)"
    unfolding checks_clean ..
  also have "\<dots> \<longleftrightarrow> (\<exists>s u. audit_members py_repr pread answers = Inr s \<and> (?root s = Inr u \<and> au_failures u = [])
         \<and> validate_builder_topology (au_sequence u) (au_kinds u) (au_failures u) = Inr []
         \<and> (\<forall>(c, m) \<in> set (collision_checks (au_kinds u)). \<not> c)
         \<and> (\<forall>(c, m) \<in> set (layout_checks info layout u). \<not> c) \<and> files = au_files u)"
    using topology_keeps by blast
  also have "\<dots> \<longleftrightarrow> (\<exists>s. (audit_members py_repr pread answers = Inr s \<and> au_failures s = []) \<and> au_root_name s \<noteq> None
         \<and> validate_builder_topology (au_sequence s) (au_kinds s) [] = Inr []
         \<and> (\<forall>(c, m) \<in> set (collision_checks (au_kinds s)). \<not> c)
         \<and> (\<forall>(c, m) \<in> set (layout_checks info layout s). \<not> c) \<and> files = au_files s)"
    unfolding report_clean by auto
  also have "\<dots> \<longleftrightarrow> (\<exists>ms. (answers = map Inr ms \<and> (\<forall>m \<in> set ms. audited_member pread m) \<and> all_fit audit_init ms) \<and> ms \<noteq> []
         \<and> validate_builder_topology (map member_path ms) (au_kinds (members_state ms)) [] = Inr []
         \<and> (\<forall>(c, m) \<in> set (collision_checks (au_kinds (members_state ms))). \<not> c)
         \<and> readings_agree info layout ms \<and> files = of_kind File_kind ms)"
  proof -
    have layout: "(\<forall>(c, m) \<in> set (layout_checks info layout (members_state ms)). \<not> c) \<longleftrightarrow> readings_agree info layout ms" for ms
      unfolding layout_checks_def readings_agree_def members_state_fields by (auto simp: not_le)
    have init: "au_failures audit_init = []" by (simp add: audit_init_def)
    have root: "(if ms = [] then None else Some (hd (member_path (hd ms)))) \<noteq> None \<longleftrightarrow> ms \<noteq> []" for ms by simp
    have states: "(\<exists>s. (audit_members py_repr pread answers = Inr s \<and> au_failures s = []) \<and> q s) \<longleftrightarrow>
        (\<exists>ms. (answers = map Inr ms \<and> (\<forall>m \<in> set ms. audited_member pread m) \<and> all_fit audit_init ms) \<and> q (members_state ms))" for q
      unfolding audit_members_def members_clean using init by blast
    show ?thesis unfolding states layout members_state_fields root ..
  qed
  also have "\<dots> \<longleftrightarrow> (\<exists>ms. answers = map Inr ms \<and> audited_members pread ms \<and> readings_agree info layout ms \<and> files = of_kind File_kind ms)"
  proof (intro ex_cong1)
    fix ms
    show "((answers = map Inr ms \<and> (\<forall>m \<in> set ms. audited_member pread m) \<and> all_fit audit_init ms) \<and> ms \<noteq> []
         \<and> validate_builder_topology (map member_path ms) (au_kinds (members_state ms)) [] = Inr []
         \<and> (\<forall>(c, m) \<in> set (collision_checks (au_kinds (members_state ms))). \<not> c)
         \<and> readings_agree info layout ms \<and> files = of_kind File_kind ms) \<longleftrightarrow>
       (answers = map Inr ms \<and> audited_members pread ms \<and> readings_agree info layout ms \<and> files = of_kind File_kind ms)"
    proof (cases "(\<forall>m \<in> set ms. audited_member pread m) \<and> distinct (map member_path ms)")
      case True
      then have fit: "all_fit audit_init ms \<longleftrightarrow> members_limited ms \<and> single_root ms"
        using all_fit_iff [of ms] audited_sizes by blast
      have kinds: "au_kinds (members_state ms) = kinds_of_members ms" using True members_state_kinds by blast
      have "distinct (map fst (kinds_of_members ms))" using True by (simp add: kinds_of_members_def comp_def)
      from topology_clean [OF this] show ?thesis
        unfolding fit kinds audited_members_def using True collisions_clean [of ms] by blast
    next
      case False
      then show ?thesis using all_fit_iff [of ms] audited_sizes unfolding audited_members_def by blast
    qed
  qed
  finally show ?thesis .
qed

end
