(* ===== verification/Bundle_Open_Props.thy ===== *)
theory Bundle_Open_Props
  imports Bundle_Open Bundle_Audit_Props
begin

text \<open>
  The audit as a whole: which tar streams the raw scan accepts, what an archive that passes is, and
  which steps a call that returns has been through.
\<close>

section \<open>The raw scan on a file\<close>

text \<open>
  The model of \<open>os.pread\<close> on a file, with a schedule of how much each call may give: at least one
  byte. \<open>tar_pread\<close> is the file that gives all that is asked for.
\<close>

definition cut_pread :: "(nat \<Rightarrow> nat \<Rightarrow> nat) \<Rightarrow> bytes \<Rightarrow> positioned" where
  "cut_pread grant raw n offset = Inr (take (min n (max 1 (grant n offset))) (drop offset raw))"

interpretation cut_file: positioned_source "cut_pread grant raw" raw for grant raw
proof
  fix n offset :: nat
  assume "0 < n"
  then show "\<exists>k. cut_pread grant raw n offset = Inr (take k (drop offset raw)) \<and> k \<le> n \<and> (k = 0 \<longrightarrow> length raw \<le> offset)"
    by (intro exI [of _ "min n (max 1 (grant n offset))"]) (auto simp: cut_pread_def)
qed

interpretation tar_file: positioned_source "tar_pread raw" raw for raw
  by unfold_locales (auto simp: tar_pread_def)

text \<open>A tar stream: entries, then zeros up to the size of the records, all within the limits.\<close>

definition tar_stream :: "tar_entry list \<Rightarrow> bytes \<Rightarrow> bool" where
  "tar_stream es raw \<longleftrightarrow>
     raw = stream_bytes es @ zeros (length raw - length (stream_bytes es))
     \<and> length raw = canonical_tar_stream_size (length (stream_bytes es))
     \<and> entries_ok False es
     \<and> sum_list (map payload_size es) \<le> MAX_EXPANDED_BYTES
     \<and> members_in (\<lambda>_. True) es \<le> MAX_MEMBERS
     \<and> members_in file_types es \<le> MAX_ARCHIVE_FILES
     \<and> members_in directory_type es \<le> MAX_ARCHIVE_DIRECTORIES"

definition tar_layout :: "tar_entry list \<Rightarrow> raw_tar_layout" where
  "tar_layout es = \<lparr>rt_archive_end = length (stream_bytes es), rt_member_count = members_in (\<lambda>_. True) es,
                    rt_file_count = members_in file_types es, rt_directory_count = members_in directory_type es\<rparr>"

lemma tar_stream_after:
  "drop (rs_offset raw_scan_init) raw = stream_bytes es @ zeros (length raw - rs_offset (scan_after raw_scan_init es))
      \<and> length raw = canonical_tar_stream_size (rs_offset (scan_after raw_scan_init es))
      \<and> entries_ok (rs_pending_pax raw_scan_init) es \<and> within_limits (scan_after raw_scan_init es)
      \<and> layout = layout_of (scan_after raw_scan_init es)
   \<longleftrightarrow> tar_stream es raw \<and> layout = tar_layout es"
  by (auto simp: tar_stream_def tar_layout_def layout_of_def scan_after_def within_limits_def raw_scan_init_def)

lemma init_limits: "within_limits raw_scan_init" "rs_offset raw_scan_init \<le> n"
  by (simp_all add: within_limits_def raw_scan_init_def)

lemma tar_pread_scan:
  "scan_raw_tar_stream (tar_pread raw) (length raw) = Inr layout \<longleftrightarrow> (\<exists>es. tar_stream es raw \<and> layout = tar_layout es)"
  unfolding scan_raw_tar_stream_def tar_file.scan_loop_iff [OF init_limits] tar_stream_after ..

lemma cut_pread_scan:
  "scan_raw_tar_stream (cut_pread grant raw) (length raw) = Inr layout \<longleftrightarrow> (\<exists>es. tar_stream es raw \<and> layout = tar_layout es)"
  unfolding scan_raw_tar_stream_def cut_file.scan_loop_iff [OF init_limits] tar_stream_after ..

section \<open>A bundle that passes\<close>

text \<open>
  The tar stream of the bundle is well formed, \<open>tarfile\<close> finds in it the members that the raw scan
  found, up to the same place, and the members have been through every check.
\<close>

definition audited_archive :: "'z bundle_env \<Rightarrow> bytes \<Rightarrow> tar_member list \<Rightarrow> bool" where
  "audited_archive env raw ms \<longleftrightarrow>
     length raw \<le> MAX_TAR_STREAM_BYTES
     \<and> be_tarfile env raw = map Inr ms \<and> audited_members (tar_pread raw) ms
     \<and> (\<exists>es. tar_stream es raw \<and> members_end ms = int (length (stream_bytes es))
          \<and> length ms = members_in (\<lambda>_. True) es
          \<and> of_kind File_kind ms = members_in file_types es
          \<and> of_kind Directory_kind ms = members_in directory_type es)"

lemma last_nonzero_stream: "last_nonzero_of (w @ zeros k) < int (length w)"
proof -
  have "rstrip_nul (zeros k) = []" by (simp add: rstrip_nul_Nil zeros_def)
  then have "rstrip_nul (w @ zeros k) = rstrip_nul w" by (simp add: rstrip_nul_append)
  moreover have "length (rstrip_nul w) \<le> length w"
    by (simp add: rstrip_nul_def) (metis length_dropWhile_le length_rev)
  ultimately show ?thesis by (simp add: last_nonzero_of_def)
qed

lemma checks_of_raw:
  assumes "gi_expanded_size info = length raw" "gi_last_nonzero_offset info = last_nonzero_of raw"
    and "length raw \<le> MAX_TAR_STREAM_BYTES"
  shows "bindE (scan_raw_tar_stream (tar_pread raw) (gi_expanded_size info)) (\<lambda>layout.
            audit_archive (be_repr env) (tar_pread raw) (be_tarfile env raw) info layout) = Inr ([], files)
         \<longleftrightarrow> (\<exists>ms. audited_archive env raw ms \<and> files = of_kind File_kind ms)"
proof -
  have agree: "readings_agree info (tar_layout es) ms \<longleftrightarrow> members_end ms = int (length (stream_bytes es))
          \<and> length ms = members_in (\<lambda>_. True) es \<and> of_kind File_kind ms = members_in file_types es
          \<and> of_kind Directory_kind ms = members_in directory_type es" if "tar_stream es raw" for es ms
  proof -
    have raw: "raw = stream_bytes es @ zeros (length raw - length (stream_bytes es))"
        "length raw = canonical_tar_stream_size (length (stream_bytes es))"
      using that unfolding tar_stream_def by blast+
    have "last_nonzero_of raw < int (length (stream_bytes es))"
      by (subst raw(1)) (rule last_nonzero_stream)
    then show ?thesis using raw(2) assms(1,2) by (auto simp: readings_agree_def tar_layout_def)
  qed
  show ?thesis
    unfolding bindE_eq_Inr assms(1) tar_pread_scan audit_archive_iff audited_archive_def
    using agree assms(3) by blast
qed

lemma audit_stream_clean:
  assumes "audit_stream env rd p = (Inr ([], files), p')"
  shows "\<exists>raw ms. audited_archive env raw ms \<and> files = of_kind File_kind ms"
proof -
  obtain info sink p1 where inspect: "inspect_gzip_stream rd (be_zlib env) append_put (Some []) p = (Inr (info, sink), p1)"
    and rest: "(let tar_stream = (case sink of Some w \<Rightarrow> w | None \<Rightarrow> []) in
        bindE (scan_raw_tar_stream (tar_pread tar_stream) (gi_expanded_size info)) (\<lambda>layout.
            audit_archive (be_repr env) (tar_pread tar_stream) (be_tarfile env tar_stream) info layout)) = Inr ([], files)"
    using assms by (auto simp: audit_stream_def bindP_def Let_def split: prod.splits sum.splits)
  obtain raw where raw: "sink = Some raw" "gi_expanded_size info = length raw" "length raw \<le> MAX_TAR_STREAM_BYTES"
      "gi_last_nonzero_offset info = last_nonzero_of raw"
    using inspect_gzip_Inr [OF inspect] by blast
  show ?thesis
    using rest checks_of_raw [OF raw(2,4,3), of env files] unfolding raw(1) Let_def option.case by blast
qed

lemma conclude_Inr: "conclude r = Inr files \<longleftrightarrow> r = ([], files) \<and> 0 < files"
  by (cases r) (auto simp: conclude_def res_iff fail_if_def dest: append_failure_nonempty split: if_splits)

text \<open>What a call of the audit that returns has done.\<close>

lemma value_errorI_iff [io_iff]: "value_errorI m e w = (Inr y, w') \<longleftrightarrow> m w = (Inr y, w')"
  by (auto simp: value_errorI_def split: prod.splits sum.splits)

lemma audit_opened_iff:
  "audit_opened env later bundle opened w = (Inr r, w') \<longleftrightarrow>
     (\<exists>s w1 w2. os_fstat (ob_stream opened) w = (Inr s, w1) \<and> st_type s = Regular \<and> 0 < st_size s
        \<and> st_size s \<le> MAX_BUNDLE_BYTES
        \<and> audit_stream env (bundle_reader (ob_stream opened)) w1 = (Inr r, w2)
        \<and> verify_opened_bundle later bundle opened w2 = (Inr (), w'))"
  unfolding audit_opened_def by (auto simp: io_iff not_less)

lemma audit_bundle_iff:
  "audit_bundle env before later bundle w = (Inr files, w') \<longleftrightarrow> 0 < files \<and>
     (\<exists>opened w1 w2. open_regular_bundle before bundle w = (Inr opened, w1)
        \<and> audit_opened env later bundle opened w1 = (Inr ([], files), w2)
        \<and> finallyI (os_close (ob_stream opened)) (os_close (ob_parent_descriptor opened)) w2 = (Inr (), w'))"
  unfolding audit_bundle_def managed_opened_bundle_def bindI_iff value_errorI_iff finallyI_iff
    liftI_iff conclude_Inr
  by blast

lemma audit_bundle_clean:
  assumes "audit_bundle env before later bundle w = (Inr files, w')"
  shows "0 < files \<and> (\<exists>raw ms. audited_archive env raw ms \<and> files = of_kind File_kind ms)"
proof -
  obtain opened :: opened_bundle and w1 w2 where "0 < files" and run: "audit_stream env (bundle_reader (ob_stream opened)) w1 = (Inr ([], files), w2)"
    using assms unfolding audit_bundle_iff audit_opened_iff by blast
  then show ?thesis using audit_stream_clean [OF run] by blast
qed

end
