(* ===== verification/Bundle_Leaks.thy ===== *)
theory Bundle_Leaks
  imports Bundle_Open_Props Pinned_Inputs_Props
begin

text \<open>
  The descriptors of the audit. When closing a directory of the walk fails the walk raises without
  closing the one below it: one descriptor stays open. Nothing else does.
\<close>

section \<open>At most one more\<close>

definition one_more :: "(nat \<times> nat) list \<Rightarrow> world \<Rightarrow> bool" where
  "one_more fds w' \<longleftrightarrow> w_fds w' = fds \<or> (\<exists>p. fst p \<notin> fst ` set fds \<and> w_fds w' = p # fds)"

text \<open>A script that returns with the descriptors it found, and may leave one more when it raises.\<close>

definition slips :: "'a io \<Rightarrow> bool" where
  "slips m \<longleftrightarrow> (\<forall>w. case m w of (Inl e, w') \<Rightarrow> one_more (w_fds w) w' | (Inr x, w') \<Rightarrow> w_fds w' = w_fds w)"

definition opens_or_slips :: "('a \<Rightarrow> nat) \<Rightarrow> 'a io \<Rightarrow> bool" where
  "opens_or_slips fd m \<longleftrightarrow> (\<forall>w. case m w of
      (Inl e, w') \<Rightarrow> one_more (w_fds w) w'
    | (Inr x, w') \<Rightarrow> fd x \<notin> fst ` set (w_fds w) \<and> (\<exists>ino. w_fds w' = (fd x, ino) # w_fds w))"

definition takes_or_slips :: "nat \<Rightarrow> ('a \<Rightarrow> nat) \<Rightarrow> 'a io \<Rightarrow> bool" where
  "takes_or_slips fd g m \<longleftrightarrow> (\<forall>w ino fds. w_fds w = (fd, ino) # fds \<longrightarrow> fd \<notin> fst ` set fds \<longrightarrow>
     (case m w of
        (Inl e, w') \<Rightarrow> one_more fds w'
      | (Inr x, w') \<Rightarrow> g x \<notin> fst ` set fds \<and> (\<exists>ino. w_fds w' = (g x, ino) # fds)))"

lemma one_more_same [simp]: "one_more (w_fds w) w"
  by (simp add: one_more_def)

lemma slipsI:
  assumes "\<And>w e w'. m w = (Inl e, w') \<Longrightarrow> one_more (w_fds w) w'"
    and "\<And>w x w'. m w = (Inr x, w') \<Longrightarrow> w_fds w' = w_fds w"
  shows "slips m"
  unfolding slips_def using assms by (simp split: prod.split sum.split)

lemma slips_errorD: "slips m \<Longrightarrow> m w = (Inl e, w') \<Longrightarrow> one_more (w_fds w) w'"
  unfolding slips_def by (drule spec [of _ w]) simp

lemma slipsD: "slips m \<Longrightarrow> m w = (Inr x, w') \<Longrightarrow> w_fds w' = w_fds w"
  unfolding slips_def by (drule spec [of _ w]) simp

lemma opens_or_slipsI:
  assumes "\<And>w e w'. m w = (Inl e, w') \<Longrightarrow> one_more (w_fds w) w'"
    and "\<And>w x w'. m w = (Inr x, w') \<Longrightarrow>
       fd x \<notin> fst ` set (w_fds w) \<and> (\<exists>ino. w_fds w' = (fd x, ino) # w_fds w)"
  shows "opens_or_slips fd m"
  unfolding opens_or_slips_def using assms by (simp split: prod.split sum.split)

lemma opens_or_slips_errorD: "opens_or_slips fd m \<Longrightarrow> m w = (Inl e, w') \<Longrightarrow> one_more (w_fds w) w'"
  unfolding opens_or_slips_def by (drule spec [of _ w]) simp

lemma opens_or_slipsD:
  "opens_or_slips fd m \<Longrightarrow> m w = (Inr x, w') \<Longrightarrow>
     fd x \<notin> fst ` set (w_fds w) \<and> (\<exists>ino. w_fds w' = (fd x, ino) # w_fds w)"
  unfolding opens_or_slips_def by (drule spec [of _ w]) simp

lemma takes_or_slipsI:
  assumes "\<And>w ino fds e w'. w_fds w = (fd, ino) # fds \<Longrightarrow> fd \<notin> fst ` set fds \<Longrightarrow> m w = (Inl e, w') \<Longrightarrow> one_more fds w'"
    and "\<And>w ino fds x w'. w_fds w = (fd, ino) # fds \<Longrightarrow> fd \<notin> fst ` set fds \<Longrightarrow> m w = (Inr x, w') \<Longrightarrow>
       g x \<notin> fst ` set fds \<and> (\<exists>ino. w_fds w' = (g x, ino) # fds)"
  shows "takes_or_slips fd g m"
  unfolding takes_or_slips_def
proof (intro allI impI)
  fix w :: world and ino fds assume fds: "w_fds w = (fd, ino) # fds" "fd \<notin> fst ` set fds"
  obtain r w' where r: "m w = (r, w')" by (cases "m w")
  show "case m w of (Inl e, w') \<Rightarrow> one_more fds w'
      | (Inr x, w') \<Rightarrow> g x \<notin> fst ` set fds \<and> (\<exists>ino. w_fds w' = (g x, ino) # fds)"
    using assms(1) [OF fds] assms(2) [OF fds] r by (cases r) auto
qed

lemma takes_or_slips_errorD:
  "takes_or_slips fd g m \<Longrightarrow> w_fds w = (fd, ino) # fds \<Longrightarrow> fd \<notin> fst ` set fds \<Longrightarrow> m w = (Inl e, w') \<Longrightarrow> one_more fds w'"
  unfolding takes_or_slips_def by (drule spec [of _ w], drule spec [of _ ino], drule spec [of _ fds]) simp

lemma takes_or_slipsD:
  "takes_or_slips fd g m \<Longrightarrow> w_fds w = (fd, ino) # fds \<Longrightarrow> fd \<notin> fst ` set fds \<Longrightarrow> m w = (Inr x, w') \<Longrightarrow>
     g x \<notin> fst ` set fds \<and> (\<exists>ino. w_fds w' = (g x, ino) # fds)"
  unfolding takes_or_slips_def by (drule spec [of _ w], drule spec [of _ ino], drule spec [of _ fds]) simp

section \<open>Rules\<close>

named_theorems slips_intro \<open>which scripts leave at most one descriptor more, and only when they raise\<close>

lemma slips_balanced: "balanced m \<Longrightarrow> slips m"
  by (rule slipsI) (auto dest: balancedD simp: one_more_def)

lemma slips_bindI [slips_intro]: "slips m \<Longrightarrow> (\<And>x. slips (f x)) \<Longrightarrow> slips (bindI m f)"
  by (rule slipsI) (unfold bindI_Inl_iff bindI_iff, metis slips_errorD slipsD, metis slipsD)

lemma slips_if [slips_intro]: "slips a \<Longrightarrow> slips b \<Longrightarrow> slips (if c then a else b)"
  by simp

lemma slips_value_errorI [slips_intro]: "slips m \<Longrightarrow> slips (value_errorI m e)"
  by (rule slipsI) (auto simp: value_errorI_def dest: slips_errorD slipsD split: prod.splits sum.splits if_splits)

lemma opens_or_slips_value_errorI: "opens_or_slips fd m \<Longrightarrow> opens_or_slips fd (value_errorI m e)"
  by (rule opens_or_slipsI)
    (auto simp: value_errorI_def dest: opens_or_slips_errorD opens_or_slipsD split: prod.splits sum.splits if_splits)

lemma opens_takes:
  assumes m: "opens fd m" and f: "\<And>x. takes_or_slips (fd x) g (f x)"
  shows "opens_or_slips g (bindI m f)"
proof (rule opens_or_slipsI)
  fix w e w' assume "bindI m f w = (Inl e, w')"
  thus "one_more (w_fds w) w'"
    unfolding bindI_Inl_iff
    using opens_errorD [OF m] opensD [OF m] takes_or_slips_errorD [OF f] by (metis one_more_def)
next
  fix w x w' assume "bindI m f w = (Inr x, w')"
  thus "g x \<notin> fst ` set (w_fds w) \<and> (\<exists>ino. w_fds w' = (g x, ino) # w_fds w)"
    unfolding bindI_iff using opensD [OF m] takes_or_slipsD [OF f] by metis
qed

lemma takes_bind:
  assumes m: "takes_or_slips fd g m" and f: "\<And>x. takes_or_slips (g x) h (f x)"
  shows "takes_or_slips fd h (bindI m f)"
proof (rule takes_or_slipsI)
  fix w ino fds e w' assume fds: "w_fds w = (fd, ino) # fds" "fd \<notin> fst ` set fds" and r: "bindI m f w = (Inl e, w')"
  then consider "m w = (Inl e, w')" | x w1 where "m w = (Inr x, w1)" "f x w1 = (Inl e, w')"
    unfolding bindI_Inl_iff by blast
  thus "one_more fds w'"
  proof cases
    case 1
    thus ?thesis by (rule takes_or_slips_errorD [OF m fds])
  next
    case 2
    thus ?thesis using takes_or_slipsD [OF m fds 2(1)] takes_or_slips_errorD [OF f] by blast
  qed
next
  fix w ino fds x w' assume fds: "w_fds w = (fd, ino) # fds" "fd \<notin> fst ` set fds" and r: "bindI m f w = (Inr x, w')"
  then obtain y w1 where 1: "m w = (Inr y, w1)" "f y w1 = (Inr x, w')"
    unfolding bindI_iff by blast
  obtain i where "g y \<notin> fst ` set fds" "w_fds w1 = (g y, i) # fds" using takes_or_slipsD [OF m fds 1(1)] by blast
  then show "h x \<notin> fst ` set fds \<and> (\<exists>ino. w_fds w' = (h x, ino) # fds)" using takes_or_slipsD [OF f _ _ 1(2)] by blast
qed

lemma owns_takes: "owns fd g m \<Longrightarrow> takes_or_slips fd g m"
  by (rule takes_or_slipsI) (unfold one_more_def, blast dest: owns_errorD, blast dest: ownsD)

lemma close_fds: "w_fds (snd (os_close fd w)) = filter (\<lambda>p. fst p \<noteq> fd) (w_fds w)"
  by (simp add: os_close_def syscall_def fail_def Let_def split: list.splits)

lemma close_absent:
  assumes "fd \<notin> fst ` set fds" "one_more fds w"
  shows "one_more fds (snd (os_close fd w))"
proof -
  have same: "filter (\<lambda>p. fst p \<noteq> fd) fds = fds" using assms(1) by (auto simp: filter_id_conv)
  from assms(2) consider "w_fds w = fds" | p where "fst p \<notin> fst ` set fds" "w_fds w = p # fds"
    unfolding one_more_def by blast
  then show ?thesis
  proof cases
    case (2 p)
    then show ?thesis by (cases p; cases "fst p = fd") (auto simp: one_more_def close_fds same)
  qed (simp add: one_more_def close_fds same)
qed

lemma close_below:
  assumes "fd \<notin> fst ` set fds" "one_more ((fd, ino) # fds) w"
  shows "one_more fds (snd (os_close fd w))"
proof -
  have "filter (\<lambda>p. fst p \<noteq> fd) fds = fds" using assms(1) by (auto simp: filter_id_conv)
  then show ?thesis using assms(2) by (auto simp: one_more_def close_fds)
qed

lemma finallyI_snd: "finallyI m c w = (r, w') \<Longrightarrow> \<exists>r1 w1. m w = (r1, w1) \<and> w' = snd (c w1)"
  by (auto simp: finallyI_def split: prod.splits sum.splits)

lemma slips_bracket:
  assumes opened: "opens_or_slips fd m" and body: "\<And>x. slips (body x)"
  shows "slips (bindI m (\<lambda>x. finallyI (body x) (os_close (fd x))))"
proof (rule slipsI)
  fix w e w' assume "bindI m (\<lambda>x. finallyI (body x) (os_close (fd x))) w = (Inl e, w')"
  then consider "m w = (Inl e, w')"
    | x w1 r w2 where "m w = (Inr x, w1)" "body x w1 = (r, w2)" "w' = snd (os_close (fd x) w2)"
    unfolding bindI_Inl_iff by (meson finallyI_snd)
  thus "one_more (w_fds w) w'"
  proof cases
    case 1
    thus ?thesis by (rule opens_or_slips_errorD [OF opened])
  next
    case (2 x w1 r w2)
    obtain ino where ino: "fd x \<notin> fst ` set (w_fds w)" "w_fds w1 = (fd x, ino) # w_fds w"
      using opens_or_slipsD [OF opened 2(1)] by blast
    have "one_more ((fd x, ino) # w_fds w) w2"
      using slips_errorD [OF body, of x w1] slipsD [OF body, of x w1] 2(2) ino(2)
      by (cases r) (auto simp: one_more_def)
    thus ?thesis unfolding 2(3) using ino(1) by (rule close_below [rotated])
  qed
next
  fix w y w' assume "bindI m (\<lambda>x. finallyI (body x) (os_close (fd x))) w = (Inr y, w')"
  then obtain x w1 w2 where 1: "m w = (Inr x, w1)" and 2: "body x w1 = (Inr y, w2)" and 3: "w' = snd (os_close (fd x) w2)"
    unfolding bindI_iff finallyI_iff by (metis snd_conv)
  show "w_fds w' = w_fds w"
    using opens_or_slipsD [OF opened 1] slipsD [OF body 2] unfolding 3 by (auto intro: close_opened)
qed

section \<open>The walk to the bundle\<close>

lemma takes_open_child: "takes_or_slips fd fst (open_child fd component)"
proof (rule takes_or_slipsI)
  fix w :: world and ino fds e w'
  assume fds: "w_fds w = (fd, ino) # fds" "fd \<notin> fst ` set fds" and r: "open_child fd component w = (Inl e, w')"
  let ?check = "\<lambda>c. on_errorI (bindI (os_fstat c) (\<lambda>s. liftI (directory_fingerprint s))) (os_close c)"
  let ?rest = "\<lambda>c. bindI (?check c) (\<lambda>fingerprint. bindI (os_close fd) (\<lambda>_. returnI (c, fingerprint)))"
  obtain e1 w1 where 1: "bindI (os_open_dir_at component fd) ?rest w = (Inl e1, w1)" and w': "w' = snd (os_close fd w1)"
    using on_errorI_Inl [OF r [unfolded open_child_def]] by blast
  have checked: "balanced (bindI (os_fstat c) (\<lambda>s. liftI (directory_fingerprint s)))" for c by (intro balanced_intro)
  have "one_more (w_fds w) w1 \<or> one_more fds w1"
  proof (cases "os_open_dir_at component fd w")
    case (Pair r0 w0)
    show ?thesis
    proof (cases r0)
      case (Inl e0)
      then show ?thesis using 1 Pair opens_errorD [OF opens_syscalls(2)] by (auto simp: bindI_def one_more_def)
    next
      case (Inr c)
      obtain i where i: "c \<notin> fst ` set (w_fds w)" "w_fds w0 = (c, i) # w_fds w"
        using opensD [OF opens_syscalls(2)] Pair Inr by blast
      from 1 Pair Inr consider "?check c w0 = (Inl e1, w1)"
        | f w2 where "?check c w0 = (Inr f, w2)" "os_close fd w2 = (Inl e1, w1)"
        by (fastforce simp: bindI_Inl_iff returnI_def)
      then show ?thesis
      proof cases
        case 1
        then obtain e2 w2 where "bindI (os_fstat c) (\<lambda>s. liftI (directory_fingerprint s)) w0 = (Inl e2, w2)"
            and w1: "w1 = snd (os_close c w2)"
          using on_errorI_Inl by blast
        then have "w_fds w2 = (c, i) # w_fds w" using balancedD [OF checked] i by metis
        then have "w_fds w1 = w_fds w" unfolding w1 using i(1) by (intro close_opened)
        then show ?thesis by (simp add: one_more_def)
      next
        case (2 f w2)
        have "w_fds w2 = (c, i) # w_fds w"
          using balancedD [OF checked 2(1) [unfolded on_errorI_iff]] i by simp
        moreover have "w_fds w1 = filter (\<lambda>p. fst p \<noteq> fd) (w_fds w2)"
          using 2(2) by (auto simp: os_close_def syscall_def fail_def Let_def split: list.splits if_splits)
        ultimately have "w_fds w1 = (c, i) # fds" using i fds by (auto simp: filter_id_conv)
        then show ?thesis using i fds by (auto simp: one_more_def)
      qed
    qed
  qed
  then show "one_more fds w'"
  proof
    assume "one_more (w_fds w) w1"
    then show ?thesis unfolding w' fds(1) by (rule close_below [OF fds(2)])
  next
    assume l: "one_more fds w1"
    show ?thesis unfolding w' by (rule close_absent [OF fds(2) l])
  qed
next
  fix w :: world and ino fds x w'
  assume fds: "w_fds w = (fd, ino) # fds" "fd \<notin> fst ` set fds" and r: "open_child fd component w = (Inr x, w')"
  then obtain c f w1 w2 w3 where 1: "os_open_dir_at component fd w = (Inr c, w1)" and
      2: "bindI (os_fstat c) (\<lambda>s. liftI (directory_fingerprint s)) w1 = (Inr f, w2)" and
      3: "os_close fd w2 = (Inr (), w')" and x: "x = (c, f)"
    by (auto simp: open_child_def io_iff)
  obtain i where i: "c \<notin> fst ` set (w_fds w)" "w_fds w1 = (c, i) # w_fds w" using opensD [OF opens_syscalls(2) 1] by blast
  have "balanced (bindI (os_fstat c) (\<lambda>s. liftI (directory_fingerprint s)))" by (intro balanced_intro)
  then have "w_fds w2 = (c, i) # w_fds w" using balancedD 2 i by metis
  moreover have "w_fds w' = filter (\<lambda>p. fst p \<noteq> fd) (w_fds w2)" using 3 unfolding os_iff by (auto simp: without_fd_def)
  ultimately have "w_fds w' = (c, i) # fds" using i fds by (auto simp: filter_id_conv)
  then show "fst x \<notin> fst ` set fds \<and> (\<exists>ino. w_fds w' = (fst x, ino) # fds)" using i fds x by auto
qed

lemma takes_open_children: "takes_or_slips fd fst (open_children fd prints components)"
proof (induction components arbitrary: fd prints)
  case Nil
  show ?case by (rule takes_or_slipsI) (force simp: returnI_def)+
next
  case (Cons component components)
  have "takes_or_slips fd fst (bindI (open_child fd component)
      (\<lambda>x. open_children (fst x) (prints @ [snd x]) components))"
    by (rule takes_bind [OF takes_open_child Cons.IH])
  then show ?case by (simp add: case_prod_unfold)
qed

lemma slips_chain: "opens_or_slips fst (open_directory_chain p)"
  unfolding open_directory_chain_def
proof (rule opens_takes [OF opens_syscalls(1)])
  fix fd
  have "owns fd (\<lambda>_. fd) (on_errorI (bindI (os_fstat fd) (\<lambda>s. liftI (directory_fingerprint s))) (os_close fd))"
    by (rule owns_guarded) (intro balanced_intro, rule refl)
  then show "takes_or_slips fd fst (bindI (on_errorI (bindI (os_fstat fd) (\<lambda>s. liftI (directory_fingerprint s))) (os_close fd))
      (\<lambda>fingerprint. open_children fd [fingerprint] (butlast p)))"
    by (rule takes_bind [OF owns_takes takes_open_children])
qed

section \<open>The audit\<close>

lemma balanced_leaf_identity [balanced_intro]: "balanced (verify_leaf_identity fd name expected)"
  unfolding verify_leaf_identity_def
  by (intro balanced_intro balanced_bracket [OF opens_syscalls(4)])

lemma slips_verify: "slips (verify_opened_bundle env bundle opened)"
proof -
  have bracket: "slips (bindI (open_directory_chain p) (\<lambda>x. finallyI (k x) (os_close (fst x))))"
    if "\<And>x. balanced (k x)" for p and k :: "nat \<times> directory_print list \<Rightarrow> unit io"
    by (intro slips_bracket slips_chain slips_balanced that)
  have "slips (verify_ancestors opened)"
    unfolding verify_ancestors_def case_prod_unfold
    by (intro slips_intro bracket slips_balanced [OF balanced_raiseI] slips_balanced [OF balanced_liftI]
        slips_balanced [OF balanced_syscalls(3)] slips_balanced [OF balanced_leaf_identity] balanced_intro)
  then show ?thesis
    unfolding verify_opened_bundle_def
    by (intro slips_intro slips_balanced [OF balanced_raiseI] slips_balanced [OF balanced_liftI]
        slips_balanced [OF balanced_syscalls(3)])
qed

text \<open>What every read and every rewinding keeps, the checks of the stream keep.\<close>

definition keeps_rel :: "('p \<Rightarrow> 'p \<Rightarrow> bool) \<Rightarrow> ('p \<Rightarrow> 'a res \<times> 'p) \<Rightarrow> bool" where
  "keeps_rel rel m \<longleftrightarrow> (\<forall>p. rel p (snd (m p)))"

definition reader_keeps :: "('p \<Rightarrow> 'p \<Rightarrow> bool) \<Rightarrow> 'p reader \<Rightarrow> bool" where
  "reader_keeps rel rd \<longleftrightarrow> reflp rel \<and> transp rel \<and> (\<forall>n. keeps_rel rel (rd_read rd n)) \<and> keeps_rel rel (rd_rewind rd)"

lemma keeps_bindP: "transp rel \<Longrightarrow> keeps_rel rel m \<Longrightarrow> (\<And>x. keeps_rel rel (f x)) \<Longrightarrow> keeps_rel rel (bindP m f)"
  unfolding keeps_rel_def bindP_def by (auto split: prod.split sum.split) (metis snd_conv transpD)+

lemma keeps_rewindP: "transp rel \<Longrightarrow> keeps_rel rel m \<Longrightarrow> keeps_rel rel (rd_rewind rd) \<Longrightarrow> keeps_rel rel (rewindP rd m)"
  unfolding keeps_rel_def rewindP_def by (auto split: prod.split sum.split) (metis snd_conv transpD)+

lemma keeps_done: "reflp rel \<Longrightarrow> keeps_rel rel (\<lambda>p. (r, p))"
  by (simp add: keeps_rel_def reflpD)

lemma keeps_either: "keeps_rel rel m \<Longrightarrow> keeps_rel rel n \<Longrightarrow> keeps_rel rel (\<lambda>p. if c then m p else n p)"
  by (cases c) simp_all

lemma keeps_gzip_pieces:
  assumes rd: "reader_keeps rel rd" shows "rel p (snd (gzip_pieces rd zl put s p))"
proof (induction "MAX_BUNDLE_BYTES - gz_compressed_total s" arbitrary: s p rule: less_induct)
  case less
  obtain r q where read: "rd_read rd GZIP_INPUT_BYTES p = (r, q)" by fastforce
  have rel: "rel p q" using rd read unfolding reader_keeps_def keeps_rel_def by (metis snd_conv)
  show ?case
  proof (cases "\<exists>c t. r = Inr c \<and> c \<noteq> [] \<and> gzip_piece zl put c s = Inr t")
    case True
    then obtain c t where c: "r = Inr c" "c \<noteq> []" "gzip_piece zl put c s = Inr t" by blast
    have "MAX_BUNDLE_BYTES - gz_compressed_total t < MAX_BUNDLE_BYTES - gz_compressed_total s"
      using gzip_piece_total [OF c(3)] c(2) by (cases c) auto
    from less [OF this, of q] have "rel p (snd (gzip_pieces rd zl put t q))"
      using rel rd unfolding reader_keeps_def by (meson transpD)
    then show ?thesis using read c by (subst gzip_pieces.simps) simp
  next
    case False
    then show ?thesis using read rel by (subst gzip_pieces.simps) (auto split: sum.split)
  qed
qed

lemma keeps_compare_pieces:
  assumes rd: "reader_keeps rel rd" shows "rel p (snd (compare_pieces rd canonical p))"
proof (induction "length canonical" arbitrary: canonical p rule: less_induct)
  case less
  obtain r q where read: "rd_read rd GZIP_INPUT_BYTES p = (r, q)" by fastforce
  have rel: "rel p q" using rd read unfolding reader_keeps_def keeps_rel_def by (metis snd_conv)
  show ?case
  proof (cases "r = Inr (take GZIP_INPUT_BYTES canonical) \<and> canonical \<noteq> []")
    case True
    then have "length (drop GZIP_INPUT_BYTES canonical) < length canonical" by (simp add: GZIP_INPUT_BYTES_def)
    from less [OF this, of q] have "rel p (snd (compare_pieces rd (drop GZIP_INPUT_BYTES canonical) q))"
      using rel rd unfolding reader_keeps_def by (meson transpD)
    then show ?thesis using read True by (subst compare_pieces.simps) (simp add: GZIP_INPUT_BYTES_def)
  next
    case False
    then show ?thesis using read rel by (subst compare_pieces.simps) (auto split: sum.split)
  qed
qed

lemma keeps_loops:
  assumes "reader_keeps rel rd"
  shows "keeps_rel rel (gzip_pieces rd zl put s)" "keeps_rel rel (compare_pieces rd canonical)"
  unfolding keeps_rel_def using keeps_gzip_pieces [OF assms] keeps_compare_pieces [OF assms] by blast+

lemma keeps_stream_checks:
  assumes rd: "reader_keeps rel rd"
  shows "keeps_rel rel (inspect_gzip_stream rd zl put sink)"
    and "keeps_rel rel (verify_canonical_gzip_bytes rd gzip_file raw)"
proof -
  have rel: "transp rel" "reflp rel" "keeps_rel rel (rd_rewind rd)" "\<And>n. keeps_rel rel (rd_read rd n)"
    using rd by (simp_all add: reader_keeps_def)
  note rules = keeps_bindP keeps_rewindP keeps_done keeps_either rel keeps_loops [OF rd]
  show "keeps_rel rel (inspect_gzip_stream rd zl put sink)"
    unfolding inspect_gzip_stream_def by (intro rules)
  show "keeps_rel rel (verify_canonical_gzip_bytes rd gzip_file raw)"
    unfolding verify_canonical_gzip_bytes_def Let_def by (intro rules)
qed

lemma keeps_audit_stream: "reader_keeps rel rd \<Longrightarrow> keeps_rel rel (audit_stream env rd)"
  unfolding audit_stream_def case_prod_unfold Let_def
  by (intro keeps_bindP keeps_stream_checks keeps_done) (simp_all add: reader_keeps_def)

section \<open>Every descriptor of the audit\<close>

lemma balanced_buffered_read [balanced_intro]: "balanced (buffered_read fd n)"
  unfolding balanced_def
proof
  fix w show "w_fds (snd (buffered_read fd n w)) = w_fds w"
  proof (induction n arbitrary: w rule: less_induct)
    case (less n)
    show ?case
    proof (cases "os_read fd n w")
      case (Pair r w1)
      have fds: "w_fds w1 = w_fds w" using balancedD [OF balanced_syscalls(5) Pair] .
      show ?thesis
      proof (cases "\<exists>chunk. r = Inr chunk \<and> chunk \<noteq> [] \<and> n \<noteq> 0")
        case True
        then obtain chunk where c: "r = Inr chunk" "chunk \<noteq> []" "n \<noteq> 0" by blast
        then have "n - length chunk < n" by (cases chunk) auto
        obtain r2 w2 where 2: "buffered_read fd (n - length chunk) w1 = (r2, w2)" by fastforce
        have "w_fds w2 = w_fds w" using less [OF \<open>n - length chunk < n\<close>, of w1] 2 fds by simp
        then show ?thesis using c Pair 2
          by (subst buffered_read.simps) (simp split: sum.split)
      next
        case False
        then show ?thesis using Pair fds by (subst buffered_read.simps) (auto split: sum.split)
      qed
    qed
  qed
qed

lemma reader_keeps_fds: "reader_keeps (\<lambda>w w'. w_fds w' = w_fds w) (bundle_reader fd)"
  using balanced_buffered_read [of fd] unfolding balanced_def
  by (auto simp: reader_keeps_def bundle_reader_def keeps_rel_def seek_start_def reflp_def transp_def)

lemma slips_audit_opened: "slips (audit_opened env later bundle opened)"
proof -
  have "balanced (audit_stream env (bundle_reader fd))" for fd
    using keeps_audit_stream [OF reader_keeps_fds] by (simp add: keeps_rel_def balanced_def)
  then show ?thesis
    unfolding audit_opened_def by (intro slips_intro slips_verify slips_balanced balanced_intro)
qed

lemma opened_bundle_fds:
  assumes "open_regular_bundle env bundle w = (Inr opened, w')"
  shows "\<exists>i j. ob_parent_descriptor opened \<notin> fst ` set (w_fds w)
    \<and> ob_stream opened \<notin> fst ` set ((ob_parent_descriptor opened, j) # w_fds w)
    \<and> w_fds w' = (ob_stream opened, i) # (ob_parent_descriptor opened, j) # w_fds w"
proof -
  obtain path prints fd w1 w2 w3 s t where
    1: "open_directory_chain path w = (Inr (ob_parent_descriptor opened, prints), w1)" and
    2: "os_stat_at (last path) (ob_parent_descriptor opened) w1 = (Inr s, w2)" and
    3: "os_open_read_at (last path) (ob_parent_descriptor opened) w2 = (Inr (ob_stream opened), w3)" and
    4: "os_fstat (ob_stream opened) w3 = (Inr t, w')"
    using assms by (auto simp: open_regular_bundle_def open_bundle_leaf_def io_iff)
  have "w_fds w2 = w_fds w1" "w_fds w' = w_fds w3"
    using balancedD [OF balanced_syscalls(2) 2] balancedD [OF balanced_syscalls(3) 4] .
  then show ?thesis
    using opens_or_slipsD [OF slips_chain 1] opensD [OF opens_syscalls(4) 3] by auto
qed

lemma opens_bundle_leaf: "opens ob_stream (open_bundle_leaf p parent prints)"
  unfolding open_bundle_leaf_def
  by (intro opens_bindI opens_guarded [OF opens_syscalls(4)] balanced_intro) (auto simp: io_iff)

lemma opened_bundle_error:
  assumes "open_regular_bundle env bundle w = (Inl e, w')"
  shows "one_more (w_fds w) w'"
proof (cases "normalized_bundle_path env bundle")
  case (Inl e0)
  then show ?thesis using assms by (simp add: open_regular_bundle_def bindI_def liftI_def)
next
  case (Inr p)
  obtain r1 w1 where 1: "open_directory_chain p w = (r1, w1)" by fastforce
  show ?thesis
  proof (cases r1)
    case (Inl e1)
    then have "w' = w1" using assms 1 \<open>normalized_bundle_path env bundle = Inr p\<close>
      by (simp add: open_regular_bundle_def bindI_def liftI_def value_errorI_def)
    then show ?thesis using opens_or_slips_errorD [OF slips_chain] 1 Inl by blast
  next
    case (Inr x)
    obtain parent prints where x: "x = (parent, prints)" by fastforce
    have "on_errorI (open_bundle_leaf p parent prints) (os_close parent) w1 = (Inl e, w')"
      using assms 1 \<open>normalized_bundle_path env bundle = Inr p\<close> Inr x
      by (simp add: open_regular_bundle_def bindI_def liftI_def value_errorI_def)
    then obtain e2 w2 where 2: "open_bundle_leaf p parent prints w1 = (Inl e2, w2)" "w' = snd (os_close parent w2)"
      using on_errorI_Inl by blast
    obtain i where i: "parent \<notin> fst ` set (w_fds w)" "w_fds w1 = (parent, i) # w_fds w"
      using opens_or_slipsD [OF slips_chain 1 [unfolded Inr]] x by auto
    have "one_more ((parent, i) # w_fds w) w2" using opens_errorD [OF opens_bundle_leaf 2(1)] i(2) by (simp add: one_more_def)
    then show ?thesis unfolding 2(2) by (rule close_below [OF i(1)])
  qed
qed

lemma slips_audit_bundle: "slips (audit_bundle env before later bundle)"
proof (rule slipsI)
  fix w e w' assume r: "audit_bundle env before later bundle w = (Inl e, w')"
  obtain r1 w1 where 1: "open_regular_bundle before bundle w = (r1, w1)" by fastforce
  show "one_more (w_fds w) w'"
  proof (cases r1)
    case (Inl e1)
    then show ?thesis using r 1 opened_bundle_error
      by (auto simp: audit_bundle_def bindI_def value_errorI_def)
  next
    case (Inr opened)
    obtain r2 w2 where 2: "audit_opened env later bundle opened w1 = (r2, w2)" by fastforce
    have w': "w' = snd (os_close (ob_parent_descriptor opened) (snd (os_close (ob_stream opened) w2)))"
      using r 1 2 unfolding Inr audit_bundle_def managed_opened_bundle_def
      by (auto simp: bindI_def value_errorI_def finallyI_def liftI_def split: prod.splits sum.splits)
    obtain i j where ij: "ob_parent_descriptor opened \<notin> fst ` set (w_fds w)"
      "ob_stream opened \<notin> fst ` set ((ob_parent_descriptor opened, j) # w_fds w)"
      "w_fds w1 = (ob_stream opened, i) # (ob_parent_descriptor opened, j) # w_fds w"
      using opened_bundle_fds 1 Inr by blast
    have "one_more ((ob_stream opened, i) # (ob_parent_descriptor opened, j) # w_fds w) w2"
      using slips_errorD [OF slips_audit_opened, of env later "bundle" opened w1] 2 ij(3)
        slipsD [OF slips_audit_opened, of env later "bundle" opened w1] by (cases r2) (auto simp: one_more_def)
    then show ?thesis unfolding w' using close_below ij(1,2) by blast
  qed
next
  fix w files w' assume "audit_bundle env before later bundle w = (Inr files, w')"
  then obtain opened :: opened_bundle and w1 w2 where 1: "open_regular_bundle before bundle w = (Inr opened, w1)"
      and 2: "audit_opened env later bundle opened w1 = (Inr ([], files), w2)"
      and 3: "w' = snd (os_close (ob_parent_descriptor opened) (snd (os_close (ob_stream opened) w2)))"
    unfolding audit_bundle_iff finallyI_iff by (metis snd_conv)
  obtain i j where "ob_parent_descriptor opened \<notin> fst ` set (w_fds w)"
      "ob_stream opened \<notin> fst ` set ((ob_parent_descriptor opened, j) # w_fds w)"
      "w_fds w2 = (ob_stream opened, i) # (ob_parent_descriptor opened, j) # w_fds w"
    using opened_bundle_fds [OF 1] slipsD [OF slips_audit_opened 2] by metis
  then show "w_fds w' = w_fds w" unfolding 3 using close_opened by metis
qed

end
