(* ===== verification/Bundle_Reading.thy ===== *)
theory Bundle_Reading
  imports Bundle_Leaks
begin

text \<open>
  What the audit audits. The bundle is read several times, with other processes running: when the audit
  passes in an environment that keeps time, it has passed for one sequence of octets, which the file
  held from its opening to the last comparison of its status.
\<close>

section \<open>A run and the run on octets at rest\<close>

text \<open>
  A script over a source that may change (states of type \<open>'p\<close>) against one over a source that does not
  (\<open>'q\<close>). \<open>lost\<close> are the states after a change; they never become good again. A script that returns
  from related states has either lost the relation or its counterpart returns the same.
\<close>

definition follows :: "('p \<Rightarrow> 'q \<Rightarrow> bool) \<Rightarrow> ('p \<Rightarrow> bool) \<Rightarrow> ('p \<Rightarrow> 'a res \<times> 'p) \<Rightarrow> ('q \<Rightarrow> 'a res \<times> 'q) \<Rightarrow> bool" where
  "follows rel lost m n \<longleftrightarrow>
     (\<forall>p r p'. m p = (r, p') \<longrightarrow> lost p \<longrightarrow> lost p') \<and>
     (\<forall>p q x p'. rel p q \<longrightarrow> m p = (Inr x, p') \<longrightarrow> lost p' \<or> (\<exists>q'. n q = (Inr x, q') \<and> rel p' q'))"

definition reader_follows :: "('p \<Rightarrow> 'q \<Rightarrow> bool) \<Rightarrow> ('p \<Rightarrow> bool) \<Rightarrow> 'p reader \<Rightarrow> 'q reader \<Rightarrow> bool" where
  "reader_follows rel lost rd rd' \<longleftrightarrow>
     (\<forall>n. follows rel lost (rd_read rd n) (rd_read rd' n)) \<and> follows rel lost (rd_rewind rd) (rd_rewind rd')"

lemma follows_lost: "follows rel lost m n \<Longrightarrow> m p = (r, p') \<Longrightarrow> lost p \<Longrightarrow> lost p'"
  unfolding follows_def by blast

lemma followsD:
  "follows rel lost m n \<Longrightarrow> rel p q \<Longrightarrow> m p = (Inr x, p') \<Longrightarrow> lost p' \<or> (\<exists>q'. n q = (Inr x, q') \<and> rel p' q')"
  unfolding follows_def by blast

lemma followsI:
  assumes "\<And>p r p'. m p = (r, p') \<Longrightarrow> lost p \<Longrightarrow> lost p'"
    and "\<And>p q x p'. rel p q \<Longrightarrow> m p = (Inr x, p') \<Longrightarrow> lost p' \<or> (\<exists>q'. n q = (Inr x, q') \<and> rel p' q')"
  shows "follows rel lost m n"
  unfolding follows_def using assms by blast

named_theorems follows_intro \<open>scripts that follow one another, built from such\<close>

lemma bindP_Inr: "bindP m f p = (Inr y, p') \<longleftrightarrow> (\<exists>x p1. m p = (Inr x, p1) \<and> f x p1 = (Inr y, p'))"
  by (auto simp: bindP_def split: prod.splits sum.splits)

lemma rewindP_Inr: "rewindP rd m p = (Inr y, p') \<longleftrightarrow> (\<exists>p1 u. m p = (Inr y, p1) \<and> rd_rewind rd p1 = (Inr u, p'))"
  by (auto simp: rewindP_def split: prod.splits sum.splits)

lemma follows_done [follows_intro]: "follows rel lost (\<lambda>p. (r, p)) (\<lambda>p. (r, p))"
  by (rule followsI) auto

lemma follows_either [follows_intro]:
  "follows rel lost a b \<Longrightarrow> follows rel lost c d \<Longrightarrow> follows rel lost (\<lambda>p. if z then a p else c p) (\<lambda>p. if z then b p else d p)"
  by (cases z) simp_all

lemma follows_bindP [follows_intro]:
  assumes m: "follows rel lost m n" and f: "\<And>x. follows rel lost (f x) (g x)"
  shows "follows rel lost (bindP m f) (bindP n g)"
proof (rule followsI)
  fix p r p' assume "bindP m f p = (r, p')" "lost p"
  then show "lost p'" using follows_lost [OF m] follows_lost [OF f]
    by (auto simp: bindP_def split: prod.splits sum.splits)
next
  fix p q x p' assume rel: "rel p q" and r: "bindP m f p = (Inr x, p')"
  obtain y p1 where 1: "m p = (Inr y, p1)" and 2: "f y p1 = (Inr x, p')" using r unfolding bindP_Inr by blast
  show "lost p' \<or> (\<exists>q'. bindP n g q = (Inr x, q') \<and> rel p' q')"
    using followsD [OF m rel 1] follows_lost [OF f 2] followsD [OF f _ 2] unfolding bindP_Inr by blast
qed

lemma follows_rewindP [follows_intro]:
  assumes m: "follows rel lost m n" and rd: "reader_follows rel lost rd rd'"
  shows "follows rel lost (rewindP rd m) (rewindP rd' n)"
proof -
  have rewinds: "follows rel lost (rd_rewind rd) (rd_rewind rd')" using rd by (simp add: reader_follows_def)
  show ?thesis
  proof (rule followsI)
    fix p r p' assume "rewindP rd m p = (r, p')" "lost p"
    then show "lost p'" using follows_lost [OF m] follows_lost [OF rewinds]
      by (auto simp: rewindP_def split: prod.splits sum.splits)
  next
    fix p q x p' assume rel: "rel p q" and r: "rewindP rd m p = (Inr x, p')"
    obtain p1 u where 1: "m p = (Inr x, p1)" and 2: "rd_rewind rd p1 = (Inr u, p')" using r unfolding rewindP_Inr by blast
    show "lost p' \<or> (\<exists>q'. rewindP rd' n q = (Inr x, q') \<and> rel p' q')"
      using followsD [OF m rel 1] follows_lost [OF rewinds 2] followsD [OF rewinds _ 2] unfolding rewindP_Inr by blast
  qed
qed

section \<open>The checks of the stream\<close>

lemma gzip_pieces_Inr:
  "gzip_pieces rd zl put s p = (Inr t, p') \<longleftrightarrow>
     (\<exists>c p1. rd_read rd GZIP_INPUT_BYTES p = (Inr c, p1) \<and>
        (if c = [] then t = s \<and> p' = p1
         else \<exists>u. gzip_piece zl put c s = Inr u \<and> gzip_pieces rd zl put u p1 = (Inr t, p')))"
  by (subst gzip_pieces.simps) (auto split: prod.split sum.split)

lemma compare_pieces_Inr:
  "compare_pieces rd canonical p = (Inr (), p') \<longleftrightarrow>
     (\<exists>p1. rd_read rd GZIP_INPUT_BYTES p = (Inr (take GZIP_INPUT_BYTES canonical), p1) \<and>
        (if canonical = [] then p' = p1 else compare_pieces rd (drop GZIP_INPUT_BYTES canonical) p1 = (Inr (), p')))"
  by (subst compare_pieces.simps) (auto split: prod.split sum.split simp: GZIP_INPUT_BYTES_def)

lemma follows_gzip_pieces:
  assumes rd: "reader_follows rel lost rd rd'"
  shows "follows rel lost (gzip_pieces rd zl put s) (gzip_pieces rd' zl put s)"
proof -
  have one: "follows rel lost (rd_read rd n) (rd_read rd' n)" for n using rd by (simp add: reader_follows_def)
  have rewinds: "follows rel lost (rd_rewind rd) (rd_rewind rd')" using rd by (simp add: reader_follows_def)
  have keep: "reader_keeps (\<lambda>p p'. lost p \<longrightarrow> lost p') rd"
    using follows_lost [OF one] follows_lost [OF rewinds]
    by (auto simp: reader_keeps_def keeps_rel_def reflp_def transp_def) (metis prod.collapse)+
  show ?thesis
  proof (rule followsI)
    fix p r p' assume "gzip_pieces rd zl put s p = (r, p')" "lost p"
    then show "lost p'" using keeps_gzip_pieces [OF keep, of p zl put s] by simp
  next
    fix p q t p' assume "rel p q" "gzip_pieces rd zl put s p = (Inr t, p')"
    then show "lost p' \<or> (\<exists>q'. gzip_pieces rd' zl put s q = (Inr t, q') \<and> rel p' q')"
    proof (induction "MAX_BUNDLE_BYTES - gz_compressed_total s" arbitrary: s p q rule: less_induct)
      case less
      obtain c p1 where 1: "rd_read rd GZIP_INPUT_BYTES p = (Inr c, p1)"
        and c: "if c = [] then t = s \<and> p' = p1
          else \<exists>u. gzip_piece zl put c s = Inr u \<and> gzip_pieces rd zl put u p1 = (Inr t, p')"
        using less.prems(2) gzip_pieces_Inr [of rd zl put s p t p'] by blast
      from followsD [OF one less.prems(1) 1] show ?case
      proof
        assume "lost p1"
        then show ?thesis using c keeps_gzip_pieces [OF keep, of p1 zl put] by (auto split: if_splits) (metis snd_conv)
      next
        assume "\<exists>q1. rd_read rd' GZIP_INPUT_BYTES q = (Inr c, q1) \<and> rel p1 q1"
        then obtain q1 where q1: "rd_read rd' GZIP_INPUT_BYTES q = (Inr c, q1)" "rel p1 q1" by blast
        show ?thesis
        proof (cases "c = []")
          case True
          then show ?thesis using c q1 gzip_pieces_Inr [of rd' zl put s q] by auto
        next
          case False
          then obtain u where u: "gzip_piece zl put c s = Inr u" "gzip_pieces rd zl put u p1 = (Inr t, p')" using c by auto
          have "MAX_BUNDLE_BYTES - gz_compressed_total u < MAX_BUNDLE_BYTES - gz_compressed_total s"
            using gzip_piece_total [OF u(1)] False by (cases c) auto
          from less.hyps [OF this q1(2) u(2)] show ?thesis
            using q1(1) u(1) False gzip_pieces_Inr [of rd' zl put s q] by auto
        qed
      qed
    qed
  qed
qed

lemma follows_compare_pieces:
  assumes rd: "reader_follows rel lost rd rd'"
  shows "follows rel lost (compare_pieces rd canonical) (compare_pieces rd' canonical)"
proof -
  have one: "follows rel lost (rd_read rd n) (rd_read rd' n)" for n using rd by (simp add: reader_follows_def)
  have rewinds: "follows rel lost (rd_rewind rd) (rd_rewind rd')" using rd by (simp add: reader_follows_def)
  have keep: "reader_keeps (\<lambda>p p'. lost p \<longrightarrow> lost p') rd"
    using follows_lost [OF one] follows_lost [OF rewinds]
    by (auto simp: reader_keeps_def keeps_rel_def reflp_def transp_def) (metis prod.collapse)+
  show ?thesis
  proof (rule followsI)
    fix p r p' assume "compare_pieces rd canonical p = (r, p')" "lost p"
    then show "lost p'" using keeps_compare_pieces [OF keep, of p canonical] by simp
  next
    fix p q x p' assume "rel p q" "compare_pieces rd canonical p = (Inr x, p')"
    then show "lost p' \<or> (\<exists>q'. compare_pieces rd' canonical q = (Inr x, q') \<and> rel p' q')"
    proof (induction "length canonical" arbitrary: canonical p q rule: less_induct)
      case less
      have x: "x = ()" by simp
      obtain p1 where 1: "rd_read rd GZIP_INPUT_BYTES p = (Inr (take GZIP_INPUT_BYTES canonical), p1)"
        and c: "if canonical = [] then p' = p1 else compare_pieces rd (drop GZIP_INPUT_BYTES canonical) p1 = (Inr (), p')"
        using less.prems(2) compare_pieces_Inr [of rd canonical p p'] by auto
      from followsD [OF one less.prems(1) 1] show ?case
      proof
        assume "lost p1"
        then show ?thesis using c keeps_compare_pieces [OF keep, of p1] by (auto split: if_splits) (metis snd_conv)
      next
        assume "\<exists>q1. rd_read rd' GZIP_INPUT_BYTES q = (Inr (take GZIP_INPUT_BYTES canonical), q1) \<and> rel p1 q1"
        then obtain q1 where q1: "rd_read rd' GZIP_INPUT_BYTES q = (Inr (take GZIP_INPUT_BYTES canonical), q1)" "rel p1 q1"
          by blast
        show ?thesis
        proof (cases "canonical = []")
          case True
          then show ?thesis using c q1 compare_pieces_Inr [of rd' canonical q] by auto
        next
          case False
          then have "length (drop GZIP_INPUT_BYTES canonical) < length canonical" by (simp add: GZIP_INPUT_BYTES_def)
          from less.hyps [OF this q1(2)] c False show ?thesis
            using q1(1) compare_pieces_Inr [of rd' canonical q] by auto
        qed
      qed
    qed
  qed
qed

lemma follows_audit_stream:
  assumes rd: "reader_follows rel lost rd rd'"
  shows "follows rel lost (audit_stream env rd) (audit_stream env rd')"
proof -
  have one: "follows rel lost (rd_rewind rd) (rd_rewind rd')" "\<And>n. follows rel lost (rd_read rd n) (rd_read rd' n)"
    using rd by (simp_all add: reader_follows_def)
  note rules = follows_bindP follows_either follows_done follows_rewindP [OF _ rd] one
    follows_gzip_pieces [OF rd] follows_compare_pieces [OF rd]
  have "follows rel lost (inspect_gzip_stream rd (be_zlib env) append_put (Some []))
      (inspect_gzip_stream rd' (be_zlib env) append_put (Some []))"
    unfolding inspect_gzip_stream_def by (intro rules)
  moreover have "follows rel lost (verify_canonical_gzip_bytes rd (be_gzip env) raw)
      (verify_canonical_gzip_bytes rd' (be_gzip env) raw)" for raw
    unfolding verify_canonical_gzip_bytes_def Let_def by (intro rules)
  ultimately show ?thesis
    unfolding audit_stream_def case_prod_unfold Let_def by (intro rules)
qed

section \<open>The bundle while it is read\<close>

text \<open>
  \<open>s\<close>: the file system when the bundle was opened; \<open>ino\<close> with \<open>node\<close>: the inode that was opened. While
  the inode is the same the bundle is read like a file at rest; once it has changed it stays changed.
\<close>

definition at_rest :: "fs \<Rightarrow> nat \<Rightarrow> nat \<Rightarrow> inode \<Rightarrow> world \<Rightarrow> bytes \<times> bytes \<Rightarrow> bool" where
  "at_rest s fd ino node w q \<longleftrightarrow> timely w \<and> evolves s (w_fs w) \<and> fs_inode (w_fs w) ino = Some node
     \<and> map_of (w_fds w) fd = Some ino \<and> n_content node = File (fst q) \<and> snd q = drop (w_pos w fd) (fst q)"

definition changed :: "fs \<Rightarrow> nat \<Rightarrow> inode \<Rightarrow> world \<Rightarrow> bool" where
  "changed s ino node w \<longleftrightarrow> timely w \<and> evolves s (w_fs w) \<and> fs_inode (w_fs w) ino \<noteq> Some node"

definition opened_in :: "fs \<Rightarrow> nat \<Rightarrow> inode \<Rightarrow> bool" where
  "opened_in s ino node \<longleftrightarrow> stamped s \<and> fs_inode s ino = Some node"

lemma changed_stays:
  assumes s: "opened_in s ino node" and m: "progress m" and r: "m w = (r, w')" and w: "changed s ino node w"
  shows "changed s ino node w'"
proof -
  have w': "timely w'" "evolves (w_fs w) (w_fs w')"
    using progressD [OF m _ r] w by (auto simp: changed_def)
  moreover have "fs_inode (w_fs w') ino \<noteq> Some node"
    using unchanged_between(2) [of s "w_fs w" "w_fs w'" ino node node] s w w'
    by (auto simp: changed_def opened_in_def)
  ultimately show ?thesis using w evolves_trans by (auto simp: changed_def)
qed

lemma at_rest_step:
  assumes "at_rest s fd ino node w q" "env_step w limit w'"
  shows "at_rest s fd ino node w' q \<or> changed s ino node w'"
proof -
  have w: "timely w" using assms(1) by (simp add: at_rest_def)
  have "timely w'" "evolves (w_fs w) (w_fs w')" using env_step_progress [OF assms(2) w] by auto
  then show ?thesis
    using assms evolves_trans by (auto simp: at_rest_def changed_def)
qed

lemma progress_buffered_read [progress_intro]: "progress (buffered_read fd n)"
proof (induction n rule: less_induct)
  case (less n)
  show ?case
  proof (rule progressI)
    fix w r w' assume w: "timely w" and r: "buffered_read fd n w = (r, w')"
    obtain r1 w1 where 1: "os_read fd n w = (r1, w1)" by fastforce
    have p: "timely w1 \<and> evolves (w_fs w) (w_fs w1)" using progressD [of "os_read fd n" w] w 1 by (blast intro: progress_intro)
    show "timely w' \<and> evolves (w_fs w) (w_fs w')"
    proof (cases "\<exists>c. r1 = Inr c \<and> c \<noteq> [] \<and> n \<noteq> 0")
      case True
      then obtain c where c: "r1 = Inr c" "c \<noteq> []" "n \<noteq> 0" by blast
      then have less': "n - length c < n" by (cases c) auto
      obtain r2 w2 where 2: "buffered_read fd (n - length c) w1 = (r2, w2)" by fastforce
      have "w' = w2" using r 1 2 c by (subst (asm) buffered_read.simps) (auto split: sum.splits)
      then show ?thesis using progressD [OF less [OF less'] _ 2] p evolves_trans by blast
    next
      case False
      then have "w' = w1 \<or> w' = w" using r 1 by (subst (asm) buffered_read.simps) (auto split: sum.splits if_splits)
      then show ?thesis using p w by auto
    qed
  qed
qed

lemma buffered_read_at_rest:
  assumes "opened_in s ino node" "at_rest s fd ino node w (content, left)" "buffered_read fd n w = (Inr b, w')"
  shows "changed s ino node w' \<or> b = take n left \<and> at_rest s fd ino node w' (content, drop n left)"
  using assms(2,3)
proof (induction n arbitrary: w left b rule: less_induct)
  case (less n)
  show ?case
  proof (cases "n = 0")
    case True
    then show ?thesis using less.prems by (subst (asm) buffered_read.simps) auto
  next
    case False
    obtain c w1 where 1: "os_read fd n w = (Inr c, w1)" and
      c: "if c = [] then b = [] \<and> w' = w1 else \<exists>d. buffered_read fd (n - length c) w1 = (Inr d, w') \<and> b = c @ d"
      using less.prems(2) False by (subst (asm) buffered_read.simps) (auto split: prod.splits sum.splits if_splits)
    obtain limit w0 i nd body where step: "env_step w limit w0" and nd: "map_of (w_fds w0) fd = Some i"
        "fs_inode (w_fs w0) i = Some nd" "n_content nd = File body" and
        chunk: "c = take (transferred limit n) (drop (w_pos w0 fd) body)" and
        w1: "w1 = w0\<lparr>w_pos := (w_pos w0)(fd := w_pos w0 fd + length c)\<rparr>"
      using 1 unfolding os_read_iff by blast
    have rest: "changed s ino node w'" if "changed s ino node w1"
      using that c changed_stays [OF assms(1) progress_buffered_read] by (auto split: if_splits)
    from at_rest_step [OF less.prems(1) step] show ?thesis
    proof
      assume "changed s ino node w0"
      then have "changed s ino node w1" unfolding w1 by (simp add: changed_def)
      then show ?thesis using rest by blast
    next
      assume good: "at_rest s fd ino node w0 (content, left)"
      then have body: "body = content" "left = drop (w_pos w0 fd) content" "i = ino" "nd = node"
        using nd by (auto simp: at_rest_def)
      then have c': "c = take (transferred limit n) left" using chunk by simp
      have good1: "at_rest s fd ino node w1 (content, drop (length c) left)"
        using good unfolding w1 by (simp add: at_rest_def add.commute)
      show ?thesis
      proof (cases "c = []")
        case True
        then have "left = []" using c' False by (cases limit) (auto simp: transferred_def)
        then show ?thesis using True c good1 by simp
      next
        case False
        then obtain d where d: "buffered_read fd (n - length c) w1 = (Inr d, w')" "b = c @ d" using c by auto
        have le: "length c \<le> n" "c = take (length c) left"
          unfolding c' by (auto simp: transferred_def min_def split: option.splits)
        have "n - length c < n" using False \<open>n \<noteq> 0\<close> by (cases c) auto
        from less.IH [OF this good1 d(1)] show ?thesis
        proof (rule disj_forward)
          assume "d = take (n - length c) (drop (length c) left)
            \<and> at_rest s fd ino node w' (content, drop (n - length c) (drop (length c) left))"
          then show "b = take n left \<and> at_rest s fd ino node w' (content, drop n left)"
            using le d(2) by (metis (no_types, lifting) drop_drop le_add_diff_inverse2 take_add le_add_diff_inverse)
        qed
      qed
    qed
  qed
qed

lemma bundle_reader_follows:
  assumes s: "opened_in s ino node"
  shows "reader_follows (at_rest s fd ino node) (changed s ino node) (bundle_reader fd) plain_reader"
  unfolding reader_follows_def
proof (intro conjI allI followsI)
  fix n p r p' assume "rd_read (bundle_reader fd) n p = (r, p')" "changed s ino node p"
  then show "changed s ino node p'"
    using changed_stays [OF s progress_buffered_read] by (simp add: bundle_reader_def)
next
  fix n p q x p' assume rel: "at_rest s fd ino node p q" and r: "rd_read (bundle_reader fd) n p = (Inr x, p')"
  show "changed s ino node p' \<or> (\<exists>q'. rd_read plain_reader n q = (Inr x, q') \<and> at_rest s fd ino node p' q')"
    using buffered_read_at_rest [OF s, of fd p "fst q" "snd q" n x p'] rel r
    by (cases q) (auto simp: bundle_reader_def plain_reader_def)
qed (auto simp: bundle_reader_def seek_start_def changed_def at_rest_def plain_reader_def)

section \<open>What has passed\<close>

text \<open>
  The octets of a bundle that passes: they decompress to a tar stream, they are what the compressor
  makes of it, and the archive in it has been through every check.
\<close>

definition decompressed :: "'z zlib \<Rightarrow> bytes \<Rightarrow> bytes \<Rightarrow> bool" where
  "decompressed zl content raw \<longleftrightarrow>
     (\<exists>info. fst (inspect_gzip_stream plain_reader zl append_put (Some []) (content, content)) = Inr (info, Some raw))"

definition passes_audit :: "'z bundle_env \<Rightarrow> bytes \<Rightarrow> nat \<Rightarrow> bool" where
  "passes_audit env content files \<longleftrightarrow> length content \<le> MAX_BUNDLE_BYTES
     \<and> (\<exists>raw ms. decompressed (be_zlib env) content raw \<and> content = be_gzip env (file_pieces GZIP_OUTPUT_BYTES raw)
          \<and> audited_archive env raw ms \<and> files = of_kind File_kind ms)"

lemma plain_keeps: "reader_keeps (\<lambda>p q. fst q = fst p) plain_reader"
  by (auto simp: reader_keeps_def keeps_rel_def plain_reader_def reflp_def transp_def)

lemma plain_rewound: "inspect_gzip_stream plain_reader zl put sink (content, left) =
    inspect_gzip_stream plain_reader zl put sink (content, content)"
  by (simp add: inspect_gzip_stream_def bindP_def [of "rd_rewind plain_reader"]) (simp add: plain_reader_def)

lemma passes_audit_plain:
  "fst (audit_stream env plain_reader (content, left)) = Inr ([], files) \<longleftrightarrow> passes_audit env content files"
proof -
  let ?inspect = "inspect_gzip_stream plain_reader (be_zlib env) append_put (Some [])"
  let ?verify = "verify_canonical_gzip_bytes plain_reader (be_gzip env)"
  let ?raw = "\<lambda>sink. case sink of Some w \<Rightarrow> w | None \<Rightarrow> []"
  let ?checks = "\<lambda>info raw. bindE (scan_raw_tar_stream (tar_pread raw) (gi_expanded_size info)) (\<lambda>layout.
            audit_archive (be_repr env) (tar_pread raw) (be_tarfile env raw) info layout)"
  have same: "fst p1 = content" if "?inspect (content, content) = (r, p1)" for r p1
    using keeps_stream_checks(1) [OF plain_keeps] that unfolding keeps_rel_def by (metis fst_conv snd_conv)
  have "fst (audit_stream env plain_reader (content, left)) = Inr ([], files) \<longleftrightarrow>
      (\<exists>info sink p1. ?inspect (content, content) = (Inr (info, sink), p1) \<and> fst (?verify (?raw sink) p1) = Inr ()
         \<and> ?checks info (?raw sink) = Inr ([], files))"
    unfolding audit_stream_def case_prod_unfold Let_def
    by (simp add: bindP_def plain_rewound [of _ _ _ content left] split: prod.split sum.split)
  also have "\<dots> \<longleftrightarrow> (\<exists>info raw p1. ?inspect (content, content) = (Inr (info, Some raw), p1) \<and> fst (?verify raw p1) = Inr ()
         \<and> (\<exists>ms. audited_archive env raw ms \<and> files = of_kind File_kind ms))"
  proof -
    have sizes: "(\<exists>raw. sink = Some raw) \<and> (\<forall>raw. sink = Some raw \<longrightarrow> (?checks info raw = Inr ([], files)
        \<longleftrightarrow> (\<exists>ms. audited_archive env raw ms \<and> files = of_kind File_kind ms)))"
      if "?inspect (content, content) = (Inr (info, sink), p1)" for info sink p1
      using inspect_gzip_Inr [OF that] checks_of_raw [of info _ env files] by auto
    show ?thesis
    proof (intro iffI; elim exE conjE)
      fix info sink p1 assume i: "?inspect (content, content) = (Inr (info, sink), p1)" "fst (?verify (?raw sink) p1) = Inr ()"
        "?checks info (?raw sink) = Inr ([], files)"
      obtain raw where "sink = Some raw" using sizes [OF i(1)] by blast
      then show "\<exists>info raw p1. ?inspect (content, content) = (Inr (info, Some raw), p1) \<and> fst (?verify raw p1) = Inr ()
         \<and> (\<exists>ms. audited_archive env raw ms \<and> files = of_kind File_kind ms)"
        using i sizes [OF i(1)] by auto
    next
      fix info raw p1 ms assume i: "?inspect (content, content) = (Inr (info, Some raw), p1)" "fst (?verify raw p1) = Inr ()"
        "audited_archive env raw ms" "files = of_kind File_kind ms"
      then have "?checks info raw = Inr ([], files)" using sizes [OF i(1)] by blast
      then show "\<exists>info sink p1. ?inspect (content, content) = (Inr (info, sink), p1) \<and> fst (?verify (?raw sink) p1) = Inr ()
         \<and> ?checks info (?raw sink) = Inr ([], files)"
        using i(1,2) by (intro exI [of _ info] exI [of _ "Some raw"] exI [of _ p1]) simp
    qed
  qed
  also have "\<dots> \<longleftrightarrow> passes_audit env content files"
  proof -
    have "fst (?verify raw p1) = Inr () \<longleftrightarrow> content = be_gzip env (file_pieces GZIP_OUTPUT_BYTES raw) \<and> length content \<le> MAX_BUNDLE_BYTES"
      if "?inspect (content, content) = (Inr (info, Some raw), p1)" for info raw p1
      using verify_canonical_iff [of "be_gzip env" raw "fst p1" "snd p1"] same [OF that] by (cases p1) simp
    then have "(\<exists>info raw p1. ?inspect (content, content) = (Inr (info, Some raw), p1) \<and> fst (?verify raw p1) = Inr ()
         \<and> (\<exists>ms. audited_archive env raw ms \<and> files = of_kind File_kind ms))
      \<longleftrightarrow> (\<exists>info raw p1. ?inspect (content, content) = (Inr (info, Some raw), p1)
         \<and> (content = be_gzip env (file_pieces GZIP_OUTPUT_BYTES raw) \<and> length content \<le> MAX_BUNDLE_BYTES)
         \<and> (\<exists>ms. audited_archive env raw ms \<and> files = of_kind File_kind ms))"
      by blast
    moreover have "(\<exists>p1. ?inspect (content, content) = (Inr (info, Some raw), p1)) \<longleftrightarrow>
        fst (?inspect (content, content)) = Inr (info, Some raw)" for info raw
      by (cases "?inspect (content, content)") simp
    ultimately show ?thesis unfolding passes_audit_def decompressed_def by blast
  qed
  finally show ?thesis .
qed

section \<open>The whole audit\<close>

lemma progress_value_errorI [progress_intro]: "progress m \<Longrightarrow> progress (value_errorI m e)"
  by (erule progress_same_world) (simp add: value_errorI_def split: prod.split sum.split)

lemma progress_open_children [progress_intro]: "progress (open_children fd prints components)"
proof (induction components arbitrary: fd prints)
  case (Cons component components)
  then show ?case by (auto simp: open_child_def intro!: progress_intro)
qed (auto intro: progress_intro)

lemma progress_open_bundle [progress_intro]:
  "progress (open_directory_chain p)" "progress (open_bundle_leaf p fd prints)"
  "progress (open_regular_bundle env name)" "progress (verify_leaf_identity fd leaf expected)"
  "progress (verify_opened_bundle env name opened)"
  unfolding open_regular_bundle_def open_directory_chain_def open_bundle_leaf_def verify_opened_bundle_def
    verify_ancestors_def verify_leaf_identity_def
  by (intro progress_intro)+

lemma progress_audit_stream [progress_intro]: "progress (audit_stream env (bundle_reader fd))"
proof -
  have "reader_keeps (\<lambda>w w'. timely w \<longrightarrow> timely w' \<and> evolves (w_fs w) (w_fs w')) (bundle_reader fd)"
    using progress_buffered_read [of fd] evolves_trans
    by (auto simp: reader_keeps_def keeps_rel_def reflp_def transp_def bundle_reader_def seek_start_def progress_def)
  from keeps_audit_stream [OF this] show ?thesis by (simp add: keeps_rel_def progress_def)
qed

text \<open>
  The octets that the file under the path held: the inode \<open>ino\<close> held them, and nothing else, from its
  opening in \<open>t0\<close> to \<open>t1\<close>, when all had been read, and to \<open>t2\<close>, when it was found once more under its name
  in a directory.
\<close>

definition bundle_octets :: "fs \<Rightarrow> fs \<Rightarrow> string \<Rightarrow> bytes \<Rightarrow> bool" where
  "bundle_octets s s' leaf content \<longleftrightarrow>
     (\<exists>t0 t1 t2 ino node dir. evolves s t0 \<and> evolves t0 t1 \<and> evolves t1 t2 \<and> evolves t2 s'
        \<and> fs_inode t0 ino = Some node \<and> fs_inode t1 ino = Some node \<and> entry_of t2 dir leaf = Some (ino, node)
        \<and> n_content node = File content \<and> n_nlink node = 1)"

lemma opened_bundle_node:
  assumes "open_regular_bundle env name w = (Inr opened, w')"
  shows "\<exists>ino node content p. map_of (w_fds w') (ob_stream opened) = Some ino \<and> fs_inode (w_fs w') ino = Some node
    \<and> n_content node = File content \<and> n_nlink node = 1 \<and> ob_fingerprint opened = bundle_fingerprint (stat_of ino node)
    \<and> normalized_bundle_path env name = Inr p \<and> ob_absolute_path opened = p"
proof -
  obtain p s v where "normalized_bundle_path env name = Inr p" "ob_absolute_path opened = p"
    and 1: "os_fstat (ob_stream opened) v = (Inr s, w')" and 2: "validate_bundle_metadata s = Inr (ob_fingerprint opened)"
    using assms by (auto simp: open_regular_bundle_def open_bundle_leaf_def io_iff)
  obtain ino node where ino: "map_of (w_fds w') (ob_stream opened) = Some ino" "fs_inode (w_fs w') ino = Some node"
      "s = stat_of ino node" using 1 unfolding os_iff by blast
  have "st_type s = Regular" "st_nlink s = 1" "ob_fingerprint opened = bundle_fingerprint s"
    using 2 by (auto simp: validate_bundle_metadata_def split: if_splits)
  moreover obtain content where "n_content node = File content"
    using \<open>st_type s = Regular\<close> unfolding ino(3) by (cases "n_content node") (auto simp: stat_of_def)
  ultimately show ?thesis using ino \<open>normalized_bundle_path env name = Inr p\<close> \<open>ob_absolute_path opened = p\<close>
    by (auto simp: stat_of_def)
qed

text \<open>A status with the fingerprint of the opened node is the status of the node, unchanged.\<close>

lemma same_fingerprint:
  assumes s: "opened_in s ino node" and t: "evolves s t" "fs_inode t i = Some n"
    and same: "bundle_fingerprint (stat_of i n) = bundle_fingerprint (stat_of ino node)"
  shows "i = ino \<and> n = node"
proof -
  have "i = ino" "n_ctime n = n_ctime node" using same by (auto simp: bundle_fingerprint_def stat_of_def)
  then show ?thesis using unchanged_between(1) [of s s t ino node n] s t by (simp add: opened_in_def)
qed

lemma verified_leaf:
  assumes s: "opened_in s ino node" and w: "timely w" "evolves s (w_fs w)"
    and run: "verify_leaf_identity fd leaf (bundle_fingerprint (stat_of ino node)) w = (Inr (), w')"
  shows "\<exists>t dir. evolves (w_fs w) t \<and> evolves t (w_fs w') \<and> entry_of t dir leaf = Some (ino, node)"
proof -
  obtain st w1 where 1: "os_stat_at leaf fd w = (Inr st, w1)"
      and 2: "validate_bundle_metadata st = Inr (bundle_fingerprint (stat_of ino node))"
    using run unfolding verify_leaf_identity_def by (auto simp: io_iff)
  obtain i n limit where n: "env_step w limit w1" "lookup_at w1 fd leaf = Some (i, n)" "st = stat_of i n"
    using 1 unfolding os_iff by blast
  have p1: "timely w1" "evolves (w_fs w) (w_fs w1)" using env_step_progress [OF n(1) w(1)] by auto
  obtain dir where dir: "entry_of (w_fs w1) dir leaf = Some (i, n)"
    using n(2) unfolding lookup_at_entry by (auto split: option.splits)
  then have "fs_inode (w_fs w1) i = Some n" by (auto simp: entry_of_def split: option.splits content.splits)
  moreover have "bundle_fingerprint (stat_of i n) = bundle_fingerprint (stat_of ino node)"
    using 2 n(3) by (auto simp: validate_bundle_metadata_def split: if_splits)
  ultimately have "i = ino \<and> n = node" using same_fingerprint [OF s] evolves_trans [OF w(2) p1(2)] by blast
  moreover have "progress (bindI (liftI (validate_bundle_metadata st)) (\<lambda>found.
       if found \<noteq> bundle_fingerprint (stat_of ino node) then raiseI CHANGED
       else bindI (os_open_read_at leaf fd) (\<lambda>reopened. finallyI
             (bindI (os_fstat reopened) (\<lambda>s. bindI (liftI (validate_bundle_metadata s)) (\<lambda>found.
                if found \<noteq> bundle_fingerprint (stat_of ino node) then raiseI CHANGED else returnI ())))
             (os_close reopened))))" (is "progress ?rest")
    by (intro progress_intro)
  moreover have "?rest w1 = (Inr (), w')"
    using run 1 unfolding verify_leaf_identity_def by (simp add: bindI_def [of "os_stat_at leaf fd"])
  ultimately show ?thesis using p1 progressD [of ?rest w1] dir by blast
qed


lemma verified_bundle:
  assumes s: "opened_in s ino node" and w: "timely w" "evolves s (w_fs w)"
    and print: "ob_fingerprint opened = bundle_fingerprint (stat_of ino node)"
    and run: "verify_opened_bundle env name opened w = (Inr (), w')"
  shows "fs_inode (w_fs w) ino = Some node"
    and "\<exists>t1 t2 dir. evolves (w_fs w) t1 \<and> evolves t1 t2 \<and> evolves t2 (w_fs w') \<and> fs_inode t1 ino = Some node
      \<and> entry_of t2 dir (ob_leaf_name opened) = Some (ino, node)"
proof -
  obtain st w1 where 1: "os_fstat (ob_stream opened) w = (Inr st, w1)" "bundle_fingerprint st = ob_fingerprint opened"
      and 2: "verify_ancestors opened w1 = (Inr (), w')"
    using run unfolding verify_opened_bundle_def by (auto simp: io_iff)
  obtain i n limit where n: "env_step w limit w1" "fs_inode (w_fs w1) i = Some n" "st = stat_of i n"
    using 1(1) unfolding os_iff by blast
  have p1: "timely w1" "evolves (w_fs w) (w_fs w1)" using env_step_progress [OF n(1) w(1)] by auto
  have same: "i = ino \<and> n = node"
    using same_fingerprint [OF s evolves_trans [OF w(2) p1(2)] n(2)] 1(2) n(3) print by simp
  then show "fs_inode (w_fs w) ino = Some node"
    using unchanged_between(2) [of s "w_fs w" "w_fs w1" ino node node] s w(2) p1(2) n(2) by (simp add: opened_in_def)
  obtain w2 w3 w4 u parent prints where 3: "os_fstat (ob_parent_descriptor opened) w1 = (Inr u, w2)"
      "verify_leaf_identity (ob_parent_descriptor opened) (ob_leaf_name opened) (ob_fingerprint opened) w2 = (Inr (), w3)"
      "open_directory_chain (ob_absolute_path opened) w3 = (Inr (parent, prints), w4)"
      and 4: "finallyI (verify_leaf_identity parent (ob_leaf_name opened) (ob_fingerprint opened)) (os_close parent) w4 = (Inr (), w')"
    using 2 unfolding verify_ancestors_def by (auto simp: io_iff split: if_splits)
  obtain w5 where 5: "verify_leaf_identity parent (ob_leaf_name opened) (ob_fingerprint opened) w4 = (Inr (), w5)"
      "os_close parent w5 = (Inr (), w')" using 4 by (auto simp: io_iff)
  have p2: "timely w2" "evolves (w_fs w1) (w_fs w2)" using progressD [OF progress_syscalls(3) p1(1) 3(1)] by auto
  have p3: "timely w3" "evolves (w_fs w2) (w_fs w3)" using progressD [OF progress_open_bundle(4) p2(1) 3(2)] by auto
  have p4: "timely w4" "evolves (w_fs w3) (w_fs w4)" using progressD [OF progress_open_bundle(1) p3(1) 3(3)] by auto
  have p5: "timely w5" "evolves (w_fs w4) (w_fs w5)" using progressD [OF progress_open_bundle(4) p4(1) 5(1)] by auto
  have p6: "evolves (w_fs w5) (w_fs w')" using progressD [OF progress_close p5(1) 5(2)] by auto
  have e4: "evolves (w_fs w1) (w_fs w4)" using p2(2) p3(2) p4(2) evolves_trans by blast
  then obtain t dir where t: "evolves (w_fs w4) t" "evolves t (w_fs w5)" "entry_of t dir (ob_leaf_name opened) = Some (ino, node)"
    using verified_leaf [OF s p4(1) _ 5(1) [unfolded print]] w(2) p1(2) evolves_trans by blast
  have "fs_inode (w_fs w1) ino = Some node" using same n(2) by simp
  then show "\<exists>t1 t2 dir. evolves (w_fs w) t1 \<and> evolves t1 t2 \<and> evolves t2 (w_fs w') \<and> fs_inode t1 ino = Some node
      \<and> entry_of t2 dir (ob_leaf_name opened) = Some (ino, node)"
    using p1(2) e4 t p6 evolves_trans by blast
qed

lemma passed_bundle:
  assumes w: "timely w" and run: "audit_bundle env before later name w = (Inr files, w')"
  shows "\<exists>p content. normalized_bundle_path before name = Inr p
    \<and> bundle_octets (w_fs w) (w_fs w') (last p) content \<and> passes_audit env content files"
proof -
  obtain opened :: opened_bundle and w1 w4 where 1: "open_regular_bundle before name w = (Inr opened, w1)"
      and 2: "audit_opened env later name opened w1 = (Inr ([], files), w4)"
      and 3: "finallyI (os_close (ob_stream opened)) (os_close (ob_parent_descriptor opened)) w4 = (Inr (), w')"
    using run unfolding audit_bundle_iff by blast
  obtain st w2 w3 where 4: "os_fstat (ob_stream opened) w1 = (Inr st, w2)" "0 < st_size st" "st_size st \<le> MAX_BUNDLE_BYTES"
      and 5: "audit_stream env (bundle_reader (ob_stream opened)) w2 = (Inr ([], files), w3)"
      and 6: "verify_opened_bundle later name opened w3 = (Inr (), w4)"
    using 2 unfolding audit_opened_iff by blast
  obtain ino node content where node: "map_of (w_fds w1) (ob_stream opened) = Some ino" "fs_inode (w_fs w1) ino = Some node"
      "n_content node = File content" "n_nlink node = 1" and print: "ob_fingerprint opened = bundle_fingerprint (stat_of ino node)"
      and p: "normalized_bundle_path before name = Inr (ob_absolute_path opened)"
    using opened_bundle_node [OF 1] by blast
  let ?s = "w_fs w1" and ?fd = "ob_stream opened"
  have p1: "timely w1" "evolves (w_fs w) ?s" using progressD [OF progress_open_bundle(3) w 1] by auto
  then have s: "opened_in ?s ino node" using node(2) by (simp add: opened_in_def timely_def)
  have p2: "timely w2" "evolves ?s (w_fs w2)" using progressD [OF progress_syscalls(3) p1(1) 4(1)] by auto
  have p3: "timely w3" "evolves (w_fs w2) (w_fs w3)" using progressD [OF progress_audit_stream p2(1) 5] by auto
  note e3 = evolves_trans [OF p2(2) p3(2)]
  note verified = verified_bundle [OF s p3(1) e3 print 6]
  have kept: "fs_inode (w_fs w2) ino = Some node"
    using unchanged_between(2) [OF _ p2(2) p3(2) node(2) verified(1) refl] s by (simp add: opened_in_def)
  have "w_fds w2 = w_fds w1" using balancedD [OF balanced_syscalls(3) 4(1)] .
  then have rest: "at_rest ?s ?fd ino node w2 (content, drop (w_pos w2 ?fd) content)"
    using p2 node kept by (simp add: at_rest_def)
  have "\<not> changed ?s ino node w3" using verified(1) by (simp add: changed_def)
  then obtain q where "audit_stream env plain_reader (content, drop (w_pos w2 ?fd) content) = (Inr ([], files), q)"
    using followsD [OF follows_audit_stream [OF bundle_reader_follows [OF s]] rest 5] by blast
  then have "passes_audit env content files" using passes_audit_plain fst_conv by metis
  moreover obtain t1 t2 dir where t: "evolves (w_fs w3) t1" "evolves t1 t2" "evolves t2 (w_fs w4)" "fs_inode t1 ino = Some node"
      "entry_of t2 dir (ob_leaf_name opened) = Some (ino, node)" using verified(2) by blast
  moreover have "evolves (w_fs w4) (w_fs w')"
  proof -
    have "timely w4" using progressD [OF progress_open_bundle(5) p3(1) 6] by simp
    moreover have "progress (finallyI (os_close ?fd) (os_close (ob_parent_descriptor opened)))" by (intro progress_intro)
    ultimately show ?thesis using progressD 3 by blast
  qed
  ultimately show ?thesis
    using p p1(2) e3 node(2-4) unfolding bundle_octets_def by (meson evolves_trans)
qed

end
