(* ===== verification/Bundle_Quiet.thy ===== *)
theory Bundle_Quiet
  imports Bundle_Reading
begin

text \<open>
  The audit on a system at rest: no call fails and nobody changes a file. It then accepts exactly the
  bundles whose octets pass.
\<close>

section \<open>Opening\<close>

definition is_folder :: "inode \<Rightarrow> bool" where
  "is_folder n \<longleftrightarrow> content_type (n_content n) = Directory"

text \<open>The directory that names lead to, and what the walk notes on the way.\<close>

fun walk_to :: "fs \<Rightarrow> nat \<Rightarrow> path \<Rightarrow> (nat \<times> directory_print list) option" where
  "walk_to s d [] = Some (d, [])"
| "walk_to s d (c # cs) =
     (case entry_of s d c of
        None \<Rightarrow> None
      | Some (e, n) \<Rightarrow>
          if is_folder n then
            (case walk_to s e cs of None \<Rightarrow> None | Some (d', prints) \<Rightarrow> Some (d', (n_dev n, e, Directory) # prints))
          else None)"

definition walk_from_root :: "fs \<Rightarrow> path \<Rightarrow> (nat \<times> directory_print list) option" where
  "walk_from_root s p =
     (case fs_path s [] of
        None \<Rightarrow> None
      | Some root \<Rightarrow>
          (case fs_inode s root of
             None \<Rightarrow> None
           | Some n \<Rightarrow>
               if is_folder n then
                 (case walk_to s root (butlast p) of
                    None \<Rightarrow> None | Some (d, prints) \<Rightarrow> Some (d, (n_dev n, root, Directory) # prints))
               else None))"

text \<open>\<open>quiet_as w fds w'\<close>: \<open>w'\<close> has the file system of \<open>w\<close>, nothing is scheduled, and \<open>fds\<close> are open.\<close>

definition quiet_as :: "world \<Rightarrow> (nat \<times> nat) list \<Rightarrow> world \<Rightarrow> bool" where
  "quiet_as w fds w' \<longleftrightarrow> w_schedule w' = [] \<and> w_fs w' = w_fs w \<and> w_fds w' = fds"

lemma quiet_open_dir_at:
  assumes w: "w_schedule w = []" "map_of (w_fds w) fd = Some d" "entry_of (w_fs w) d c = Some (e, n)" "is_folder n"
  shows "os_open_dir_at c fd w = (Inr (fresh_fd w), w\<lparr>w_fds := (fresh_fd w, e) # w_fds w, w_pos := (w_pos w)(fresh_fd w := 0)\<rparr>)"
  using assms by (simp add: os_open_dir_at_def lookup_at_entry is_folder_def new_fd_def Let_def)

lemma quiet_fstat:
  assumes "w_schedule w = []" "map_of (w_fds w) fd = Some ino" "fs_inode (w_fs w) ino = Some n"
  shows "os_fstat fd w = (Inr (stat_of ino n), w)"
  using assms by (simp add: os_fstat_def inode_of_def)

lemma quiet_close:
  assumes "w_schedule w = []" "w_fds w = a @ (fd, ino) # b" "fd \<notin> fst ` set (a @ b)"
  shows "os_close fd w = (Inr (), w\<lparr>w_fds := a @ b\<rparr>)"
proof -
  have "filter (\<lambda>p. fst p \<noteq> fd) a = a" "filter (\<lambda>p. fst p \<noteq> fd) b = b" using assms(3) by (auto simp: filter_id_conv)
  moreover have "map_of (a @ (fd, ino) # b) fd \<noteq> None" by (simp add: map_add_Some_iff)
  ultimately show ?thesis using assms(1,2) by (simp add: os_close_def)
qed

lemma folder_print: "is_folder n \<Longrightarrow> directory_fingerprint (stat_of e n) = Inr (n_dev n, e, Directory)"
  by (simp add: directory_fingerprint_def stat_of_def is_folder_def)

lemma entry_inode: "entry_of s d c = Some (e, n) \<Longrightarrow> fs_inode s e = Some n"
  by (auto simp: entry_of_def split: option.splits content.splits)

lemma quiet_open_child:
  assumes w: "quiet_as w0 ((fd, d) # fds) w" "fd \<notin> fst ` set fds"
    and e: "entry_of (w_fs w0) d c = Some (e, n)" "is_folder n"
  shows "\<exists>fd' w'. open_child fd c w = (Inr (fd', (n_dev n, e, Directory)), w')
    \<and> quiet_as w0 ((fd', e) # fds) w' \<and> fd' \<notin> fst ` set fds"
proof -
  let ?fd = "fresh_fd w"
  let ?w1 = "w\<lparr>w_fds := (?fd, e) # w_fds w, w_pos := (w_pos w)(?fd := 0)\<rparr>"
  have new: "?fd \<notin> fst ` set ((fd, d) # fds)" using fresh_fd_new [of w] w(1) by (simp add: quiet_as_def)
  have 1: "os_open_dir_at c fd w = (Inr ?fd, ?w1)"
    using w e by (intro quiet_open_dir_at) (auto simp: quiet_as_def)
  have 2: "os_fstat ?fd ?w1 = (Inr (stat_of e n), ?w1)"
    using w e entry_inode by (intro quiet_fstat) (auto simp: quiet_as_def)
  have 3: "os_close fd ?w1 = (Inr (), ?w1\<lparr>w_fds := [(?fd, e)] @ fds\<rparr>)"
    using w new by (intro quiet_close) (auto simp: quiet_as_def)
  have "open_child fd c w = (Inr (?fd, (n_dev n, e, Directory)), ?w1\<lparr>w_fds := [(?fd, e)] @ fds\<rparr>)"
    by (simp add: open_child_def on_errorI_def bindI_def 1 2 3 liftI_def folder_print [OF e(2)] returnI_def)
  then show ?thesis using new w(1) by (auto simp: quiet_as_def)
qed

lemma quiet_open_children:
  assumes "quiet_as w0 ((fd, d) # fds) w" "fd \<notin> fst ` set fds" "walk_to (w_fs w0) d cs = Some (d', more_prints)"
  shows "\<exists>fd' w'. open_children fd prints cs w = (Inr (fd', prints @ more_prints), w')
    \<and> quiet_as w0 ((fd', d') # fds) w' \<and> fd' \<notin> fst ` set fds"
  using assms
proof (induction cs arbitrary: fd d prints more_prints w)
  case Nil
  then show ?case by (auto simp: returnI_def)
next
  case (Cons c cs)
  obtain e n rest where e: "entry_of (w_fs w0) d c = Some (e, n)" "is_folder n" "walk_to (w_fs w0) e cs = Some (d', rest)"
      "more_prints = (n_dev n, e, Directory) # rest"
    using Cons.prems(3) by (auto split: option.splits if_splits prod.splits)
  obtain fd1 w1 where 1: "open_child fd c w = (Inr (fd1, (n_dev n, e, Directory)), w1)"
      "quiet_as w0 ((fd1, e) # fds) w1" "fd1 \<notin> fst ` set fds"
    using quiet_open_child [OF Cons.prems(1,2) e(1,2)] by blast
  show ?case using Cons.IH [OF 1(2,3) e(3), of "prints @ [(n_dev n, e, Directory)]"] 1(1) e(4) by (simp add: bindI_def)
qed

lemma quiet_chain:
  assumes w: "quiet_as w0 fds w" and walk: "walk_from_root (w_fs w0) p = Some (d, prints)"
  shows "\<exists>fd w'. open_directory_chain p w = (Inr (fd, prints), w') \<and> quiet_as w0 ((fd, d) # fds) w' \<and> fd \<notin> fst ` set fds"
proof -
  obtain root n rest where root: "fs_path (w_fs w0) [] = Some root" "fs_inode (w_fs w0) root = Some n" "is_folder n"
      "walk_to (w_fs w0) root (butlast p) = Some (d, rest)" "prints = (n_dev n, root, Directory) # rest"
    using walk by (auto simp: walk_from_root_def split: option.splits if_splits prod.splits)
  let ?fd = "fresh_fd w"
  let ?w1 = "w\<lparr>w_fds := (?fd, root) # w_fds w, w_pos := (w_pos w)(?fd := 0)\<rparr>"
  have new: "?fd \<notin> fst ` set fds" using fresh_fd_new [of w] w by (simp add: quiet_as_def)
  have 1: "os_open_dir [] w = (Inr ?fd, ?w1)"
    using w root by (simp add: os_open_dir_def quiet_as_def lookup_path_def is_folder_def new_fd_def Let_def)
  have 2: "os_fstat ?fd ?w1 = (Inr (stat_of root n), ?w1)"
    using w root by (intro quiet_fstat) (auto simp: quiet_as_def)
  have "quiet_as w0 ((?fd, root) # fds) ?w1" using w by (simp add: quiet_as_def)
  from quiet_open_children [OF this new root(4), of "[(n_dev n, root, Directory)]"] show ?thesis
    by (simp add: open_directory_chain_def bindI_def on_errorI_def liftI_def 1 2 folder_print [OF root(3)] root(5))
qed

section \<open>The bundle at rest\<close>

text \<open>The file under the path: private, regular, in a directory that the walk from the root reaches.\<close>

definition bundle_at :: "fs \<Rightarrow> path \<Rightarrow> nat \<Rightarrow> inode \<Rightarrow> bytes \<Rightarrow> bool" where
  "bundle_at s p ino node content \<longleftrightarrow>
     n_content node = File content \<and> n_nlink node = 1
     \<and> (\<exists>d prints. walk_from_root s p = Some (d, prints) \<and> entry_of s d (last p) = Some (ino, node))"

lemma quiet_stat_at:
  assumes "quiet_as w0 fds w" "map_of fds fd = Some d" "entry_of (w_fs w0) d c = Some (e, n)"
  shows "os_stat_at c fd w = (Inr (stat_of e n), w)"
  using assms by (simp add: os_stat_at_def lookup_at_entry quiet_as_def)

lemma quiet_open_read:
  assumes "quiet_as w0 fds w" "map_of fds fd = Some d" "entry_of (w_fs w0) d c = Some (e, n)" "n_content n = File content"
  shows "\<exists>fd' w'. os_open_read_at c fd w = (Inr fd', w') \<and> quiet_as w0 ((fd', e) # fds) w' \<and> fd' \<notin> fst ` set fds"
  using assms fresh_fd_new [of w]
  by (auto simp: os_open_read_at_def lookup_at_entry quiet_as_def new_fd_def Let_def)

lemma private_print:
  "n_content n = File content \<Longrightarrow> n_nlink n = 1 \<Longrightarrow>
   validate_bundle_metadata (stat_of e n) = Inr (bundle_fingerprint (stat_of e n))"
  by (simp add: validate_bundle_metadata_def stat_of_def)

lemma quiet_leaf_identity:
  assumes w: "quiet_as w0 fds w" "map_of fds fd = Some d" "entry_of (w_fs w0) d c = Some (e, n)"
    and n: "n_content n = File content" "n_nlink n = 1"
  shows "\<exists>w'. verify_leaf_identity fd c (bundle_fingerprint (stat_of e n)) w = (Inr (), w') \<and> quiet_as w0 fds w'"
proof -
  note 1 = quiet_stat_at [OF w] and print = private_print [OF n]
  obtain fd' w' where 2: "os_open_read_at c fd w = (Inr fd', w')" "quiet_as w0 ((fd', e) # fds) w'" "fd' \<notin> fst ` set fds"
    using quiet_open_read [OF w n(1)] by blast
  have 3: "os_fstat fd' w' = (Inr (stat_of e n), w')"
    using 2(2) entry_inode [OF w(3)] by (intro quiet_fstat) (auto simp: quiet_as_def)
  have 4: "os_close fd' w' = (Inr (), w'\<lparr>w_fds := [] @ fds\<rparr>)"
    using 2(2,3) by (intro quiet_close) (auto simp: quiet_as_def)
  show ?thesis using 2(2)
    by (simp add: verify_leaf_identity_def bindI_def liftI_def finallyI_def returnI_def 1 2(1) 3 4 print quiet_as_def)
qed

lemma quiet_open_bundle:
  assumes w: "quiet_as w0 fds w" and p: "normalized_bundle_path env name = Inr p" and there: "bundle_at (w_fs w0) p ino node content"
  shows "\<exists>opened w' d. open_regular_bundle env name w = (Inr opened, w') \<and> ob_absolute_path opened = p
    \<and> ob_fingerprint opened = bundle_fingerprint (stat_of ino node)
    \<and> walk_from_root (w_fs w0) p = Some (d, ob_directory_fingerprints opened)
    \<and> ob_directory_fingerprints opened \<noteq> [] \<and> entry_of (w_fs w0) d (last p) = Some (ino, node)
    \<and> ob_parent_descriptor opened \<notin> fst ` set fds \<and> ob_stream opened \<notin> fst ` set ((ob_parent_descriptor opened, d) # fds)
    \<and> quiet_as w0 ((ob_stream opened, ino) # (ob_parent_descriptor opened, d) # fds) w'"
proof -
  obtain d prints where d: "walk_from_root (w_fs w0) p = Some (d, prints)" "entry_of (w_fs w0) d (last p) = Some (ino, node)"
      and node: "n_content node = File content" "n_nlink node = 1"
    using there unfolding bundle_at_def by blast
  have ne: "prints \<noteq> []" using d(1) by (auto simp: walk_from_root_def split: option.splits if_splits prod.splits)
  obtain parent w1 where 1: "open_directory_chain p w = (Inr (parent, prints), w1)" "quiet_as w0 ((parent, d) # fds) w1"
      "parent \<notin> fst ` set fds" using quiet_chain [OF w d(1)] by blast
  have here: "map_of ((parent, d) # fds) parent = Some d" by simp
  note 2 = quiet_stat_at [OF 1(2) here d(2)] and print = private_print [OF node]
  obtain fd w2 where 3: "os_open_read_at (last p) parent w1 = (Inr fd, w2)" "quiet_as w0 ((fd, ino) # (parent, d) # fds) w2"
      "fd \<notin> fst ` set ((parent, d) # fds)" using quiet_open_read [OF 1(2) here d(2) node(1)] by blast
  have 4: "os_fstat fd w2 = (Inr (stat_of ino node), w2)"
    using 3(2) entry_inode [OF d(2)] by (intro quiet_fstat) (auto simp: quiet_as_def)
  let ?opened = "\<lparr>ob_stream = fd, ob_fingerprint = bundle_fingerprint (stat_of ino node), ob_absolute_path = p,
    ob_parent_descriptor = parent, ob_directory_fingerprints = prints\<rparr>"
  have "open_regular_bundle env name w = (Inr ?opened, w2)"
    by (simp add: open_regular_bundle_def open_bundle_leaf_def bindI_def liftI_def value_errorI_def on_errorI_def returnI_def
        p 1(1) 2 print 3(1) 4)
  then show ?thesis using d ne 1(3) 3(2,3)
    by (intro exI [of _ ?opened] exI [of _ w2] exI [of _ d]) simp
qed

lemma quiet_verify:
  assumes w: "quiet_as w0 fds w" and p: "normalized_bundle_path env name = Inr (ob_absolute_path opened)"
    and stream: "map_of fds (ob_stream opened) = Some ino"
    and parent: "map_of fds (ob_parent_descriptor opened) = Some d" "fs_inode (w_fs w0) d = Some dn"
      "directory_fingerprint (stat_of d dn) = Inr (last (ob_directory_fingerprints opened))"
    and walk: "walk_from_root (w_fs w0) (ob_absolute_path opened) = Some (d, ob_directory_fingerprints opened)"
    and leaf: "entry_of (w_fs w0) d (ob_leaf_name opened) = Some (ino, node)" "n_content node = File content" "n_nlink node = 1"
      "ob_fingerprint opened = bundle_fingerprint (stat_of ino node)"
  shows "\<exists>w'. verify_opened_bundle env name opened w = (Inr (), w') \<and> quiet_as w0 fds w'"
proof -
  have 1: "os_fstat (ob_stream opened) w = (Inr (stat_of ino node), w)"
    using w stream entry_inode [OF leaf(1)] by (intro quiet_fstat) (auto simp: quiet_as_def)
  have 2: "os_fstat (ob_parent_descriptor opened) w = (Inr (stat_of d dn), w)"
    using w parent(1,2) by (intro quiet_fstat) (auto simp: quiet_as_def)
  obtain w1 where 3: "verify_leaf_identity (ob_parent_descriptor opened) (ob_leaf_name opened) (bundle_fingerprint (stat_of ino node)) w
      = (Inr (), w1)" "quiet_as w0 fds w1" using quiet_leaf_identity [OF w parent(1) leaf(1-3)] by blast
  obtain fd w2 where 4: "open_directory_chain (ob_absolute_path opened) w1 = (Inr (fd, ob_directory_fingerprints opened), w2)"
      "quiet_as w0 ((fd, d) # fds) w2" "fd \<notin> fst ` set fds" using quiet_chain [OF 3(2) walk] by blast
  have here: "map_of ((fd, d) # fds) fd = Some d" by simp
  obtain w3 where 5: "verify_leaf_identity fd (ob_leaf_name opened) (bundle_fingerprint (stat_of ino node)) w2 = (Inr (), w3)"
      "quiet_as w0 ((fd, d) # fds) w3" using quiet_leaf_identity [OF 4(2) here leaf(1-3)] by blast
  have 6: "os_close fd w3 = (Inr (), w3\<lparr>w_fds := [] @ fds\<rparr>)"
    using 5(2) 4(3) by (intro quiet_close) (auto simp: quiet_as_def)
  have "verify_ancestors opened w = (Inr (), w3\<lparr>w_fds := fds\<rparr>)"
    by (simp add: verify_ancestors_def bindI_def liftI_def finallyI_def 2 parent(3) leaf(4) 3(1) 4(1) 5(1) 6)
  then have "verify_opened_bundle env name opened w = (Inr (), w3\<lparr>w_fds := fds\<rparr>)"
    by (simp add: verify_opened_bundle_def bindI_def liftI_def value_errorI_def 1 leaf(4) p)
  then show ?thesis using 5(2) by (auto simp: quiet_as_def)
qed

section \<open>Reading at rest\<close>

definition stream_left :: "world \<Rightarrow> (nat \<times> nat) list \<Rightarrow> nat \<Rightarrow> bytes \<times> bytes \<Rightarrow> world \<Rightarrow> bool" where
  "stream_left w0 fds fd q w \<longleftrightarrow> quiet_as w0 fds w \<and> snd q = drop (w_pos w fd) (fst q)
     \<and> (\<exists>ino node. map_of fds fd = Some ino \<and> fs_inode (w_fs w0) ino = Some node \<and> n_content node = File (fst q))"

lemma quiet_buffered_read:
  assumes "stream_left w0 fds fd (content, left) w"
  shows "\<exists>w'. buffered_read fd n w = (Inr (take n left), w') \<and> stream_left w0 fds fd (content, drop n left) w'"
proof (cases "n = 0")
  case True
  then show ?thesis using assms by (subst buffered_read.simps) simp
next
  case False
  let ?c = "take n left"
  let ?w1 = "w\<lparr>w_pos := (w_pos w)(fd := w_pos w fd + length ?c)\<rparr>"
  have 1: "os_read fd n w = (Inr ?c, ?w1)"
    using assms by (auto simp: stream_left_def quiet_as_def os_read_def inode_of_def transferred_def Let_def)
  have r1: "stream_left w0 fds fd (content, drop n left) ?w1"
    using assms by (auto simp: stream_left_def quiet_as_def min_def add.commute)
  show ?thesis
  proof (cases "left = []")
    case True
    then show ?thesis using 1 r1 False by (subst buffered_read.simps) simp
  next
    case more: False
    show ?thesis
    proof (cases "n - length ?c = 0")
      case True
      have "buffered_read fd 0 ?w1 = (Inr [], ?w1)" by (subst buffered_read.simps) simp
      then show ?thesis using 1 r1 False more True by (subst buffered_read.simps) simp
    next
      case short: False
      then have all: "?c = left" "drop n left = []" by (auto simp: min_def split: if_splits)
      have "os_read fd (n - length left) ?w1 = (Inr [], ?w1\<lparr>w_pos := w_pos ?w1\<rparr>)"
        using r1 all by (auto simp: stream_left_def quiet_as_def os_read_def inode_of_def transferred_def Let_def)
      then have "buffered_read fd (n - length left) ?w1 = (Inr [], ?w1)"
        using short all by (subst buffered_read.simps) simp
      then show ?thesis using 1 r1 False more short all by (subst buffered_read.simps) simp
    qed
  qed
qed

lemma bundle_reader_at_rest:
  "reader_follows (stream_left w0 fds fd) (\<lambda>_. False) plain_reader (bundle_reader fd)"
  "reader_follows (\<lambda>w q. stream_left w0 fds fd q w) (\<lambda>_. False) (bundle_reader fd) plain_reader"
proof -
  have rewound: "stream_left w0 fds fd (content, content) (snd (seek_start fd w))" if "stream_left w0 fds fd (content, left) w" for content left w
    using that by (auto simp: stream_left_def quiet_as_def seek_start_def)
  have seek: "seek_start fd w = (Inr (), snd (seek_start fd w))" for w by (simp add: seek_start_def)
  show "reader_follows (stream_left w0 fds fd) (\<lambda>_. False) plain_reader (bundle_reader fd)"
    unfolding reader_follows_def follows_def bundle_reader_def plain_reader_def
    using quiet_buffered_read rewound seek by fastforce
  show "reader_follows (\<lambda>w q. stream_left w0 fds fd q w) (\<lambda>_. False) (bundle_reader fd) plain_reader"
    unfolding reader_follows_def
  proof (intro conjI allI followsI)
    fix n p q x p' assume rel: "stream_left w0 fds fd q p" and r: "rd_read (bundle_reader fd) n p = (Inr x, p')"
    show "False \<or> (\<exists>q'. rd_read plain_reader n q = (Inr x, q') \<and> stream_left w0 fds fd q' p')"
      using quiet_buffered_read [of w0 fds fd "fst q" "snd q" p n] rel r
      by (cases q) (auto simp: bundle_reader_def plain_reader_def)
  next
    fix p q x p' assume rel: "stream_left w0 fds fd q p" and r: "rd_rewind (bundle_reader fd) p = (Inr x, p')"
    show "False \<or> (\<exists>q'. rd_rewind plain_reader q = (Inr x, q') \<and> stream_left w0 fds fd q' p')"
      using rewound [of "fst q" "snd q" p] rel r seek [of p]
      by (cases q) (auto simp: bundle_reader_def plain_reader_def)
  qed auto
qed

definition stays_quiet :: "world \<Rightarrow> world \<Rightarrow> bool" where
  "stays_quiet w w' \<longleftrightarrow> (w_schedule w = [] \<longrightarrow> w_schedule w' = [] \<and> w_fs w' = w_fs w \<and> w_fds w' = w_fds w)"

lemma stays_quiet_order: "reflp stays_quiet" "transp stays_quiet"
  by (auto simp: stays_quiet_def reflp_def transp_def)

lemma quiet_read_keeps: "stays_quiet w (snd (os_read fd n w))"
  by (auto simp: stays_quiet_def os_read_def Let_def fail_def split: option.splits prod.splits content.splits)

lemma buffered_read_quiet: "stays_quiet w (snd (buffered_read fd n w))"
proof (induction n arbitrary: w rule: less_induct)
  case (less n)
  obtain r w1 where 1: "os_read fd n w = (r, w1)" by fastforce
  have q1: "stays_quiet w w1" using quiet_read_keeps [of w fd n] 1 by simp
  show ?case
  proof (cases "\<exists>c. r = Inr c \<and> c \<noteq> [] \<and> n \<noteq> 0")
    case True
    then obtain c where c: "r = Inr c" "c \<noteq> []" "n \<noteq> 0" by blast
    then have "n - length c < n" by (cases c) auto
    from less [OF this, of w1] have "stays_quiet w (snd (buffered_read fd (n - length c) w1))"
      using q1 stays_quiet_order(2) by (meson transpD)
    then show ?thesis using 1 c by (subst buffered_read.simps) (auto split: prod.split sum.split)
  next
    case False
    then show ?thesis using 1 q1 stays_quiet_order(1) by (subst buffered_read.simps) (auto split: sum.split dest: reflpD)
  qed
qed

lemma reader_stays_quiet: "reader_keeps stays_quiet (bundle_reader fd)"
  using stays_quiet_order buffered_read_quiet
  by (auto simp: reader_keeps_def keeps_rel_def bundle_reader_def) (simp add: stays_quiet_def seek_start_def)

lemma quiet_audit_stream:
  assumes "stream_left w0 fds fd (content, left) w"
  shows "(\<exists>w'. audit_stream env (bundle_reader fd) w = (Inr ([], files), w')) \<longleftrightarrow> passes_audit env content files"
    and "\<And>r w'. audit_stream env (bundle_reader fd) w = (r, w') \<Longrightarrow> quiet_as w0 fds w'"
proof -
  show "(\<exists>w'. audit_stream env (bundle_reader fd) w = (Inr ([], files), w')) \<longleftrightarrow> passes_audit env content files"
    unfolding passes_audit_plain [of env content left, symmetric]
  proof
    assume "\<exists>w'. audit_stream env (bundle_reader fd) w = (Inr ([], files), w')"
    then obtain w' where r: "audit_stream env (bundle_reader fd) w = (Inr ([], files), w')" by blast
    show "fst (audit_stream env plain_reader (content, left)) = Inr ([], files)"
      using followsD [OF follows_audit_stream [OF bundle_reader_at_rest(2)] assms r] by auto
  next
    assume "fst (audit_stream env plain_reader (content, left)) = Inr ([], files)"
    then obtain q where r: "audit_stream env plain_reader (content, left) = (Inr ([], files), q)"
      by (cases "audit_stream env plain_reader (content, left)") auto
    show "\<exists>w'. audit_stream env (bundle_reader fd) w = (Inr ([], files), w')"
      using followsD [OF follows_audit_stream [OF bundle_reader_at_rest(1)] assms r] by auto
  qed
next
  fix r w' assume r: "audit_stream env (bundle_reader fd) w = (r, w')"
  have "stays_quiet w w'" using keeps_audit_stream [OF reader_stays_quiet] r unfolding keeps_rel_def by (metis snd_conv)
  then show "quiet_as w0 fds w'" using assms by (auto simp: stream_left_def quiet_as_def stays_quiet_def)
qed

section \<open>The audit at rest\<close>

lemma passes_nonempty:
  assumes "passes_audit env content files" shows "content \<noteq> []"
proof
  assume "content = []"
  moreover have "CANONICAL_GZIP_HEADER \<noteq> []" by (simp add: CANONICAL_GZIP_HEADER_def octets_def)
  ultimately have "\<not> decompressed (be_zlib env) content raw" for raw
    by (auto simp: decompressed_def inspect_gzip_stream_def bindP_def plain_reader_def)
  then show False using assms unfolding passes_audit_def by blast
qed

lemma walk_to_last:
  "walk_to s d cs = Some (d', prints) \<Longrightarrow> prints \<noteq> [] \<Longrightarrow>
   \<exists>n. fs_inode s d' = Some n \<and> is_folder n \<and> last prints = (n_dev n, d', Directory)"
proof (induction cs arbitrary: d prints)
  case (Cons c cs)
  then obtain e n rest where e: "entry_of s d c = Some (e, n)" "is_folder n" "walk_to s e cs = Some (d', rest)"
      "prints = (n_dev n, e, Directory) # rest"
    by (auto split: option.splits if_splits prod.splits)
  show ?case
  proof (cases "rest = []")
    case True
    have "d' = e" using e(3) True by (cases cs) (auto split: option.splits if_splits prod.splits)
    then show ?thesis using e True entry_inode by auto
  qed (use Cons.IH [OF e(3)] e(4) in auto)
qed simp

lemma walk_from_root_last:
  assumes "walk_from_root s p = Some (d, prints)"
  shows "\<exists>n. fs_inode s d = Some n \<and> directory_fingerprint (stat_of d n) = Inr (last prints)"
proof -
  obtain root n rest where root: "fs_inode s root = Some n" "is_folder n" "walk_to s root (butlast p) = Some (d, rest)"
      "prints = (n_dev n, root, Directory) # rest"
    using assms by (auto simp: walk_from_root_def split: option.splits if_splits prod.splits)
  show ?thesis
  proof (cases "rest = []")
    case True
    have "d = root" using root(3) True by (cases "butlast p") (auto split: option.splits if_splits prod.splits)
    then show ?thesis using root True folder_print by auto
  next
    case False
    then show ?thesis using walk_to_last [OF root(3)] root(4) folder_print by fastforce
  qed
qed

lemma quiet_audit:
  assumes w: "w_schedule w = []" and p: "normalized_bundle_path before name = Inr p" "normalized_bundle_path later name = Inr p"
    and there: "bundle_at (w_fs w) p ino node content"
  shows "(\<exists>w'. audit_bundle env before later name w = (Inr files, w')) \<longleftrightarrow> 0 < files \<and> passes_audit env content files"
proof -
  have q: "quiet_as w (w_fds w) w" using w by (simp add: quiet_as_def)
  obtain opened w1 d where o: "open_regular_bundle before name w = (Inr opened, w1)" "ob_absolute_path opened = p"
      "ob_fingerprint opened = bundle_fingerprint (stat_of ino node)"
      "walk_from_root (w_fs w) p = Some (d, ob_directory_fingerprints opened)"
      "entry_of (w_fs w) d (last p) = Some (ino, node)" "ob_parent_descriptor opened \<notin> fst ` set (w_fds w)"
      "ob_stream opened \<notin> fst ` set ((ob_parent_descriptor opened, d) # w_fds w)"
      "quiet_as w ((ob_stream opened, ino) # (ob_parent_descriptor opened, d) # w_fds w) w1"
    using quiet_open_bundle [OF q p(1) there] by blast
  let ?fds = "(ob_stream opened, ino) # (ob_parent_descriptor opened, d) # w_fds w"
  have node: "n_content node = File content" "n_nlink node = 1" "fs_inode (w_fs w) ino = Some node"
    using there entry_inode [OF o(5)] by (auto simp: bundle_at_def)
  have 1: "os_fstat (ob_stream opened) w1 = (Inr (stat_of ino node), w1)"
    using o(8) node(3) by (intro quiet_fstat) (auto simp: quiet_as_def)
  have start: "stream_left w ?fds (ob_stream opened) (content, drop (w_pos w1 (ob_stream opened)) content) w1"
    using o(8) node by (simp add: stream_left_def)
  note stream = quiet_audit_stream [OF start]
  obtain dn where dn: "fs_inode (w_fs w) d = Some dn"
      "directory_fingerprint (stat_of d dn) = Inr (last (ob_directory_fingerprints opened))"
    using walk_from_root_last [OF o(4)] by blast
  have verify: "\<exists>w3. verify_opened_bundle later name opened w2 = (Inr (), w3) \<and> quiet_as w ?fds w3" if "quiet_as w ?fds w2" for w2
    by (rule quiet_verify [OF that p(2) [folded o(2)] _ _ dn o(4) [folded o(2)] o(5) [folded o(2)] node(1,2) o(3)])
      (use o(7) in auto)
  have close: "\<exists>w4. finallyI (os_close (ob_stream opened)) (os_close (ob_parent_descriptor opened)) w3 = (Inr (), w4)"
    if "quiet_as w ?fds w3" for w3
  proof -
    have c1: "os_close (ob_stream opened) w3 = (Inr (), w3\<lparr>w_fds := [] @ (ob_parent_descriptor opened, d) # w_fds w\<rparr>)"
      using that o(7) by (intro quiet_close) (auto simp: quiet_as_def)
    have c2: "os_close (ob_parent_descriptor opened) (w3\<lparr>w_fds := (ob_parent_descriptor opened, d) # w_fds w\<rparr>)
        = (Inr (), w3\<lparr>w_fds := (ob_parent_descriptor opened, d) # w_fds w\<rparr>\<lparr>w_fds := [] @ w_fds w\<rparr>)"
      using that o(6) by (intro quiet_close) (auto simp: quiet_as_def)
    show ?thesis using c1 c2 by (simp add: finallyI_def)
  qed
  have "(\<exists>w'. audit_bundle env before later name w = (Inr files, w')) \<longleftrightarrow> 0 < files
      \<and> (\<exists>w2. audit_opened env later name opened w1 = (Inr ([], files), w2)
        \<and> (\<exists>w'. finallyI (os_close (ob_stream opened)) (os_close (ob_parent_descriptor opened)) w2 = (Inr (), w')))"
    unfolding audit_bundle_iff o(1) by auto
  also have "\<dots> \<longleftrightarrow> 0 < files \<and> (content \<noteq> [] \<and> length content \<le> MAX_BUNDLE_BYTES
      \<and> (\<exists>w2. audit_stream env (bundle_reader (ob_stream opened)) w1 = (Inr ([], files), w2)))"
    unfolding audit_opened_iff 1
    using verify close stream(2) node(1) by (auto simp: stat_of_def) blast+
  also have "\<dots> \<longleftrightarrow> 0 < files \<and> passes_audit env content files"
    using stream(1) [of env files] passes_nonempty unfolding passes_audit_def by blast
  finally show ?thesis .
qed

end
