(* ===== verification/Bundle_Example.thy ===== *)
theory Bundle_Example
  imports Bundle_Quiet
begin

text \<open>
  A bundle that the audit accepts: one file, \<open>r/a\<close>, with one octet. The compressor is one that stores
  what it is given behind the header, the decompressor takes it out again.
\<close>

section \<open>The tar stream\<close>

definition tiny_pre :: bytes where
  "tiny_pre = ''r/a'' @ zeros 97 @ ''0000644'' @ zeros 1 @ ''0000000'' @ zeros 1 @ ''0000000'' @ zeros 1
     @ ''00000000001'' @ zeros 1 @ ''00000000000'' @ zeros 1"

definition tiny_post :: bytes where
  "tiny_post = ''0'' @ zeros 100 @ ''ustar'' @ zeros 1 @ ''00'' @ zeros 64 @ ''0000000'' @ zeros 1 @ ''0000000'' @ zeros 1
     @ zeros 167"

definition tiny_header :: bytes where
  "tiny_header = tiny_pre @ (''007600'' @ [nul, CHR '' '']) @ tiny_post"

definition tiny_entry :: tar_entry where
  "tiny_entry = Member_entry tiny_header ''x'' (zeros 511)"

definition tiny_raw :: bytes where
  "tiny_raw = stream_bytes [tiny_entry] @ zeros 9216"

lemma tiny_lengths [simp]: "length tiny_pre = 148" "length tiny_post = 356" "length tiny_header = 512"
    "length (stream_bytes [tiny_entry]) = 1024" "length tiny_raw = 10240"
  by (simp_all add: tiny_pre_def tiny_post_def tiny_header_def tiny_entry_def tiny_raw_def stream_bytes_def)

lemma byte_sum_append: "byte_sum (a @ b) = byte_sum a + byte_sum b" "byte_sum (zeros n) = 0"
  by (simp_all add: byte_sum_def zeros_def sum_list_replicate nul_def)

lemma tiny_sums: "byte_sum tiny_pre = 2337" "byte_sum tiny_post = 1375"
  unfolding tiny_pre_def tiny_post_def byte_sum_append by (simp_all add: byte_sum_def)

lemma tiny_parts: "take 148 tiny_header = tiny_pre" "drop 148 tiny_header = ''007600'' @ [nul, CHR '' ''] @ tiny_post"
    "drop 156 tiny_header = tiny_post"
  by (simp_all add: tiny_header_def)

lemma tiny_checksum: "validate_raw_tar_checksum tiny_header = Inr ()"
  unfolding validate_raw_tar_checksum_def tiny_parts
  by (simp add: tiny_sums octal_digit_def octal_val_def digit_val_def)

lemma tiny_size: "parse_canonical_tar_size tiny_header = Inr 1"
proof -
  have "take 12 (drop 124 tiny_header) = ''00000000001'' @ [nul]"
    by (simp add: tiny_header_def tiny_pre_def zeros_def nul_def)
  then show ?thesis
    by (simp add: parse_canonical_tar_size_def last_bytes_def octal_digit_def octal_val_def digit_val_def)
qed

lemma tiny_type: "typeflag_of tiny_header = REGTYPE"
  unfolding typeflag_of_def tiny_parts by (simp add: tiny_post_def REGTYPE_def)

lemma tiny_name: "raw_name tiny_header = ''r/a''"
  by (simp add: raw_name_def LENGTH_NAME_def tiny_header_def tiny_pre_def zeros_def nul_def numeral_eq_Suc)

lemma tiny_policy: "member_name_policy_failure ''r/a'' False = None"
  by code_simp

lemma tiny_entry_ok: "tar_entry_ok False tiny_entry"
proof -
  have "tiny_header \<noteq> zeros BLOCKSIZE" by (simp add: tiny_header_def tiny_pre_def zeros_def BLOCKSIZE_def nul_def numeral_eq_Suc)
  then show ?thesis
    by (simp add: tiny_entry_def header_for_def tiny_checksum tiny_size tiny_type tiny_name tiny_policy validate_raw_member_name_def
        padded_size_def BLOCKSIZE_def MAX_MEMBER_BYTES_def semantic_types_def REGTYPE_def DIRTYPE_def)
qed

lemma tiny_counts: "members_in kind [tiny_entry] = (if kind REGTYPE then 1 else 0)" "sum_list (map payload_size [tiny_entry]) = 1"
  by (simp_all add: members_in_def tiny_entry_def tiny_type)

lemma tiny_tar_stream: "tar_stream [tiny_entry] tiny_raw"
proof -
  have "tiny_raw = stream_bytes [tiny_entry] @ zeros (length tiny_raw - length (stream_bytes [tiny_entry]))"
    unfolding tiny_lengths by (simp add: tiny_raw_def)
  moreover have "entries_ok False [tiny_entry]"
    using tiny_entry_ok by (simp add: tiny_entry_def)
  ultimately show ?thesis
    unfolding tar_stream_def tiny_lengths tiny_counts
    by (simp add: canonical_tar_stream_size_def BLOCKSIZE_def RECORDSIZE_def MAX_EXPANDED_BYTES_def MAX_MEMBERS_def
        MAX_ARCHIVE_FILES_def MAX_ARCHIVE_DIRECTORIES_def)
qed

section \<open>The member\<close>

definition tiny_member :: tar_member where
  "tiny_member = \<lparr>tm_name = ''r/a'', tm_uid = 0, tm_gid = 0, tm_uname = [], tm_gname = [], tm_mtime = 0, tm_linkname = [],
     tm_mode = 420, tm_type = REGTYPE, tm_size = 1, tm_pax_headers = [], tm_offset = 0, tm_offset_data = 512,
     tm_tobuf = Inr tiny_header, tm_payload = Some (''x'', [])\<rparr>"

lemma tiny_path: "member_path tiny_member = [''r'', ''a'']"
  by (simp add: member_path_def tiny_member_def) code_simp

lemma tiny_kind: "is_dir tiny_member = False" "is_file tiny_member" "\<not> is_link tiny_member" "kind_of tiny_member = File_kind"
  by (simp_all add: kind_of_def is_dir_def is_file_def is_link_def tiny_member_def REGTYPE_def DIRTYPE_def SYMTYPE_def LNKTYPE_def)

lemma tiny_content: "audited_content (allowed_binary_spec [''r'', ''a'']) ''x''"
proof -
  have "allowed_binary_spec [''r'', ''a''] = None" by (simp add: allowed_binary_spec_def ALLOWED_BINARY_FILES_def)
  moreover have "\<not> has_forbidden_binary_magic (take MAGIC_PROBE_BYTES ''x'')"
    by (simp add: has_forbidden_binary_magic_def MAGIC_PROBE_BYTES_def) code_simp
  moreover have "\<not> is_structured_pdf ''x''" by code_simp
  moreover have "\<not> is_intel_hex ''x''" by code_simp
  moreover have "\<not> startswith ''x'' GIT_LFS_POINTER_HEADER" by code_simp
  moreover have "\<not> forbidden_reference ''x''" by code_simp
  moreover have "\<not> contains_local_host_path ''x''" by code_simp
  ultimately show ?thesis by (simp add: audited_content_def nul_def)
qed

lemma tiny_name_checks: "utf8_ok False ''r/a''" "parts_posix [''r'', ''a''] = ''r/a''" "\<not> startswith ''r/a'' ''/''"
    "\<not> forbidden_namespace_path [''r'', ''a'']"
  subgoal by simp
  subgoal by code_simp
  subgoal by code_simp
  subgoal by code_simp
  done

lemma tiny_audited_name: "audited_name tiny_member"
  unfolding audited_name_def tiny_path tiny_kind using tiny_name_checks tiny_policy
  by (simp add: tiny_member_def MAX_MEMBER_NAME_BYTES_def)

lemma tiny_audited_header: "audited_header (tar_pread tiny_raw) tiny_member"
proof -
  have parts: "take 512 tiny_raw = tiny_header" "take 511 (drop 513 tiny_raw) = zeros 511"
    by (simp_all add: tiny_raw_def tiny_entry_def stream_bytes_def)
  have read: "read_exact_at (tar_pread tiny_raw) 512 0 = Inr tiny_header"
      "read_exact_at (tar_pread tiny_raw) 511 513 = Inr (zeros 511)"
    unfolding tar_file.read_exact_at_eq using parts by simp_all
  have "padding_size tiny_member = 511" by (simp add: padding_size_def tiny_member_def BLOCKSIZE_def)
  moreover have "\<not> has_nonzero (zeros 511)" by (simp add: has_nonzero_iff)
  ultimately have "audited_bytes (tar_pread tiny_raw) tiny_member"
    using read by (simp add: audited_bytes_def) (simp add: tiny_member_def)
  moreover have "\<not> path_needs_pax tiny_member" by (simp add: path_needs_pax_def LENGTH_NAME_def tiny_member_def)
  then have "list_all (\<lambda>(c, message). \<not> c) (metadata_checks tiny_member)"
    by (simp add: metadata_checks_def tiny_kind) (simp add: tiny_member_def)
  ultimately show ?thesis by (simp add: audited_header_def list_all_iff)
qed

lemma tiny_audited: "audited_members (tar_pread tiny_raw) [tiny_member]"
proof -
  have "audited_file tiny_member"
  proof -
    have "str_lower (path_suffix [''r'', ''a'']) \<notin> set FORBIDDEN_SUFFIXES" by code_simp
    then show ?thesis using tiny_content
      unfolding audited_file_def tiny_path by (simp add: tiny_kind) (simp add: tiny_member_def MAX_MEMBER_BYTES_def)
  qed
  then have "audited_member (tar_pread tiny_raw) tiny_member"
    using tiny_audited_name tiny_audited_header tiny_kind by (simp add: audited_member_def)
  moreover have "members_limited [tiny_member]"
    by (simp add: members_limited_def names_size_def of_kind_def contents_size_def tiny_kind MAX_MEMBERS_def
        MAX_ARCHIVE_FILES_def MAX_ARCHIVE_DIRECTORIES_def MAX_RETAINED_NAME_BYTES_def MAX_EXPANDED_BYTES_def)
      (simp add: tiny_member_def)
  moreover have "builder_topology (map member_path [tiny_member]) (kinds_of_members [tiny_member])"
    by (simp add: builder_topology_def kinds_of_members_def tiny_path tiny_kind holds_directory_def kinds_of_def)
  ultimately show ?thesis by (simp add: audited_members_def single_root_def)
qed

section \<open>The compressed bundle\<close>

text \<open>The state of the decompressor: what is left of the header and of the stream, and the tail.\<close>

definition stored_zlib :: "nat \<Rightarrow> (nat \<times> nat \<times> bytes) zlib" where
  "stored_zlib expanded_total =
     \<lparr>zl_start = (10, expanded_total, []),
      zl_decompress = (\<lambda>(h, b, _) data n.
        let body = drop h data; out = take (min n b) body in
        Some (out, (h - length data, b - length out, drop (length out) body))),
      zl_eof = (\<lambda>(h, b, _). h = 0 \<and> b = 0),
      zl_unused_data = (\<lambda>(h, b, rest). if b = 0 then rest else []),
      zl_unconsumed_tail = (\<lambda>(h, b, rest). if b = 0 then [] else rest)\<rparr>"

definition tiny_env :: "(nat \<times> nat \<times> bytes) bundle_env" where
  "tiny_env = \<lparr>be_zlib = stored_zlib 10240, be_gzip = (\<lambda>pieces. CANONICAL_GZIP_HEADER @ concat pieces),
     be_tarfile = (\<lambda>raw. if raw = tiny_raw then [Inr tiny_member] else []), be_repr = (\<lambda>s. s)\<rparr>"

definition tiny_bundle :: bytes where
  "tiny_bundle = CANONICAL_GZIP_HEADER @ tiny_raw"

lemma header_length [simp]: "length CANONICAL_GZIP_HEADER = 10"
  by (simp add: CANONICAL_GZIP_HEADER_def octets_def)

lemma tiny_decompressed: "decompressed (be_zlib tiny_env) tiny_bundle tiny_raw"
proof -
  have nonempty: "tiny_raw \<noteq> []" "tiny_bundle \<noteq> []"
    using tiny_lengths(5) header_length unfolding tiny_bundle_def by (metis append_is_Nil_conv list.size(3) zero_neq_numeral)+
  have out: "gzip_output (stored_zlib 10240) append_put tiny_bundle
      (gzip_init (stored_zlib 10240) (Some [])\<lparr>gz_compressed_total := 10250\<rparr>)
    = Inr (tiny_raw, [], \<lparr>gz_decompressor = (0, 0, []), gz_expanded = 10240, gz_compressed_total = 10250,
        gz_last_nonzero = (if rstrip_nul tiny_raw \<noteq> [] then int (length (rstrip_nul tiny_raw)) - 1 else - 1),
        gz_sink = Some tiny_raw\<rparr>)"
    using nonempty
    by (simp add: gzip_output_def gzip_account_def gzip_init_def stored_zlib_def tiny_bundle_def append_put_def Let_def
        GZIP_OUTPUT_BYTES_def MAX_TAR_STREAM_BYTES_def MAX_EXPANDED_BYTES_def)
  have pending: "gzip_pending (stored_zlib 10240) append_put [] s = Inr s" for s :: "(nat \<times> nat \<times> bytes, bytes) gzip_scan"
    by (simp add: gzip_pending.simps)
  have piece: "\<exists>s. gzip_piece (stored_zlib 10240) append_put tiny_bundle (gzip_init (stored_zlib 10240) (Some [])) = Inr s
      \<and> gz_decompressor s = (0, 0, []) \<and> gz_sink s = Some tiny_raw"
  proof -
    have "length tiny_bundle = 10250" by (simp add: tiny_bundle_def)
    then show ?thesis
      using out nonempty(2)
      by (simp add: gzip_piece_def Let_def MAX_BUNDLE_BYTES_def gzip_pending.simps [of _ _ tiny_bundle] pending
          gzip_init_def) (simp add: stored_zlib_def)
  qed
  then obtain s where s: "gzip_piece (stored_zlib 10240) append_put tiny_bundle (gzip_init (stored_zlib 10240) (Some [])) = Inr s"
      "gz_decompressor s = (0, 0, [])" "gz_sink s = Some tiny_raw" by blast
  have all: "take GZIP_INPUT_BYTES tiny_bundle = tiny_bundle" "drop GZIP_INPUT_BYTES tiny_bundle = []"
    by (simp_all add: tiny_bundle_def GZIP_INPUT_BYTES_def)
  have "gzip_pieces plain_reader (stored_zlib 10240) append_put s (tiny_bundle, []) = (Inr s, (tiny_bundle, []))"
    by (subst gzip_pieces.simps) (simp add: plain_reader_def)
  then have pieces: "gzip_pieces plain_reader (stored_zlib 10240) append_put (gzip_init (stored_zlib 10240) (Some [])) (tiny_bundle, tiny_bundle)
      = (Inr s, (tiny_bundle, []))"
    using s(1) nonempty(2) all by (subst gzip_pieces.simps) (simp add: plain_reader_def)
  have rewinds: "rd_rewind plain_reader q = (Inr (), (fst q, fst q))" for q by (cases q) (simp add: plain_reader_def)
  have header: "rd_read plain_reader 10 (tiny_bundle, tiny_bundle) = (Inr CANONICAL_GZIP_HEADER, (tiny_bundle, tiny_raw))"
    by (simp add: plain_reader_def tiny_bundle_def)
  show ?thesis
    unfolding decompressed_def inspect_gzip_stream_def
    by (simp add: bindP_def rewindP_def rewinds header pieces tiny_env_def s(2,3)) (simp add: stored_zlib_def)
qed

lemma tiny_passes: "passes_audit tiny_env tiny_bundle 1"
proof -
  have "tiny_raw \<noteq> []" using tiny_lengths(5) by (metis list.size(3) zero_neq_numeral)
  moreover have "file_pieces GZIP_OUTPUT_BYTES [] = []" by (subst file_pieces.simps) simp
  ultimately have pieces: "file_pieces GZIP_OUTPUT_BYTES tiny_raw = [tiny_raw]"
    using tiny_lengths(5) by (subst file_pieces.simps) (simp add: GZIP_OUTPUT_BYTES_def)
  have "audited_archive tiny_env tiny_raw [tiny_member]"
    unfolding audited_archive_def tiny_lengths
  proof (intro conjI exI)
    show "tar_stream [tiny_entry] tiny_raw" by (rule tiny_tar_stream)
    show "audited_members (tar_pread tiny_raw) [tiny_member]" by (rule tiny_audited)
    show "members_end [tiny_member] = int (length (stream_bytes [tiny_entry]))"
      unfolding tiny_lengths by (simp add: members_end_def member_end_def tiny_member_def BLOCKSIZE_def)
    show "be_tarfile tiny_env tiny_raw = map Inr [tiny_member]" by (simp add: tiny_env_def)
  qed (simp_all add: tiny_counts of_kind_def tiny_kind file_types_def directory_type_def REGTYPE_def DIRTYPE_def
      MAX_TAR_STREAM_BYTES_def MAX_EXPANDED_BYTES_def)
  moreover have "of_kind File_kind [tiny_member] = 1" by (simp add: of_kind_def tiny_kind)
  moreover have "length tiny_bundle \<le> MAX_BUNDLE_BYTES" by (simp add: tiny_bundle_def MAX_BUNDLE_BYTES_def)
  moreover have "tiny_bundle = be_gzip tiny_env (file_pieces GZIP_OUTPUT_BYTES tiny_raw)"
    by (simp add: pieces tiny_env_def tiny_bundle_def)
  ultimately show ?thesis using tiny_decompressed unfolding passes_audit_def by metis
qed

section \<open>Where it lies\<close>

definition tiny_folder :: inode where
  "tiny_folder = \<lparr>n_dev = 1, n_content = Folder [(''b'', 2)], n_perm = 493, n_nlink = 2, n_mtime = 0, n_ctime = 0\<rparr>"

definition tiny_node :: inode where
  "tiny_node = \<lparr>n_dev = 1, n_content = File tiny_bundle, n_perm = 420, n_nlink = 1, n_mtime = 0, n_ctime = 0\<rparr>"

definition tiny_fs :: fs where
  "tiny_fs = \<lparr>fs_inode = [1 \<mapsto> tiny_folder, 2 \<mapsto> tiny_node], fs_path = [[] \<mapsto> 1, [''b''] \<mapsto> 2],
     fs_canonical = (\<lambda>p. p), fs_clock = 1, fs_next = 3\<rparr>"

definition tiny_world :: world where
  "tiny_world = \<lparr>w_fs = tiny_fs, w_fds = [], w_pos = (\<lambda>_. 0), w_schedule = []\<rparr>"

definition tiny_paths :: path_env where
  "tiny_paths = \<lparr>pe_getcwd = Inr ''/'', pe_is_link = (\<lambda>_. Inr False), pe_readlink = (\<lambda>_. Inl (OSError ''readlink''))\<rparr>"

lemma tiny_path_normal: "normalized_bundle_path tiny_paths ''/b'' = Inr [''b'']"
  by (simp add: normalized_bundle_path_def abspath_parts_def SYSTEM_ROOT_ALIASES_def startswith_def)

lemma tiny_there: "bundle_at (w_fs tiny_world) [''b''] 2 tiny_node tiny_bundle"
  by (simp add: bundle_at_def walk_from_root_def is_folder_def entry_of_def tiny_world_def tiny_fs_def tiny_folder_def tiny_node_def)

lemma tiny_timely: "timely tiny_world" "w_schedule tiny_world = []"
  by (auto simp: timely_def stamped_def tiny_world_def tiny_fs_def tiny_folder_def tiny_node_def)

end
