(* ===== verification/Bundle_Properties.thy ===== *)
theory Bundle_Properties
  imports Bundle_Example
begin

text \<open>
  The properties of the audit of the source bundle (\<open>scripts/audit_singbox_source_bundle.py\<close>), from
  the scanners of one member to the audit as a whole, with a run that shows the descriptor it can lose.
\<close>

section \<open>The content of a member\<close>

text \<open>C31. The Intel HEX scanner sees the same whatever the pieces are: fed with any sequence of them, it
  accepts exactly when the whole of the bytes is an Intel HEX text, that is when no line is too long,
  there are at least two records, all with a correct checksum, and the last and no other one is the
  end-of-file record.\<close>

theorem intel_pieces_exact:
  "intel_finish (foldl intel_feed intel_init pieces) \<longleftrightarrow> is_intel_hex (concat pieces)"
proof -
  have "foldl intel_feed (intel_feed intel_init data) pieces = intel_feed intel_init (data @ concat pieces)" for data
    by (induction pieces arbitrary: data) (simp_all add: intel_feed_append)
  moreover have "intel_feed intel_init [] = intel_init" by (simp add: intel_feed_init)
  ultimately have "foldl intel_feed intel_init pieces = intel_feed intel_init (concat pieces)" by (metis append_Nil)
  then show ?thesis by (simp add: intel_finish_iff)
qed

text \<open>C9. Reading a member is independent of how its stream cuts it: whatever each \<open>read\<close> gives, the
  outcome of \<open>scan_member_payload\<close> is that of looking at the whole content once, with the forbidden
  magics, names and local paths found also where they lie across two pieces.\<close>

theorem payload_pieces_exact:
  "scan_member_payload granted_read (data, grants) member_size allowed = Inr (audit_of data member_size allowed)"
  by (rule granted.scan_whole [of "(data, grants)", unfolded fst_conv])

section \<open>The tar stream\<close>

text \<open>C5. The raw scan accepts exactly the tar streams: extended headers and members in blocks, each with
  a canonical header and a permitted name, then zeros up to the size of the records, within all limits;
  and it returns where the members end and how many there are of each kind. This holds however few of
  the bytes asked for each \<open>pread\<close> gives.\<close>

theorem raw_scan_exact:
  "scan_raw_tar_stream (cut_pread grant raw) (length raw) = Inr layout
     \<longleftrightarrow> (\<exists>es. tar_stream es raw \<and> layout = tar_layout es)"
  by (rule cut_pread_scan)

text \<open>C14. The one pass over the sorted paths with a stack of open directories decides the topology of the
  builder: no member is the root itself, the members are in order, every member has its parent
  directory, and there is a file somewhere below every directory.\<close>

theorem topology_exact:
  assumes "distinct (map fst kinds)"
  shows "validate_builder_topology member_sequence kinds failures = Inr [] \<longleftrightarrow>
    failures = [] \<and> builder_topology member_sequence kinds"
  by (rule topology_clean [OF assms])

lemma topology_exact_witness:
  "validate_builder_topology [[''r'', ''a'']] [([''r'', ''a''], [File_kind])] [] = Inr []"
  by (subst topology_exact) (simp_all add: builder_topology_def holds_directory_def kinds_of_def)

text \<open>C4. The audit of the members collects no failure exactly when every answer of \<open>tarfile\<close> is a
  member, all of them pass every check (names, headers byte for byte, padding, content), their paths are
  distinct and below one root in the topology of the builder, the counts are within the limits, and
  \<open>tarfile\<close>, the raw scan and the decompression agree on the layout; the number it gives is that of the
  files.\<close>

theorem archive_audit_exact:
  "audit_archive py_repr pread answers info layout = Inr ([], files) \<longleftrightarrow>
     (\<exists>ms. answers = map Inr ms \<and> audited_members pread ms \<and> readings_agree info layout ms \<and> files = of_kind File_kind ms)"
  by (rule audit_archive_iff)

section \<open>The audit of the bundle\<close>

text \<open>C13. On a system at rest the audit of a bundle that lies at the end of a path of directories passes
  exactly when its octets do: it is not too large, decompresses to a tar stream whose canonical
  compression is the bundle itself, the archive in it passes every check, and it has a file.\<close>

theorem audit_at_rest_exact:
  assumes "w_schedule w = []"
    and "normalized_bundle_path before name = Inr p" "normalized_bundle_path later name = Inr p"
    and "bundle_at (w_fs w) p ino node content"
  shows "(\<exists>w'. audit_bundle env before later name w = (Inr files, w')) \<longleftrightarrow> 0 < files \<and> passes_audit env content files"
  by (rule quiet_audit [OF assms])

lemma audit_at_rest_exact_witness:
  "\<exists>w'. audit_bundle tiny_env tiny_paths tiny_paths ''/b'' tiny_world = (Inr 1, w')"
  by (rule iffD2 [OF audit_at_rest_exact [OF tiny_timely(2) tiny_path_normal tiny_path_normal tiny_there]])
    (use tiny_passes in blast)



text \<open>C32. Whatever calls fail and whatever others do, an audit that returns leaves the descriptors it
  found, and one that raises leaves them or exactly one more.\<close>

theorem audit_descriptors:
  "case audit_bundle env before later name w of
     (Inr files, w') \<Rightarrow> w_fds w' = w_fds w
   | (Inl e, w') \<Rightarrow> w_fds w' = w_fds w \<or> (\<exists>fd ino. fd \<notin> fst ` set (w_fds w) \<and> w_fds w' = (fd, ino) # w_fds w)"
proof -
  obtain r w' where r: "audit_bundle env before later name w = (r, w')" by fastforce
  then show ?thesis
    using slips_errorD [OF slips_audit_bundle, of env before later name w] slipsD [OF slips_audit_bundle, of env before later name w]
    by (cases r) (auto simp: one_more_def)
qed

section \<open>The descriptor that is lost\<close>

text \<open>
  The walk to \<open>/a/b\<close> with an error of the call that closes the root after \<open>/a\<close> is open: the handler
  closes the root a second time, which fails too, and nobody closes \<open>/a\<close>.
\<close>

definition one_call :: "bool \<Rightarrow> event" where
  "one_call fault = \<lparr>ev_change = (\<lambda>s. s), ev_fault = fault, ev_limit = None\<rparr>"

definition lossy_folder :: "(string \<times> nat) list \<Rightarrow> inode" where
  "lossy_folder entries =
     \<lparr>n_dev = 1, n_content = Folder entries, n_perm = 493, n_nlink = 2, n_mtime = 0, n_ctime = 0\<rparr>"

definition lossy_world :: world where
  "lossy_world =
     \<lparr>w_fs = \<lparr>fs_inode = [1 \<mapsto> lossy_folder [(''a'', 2)], 2 \<mapsto> lossy_folder []], fs_path = [[] \<mapsto> 1, [''a''] \<mapsto> 2],
             fs_canonical = (\<lambda>p. p), fs_clock = 1, fs_next = 3\<rparr>,
      w_fds = [], w_pos = (\<lambda>_. 0), w_schedule = map one_call [False, False, False, False, True]\<rparr>"

lemma chain_loses_descriptor:
  "\<exists>e w'. w_fds lossy_world = [] \<and> open_directory_chain [''a'', ''b''] lossy_world = (Inl e, w') \<and> length (w_fds w') = 1"
  by (simp add: lossy_world_def one_call_def lossy_folder_def open_directory_chain_def open_child_def bindI_def
      on_errorI_def liftI_def returnI_def syscall_def os_open_dir_def os_open_dir_at_def os_fstat_def os_close_def
      directory_fingerprint_def inode_of_def lookup_path_def lookup_at_def entries_of_def new_fd_def fresh_fd_def fail_def
      stat_of_def Let_def)

end
