(* ===== verification/Spec2Isabelle.thy ===== *)
theory Spec2Isabelle
  imports Release_Properties Remote_Release_Props Elf_Example Artifacts_Props Manifests_Props Retirement_Properties
    Pinned_Inputs_Props Published Head_State Repo_State_Props Build_Snapshots_Props Gh_Process_Props
    Bundle_Properties
begin

text \<open>
  The release tools of exitFy-cores (the Python scripts below \<open>src/scripts\<close>). A release run checks that
  the working tree is exactly the expected commit, builds the native cores, inspects them as ELF
  files, writes a manifest, hands the candidate over between jobs with a signed-off digest, creates a
  draft release, uploads, and checks what GitHub then shows. Every script is meant to fail closed: each
  doubt is an exception. The development translates the scripts function by function and proves what
  an accepted run means.

  \<^bold>\<open>Foundations\<close>
  \<^item> \<open>Prelude\<close>: errors as values of \<open>err + 'a\<close> (\<open>res\<close>) with \<open>bindE\<close>, folds and maps that stop at the first
    error, decimal numerals, stable sorting by a key, octets as \<open>char\<close>. A Python string is the list of the
    octets of its UTF-8 encoding. The collection \<open>res_iff\<close> says when a computation returns.
  \<^item> \<open>Py_Regex\<close>: regular expressions by derivatives, \<open>fullmatch\<close> with the language it decides, and the patterns
    of the scripts. \<open>Py_Json\<close>, \<open>Py_Json_Props\<close>: \<open>json.loads\<close> and \<open>json.dumps\<close> with the round trip on plain values.
    \<open>Py_Text\<close>: \<open>strip\<close>, \<open>split\<close>, decoding. \<open>Sha256\<close>: the digest as an executable function.
  \<^item> \<open>Os_Model\<close>, \<open>Os_Rules\<close>, \<open>Os_Files\<close>: the system calls the scripts use, over a world of inodes, names and
    descriptors. Before every call the environment may change the file system and may make the call
    fail or transfer less; the schedule of these interferences is part of the world, and the theorems
    hold for every schedule. \<open>timely\<close> worlds are those in which a change of a file leaves a new time stamp.
    \<open>balanced\<close> scripts return the descriptors they open, \<open>progress\<close> says that files only evolve.

  \<^bold>\<open>Components\<close> (each theory names its script; \<open>_Props\<close> and \<open>_Properties\<close> hold the proofs)
  \<^item> \<open>Release_Draft\<close>: \<open>release_draft_state.py\<close>. Choice of the draft, readiness of its assets, reservation of wrapper
    revisions, downgrade guard, tag references, command line with its exit status.
  \<^item> \<open>Remote_Release\<close>: \<open>verify_remote_release.py\<close>. The published assets against the manifest and the pins.
  \<^item> \<open>Elf_Reader\<close>, \<open>Elf_Hash\<close>, \<open>Elf_Inspect\<close>: the inspection of \<open>verify_artifacts.py\<close>, from bounded reads with
    \<open>os.pread\<close> up to the exported symbols. \<open>Elf_Example\<close> builds a library that is accepted.
  \<^item> \<open>Artifacts\<close>: the rest of \<open>verify_artifacts.py\<close> and \<open>verify_singbox_artifacts.py\<close>: safe opening, identity checks,
    attestation. \<open>Manifests\<close>: the generating and verifying scripts of both families.
  \<^item> \<open>Handoff_Files\<close>, \<open>Handoff\<close>: \<open>candidate_handoff.py\<close>, its checked reads, copies and writes, and the contract.
  \<^item> \<open>Retirement\<close>, \<open>Receipts\<close>, \<open>Retirement_Receipt\<close>: \<open>retire_legacy_workflows.py\<close> above the GitHub client. GitHub is a
    function of the requests sent so far; \<open>Github_Service\<close> is an honest service as a state machine and
    shows that the retirement completes against it.
  \<^item> \<open>Gh_Process\<close>: the client itself, \<open>GitHubApi\<close>. Scripts are state transformers over the variables of the
    capture, whose outcome is a value, an exception, or that the fuel ran out; the operating system
    answers from the trace of all calls. \<open>Gh_Process_Props\<close> has triples with a rule for each combinator.
  \<^item> \<open>Pinned_Inputs\<close>, \<open>Git_Tool\<close>, \<open>Repo_State\<close>, \<open>Build_Snapshots\<close>: \<open>verify_build_inputs.py\<close>. Pinned directories and stable
    reads, running \<open>git\<close> and \<open>go\<close>, the accepted state of the repository, the pin snapshot.
  \<^item> \<open>Bundle_Scan\<close>, \<open>Bundle_Tar\<close>, \<open>Bundle_Gzip\<close>, \<open>Bundle_Audit\<close>, \<open>Bundle_Open\<close>: \<open>audit_singbox_source_bundle.py\<close>, the scan
    of a member for what source must not contain, the scan of the raw tar stream, the checks of the
    compression, the audit of the members and their topology, and the opening of the bundle with the whole.
    The decompressor, the compressor and \<open>tarfile\<close> are parameters. \<open>Bundle_Hex_Props\<close>, \<open>Bundle_Scan_Props\<close> and
    \<open>Bundle_Payload\<close> show that pieces do not matter, \<open>Bundle_Tar_Props\<close> compares the raw scan with a grammar,
    \<open>Bundle_Topology\<close> and \<open>Bundle_Audit_Props\<close> say which archives pass, \<open>Bundle_Leaks\<close> counts descriptors,
    \<open>Bundle_Reading\<close> shows by simulation that a run among other processes is one over octets at rest,
    \<open>Bundle_Quiet\<close> is the converse on a system at rest, \<open>Bundle_Example\<close> is a bundle that passes, and
    \<open>Bundle_Properties\<close> has the claims.
  \<^item> \<open>Head_State\<close>: \<open>release_head_state.py\<close>. \<open>Published\<close>: \<open>verify_published_candidate.py\<close>, composed of the above.

  \<^bold>\<open>What the lemmas show\<close>
  Exactness: the draft choice, the downgrade guard, the tag check, the range arithmetic of segments,
  file names, the index of the repository and the list of changes are accepted exactly when a
  specification holds that does not follow the control flow. Safety: an accepted library, release,
  artifact, read or copy has the promised contents, with an environment that interferes between
  calls; a retirement sends only what was confirmed; no signal goes to a process group that may have
  been reused; a bundle that passes its audit has been audited as one sequence of octets. Refinement and
  equivalence: the inspection depends on the contents only, the memoised walk of the GNU hash chains is
  the plain walk, the masked integer hashes are the 32-bit ones, the raw tar scan accepts the streams of
  a grammar, a member is judged by its whole content however it is read. Error
  behaviour: the receipt path never leads to half a receipt; the retry status has one cause.
  Termination: the capture of a child process ends on a clock that advances.

  \<^bold>\<open>Bounds and fuel\<close>
  The JSON parser runs on fuel of twice the length of the text and two, and never runs out (\<open>json_loads_total\<close>).
  The hash chases of the ELF tables run on the number of symbols, after which the code raises as well.
  The loops that read and write to the end run by well-founded recursion on what is left.
  The loop of the decompression lowers the input that is pending as long as the decompressor does not
  hand back more than it got; the model stops with a value of its own where it does (\<open>inspect_gzip_ends\<close>).
  The capture of \<open>Gh_Process\<close> has no bound in the code but its clock; its fuel is enough when it exceeds the
  deadlines in nanoseconds, since every pause takes at least one (\<open>capture_ends\<close>).

  \<^bold>\<open>Not modelled\<close>
  \<open>audit_public_tree.py\<close> and \<open>build_singbox_source_bundle.py\<close>; the supervisor
  \<open>_run_bounded\<close> of \<open>verify_build_inputs.py\<close>, whose result is the parameter \<open>t_run\<close>; the Go sources, the shell
  scripts and the workflows. Of the modelled scripts: argument parsing by \<open>argparse\<close> (the parsed arguments
  are given), printing, the values formatted into error messages, checks of what the platform
  supports, buffering of file objects, symbolic links other than through the maps \<open>fs_path\<close> and \<open>fs_canonical\<close>
  from paths to inodes and to canonical paths, the limit on the digits of an integer, recursion limits and memory.
\<close>

end
